(* ===== verification/Prelude.thy ===== *)
theory Prelude
  imports Main "HOL-Library.Char_ord"
begin

text \<open>
  Shared ground of the development.  The Python code under src/discovery-provider
  raises exceptions and mutates shared objects while it does so, and the callers
  swallow the exceptions: what a failed call leaves behind is therefore part of the
  behaviour.  The section on effects defines the state-and-exception monad all
  handlers are written in, with the two rule collections the proofs use:
  \<open>py_simps\<close> unfolds the monad for evaluation and \<open>keeps_rules\<close> pushes an invariant
  through a handler.  The rest is insertion-ordered dictionaries, the decimal
  rendering of integers, and the string operations of Python's \<open>str\<close> over the code
  points 0 to 255, which is the character range of \<open>char\<close>.
\<close>

section \<open>Collections of rules\<close>

named_theorems py_simps "unfolding the state-and-exception monad"
named_theorems keeps_rules "invariants through the monad"
named_theorems od_simps "insertion-ordered dictionaries"

section \<open>Exceptions and effects\<close>

datatype exn =
    KeyError
  | TypeError
  | AttributeError
  | IndexError
  | ValueError
  | MultipleResultsFound
  | Raised string

type_synonym 'a result = "exn + 'a"
type_synonym ('s, 'a) py = "'s \<Rightarrow> 'a result \<times> 's"

definition ret :: "'a \<Rightarrow> ('s, 'a) py" where
  "ret x = (\<lambda>s. (Inr x, s))"

definition raise :: "exn \<Rightarrow> ('s, 'a) py" where
  "raise e = (\<lambda>s. (Inl e, s))"

definition bnd :: "('s, 'a) py \<Rightarrow> ('a \<Rightarrow> ('s, 'b) py) \<Rightarrow> ('s, 'b) py" where
  "bnd m f = (\<lambda>s. case m s of (Inl e, t) \<Rightarrow> (Inl e, t) | (Inr x, t) \<Rightarrow> f x t)"

definition sq :: "('s, 'a) py \<Rightarrow> ('s, 'b) py \<Rightarrow> ('s, 'b) py" where
  "sq m n = bnd m (\<lambda>_. n)"

definition gets :: "('s \<Rightarrow> 'a) \<Rightarrow> ('s, 'a) py" where
  "gets f = (\<lambda>s. (Inr (f s), s))"

definition modify :: "('s \<Rightarrow> 's) \<Rightarrow> ('s, unit) py" where
  "modify f = (\<lambda>s. (Inr (), f s))"

definition lift_res :: "'a result \<Rightarrow> ('s, 'a) py" where
  "lift_res r = (\<lambda>s. (r, s))"

definition require :: "bool \<Rightarrow> exn \<Rightarrow> ('s, unit) py" where
  "require b e = (if b then ret () else raise e)"

definition run_when :: "bool \<Rightarrow> ('s, unit) py \<Rightarrow> ('s, unit) py" where
  "run_when b m = (if b then m else ret ())"

text \<open>\<open>try: m except Exception: pass\<close>: the state reached when the exception was raised stays.\<close>

definition swallow :: "('s, unit) py \<Rightarrow> ('s, unit) py" where
  "swallow m = (\<lambda>s. (Inr (), snd (m s)))"

primrec for_each :: "'a list \<Rightarrow> ('a \<Rightarrow> ('s, unit) py) \<Rightarrow> ('s, unit) py" where
  "for_each [] f = ret ()"
| "for_each (x # xs) f = sq (f x) (for_each xs f)"

primrec fold_res :: "('a \<Rightarrow> 'b \<Rightarrow> 'b result) \<Rightarrow> 'a list \<Rightarrow> 'b \<Rightarrow> 'b result" where
  "fold_res f [] b = Inr b"
| "fold_res f (x # xs) b = (case f x b of Inl e \<Rightarrow> Inl e | Inr b' \<Rightarrow> fold_res f xs b')"

primrec map_res :: "('a \<Rightarrow> 'b result) \<Rightarrow> 'a list \<Rightarrow> 'b list result" where
  "map_res f [] = Inr []"
| "map_res f (x # xs) = (case f x of Inl e \<Rightarrow> Inl e
     | Inr y \<Rightarrow> (case map_res f xs of Inl e \<Rightarrow> Inl e | Inr ys \<Rightarrow> Inr (y # ys)))"

definition bind_res :: "'a result \<Rightarrow> ('a \<Rightarrow> 'b result) \<Rightarrow> 'b result" where
  "bind_res r f = (case r of Inl e \<Rightarrow> Inl e | Inr x \<Rightarrow> f x)"

definition require_res :: "bool \<Rightarrow> exn \<Rightarrow> unit result" where
  "require_res b e = (if b then Inr () else Inl e)"

lemmas py_monad_defs [py_simps] =
  ret_def raise_def bnd_def sq_def gets_def modify_def lift_res_def require_def
  run_when_def swallow_def

lemma bind_res_simps [simp]:
  "bind_res (Inl e) f = Inl e"
  "bind_res (Inr x) f = f x"
  by (simp_all add: bind_res_def)

lemma bind_res_Inr: "bind_res r f = Inr y \<longleftrightarrow> (\<exists>x. r = Inr x \<and> f x = Inr y)"
  by (cases r) auto

lemma require_res_simps [simp]:
  "require_res True e = Inr ()"
  "require_res False e = Inl e"
  by (simp_all add: require_res_def)

lemma require_res_Inr [simp]: "require_res b e = Inr u \<longleftrightarrow> b"
  by (simp add: require_res_def)

lemma bnd_Inr:
  "bnd m f s = (Inr y, t) \<longleftrightarrow> (\<exists>x u. m s = (Inr x, u) \<and> f x u = (Inr y, t))"
  by (auto simp: bnd_def split: prod.splits sum.splits)

lemma sq_Inr:
  "sq m n s = (Inr y, t) \<longleftrightarrow> (\<exists>x u. m s = (Inr x, u) \<and> n u = (Inr y, t))"
  by (simp add: sq_def bnd_Inr)

lemma fst_sq_Inr: "fst (sq m n s) = Inr y \<Longrightarrow> \<exists>x. fst (m s) = Inr x"
  by (auto simp: sq_def bnd_def split: prod.splits sum.splits)

lemma sq_lift_res:
  "sq (lift_res (Inl e)) n s = (Inl e, s)"
  "sq (lift_res (Inr x)) n s = n s"
  by (simp_all add: py_simps)

lemma bnd_lift_res:
  "bnd (lift_res (Inl e)) f s = (Inl e, s)"
  "bnd (lift_res (Inr x)) f s = f x s"
  by (simp_all add: py_simps)

subsection \<open>Invariants through the monad\<close>

text \<open>\<open>keeps I m\<close>: running \<open>m\<close> keeps \<open>I\<close>, whether it returns or raises.\<close>

definition keeps :: "('s \<Rightarrow> bool) \<Rightarrow> ('s, 'a) py \<Rightarrow> bool" where
  "keeps I m \<longleftrightarrow> (\<forall>s. I s \<longrightarrow> I (snd (m s)))"

lemma keepsI: "(\<And>s. I s \<Longrightarrow> I (snd (m s))) \<Longrightarrow> keeps I m"
  by (simp add: keeps_def)

lemma keepsD: "keeps I m \<Longrightarrow> I s \<Longrightarrow> I (snd (m s))"
  by (simp add: keeps_def)

lemma keeps_ret [keeps_rules]: "keeps I (ret x)"
  by (simp add: keeps_def ret_def)

lemma keeps_raise [keeps_rules]: "keeps I (raise e)"
  by (simp add: keeps_def raise_def)

lemma keeps_gets [keeps_rules]: "keeps I (gets f)"
  by (simp add: keeps_def gets_def)

lemma keeps_lift_res [keeps_rules]: "keeps I (lift_res r)"
  by (simp add: keeps_def lift_res_def)

lemma keeps_require [keeps_rules]: "keeps I (require b e)"
  by (simp add: require_def keeps_ret keeps_raise)

lemma keeps_modify: "(\<And>s. I s \<Longrightarrow> I (f s)) \<Longrightarrow> keeps I (modify f)"
  by (simp add: keeps_def modify_def)

lemma keeps_bnd [keeps_rules]:
  "keeps I m \<Longrightarrow> (\<And>x. keeps I (f x)) \<Longrightarrow> keeps I (bnd m f)"
  by (fastforce simp: keeps_def bnd_def split: prod.split sum.split)

lemma keeps_sq [keeps_rules]: "keeps I m \<Longrightarrow> keeps I n \<Longrightarrow> keeps I (sq m n)"
  by (simp add: sq_def keeps_bnd)

lemma keeps_run_when [keeps_rules]: "(b \<Longrightarrow> keeps I m) \<Longrightarrow> keeps I (run_when b m)"
  by (simp add: run_when_def keeps_ret)

lemma keeps_if [keeps_rules]:
  "(b \<Longrightarrow> keeps I m) \<Longrightarrow> (\<not> b \<Longrightarrow> keeps I n) \<Longrightarrow> keeps I (if b then m else n)"
  by simp

lemma keeps_swallow [keeps_rules]: "keeps I m \<Longrightarrow> keeps I (swallow m)"
  by (simp add: keeps_def swallow_def)

lemma keeps_for_each [keeps_rules]:
  "(\<And>x. x \<in> set xs \<Longrightarrow> keeps I (f x)) \<Longrightarrow> keeps I (for_each xs f)"
  by (induction xs) (simp_all add: keeps_ret keeps_sq)

text \<open>Running a computation on one component of the state.\<close>

definition zoom :: "('s \<Rightarrow> 't) \<Rightarrow> ('t \<Rightarrow> 's \<Rightarrow> 's) \<Rightarrow> ('t, 'a) py \<Rightarrow> ('s, 'a) py" where
  "zoom get put m = (\<lambda>s. case m (get s) of (r, t) \<Rightarrow> (r, put t s))"

lemma keeps_zoom:
  "keeps J m \<Longrightarrow> (\<And>s. I s \<Longrightarrow> J (get s)) \<Longrightarrow> (\<And>s t. I s \<Longrightarrow> J t \<Longrightarrow> I (put t s)) \<Longrightarrow>
   keeps I (zoom get put m)"
  by (force simp: keeps_def zoom_def split: prod.split)

lemma keeps_zoom_frame: "(\<And>s t. I s \<Longrightarrow> I (put t s)) \<Longrightarrow> keeps I (zoom get put m)"
  by (simp add: keeps_def zoom_def split: prod.split)

lemma keeps_conj: "keeps I m \<Longrightarrow> keeps J m \<Longrightarrow> keeps (\<lambda>s. I s \<and> J s) m"
  by (simp add: keeps_def)

text \<open>
  \<open>gives I m Q\<close>: running \<open>m\<close> keeps \<open>I\<close>, and a value it returns satisfies \<open>Q\<close>.
\<close>

named_theorems gives_rules "invariants with a fact about the returned value"

definition gives :: "('s \<Rightarrow> bool) \<Rightarrow> ('s, 'a) py \<Rightarrow> ('a \<Rightarrow> bool) \<Rightarrow> bool" where
  "gives I m Q \<longleftrightarrow> (\<forall>s. I s \<longrightarrow> I (snd (m s)) \<and> (\<forall>x. fst (m s) = Inr x \<longrightarrow> Q x))"

lemma gives_keeps: "gives I m Q \<Longrightarrow> keeps I m"
  by (simp add: gives_def keeps_def)

lemma keeps_gives: "keeps I m \<Longrightarrow> gives I m (\<lambda>_. True)"
  by (simp add: gives_def keeps_def)

lemma gives_ret [gives_rules]: "Q x \<Longrightarrow> gives I (ret x) Q"
  by (simp add: gives_def ret_def)

lemma gives_raise [gives_rules]: "gives I (raise e) Q"
  by (simp add: gives_def raise_def)

lemma gives_lift_res [gives_rules]: "(\<And>x. r = Inr x \<Longrightarrow> Q x) \<Longrightarrow> gives I (lift_res r) Q"
  by (simp add: gives_def lift_res_def)

lemma gives_gets: "(\<And>s. I s \<Longrightarrow> Q (f s)) \<Longrightarrow> gives I (gets f) Q"
  by (simp add: gives_def gets_def)

lemma gives_bnd:
  "gives I m Q \<Longrightarrow> (\<And>x. Q x \<Longrightarrow> gives I (f x) R) \<Longrightarrow> gives I (bnd m f) R"
  by (fastforce simp: gives_def bnd_def split: prod.split sum.split)

lemma gives_sq: "gives I m Q \<Longrightarrow> gives I n R \<Longrightarrow> gives I (sq m n) R"
  by (rule gives_bnd [of I m Q "\<lambda>_. n" R, folded sq_def])

lemma gives_gets_lift:
  "(\<And>s x. I s \<Longrightarrow> f s = Inr x \<Longrightarrow> Q x) \<Longrightarrow> gives I (bnd (gets f) lift_res) Q"
  by (simp add: gives_def bnd_def gets_def lift_res_def)

lemma keeps_bnd_gives:
  "gives I m Q \<Longrightarrow> (\<And>x. Q x \<Longrightarrow> keeps I (f x)) \<Longrightarrow> keeps I (bnd m f)"
  by (rule gives_keeps, rule gives_bnd, assumption, rule keeps_gives)

text \<open>
  \<open>leads I m J\<close>: from a state in \<open>I\<close>, \<open>m\<close> ends in a state in \<open>J\<close>, whether it returns or raises.
  The last effect of a handler is often the one that leaves \<open>I\<close>.
\<close>

definition leads :: "('s \<Rightarrow> bool) \<Rightarrow> ('s, 'a) py \<Rightarrow> ('s \<Rightarrow> bool) \<Rightarrow> bool" where
  "leads I m J \<longleftrightarrow> (\<forall>s. I s \<longrightarrow> J (snd (m s)))"

lemma leadsD: "leads I m J \<Longrightarrow> I s \<Longrightarrow> J (snd (m s))"
  by (simp add: leads_def)

lemma leads_keeps: "keeps I m \<Longrightarrow> (\<And>s. I s \<Longrightarrow> J s) \<Longrightarrow> leads I m J"
  by (simp add: leads_def keeps_def)

lemma leads_bnd:
  "gives I m Q \<Longrightarrow> (\<And>s. I s \<Longrightarrow> J s) \<Longrightarrow> (\<And>x. Q x \<Longrightarrow> leads I (f x) J) \<Longrightarrow> leads I (bnd m f) J"
  by (fastforce simp: leads_def gives_def bnd_def split: prod.split sum.split)

lemma leads_sq:
  "keeps I m \<Longrightarrow> (\<And>s. I s \<Longrightarrow> J s) \<Longrightarrow> leads I n J \<Longrightarrow> leads I (sq m n) J"
  by (fastforce simp: leads_def keeps_def sq_def bnd_def split: prod.split sum.split)

lemma leads_sq_gives:
  "gives I m Q \<Longrightarrow> (\<And>s. I s \<Longrightarrow> J s) \<Longrightarrow> (\<And>x. Q x \<Longrightarrow> leads I n J) \<Longrightarrow> leads I (sq m n) J"
  unfolding sq_def by (rule leads_bnd)

lemma leads_then: "leads I m J \<Longrightarrow> keeps J n \<Longrightarrow> leads I (sq m n) J"
  by (fastforce simp: leads_def keeps_def sq_def bnd_def split: prod.split sum.split)

lemma leads_then_bnd: "leads I m J \<Longrightarrow> (\<And>x. keeps J (f x)) \<Longrightarrow> leads I (bnd m f) J"
  by (fastforce simp: leads_def keeps_def bnd_def split: prod.split sum.split)

lemma leads_lift:
  "(\<And>s. I s \<Longrightarrow> J s) \<Longrightarrow> (\<And>x. r = Inr x \<Longrightarrow> leads I (f x) J) \<Longrightarrow> leads I (bnd (lift_res r) f) J"
  by (cases r) (simp_all add: leads_def bnd_lift_res)

lemma leads_gets_lift:
  "(\<And>s. I s \<Longrightarrow> J s) \<Longrightarrow> (\<And>s x. I s \<Longrightarrow> g s = Inr x \<Longrightarrow> leads I (f x) J) \<Longrightarrow>
   leads I (bnd (bnd (gets g) lift_res) f) J"
  by (fastforce simp: leads_def bnd_def gets_def lift_res_def split: sum.split)

lemma leads_sq_lift:
  "(\<And>s. I s \<Longrightarrow> J s) \<Longrightarrow> leads I n J \<Longrightarrow> leads I (sq (lift_res r) n) J"
  by (rule leads_sq) (simp_all add: keeps_lift_res)

lemma leads_bnd_keeps:
  "keeps I m \<Longrightarrow> (\<And>s. I s \<Longrightarrow> J s) \<Longrightarrow> (\<And>x. leads I (f x) J) \<Longrightarrow> leads I (bnd m f) J"
  by (rule leads_bnd [OF keeps_gives])

lemma leads_run_when:
  "(\<And>s. I s \<Longrightarrow> J s) \<Longrightarrow> leads I m J \<Longrightarrow> leads I (run_when b m) J"
  by (simp add: leads_def run_when_def ret_def)

lemma leads_if:
  "(b \<Longrightarrow> leads I m J) \<Longrightarrow> (\<not> b \<Longrightarrow> leads I n J) \<Longrightarrow> leads I (if b then m else n) J"
  by simp

lemma run_Inr:
  "require b x s = (Inr u, t) \<longleftrightarrow> b \<and> t = s"
  "ret y s = (Inr z, t) \<longleftrightarrow> y = z \<and> t = s"
  "gets f s = (Inr z, t) \<longleftrightarrow> f s = z \<and> t = s"
  "lift_res r s = (Inr z, t) \<longleftrightarrow> r = Inr z \<and> t = s"
  by (auto simp: py_simps)

lemma gives_if:
  "(b \<Longrightarrow> gives I m Q) \<Longrightarrow> (\<not> b \<Longrightarrow> gives I n Q) \<Longrightarrow> gives I (if b then m else n) Q"
  by simp

lemma gives_conseq: "gives I m Q \<Longrightarrow> (\<And>x. Q x \<Longrightarrow> R x) \<Longrightarrow> gives I m R"
  by (auto simp: gives_def)

lemma leads_swallow: "leads I m J \<Longrightarrow> leads I (swallow m) J"
  by (simp add: leads_def swallow_def)

lemma map_res_Inr: "(\<And>x. x \<in> set xs \<Longrightarrow> f x = Inr (g x)) \<Longrightarrow> map_res f xs = Inr (map g xs)"
  by (induction xs) auto

lemma map_res_mem_iff: "map_res f xs = Inr ys \<Longrightarrow> y \<in> set ys \<longleftrightarrow> (\<exists>x \<in> set xs. f x = Inr y)"
  by (induction xs arbitrary: ys) (auto split: sum.splits)

lemma map_res_mem: "map_res f xs = Inr ys \<Longrightarrow> y \<in> set ys \<Longrightarrow> \<exists>x \<in> set xs. f x = Inr y"
  by (simp add: map_res_mem_iff)

lemma map_res_total: "map_res f xs = Inr ys \<Longrightarrow> x \<in> set xs \<Longrightarrow> \<exists>y. f x = Inr y"
  by (induction xs arbitrary: ys) (auto split: sum.splits)

lemma map_res_map: "map_res f (map g xs) = map_res (f \<circ> g) xs"
  by (induction xs) (auto split: sum.split)

lemma filter_single: "length (filter P xs) \<le> 1 \<Longrightarrow> x \<in> set xs \<Longrightarrow> P x \<Longrightarrow> filter P xs = [x]"
proof -
  assume "length (filter P xs) \<le> 1" and "x \<in> set xs" and "P x"
  moreover from this have "x \<in> set (filter P xs)" by simp
  ultimately show ?thesis by (cases "filter P xs") auto
qed

section \<open>Insertion-ordered dictionaries\<close>

text \<open>
  A Python \<open>dict\<close> keeps the position of a key when its value is replaced and appends new
  keys at the end; iteration follows that order.
\<close>

type_synonym ('k, 'v) odict = "('k \<times> 'v) list"

fun od_get :: "('k, 'v) odict \<Rightarrow> 'k \<Rightarrow> 'v option" where
  "od_get [] k = None"
| "od_get ((k', v) # d) k = (if k' = k then Some v else od_get d k)"

fun od_set :: "('k, 'v) odict \<Rightarrow> 'k \<Rightarrow> 'v \<Rightarrow> ('k, 'v) odict" where
  "od_set [] k v = [(k, v)]"
| "od_set ((k', w) # d) k v = (if k' = k then (k, v) # d else (k', w) # od_set d k v)"

definition od_keys :: "('k, 'v) odict \<Rightarrow> 'k list" where
  "od_keys d = map fst d"

definition od_has :: "('k, 'v) odict \<Rightarrow> 'k \<Rightarrow> bool" where
  "od_has d k \<longleftrightarrow> od_get d k \<noteq> None"

definition od_default :: "('k, 'v) odict \<Rightarrow> 'k \<Rightarrow> 'v \<Rightarrow> 'v" where
  "od_default d k v = (case od_get d k of None \<Rightarrow> v | Some w \<Rightarrow> w)"

text \<open>\<open>{key(x): val(x) for x in xs}\<close>: later elements replace earlier ones of the same key.\<close>

definition od_build :: "('a \<Rightarrow> 'k) \<Rightarrow> ('a \<Rightarrow> 'v) \<Rightarrow> 'a list \<Rightarrow> ('k, 'v) odict" where
  "od_build key val xs = fold (\<lambda>x d. od_set d (key x) (val x)) xs []"

lemma od_get_set [od_simps, simp]:
  "od_get (od_set d k v) k' = (if k = k' then Some v else od_get d k')"
  by (induction d) auto

lemma od_keys_set [od_simps]:
  "od_keys (od_set d k v) = (if k \<in> set (od_keys d) then od_keys d else od_keys d @ [k])"
  by (induction d k v rule: od_set.induct) (auto simp: od_keys_def)

lemma od_get_None_iff: "od_get d k = None \<longleftrightarrow> k \<notin> set (od_keys d)"
  by (induction d k rule: od_get.induct) (simp_all add: od_keys_def)

lemma od_has_iff [od_simps]: "od_has d k \<longleftrightarrow> k \<in> set (od_keys d)"
  by (simp only: od_has_def od_get_None_iff not_not)

lemma distinct_od_set: "distinct (od_keys d) \<Longrightarrow> distinct (od_keys (od_set d k v))"
  by (simp add: od_keys_set)

lemma od_get_in_set: "od_get d k = Some v \<Longrightarrow> (k, v) \<in> set d"
  by (induction d) (auto split: if_splits)

lemma in_set_od_get: "distinct (od_keys d) \<Longrightarrow> (k, v) \<in> set d \<Longrightarrow> od_get d k = Some v"
  by (induction d k rule: od_get.induct) (auto simp: od_keys_def rev_image_eqI)

lemma in_set_od_set:
  "x \<in> set (od_set d k v) \<Longrightarrow> x = (k, v) \<or> x \<in> set d"
  by (induction d) (auto split: if_splits)

lemma od_get_fold_set:
  "od_get (fold (\<lambda>x d. od_set d (key x) (val x)) xs d0) k =
     (case filter (\<lambda>x. key x = k) xs of [] \<Rightarrow> od_get d0 k | ys \<Rightarrow> Some (val (last ys)))"
  by (induction xs arbitrary: d0) (auto split: list.splits)

lemma od_get_build:
  "od_get (od_build key val xs) k =
     (case filter (\<lambda>x. key x = k) xs of [] \<Rightarrow> None | ys \<Rightarrow> Some (val (last ys)))"
  by (simp add: od_build_def od_get_fold_set cong: list.case_cong)

lemma od_get_build_SomeD:
  "od_get (od_build key val xs) k = Some v \<Longrightarrow> \<exists>x \<in> set xs. key x = k \<and> val x = v"
proof -
  assume *: "od_get (od_build key val xs) k = Some v"
  obtain y ys where y: "filter (\<lambda>x. key x = k) xs = y # ys"
    using * by (cases "filter (\<lambda>x. key x = k) xs") (auto simp: od_get_build)
  have "last (y # ys) \<in> set (filter (\<lambda>x. key x = k) xs)"
    unfolding y by (rule last_in_set) simp
  moreover have "v = val (last (y # ys))" using * by (simp add: od_get_build y)
  ultimately show ?thesis by auto
qed

lemma od_get_build_None:
  "od_get (od_build key val xs) k = None \<longleftrightarrow> (\<forall>x \<in> set xs. key x \<noteq> k)"
proof (cases "filter (\<lambda>x. key x = k) xs")
  case Nil
  then show ?thesis by (simp add: od_get_build) (simp add: filter_empty_conv)
next
  case (Cons y ys)
  then have "y \<in> set (filter (\<lambda>x. key x = k) xs)" by simp
  then have "\<exists>x \<in> set xs. key x = k" by auto
  with Cons show ?thesis by (simp add: od_get_build)
qed

lemma distinct_od_fold:
  "distinct (od_keys d0) \<Longrightarrow> distinct (od_keys (fold (\<lambda>x d. od_set d (key x) (val x)) xs d0))"
  by (induction xs arbitrary: d0) (simp_all add: distinct_od_set)

lemma distinct_od_build: "distinct (od_keys (od_build key val xs))"
  unfolding od_build_def by (rule distinct_od_fold) (simp add: od_keys_def)

lemma od_get_filter:
  "od_get (filter (\<lambda>(k, v). P k) d) k = (if P k then od_get d k else None)"
  by (induction d) auto

text \<open>Of a concatenation over a dictionary only the entry of one key contributes.\<close>

lemma filter_concat_key:
  assumes "distinct (od_keys d)"
    and "\<And>k v. (k, v) \<in> set d \<Longrightarrow> k \<noteq> k0 \<Longrightarrow> filter P (f k v) = []"
  shows "filter P (concat (map (\<lambda>(k, v). f k v) d)) =
    (case od_get d k0 of None \<Rightarrow> [] | Some v \<Rightarrow> filter P (f k0 v))"
  using assms
proof (induction d)
  case (Cons kv d)
  obtain k v where kv: "kv = (k, v)" by force
  have IH: "filter P (concat (map (\<lambda>(k, v). f k v) d)) =
      (case od_get d k0 of None \<Rightarrow> [] | Some v \<Rightarrow> filter P (f k0 v))"
    using Cons by (auto simp: od_keys_def)
  show ?case
  proof (cases "k = k0")
    case True
    then have "od_get d k0 = None"
      using Cons.prems(1) by (simp add: od_get_None_iff kv od_keys_def)
    with IH True show ?thesis by (simp add: kv)
  next
    case False
    then show ?thesis using IH Cons.prems(2) [of k v] by (simp add: kv)
  qed
qed simp

section \<open>Python strings over the code points 0 to 255\<close>

definition code_point :: "char \<Rightarrow> nat" where
  "code_point c = of_char c"

definition lower_char :: "char \<Rightarrow> char" where
  "lower_char c = (let n = code_point c in
     if (65 \<le> n \<and> n \<le> 90) \<or> (192 \<le> n \<and> n \<le> 222 \<and> n \<noteq> 215) then char_of (n + 32) else c)"

definition str_lower :: "string \<Rightarrow> string" where
  "str_lower s = map lower_char s"

text \<open>\<open>str.capitalize\<close>: the first character in upper case, the rest in lower case.  The code
  points 181 and 255, whose upper-case forms lie above 255, are left alone, and 223, whose
  title form is two characters, becomes them.\<close>

definition upper_first :: "char \<Rightarrow> string" where
  "upper_first c = (let n = code_point c in
     if n = 223 then ''Ss''
     else if (97 \<le> n \<and> n \<le> 122) \<or> (224 \<le> n \<and> n \<le> 254 \<and> n \<noteq> 247)
     then [char_of (n - 32)] else [c])"

fun str_capitalize :: "string \<Rightarrow> string" where
  "str_capitalize [] = []"
| "str_capitalize (c # cs) = upper_first c @ str_lower cs"

definition is_space :: "char \<Rightarrow> bool" where
  "is_space c = (let n = code_point c in
     (9 \<le> n \<and> n \<le> 13) \<or> (28 \<le> n \<and> n \<le> 32) \<or> n = 133 \<or> n = 160)"

text \<open>\<open>str.isdigit\<close> also holds for the superscripts two, three and one.\<close>

definition is_digit_char :: "char \<Rightarrow> bool" where
  "is_digit_char c = (let n = code_point c in
     (48 \<le> n \<and> n \<le> 57) \<or> n = 178 \<or> n = 179 \<or> n = 185)"

definition str_isdigit :: "string \<Rightarrow> bool" where
  "str_isdigit s \<longleftrightarrow> s \<noteq> [] \<and> list_all is_digit_char s"

definition str_strip :: "string \<Rightarrow> string" where
  "str_strip s = rev (dropWhile is_space (rev (dropWhile is_space s)))"

text \<open>\<open>str.split(sep)\<close> for a one-character separator: never the empty list.\<close>

fun str_split :: "char \<Rightarrow> string \<Rightarrow> string list" where
  "str_split sep [] = [[]]"
| "str_split sep (c # cs) =
     (if c = sep then [] # str_split sep cs
      else (case str_split sep cs of [] \<Rightarrow> [[c]] | w # ws \<Rightarrow> (c # w) # ws))"

fun str_join :: "string \<Rightarrow> string list \<Rightarrow> string" where
  "str_join sep [] = []"
| "str_join sep [w] = w"
| "str_join sep (w # v # ws) = w @ sep @ str_join sep (v # ws)"

definition strip_nul :: "string \<Rightarrow> string" where
  "strip_nul s = filter (\<lambda>c. c \<noteq> CHR 0x00) s"

lemma strip_nul_idem [simp]: "strip_nul (strip_nul s) = strip_nul s"
  by (simp add: strip_nul_def)

lemma lower_char_idem [simp]: "lower_char (lower_char c) = lower_char c"
proof -
  have *: "code_point (char_of (n + 32)) = n + 32" if "n \<le> 222" for n
    using that by (simp add: code_point_def)
  show ?thesis
    by (auto simp: lower_char_def Let_def *)
qed

lemma str_lower_idem [simp]: "str_lower (str_lower s) = str_lower s"
  by (simp add: str_lower_def)

lemma str_split_not_Nil [simp]: "str_split sep s \<noteq> []"
  by (induction sep s rule: str_split.induct) (auto split: list.splits)

lemma str_split_no_sep: "sep \<notin> set w \<Longrightarrow> str_split sep w = [w]"
  by (induction w) auto

lemma str_split_append:
  "sep \<notin> set w \<Longrightarrow> str_split sep (w @ sep # s) = w # str_split sep s"
  by (induction w) auto

lemma str_split_join:
  assumes "ws \<noteq> []" and "\<forall>w \<in> set ws. sep \<notin> set w"
  shows "str_split sep (str_join [sep] ws) = ws"
  using assms by (induction "[sep]" ws rule: str_join.induct)
    (auto simp: str_split_no_sep str_split_append)

lemma str_join_split: "str_join [sep] (str_split sep s) = s"
proof (induction sep s rule: str_split.induct)
  case (2 sep c cs)
  then show ?case
    by (cases "str_split sep cs") (auto, metis append_Nil list.exhaust str_join.simps(2,3)
        append_Cons)
qed simp

end
