(* ===== verification/PyVal.thy ===== *)
theory PyVal
  imports Prelude
begin

text \<open>
  The dynamically typed values that reach the handlers: metadata blobs decoded from JSON
  and the attribute values of ORM instances.  \<open>PNull\<close> is SQLAlchemy's \<open>null()\<close> clause, which
  is not \<open>None\<close> and has no truth value; \<open>PTime\<close> is a UTC \<open>datetime\<close> given by its Unix
  timestamp.  JSON numbers are integers here.  Each operation raises where Python does.
  The theory also has the decimal rendering \<open>str(n)\<close> with its injectivity, and \<open>int(s)\<close>.
\<close>

section \<open>Values\<close>

datatype pyval =
    PNone
  | PNull
  | PBool bool
  | PInt int
  | PStr string
  | PTime int
  | PList "pyval list"
  | PDict "(string \<times> pyval) list"

type_synonym pydict = "(string \<times> pyval) list"

fun truthy :: "pyval \<Rightarrow> bool result" where
  "truthy PNone = Inr False"
| "truthy PNull = Inl TypeError"
| "truthy (PBool b) = Inr b"
| "truthy (PInt n) = Inr (n \<noteq> 0)"
| "truthy (PStr s) = Inr (s \<noteq> [])"
| "truthy (PTime t) = Inr True"
| "truthy (PList xs) = Inr (xs \<noteq> [])"
| "truthy (PDict d) = Inr (d \<noteq> [])"

definition is_dict :: "pyval \<Rightarrow> bool" where
  "is_dict v = (case v of PDict _ \<Rightarrow> True | _ \<Rightarrow> False)"

definition is_list :: "pyval \<Rightarrow> bool" where
  "is_list v = (case v of PList _ \<Rightarrow> True | _ \<Rightarrow> False)"

definition is_str :: "pyval \<Rightarrow> bool" where
  "is_str v = (case v of PStr _ \<Rightarrow> True | _ \<Rightarrow> False)"

definition is_bool :: "pyval \<Rightarrow> bool" where
  "is_bool v = (case v of PBool _ \<Rightarrow> True | _ \<Rightarrow> False)"

text \<open>\<open>isinstance(v, int)\<close> holds for booleans as well, and \<open>True\<close> is the integer 1.\<close>

definition is_int :: "pyval \<Rightarrow> bool" where
  "is_int v = (case v of PInt _ \<Rightarrow> True | PBool _ \<Rightarrow> True | _ \<Rightarrow> False)"

definition as_int :: "pyval \<Rightarrow> int" where
  "as_int v = (case v of PInt n \<Rightarrow> n | PBool b \<Rightarrow> (if b then 1 else 0) | _ \<Rightarrow> 0)"

text \<open>Equality of scalars, where \<open>True == 1\<close>.\<close>

definition py_eq :: "pyval \<Rightarrow> pyval \<Rightarrow> bool" where
  "py_eq v w = (if is_int v \<and> is_int w then as_int v = as_int w else v = w)"

text \<open>A value as a dictionary key or set member: lists and dictionaries are unhashable.\<close>

definition hash_key :: "pyval \<Rightarrow> pyval result" where
  "hash_key v = (case v of PList _ \<Rightarrow> Inl TypeError | PDict _ \<Rightarrow> Inl TypeError
     | PBool b \<Rightarrow> Inr (PInt (if b then 1 else 0)) | _ \<Rightarrow> Inr v)"

section \<open>Containers\<close>

text \<open>\<open>v[k]\<close> for a string \<open>k\<close>.\<close>

definition subscript :: "pyval \<Rightarrow> string \<Rightarrow> pyval result" where
  "subscript v k = (case v of
       PDict d \<Rightarrow> (case od_get d k of None \<Rightarrow> Inl KeyError | Some w \<Rightarrow> Inr w)
     | _ \<Rightarrow> Inl TypeError)"

text \<open>\<open>d[k]\<close> for a value known to be a dictionary.\<close>

definition dict_sub :: "pydict \<Rightarrow> string \<Rightarrow> pyval result" where
  "dict_sub d k = (case od_get d k of None \<Rightarrow> Inl KeyError | Some w \<Rightarrow> Inr w)"

text \<open>\<open>v.get(k, default)\<close>.\<close>

definition get_method :: "pyval \<Rightarrow> string \<Rightarrow> pyval \<Rightarrow> pyval result" where
  "get_method v k w = (case v of PDict d \<Rightarrow> Inr (od_default d k w) | _ \<Rightarrow> Inl AttributeError)"

fun is_infix :: "string \<Rightarrow> string \<Rightarrow> bool" where
  "is_infix w [] \<longleftrightarrow> w = []"
| "is_infix w (c # cs) \<longleftrightarrow> take (length w) (c # cs) = w \<or> is_infix w cs"

text \<open>\<open>k in v\<close> for a string \<open>k\<close>.\<close>

definition str_in :: "string \<Rightarrow> pyval \<Rightarrow> bool result" where
  "str_in k v = (case v of
       PDict d \<Rightarrow> Inr (od_has d k)
     | PStr s \<Rightarrow> Inr (is_infix k s)
     | PList xs \<Rightarrow> Inr (PStr k \<in> set xs)
     | _ \<Rightarrow> Inl TypeError)"

text \<open>\<open>for x in v\<close>.\<close>

definition py_iter :: "pyval \<Rightarrow> pyval list result" where
  "py_iter v = (case v of
       PList xs \<Rightarrow> Inr xs
     | PDict d \<Rightarrow> Inr (map PStr (od_keys d))
     | PStr s \<Rightarrow> Inr (map (\<lambda>c. PStr [c]) s)
     | _ \<Rightarrow> Inl TypeError)"

text \<open>\<open>v.lower()\<close>, \<open>v.encode(...)\<close>: only strings have these methods.\<close>

definition as_str :: "pyval \<Rightarrow> string result" where
  "as_str v = (case v of PStr s \<Rightarrow> Inr s | _ \<Rightarrow> Inl AttributeError)"

text \<open>\<open>v == True\<close>.\<close>

definition eq_true :: "pyval \<Rightarrow> bool" where
  "eq_true v = py_eq v (PBool True)"

lemma is_simps [simp]:
  "is_dict (PDict d)" "is_list (PList xs)" "is_str (PStr s)" "is_bool (PBool b)"
  "is_int (PInt n)" "is_int (PBool b)"
  by (simp_all add: is_dict_def is_list_def is_str_def is_bool_def is_int_def)

lemma is_dictE: "is_dict v \<Longrightarrow> (\<And>d. v = PDict d \<Longrightarrow> P) \<Longrightarrow> P"
  by (cases v) (simp_all add: is_dict_def)

lemma is_boolE: "is_bool v \<Longrightarrow> (\<And>b. v = PBool b \<Longrightarrow> P) \<Longrightarrow> P"
  by (cases v) (simp_all add: is_bool_def)

lemma is_strE: "is_str v \<Longrightarrow> (\<And>s. v = PStr s \<Longrightarrow> P) \<Longrightarrow> P"
  by (cases v) (simp_all add: is_str_def)

lemma py_eq_refl [simp]: "py_eq v v"
  by (simp add: py_eq_def)

lemma py_eq_sym: "py_eq v w \<Longrightarrow> py_eq w v"
  by (auto simp: py_eq_def split: if_splits)

lemma hash_key_eq:
  "hash_key v = Inr k \<Longrightarrow> hash_key w = Inr k \<Longrightarrow> py_eq v w"
  by (cases v; cases w) (auto simp: hash_key_def py_eq_def is_int_def as_int_def split: if_splits)

section \<open>Decimal rendering\<close>

definition digit_char :: "nat \<Rightarrow> char" where
  "digit_char n = char_of (48 + n)"

fun show_nat :: "nat \<Rightarrow> string" where
  "show_nat n = (if n < 10 then [digit_char n] else show_nat (n div 10) @ [digit_char (n mod 10)])"

declare show_nat.simps [simp del]

definition show_int :: "int \<Rightarrow> string" where
  "show_int n = (if n < 0 then ''-'' @ show_nat (nat (- n)) else show_nat (nat n))"

definition digit_val :: "char \<Rightarrow> nat result" where
  "digit_val c = (let n = code_point c in if 48 \<le> n \<and> n \<le> 57 then Inr (n - 48) else Inl ValueError)"

definition read_nat :: "string \<Rightarrow> nat result" where
  "read_nat s = (if s = [] then Inl ValueError
     else fold_res (\<lambda>c acc. bind_res (digit_val c) (\<lambda>d. Inr (10 * acc + d))) s 0)"

text \<open>\<open>int(s)\<close> for the text of a decimal number with an optional sign.\<close>

definition read_int :: "string \<Rightarrow> int result" where
  "read_int s = (case s of
       [] \<Rightarrow> Inl ValueError
     | c # cs \<Rightarrow>
         if c = CHR ''-'' then bind_res (read_nat cs) (\<lambda>n. Inr (- int n))
         else bind_res (read_nat s) (\<lambda>n. Inr (int n)))"

lemma code_point_digit [simp]: "n < 10 \<Longrightarrow> code_point (digit_char n) = 48 + n"
  by (simp add: code_point_def digit_char_def)

lemma digit_val_digit [simp]: "n < 10 \<Longrightarrow> digit_val (digit_char n) = Inr n"
  by (simp add: digit_val_def Let_def)

lemma is_digit_digit [simp]: "n < 10 \<Longrightarrow> is_digit_char (digit_char n)"
  by (simp add: is_digit_char_def Let_def)

lemma show_nat_not_Nil [simp]: "show_nat n \<noteq> []"
  by (subst show_nat.simps) simp

lemma show_nat_digits: "c \<in> set (show_nat n) \<Longrightarrow> 48 \<le> code_point c \<and> code_point c \<le> 57"
proof (induction n rule: show_nat.induct)
  case (1 n)
  then show ?case
    by (cases "n < 10") (auto simp: show_nat.simps [of n])
qed

lemma fold_res_append:
  "fold_res f (xs @ ys) b = bind_res (fold_res f xs b) (fold_res f ys)"
  by (induction xs arbitrary: b) (auto split: sum.split)

lemma read_show_nat [simp]: "read_nat (show_nat n) = Inr n"
proof (induction n rule: show_nat.induct)
  case (1 n)
  show ?case
  proof (cases "n < 10")
    case True
    then show ?thesis by (simp add: show_nat.simps [of n] read_nat_def)
  next
    case False
    with 1 have "read_nat (show_nat (n div 10)) = Inr (n div 10)" by simp
    with False show ?thesis
      by (simp add: show_nat.simps [of n] read_nat_def fold_res_append)
  qed
qed

lemma show_nat_inject [simp]: "show_nat m = show_nat n \<longleftrightarrow> m = n"
  by (metis read_show_nat Inr_inject)

lemma str_isdigit_show_nat [simp]: "str_isdigit (show_nat n)"
  by (auto simp: str_isdigit_def list_all_iff is_digit_char_def Let_def dest: show_nat_digits)

lemma minus_not_in_show_nat: "CHR ''-'' \<notin> set (show_nat n)"
  using show_nat_digits [of "CHR ''-''" n] by (auto simp: code_point_def)

lemma show_nat_hd_not_minus: "show_nat n = c # cs \<Longrightarrow> c \<noteq> CHR ''-''"
  using minus_not_in_show_nat [of n] by auto

lemma read_show_int: "read_int (show_int n) = Inr n"
proof (cases "n < 0")
  case True
  then show ?thesis by (simp add: read_int_def show_int_def)
next
  case False
  obtain c cs where c: "show_nat (nat n) = c # cs"
    by (cases "show_nat (nat n)") auto
  then have "c \<noteq> CHR ''-''" by (rule show_nat_hd_not_minus)
  with False c read_show_nat [of "nat n"] show ?thesis
    by (simp add: read_int_def show_int_def)
qed

lemma show_int_inject [simp]: "show_int m = show_int n \<longleftrightarrow> m = n"
  by (metis read_show_int Inr_inject)

lemma show_int_not_Nil [simp]: "show_int n \<noteq> []"
  by (simp add: show_int_def)

end
