(* ===== verification/Models.thy ===== *)
theory Models
  imports PyVal
begin

text \<open>
  The SQLAlchemy model classes of src/models that the entity manager reads and writes.  An
  instance is its class together with its attribute values by column name, as
  \<open>get_attributes_dict\<close> and \<open>setattr\<close> treat it; an attribute that was never set is
  \<open>None\<close>.  Setting an attribute runs the validators of model_utils.py: the NUL stripping
  listener of textual columns and, for the fields named by the JSON schema of the class,
  the schema check with its default value.  What belongs to other packages or other
  machines (the jsonschema verdict, the Hashids encoder, signature recovery, the chain) is
  the record \<open>env\<close> of parameters.
\<close>

section \<open>What the code takes from outside\<close>

text \<open>
  What the chain answers for a registered service provider, and the tables the read replica
  shows: follows, and aggregated tips as sender, receiver and amount.
\<close>

record sp_info =
  operator_wallet :: string
  endpoint :: string
  sp_block_number :: int
  delegator_wallet :: string

record inst =
  cls :: string
  attr :: "string \<Rightarrow> pyval"

record env =
  schema_valid :: "string \<Rightarrow> string \<Rightarrow> pyval \<Rightarrow> bool"
  hashids_encode :: "int \<Rightarrow> string"
  json_loads :: "string \<Rightarrow> pyval option"
  verified_address :: "string option"
  notification_creator_addr :: "string option"
  service_endpoint_info :: "pyval \<Rightarrow> sp_info result"
  replica_follows :: "inst list"
  replica_tips :: "(int \<times> int \<times> int) list"
  recover_hash :: "string \<Rightarrow> string \<Rightarrow> string result"
  verify_sol_message :: "string \<Rightarrow> string \<Rightarrow> string \<Rightarrow> bool"

section \<open>Columns\<close>

definition user_columns :: "string list" where
  "user_columns =
    [''blockhash'', ''user_id'', ''is_current'', ''handle'', ''wallet'', ''name'',
     ''profile_picture'', ''cover_photo'', ''bio'', ''location'', ''metadata_multihash'',
     ''creator_node_endpoint'', ''blocknumber'', ''is_verified'', ''artist_pick_track_id'',
     ''created_at'', ''updated_at'', ''handle_lc'', ''cover_photo_sizes'',
     ''profile_picture_sizes'', ''primary_id'', ''secondary_ids'',
     ''replica_set_update_signer'', ''has_collectibles'', ''txhash'', ''playlist_library'',
     ''is_deactivated'', ''slot'', ''user_storage_account'', ''user_authority_account'']"

definition track_columns :: "string list" where
  "track_columns =
    [''blockhash'', ''track_id'', ''is_current'', ''is_delete'', ''owner_id'', ''track_cid'',
     ''title'', ''length'', ''cover_art'', ''tags'', ''genre'', ''mood'', ''credits_splits'',
     ''create_date'', ''release_date'', ''file_type'', ''metadata_multihash'',
     ''blocknumber'', ''track_segments'', ''created_at'', ''description'', ''isrc'', ''iswc'',
     ''license'', ''updated_at'', ''cover_art_sizes'', ''download'', ''is_unlisted'',
     ''field_visibility'', ''route_id'', ''stem_of'', ''remix_of'', ''txhash'', ''slot'',
     ''is_available'', ''is_premium'', ''premium_conditions'', ''is_playlist_upload'']"

definition playlist_columns :: "string list" where
  "playlist_columns =
    [''blockhash'', ''blocknumber'', ''playlist_id'', ''playlist_owner_id'', ''is_album'',
     ''is_private'', ''playlist_name'', ''playlist_contents'', ''playlist_image_multihash'',
     ''is_current'', ''is_delete'', ''description'', ''created_at'', ''upc'', ''updated_at'',
     ''playlist_image_sizes_multihash'', ''txhash'', ''last_added_to'', ''slot'',
     ''metadata_multihash'']"

definition follow_columns :: "string list" where
  "follow_columns =
    [''blockhash'', ''blocknumber'', ''follower_user_id'', ''followee_user_id'',
     ''is_current'', ''is_delete'', ''created_at'', ''txhash'', ''slot'']"

definition save_columns :: "string list" where
  "save_columns =
    [''blockhash'', ''blocknumber'', ''user_id'', ''save_item_id'', ''save_type'',
     ''is_current'', ''is_delete'', ''created_at'', ''txhash'', ''slot'']"

definition repost_columns :: "string list" where
  "repost_columns =
    [''blockhash'', ''blocknumber'', ''user_id'', ''repost_item_id'', ''repost_type'',
     ''is_current'', ''is_delete'', ''created_at'', ''txhash'', ''slot'']"

definition subscription_columns :: "string list" where
  "subscription_columns =
    [''blockhash'', ''blocknumber'', ''subscriber_id'', ''user_id'', ''is_current'',
     ''is_delete'', ''created_at'', ''txhash'']"

definition notification_seen_columns :: "string list" where
  "notification_seen_columns = [''user_id'', ''blocknumber'', ''blockhash'', ''txhash'', ''seen_at'']"

definition notification_columns :: "string list" where
  "notification_columns =
    [''id'', ''specifier'', ''group_id'', ''type'', ''slot'', ''blocknumber'', ''timestamp'',
     ''data'', ''user_ids'']"

definition playlist_seen_columns :: "string list" where
  "playlist_seen_columns =
    [''is_current'', ''user_id'', ''playlist_id'', ''blocknumber'', ''blockhash'', ''txhash'',
     ''seen_at'']"

definition columns_of :: "string \<Rightarrow> string list" where
  "columns_of c =
     (if c = ''User'' then user_columns
      else if c = ''Track'' then track_columns
      else if c = ''Playlist'' then playlist_columns
      else if c = ''Follow'' then follow_columns
      else if c = ''Save'' then save_columns
      else if c = ''Repost'' then repost_columns
      else if c = ''Subscription'' then subscription_columns
      else if c = ''NotificationSeen'' then notification_seen_columns
      else if c = ''Notification'' then notification_columns
      else if c = ''PlaylistSeen'' then playlist_seen_columns
      else [])"

section \<open>Attribute listeners and validators (model_utils.py)\<close>

text \<open>Columns of type \<open>String\<close> or \<open>Text\<close>, foreign keys to the block hash included.\<close>

definition text_columns :: "string \<Rightarrow> string list" where
  "text_columns c =
     (if c = ''User'' then
        [''blockhash'', ''handle'', ''wallet'', ''name'', ''profile_picture'', ''cover_photo'',
         ''bio'', ''location'', ''metadata_multihash'', ''creator_node_endpoint'', ''handle_lc'',
         ''cover_photo_sizes'', ''profile_picture_sizes'', ''replica_set_update_signer'',
         ''txhash'', ''user_storage_account'', ''user_authority_account'']
      else if c = ''Track'' then
        [''blockhash'', ''track_cid'', ''title'', ''cover_art'', ''tags'', ''genre'', ''mood'',
         ''credits_splits'', ''create_date'', ''release_date'', ''file_type'',
         ''metadata_multihash'', ''description'', ''isrc'', ''iswc'', ''license'',
         ''cover_art_sizes'', ''route_id'', ''txhash'']
      else if c = ''Playlist'' then
        [''blockhash'', ''playlist_name'', ''playlist_image_multihash'', ''description'',
         ''upc'', ''playlist_image_sizes_multihash'', ''txhash'', ''metadata_multihash'']
      else if c = ''Notification'' then [''specifier'', ''group_id'', ''type'']
      else [''blockhash'', ''txhash''])"

text \<open>The arguments of \<open>@validates\<close>: for \<open>User\<close> and \<open>Track\<close> the \<open>required\<close> list of the schema
  file, for \<open>Playlist\<close> a literal list.\<close>

definition schema_required :: "string \<Rightarrow> string list" where
  "schema_required c =
     (if c = ''User'' then
        [''bio'', ''cover_photo'', ''cover_photo_sizes'', ''location'', ''name'',
         ''profile_picture'', ''profile_picture_sizes'', ''artist_pick_track_id'']
      else if c = ''Track'' then
        [''cover_art'', ''cover_art_sizes'', ''create_date'', ''credits_splits'',
         ''description'', ''download'', ''field_visibility'', ''file_type'', ''genre'',
         ''is_unlisted'', ''isrc'', ''iswc'', ''length'', ''license'', ''mood'',
         ''release_date'', ''remix_of'', ''stem_of'', ''tags'', ''title'', ''track_segments'',
         ''is_premium'', ''premium_conditions'']
      else [])"

definition validated_fields :: "string \<Rightarrow> string list" where
  "validated_fields c =
     (if c = ''Playlist'' then [''playlist_name'', ''description''] else schema_required c)"

text \<open>The \<open>default\<close> entries of the schema files; \<open>None\<close> where the property has none.\<close>

definition schema_default :: "string \<Rightarrow> string \<Rightarrow> pyval option" where
  "schema_default c f =
     (if c = ''Track'' then
        (if f = ''track_segments'' then Some (PList [])
         else if f = ''is_unlisted'' \<or> f = ''is_premium'' then Some (PBool False)
         else if f = ''field_visibility'' then
           Some (PDict [(''mood'', PBool True), (''tags'', PBool True), (''genre'', PBool True),
             (''share'', PBool True), (''play_count'', PBool True), (''remixes'', PBool True)])
         else if f = ''download'' then
           Some (PDict [(''cid'', PNone), (''is_downloadable'', PBool False),
             (''requires_follow'', PBool False)])
         else if f = ''premium_conditions'' then None
         else Some PNone)
      else Some PNone)"

definition schema_type_has_object :: "string \<Rightarrow> string \<Rightarrow> bool" where
  "schema_type_has_object c f \<longleftrightarrow> c = ''Track'' \<and>
     f \<in> {''field_visibility'', ''download'', ''stem_of'', ''remix_of'', ''premium_conditions''}"

definition get_default_value :: "string \<Rightarrow> string \<Rightarrow> pyval result" where
  "get_default_value c f =
     (let default_value = (case schema_default c f of None \<Rightarrow> PNone | Some v \<Rightarrow> v)
      in bind_res (truthy default_value) (\<lambda>t.
           Inr (if \<not> t \<and> schema_type_has_object c f then PNull else default_value)))"

text \<open>
  The schema of a single field exists only for the required fields of a model.  For any
  other field \<open>ModelValidator.validate\<close> raises \<open>KeyError\<close>, which the helper logs and ignores.
\<close>

definition validate_field_helper :: "env \<Rightarrow> string \<Rightarrow> string \<Rightarrow> pyval \<Rightarrow> pyval result" where
  "validate_field_helper e c f v =
     (if f = ''created_at'' \<or> f = ''updated_at'' then Inr v
      else bind_res
        (if f \<in> set (text_columns c)
         then bind_res (truthy v) (\<lambda>t.
                if t then bind_res (as_str v) (\<lambda>s. Inr (PStr (strip_nul s))) else Inr v)
         else Inr v)
        (\<lambda>w. if f \<notin> set (schema_required c) then Inr w
             else if schema_valid e c f w then Inr w
             else get_default_value c f))"

definition strip_listener :: "string \<Rightarrow> string \<Rightarrow> pyval \<Rightarrow> pyval result" where
  "strip_listener c f v =
     (if f \<in> set (text_columns c)
      then bind_res (truthy v) (\<lambda>t.
             Inr (if t then (case v of PStr s \<Rightarrow> PStr (strip_nul s) | _ \<Rightarrow> v) else v))
      else Inr v)"

section \<open>Instances\<close>

definition put_attr :: "inst \<Rightarrow> string \<Rightarrow> pyval \<Rightarrow> inst" where
  "put_attr r f v = r\<lparr>attr := (attr r)(f := v)\<rparr>"

definition set_attr :: "env \<Rightarrow> inst \<Rightarrow> string \<Rightarrow> pyval \<Rightarrow> inst result" where
  "set_attr e r f v =
     bind_res (if f \<in> set (validated_fields (cls r))
               then validate_field_helper e (cls r) f v else Inr v) (\<lambda>w.
     bind_res (strip_listener (cls r) f w) (\<lambda>x.
     Inr (put_attr r f x)))"

definition new_inst :: "string \<Rightarrow> inst" where
  "new_inst c = \<lparr>cls = c, attr = (\<lambda>_. PNone)\<rparr>"

text \<open>A run of attribute assignments, as a constructor call with keyword arguments makes.\<close>

definition set_attrs :: "env \<Rightarrow> (string \<times> pyval) list \<Rightarrow> inst \<Rightarrow> inst result" where
  "set_attrs e fvs r = fold_res (\<lambda>(f, v) r. set_attr e r f v) fvs r"

definition make_inst :: "env \<Rightarrow> string \<Rightarrow> (string \<times> pyval) list \<Rightarrow> inst result" where
  "make_inst e c fvs = set_attrs e fvs (new_inst c)"

definition has_column :: "inst \<Rightarrow> string \<Rightarrow> bool" where
  "has_column r f \<longleftrightarrow> f \<in> set (columns_of (cls r))"

definition get_attributes_dict :: "inst \<Rightarrow> pydict" where
  "get_attributes_dict r = map (\<lambda>f. (f, attr r f)) (columns_of (cls r))"

definition is_current_row :: "inst \<Rightarrow> bool" where
  "is_current_row r \<longleftrightarrow> attr r ''is_current'' = PBool True"

text \<open>Columns that are not nullable and have no default (model_nullable_validator.py).\<close>

definition required_fields :: "string \<Rightarrow> string list" where
  "required_fields c = (if c = ''User'' then [''user_id'', ''is_current''] else [])"

definition all_required_fields_present :: "string \<Rightarrow> inst \<Rightarrow> bool" where
  "all_required_fields_present c r \<longleftrightarrow> (\<forall>f \<in> set (required_fields c). attr r f \<noteq> PNone)"

subsection \<open>Facts about attributes\<close>

lemma attr_put [simp]: "attr (put_attr r f v) g = (if f = g then v else attr r g)"
  by (simp add: put_attr_def)

lemma cls_put [simp]: "cls (put_attr r f v) = cls r"
  by (simp add: put_attr_def)

lemma set_attr_InrD:
  "set_attr e r f v = Inr r' \<Longrightarrow> \<exists>w. r' = put_attr r f w"
  by (auto simp: set_attr_def bind_res_Inr)

lemma set_attr_cls: "set_attr e r f v = Inr r' \<Longrightarrow> cls r' = cls r"
  by (auto dest: set_attr_InrD)

lemma set_attr_other: "set_attr e r f v = Inr r' \<Longrightarrow> g \<noteq> f \<Longrightarrow> attr r' g = attr r g"
  by (auto dest: set_attr_InrD)

text \<open>A column that is neither validated nor textual takes the value as it is.\<close>

lemma set_attr_plain:
  assumes "f \<notin> set (validated_fields (cls r))" and "f \<notin> set (text_columns (cls r))"
  shows "set_attr e r f v = Inr (put_attr r f v)"
  using assms by (simp add: set_attr_def strip_listener_def)

text \<open>A textual column that is not validated drops the NUL characters of a string.\<close>

lemma set_attr_text:
  assumes "f \<notin> set (validated_fields (cls r))"
  shows "set_attr e r f (PStr s) =
    Inr (put_attr r f (PStr (if f \<in> set (text_columns (cls r)) then strip_nul s else s)))"
  using assms by (auto simp: set_attr_def strip_listener_def strip_nul_def)

lemma set_attrs_Nil [simp]: "set_attrs e [] r = Inr r"
  by (simp add: set_attrs_def)

lemma set_attrs_Cons [simp]:
  "set_attrs e ((f, v) # fvs) r = bind_res (set_attr e r f v) (set_attrs e fvs)"
  by (cases "set_attr e r f v") (simp_all add: set_attrs_def)

lemma set_attrs_cls: "set_attrs e fvs r = Inr r' \<Longrightarrow> cls r' = cls r"
proof (induction fvs arbitrary: r)
  case (Cons fv fvs)
  then show ?case
    by (cases fv) (auto simp: bind_res_Inr dest: set_attr_cls)
qed simp

lemma set_attrs_other:
  "set_attrs e fvs r = Inr r' \<Longrightarrow> g \<notin> fst ` set fvs \<Longrightarrow> attr r' g = attr r g"
proof (induction fvs arbitrary: r)
  case (Cons fv fvs)
  then show ?case
    by (cases fv) (auto simp: bind_res_Inr dest: set_attr_other)
qed simp

text \<open>The value a run of assignments leaves in a column without validator is the last one
  assigned, as the listener stores it.\<close>

lemma set_attr_listener:
  "set_attr e r f v = Inr r' \<Longrightarrow> f \<notin> set (validated_fields (cls r)) \<Longrightarrow>
   strip_listener (cls r) f v = Inr (attr r' f)"
  by (auto simp: set_attr_def bind_res_Inr)

lemma set_attrs_listener:
  assumes "set_attrs e fvs r = Inr r'" and "map_of (rev fvs) g = Some v"
    and "g \<notin> set (validated_fields (cls r))"
  shows "strip_listener (cls r) g v = Inr (attr r' g)"
  using assms
proof (induction fvs arbitrary: r)
  case (Cons fv fvs)
  obtain f w where fv: "fv = (f, w)" by force
  from Cons.prems(1) obtain r1 where r1: "set_attr e r f w = Inr r1" "set_attrs e fvs r1 = Inr r'"
    by (auto simp: fv bind_res_Inr)
  have cls: "cls r1 = cls r" using r1(1) by (rule set_attr_cls)
  show ?case
  proof (cases "map_of (rev fvs) g")
    case None
    then have g: "g \<notin> fst ` set fvs" by (auto simp: map_of_eq_None_iff)
    have "f = g \<and> w = v"
      using None Cons.prems(2) by (simp add: fv map_add_def split: if_splits)
    with r1(1) Cons.prems(3) have "strip_listener (cls r) g v = Inr (attr r1 g)"
      by (auto dest: set_attr_listener)
    moreover have "attr r' g = attr r1 g" using r1(2) g by (rule set_attrs_other)
    ultimately show ?thesis by simp
  next
    case (Some u)
    then have "map_of (rev fvs) g = Some v"
      using Cons.prems(2) by (simp add: fv map_add_def)
    then show ?thesis using Cons.IH [OF r1(2)] Cons.prems(3) by (simp add: cls)
  qed
qed simp

lemma set_attrs_plain:
  assumes "set_attrs e fvs r = Inr r'" and "map_of (rev fvs) g = Some v"
    and "g \<notin> set (validated_fields (cls r))" and "g \<notin> set (text_columns (cls r))"
  shows "attr r' g = v"
  using set_attrs_listener [OF assms(1-3)] assms(4) by (simp add: strip_listener_def)

text \<open>The value the database holds: a text column without NUL characters.\<close>

definition stored :: "inst \<Rightarrow> string \<Rightarrow> pyval" where
  "stored r f = (case attr r f of
       PStr s \<Rightarrow> PStr (if f \<in> set (text_columns (cls r)) then strip_nul s else s)
     | v \<Rightarrow> v)"

lemma stored_put_other: "f \<noteq> g \<Longrightarrow> stored (put_attr r f v) g = stored r g"
  by (auto simp: stored_def split: pyval.split)

lemma stored_plain: "f \<notin> set (text_columns (cls r)) \<Longrightarrow> stored r f = attr r f"
  by (simp add: stored_def split: pyval.split)

lemma stored_listener:
  "strip_listener (cls r) f (attr r f) = Inr (attr r' f) \<Longrightarrow> cls r' = cls r \<Longrightarrow> stored r' f = stored r f"
  by (auto simp: stored_def strip_listener_def bind_res_Inr strip_nul_def
      split: pyval.splits if_splits)

lemma make_inst_cls: "make_inst e c fvs = Inr r \<Longrightarrow> cls r = c"
  by (auto simp: make_inst_def new_inst_def dest: set_attrs_cls)

lemma make_inst_plain:
  assumes "make_inst e c fvs = Inr r" and "map_of (rev fvs) g = Some v"
    and "g \<notin> set (validated_fields c)" and "g \<notin> set (text_columns c)"
  shows "attr r g = v"
  using assms by (auto simp: make_inst_def new_inst_def intro: set_attrs_plain)

text \<open>Playlists have no field schemas, so their validator never replaces a value.\<close>

lemma validate_playlist_field:
  "f \<in> set (text_columns ''Playlist'') \<Longrightarrow> f \<noteq> ''created_at'' \<Longrightarrow> f \<noteq> ''updated_at'' \<Longrightarrow>
   validate_field_helper e ''Playlist'' f (PStr s) = Inr (PStr (strip_nul s))"
  by (auto simp: validate_field_helper_def as_str_def schema_required_def strip_nul_def)

end
