(* ===== verification/Slugs.thy ===== *)
theory Slugs
  imports Models "HOL-Library.Char_ord"
begin

text \<open>
  Slugs and routes: \<open>sanitize_slug\<close> and \<open>create_track_route_id\<close> of utils/helpers.py and
  \<open>generate_slug_and_collision_id\<close> of tasks/task_helpers.py, over the rows of the tables
  track_routes and playlist_routes.  The search for a free slug is a \<open>while\<close> loop; its
  termination rests on the slugs of different collision ids being different.
\<close>

section \<open>Slugs (utils/helpers.py)\<close>

text \<open>The characters each regular expression removes; the typographic apostrophe U+2019,
  which the first one also lists, lies outside the character range.\<close>

definition slug_stripped :: "string" where
  "slug_stripped = ''!%#$&'' @ [CHR 0x27] @ ''()*+,/:;=?@[]'' @ [CHR 0x00] @ ''^.{}'' @ [CHR 0x22] @ ''~''"

definition route_id_stripped :: "string" where
  "route_id_stripped = ''!%'' @ [CHR 0x60] @ ''#$&'' @ [CHR 0x27] @ ''()*+,/:;=?@[]'' @ [CHR 0x00]"

definition remove_chars :: "string \<Rightarrow> string \<Rightarrow> string" where
  "remove_chars cs s = filter (\<lambda>c. c \<notin> set cs) s"

text \<open>\<open>re.sub(p+, "-", s)\<close>: every maximal run of characters in the class becomes one dash.\<close>

lemma length_dropWhile_Suc [termination_simp]: "length (dropWhile p xs) < Suc (length xs)"
  by (simp add: length_dropWhile_le le_imp_less_Suc)

fun dash_runs :: "(char \<Rightarrow> bool) \<Rightarrow> string \<Rightarrow> string" where
  "dash_runs p [] = []"
| "dash_runs p (c # cs) =
     (if p c then CHR ''-'' # dash_runs p (dropWhile p cs) else c # dash_runs p cs)"

definition create_track_route_id :: "pyval \<Rightarrow> pyval \<Rightarrow> string result" where
  "create_track_route_id title handle =
     bind_res (as_str title) (\<lambda>t.
     let t1 = remove_chars route_id_stripped t;
         t2 = dash_runs is_space t1;
         t3 = dash_runs (\<lambda>c. c = CHR ''-'') t2;
         t4 = str_lower t3
     in bind_res (as_str handle) (\<lambda>h. Inr (str_lower h @ ''/'' @ t4)))"

definition encode_int_id :: "env \<Rightarrow> int \<Rightarrow> string" where
  "encode_int_id e n = hashids_encode e n"

definition sanitize_title :: "env \<Rightarrow> string \<Rightarrow> int \<Rightarrow> string" where
  "sanitize_title e title record_id =
     (let t1 = remove_chars slug_stripped title;
          t2 = dash_runs is_space (str_strip t1);
          t3 = dash_runs (\<lambda>c. c = CHR ''-'') t2;
          t4 = str_lower t3
      in if t4 = [] then encode_int_id e record_id else t4)"

definition sanitize_slug :: "env \<Rightarrow> string \<Rightarrow> int \<Rightarrow> int \<Rightarrow> string" where
  "sanitize_slug e title record_id collision_id =
     (let t = sanitize_title e title record_id
      in if collision_id > 0 then t @ ''-'' @ show_int collision_id else t)"

lemma sanitize_slug_0 [simp]: "sanitize_slug e title n 0 = sanitize_title e title n"
  by (simp add: sanitize_slug_def)

text \<open>Different collision ids give different slugs.\<close>

lemma sanitize_slug_inject:
  "i > 0 \<Longrightarrow> j > 0 \<Longrightarrow>
   sanitize_slug e title n i = sanitize_slug e title n j \<longleftrightarrow> i = j"
  by (simp add: sanitize_slug_def)

section \<open>Routes\<close>

record route =
  route_slug :: string
  route_title_slug :: string
  route_collision_id :: int
  route_owner_id :: int
  route_record_id :: int
  route_is_current :: bool
  route_blockhash :: string
  route_blocknumber :: int
  route_txhash :: string

text \<open>\<open>Query.one_or_none\<close>.\<close>

definition one_or_none :: "'a list \<Rightarrow> 'a option result" where
  "one_or_none xs = (case xs of [] \<Rightarrow> Inr None | [x] \<Rightarrow> Inr (Some x)
     | _ \<Rightarrow> Inl MultipleResultsFound)"

definition slug_taken_by :: "string \<Rightarrow> int \<Rightarrow> route \<Rightarrow> bool" where
  "slug_taken_by s owner r \<longleftrightarrow> route_slug r = s \<and> route_owner_id r = owner"

text \<open>\<open>next((r for r in pending if ...), None)\<close> first, then the table.\<close>

definition find_route :: "route list \<Rightarrow> route list \<Rightarrow> string \<Rightarrow> int \<Rightarrow> route option result" where
  "find_route db pending s owner =
     (case find (slug_taken_by s owner) pending of
        Some r \<Rightarrow> Inr (Some r)
      | None \<Rightarrow> one_or_none (filter (slug_taken_by s owner) db))"

definition same_title_slug :: "string \<Rightarrow> int \<Rightarrow> route \<Rightarrow> bool" where
  "same_title_slug ts owner r \<longleftrightarrow> route_title_slug r = ts \<and> route_owner_id r = owner"

text \<open>The loop over the pending routes, then \<open>max(collision_id)\<close> over the table.\<close>

fun max_pending :: "route list \<Rightarrow> string \<Rightarrow> int \<Rightarrow> int option \<Rightarrow> int option" where
  "max_pending [] ts owner m = m"
| "max_pending (r # rs) ts owner m =
     max_pending rs ts owner
       (if same_title_slug ts owner r
        then Some (case m of None \<Rightarrow> route_collision_id r | Some n \<Rightarrow> max n (route_collision_id r))
        else m)"

definition max_collision_id :: "route list \<Rightarrow> route list \<Rightarrow> string \<Rightarrow> int \<Rightarrow> int option" where
  "max_collision_id db pending ts owner =
     (case max_pending pending ts owner None of
        Some n \<Rightarrow> Some n
      | None \<Rightarrow> (case map route_collision_id (filter (same_title_slug ts owner) db) of
                  [] \<Rightarrow> None | n # ns \<Rightarrow> Some (fold max ns n)))"

lemma find_None_filter: "find p xs = None \<longleftrightarrow> filter p xs = []"
  by (auto simp: find_None_iff filter_empty_conv)

lemma find_route_SomeD:
  assumes "find_route db pending s owner = Inr (Some r)"
  shows "r \<in> set (pending @ db) \<and> slug_taken_by s owner r"
proof (cases "find (slug_taken_by s owner) pending")
  case None
  with assms have "filter (slug_taken_by s owner) db = [r]"
    by (auto simp: find_route_def one_or_none_def split: list.splits)
  then have "r \<in> set (filter (slug_taken_by s owner) db)" by simp
  then show ?thesis by simp
next
  case (Some r')
  with assms show ?thesis
    by (auto simp: find_route_def find_Some_iff)
qed

lemma find_route_NoneD:
  "find_route db pending s owner = Inr None \<Longrightarrow> \<forall>r \<in> set (pending @ db). \<not> slug_taken_by s owner r"
  by (auto simp: find_route_def find_None_filter filter_empty_conv one_or_none_def
      split: option.splits list.splits)

lemma one_or_none_total: "length xs \<le> 1 \<Longrightarrow> \<exists>x. one_or_none xs = Inr x"
  by (cases xs) (auto simp: one_or_none_def)

lemma one_or_none_SomeD: "one_or_none xs = Inr (Some x) \<Longrightarrow> xs = [x]"
  by (auto simp: one_or_none_def split: list.splits)

lemma one_or_none_NoneD: "one_or_none xs = Inr None \<Longrightarrow> xs = []"
  by (auto simp: one_or_none_def split: list.splits)

lemma find_route_total:
  "length (filter (slug_taken_by s owner) db) \<le> 1 \<Longrightarrow> \<exists>x. find_route db pending s owner = Inr x"
  by (auto simp: find_route_def one_or_none_total split: option.split)

text \<open>How many routes of a list carry a slug the search may still try.\<close>

definition slugs_beyond :: "env \<Rightarrow> string \<Rightarrow> int \<Rightarrow> int \<Rightarrow> route list \<Rightarrow> nat" where
  "slugs_beyond e title n cid rs =
     length (filter (\<lambda>r. \<exists>k > cid. route_slug r = sanitize_slug e title n k) rs)"

lemma slugs_beyond_mono: "slugs_beyond e title n (cid + 1) rs \<le> slugs_beyond e title n cid rs"
proof -
  have *: "\<exists>k > cid. P k" if "\<exists>k > cid + 1. P k" for P
    using that by force
  show ?thesis
    unfolding slugs_beyond_def by (induction rs) (auto dest: *)
qed

lemma slugs_beyond_less:
  assumes "r \<in> set rs" and "route_slug r = sanitize_slug e title n (cid + 1)" and "0 \<le> cid"
  shows "slugs_beyond e title n (cid + 1) rs < slugs_beyond e title n cid rs"
  using assms(1)
proof (induction rs)
  case (Cons x rs)
  have here: "\<not> (\<exists>k > cid + 1. route_slug r = sanitize_slug e title n k)"
  proof
    assume "\<exists>k > cid + 1. route_slug r = sanitize_slug e title n k"
    then obtain k where k: "k > cid + 1" "route_slug r = sanitize_slug e title n k" by blast
    with assms(2,3) have "cid + 1 = k"
      using sanitize_slug_inject [of "cid + 1" k e title n] by simp
    with k(1) show False by simp
  qed
  have before: "\<exists>k > cid. route_slug r = sanitize_slug e title n k"
    using assms(2) by (intro exI [of _ "cid + 1"]) simp
  have mono: "\<exists>k > cid. P k" if "\<exists>k > cid + 1. P k" for P
    using that by force
  show ?case
  proof (cases "x = r")
    case True
    then show ?thesis
      using here before slugs_beyond_mono [of e title n cid rs]
      by (auto simp: slugs_beyond_def)
  next
    case False
    with Cons show ?thesis
      by (auto simp: slugs_beyond_def dest: mono)
  qed
qed simp

text \<open>The loop \<open>while has_collisions\<close>, entered with the collision id reached so far.\<close>

function slug_search ::
    "env \<Rightarrow> route list \<Rightarrow> route list \<Rightarrow> string \<Rightarrow> int \<Rightarrow> int \<Rightarrow> int \<Rightarrow> (string \<times> int) result" where
  "slug_search e db pending title n owner cid =
     (case find_route db pending (sanitize_slug e title n (cid + 1)) owner of
        Inl x \<Rightarrow> Inl x
      | Inr None \<Rightarrow> Inr (sanitize_slug e title n (cid + 1), cid + 1)
      | Inr (Some r) \<Rightarrow> slug_search e db pending title n owner (cid + 1))"
  by pat_completeness auto
termination
proof (relation "measures [\<lambda>(e, db, pending, title, n, owner, cid). nat (- cid),
    \<lambda>(e, db, pending, title, n, owner, cid). slugs_beyond e title n cid (pending @ db)]")
  fix e db pending title n owner cid x r
  assume "find_route db pending (sanitize_slug e title n (cid + 1)) owner = Inr x" and "x = Some r"
  then have r: "r \<in> set (pending @ db)" "route_slug r = sanitize_slug e title n (cid + 1)"
    by (auto dest!: find_route_SomeD simp: slug_taken_by_def)
  show "((e, db, pending, title, n, owner, cid + 1), e, db, pending, title, n, owner, cid)
    \<in> measures [\<lambda>(e, db, pending, title, n, owner, cid). nat (- cid),
      \<lambda>(e, db, pending, title, n, owner, cid). slugs_beyond e title n cid (pending @ db)]"
    using slugs_beyond_less [OF r] by (cases "cid < 0") auto
qed simp

declare slug_search.simps [simp del]

definition generate_slug_and_collision_id ::
    "env \<Rightarrow> route list \<Rightarrow> route list \<Rightarrow> int \<Rightarrow> string \<Rightarrow> int \<Rightarrow> string \<Rightarrow> string \<Rightarrow> (string \<times> int) result" where
  "generate_slug_and_collision_id e db pending n title owner new_slug_title new_slug =
     (let m = max_collision_id db pending new_slug_title owner in
      if new_slug = [] then Inl IndexError
      else bind_res
        (if is_digit_char (last new_slug) then find_route db pending new_slug owner else Inr None)
        (\<lambda>existing.
          if existing \<noteq> None \<or> m \<noteq> None
          then slug_search e db pending title n owner (case m of Some k \<Rightarrow> k | None \<Rightarrow> 0)
          else Inr (new_slug, 0)))"

subsection \<open>What the search returns\<close>

lemma slug_search_free:
  "slug_search e db pending title n owner cid = Inr (s, k) \<Longrightarrow>
   (\<forall>r \<in> set (pending @ db). \<not> slug_taken_by s owner r) \<and> s = sanitize_slug e title n k \<and> cid < k"
proof (induction e db pending title n owner cid rule: slug_search.induct)
  case (1 e db pending title n owner cid)
  let ?f = "find_route db pending (sanitize_slug e title n (cid + 1)) owner"
  show ?case
  proof (cases ?f)
    case (Inl x)
    with "1.prems" show ?thesis by (simp add: slug_search.simps [of e db pending title n owner cid])
  next
    case (Inr o')
    show ?thesis
    proof (cases o')
      case None
      with Inr "1.prems" have "(sanitize_slug e title n (cid + 1), cid + 1) = (s, k)"
        by (auto simp: slug_search.simps [of e db pending title n owner cid])
      then have s: "s = sanitize_slug e title n (cid + 1)" and k: "k = cid + 1"
        by (metis prod.inject)+
      have "\<forall>r \<in> set (pending @ db). \<not> slug_taken_by (sanitize_slug e title n (cid + 1)) owner r"
        by (rule find_route_NoneD) (simp add: Inr None)
      then show ?thesis unfolding s k by simp
    next
      case (Some r)
      with Inr "1.prems" have "slug_search e db pending title n owner (cid + 1) = Inr (s, k)"
        by (simp add: slug_search.simps [of e db pending title n owner cid])
      from "1.IH" [OF Inr Some this] show ?thesis by auto
    qed
  qed
qed

text \<open>The only error the search can meet is an owner with two routes of one slug.\<close>

lemma slug_search_total:
  assumes "\<And>s. length (filter (slug_taken_by s owner) db) \<le> 1"
  shows "\<exists>s k. slug_search e db pending title n owner cid = Inr (s, k)"
  using assms
proof (induction e db pending title n owner cid rule: slug_search.induct)
  case (1 e db pending title n owner cid)
  let ?f = "find_route db pending (sanitize_slug e title n (cid + 1)) owner"
  obtain o' where o': "?f = Inr o'"
    using find_route_total [OF "1.prems"] by blast
  show ?case
  proof (cases o')
    case None
    with o' show ?thesis by (simp add: slug_search.simps [of e db pending title n owner cid])
  next
    case (Some r)
    from "1.IH" [OF o' Some "1.prems"] o' Some show ?thesis
      by (simp add: slug_search.simps [of e db pending title n owner cid])
  qed
qed

lemma generate_slug_total:
  assumes one: "\<And>s. length (filter (slug_taken_by s owner) db) \<le> 1" and "new_slug \<noteq> []"
  shows "\<exists>s k. generate_slug_and_collision_id e db pending n title owner ts new_slug = Inr (s, k)"
proof -
  obtain o' where "(if is_digit_char (last new_slug) then find_route db pending new_slug owner
      else Inr None) = Inr o'"
    using find_route_total [OF one] by (cases "is_digit_char (last new_slug)") auto
  then show ?thesis
    using slug_search_total [OF one] assms(2)
    by (simp add: generate_slug_and_collision_id_def Let_def)
qed

lemma max_pending_None:
  "max_pending rs ts owner m = None \<longleftrightarrow> m = None \<and> (\<forall>r \<in> set rs. \<not> same_title_slug ts owner r)"
  by (induction rs arbitrary: m) auto

lemma max_collision_None:
  "max_collision_id db pending ts owner = None \<Longrightarrow>
   \<forall>r \<in> set (pending @ db). \<not> same_title_slug ts owner r"
  by (auto simp: max_collision_id_def max_pending_None filter_empty_conv
      split: option.splits list.splits)

text \<open>A stored slug is its title slug, with the collision id appended when that is positive.\<close>

definition route_wf :: "route \<Rightarrow> bool" where
  "route_wf r \<longleftrightarrow> route_slug r =
     (if route_collision_id r > 0
      then route_title_slug r @ ''-'' @ show_int (route_collision_id r) else route_title_slug r)"

lemma last_show_nat_digit: "is_digit_char (last (show_nat n))"
  using str_isdigit_show_nat [of n] by (auto simp: str_isdigit_def list_all_iff)

lemma route_wf_digit:
  "route_wf r \<Longrightarrow> 0 < route_collision_id r \<Longrightarrow> is_digit_char (last (route_slug r))"
  using last_show_nat_digit [of "nat (route_collision_id r)"]
  by (simp add: route_wf_def show_int_def last_append)

lemma generate_slug_free:
  assumes gen: "generate_slug_and_collision_id e db pending n title owner ts ts = Inr (s, k)"
    and ts: "ts = sanitize_title e title n"
    and wf: "\<forall>r \<in> set (pending @ db). route_wf r"
  shows "(\<forall>r \<in> set (pending @ db). \<not> slug_taken_by s owner r) \<and> s = sanitize_slug e title n k"
proof (cases "\<exists>cid. slug_search e db pending title n owner cid = Inr (s, k)")
  case True
  then show ?thesis by (auto dest: slug_search_free)
next
  case False
  define m where "m = max_collision_id db pending ts owner"
  define d where "d = (if is_digit_char (last ts) then find_route db pending ts owner else Inr None)"
  from gen False have m: "m = None" and d: "d = Inr None" and s: "s = ts" "k = 0"
    by (auto simp: generate_slug_and_collision_id_def Let_def m_def d_def bind_res_Inr
        split: if_splits)
  have "\<not> slug_taken_by ts owner r" if r: "r \<in> set (pending @ db)" for r
  proof
    assume taken: "slug_taken_by ts owner r"
    show False
    proof (cases "is_digit_char (last ts)")
      case True
      with d r taken show False by (auto simp: d_def dest: find_route_NoneD)
    next
      case False
      with wf r taken route_wf_digit [of r] have "\<not> 0 < route_collision_id r"
        by (auto simp: slug_taken_by_def)
      with wf r taken have "same_title_slug ts owner r"
        by (auto simp: slug_taken_by_def same_title_slug_def route_wf_def)
      with m r show False by (auto simp: m_def dest: max_collision_None)
    qed
  qed
  then show ?thesis using s ts by simp
qed

section \<open>The route tables\<close>

text \<open>
  A route table as the session sees it, with the rows added in this block at the end.  The
  list of pending routes holds the same objects as the session, so it is a list of positions
  in the table: marking a pending route not current marks the row.
\<close>

record routes =
  rt_table :: "route list"
  rt_pending :: "nat list"

definition pending_routes :: "routes \<Rightarrow> route list" where
  "pending_routes R = map (\<lambda>i. rt_table R ! i) (rt_pending R)"

definition current_of :: "int \<Rightarrow> route \<Rightarrow> bool" where
  "current_of n r \<longleftrightarrow> route_is_current r \<and> route_record_id r = n"

definition prev_route :: "routes \<Rightarrow> int \<Rightarrow> nat option result" where
  "prev_route R n =
     (case find (\<lambda>i. current_of n (rt_table R ! i)) (rt_pending R) of
        Some i \<Rightarrow> Inr (Some i)
      | None \<Rightarrow> one_or_none (filter (\<lambda>i. current_of n (rt_table R ! i)) [0..<length (rt_table R)]))"

definition retire_route :: "nat option \<Rightarrow> routes \<Rightarrow> routes" where
  "retire_route p R = (case p of None \<Rightarrow> R
     | Some i \<Rightarrow> R\<lparr>rt_table := (rt_table R)[i := (rt_table R ! i)\<lparr>route_is_current := False\<rparr>]\<rparr>)"

definition same_slug :: "nat option \<Rightarrow> string \<Rightarrow> route list \<Rightarrow> bool" where
  "same_slug p ts rs = (case p of None \<Rightarrow> False | Some i \<Rightarrow> route_title_slug (rs ! i) = ts)"

definition add_route :: "route \<Rightarrow> routes \<Rightarrow> routes" where
  "add_route r R = R\<lparr>rt_table := rt_table R @ [r], rt_pending := rt_pending R @ [length (rt_table R)]\<rparr>"

definition renew_route ::
    "env \<Rightarrow> int \<Rightarrow> int \<Rightarrow> string \<Rightarrow> string \<Rightarrow> int \<Rightarrow> string \<Rightarrow> (routes, unit) py" where
  "renew_route e n owner title bhash bnum txh =
     (let new_slug_title = sanitize_slug e title n 0 in
      bnd (bnd (gets (\<lambda>R. prev_route R n)) lift_res) (\<lambda>prev.
      bnd (gets rt_table) (\<lambda>tab.
      if same_slug prev new_slug_title tab then ret ()
      else
        sq (modify (retire_route prev)) (
        bnd (bnd (gets (\<lambda>R. generate_slug_and_collision_id e (rt_table R) (pending_routes R) n title
               owner new_slug_title new_slug_title)) lift_res) (\<lambda>(s, k).
        modify (add_route
          \<lparr>route_slug = s, route_title_slug = new_slug_title, route_collision_id = k,
           route_owner_id = owner, route_record_id = n, route_is_current = True,
           route_blockhash = bhash, route_blocknumber = bnum, route_txhash = txh\<rparr>))))))"

subsection \<open>The table invariant\<close>

definition route_key :: "route \<Rightarrow> string \<times> int" where
  "route_key r = (route_slug r, route_owner_id r)"

text \<open>
  The primary key \<open>(slug, owner_id)\<close> is unique, every record has at most one current route,
  slugs are well formed, and the pending positions exist.
\<close>

definition routes_ok :: "routes \<Rightarrow> bool" where
  "routes_ok R \<longleftrightarrow>
     list_all route_wf (rt_table R) \<and>
     distinct (map route_key (rt_table R)) \<and>
     (\<forall>n. length (filter (current_of n) (rt_table R)) \<le> 1) \<and>
     (\<forall>i \<in> set (rt_pending R). i < length (rt_table R))"

lemma length_filter_le_1I:
  assumes "\<And>i j. i < length xs \<Longrightarrow> j < length xs \<Longrightarrow> p (xs ! i) \<Longrightarrow> p (xs ! j) \<Longrightarrow> i = j"
  shows "length (filter p xs) \<le> 1"
proof -
  have "card {i. i < length xs \<and> p (xs ! i)} \<le> 1"
    using assms by (subst One_nat_def, subst card_le_Suc0_iff_eq) auto
  then show ?thesis by (simp add: length_filter_conv_card)
qed

lemma length_filter_le_1D:
  assumes "length (filter p xs) \<le> 1" and "i < length xs" "j < length xs" "p (xs ! i)" "p (xs ! j)"
  shows "i = j"
proof (rule ccontr)
  assume "i \<noteq> j"
  have "card {i, j} \<le> card {i. i < length xs \<and> p (xs ! i)}"
    using assms(2-) by (intro card_mono) auto
  with \<open>i \<noteq> j\<close> assms(1) show False by (simp add: length_filter_conv_card)
qed

lemma length_filter_update:
  assumes "length (filter p xs) \<le> 1" and "\<not> p x"
  shows "length (filter p (xs[i := x])) \<le> 1"
proof (rule length_filter_le_1I)
  fix j k
  assume jk: "j < length (xs[i := x])" "k < length (xs[i := x])" "p (xs[i := x] ! j)" "p (xs[i := x] ! k)"
  with assms(2) have "j \<noteq> i" and "k \<noteq> i" by auto
  with jk show "j = k" using length_filter_le_1D [OF assms(1), of j k] by simp
qed

lemma filter_upt_nth:
  "length (filter (\<lambda>i. p (xs ! i)) [0..<length xs]) = length (filter p xs)"
proof -
  have "map (\<lambda>i. xs ! i) (filter (\<lambda>i. p (xs ! i)) [0..<length xs])
      = filter p (map (\<lambda>i. xs ! i) [0..<length xs])"
    by (simp add: filter_map comp_def)
  then show ?thesis by (metis length_map map_nth)
qed

lemma prev_route_total: "routes_ok R \<Longrightarrow> \<exists>p. prev_route R n = Inr p"
  by (auto simp: prev_route_def routes_ok_def filter_upt_nth split: option.split
      intro!: one_or_none_total)

lemma prev_route_SomeD:
  assumes "prev_route R n = Inr (Some i)" and "routes_ok R"
  shows "i < length (rt_table R) \<and> current_of n (rt_table R ! i)"
proof (cases "find (\<lambda>i. current_of n (rt_table R ! i)) (rt_pending R)")
  case None
  with assms have "filter (\<lambda>i. current_of n (rt_table R ! i)) [0..<length (rt_table R)] = [i]"
    by (auto simp: prev_route_def dest: one_or_none_SomeD)
  then have "i \<in> set (filter (\<lambda>i. current_of n (rt_table R ! i)) [0..<length (rt_table R)])" by simp
  then show ?thesis by simp
next
  case (Some j)
  with assms show ?thesis
    by (auto simp: prev_route_def find_Some_iff routes_ok_def)
qed

text \<open>After the previous route is retired no route of the record is current.\<close>

lemma no_current_after_retire:
  assumes "prev_route R n = Inr p" and "routes_ok R"
  shows "filter (current_of n) (rt_table (retire_route p R)) = []"
proof (cases p)
  case None
  with assms(1) have "filter (\<lambda>i. current_of n (rt_table R ! i)) [0..<length (rt_table R)] = []"
    by (auto simp: prev_route_def split: option.splits dest: one_or_none_NoneD)
  then have "length (filter (current_of n) (rt_table R)) = 0"
    by (metis filter_upt_nth list.size(3))
  with None show ?thesis by (simp add: retire_route_def)
next
  case (Some i)
  with assms have i: "i < length (rt_table R)" "current_of n (rt_table R ! i)"
    by (auto dest: prev_route_SomeD)
  have one: "length (filter (current_of n) (rt_table R)) \<le> 1"
    using assms(2) by (simp add: routes_ok_def)
  have "\<not> current_of n (rt_table (retire_route p R) ! j)" if "j < length (rt_table R)" for j
    using that i length_filter_le_1D [OF one that i(1) _ i(2)] Some
    by (cases "j = i") (auto simp: retire_route_def current_of_def)
  then show ?thesis
    using Some by (auto simp: filter_empty_conv in_set_conv_nth retire_route_def)
qed

lemma routes_ok_retire: "routes_ok R \<Longrightarrow> routes_ok (retire_route p R)"
proof (cases p)
  case (Some i)
  assume ok: "routes_ok R"
  let ?r = "(rt_table R ! i)\<lparr>route_is_current := False\<rparr>"
  have "map route_key ((rt_table R)[i := ?r]) = map route_key (rt_table R)"
    by (cases "i < length (rt_table R)")
      (simp_all add: map_update route_key_def list_update_same_conv list_update_beyond)
  moreover have "list_all route_wf ((rt_table R)[i := ?r])"
    using ok by (cases "i < length (rt_table R)")
      (auto simp: routes_ok_def list_all_length nth_list_update route_wf_def)
  moreover have "length (filter (current_of n) ((rt_table R)[i := ?r])) \<le> 1" for n
    using ok by (intro length_filter_update) (auto simp: routes_ok_def current_of_def)
  ultimately show ?thesis
    using ok Some by (simp add: routes_ok_def retire_route_def)
qed (simp add: retire_route_def)

lemma routes_ok_add:
  assumes "routes_ok R" and "route_wf r" and "route_key r \<notin> route_key ` set (rt_table R)"
    and "filter (current_of (route_record_id r)) (rt_table R) = []"
  shows "routes_ok (add_route r R)"
proof -
  have "length (filter (current_of n) (rt_table R @ [r])) \<le> 1" for n
    using assms(1,4) by (auto simp: routes_ok_def current_of_def)
  then show ?thesis
    using assms by (auto simp: routes_ok_def add_route_def less_Suc_eq)
qed

lemma pending_in_table: "routes_ok R \<Longrightarrow> set (pending_routes R) \<subseteq> set (rt_table R)"
  by (auto simp: pending_routes_def routes_ok_def)

lemma slug_taken_key: "slug_taken_by s owner r \<longleftrightarrow> route_key r = (s, owner)"
  by (simp add: slug_taken_by_def route_key_def)

lemma generate_slug_wf:
  "s = sanitize_slug e title n k \<Longrightarrow> ts = sanitize_slug e title n 0 \<Longrightarrow>
   route_wf \<lparr>route_slug = s, route_title_slug = ts, route_collision_id = k, route_owner_id = owner,
     route_record_id = n, route_is_current = c, route_blockhash = b, route_blocknumber = bn,
     route_txhash = tx\<rparr>"
  by (simp add: route_wf_def sanitize_slug_def)

text \<open>
  Renewing a route keeps the table well formed, whether it returns or raises on the way.
\<close>

lemma keeps_renew_route: "keeps routes_ok (renew_route e n owner title bh bn tx)"
proof (rule keepsI)
  fix R
  assume ok: "routes_ok R"
  define ts where "ts = sanitize_slug e title n 0"
  obtain p where p: "prev_route R n = Inr p" using prev_route_total [OF ok] by blast
  let ?same = "same_slug p ts (rt_table R)"
  let ?R1 = "retire_route p R"
  have ok1: "routes_ok ?R1" using ok by (rule routes_ok_retire)
  have none: "filter (current_of n) (rt_table ?R1) = []"
    using p ok by (rule no_current_after_retire)
  show "routes_ok (snd (renew_route e n owner title bh bn tx R))"
  proof (cases ?same)
    case True
    then show ?thesis using ok by (simp add: renew_route_def Let_def py_simps p ts_def)
  next
    case False
    let ?g = "generate_slug_and_collision_id e (rt_table ?R1) (pending_routes ?R1) n title owner ts ts"
    show ?thesis
    proof (cases ?g)
      case (Inl x)
      with False ok1 show ?thesis by (simp add: renew_route_def Let_def py_simps p ts_def)
    next
      case (Inr sk)
      obtain s k where sk: "sk = (s, k)" by force
      have wf: "\<forall>r \<in> set (pending_routes ?R1 @ rt_table ?R1). route_wf r"
        using ok1 pending_in_table [OF ok1] by (auto simp: routes_ok_def list_all_iff)
      have free: "(\<forall>r \<in> set (pending_routes ?R1 @ rt_table ?R1). \<not> slug_taken_by s owner r)
          \<and> s = sanitize_slug e title n k"
        by (rule generate_slug_free [of e _ _ n title owner ts]) (use Inr wf sk in \<open>simp_all add: ts_def\<close>)
      let ?r = "\<lparr>route_slug = s, route_title_slug = ts, route_collision_id = k,
        route_owner_id = owner, route_record_id = n, route_is_current = True,
        route_blockhash = bh, route_blocknumber = bn, route_txhash = tx\<rparr>"
      have "routes_ok (add_route ?r ?R1)"
        using ok1 free none
        by (intro routes_ok_add generate_slug_wf) (auto simp: ts_def slug_taken_key route_key_def)
      with False Inr sk show ?thesis by (simp add: renew_route_def Let_def py_simps p ts_def)
    qed
  qed
qed

text \<open>
  From a well-formed table the renewal fails only on an empty slug, and afterwards the record
  has exactly one current route, whose title slug is that of the new title.
\<close>

lemma renew_route_current:
  assumes ok: "routes_ok R" and ts: "sanitize_slug e title n 0 \<noteq> []"
  shows "\<exists>R' r. renew_route e n owner title bh bn tx R = (Inr (), R') \<and>
    filter (current_of n) (rt_table R') = [r] \<and> route_title_slug r = sanitize_slug e title n 0"
proof -
  define ts' where "ts' = sanitize_slug e title n 0"
  obtain p where p: "prev_route R n = Inr p" using prev_route_total [OF ok] by blast
  show ?thesis
  proof (cases "same_slug p ts' (rt_table R)")
    case True
    then obtain i where i: "p = Some i" "route_title_slug (rt_table R ! i) = ts'"
      by (cases p) (auto simp: same_slug_def)
    with p ok have cur: "i < length (rt_table R)" "current_of n (rt_table R ! i)"
      by (auto dest: prev_route_SomeD)
    have "length (filter (current_of n) (rt_table R)) \<le> 1" using ok by (simp add: routes_ok_def)
    moreover have mem: "rt_table R ! i \<in> set (filter (current_of n) (rt_table R))" using cur by simp
    ultimately have "filter (current_of n) (rt_table R) = [rt_table R ! i]"
      by (cases "filter (current_of n) (rt_table R)") auto
    with True i show ?thesis
      by (auto simp: renew_route_def Let_def py_simps p ts'_def)
  next
    case False
    let ?R1 = "retire_route p R"
    have ok1: "routes_ok ?R1" using ok by (rule routes_ok_retire)
    have one: "length (filter (slug_taken_by s owner) (rt_table ?R1)) \<le> 1" for s
    proof (rule length_filter_le_1I)
      have d: "distinct (map route_key (rt_table ?R1))" using ok1 by (simp add: routes_ok_def)
      fix i j
      assume "i < length (rt_table ?R1)" "j < length (rt_table ?R1)"
        "slug_taken_by s owner (rt_table ?R1 ! i)" "slug_taken_by s owner (rt_table ?R1 ! j)"
      then show "i = j"
        using nth_eq_iff_index_eq [OF d, of i j] by (simp add: slug_taken_key)
    qed
    obtain s k where g: "generate_slug_and_collision_id e (rt_table ?R1) (pending_routes ?R1)
        n title owner ts' ts' = Inr (s, k)"
      using generate_slug_total [OF one] ts unfolding ts'_def by blast
    have "filter (current_of n) (rt_table ?R1) = []"
      using p ok by (rule no_current_after_retire)
    with False g show ?thesis
      by (auto simp: renew_route_def Let_def py_simps p ts'_def add_route_def current_of_def)
  qed
qed

end
