(* ===== verification/Event_Bus.thy ===== *)
theory Event_Bus
  imports PyVal
begin

text \<open>
  The producing side of challenges/challenge_event_bus.py: \<open>dispatch\<close> validates an event and
  puts it on the in-memory queue, \<open>flush\<close> moves the queue to the Redis list.  A Redis entry
  that \<open>rpush\<close> could not store is dropped with a warning.  The consuming side is in
  \<open>Challenge_Bus\<close>.
\<close>

section \<open>Events\<close>

text \<open>The members of \<open>ChallengeEvent\<close>; as a \<open>str\<close> enumeration each equals its value.\<close>

definition profile_update :: string where "profile_update = ''profile_update''"
definition ev_repost :: string where "ev_repost = ''repost''"
definition ev_follow :: string where "ev_follow = ''follow''"
definition ev_favorite :: string where "ev_favorite = ''favorite''"
definition track_listen :: string where "track_listen = ''track_listen''"
definition track_upload :: string where "track_upload = ''track_upload''"
definition referral_signup :: string where "referral_signup = ''referral_signup''"
definition referred_signup :: string where "referred_signup = ''referred_signup''"
definition connect_verified :: string where "connect_verified = ''connect_verified''"
definition mobile_install :: string where "mobile_install = ''mobile_install''"
definition trending_track :: string where "trending_track = ''trending_track''"
definition trending_underground :: string where "trending_underground = ''trending_underground''"
definition trending_playlist :: string where "trending_playlist = ''trending_playlist''"
definition send_tip :: string where "send_tip = ''send_tip''"
definition first_playlist :: string where "first_playlist = ''first_playlist''"

lemmas challenge_event_defs =
  profile_update_def ev_repost_def ev_follow_def ev_favorite_def track_listen_def
  track_upload_def referral_signup_def referred_signup_def connect_verified_def
  mobile_install_def trending_track_def trending_underground_def trending_playlist_def
  send_tip_def first_playlist_def

text \<open>A queued event.  \<open>isinstance(x, int)\<close> lets booleans through; they are read as 0 and 1.\<close>

record internal_event =
  ie_event :: string
  ie_block_number :: int
  ie_user_id :: int
  ie_extra :: pydict

section \<open>Dispatch and flush\<close>

definition dispatch ::
    "pyval \<Rightarrow> pyval \<Rightarrow> pyval \<Rightarrow> pyval \<Rightarrow> internal_event list \<Rightarrow> internal_event list" where
  "dispatch ev block user extra q =
     (let extra' = (if extra = PNone then PDict [] else extra);
          valid = is_str ev \<and> is_int block \<and> is_int user \<and> is_dict extra'
      in case (ev, extra') of
           (PStr name, PDict d) \<Rightarrow>
             if valid then q @ [\<lparr>ie_event = name, ie_block_number = as_int block,
                                 ie_user_id = as_int user, ie_extra = d\<rparr>]
             else q
         | _ \<Rightarrow> q)"

text \<open>
  An entry of the Redis list: an event that was encoded, or something whose decoding raises.
  \<open>json.dumps\<close> rejects the values that are not JSON, timestamps and SQL nulls among them.
\<close>

datatype queue_entry = Encoded internal_event | Malformed exn

fun json_value :: "pyval \<Rightarrow> bool" where
  "json_value PNull = False"
| "json_value (PTime t) = False"
| "json_value (PList vs) = list_all json_value vs"
| "json_value (PDict d) = list_all (\<lambda>(k, v). json_value v) d"
| "json_value v = True"

definition event_to_json :: "internal_event \<Rightarrow> queue_entry result" where
  "event_to_json ev =
     (if list_all (\<lambda>(k, v). json_value v) (ie_extra ev) then Inr (Encoded ev) else Inl TypeError)"

definition json_to_event :: "queue_entry \<Rightarrow> internal_event result" where
  "json_to_event q = (case q of Encoded ev \<Rightarrow> Inr ev | Malformed x \<Rightarrow> Inl x)"

text \<open>
  Which of the encoded events \<open>rpush\<close> stores is a parameter, as Redis is another service.
  An event that cannot be encoded or stored is dropped; the queue is cleared in any case.
\<close>

definition flush_event :: "(queue_entry \<Rightarrow> bool) \<Rightarrow> internal_event \<Rightarrow> queue_entry list \<Rightarrow> queue_entry list" where
  "flush_event accepts ev redis =
     (case event_to_json ev of
        Inl x \<Rightarrow> redis
      | Inr j \<Rightarrow> if accepts j then redis @ [j] else redis)"

definition flush ::
    "(queue_entry \<Rightarrow> bool) \<Rightarrow> internal_event list \<times> queue_entry list \<Rightarrow> internal_event list \<times> queue_entry list" where
  "flush accepts st = (case st of (q, redis) \<Rightarrow> ([], fold (flush_event accepts) q redis))"

lemma json_roundtrip: "event_to_json ev = Inr j \<Longrightarrow> json_to_event j = Inr ev"
  by (auto simp: event_to_json_def json_to_event_def split: if_splits)

lemma fold_flush_event:
  "fold (flush_event accepts) q redis = redis @
     map Encoded (filter (\<lambda>ev. event_to_json ev = Inr (Encoded ev) \<and> accepts (Encoded ev)) q)"
  by (induction q arbitrary: redis) (auto simp: flush_event_def event_to_json_def split: if_splits)

lemma dispatch_valid [simp]:
  "dispatch (PStr name) (PInt b) (PInt u) PNone q =
     q @ [\<lparr>ie_event = name, ie_block_number = b, ie_user_id = u, ie_extra = []\<rparr>]"
  "dispatch (PStr name) (PInt b) (PInt u) (PDict d) q =
     q @ [\<lparr>ie_event = name, ie_block_number = b, ie_user_id = u, ie_extra = d\<rparr>]"
  by (simp_all add: dispatch_def Let_def as_int_def)

lemma dispatch_invalid:
  "\<not> is_int block \<or> \<not> is_int user \<Longrightarrow> dispatch ev block user extra q = q"
  by (auto simp: dispatch_def Let_def split: pyval.splits)

lemma dispatch_extends: "\<exists>es. dispatch ev block user extra q = q @ es \<and> length es \<le> 1"
  by (auto simp: dispatch_def Let_def split: pyval.splits)

end
