(* ===== verification/EM_Core.thy ===== *)
theory EM_Core
  imports Models Slugs Event_Bus
begin

text \<open>
  tasks/entity_manager/utils.py: the entity types and actions, the parameters of one
  ManageEntity event, and the records the handlers read and write while a block is processed.
  \<open>em_state\<close> is everything a handler can change: the record dictionaries shared by all events
  of the block, the pending routes, the rows visible to the database session, the bus queue
  and the Redis values.
\<close>

section \<open>Constants\<close>

definition PLAYLIST_ID_OFFSET :: int where "PLAYLIST_ID_OFFSET = 400000"
definition TRACK_ID_OFFSET :: int where "TRACK_ID_OFFSET = 2000000"
definition USER_ID_OFFSET :: int where "USER_ID_OFFSET = 3000000"

definition ENABLE_DEVELOPMENT_FEATURES :: bool where "ENABLE_DEVELOPMENT_FEATURES = True"

section \<open>One event\<close>

record em_params =
  p_user_id :: int
  p_entity_id :: int
  p_entity_type :: string
  p_action :: string
  p_metadata_cid :: string
  p_signer :: string
  p_block_time :: int
  p_block_number :: int
  p_blockhash :: string
  p_txhash :: string
  p_metadata :: "(string \<times> pydict) list"

definition block_datetime :: "em_params \<Rightarrow> pyval" where
  "block_datetime p = PTime (p_block_time p)"

section \<open>The records of a block\<close>

datatype rkey = KId int | KSocial int string int | KPair int int | KTime int

definition get_record_key :: "int \<Rightarrow> string \<Rightarrow> int \<Rightarrow> rkey" where
  "get_record_key user_id entity_type entity_id =
     KSocial user_id (str_capitalize entity_type) entity_id"

type_synonym new_records = "(string, (rkey, inst list) odict) odict"
type_synonym existing_records = "(string, (rkey, inst) odict) odict"

record user_event =
  ue_user_id :: int
  ue_is_current :: bool
  ue_blocknumber :: pyval
  ue_blockhash :: pyval
  ue_referrer :: "int option"
  ue_is_mobile_user :: bool

record assoc_wallet =
  aw_user_id :: int
  aw_wallet :: string
  aw_chain :: string
  aw_is_current :: bool
  aw_is_delete :: bool
  aw_blocknumber :: pyval
  aw_blockhash :: pyval

record em_state =
  es_db :: "string \<Rightarrow> inst list"
  es_new :: new_records
  es_existing :: existing_records
  es_track_routes :: routes
  es_playlist_routes :: routes
  es_stems :: "(int \<times> int) list"
  es_remixes :: "(int \<times> int) list"
  es_user_events :: "user_event list"
  es_wallets :: "assoc_wallet list"
  es_bus :: "internal_event list"
  es_sp_cache :: "(string, sp_info) odict"
  es_balance_refresh :: "int list"

type_synonym 'a em = "(em_state, 'a) py"

definition existing_of :: "em_state \<Rightarrow> string \<Rightarrow> (rkey, inst) odict" where
  "existing_of s t = od_default (es_existing s) t []"

definition new_of :: "em_state \<Rightarrow> string \<Rightarrow> (rkey, inst list) odict" where
  "new_of s t = od_default (es_new s) t []"

text \<open>Reading \<open>new_records[t]\<close> creates the entry, as it is a \<open>defaultdict\<close>.\<close>

definition touch_new :: "string \<Rightarrow> unit em" where
  "touch_new t = modify (\<lambda>s. if od_has (es_new s) t then s else s\<lparr>es_new := od_set (es_new s) t []\<rparr>)"

definition in_new :: "string \<Rightarrow> rkey \<Rightarrow> bool em" where
  "in_new t k = sq (touch_new t) (gets (\<lambda>s. od_has (new_of s t) k))"

definition last_new :: "string \<Rightarrow> rkey \<Rightarrow> inst em" where
  "last_new t k = bnd (gets (\<lambda>s. od_get (new_of s t) k)) (\<lambda>r. case r of
     None \<Rightarrow> raise IndexError | Some rs \<Rightarrow> if rs = [] then raise IndexError else ret (last rs))"

definition append_new :: "string \<Rightarrow> rkey \<Rightarrow> inst \<Rightarrow> unit em" where
  "append_new t k r = modify (\<lambda>s. s\<lparr>es_new :=
     od_set (es_new s) t (od_set (new_of s t) k (od_default (new_of s t) k [] @ [r]))\<rparr>)"

definition set_existing :: "string \<Rightarrow> rkey \<Rightarrow> inst \<Rightarrow> unit em" where
  "set_existing t k r = modify (\<lambda>s. s\<lparr>es_existing :=
     od_set (es_existing s) t (od_set (existing_of s t) k r)\<rparr>)"

definition add_playlist_record :: "int \<Rightarrow> inst \<Rightarrow> unit em" where
  "add_playlist_record n r =
     sq (append_new ''Playlist'' (KId n) r) (set_existing ''Playlist'' (KId n) r)"

definition add_track_record :: "int \<Rightarrow> inst \<Rightarrow> unit em" where
  "add_track_record n r =
     sq (append_new ''Track'' (KId n) r) (set_existing ''Track'' (KId n) r)"

definition add_social_feature_record ::
    "int \<Rightarrow> string \<Rightarrow> int \<Rightarrow> string \<Rightarrow> inst \<Rightarrow> unit em" where
  "add_social_feature_record user_id entity_type entity_id record_type r =
     append_new record_type (get_record_key user_id entity_type entity_id) r"

definition add_user_record :: "int \<Rightarrow> inst \<Rightarrow> unit em" where
  "add_user_record n r =
     sq (append_new ''User'' (KId n) r) (set_existing ''User'' (KId n) r)"

definition add_notification_seen_record :: "rkey \<Rightarrow> inst \<Rightarrow> unit em" where
  "add_notification_seen_record k r =
     bnd (in_new ''NotificationSeen'' k) (\<lambda>b.
     if \<not> b then append_new ''NotificationSeen'' k r else ret ())"

definition add_notification_record :: "rkey \<Rightarrow> inst \<Rightarrow> unit em" where
  "add_notification_record k r =
     bnd (in_new ''Notification'' k) (\<lambda>b.
     if \<not> b then append_new ''Notification'' k r else ret ())"

definition add_playlist_seen_record :: "rkey \<Rightarrow> inst \<Rightarrow> unit em" where
  "add_playlist_seen_record k r =
     sq (append_new ''PlaylistSeen'' k r) (set_existing ''PlaylistSeen'' k r)"

text \<open>\<open>copy_record\<close>: every column is set on a fresh instance, five of them to the event's values.\<close>

definition copied_value :: "em_params \<Rightarrow> string \<times> pyval \<Rightarrow> string \<times> pyval" where
  "copied_value p fv = (case fv of (f, v) \<Rightarrow>
     (f, if f = ''is_current'' then PBool False
         else if f = ''updated_at'' then block_datetime p
         else if f = ''blocknumber'' then PInt (p_block_number p)
         else if f = ''blockhash'' then PStr (p_blockhash p)
         else if f = ''txhash'' then PStr (p_txhash p)
         else v))"

definition copy_record :: "env \<Rightarrow> em_params \<Rightarrow> inst \<Rightarrow> inst result" where
  "copy_record e p r =
     set_attrs e (map (copied_value p) (get_attributes_dict r)) (new_inst (cls r))"

text \<open>\<open>params.metadata[params.metadata_cid]\<close>.\<close>

definition event_metadata :: "em_params \<Rightarrow> pydict result" where
  "event_metadata p =
     (case od_get (p_metadata p) (p_metadata_cid p) of None \<Rightarrow> Inl KeyError | Some d \<Rightarrow> Inr d)"

definition bus_dispatch :: "string \<Rightarrow> pyval \<Rightarrow> pyval \<Rightarrow> pyval \<Rightarrow> unit em" where
  "bus_dispatch ev block user extra =
     modify (\<lambda>s. s\<lparr>es_bus := dispatch (PStr ev) block user extra (es_bus s)\<rparr>)"

text \<open>A check that reads the state and raises, or lets the handler go on.\<close>

definition check :: "(em_state \<Rightarrow> unit result) \<Rightarrow> unit em" where
  "check v = bnd (gets v) lift_res"

section \<open>The signer\<close>

text \<open>\<open>wallet and wallet.lower() != signer.lower()\<close>: the condition every user check rejects.\<close>

definition signer_mismatch :: "pyval \<Rightarrow> string \<Rightarrow> bool result" where
  "signer_mismatch wallet signer =
     bind_res (truthy wallet) (\<lambda>t.
     if \<not> t then Inr False
     else bind_res (as_str wallet) (\<lambda>w. Inr (str_lower w \<noteq> str_lower signer)))"

definition user_exists :: "em_params \<Rightarrow> em_state \<Rightarrow> bool" where
  "user_exists p s \<longleftrightarrow> od_has (existing_of s ''User'') (KId (p_user_id p))"

text \<open>\<open>existing_records[USER][user_id].wallet\<close>, then the comparison with the signer.\<close>

definition check_user_signer :: "em_params \<Rightarrow> em_state \<Rightarrow> unit result" where
  "check_user_signer p s =
     (case od_get (existing_of s ''User'') (KId (p_user_id p)) of
        None \<Rightarrow> Inl KeyError
      | Some u \<Rightarrow> bind_res (signer_mismatch (attr u ''wallet'') (p_signer p)) (\<lambda>bad.
          require_res (\<not> bad) (Raised ''user does not match signer'')))"

text \<open>What a successful check means: the user is known and has no wallet or the signer's wallet.\<close>

definition wallet_accepts :: "pyval \<Rightarrow> string \<Rightarrow> bool" where
  "wallet_accepts wallet signer \<longleftrightarrow>
     truthy wallet = Inr False \<or> (\<exists>w. wallet = PStr w \<and> str_lower w = str_lower signer)"

definition user_authorised :: "em_params \<Rightarrow> em_state \<Rightarrow> bool" where
  "user_authorised p s \<longleftrightarrow>
     (\<exists>u. od_get (existing_of s ''User'') (KId (p_user_id p)) = Some u \<and>
          wallet_accepts (attr u ''wallet'') (p_signer p))"

lemma signer_mismatch_False:
  "signer_mismatch wallet signer = Inr False \<Longrightarrow> wallet_accepts wallet signer"
  by (auto simp: signer_mismatch_def wallet_accepts_def bind_res_Inr as_str_def
      split: if_splits pyval.splits)

lemma check_user_signer_ok: "check_user_signer p s = Inr () \<Longrightarrow> user_authorised p s"
  by (auto simp: check_user_signer_def user_authorised_def bind_res_Inr
      split: option.splits dest: signer_mismatch_False)

text \<open>The existing record, overridden by the last record of this block if there is one.\<close>

definition latest_record :: "string \<Rightarrow> rkey \<Rightarrow> inst em" where
  "latest_record t k =
     bnd (gets (\<lambda>s. od_get (existing_of s t) k)) (\<lambda>x. case x of
       None \<Rightarrow> raise KeyError
     | Some r \<Rightarrow> bnd (in_new t k) (\<lambda>b. if b then last_new t k else ret r))"

definition int_attr :: "inst \<Rightarrow> string \<Rightarrow> int" where
  "int_attr r f = as_int (attr r f)"

definition str_attr :: "inst \<Rightarrow> string \<Rightarrow> string" where
  "str_attr r f = (case attr r f of PStr s \<Rightarrow> s | _ \<Rightarrow> [])"

text \<open>\<open>r.f = metadata[k]\<close>.\<close>

definition set_from :: "env \<Rightarrow> pydict \<Rightarrow> string \<times> string \<Rightarrow> inst \<Rightarrow> inst result" where
  "set_from e md fk r = (case fk of (f, k) \<Rightarrow> bind_res (dict_sub md k) (set_attr e r f))"

section \<open>Handlers that check the signer first\<close>

text \<open>
  Most handlers begin with a validation of the transaction.  What their clients rely on is
  that a validation that passes has established the signer, that it changes nothing, and
  that the rest runs only after it.
\<close>

locale signed_handler =
  fixes validate :: "em_params \<Rightarrow> em_state \<Rightarrow> unit result"
    and body :: "em_params \<Rightarrow> unit em"
  assumes validate_signer: "validate p s = Inr () \<Longrightarrow> user_authorised p s"
begin

lemma rejected:
  "validate p s = Inl x \<Longrightarrow> sq (check (validate p)) (body p) s = (Inl x, s)"
  by (simp add: check_def py_simps)

lemma accepted:
  "validate p s = Inr () \<Longrightarrow> sq (check (validate p)) (body p) s = body p s"
  by (simp add: check_def py_simps)

lemma unauthorised:
  assumes "\<not> user_authorised p s"
  shows "\<exists>x. sq (check (validate p)) (body p) s = (Inl x, s)"
proof (cases "validate p s")
  case (Inl x)
  then show ?thesis by (blast intro: rejected)
next
  case (Inr u)
  with assms show ?thesis using validate_signer [of p s] by (cases u) simp
qed

end

section \<open>Invariants of the shared steps\<close>

lemma keeps_check [keeps_rules]: "keeps I (check v)"
  unfolding check_def by (intro keeps_rules)

lemma keeps_last_new [keeps_rules]: "keeps I (last_new t k)"
  unfolding last_new_def by (intro keeps_rules) (auto split: option.split intro: keeps_rules)

subsection \<open>User events and associated wallets\<close>

definition current_event_of :: "int \<Rightarrow> user_event \<Rightarrow> bool" where
  "current_event_of u ev \<longleftrightarrow> ue_user_id ev = u \<and> ue_is_current ev"

definition retire_events :: "int \<Rightarrow> user_event list \<Rightarrow> user_event list" where
  "retire_events u evs =
     map (\<lambda>ev. if current_event_of u ev then ev\<lparr>ue_is_current := False\<rparr> else ev) evs"

definition live_wallet :: "string \<Rightarrow> assoc_wallet \<Rightarrow> bool" where
  "live_wallet chain w \<longleftrightarrow> aw_chain w = chain \<and> aw_is_current w \<and> \<not> aw_is_delete w"

definition retire_wallets :: "int \<Rightarrow> string \<Rightarrow> assoc_wallet list \<Rightarrow> assoc_wallet list" where
  "retire_wallets u chain ws =
     map (\<lambda>w. if aw_user_id w = u \<and> aw_chain w = chain then w\<lparr>aw_is_current := False\<rparr> else w) ws"

text \<open>At most one current event row per user, at most one live row per wallet of a chain.\<close>

definition events_ok :: "user_event list \<Rightarrow> bool" where
  "events_ok evs \<longleftrightarrow> (\<forall>u. length (filter (current_event_of u) evs) \<le> 1)"

definition wallets_ok :: "assoc_wallet list \<Rightarrow> bool" where
  "wallets_ok ws \<longleftrightarrow> (\<forall>c a. length (filter (\<lambda>w. aw_wallet w = a \<and> live_wallet c w) ws) \<le> 1)"

lemma filter_map_none: "(\<And>x. x \<in> set xs \<Longrightarrow> \<not> P (f x)) \<Longrightarrow> filter P (map f xs) = []"
  by (induction xs) auto

lemma length_filter_map_le: "(\<And>x. P (f x) \<Longrightarrow> P x) \<Longrightarrow> length (filter P (map f xs)) \<le> length (filter P xs)"
  by (induction xs) auto

lemma events_ok_renew:
  assumes "events_ok evs" and "ue_user_id ev = u"
  shows "events_ok (retire_events u evs @ [ev])"
proof -
  have "filter (current_event_of u) (retire_events u evs) = []"
    unfolding retire_events_def by (rule filter_map_none) (simp add: current_event_of_def)
  moreover have "length (filter (current_event_of v) (retire_events u evs)) \<le> 1" for v
    unfolding retire_events_def
    by (rule order_trans [OF length_filter_map_le])
      (use assms(1) in \<open>auto simp: events_ok_def current_event_of_def split: if_splits\<close>)
  ultimately show ?thesis using assms(2) by (auto simp: events_ok_def current_event_of_def)
qed

lemma wallets_ok_retire: "wallets_ok ws \<Longrightarrow> wallets_ok (retire_wallets u chain ws)"
  unfolding wallets_ok_def retire_wallets_def
  by (intro allI order_trans [OF length_filter_map_le]) (auto simp: live_wallet_def split: if_splits)

lemma wallets_ok_add:
  "wallets_ok ws \<Longrightarrow> \<not> (\<exists>w \<in> set ws. aw_wallet w = aw_wallet x \<and> live_wallet (aw_chain x) w) \<Longrightarrow>
   wallets_ok (ws @ [x])"
  by (auto simp: wallets_ok_def live_wallet_def filter_empty_conv)

lemma wallets_ok_dead: "wallets_ok ws \<Longrightarrow> (\<And>x. x \<in> set xs \<Longrightarrow> aw_is_delete x) \<Longrightarrow> wallets_ok (ws @ xs)"
  by (auto simp: wallets_ok_def live_wallet_def filter_empty_conv)

text \<open>
  Most facts about a block concern one part of the state only.  A \<open>side_frame\<close> is a predicate
  that the side tables leave alone: it survives a change of the routes, the user events or the
  wallets which keeps them well formed and events being appended to the bus queue.  A \<open>block_frame\<close> moreover does not look
  at the record dictionaries, and every handler keeps it.
\<close>

locale side_frame =
  fixes I :: "em_state \<Rightarrow> bool"
  assumes frame_stems: "I s \<Longrightarrow> I (s\<lparr>es_stems := x3\<rparr>)"
    and frame_remixes: "I s \<Longrightarrow> I (s\<lparr>es_remixes := x4\<rparr>)"
    and frame_user_events:
      "I s \<Longrightarrow> (events_ok (es_user_events s) \<Longrightarrow> events_ok x5) \<Longrightarrow> I (s\<lparr>es_user_events := x5\<rparr>)"
    and frame_wallets:
      "I s \<Longrightarrow> (wallets_ok (es_wallets s) \<Longrightarrow> wallets_ok x6) \<Longrightarrow> I (s\<lparr>es_wallets := x6\<rparr>)"
    and frame_sp_cache: "I s \<Longrightarrow> I (s\<lparr>es_sp_cache := x7\<rparr>)"
    and frame_refresh: "I s \<Longrightarrow> I (s\<lparr>es_balance_refresh := x8\<rparr>)"
    and frame_bus: "I s \<Longrightarrow> I (s\<lparr>es_bus := es_bus s @ x9\<rparr>)"
    and frame_track_routes:
      "I s \<Longrightarrow> (routes_ok (es_track_routes s) \<Longrightarrow> routes_ok R) \<Longrightarrow> I (s\<lparr>es_track_routes := R\<rparr>)"
    and frame_playlist_routes:
      "I s \<Longrightarrow> (routes_ok (es_playlist_routes s) \<Longrightarrow> routes_ok R') \<Longrightarrow> I (s\<lparr>es_playlist_routes := R'\<rparr>)"
begin

lemma keeps_bus_dispatch: "keeps I (bus_dispatch ev block user extra)"
  unfolding bus_dispatch_def
proof (rule keeps_modify)
  fix s
  assume "I s"
  moreover obtain es where "dispatch (PStr ev) block user extra (es_bus s) = es_bus s @ es"
    using dispatch_extends by blast
  ultimately show "I (s\<lparr>es_bus := dispatch (PStr ev) block user extra (es_bus s)\<rparr>)"
    using frame_bus by simp
qed

lemma keeps_track_routes:
  "keeps routes_ok m \<Longrightarrow> keeps I (zoom es_track_routes (\<lambda>R s. s\<lparr>es_track_routes := R\<rparr>) m)"
  by (auto simp: keeps_def zoom_def split: prod.split intro!: frame_track_routes)

lemma keeps_playlist_routes:
  "keeps routes_ok m \<Longrightarrow> keeps I (zoom es_playlist_routes (\<lambda>R s. s\<lparr>es_playlist_routes := R\<rparr>) m)"
  by (auto simp: keeps_def zoom_def split: prod.split intro!: frame_playlist_routes)

end

locale block_frame = side_frame +
  assumes frame_new: "I s \<Longrightarrow> I (s\<lparr>es_new := x1\<rparr>)"
    and frame_existing: "I s \<Longrightarrow> I (s\<lparr>es_existing := x2\<rparr>)"
begin

lemma keeps_touch_new: "keeps I (touch_new t)"
  unfolding touch_new_def by (rule keeps_modify) (simp add: frame_new)

lemma keeps_in_new: "keeps I (in_new t k)"
  unfolding in_new_def by (intro keeps_rules keeps_touch_new)

lemma keeps_latest_record: "keeps I (latest_record t k)"
  unfolding latest_record_def
  by (intro keeps_rules) (auto split: option.split intro!: keeps_rules keeps_in_new)

lemma keeps_append_new: "keeps I (append_new t k r)"
  unfolding append_new_def by (rule keeps_modify) (rule frame_new)

lemma keeps_set_existing: "keeps I (set_existing t k r)"
  unfolding set_existing_def by (rule keeps_modify) (rule frame_existing)

lemma keeps_add_records:
  "keeps I (add_playlist_record n r)" "keeps I (add_track_record n r)"
  "keeps I (add_user_record n r)" "keeps I (add_social_feature_record u t n rt r)"
  "keeps I (add_notification_seen_record k r)" "keeps I (add_notification_record k r)"
  "keeps I (add_playlist_seen_record k r)"
  unfolding add_playlist_record_def add_track_record_def add_user_record_def
    add_social_feature_record_def add_notification_seen_record_def add_notification_record_def
    add_playlist_seen_record_def
  by (intro keeps_rules keeps_append_new keeps_set_existing keeps_in_new)+

lemmas keeps_shared =
  keeps_latest_record keeps_append_new keeps_add_records keeps_bus_dispatch

end

subsection \<open>Copies\<close>

lemma copied_value_fst [simp]: "fst (copied_value p fv) = fst fv"
  by (cases fv) (simp add: copied_value_def)

lemma distinct_columns: "distinct (columns_of c)"
  by (simp add: columns_of_def user_columns_def track_columns_def playlist_columns_def
      follow_columns_def save_columns_def repost_columns_def subscription_columns_def
      notification_seen_columns_def notification_columns_def playlist_seen_columns_def)

lemma map_of_rev_copied:
  assumes "f \<in> set (columns_of (cls r))"
  shows "map_of (rev (map (copied_value p) (get_attributes_dict r))) f
    = Some (snd (copied_value p (f, attr r f)))"
proof -
  let ?l = "map (copied_value p) (get_attributes_dict r)"
  have fst: "map fst ?l = columns_of (cls r)"
    by (simp add: get_attributes_dict_def comp_def)
  have "distinct (map fst (rev ?l))"
    using distinct_columns [of "cls r"] fst by (metis distinct_rev rev_map)
  moreover have "(f, snd (copied_value p (f, attr r f))) \<in> set (rev ?l)"
    using assms by (force simp: get_attributes_dict_def copied_value_def)
  ultimately show ?thesis by (rule map_of_is_SomeI)
qed

lemma copy_record_cls: "copy_record e p r = Inr r' \<Longrightarrow> cls r' = cls r"
  by (auto simp: copy_record_def new_inst_def dest: set_attrs_cls)

lemma copy_record_listener:
  assumes "copy_record e p r = Inr r'" and "f \<in> set (columns_of (cls r))"
    and "f \<notin> set (validated_fields (cls r))"
  shows "strip_listener (cls r) f (snd (copied_value p (f, attr r f))) = Inr (attr r' f)"
proof -
  have run: "set_attrs e (map (copied_value p) (get_attributes_dict r)) (new_inst (cls r)) = Inr r'"
    using assms(1) by (simp add: copy_record_def)
  show ?thesis
    using set_attrs_listener [OF run map_of_rev_copied [OF assms(2)]] assms(3)
    by (simp add: new_inst_def)
qed

text \<open>A plain column of a copy: the event's value for the five bookkeeping columns, else the old one.\<close>

lemma copy_record_plain:
  assumes "copy_record e p r = Inr r'" and "f \<in> set (columns_of (cls r))"
    and "f \<notin> set (validated_fields (cls r))" and "f \<notin> set (text_columns (cls r))"
  shows "attr r' f = snd (copied_value p (f, attr r f))"
  using copy_record_listener [OF assms(1-3)] assms(4) by (simp add: strip_listener_def)

definition bookkeeping_columns :: "string set" where
  "bookkeeping_columns = {''is_current'', ''updated_at'', ''blocknumber'', ''blockhash'', ''txhash''}"

lemma copy_record_stored:
  assumes "copy_record e p r = Inr r'" and "f \<in> set (columns_of (cls r))"
    and "f \<notin> set (validated_fields (cls r))" and "f \<notin> bookkeeping_columns"
  shows "stored r' f = stored r f"
  using copy_record_listener [OF assms(1-3)] assms(4) copy_record_cls [OF assms(1)]
  by (auto simp: copied_value_def bookkeeping_columns_def intro: stored_listener)

subsection \<open>Attributes a run of assignments leaves alone\<close>

definition agrees :: "string set \<Rightarrow> inst \<Rightarrow> inst \<Rightarrow> bool" where
  "agrees G r r' \<longleftrightarrow> cls r' = cls r \<and> (\<forall>g \<in> G. stored r' g = stored r g)"

named_theorems agrees_rules "protected attributes through attribute assignments"

lemma agrees_refl [simp]: "agrees G r r"
  by (simp add: agrees_def)

lemma agrees_trans: "agrees G r r' \<Longrightarrow> agrees G r' r'' \<Longrightarrow> agrees G r r''"
  by (simp add: agrees_def)

text \<open>\<open>protects G f\<close>: whatever \<open>f\<close> makes of an instance, the attributes in \<open>G\<close> stay.\<close>

definition protects :: "string set \<Rightarrow> (inst \<Rightarrow> inst result) \<Rightarrow> bool" where
  "protects G f \<longleftrightarrow> (\<forall>r r'. f r = Inr r' \<longrightarrow> agrees G r r')"

lemma protectsD: "protects G f \<Longrightarrow> f r = Inr r' \<Longrightarrow> agrees G r r'"
  by (simp add: protects_def)

lemma protects_Inr [agrees_rules]: "protects G Inr" "protects G (\<lambda>r. Inr r)"
  by (simp_all add: protects_def)

lemma protects_Inl [agrees_rules]: "protects G (\<lambda>r. Inl x)"
  by (simp add: protects_def)

lemma agrees_put: "f \<notin> G \<Longrightarrow> agrees G r (put_attr r f v)"
  unfolding agrees_def by (metis cls_put stored_put_other)

lemma agrees_set_attr: "f \<notin> G \<Longrightarrow> set_attr e r f v = Inr r' \<Longrightarrow> agrees G r r'"
  by (auto dest!: set_attr_InrD intro: agrees_put)

lemma protects_set_attr [agrees_rules]: "f \<notin> G \<Longrightarrow> protects G (\<lambda>r. set_attr e r f (h r))"
  by (auto simp: protects_def intro: agrees_set_attr)

lemma protects_bind [agrees_rules]:
  "protects G f \<Longrightarrow> protects G g \<Longrightarrow> protects G (\<lambda>r. bind_res (f r) g)"
  unfolding protects_def bind_res_Inr by (blast intro: agrees_trans)

lemma protects_bind_value [agrees_rules]:
  "(\<And>x. protects G (g x)) \<Longrightarrow> protects G (\<lambda>r. bind_res (h r) (\<lambda>x. g x r))"
  by (auto simp: protects_def bind_res_Inr)

lemma protects_if [agrees_rules]:
  "protects G f \<Longrightarrow> protects G g \<Longrightarrow> protects G (\<lambda>r. if b then f r else g r)"
  by (simp add: protects_def)

lemma protects_set_from [agrees_rules]: "fst fk \<notin> G \<Longrightarrow> protects G (set_from e md fk)"
  by (cases fk) (auto simp: protects_def set_from_def bind_res_Inr intro: agrees_set_attr)

lemma protects_fold [agrees_rules]:
  "(\<And>x. x \<in> set xs \<Longrightarrow> protects G (f x)) \<Longrightarrow> protects G (fold_res f xs)"
proof (induction xs)
  case (Cons x xs)
  have 1: "protects G (f x)" and 2: "protects G (fold_res f xs)" using Cons by simp_all
  show ?case
    unfolding protects_def
  proof (intro allI impI)
    fix r r'
    assume "fold_res f (x # xs) r = Inr r'"
    then obtain m where "f x r = Inr m" and "fold_res f xs m = Inr r'"
      by (auto split: sum.splits)
    with 1 2 show "agrees G r r'" by (blast dest: protectsD intro: agrees_trans)
  qed
qed (simp add: protects_def)

lemma protects_set_attrs [agrees_rules]:
  "fst ` set fvs \<inter> G = {} \<Longrightarrow> protects G (set_attrs e fvs)"
  unfolding set_attrs_def by (rule protects_fold) (auto split: prod.split intro!: protects_set_attr)

lemma copy_record_agrees:
  assumes "copy_record e p r = Inr r'" and "G \<subseteq> set (columns_of (cls r))"
    and "G \<inter> set (validated_fields (cls r)) = {}" and "G \<inter> bookkeeping_columns = {}"
  shows "agrees G r r'"
  unfolding agrees_def
  using assms copy_record_stored [OF assms(1)] copy_record_cls [OF assms(1)] by blast

end
