(* ===== verification/EM_Tracks.thy ===== *)
theory EM_Tracks
  imports EM_Core
begin

text \<open>
  tasks/entity_manager/track.py: creating, updating and deleting tracks, with the stems,
  remixes and routes tables they maintain.
\<close>

section \<open>Stems, remixes and routes\<close>

definition update_stems_table :: "inst \<Rightarrow> pydict \<Rightarrow> unit em" where
  "update_stems_table track_record track_metadata =
     (case od_get track_metadata ''stem_of'' of
        Some (PDict d) \<Rightarrow>
          (let parent = od_default d ''parent_track_id'' PNone;
               stem = (as_int parent, int_attr track_record ''track_id'')
           in if \<not> is_int parent then ret ()
              else modify (\<lambda>s. if stem \<in> set (es_stems s) then s
                               else s\<lparr>es_stems := es_stems s @ [stem]\<rparr>))
      | _ \<Rightarrow> ret ())"

definition remix_parents :: "pyval list \<Rightarrow> int list" where
  "remix_parents tracks = concat (map (\<lambda>t. case t of
       PDict d \<Rightarrow> (let parent = od_default d ''parent_track_id'' PNone
                   in if is_int parent then [as_int parent] else [])
     | _ \<Rightarrow> []) tracks)"

definition update_remixes_table :: "inst \<Rightarrow> pydict \<Rightarrow> unit em" where
  "update_remixes_table track_record track_metadata =
     (let child = int_attr track_record ''track_id'';
          added = (case od_get track_metadata ''remix_of'' of
                     Some (PDict d) \<Rightarrow>
                       (case od_default d ''tracks'' PNone of
                          PList tracks \<Rightarrow> map (\<lambda>parent. (parent, child)) (remix_parents tracks)
                        | _ \<Rightarrow> [])
                   | _ \<Rightarrow> [])
      in modify (\<lambda>s. s\<lparr>es_remixes := filter (\<lambda>(parent, c). c \<noteq> child) (es_remixes s) @ added\<rparr>))"

definition with_track_routes :: "(routes, unit) py \<Rightarrow> unit em" where
  "with_track_routes m = zoom es_track_routes (\<lambda>R s. s\<lparr>es_track_routes := R\<rparr>) m"

definition update_track_routes_table :: "env \<Rightarrow> inst \<Rightarrow> pydict \<Rightarrow> unit em" where
  "update_track_routes_table e track_record track_metadata =
     bnd (lift_res (dict_sub track_metadata ''title'')) (\<lambda>title.
     if py_eq (attr track_record ''title'') title then ret ()
     else bnd (lift_res (as_str title)) (\<lambda>t.
       with_track_routes (renew_route e
         (int_attr track_record ''track_id'') (int_attr track_record ''owner_id'') t
         (str_attr track_record ''blockhash'') (int_attr track_record ''blocknumber'')
         (str_attr track_record ''txhash''))))"

definition dispatch_challenge_track_upload :: "em_params \<Rightarrow> inst \<Rightarrow> unit em" where
  "dispatch_challenge_track_upload p track_record =
     bus_dispatch track_upload (PInt (p_block_number p)) (attr track_record ''owner_id'') PNone"

section \<open>Metadata\<close>

definition is_valid_json_field :: "pydict \<Rightarrow> string \<Rightarrow> bool" where
  "is_valid_json_field md f = (case od_get md f of Some (PDict d) \<Rightarrow> d \<noteq> [] | _ \<Rightarrow> False)"

definition set_json_field :: "env \<Rightarrow> pydict \<Rightarrow> string \<Rightarrow> inst \<Rightarrow> inst result" where
  "set_json_field e md f r =
     (if is_valid_json_field md f then set_from e md (f, f) r else set_attr e r f PNull)"

definition download_value :: "pydict \<Rightarrow> pyval result" where
  "download_value md =
     (case od_get md ''download'' of
        Some v \<Rightarrow>
          bind_res (get_method v ''is_downloadable'' PNone) (\<lambda>a.
          bind_res (get_method v ''requires_follow'' PNone) (\<lambda>b.
          bind_res (get_method v ''cid'' PNone) (\<lambda>c.
          Inr (PDict [(''is_downloadable'', PBool (eq_true a)),
                      (''requires_follow'', PBool (eq_true b)), (''cid'', c)]))))
      | None \<Rightarrow> Inr (PDict [(''is_downloadable'', PBool False),
                             (''requires_follow'', PBool False), (''cid'', PNone)]))"

text \<open>\<open>metadata.get("length", 0) or 0\<close>.\<close>

definition length_value :: "pydict \<Rightarrow> pyval result" where
  "length_value md =
     (let v = od_default md ''length'' (PInt 0)
      in bind_res (truthy v) (\<lambda>t. Inr (if t then v else PInt 0)))"

definition populate_track_record_metadata ::
    "env \<Rightarrow> inst \<Rightarrow> pydict \<Rightarrow> pyval \<Rightarrow> inst result" where
  "populate_track_record_metadata e track_record md handle =
     bind_res (fold_res (set_from e md) [(''track_cid'', ''track_cid''), (''title'', ''title'')]
                 track_record) (\<lambda>r.
     bind_res (length_value md) (\<lambda>len.
     bind_res (set_attr e r ''length'' len) (\<lambda>r.
     bind_res (set_from e md (''cover_art'', ''cover_art'') r) (\<lambda>r.
     bind_res (dict_sub md ''cover_art_sizes'') (\<lambda>sizes.
     bind_res (truthy sizes) (\<lambda>t.
     bind_res (if t then set_attr e r ''cover_art'' sizes else Inr r) (\<lambda>r.
     bind_res (fold_res (set_from e md) (map (\<lambda>f. (f, f))
       [''tags'', ''genre'', ''mood'', ''credits_splits'', ''create_date'', ''release_date'',
        ''file_type'', ''description'', ''license'', ''isrc'', ''iswc'', ''track_segments'',
        ''is_unlisted'', ''field_visibility'', ''is_premium'']) r) (\<lambda>r.
     bind_res (set_json_field e md ''premium_conditions'' r) (\<lambda>r.
     bind_res (set_json_field e md ''stem_of'' r) (\<lambda>r.
     bind_res (set_json_field e md ''remix_of'' r) (\<lambda>r.
     bind_res (download_value md) (\<lambda>d.
     bind_res (set_attr e r ''download'' d) (\<lambda>r.
     bind_res (dict_sub md ''title'') (\<lambda>title.
     bind_res (create_track_route_id title handle) (\<lambda>route_id.
     set_attr e r ''route_id'' (PStr route_id))))))))))))))))"

section \<open>Validation\<close>

definition validate_track_tx :: "em_params \<Rightarrow> em_state \<Rightarrow> unit result" where
  "validate_track_tx p s =
     bind_res (require_res (user_exists p s) (Raised ''user does not exist'')) (\<lambda>_.
     bind_res (check_user_signer p s) (\<lambda>_.
     bind_res (require_res (p_entity_type p = ''Track'') (Raised ''entity type is not a track'')) (\<lambda>_.
     if p_action p = ''Create'' then
       bind_res (require_res (\<not> od_has (existing_of s ''Track'') (KId (p_entity_id p)))
                   (Raised ''track already exists'')) (\<lambda>_.
       require_res (\<not> p_entity_id p < TRACK_ID_OFFSET) (Raised ''track below the offset''))
     else
       (case od_get (existing_of s ''Track'') (KId (p_entity_id p)) of
          None \<Rightarrow> Inl (Raised ''track does not exist'')
        | Some t \<Rightarrow> require_res (py_eq (attr t ''owner_id'') (PInt (p_user_id p)))
                      (Raised ''track does not match user'')))))"

section \<open>Handlers\<close>

definition get_handle :: "em_params \<Rightarrow> em_state \<Rightarrow> pyval result" where
  "get_handle p s =
     (case filter (\<lambda>u. attr u ''user_id'' = PInt (p_user_id p) \<and> is_current_row u)
             (es_db s ''User'') of
        [] \<Rightarrow> Inl TypeError
      | u # _ \<Rightarrow> Inr (attr u ''handle''))"

definition update_track_record :: "env \<Rightarrow> em_params \<Rightarrow> inst \<Rightarrow> pydict \<Rightarrow> em_state \<Rightarrow> inst result" where
  "update_track_record e p track md s =
     bind_res (get_handle p s) (\<lambda>handle.
     bind_res (populate_track_record_metadata e track md handle) (\<lambda>r.
     bind_res (set_attr e r ''metadata_multihash'' (PStr (p_metadata_cid p))) (\<lambda>r.
     bind_res (truthy (attr r ''cover_art'')) (\<lambda>t.
     if t then
       bind_res (set_attr e r ''cover_art_sizes'' (attr r ''cover_art'')) (\<lambda>r.
       set_attr e r ''cover_art'' PNone)
     else Inr r))))"

definition new_track :: "env \<Rightarrow> em_params \<Rightarrow> inst result" where
  "new_track e p = make_inst e ''Track''
     [(''track_id'', PInt (p_entity_id p)), (''owner_id'', PInt (p_user_id p)),
      (''txhash'', PStr (p_txhash p)), (''blockhash'', PStr (p_blockhash p)),
      (''blocknumber'', PInt (p_block_number p)), (''created_at'', block_datetime p),
      (''updated_at'', block_datetime p), (''is_delete'', PBool False)]"

definition create_track_body :: "env \<Rightarrow> em_params \<Rightarrow> unit em" where
  "create_track_body e p =
     bnd (lift_res (event_metadata p)) (\<lambda>track_metadata.
     bnd (lift_res (new_track e p)) (\<lambda>r0.
     sq (update_track_routes_table e r0 track_metadata) (
     bnd (bnd (gets (update_track_record e p r0 track_metadata)) lift_res) (\<lambda>track_record.
     sq (update_stems_table track_record track_metadata) (
     sq (update_remixes_table track_record track_metadata) (
     sq (dispatch_challenge_track_upload p track_record) (
     add_track_record (p_entity_id p) track_record)))))))"

definition create_track :: "env \<Rightarrow> em_params \<Rightarrow> unit em" where
  "create_track e p = sq (check (validate_track_tx p)) (create_track_body e p)"

definition update_track_body :: "env \<Rightarrow> em_params \<Rightarrow> unit em" where
  "update_track_body e p =
     bnd (lift_res (event_metadata p)) (\<lambda>track_metadata.
     bnd (latest_record ''Track'' (KId (p_entity_id p))) (\<lambda>existing_track.
     bnd (lift_res (copy_record e p existing_track)) (\<lambda>r0.
     sq (update_track_routes_table e r0 track_metadata) (
     bnd (bnd (gets (update_track_record e p r0 track_metadata)) lift_res) (\<lambda>updated_track.
     sq (update_remixes_table updated_track track_metadata) (
     add_track_record (p_entity_id p) updated_track))))))"

definition update_track :: "env \<Rightarrow> em_params \<Rightarrow> unit em" where
  "update_track e p = sq (check (validate_track_tx p)) (update_track_body e p)"

definition delete_track_body :: "env \<Rightarrow> em_params \<Rightarrow> unit em" where
  "delete_track_body e p =
     bnd (latest_record ''Track'' (KId (p_entity_id p))) (\<lambda>existing_track.
     bnd (lift_res (bind_res (copy_record e p existing_track)
       (set_attrs e [(''is_delete'', PBool True), (''stem_of'', PNull), (''remix_of'', PNull),
                     (''premium_conditions'', PNull)]))) (\<lambda>deleted_track.
     add_track_record (p_entity_id p) deleted_track))"

definition delete_track :: "env \<Rightarrow> em_params \<Rightarrow> unit em" where
  "delete_track e p = sq (check (validate_track_tx p)) (delete_track_body e p)"

section \<open>The signer contract\<close>

lemma validate_track_tx_signer: "validate_track_tx p s = Inr () \<Longrightarrow> user_authorised p s"
  by (auto simp: validate_track_tx_def bind_res_Inr dest: check_user_signer_ok)

interpretation track_create: signed_handler validate_track_tx "create_track_body e" for e
  by unfold_locales (rule validate_track_tx_signer)

interpretation track_update: signed_handler validate_track_tx "update_track_body e" for e
  by unfold_locales (rule validate_track_tx_signer)

interpretation track_delete: signed_handler validate_track_tx "delete_track_body e" for e
  by unfold_locales (rule validate_track_tx_signer)

section \<open>What the handlers leave alone\<close>

context side_frame
begin

lemma keeps_update_stems_table: "keeps I (update_stems_table r md)"
  unfolding update_stems_table_def Let_def
  by (auto split: option.split pyval.split intro!: keeps_rules keeps_modify frame_stems)

lemma keeps_update_remixes_table: "keeps I (update_remixes_table r md)"
  unfolding update_remixes_table_def Let_def by (intro keeps_modify frame_remixes)

lemma keeps_update_track_routes_table: "keeps I (update_track_routes_table e r md)"
  unfolding update_track_routes_table_def with_track_routes_def
  by (intro keeps_rules keeps_track_routes keeps_renew_route)

lemmas keeps_track_tables =
  keeps_update_stems_table keeps_update_remixes_table keeps_update_track_routes_table

end

context block_frame
begin

lemma keeps_create_track: "keeps I (create_track e p)"
  unfolding create_track_def create_track_body_def dispatch_challenge_track_upload_def
  by (intro keeps_rules keeps_shared keeps_track_tables)

lemma keeps_update_track: "keeps I (update_track e p)"
  unfolding update_track_def update_track_body_def
  by (intro keeps_rules keeps_shared keeps_track_tables)

lemma keeps_delete_track: "keeps I (delete_track e p)"
  unfolding delete_track_def delete_track_body_def by (intro keeps_rules keeps_shared)

end

end
