(* ===== verification/EM_Playlists.thy ===== *)
theory EM_Playlists
  imports EM_Core
begin

text \<open>
  tasks/entity_manager/playlist.py: creating, updating and deleting playlists.  The contents
  of a playlist pair every track with the time its owner gave it (\<open>metadata_time\<close>) and the
  time it was indexed (\<open>time\<close>); an update keeps the index times of the tracks that stay.
\<close>

section \<open>Routes\<close>

definition with_playlist_routes :: "(routes, unit) py \<Rightarrow> unit em" where
  "with_playlist_routes m = zoom es_playlist_routes (\<lambda>R s. s\<lparr>es_playlist_routes := R\<rparr>) m"

definition update_playlist_routes_table :: "env \<Rightarrow> inst \<Rightarrow> unit em" where
  "update_playlist_routes_table e playlist_record =
     bnd (lift_res (as_str (attr playlist_record ''playlist_name''))) (\<lambda>name.
     with_playlist_routes (renew_route e
       (int_attr playlist_record ''playlist_id'') (int_attr playlist_record ''playlist_owner_id'') name
       (str_attr playlist_record ''blockhash'') (int_attr playlist_record ''blocknumber'')
       (str_attr playlist_record ''txhash'')))"

section \<open>Validation\<close>

text \<open>
  The premium check looks at every track fetched for the block, not only at the tracks of
  the playlist.
\<close>

definition validate_playlist_tx :: "em_params \<Rightarrow> em_state \<Rightarrow> unit result" where
  "validate_playlist_tx p s =
     bind_res (require_res (user_exists p s) (Raised ''user does not exist'')) (\<lambda>_.
     bind_res (check_user_signer p s) (\<lambda>_.
     bind_res (require_res (p_entity_type p = ''Playlist'') (Raised ''not a playlist'')) (\<lambda>_.
     bind_res (map_res (\<lambda>(k, t). truthy (attr t ''is_premium'')) (existing_of s ''Track'')) (\<lambda>premium.
     bind_res (require_res (True \<notin> set premium) (Raised ''Cannot add premium tracks'')) (\<lambda>_.
     if p_action p = ''Create'' then
       bind_res (require_res (\<not> od_has (existing_of s ''Playlist'') (KId (p_entity_id p)))
                   (Raised ''playlist already exists'')) (\<lambda>_.
       require_res (\<not> p_entity_id p < PLAYLIST_ID_OFFSET) (Raised ''playlist below the offset''))
     else
       (case od_get (existing_of s ''Playlist'') (KId (p_entity_id p)) of
          None \<Rightarrow> Inl (Raised ''playlist does not exist'')
        | Some r \<Rightarrow> require_res (py_eq (attr r ''playlist_owner_id'') (PInt (p_user_id p)))
                      (Raised ''playlist does not belong to user'')))))))"

section \<open>Contents\<close>

definition content_entry :: "pyval \<Rightarrow> pyval \<Rightarrow> pyval \<Rightarrow> pyval" where
  "content_entry track time mtime =
     PDict [(''track'', track), (''time'', time), (''metadata_time'', mtime)]"

text \<open>
  \<open>metadata_index_time_dict[track_id][metadata_time] = track["time"]\<close>: a dictionary of
  dictionaries, read only at a pair of keys, hence one dictionary over pairs.
\<close>

type_synonym index_times = "(pyval \<times> pyval, pyval) odict"

definition note_index_time :: "pyval \<Rightarrow> index_times \<Rightarrow> index_times result" where
  "note_index_time track d =
     bind_res (subscript track ''track'') (\<lambda>track_id.
     bind_res (subscript track ''metadata_time'') (\<lambda>mtime.
     bind_res (subscript track ''time'') (\<lambda>time.
     bind_res (hash_key track_id) (\<lambda>k.
     bind_res (hash_key mtime) (\<lambda>m.
     Inr (od_set d (k, m) time))))))"

definition reindex_track :: "int \<Rightarrow> index_times \<Rightarrow> pyval \<Rightarrow> pyval result" where
  "reindex_track now d track =
     bind_res (subscript track ''track'') (\<lambda>track_id.
     bind_res (subscript track ''time'') (\<lambda>mtime.
     bind_res (hash_key track_id) (\<lambda>k.
     if k \<in> fst ` set (od_keys d) then
       bind_res (hash_key mtime) (\<lambda>m.
       Inr (content_entry track_id (od_default d (k, m) (PInt now)) mtime))
     else Inr (content_entry track_id (PInt now) mtime))))"

definition note_legacy_time :: "pyval \<Rightarrow> (pyval \<times> pyval) list \<Rightarrow> (pyval \<times> pyval) list result" where
  "note_legacy_time track seen =
     bind_res (subscript track ''track'') (\<lambda>track_id.
     bind_res (subscript track ''time'') (\<lambda>time.
     bind_res (hash_key track_id) (\<lambda>k.
     bind_res (hash_key time) (\<lambda>m.
     Inr ((k, m) # seen)))))"

definition upgrade_track :: "int \<Rightarrow> (pyval \<times> pyval) list \<Rightarrow> pyval \<Rightarrow> pyval result" where
  "upgrade_track now seen track =
     bind_res (subscript track ''track'') (\<lambda>track_id.
     bind_res (subscript track ''time'') (\<lambda>mtime.
     bind_res (hash_key track_id) (\<lambda>k.
     bind_res (hash_key mtime) (\<lambda>m.
     Inr (content_entry track_id (if (k, m) \<in> set seen then mtime else PInt now) mtime)))))"

definition contents_tracks :: "pyval \<Rightarrow> pyval list result" where
  "contents_tracks contents = bind_res (subscript contents ''track_ids'') py_iter"

definition process_playlist_contents :: "inst \<Rightarrow> pydict \<Rightarrow> int \<Rightarrow> pyval result" where
  "process_playlist_contents playlist_record md now =
     bind_res (truthy (attr playlist_record ''metadata_multihash'')) (\<lambda>has_metadata.
     bind_res (contents_tracks (attr playlist_record ''playlist_contents'')) (\<lambda>old.
     if has_metadata then
       bind_res (fold_res note_index_time old []) (\<lambda>d.
       bind_res (dict_sub md ''playlist_contents'') (\<lambda>c.
       bind_res (contents_tracks c) (\<lambda>new.
       bind_res (map_res (reindex_track now d) new) (\<lambda>updated.
       Inr (PDict [(''track_ids'', PList updated)])))))
     else
       bind_res (fold_res note_legacy_time old []) (\<lambda>seen.
       bind_res (dict_sub md ''playlist_contents'') (\<lambda>c.
       bind_res (contents_tracks c) (\<lambda>new.
       bind_res (map_res (upgrade_track now seen) new) (\<lambda>updated.
       Inr (PDict [(''track_ids'', PList updated)])))))))"

text \<open>
  \<open>track_obj["time"] > last_added_to\<close> on numbers.  Values of other types that do compare fail in
  \<open>utcfromtimestamp\<close> afterwards, with the same \<open>TypeError\<close>.
\<close>

definition py_less :: "pyval \<Rightarrow> pyval \<Rightarrow> bool result" where
  "py_less v w = (if is_int v \<and> is_int w then Inr (as_int v < as_int w) else Inl TypeError)"

definition later_time :: "pyval \<Rightarrow> pyval \<Rightarrow> pyval result" where
  "later_time track_obj best =
     bind_res (subscript track_obj ''time'') (\<lambda>t.
     bind_res (py_less best t) (\<lambda>later. Inr (if later then t else best)))"

text \<open>\<open>datetime.utcfromtimestamp(t)\<close> takes a number within the years 1 to 9999.\<close>

definition utcfromtimestamp :: "pyval \<Rightarrow> pyval result" where
  "utcfromtimestamp t =
     (if \<not> is_int t then Inl TypeError
      else if - 62135596800 \<le> as_int t \<and> as_int t \<le> 253402300799 then Inr (PTime (as_int t))
      else Inl ValueError)"

definition last_added_to :: "pyval list \<Rightarrow> pyval result" where
  "last_added_to track_ids =
     (case track_ids of
        [] \<Rightarrow> Inr PNone
      | t # _ \<Rightarrow> bind_res (subscript t ''time'') (\<lambda>first.
                 bind_res (fold_res later_time track_ids first) utcfromtimestamp))"

definition get_or_false :: "pydict \<Rightarrow> string \<Rightarrow> pyval" where
  "get_or_false md k = od_default md k (PBool False)"

definition process_playlist_data_event ::
    "env \<Rightarrow> em_params \<Rightarrow> inst \<Rightarrow> pydict \<Rightarrow> inst result" where
  "process_playlist_data_event e p r md =
     bind_res (set_attr e r ''is_album'' (get_or_false md ''is_album'')) (\<lambda>r.
     bind_res (fold_res (set_from e md)
       [(''description'', ''description''),
        (''playlist_image_multihash'', ''playlist_image_sizes_multihash''),
        (''playlist_image_sizes_multihash'', ''playlist_image_sizes_multihash''),
        (''playlist_name'', ''playlist_name'')] r) (\<lambda>r.
     bind_res (set_attr e r ''is_private'' (get_or_false md ''is_private'')) (\<lambda>r.
     bind_res (process_playlist_contents r md (p_block_time p)) (\<lambda>contents.
     bind_res (set_attr e r ''playlist_contents'' contents) (\<lambda>r.
     bind_res (contents_tracks contents) (\<lambda>track_ids.
     bind_res (last_added_to track_ids) (\<lambda>added.
     set_attrs e [(''last_added_to'', added), (''updated_at'', block_datetime p),
                  (''metadata_multihash'', PStr (p_metadata_cid p))] r)))))))"

section \<open>Handlers\<close>

definition dispatch_challenge_playlist_upload :: "em_params \<Rightarrow> inst \<Rightarrow> unit em" where
  "dispatch_challenge_playlist_upload p r =
     bus_dispatch first_playlist (PInt (p_block_number p)) (attr r ''playlist_owner_id'') PNone"

definition index_new_track :: "int \<Rightarrow> pyval \<Rightarrow> pyval result" where
  "index_new_track now track =
     bind_res (subscript track ''track'') (\<lambda>t.
     bind_res (subscript track ''time'') (\<lambda>m.
     Inr (PDict [(''track'', t), (''metadata_time'', m), (''time'', PInt now)])))"

definition new_playlist :: "env \<Rightarrow> em_params \<Rightarrow> pydict \<Rightarrow> pyval list \<Rightarrow> inst result" where
  "new_playlist e p md entries =
     bind_res (dict_sub md ''description'') (\<lambda>description.
     bind_res (dict_sub md ''playlist_image_sizes_multihash'') (\<lambda>image.
     bind_res (dict_sub md ''playlist_name'') (\<lambda>name.
     make_inst e ''Playlist''
       [(''playlist_id'', PInt (p_entity_id p)),
        (''metadata_multihash'', PStr (p_metadata_cid p)),
        (''playlist_owner_id'', PInt (p_user_id p)),
        (''is_album'', get_or_false md ''is_album''),
        (''description'', description),
        (''playlist_image_multihash'', image),
        (''playlist_image_sizes_multihash'', image),
        (''playlist_name'', name),
        (''is_private'', get_or_false md ''is_private''),
        (''playlist_contents'', PDict [(''track_ids'', PList entries)]),
        (''created_at'', block_datetime p), (''updated_at'', block_datetime p),
        (''blocknumber'', PInt (p_block_number p)), (''blockhash'', PStr (p_blockhash p)),
        (''txhash'', PStr (p_txhash p)),
        (''last_added_to'', if entries = [] then PNone else block_datetime p),
        (''is_current'', PBool False), (''is_delete'', PBool False)])))"

definition create_playlist_body :: "env \<Rightarrow> em_params \<Rightarrow> unit em" where
  "create_playlist_body e p =
     bnd (lift_res (event_metadata p)) (\<lambda>md.
     bnd (lift_res (bind_res (dict_sub md ''playlist_contents'')
            (\<lambda>c. get_method c ''track_ids'' (PList [])))) (\<lambda>tracks.
     bnd (lift_res (bind_res (py_iter tracks) (map_res (index_new_track (p_block_time p))))) (\<lambda>entries.
     bnd (lift_res (new_playlist e p md entries)) (\<lambda>r.
     sq (update_playlist_routes_table e r) (
     sq (add_playlist_record (p_entity_id p) r) (
     run_when (entries \<noteq> []) (dispatch_challenge_playlist_upload p r)))))))"

definition create_playlist :: "env \<Rightarrow> em_params \<Rightarrow> unit em" where
  "create_playlist e p = sq (check (validate_playlist_tx p)) (create_playlist_body e p)"

definition update_playlist_body :: "env \<Rightarrow> em_params \<Rightarrow> unit em" where
  "update_playlist_body e p =
     bnd (lift_res (event_metadata p)) (\<lambda>md.
     bnd (latest_record ''Playlist'' (KId (p_entity_id p))) (\<lambda>existing.
     bnd (lift_res (bind_res (copy_record e p existing)
            (\<lambda>r. process_playlist_data_event e p r md))) (\<lambda>r.
     sq (update_playlist_routes_table e r) (
     sq (add_playlist_record (p_entity_id p) r) (
     bnd (lift_res (contents_tracks (attr r ''playlist_contents''))) (\<lambda>track_ids.
     run_when (track_ids \<noteq> []) (dispatch_challenge_playlist_upload p r)))))))"

definition update_playlist :: "env \<Rightarrow> em_params \<Rightarrow> unit em" where
  "update_playlist e p = sq (check (validate_playlist_tx p)) (update_playlist_body e p)"

text \<open>Deleting appends to \<open>new_records\<close> only: the existing record stays as it was.\<close>

definition delete_playlist_body :: "env \<Rightarrow> em_params \<Rightarrow> unit em" where
  "delete_playlist_body e p =
     bnd (latest_record ''Playlist'' (KId (p_entity_id p))) (\<lambda>existing.
     bnd (lift_res (bind_res (copy_record e p existing)
            (\<lambda>r. set_attr e r ''is_delete'' (PBool True)))) (\<lambda>deleted.
     append_new ''Playlist'' (KId (p_entity_id p)) deleted))"

definition delete_playlist :: "env \<Rightarrow> em_params \<Rightarrow> unit em" where
  "delete_playlist e p = sq (check (validate_playlist_tx p)) (delete_playlist_body e p)"

section \<open>The signer contract\<close>

lemma validate_playlist_tx_signer: "validate_playlist_tx p s = Inr () \<Longrightarrow> user_authorised p s"
  by (auto simp: validate_playlist_tx_def bind_res_Inr dest: check_user_signer_ok)

interpretation playlist_create: signed_handler validate_playlist_tx "create_playlist_body e" for e
  by unfold_locales (rule validate_playlist_tx_signer)

interpretation playlist_update: signed_handler validate_playlist_tx "update_playlist_body e" for e
  by unfold_locales (rule validate_playlist_tx_signer)

interpretation playlist_delete: signed_handler validate_playlist_tx "delete_playlist_body e" for e
  by unfold_locales (rule validate_playlist_tx_signer)

section \<open>What the handlers leave alone\<close>

context side_frame
begin

lemma keeps_update_playlist_routes_table: "keeps I (update_playlist_routes_table e r)"
  unfolding update_playlist_routes_table_def with_playlist_routes_def
  by (intro keeps_rules keeps_playlist_routes keeps_renew_route)

end

context block_frame
begin

lemma keeps_create_playlist: "keeps I (create_playlist e p)"
  unfolding create_playlist_def create_playlist_body_def dispatch_challenge_playlist_upload_def
  by (intro keeps_rules keeps_shared keeps_update_playlist_routes_table)

lemma keeps_update_playlist: "keeps I (update_playlist e p)"
  unfolding update_playlist_def update_playlist_body_def dispatch_challenge_playlist_upload_def
  by (intro keeps_rules keeps_shared keeps_update_playlist_routes_table)

lemma keeps_delete_playlist: "keeps I (delete_playlist e p)"
  unfolding delete_playlist_def delete_playlist_body_def by (intro keeps_rules keeps_shared)

end

end
