(* ===== verification/Premium_Access.thy ===== *)
theory Premium_Access
  imports Models Slugs
begin

text \<open>
  premium_content/premium_content_access_checker.py with the condition handlers of
  premium_content/helpers.py: who may use a premium track.  The handlers read the replica
  tables of the environment; the batch check reads the tracks table it is given.
\<close>

section \<open>Conditions (helpers.py)\<close>

definition does_user_have_nft_collection :: "int \<Rightarrow> pyval \<Rightarrow> bool result" where
  "does_user_have_nft_collection user_id nft_collection = Inr False"

definition does_user_follow_artist :: "inst list \<Rightarrow> int \<Rightarrow> pyval \<Rightarrow> bool result" where
  "does_user_follow_artist follows user_id follow_user_id =
     bind_res (one_or_none (filter (\<lambda>f. is_current_row f \<and> attr f ''is_delete'' = PBool False
         \<and> py_eq (attr f ''follower_user_id'') (PInt user_id)
         \<and> py_eq (attr f ''followee_user_id'') follow_user_id) follows))
       (\<lambda>r. Inr (r \<noteq> None))"

definition does_user_support_artist :: "(int \<times> int \<times> int) list \<Rightarrow> int \<Rightarrow> pyval \<Rightarrow> bool result" where
  "does_user_support_artist tips user_id supporting_user_id =
     Inr (list_ex (\<lambda>(sender, receiver, amount).
       sender = user_id \<and> py_eq (PInt receiver) supporting_user_id \<and> 0 \<le> amount) tips)"

section \<open>The access check\<close>

record access =
  acc_is_premium :: bool
  acc_does_user_have_access :: bool

definition grant :: "bool \<Rightarrow> bool \<Rightarrow> access" where
  "grant premium ok = \<lparr>acc_is_premium = premium, acc_does_user_have_access = ok\<rparr>"

text \<open>\<open>len(conditions)\<close>, then \<open>list(conditions.items())[0]\<close>.\<close>

definition evaluate_conditions :: "env \<Rightarrow> int \<Rightarrow> pyval \<Rightarrow> bool result" where
  "evaluate_conditions e user_id premium_conditions =
     (case premium_conditions of
        PDict [(condition, v)] \<Rightarrow>
          if condition = ''nft_collection'' then does_user_have_nft_collection user_id v
          else if condition = ''follow_user_id'' then does_user_follow_artist (replica_follows e) user_id v
          else if condition = ''tip_user_id'' then does_user_support_artist (replica_tips e) user_id v
          else Inr False
      | PDict _ \<Rightarrow> Inr False
      | PList xs \<Rightarrow> if length xs = 1 then Inl AttributeError else Inr False
      | PStr s \<Rightarrow> if length s = 1 then Inl AttributeError else Inr False
      | _ \<Rightarrow> Inl TypeError)"

text \<open>
  The decision shared by the single and the batch check.  A track that is not premium still
  has the truth value of its conditions taken, for a warning.
\<close>

definition decide_access :: "env \<Rightarrow> int \<Rightarrow> pyval \<Rightarrow> pyval \<Rightarrow> pyval \<Rightarrow> access result" where
  "decide_access e user_id is_premium premium_conditions content_owner_id =
     bind_res (truthy is_premium) (\<lambda>premium.
     if \<not> premium then
       bind_res (truthy premium_conditions) (\<lambda>_. Inr (grant False True))
     else if premium_conditions = PNone then Inr (grant True True)
     else if py_eq content_owner_id (PInt user_id) then Inr (grant True True)
     else bind_res (evaluate_conditions e user_id premium_conditions) (\<lambda>ok. Inr (grant True ok)))"

definition check_access :: "env \<Rightarrow> int \<Rightarrow> string \<Rightarrow> inst \<Rightarrow> access result" where
  "check_access e user_id premium_content_type entity =
     (if premium_content_type \<noteq> ''track'' then Inr (grant False True)
      else decide_access e user_id (attr entity ''is_premium'') (attr entity ''premium_conditions'')
             (attr entity ''owner_id''))"

section \<open>The batch check\<close>

record access_arg =
  arg_user_id :: int
  arg_content_id :: int
  arg_content_type :: string

definition get_premium_track_data :: "inst list \<Rightarrow> int list \<Rightarrow> (int, inst) odict" where
  "get_premium_track_data tracks ids =
     od_build (\<lambda>t. as_int (attr t ''track_id'')) (\<lambda>t. t)
       (filter (\<lambda>t. as_int (attr t ''track_id'') \<in> set ids \<and> is_current_row t
                  \<and> attr t ''is_delete'' = PBool False) tracks)"

type_synonym track_access = "(int, (int, access) odict) odict"

definition record_access :: "int \<Rightarrow> int \<Rightarrow> access \<Rightarrow> track_access \<Rightarrow> track_access" where
  "record_access user_id track_id a res =
     od_set res user_id (od_set (od_default res user_id []) track_id a)"

definition batch_step ::
    "env \<Rightarrow> (int, int) odict \<Rightarrow> int \<times> inst \<Rightarrow> track_access \<Rightarrow> track_access result" where
  "batch_step e users kt res =
     (case kt of (track_id, t) \<Rightarrow>
        (case od_get users track_id of
           None \<Rightarrow> Inl KeyError
         | Some user_id \<Rightarrow>
             bind_res (decide_access e user_id (attr t ''is_premium'')
               (attr t ''premium_conditions'') (attr t ''owner_id'')) (\<lambda>a.
             Inr (record_access user_id track_id a res))))"

definition check_access_for_batch :: "env \<Rightarrow> inst list \<Rightarrow> access_arg list \<Rightarrow> track_access result" where
  "check_access_for_batch e tracks args =
     (let valid_args = filter (\<lambda>a. arg_content_type a = ''track'') args;
          users = od_build arg_content_id arg_user_id valid_args
      in if valid_args = [] then Inr []
         else fold_res (batch_step e users) (get_premium_track_data tracks (od_keys users)) [])"

section \<open>Facts\<close>

text \<open>
  Who is entitled to a track, over the rows of the tables and not over the queries: a track that
  is not premium is open to all, so is a premium track without conditions; the owner may always
  hear it; a track for followers needs a current follow of the artist that is not deleted, a
  track for supporters a tip to the artist.  Nothing entitles to a track for the holders of a
  collection, nor to one with several conditions.
\<close>

inductive entitled :: "env \<Rightarrow> int \<Rightarrow> inst \<Rightarrow> bool" where
  open_to_all: "attr t ''is_premium'' = PBool False \<Longrightarrow> entitled e u t"
| unconditional: "attr t ''premium_conditions'' = PNone \<Longrightarrow> entitled e u t"
| owner: "py_eq (attr t ''owner_id'') (PInt u) \<Longrightarrow> entitled e u t"
| follower: "attr t ''premium_conditions'' = PDict [(''follow_user_id'', artist)] \<Longrightarrow>
    f \<in> set (replica_follows e) \<Longrightarrow> attr f ''is_current'' = PBool True \<Longrightarrow> attr f ''is_delete'' = PBool False \<Longrightarrow>
    py_eq (attr f ''follower_user_id'') (PInt u) \<Longrightarrow> py_eq (attr f ''followee_user_id'') artist \<Longrightarrow> entitled e u t"
| supporter: "attr t ''premium_conditions'' = PDict [(''tip_user_id'', artist)] \<Longrightarrow>
    (u, receiver, amount) \<in> set (replica_tips e) \<Longrightarrow> 0 \<le> amount \<Longrightarrow> py_eq (PInt receiver) artist \<Longrightarrow> entitled e u t"

inductive_simps entitled_iff: "entitled e u t"

lemma follows_artist:
  assumes "does_user_follow_artist follows u artist = Inr ok"
  shows "ok \<longleftrightarrow> (\<exists>f \<in> set follows. attr f ''is_current'' = PBool True \<and> attr f ''is_delete'' = PBool False \<and>
    py_eq (attr f ''follower_user_id'') (PInt u) \<and> py_eq (attr f ''followee_user_id'') artist)"
proof -
  let ?P = "\<lambda>f. is_current_row f \<and> attr f ''is_delete'' = PBool False \<and>
    py_eq (attr f ''follower_user_id'') (PInt u) \<and> py_eq (attr f ''followee_user_id'') artist"
  have "ok \<longleftrightarrow> filter ?P follows \<noteq> []"
    using assms by (auto simp: does_user_follow_artist_def bind_res_Inr one_or_none_def split: list.splits)
  then show ?thesis by (auto simp: filter_empty_conv is_current_row_def)
qed

lemma supports_artist:
  "does_user_support_artist tips u artist = Inr ok \<Longrightarrow>
     ok \<longleftrightarrow> (\<exists>receiver amount. (u, receiver, amount) \<in> set tips \<and> 0 \<le> amount \<and> py_eq (PInt receiver) artist)"
  unfolding does_user_support_artist_def list_ex_iff by force

lemma decide_access_entitled:
  assumes "decide_access e u (attr t ''is_premium'') (attr t ''premium_conditions'') (attr t ''owner_id'') = Inr a"
    and premium: "attr t ''is_premium'' = PBool premium"
  shows "acc_is_premium a = premium \<and> (acc_does_user_have_access a \<longleftrightarrow> entitled e u t)"
proof (cases "premium \<and> attr t ''premium_conditions'' \<noteq> PNone \<and> \<not> py_eq (attr t ''owner_id'') (PInt u)")
  case False
  then show ?thesis
    using assms by (auto simp: decide_access_def grant_def bind_res_Inr entitled_iff split: if_splits)
next
  case True
  then obtain ok where ok: "evaluate_conditions e u (attr t ''premium_conditions'') = Inr ok" and a: "a = grant True ok"
    using assms by (auto simp: decide_access_def bind_res_Inr)
  have "ok \<longleftrightarrow> entitled e u t"
  proof -
    consider (follow) artist where "attr t ''premium_conditions'' = PDict [(''follow_user_id'', artist)]"
      | (tip) artist where "attr t ''premium_conditions'' = PDict [(''tip_user_id'', artist)]"
      | (other) "\<nexists>artist. attr t ''premium_conditions'' = PDict [(''follow_user_id'', artist)]"
          "\<nexists>artist. attr t ''premium_conditions'' = PDict [(''tip_user_id'', artist)]"
      by blast
    then show ?thesis
    proof cases
      case (follow artist)
      with ok have "does_user_follow_artist (replica_follows e) u artist = Inr ok" by (simp add: evaluate_conditions_def)
      from follows_artist [OF this] show ?thesis using True follow premium by (auto simp: entitled_iff [of e u t])
    next
      case (tip artist)
      with ok have "does_user_support_artist (replica_tips e) u artist = Inr ok" by (simp add: evaluate_conditions_def)
      from supports_artist [OF this] show ?thesis using True tip premium by (simp add: entitled_iff [of e u t])
    next
      case other
      then show ?thesis
        using True ok premium
        by (auto simp: entitled_iff [of e u t] evaluate_conditions_def does_user_have_nft_collection_def
            split: pyval.splits list.splits if_splits)
    qed
  qed
  then show ?thesis using True a by (simp add: grant_def)
qed

text \<open>Every entry of the batch result is the single decision for the user the track is listed under.\<close>

lemma od_get_record_access:
  "od_get (record_access u t a res) u' =
     (if u = u' then Some (od_set (od_default res u []) t a) else od_get res u')"
  by (simp add: record_access_def)

definition batch_sound :: "env \<Rightarrow> (int, int) odict \<Rightarrow> (int, inst) odict \<Rightarrow> track_access \<Rightarrow> bool" where
  "batch_sound e users data res \<longleftrightarrow>
     (\<forall>u d t a. od_get res u = Some d \<longrightarrow> od_get d t = Some a \<longrightarrow>
        od_get users t = Some u \<and>
        (\<exists>r. (t, r) \<in> set data \<and>
           decide_access e u (attr r ''is_premium'') (attr r ''premium_conditions'')
             (attr r ''owner_id'') = Inr a))"

lemma batch_step_sound:
  assumes "batch_step e users kt res = Inr res'" and "batch_sound e users data res"
    and "kt \<in> set data"
  shows "batch_sound e users data res'"
proof -
  obtain t r where kt: "kt = (t, r)" by force
  from assms(1) obtain u a where u: "od_get users t = Some u"
    and a: "decide_access e u (attr r ''is_premium'') (attr r ''premium_conditions'')
             (attr r ''owner_id'') = Inr a"
    and res': "res' = record_access u t a res"
    by (auto simp: batch_step_def kt bind_res_Inr split: option.splits)
  show ?thesis
    unfolding batch_sound_def
  proof (intro allI impI)
    fix u' d t' a'
    assume d: "od_get res' u' = Some d" and t': "od_get d t' = Some a'"
    show "od_get users t' = Some u' \<and> (\<exists>r. (t', r) \<in> set data \<and>
      decide_access e u' (attr r ''is_premium'') (attr r ''premium_conditions'')
        (attr r ''owner_id'') = Inr a')"
    proof (cases "u' = u \<and> t' = t")
      case True
      then have "a' = a" using d t' by (auto simp: res' od_get_record_access)
      with True u a assms(3) kt show ?thesis by blast
    next
      case False
      have "\<exists>d0. od_get res u' = Some d0 \<and> od_get d0 t' = Some a'"
        using False d t'
        by (auto simp: res' od_get_record_access od_default_def split: if_splits option.splits)
      then show ?thesis using assms(2) unfolding batch_sound_def by blast
    qed
  qed
qed

lemma batch_fold_sound:
  "fold_res (batch_step e users) xs res = Inr res' \<Longrightarrow> batch_sound e users data res \<Longrightarrow>
   set xs \<subseteq> set data \<Longrightarrow> batch_sound e users data res'"
proof (induction xs arbitrary: res)
  case (Cons x xs)
  then show ?case
    by (auto split: sum.splits dest: batch_step_sound [where data = data])
qed simp

end
