(* ===== verification/EM_Social.thy ===== *)
theory EM_Social
  imports EM_Core Premium_Access
begin

text \<open>
  tasks/entity_manager/social_features.py (follows, saves, reposts and subscriptions) and
  tasks/entity_manager/notification.py (notifications and the views of notifications and
  playlists).
\<close>

section \<open>Social features\<close>

definition action_to_record_type :: "string \<Rightarrow> string option" where
  "action_to_record_type action =
     (if action = ''Follow'' \<or> action = ''Unfollow'' then Some ''Follow''
      else if action = ''Save'' \<or> action = ''Unsave'' then Some ''Save''
      else if action = ''Repost'' \<or> action = ''Unrepost'' then Some ''Repost''
      else if action = ''Subscribe'' \<or> action = ''Unsubscribe'' then Some ''Subscription''
      else None)"

definition action_to_challenge_event :: "string \<Rightarrow> string option" where
  "action_to_challenge_event action =
     (if action = ''Follow'' \<or> action = ''Unfollow'' then Some ev_follow
      else if action = ''Save'' \<or> action = ''Unsave'' then Some ev_favorite
      else if action = ''Repost'' \<or> action = ''Unrepost'' then Some ev_repost
      else None)"

definition create_social_action_types :: "string list" where
  "create_social_action_types = [''Follow'', ''Save'', ''Repost'', ''Subscribe'']"

definition delete_social_action_types :: "string list" where
  "delete_social_action_types = [''Unfollow'', ''Unsave'', ''Unrepost'', ''Unsubscribe'']"

definition premium_content_validation_actions :: "string list" where
  "premium_content_validation_actions = [''Save'', ''Unsave'', ''Repost'', ''Unrepost'']"

definition should_check_entity_access :: "string \<Rightarrow> string \<Rightarrow> bool" where
  "should_check_entity_access action entity_type \<longleftrightarrow>
     action \<in> set premium_content_validation_actions \<and> entity_type = ''Track''"

definition validate_social_feature :: "env \<Rightarrow> em_params \<Rightarrow> em_state \<Rightarrow> unit result" where
  "validate_social_feature e p s =
     bind_res (require_res (user_exists p s) (Raised ''user does not exist'')) (\<lambda>_.
     bind_res (check_user_signer p s) (\<lambda>_.
     (case od_get (existing_of s (p_entity_type p)) (KId (p_entity_id p)) of
        None \<Rightarrow> Inl (Raised ''entity does not exist'')
      | Some entity \<Rightarrow>
          bind_res (require_res (\<not> (p_action p \<in> {''Follow'', ''Unfollow''} \<and> p_user_id p = p_entity_id p))
                      (Raised ''user cannot follow themself'')) (\<lambda>_.
          bind_res (require_res (\<not> (p_action p \<in> {''Subscribe'', ''Unsubscribe''} \<and> p_user_id p = p_entity_id p))
                      (Raised ''user cannot subscribe to themself'')) (\<lambda>_.
          if should_check_entity_access (p_action p) (p_entity_type p) then
            bind_res (check_access e (p_user_id p) ''track'' entity) (\<lambda>a.
            require_res (acc_does_user_have_access a) (Raised ''user has no access to entity''))
          else Inr ())))))"

text \<open>The columns every social record of an event shares.\<close>

definition social_base :: "em_params \<Rightarrow> bool \<Rightarrow> (string \<times> pyval) list" where
  "social_base p deleted =
     [(''blockhash'', PStr (p_blockhash p)), (''blocknumber'', PInt (p_block_number p)),
      (''created_at'', block_datetime p), (''txhash'', PStr (p_txhash p)),
      (''is_current'', PBool True), (''is_delete'', PBool deleted)]"

definition social_record :: "env \<Rightarrow> em_params \<Rightarrow> string \<Rightarrow> bool \<Rightarrow> inst result" where
  "social_record e p record_type deleted =
     (if record_type = ''Follow'' then
        make_inst e ''Follow'' (social_base p deleted @
          [(''follower_user_id'', PInt (p_user_id p)), (''followee_user_id'', PInt (p_entity_id p))])
      else if record_type = ''Save'' then
        make_inst e ''Save'' (social_base p deleted @
          [(''user_id'', PInt (p_user_id p)), (''save_item_id'', PInt (p_entity_id p)),
           (''save_type'', PStr (str_lower (p_entity_type p)))])
      else if record_type = ''Repost'' then
        make_inst e ''Repost'' (social_base p deleted @
          [(''user_id'', PInt (p_user_id p)), (''repost_item_id'', PInt (p_entity_id p)),
           (''repost_type'', PStr (str_lower (p_entity_type p)))])
      else
        make_inst e ''Subscription'' (social_base p deleted @
          [(''user_id'', PInt (p_entity_id p)), (''subscriber_id'', PInt (p_user_id p))]))"

definition dispatch_social_event :: "em_params \<Rightarrow> unit em" where
  "dispatch_social_event p =
     (case action_to_challenge_event (p_action p) of
        None \<Rightarrow> ret ()
      | Some ev \<Rightarrow> bus_dispatch ev (PInt (p_block_number p)) (PInt (p_user_id p)) PNone)"

text \<open>What follows the validation in both handlers, for the actions the handler knows.\<close>

definition social_body :: "env \<Rightarrow> bool \<Rightarrow> em_params \<Rightarrow> unit em" where
  "social_body e deleted p =
     (case action_to_record_type (p_action p) of
        None \<Rightarrow> ret ()
      | Some record_type \<Rightarrow>
          bnd (lift_res (social_record e p record_type deleted)) (\<lambda>r.
          sq (add_social_feature_record (p_user_id p) (p_entity_type p) (p_entity_id p) record_type r)
             (dispatch_social_event p)))"

definition create_social_record :: "env \<Rightarrow> em_params \<Rightarrow> unit em" where
  "create_social_record e p = sq (check (validate_social_feature e p))
     (run_when (p_action p \<in> set create_social_action_types) (social_body e False p))"

definition delete_social_record :: "env \<Rightarrow> em_params \<Rightarrow> unit em" where
  "delete_social_record e p = sq (check (validate_social_feature e p))
     (run_when (p_action p \<in> set delete_social_action_types) (social_body e True p))"

lemma validate_social_feature_signer: "validate_social_feature e p s = Inr () \<Longrightarrow> user_authorised p s"
  by (auto simp: validate_social_feature_def bind_res_Inr dest: check_user_signer_ok)

interpretation social_create: signed_handler "validate_social_feature e"
    "\<lambda>p. run_when (p_action p \<in> set create_social_action_types) (social_body e False p)" for e
  by unfold_locales (rule validate_social_feature_signer)

interpretation social_delete: signed_handler "validate_social_feature e"
    "\<lambda>p. run_when (p_action p \<in> set delete_social_action_types) (social_body e True p)" for e
  by unfold_locales (rule validate_social_feature_signer)

section \<open>Notifications\<close>

definition get_notification_creator :: "env \<Rightarrow> string option" where
  "get_notification_creator e = notification_creator_addr e"

text \<open>A configured address that is not empty and differs from the signer only in case.\<close>

definition address_matches :: "string option \<Rightarrow> string \<Rightarrow> bool" where
  "address_matches a signer =
     (case a of None \<Rightarrow> False | Some w \<Rightarrow> w \<noteq> [] \<and> str_lower w = str_lower signer)"

definition validate_notification_tx :: "env \<Rightarrow> em_params \<Rightarrow> em_state \<Rightarrow> unit result" where
  "validate_notification_tx e p s =
     bind_res (require_res (p_entity_type p = ''Notification'') (Raised ''not a notification'')) (\<lambda>_.
     if p_action p = ''View'' then
       bind_res (require_res (user_exists p s) (Raised ''user does not exist'')) (\<lambda>_.
       check_user_signer p s)
     else if p_action p = ''Create'' then
       bind_res (require_res (address_matches (get_notification_creator e) (p_signer p))
         (Raised ''signer does not match notification address'')) (\<lambda>_.
       require_res (json_loads e (p_metadata_cid p) \<noteq> None) (Raised ''unable to parse''))
     else Inl (Raised ''entity action is not valid''))"

definition view_notification :: "env \<Rightarrow> em_params \<Rightarrow> unit em" where
  "view_notification e p =
     sq (check (validate_notification_tx e p)) (
     bnd (lift_res (make_inst e ''NotificationSeen''
       [(''user_id'', PInt (p_user_id p)), (''seen_at'', block_datetime p),
        (''txhash'', PStr (p_txhash p)), (''blockhash'', PStr (p_blockhash p)),
        (''blocknumber'', PInt (p_block_number p))])) (\<lambda>r.
     add_notification_seen_record (KPair (p_user_id p) (p_block_time p)) r))"

definition get_notification_user_ids :: "pyval \<Rightarrow> em_state \<Rightarrow> pyval list" where
  "get_notification_user_ids user_group s =
     (if user_group = PStr ''all'' then
        map (\<lambda>u. attr u ''user_id'')
          (filter (\<lambda>u. is_current_row u \<and> attr u ''is_deactivated'' = PBool False
                     \<and> attr u ''handle_lc'' \<noteq> PNone) (es_db s ''User''))
      else [])"

definition create_notification :: "env \<Rightarrow> em_params \<Rightarrow> unit em" where
  "create_notification e p =
     sq (check (validate_notification_tx e p)) (
     bnd (lift_res (case json_loads e (p_metadata_cid p) of None \<Rightarrow> Inl ValueError | Some v \<Rightarrow> Inr v)) (\<lambda>data.
     bnd (lift_res (subscript data ''userGroup'')) (\<lambda>user_group.
     bnd (gets (get_notification_user_ids user_group)) (\<lambda>user_ids.
     bnd (lift_res (make_inst e ''Notification''
       [(''specifier'', PStr []),
        (''group_id'', PStr (''announcement:blocknumber:'' @ show_int (p_block_number p))),
        (''type'', PStr ''announcement''), (''blocknumber'', PInt (p_block_number p)),
        (''timestamp'', block_datetime p), (''data'', data), (''user_ids'', PList user_ids)])) (\<lambda>r.
     add_notification_record (KTime (p_block_time p)) r)))))"

definition validate_view_playlist_tx :: "em_params \<Rightarrow> em_state \<Rightarrow> unit result" where
  "validate_view_playlist_tx p s =
     bind_res (require_res (user_exists p s) (Raised ''user does not exist'')) (\<lambda>_.
     bind_res (check_user_signer p s) (\<lambda>_.
     require_res (od_has (existing_of s ''Playlist'') (KId (p_entity_id p)))
       (Raised ''playlist does not exist'')))"

definition view_playlist_body :: "env \<Rightarrow> em_params \<Rightarrow> unit em" where
  "view_playlist_body e p =
     bnd (lift_res (make_inst e ''PlaylistSeen''
       [(''is_current'', PBool True), (''user_id'', PInt (p_user_id p)),
        (''playlist_id'', PInt (p_entity_id p)), (''seen_at'', block_datetime p),
        (''txhash'', PStr (p_txhash p)), (''blockhash'', PStr (p_blockhash p)),
        (''blocknumber'', PInt (p_block_number p))])) (\<lambda>r.
     add_playlist_seen_record (KPair (p_user_id p) (p_entity_id p)) r)"

definition view_playlist :: "env \<Rightarrow> em_params \<Rightarrow> unit em" where
  "view_playlist e p = sq (check (validate_view_playlist_tx p)) (view_playlist_body e p)"

lemma validate_view_playlist_tx_signer: "validate_view_playlist_tx p s = Inr () \<Longrightarrow> user_authorised p s"
  by (auto simp: validate_view_playlist_tx_def bind_res_Inr dest: check_user_signer_ok)

interpretation playlist_view: signed_handler validate_view_playlist_tx "view_playlist_body e" for e
  by unfold_locales (rule validate_view_playlist_tx_signer)

section \<open>What the handlers leave alone\<close>

context side_frame
begin

lemma keeps_dispatch_social_event: "keeps I (dispatch_social_event p)"
  unfolding dispatch_social_event_def
  by (auto split: option.split intro: keeps_rules keeps_bus_dispatch)

end

context block_frame
begin

lemma keeps_social_body: "keeps I (social_body e deleted p)"
  unfolding social_body_def
  by (auto split: option.split intro!: keeps_rules keeps_shared keeps_dispatch_social_event)

lemma keeps_social:
  "keeps I (create_social_record e p)" "keeps I (delete_social_record e p)"
  unfolding create_social_record_def delete_social_record_def
  by (intro keeps_rules keeps_social_body)+

lemma keeps_notification:
  "keeps I (view_notification e p)" "keeps I (create_notification e p)" "keeps I (view_playlist e p)"
  unfolding view_notification_def create_notification_def view_playlist_def view_playlist_body_def
  by (intro keeps_rules keeps_shared)+

end

end
