(* ===== verification/EM_Users.thy ===== *)
theory EM_Users
  imports EM_Core EM_Social
begin

text \<open>
  tasks/entity_manager/user.py and tasks/entity_manager/user_replica_set.py: creating,
  updating and verifying users, their associated wallets and events, and the replica set of
  content nodes.
\<close>

section \<open>Service provider ids (user_replica_set.py)\<close>

definition parse_sp_ids :: "string \<Rightarrow> int list result" where
  "parse_sp_ids sp_ids_str =
     (let sp_ids = str_split (CHR '','') sp_ids_str in
      bind_res (require_res (list_all str_isdigit sp_ids) (Raised ''sp id is not a digit'')) (\<lambda>_.
      bind_res (require_res (\<not> length sp_ids < 3) (Raised ''Too few updated sp ids'')) (\<lambda>_.
      map_res read_int sp_ids)))"

definition parse_update_sp_id :: "string \<Rightarrow> (int list \<times> int list) result" where
  "parse_update_sp_id metadata_cid =
     (let sp_ids = str_split (CHR '':'') metadata_cid in
      bind_res (require_res (length sp_ids = 2) (Raised ''Invalid format'')) (\<lambda>_.
      bind_res (parse_sp_ids (sp_ids ! 0)) (\<lambda>current.
      bind_res (parse_sp_ids (sp_ids ! 1)) (\<lambda>updated.
      Inr (current, updated)))))"

definition show_pyval_id :: "pyval \<Rightarrow> string" where
  "show_pyval_id v = (case v of PInt n \<Rightarrow> show_int n | PBool True \<Rightarrow> ''True''
     | PBool False \<Rightarrow> ''False'' | PStr s \<Rightarrow> s | _ \<Rightarrow> ''None'')"

definition get_cn_sp_id_key :: "pyval \<Rightarrow> string" where
  "get_cn_sp_id_key v = ''sp:cn:id:'' @ show_pyval_id v"

text \<open>
  The lookup of a provider in the Redis cache, with the contract as fallback: \<open>fetch_node_info\<close>
  of utils/eth_manager.py.
\<close>

definition fetch_node_info :: "env \<Rightarrow> pyval \<Rightarrow> sp_info em" where
  "fetch_node_info e sp_id =
     (let key = get_cn_sp_id_key sp_id in
      bnd (gets (\<lambda>s. od_get (es_sp_cache s) key)) (\<lambda>cached. case cached of
        Some info \<Rightarrow> ret info
      | None \<Rightarrow>
          bnd (lift_res (service_endpoint_info e sp_id)) (\<lambda>info.
          sq (modify (\<lambda>s. s\<lparr>es_sp_cache := od_set (es_sp_cache s) key info\<rparr>)) (ret info))))"

definition get_endpoint_from_id :: "env \<Rightarrow> int \<Rightarrow> string em" where
  "get_endpoint_from_id e sp_id = bnd (fetch_node_info e (PInt sp_id)) (\<lambda>info. ret (endpoint info))"

fun append_endpoints :: "env \<Rightarrow> string \<Rightarrow> int list \<Rightarrow> string em" where
  "append_endpoints e acc [] = ret acc"
| "append_endpoints e acc (n # ns) =
     bnd (get_endpoint_from_id e n) (\<lambda>ep. append_endpoints e (acc @ '','' @ ep) ns)"

definition get_endpoint_string_from_sp_ids :: "env \<Rightarrow> int \<Rightarrow> int list \<Rightarrow> string em" where
  "get_endpoint_string_from_sp_ids e primary secondaries =
     bnd (get_endpoint_from_id e primary) (\<lambda>ep. append_endpoints e ep secondaries)"

text \<open>\<open>[user.primary_id] + user.secondary_ids\<close>.\<close>

definition user_sp_ids :: "inst \<Rightarrow> pyval list" where
  "user_sp_ids u = attr u ''primary_id'' #
     (case attr u ''secondary_ids'' of PList ids \<Rightarrow> ids | _ \<Rightarrow> [])"

text \<open>The loop over the set of the user's providers: every one is fetched.\<close>

fun signer_is_replica :: "env \<Rightarrow> string \<Rightarrow> bool \<Rightarrow> pyval list \<Rightarrow> bool em" where
  "signer_is_replica e signer found [] = ret found"
| "signer_is_replica e signer found (n # ns) =
     bnd (fetch_node_info e n) (\<lambda>info.
     signer_is_replica e signer (found \<or> str_lower (delegator_wallet info) = str_lower signer) ns)"

definition check_registered :: "env \<Rightarrow> int \<Rightarrow> unit em" where
  "check_registered e sp_id =
     bnd (fetch_node_info e (PInt sp_id)) (\<lambda>info.
     require (endpoint info \<noteq> []) (Raised ''unregistered service''))"

definition is_valid_user_replica_set_tx :: "env \<Rightarrow> em_params \<Rightarrow> unit em" where
  "is_valid_user_replica_set_tx e p =
     bnd (gets (\<lambda>s. od_get (existing_of s ''User'') (KId (p_user_id p)))) (\<lambda>found. case found of
       None \<Rightarrow> raise (Raised ''user does not exist'')
     | Some user \<Rightarrow>
         bnd (lift_res (signer_mismatch (attr user ''wallet'') (p_signer p))) (\<lambda>mismatch.
         sq (if mismatch
             then bnd (signer_is_replica e (p_signer p) False (remdups (user_sp_ids user))) (\<lambda>ok.
                  require ok (Raised ''Invalid tx signer''))
             else ret ()) (
         bnd (lift_res (parse_update_sp_id (p_metadata_cid p))) (\<lambda>(current, updated).
         sq (require (PInt (hd current) = hd (user_sp_ids user)
                \<and> set (map PInt (tl current)) = set (tl (user_sp_ids user)))
              (Raised ''Current sp ids does not match parameters'')) (
         sq (require (distinct updated) (Raised ''Duplicate sp ids not allowed'')) (
         sq (for_each updated (check_registered e)) (
         sq (require (p_entity_type p = ''UserReplicaSet'') (Raised ''Invalid entity type''))
            (require (p_action p = ''Update'') (Raised ''Invalid tx action''))))))))) "

definition int_list :: "int list \<Rightarrow> pyval" where
  "int_list ns = PList (map PInt ns)"

definition update_user_replica_set :: "env \<Rightarrow> em_params \<Rightarrow> unit em" where
  "update_user_replica_set e p =
     sq (is_valid_user_replica_set_tx e p) (
     bnd (latest_record ''User'' (KId (p_user_id p))) (\<lambda>existing_user.
     bnd (lift_res (copy_record e p existing_user)) (\<lambda>r.
     bnd (lift_res (parse_update_sp_id (p_metadata_cid p))) (\<lambda>(current, updated).
     bnd (lift_res (set_attrs e [(''primary_id'', PInt (hd updated)),
            (''secondary_ids'', int_list (tl updated)),
            (''replica_set_update_signer'', PStr (p_signer p))] r)) (\<lambda>r.
     bnd (get_endpoint_string_from_sp_ids e (hd updated) (tl updated)) (\<lambda>ep.
     bnd (lift_res (set_attr e r ''creator_node_endpoint'' (PStr ep))) (\<lambda>r.
     add_user_record (p_user_id p) r)))))))"

section \<open>Validation of users (user.py)\<close>

definition get_verifier_address :: "env \<Rightarrow> string option" where
  "get_verifier_address e = verified_address e"

definition validate_user_tx :: "env \<Rightarrow> em_params \<Rightarrow> em_state \<Rightarrow> unit result" where
  "validate_user_tx e p s =
     bind_res (require_res (p_entity_type p = ''User'') (Raised ''wrong entity type'')) (\<lambda>_.
     if p_action p = ''Create'' then
       bind_res (require_res (\<not> user_exists p s) (Raised ''user already exists'')) (\<lambda>_.
       require_res (\<not> p_user_id p < USER_ID_OFFSET) (Raised ''user id offset incorrect''))
     else if p_action p = ''Update'' then
       bind_res (require_res (user_exists p s) (Raised ''user does not exist'')) (\<lambda>_.
       check_user_signer p s)
     else if p_action p = ''Verify'' then
       require_res (address_matches (get_verifier_address e) (p_signer p))
         (Raised ''signer does not match verifier address'')
     else Inl (Raised ''action is not valid''))"

definition validate_user_record :: "inst \<Rightarrow> unit result" where
  "validate_user_record r =
     require_res (all_required_fields_present ''User'' r) (Raised ''missing required fields'')"

definition handle_exists :: "string \<Rightarrow> em_state \<Rightarrow> bool" where
  "handle_exists h s \<longleftrightarrow> (\<exists>u \<in> set (es_db s ''User''). attr u ''handle_lc'' = PStr h)"

definition artist_pick_exists :: "pyval \<Rightarrow> inst \<Rightarrow> em_state \<Rightarrow> bool" where
  "artist_pick_exists v r s \<longleftrightarrow> (\<exists>t \<in> set (es_db s ''Track'').
     is_current_row t \<and> py_eq (attr t ''track_id'') v \<and> attr t ''owner_id'' = attr r ''user_id'')"

definition validate_user_metadata :: "env \<Rightarrow> inst \<Rightarrow> pydict \<Rightarrow> em_state \<Rightarrow> inst result" where
  "validate_user_metadata e r md s =
     bind_res (bind_res (truthy (attr r ''handle'')) (\<lambda>has_handle.
       if has_handle then Inr r
       else
         bind_res (bind_res (dict_sub md ''handle'') as_str) (\<lambda>h.
         bind_res (require_res (\<not> handle_exists (str_lower h) s) (Raised ''User handle already exists'')) (\<lambda>_.
         set_attrs e [(''handle'', PStr h), (''handle_lc'', PStr (str_lower h))] r)))) (\<lambda>r.
     (case od_get md ''artist_pick_track_id'' of
        None \<Rightarrow> Inr r
      | Some v \<Rightarrow>
          bind_res (truthy v) (\<lambda>t.
          if t then bind_res (require_res (artist_pick_exists v r s) (Raised ''Cannot set artist pick''))
                 (\<lambda>_. Inr r)
          else Inr r)))"

section \<open>Events and wallets\<close>

text \<open>\<open>signed message of the wallet association\<close>: the text both chains sign.\<close>

definition wallet_message :: "int \<Rightarrow> string" where
  "wallet_message user_id = ''AudiusUserID:'' @ show_int user_id"

definition validate_signature :: "env \<Rightarrow> string \<Rightarrow> int \<Rightarrow> string \<Rightarrow> string \<Rightarrow> bool result" where
  "validate_signature e chain user_id wallet signature =
     (if chain = ''eth'' then
        bind_res (recover_hash e (wallet_message user_id) signature) (\<lambda>signed. Inr (signed = wallet))
      else if chain = ''sol'' then Inr (verify_sol_message e wallet (wallet_message user_id) signature)
      else Inr False)"

text \<open>One pair of the events dictionary, against the referrer and mobile flag so far.\<close>

definition apply_user_event ::
    "int \<Rightarrow> pyval \<Rightarrow> string \<times> pyval \<Rightarrow> int option \<times> bool \<Rightarrow> (em_state, int option \<times> bool) py" where
  "apply_user_event user_id block kv rm =
     (case (kv, rm) of ((event, v), (referrer, mobile)) \<Rightarrow>
        if event = ''referrer'' \<and> is_int v \<and> referrer = None \<and> user_id \<noteq> as_int v then
          sq (bus_dispatch referral_signup block v (PDict [(''referred_user_id'', PInt user_id)])) (
          sq (bus_dispatch referred_signup block (PInt user_id) PNone) (
          ret (Some (as_int v), mobile)))
        else if event = ''is_mobile_user'' \<and> is_bool v \<and> \<not> mobile then
          sq (run_when (v = PBool True) (bus_dispatch mobile_install block (PInt user_id) PNone)) (
          ret (referrer, v = PBool True))
        else ret (referrer, mobile))"

fun apply_user_events ::
    "int \<Rightarrow> pyval \<Rightarrow> pydict \<Rightarrow> int option \<times> bool \<Rightarrow> (em_state, int option \<times> bool) py" where
  "apply_user_events user_id block [] rm = ret rm"
| "apply_user_events user_id block (kv # kvs) rm =
     bnd (apply_user_event user_id block kv rm) (apply_user_events user_id block kvs)"

definition update_user_events :: "inst \<Rightarrow> pyval \<Rightarrow> unit em" where
  "update_user_events r events = swallow
     (bnd (lift_res (truthy (attr r ''blocknumber''))) (\<lambda>has_block.
      case events of
        PDict evs \<Rightarrow>
          if \<not> has_block then ret ()
          else
            (let user_id = int_attr r ''user_id'' in
             bnd (bnd (gets (\<lambda>s. one_or_none (filter (current_event_of user_id) (es_user_events s)))) lift_res)
               (\<lambda>existing.
             let referrer0 = (case existing of None \<Rightarrow> None | Some ev \<Rightarrow> ue_referrer ev);
                 mobile0 = (case existing of None \<Rightarrow> False | Some ev \<Rightarrow> ue_is_mobile_user ev)
             in bnd (apply_user_events user_id (attr r ''blocknumber'') evs (referrer0, mobile0))
               (\<lambda>(referrer, mobile).
             run_when (existing = None \<or> mobile \<noteq> mobile0 \<or> referrer \<noteq> referrer0)
               (modify (\<lambda>s. s\<lparr>es_user_events := retire_events user_id (es_user_events s) @
                  [\<lparr>ue_user_id = user_id, ue_is_current = True,
                    ue_blocknumber = attr r ''blocknumber'', ue_blockhash = attr r ''blockhash'',
                    ue_referrer = referrer, ue_is_mobile_user = mobile\<rparr>]\<rparr>)))))
      | _ \<Rightarrow> ret ()))"

definition new_wallet :: "inst \<Rightarrow> string \<Rightarrow> string \<Rightarrow> bool \<Rightarrow> assoc_wallet" where
  "new_wallet r wallet chain deleted =
     \<lparr>aw_user_id = int_attr r ''user_id'', aw_wallet = wallet, aw_chain = chain,
      aw_is_current = True, aw_is_delete = deleted,
      aw_blocknumber = attr r ''blocknumber'', aw_blockhash = attr r ''blockhash''\<rparr>"

text \<open>One pair of the wallets dictionary: the wallets added so far, extended if it is accepted.\<close>

definition associate_wallet ::
    "env \<Rightarrow> inst \<Rightarrow> string \<Rightarrow> string \<times> pyval \<Rightarrow> string list \<Rightarrow> (em_state, string list) py" where
  "associate_wallet e r chain wm added =
     (case wm of (wallet, wallet_metadata) \<Rightarrow>
        bnd (lift_res (str_in ''signature'' wallet_metadata)) (\<lambda>present.
        if \<not> present then ret added
        else bnd (lift_res (subscript wallet_metadata ''signature'')) (\<lambda>sig. case sig of
          PStr signature \<Rightarrow>
            bnd (lift_res (validate_signature e chain (int_attr r ''user_id'') wallet signature)) (\<lambda>valid.
            if \<not> valid then ret added
            else bnd (gets (\<lambda>s. \<exists>w \<in> set (es_wallets s). aw_wallet w = wallet \<and> live_wallet chain w)) (\<lambda>exists.
              if exists then ret added
              else sq (modify (\<lambda>s. s\<lparr>es_wallets := es_wallets s @ [new_wallet r wallet chain False]\<rparr>))
                      (ret (wallet # added))))
        | _ \<Rightarrow> ret added)))"

fun associate_wallets ::
    "env \<Rightarrow> inst \<Rightarrow> string \<Rightarrow> pydict \<Rightarrow> string list \<Rightarrow> (em_state, string list) py" where
  "associate_wallets e r chain [] added = ret added"
| "associate_wallets e r chain (wm # wms) added =
     bnd (associate_wallet e r chain wm added) (associate_wallets e r chain wms)"

text \<open>Wallets that were associated before and are not now get a row that marks them deleted.\<close>

definition mark_deleted :: "inst \<Rightarrow> string \<Rightarrow> string list \<Rightarrow> string list \<Rightarrow> assoc_wallet list" where
  "mark_deleted r chain previous added =
     map (\<lambda>w. new_wallet r w chain True) (filter (\<lambda>w. w \<notin> set added) previous)"

definition update_user_associated_wallets :: "env \<Rightarrow> inst \<Rightarrow> pyval \<Rightarrow> string \<Rightarrow> unit em" where
  "update_user_associated_wallets e r wallets chain = swallow
     (let user_id = int_attr r ''user_id'';
          ws = (case wallets of PDict d \<Rightarrow> d | _ \<Rightarrow> [])
      in bnd (gets (\<lambda>s. map aw_wallet
                (filter (\<lambda>w. aw_user_id w = user_id \<and> live_wallet chain w) (es_wallets s)))) (\<lambda>previous.
         sq (modify (\<lambda>s. s\<lparr>es_wallets := retire_wallets user_id chain (es_wallets s)\<rparr>)) (
         bnd (associate_wallets e r chain ws []) (\<lambda>added.
         sq (modify (\<lambda>s. s\<lparr>es_wallets := es_wallets s @ mark_deleted r chain previous added\<rparr>))
            (run_when (set previous \<noteq> set added)
               (modify (\<lambda>s. s\<lparr>es_balance_refresh := es_balance_refresh s @ [user_id]\<rparr>)))))))"

section \<open>Metadata of users\<close>

text \<open>\<open>if k in metadata and metadata[k]: user.f = metadata[k]\<close>.\<close>

definition set_if_truthy :: "env \<Rightarrow> pydict \<Rightarrow> string \<times> string \<Rightarrow> inst \<Rightarrow> inst result" where
  "set_if_truthy e md fk r = (case fk of (f, k) \<Rightarrow>
     (case od_get md k of
        None \<Rightarrow> Inr r
      | Some v \<Rightarrow> bind_res (truthy v) (\<lambda>t. if t then set_attr e r f v else Inr r)))"

definition set_if_present :: "env \<Rightarrow> pydict \<Rightarrow> string \<Rightarrow> inst \<Rightarrow> inst result" where
  "set_if_present e md f r = (case od_get md f of None \<Rightarrow> Inr r | Some v \<Rightarrow> set_attr e r f v)"

definition has_collectibles :: "pydict \<Rightarrow> bool" where
  "has_collectibles md = (case od_get md ''collectibles'' of Some (PDict d) \<Rightarrow> d \<noteq> [] | _ \<Rightarrow> False)"

definition user_profile_fields :: "env \<Rightarrow> pydict \<Rightarrow> inst \<Rightarrow> inst result" where
  "user_profile_fields e md r =
     bind_res (fold_res (set_if_truthy e md)
       [(''profile_picture'', ''profile_picture''), (''cover_photo'', ''cover_photo''),
        (''bio'', ''bio''), (''name'', ''name''), (''location'', ''location'')] r) (\<lambda>r.
     bind_res (set_if_present e md ''artist_pick_track_id'' r) (\<lambda>r.
     bind_res (fold_res (set_if_truthy e md)
       [(''profile_picture'', ''profile_picture_sizes''), (''cover_photo'', ''cover_photo_sizes'')] r) (\<lambda>r.
     set_attr e r ''has_collectibles'' (PBool (has_collectibles md)))))"

definition update_user_metadata :: "env \<Rightarrow> inst \<Rightarrow> pydict \<Rightarrow> inst em" where
  "update_user_metadata e r0 md =
     bnd (lift_res (user_profile_fields e md r0)) (\<lambda>r.
     sq (case od_get md ''associated_wallets'' of None \<Rightarrow> ret ()
         | Some v \<Rightarrow> update_user_associated_wallets e r v ''eth'') (
     sq (case od_get md ''associated_sol_wallets'' of None \<Rightarrow> ret ()
         | Some v \<Rightarrow> update_user_associated_wallets e r v ''sol'') (
     bnd (lift_res (bind_res (set_if_truthy e md (''playlist_library'', ''playlist_library'') r)
            (set_if_present e md ''is_deactivated''))) (\<lambda>r.
     sq (case od_get md ''events'' of None \<Rightarrow> ret ()
         | Some v \<Rightarrow> bnd (lift_res (truthy v)) (\<lambda>t. run_when t (update_user_events r v))) (
     ret r)))))"

text \<open>\<open>if user.f: user.g = user.f; user.f = None\<close>.\<close>

definition move_image :: "env \<Rightarrow> string \<times> string \<Rightarrow> inst \<Rightarrow> inst result" where
  "move_image e fg r = (case fg of (f, g) \<Rightarrow>
     bind_res (truthy (attr r f)) (\<lambda>t.
     if t then bind_res (set_attr e r g (attr r f)) (\<lambda>r. set_attr e r f PNone) else Inr r))"

definition update_legacy_user_images :: "env \<Rightarrow> inst \<Rightarrow> inst result" where
  "update_legacy_user_images e r =
     fold_res (move_image e)
       [(''profile_picture'', ''profile_picture_sizes''), (''cover_photo'', ''cover_photo_sizes'')] r"

section \<open>Handlers\<close>

definition create_user :: "env \<Rightarrow> em_params \<Rightarrow> unit em" where
  "create_user e p =
     sq (check (validate_user_tx e p)) (
     bnd (lift_res (make_inst e ''User''
       [(''user_id'', PInt (p_user_id p)), (''wallet'', PStr (str_lower (p_signer p))),
        (''txhash'', PStr (p_txhash p)), (''blockhash'', PStr (p_blockhash p)),
        (''blocknumber'', PInt (p_block_number p)), (''created_at'', block_datetime p),
        (''updated_at'', block_datetime p), (''is_current'', PBool False)])) (\<lambda>r.
     bnd (lift_res (parse_sp_ids (p_metadata_cid p))) (\<lambda>sp_ids.
     bnd (lift_res (set_attrs e [(''primary_id'', PInt (hd sp_ids)),
            (''secondary_ids'', int_list (tl sp_ids))] r)) (\<lambda>r.
     bnd (get_endpoint_string_from_sp_ids e (hd sp_ids) (tl sp_ids)) (\<lambda>ep.
     bnd (lift_res (set_attr e r ''creator_node_endpoint'' (PStr ep))) (\<lambda>r.
     sq (lift_res (validate_user_record r)) (
     add_user_record (p_user_id p) r)))))))"

text \<open>The validation is of \<open>user_id\<close>; the record updated is that of \<open>entity_id\<close>.\<close>

definition update_user_body :: "env \<Rightarrow> em_params \<Rightarrow> unit em" where
  "update_user_body e p =
     bnd (lift_res (event_metadata p)) (\<lambda>md.
     bnd (latest_record ''User'' (KId (p_entity_id p))) (\<lambda>existing_user.
     bnd (lift_res (copy_record e p existing_user)) (\<lambda>r.
     bnd (bnd (gets (validate_user_metadata e r md)) lift_res) (\<lambda>r.
     bnd (update_user_metadata e r md) (\<lambda>r.
     bnd (lift_res (bind_res (set_attr e r ''metadata_multihash'' (PStr (p_metadata_cid p)))
            (update_legacy_user_images e))) (\<lambda>r.
     sq (lift_res (validate_user_record r)) (
     sq (add_user_record (p_entity_id p) r) (
     bus_dispatch profile_update (PInt (p_block_number p)) (PInt (p_entity_id p)) PNone))))))))"

definition update_user :: "env \<Rightarrow> em_params \<Rightarrow> unit em" where
  "update_user e p = sq (check (validate_user_tx e p)) (update_user_body e p)"

definition verify_user :: "env \<Rightarrow> em_params \<Rightarrow> unit em" where
  "verify_user e p =
     sq (check (validate_user_tx e p)) (
     bnd (bnd (gets (\<lambda>s. case od_get (existing_of s ''User'') (KId (p_user_id p)) of
            None \<Rightarrow> Inl KeyError | Some u \<Rightarrow> Inr u)) lift_res) (\<lambda>existing_user.
     bnd (lift_res (copy_record e p existing_user)) (\<lambda>r.
     sq (lift_res (validate_user_record r)) (
     bnd (lift_res (set_attr e r ''is_verified'' (PBool True))) (\<lambda>r.
     sq (add_user_record (p_user_id p) r) (
     bus_dispatch connect_verified (PInt (p_block_number p)) (PInt (p_user_id p)) PNone))))))"

section \<open>What the handlers leave alone\<close>

context side_frame
begin

lemma keeps_fetch_node_info: "keeps I (fetch_node_info e v)"
  unfolding fetch_node_info_def Let_def
  by (intro keeps_rules) (auto split: option.split intro!: keeps_rules keeps_modify frame_sp_cache)

lemma keeps_get_endpoint_from_id: "keeps I (get_endpoint_from_id e n)"
  unfolding get_endpoint_from_id_def by (intro keeps_rules keeps_fetch_node_info)

lemma keeps_append_endpoints: "keeps I (append_endpoints e acc ns)"
  by (induction ns arbitrary: acc) (auto intro!: keeps_rules keeps_get_endpoint_from_id)

lemma keeps_signer_is_replica: "keeps I (signer_is_replica e signer found ns)"
  by (induction ns arbitrary: found) (auto intro!: keeps_rules keeps_fetch_node_info)

lemma keeps_check_registered: "keeps I (check_registered e n)"
  unfolding check_registered_def by (intro keeps_rules keeps_fetch_node_info)

lemmas keeps_endpoints =
  keeps_fetch_node_info keeps_get_endpoint_from_id keeps_append_endpoints
  keeps_signer_is_replica keeps_check_registered

lemma keeps_is_valid_user_replica_set_tx: "keeps I (is_valid_user_replica_set_tx e p)"
  unfolding is_valid_user_replica_set_tx_def
  by (auto split: option.split prod.split intro!: keeps_rules keeps_endpoints)

lemma keeps_apply_user_events: "keeps I (apply_user_events n block kvs rm)"
proof (induction kvs arbitrary: rm)
  case (Cons kv kvs)
  have "keeps I (apply_user_event n block kv rm)"
    unfolding apply_user_event_def
    by (auto split: prod.split intro!: keeps_rules keeps_bus_dispatch)
  with Cons show ?case by (auto intro!: keeps_rules)
qed (simp add: keeps_ret)

lemma keeps_update_user_events: "keeps I (update_user_events r v)"
  unfolding update_user_events_def Let_def
  by (rule keeps_swallow)
    (auto split: pyval.split prod.split
      intro!: keeps_rules keeps_modify frame_user_events events_ok_renew keeps_apply_user_events)

lemma keeps_add_wallet:
  "keeps I (bnd (gets (\<lambda>s. \<exists>w \<in> set (es_wallets s). aw_wallet w = wallet \<and> live_wallet chain w)) (\<lambda>exists.
     if exists then ret added
     else sq (modify (\<lambda>s. s\<lparr>es_wallets := es_wallets s @ [new_wallet r wallet chain False]\<rparr>))
             (ret (wallet # added))))"
  by (auto simp: keeps_def py_simps intro!: frame_wallets wallets_ok_add) (simp add: new_wallet_def)

lemma keeps_associate_wallets: "keeps I (associate_wallets e r chain wms added)"
proof (induction wms arbitrary: added)
  case (Cons wm wms)
  have "keeps I (associate_wallet e r chain wm added)"
    unfolding associate_wallet_def
    by (auto split: prod.split pyval.split intro!: keeps_bnd keeps_lift_res keeps_ret keeps_add_wallet)
  with Cons show ?case by (auto intro!: keeps_rules)
qed (simp add: keeps_ret)

lemma keeps_update_user_associated_wallets:
  "keeps I (update_user_associated_wallets e r v chain)"
  unfolding update_user_associated_wallets_def Let_def
  by (intro keeps_rules keeps_modify keeps_associate_wallets frame_wallets frame_refresh
      wallets_ok_retire wallets_ok_dead) (auto simp: mark_deleted_def new_wallet_def)

lemma keeps_update_user_metadata: "keeps I (update_user_metadata e r md)"
  unfolding update_user_metadata_def
  by (auto split: option.split
      intro!: keeps_rules keeps_update_user_associated_wallets keeps_update_user_events)

end

context block_frame
begin

lemma keeps_update_user_replica_set: "keeps I (update_user_replica_set e p)"
  unfolding update_user_replica_set_def get_endpoint_string_from_sp_ids_def
  by (auto split: prod.split
      intro!: keeps_rules keeps_shared keeps_endpoints keeps_is_valid_user_replica_set_tx)

lemma keeps_user_handlers:
  "keeps I (create_user e p)" "keeps I (update_user e p)" "keeps I (verify_user e p)"
  unfolding create_user_def update_user_def update_user_body_def verify_user_def
    get_endpoint_string_from_sp_ids_def
  by (intro keeps_rules keeps_shared keeps_endpoints keeps_update_user_metadata)+

end

end
