(* ===== verification/EM_Update.thy ===== *)
theory EM_Update
  imports EM_Tracks EM_Playlists EM_Social EM_Users
begin

text \<open>
  tasks/entity_manager/entity_manager.py: one block of ManageEntity transactions.  The
  entities the block mentions are fetched, every event is dispatched to its handler (an
  exception is swallowed, what the handler did before it stays), the records the handlers
  collected are compiled and saved, and the rows they replace lose \<open>is_current\<close>.
\<close>

section \<open>Transactions\<close>

record em_event =
  ev_user_id :: int
  ev_entity_id :: int
  ev_entity_type :: string
  ev_action :: string
  ev_metadata :: string
  ev_signer :: string

record em_tx =
  tx_hash :: string
  tx_events :: "em_event list"

record em_block =
  bl_number :: int
  bl_timestamp :: int
  bl_hash :: string
  bl_metadata :: "(string \<times> pydict) list"

text \<open>\<open>ManageEntityParameters.__init__\<close>.\<close>

definition event_params :: "em_block \<Rightarrow> string \<Rightarrow> em_event \<Rightarrow> em_params" where
  "event_params b txhash ev =
     \<lparr>p_user_id = ev_user_id ev, p_entity_id = ev_entity_id ev,
      p_entity_type = ev_entity_type ev, p_action = ev_action ev,
      p_metadata_cid = ev_metadata ev, p_signer = ev_signer ev,
      p_block_time = bl_timestamp b, p_block_number = bl_number b,
      p_blockhash = bl_hash b, p_txhash = txhash, p_metadata = bl_metadata b\<rparr>"

section \<open>Fetching\<close>

definition entity_types_to_fetch :: "string list" where
  "entity_types_to_fetch = [''User'', ''Track'', ''Playlist'']"

text \<open>
  The sets of \<open>entities_to_fetch\<close>, as a list of pairs of entity type and key.  Track ids of
  a playlist's contents that are not numbers match no row and are dropped.
\<close>

type_synonym fetch_set = "(string \<times> rkey) list"

definition content_track_key :: "pyval \<Rightarrow> fetch_set result" where
  "content_track_key track =
     bind_res (subscript track ''track'') (\<lambda>t.
     bind_res (hash_key t) (\<lambda>k.
     Inr (if is_int k then [(''Track'', KId (as_int k))] else [])))"

definition metadata_track_keys :: "em_block \<Rightarrow> string \<Rightarrow> fetch_set result" where
  "metadata_track_keys b cid =
     (case od_get (bl_metadata b) cid of
        None \<Rightarrow> Inr []
      | Some md \<Rightarrow>
          bind_res (get_method (od_default md ''playlist_contents'' (PDict [])) ''track_ids'' (PList [])) (\<lambda>v.
          bind_res (py_iter v) (\<lambda>tracks.
          bind_res (map_res content_track_key tracks) (\<lambda>ks. Inr (concat ks)))))"

definition event_keys :: "em_event \<Rightarrow> fetch_set" where
  "event_keys ev =
     (if ev_entity_type ev \<in> set entity_types_to_fetch
      then [(ev_entity_type ev, KId (ev_entity_id ev))] else []) @
     (if ev_entity_type ev = ''Notification'' \<and> ev_action ev = ''ViewPlaylist''
      then [(''PlaylistSeen'', KPair (ev_user_id ev) (ev_entity_id ev)),
            (''Playlist'', KId (ev_entity_id ev))] else []) @
     [(''User'', KId (ev_user_id ev))] @
     (case action_to_record_type (ev_action ev) of
        None \<Rightarrow> []
      | Some t \<Rightarrow> [(t, get_record_key (ev_user_id ev) (ev_entity_type ev) (ev_entity_id ev))])"

definition collect_event :: "em_block \<Rightarrow> em_event \<Rightarrow> fetch_set \<Rightarrow> fetch_set result" where
  "collect_event b ev ks =
     bind_res (metadata_track_keys b (ev_metadata ev)) (\<lambda>tks. Inr (ks @ event_keys ev @ tks))"

definition collect_entities_to_fetch :: "em_block \<Rightarrow> em_tx list \<Rightarrow> fetch_set result" where
  "collect_entities_to_fetch b txs = fold_res (collect_event b) (concat (map tx_events txs)) []"

definition keys_of :: "fetch_set \<Rightarrow> string \<Rightarrow> rkey list" where
  "keys_of ks t = map snd (filter (\<lambda>k. fst k = t) ks)"

text \<open>The id column of the entities that are keyed by their id.\<close>

definition id_column :: "string \<Rightarrow> string" where
  "id_column t = (if t = ''User'' then ''user_id'' else if t = ''Track'' then ''track_id''
     else ''playlist_id'')"

definition fetch_by_id :: "(string \<Rightarrow> inst list) \<Rightarrow> fetch_set \<Rightarrow> string \<Rightarrow> (rkey, inst) odict" where
  "fetch_by_id db ks t =
     od_build (\<lambda>r. KId (int_attr r (id_column t))) (\<lambda>r. r)
       (filter (\<lambda>r. is_current_row r \<and> is_int (attr r (id_column t))
                  \<and> KId (int_attr r (id_column t)) \<in> set (keys_of ks t)) (db t))"

definition social_match :: "string \<Rightarrow> inst \<Rightarrow> rkey \<Rightarrow> bool" where
  "social_match t r k =
     (case k of
        KSocial user_id entity_type entity_id \<Rightarrow>
          (if t = ''Follow'' then attr r ''followee_user_id'' = PInt entity_id
                                \<and> attr r ''follower_user_id'' = PInt user_id
           else if t = ''Save'' then attr r ''user_id'' = PInt user_id
                                \<and> attr r ''save_type'' = PStr (str_lower entity_type)
                                \<and> attr r ''save_item_id'' = PInt entity_id
           else if t = ''Repost'' then attr r ''user_id'' = PInt user_id
                                \<and> attr r ''repost_type'' = PStr (str_lower entity_type)
                                \<and> attr r ''repost_item_id'' = PInt entity_id
           else attr r ''subscriber_id'' = PInt user_id \<and> attr r ''user_id'' = PInt entity_id)
      | _ \<Rightarrow> False)"

definition social_key :: "string \<Rightarrow> inst \<Rightarrow> rkey" where
  "social_key t r =
     (if t = ''Follow'' then
        get_record_key (int_attr r ''follower_user_id'') ''User'' (int_attr r ''followee_user_id'')
      else if t = ''Save'' then
        get_record_key (int_attr r ''user_id'') (str_attr r ''save_type'') (int_attr r ''save_item_id'')
      else if t = ''Repost'' then
        get_record_key (int_attr r ''user_id'') (str_attr r ''repost_type'') (int_attr r ''repost_item_id'')
      else
        get_record_key (int_attr r ''subscriber_id'') ''User'' (int_attr r ''user_id''))"

definition fetch_social :: "(string \<Rightarrow> inst list) \<Rightarrow> fetch_set \<Rightarrow> string \<Rightarrow> (rkey, inst) odict" where
  "fetch_social db ks t =
     od_build (social_key t) (\<lambda>r. r)
       (filter (\<lambda>r. is_current_row r \<and> list_ex (social_match t r) (keys_of ks t)) (db t))"

definition fetch_playlist_seen :: "(string \<Rightarrow> inst list) \<Rightarrow> fetch_set \<Rightarrow> (rkey, inst) odict" where
  "fetch_playlist_seen db ks =
     od_build (\<lambda>r. KPair (int_attr r ''user_id'') (int_attr r ''playlist_id'')) (\<lambda>r. r)
       (filter (\<lambda>r. is_current_row r \<and>
          list_ex (\<lambda>k. case k of KPair u n \<Rightarrow> attr r ''user_id'' = PInt u \<and> attr r ''playlist_id'' = PInt n
                      | _ \<Rightarrow> False) (keys_of ks ''PlaylistSeen'')) (db ''PlaylistSeen''))"

definition fetch_existing_entities :: "(string \<Rightarrow> inst list) \<Rightarrow> fetch_set \<Rightarrow> existing_records" where
  "fetch_existing_entities db ks =
     filter (\<lambda>(t, d). keys_of ks t \<noteq> [])
       [(''Playlist'', fetch_by_id db ks ''Playlist''),
        (''Track'', fetch_by_id db ks ''Track''),
        (''User'', fetch_by_id db ks ''User''),
        (''Follow'', fetch_social db ks ''Follow''),
        (''Save'', fetch_social db ks ''Save''),
        (''Repost'', fetch_social db ks ''Repost''),
        (''Subscription'', fetch_social db ks ''Subscription''),
        (''PlaylistSeen'', fetch_playlist_seen db ks)]"

section \<open>Dispatching\<close>

definition handle_event :: "env \<Rightarrow> em_params \<Rightarrow> unit em" where
  "handle_event e p =
     (let a = p_action p; t = p_entity_type p; dev = ENABLE_DEVELOPMENT_FEATURES in
      if a = ''Create'' \<and> t = ''Playlist'' then create_playlist e p
      else if a = ''Update'' \<and> t = ''Playlist'' then update_playlist e p
      else if a = ''Delete'' \<and> t = ''Playlist'' then delete_playlist e p
      else if a = ''Create'' \<and> t = ''Track'' \<and> dev then create_track e p
      else if a = ''Update'' \<and> t = ''Track'' \<and> dev then update_track e p
      else if a = ''Delete'' \<and> t = ''Track'' \<and> dev then delete_track e p
      else if a \<in> set create_social_action_types then create_social_record e p
      else if a \<in> set delete_social_action_types then delete_social_record e p
      else if a = ''Create'' \<and> t = ''User'' \<and> dev then create_user e p
      else if a = ''Update'' \<and> t = ''User'' \<and> dev then update_user e p
      else if a = ''Verify'' \<and> t = ''User'' \<and> dev then verify_user e p
      else if a = ''Update'' \<and> t = ''UserReplicaSet'' \<and> dev then update_user_replica_set e p
      else if a = ''View'' \<and> t = ''Notification'' \<and> dev then view_notification e p
      else if a = ''Create'' \<and> t = ''Notification'' \<and> dev then create_notification e p
      else if a = ''ViewPlaylist'' \<and> t = ''Notification'' \<and> dev then view_playlist e p
      else ret ())"

definition process_event :: "env \<Rightarrow> em_params \<Rightarrow> unit em" where
  "process_event e p = swallow (handle_event e p)"

definition process_txs :: "env \<Rightarrow> em_block \<Rightarrow> em_tx list \<Rightarrow> unit em" where
  "process_txs e b txs = for_each txs (\<lambda>tx.
     for_each (tx_events tx) (\<lambda>ev. process_event e (event_params b (tx_hash tx) ev)))"

section \<open>Compiling and saving\<close>

definition retire_record :: "em_block \<Rightarrow> inst \<Rightarrow> inst" where
  "retire_record b r =
     (let r1 = (if has_column r ''is_current'' then put_attr r ''is_current'' (PBool False) else r)
      in if has_column r1 ''updated_at'' then put_attr r1 ''updated_at'' (PTime (bl_timestamp b)) else r1)"

definition make_current :: "inst \<Rightarrow> inst" where
  "make_current r = (if has_column r ''is_current'' then put_attr r ''is_current'' (PBool True) else r)"

text \<open>All records of an entity in this block are invalidated except the last.\<close>

definition compile_records :: "em_block \<Rightarrow> inst list \<Rightarrow> inst list" where
  "compile_records b rs =
     (if rs = [] then []
      else map (retire_record b) (butlast rs) @ [make_current (retire_record b (last rs))])"

definition records_to_save :: "em_block \<Rightarrow> new_records \<Rightarrow> inst list" where
  "records_to_save b nr = concat (map (\<lambda>(t, d). concat (map (\<lambda>(k, rs). compile_records b rs) d)) nr)"

definition primary_key :: "string \<Rightarrow> string list" where
  "primary_key t =
     (if t = ''User'' then [''user_id'', ''is_current'', ''txhash'']
      else if t = ''Track'' then [''is_current'', ''track_id'', ''txhash'']
      else if t = ''Playlist'' then [''playlist_id'', ''is_current'', ''txhash'']
      else if t = ''Follow'' then [''follower_user_id'', ''followee_user_id'', ''is_current'', ''txhash'']
      else if t = ''Save'' then [''user_id'', ''save_item_id'', ''save_type'', ''is_current'', ''txhash'']
      else if t = ''Repost'' then [''user_id'', ''repost_item_id'', ''repost_type'', ''is_current'', ''txhash'']
      else if t = ''Subscription'' then [''subscriber_id'', ''user_id'', ''is_current'', ''txhash'']
      else [''is_current'', ''user_id'', ''playlist_id'', ''seen_at''])"

definition same_row :: "string \<Rightarrow> inst \<Rightarrow> inst \<Rightarrow> bool" where
  "same_row t r r' \<longleftrightarrow> list_all (\<lambda>f. attr r f = attr r' f) (primary_key t)"

text \<open>The original records the block replaces: \<open>UPDATE ... SET is_current = false\<close> by primary key.\<close>

definition replaced_originals :: "new_records \<Rightarrow> existing_records \<Rightarrow> string \<Rightarrow> inst list" where
  "replaced_originals nr orig t =
     concat (map (\<lambda>(k, rs). if rs = [] then [] else
        (case od_get (od_default orig t []) k of None \<Rightarrow> [] | Some r \<Rightarrow> [r])) (od_default nr t []))"

definition invalidate_rows :: "new_records \<Rightarrow> existing_records \<Rightarrow> string \<Rightarrow> inst list \<Rightarrow> inst list" where
  "invalidate_rows nr orig t rows =
     map (\<lambda>r. if list_ex (\<lambda>o'. has_column o' ''is_current'' \<and> same_row t o' r) (replaced_originals nr orig t)
              then put_attr r ''is_current'' (PBool False) else r) rows"

definition save_block :: "em_block \<Rightarrow> existing_records \<Rightarrow> em_state \<Rightarrow> em_state" where
  "save_block b orig s =
     s\<lparr>es_db := (\<lambda>t. invalidate_rows (es_new s) orig t (es_db s t) @
         filter (\<lambda>r. cls r = t) (records_to_save b (es_new s)))\<rparr>"

text \<open>What a block starts from: nothing collected, nothing pending.\<close>

definition start_block :: "existing_records \<Rightarrow> em_state \<Rightarrow> em_state" where
  "start_block existing s =
     s\<lparr>es_new := [], es_existing := existing,
       es_track_routes := (es_track_routes s)\<lparr>rt_pending := []\<rparr>,
       es_playlist_routes := (es_playlist_routes s)\<lparr>rt_pending := []\<rparr>\<rparr>"

definition entity_manager_update :: "env \<Rightarrow> em_block \<Rightarrow> em_tx list \<Rightarrow> nat em" where
  "entity_manager_update e b txs =
     (if txs = [] then ret 0
      else
        bnd (lift_res (collect_entities_to_fetch b txs)) (\<lambda>ks.
        bnd (gets (\<lambda>s. fetch_existing_entities (es_db s) ks)) (\<lambda>original_records.
        sq (modify (start_block original_records)) (
        sq (process_txs e b txs) (
        bnd (gets (\<lambda>s. length (records_to_save b (es_new s)))) (\<lambda>num_total_changes.
        sq (modify (save_block b original_records)) (
        ret num_total_changes)))))))"

section \<open>What a block leaves alone\<close>

context block_frame
begin

lemmas keeps_handlers =
  keeps_create_track keeps_update_track keeps_delete_track
  keeps_create_playlist keeps_update_playlist keeps_delete_playlist
  keeps_social keeps_notification keeps_user_handlers keeps_update_user_replica_set

lemma keeps_handle_event: "keeps I (handle_event e p)"
  unfolding handle_event_def Let_def by (intro keeps_if keeps_ret keeps_handlers)

lemma keeps_process_txs: "keeps I (process_txs e b txs)"
  unfolding process_txs_def process_event_def
  by (intro keeps_for_each keeps_swallow keeps_handle_event)

end

text \<open>The rows the session reads, the two route tables and the bus queue each give a frame.\<close>

interpretation db_frame: block_frame "\<lambda>s. es_db s = d" for d
  by unfold_locales simp_all

interpretation routes_frame: block_frame
    "\<lambda>s. routes_ok (es_track_routes s) \<and> routes_ok (es_playlist_routes s)"
  by unfold_locales simp_all

interpretation accounts_frame: block_frame
    "\<lambda>s. events_ok (es_user_events s) \<and> wallets_ok (es_wallets s)"
  by unfold_locales simp_all

interpretation bus_frame: block_frame "\<lambda>s. \<exists>es. es_bus s = q @ es" for q
  by unfold_locales auto

end
