(* ===== verification/EM_Records.thy ===== *)
theory EM_Records
  imports EM_Update
begin

text \<open>
  The records a block collects.  \<open>rec_inv\<close> relates them to the keys that were fetched and to
  the original rows: every record of a user, track or playlist sits under the key of its own
  id, its key was fetched, and the columns that say what it is and whose it is are those of
  the original row.  Every handler keeps it; what the invalidation of old rows and the
  ownership of tracks and playlists need follows from it.
\<close>

section \<open>The invariant\<close>

definition id_types :: "string set" where
  "id_types = {''User'', ''Track'', ''Playlist''}"

text \<open>The columns no event may change.\<close>

definition guarded :: "string \<Rightarrow> string set" where
  "guarded t =
     (if t = ''User'' then {''user_id'', ''wallet'', ''created_at''}
      else if t = ''Track'' then {''track_id'', ''owner_id'', ''created_at''}
      else {''playlist_id'', ''playlist_owner_id'', ''created_at''})"

definition entity_ok :: "string \<Rightarrow> rkey \<Rightarrow> inst \<Rightarrow> bool" where
  "entity_ok t k r \<longleftrightarrow> cls r = t \<and>
     (t \<in> id_types \<longrightarrow> (\<exists>n. k = KId n \<and> attr r (id_column t) = PInt n))"

definition existing_at :: "existing_records \<Rightarrow> string \<Rightarrow> rkey \<Rightarrow> inst option" where
  "existing_at E t k = od_get (od_default E t []) k"

definition may_add :: "(string \<times> rkey) set \<Rightarrow> existing_records \<Rightarrow> string \<Rightarrow> rkey \<Rightarrow> inst \<Rightarrow> bool" where
  "may_add F E t k r \<longleftrightarrow> (t, k) \<in> F \<and>
     (\<exists>r'. existing_at E t k = Some r' \<and> agrees (guarded t) r' r)"

definition rec_inv :: "(string \<times> rkey) set \<Rightarrow> existing_records \<Rightarrow> em_state \<Rightarrow> bool" where
  "rec_inv F B s \<longleftrightarrow>
     distinct (od_keys (es_new s)) \<and>
     (\<forall>t. distinct (od_keys (new_of s t))) \<and>
     (\<forall>t \<in> id_types. \<forall>k r. existing_at (es_existing s) t k = Some r \<longrightarrow> entity_ok t k r) \<and>
     (\<forall>t k rs r. od_get (new_of s t) k = Some rs \<longrightarrow> r \<in> set rs \<longrightarrow>
        entity_ok t k r \<and> (t \<in> id_types \<longrightarrow> may_add F (es_existing s) t k r)) \<and>
     (\<forall>t \<in> id_types. \<forall>k r0. existing_at B t k = Some r0 \<longrightarrow>
        (\<exists>r. existing_at (es_existing s) t k = Some r \<and> agrees (guarded t) r0 r))"

lemma rec_invD:
  assumes "rec_inv F B s"
  shows "distinct (od_keys (es_new s))"
    and "distinct (od_keys (new_of s t))"
    and "t \<in> id_types \<Longrightarrow> existing_at (es_existing s) t k = Some r \<Longrightarrow> entity_ok t k r"
    and "od_get (new_of s t) k = Some rs \<Longrightarrow> r \<in> set rs \<Longrightarrow> entity_ok t k r"
    and "od_get (new_of s t) k = Some rs \<Longrightarrow> r \<in> set rs \<Longrightarrow> t \<in> id_types \<Longrightarrow>
      may_add F (es_existing s) t k r"
    and "t \<in> id_types \<Longrightarrow> existing_at B t k = Some r \<Longrightarrow>
      \<exists>r'. existing_at (es_existing s) t k = Some r' \<and> agrees (guarded t) r r'"
  using assms unfolding rec_inv_def by blast+

lemma existing_of_at: "od_get (existing_of s t) k = existing_at (es_existing s) t k"
  by (simp add: existing_of_def existing_at_def)

lemma new_of_update [simp]:
  "new_of (s\<lparr>es_existing := x\<rparr>) t = new_of s t"
  "new_of (s\<lparr>es_track_routes := R\<rparr>) t = new_of s t"
  "new_of (s\<lparr>es_playlist_routes := R\<rparr>) t = new_of s t"
  "new_of (s\<lparr>es_stems := x1\<rparr>) t = new_of s t"
  "new_of (s\<lparr>es_remixes := x1\<rparr>) t = new_of s t"
  "new_of (s\<lparr>es_user_events := x2\<rparr>) t = new_of s t"
  "new_of (s\<lparr>es_wallets := x3\<rparr>) t = new_of s t"
  "new_of (s\<lparr>es_bus := x4\<rparr>) t = new_of s t"
  "new_of (s\<lparr>es_sp_cache := x5\<rparr>) t = new_of s t"
  "new_of (s\<lparr>es_balance_refresh := x6\<rparr>) t = new_of s t"
  by (simp_all add: new_of_def)

lemma rec_inv_update:
  "rec_inv F B (s\<lparr>es_track_routes := R\<rparr>) = rec_inv F B s"
  "rec_inv F B (s\<lparr>es_playlist_routes := R\<rparr>) = rec_inv F B s"
  "rec_inv F B (s\<lparr>es_stems := x1\<rparr>) = rec_inv F B s"
  "rec_inv F B (s\<lparr>es_remixes := x1\<rparr>) = rec_inv F B s"
  "rec_inv F B (s\<lparr>es_user_events := x2\<rparr>) = rec_inv F B s"
  "rec_inv F B (s\<lparr>es_wallets := x3\<rparr>) = rec_inv F B s"
  "rec_inv F B (s\<lparr>es_bus := x4\<rparr>) = rec_inv F B s"
  "rec_inv F B (s\<lparr>es_sp_cache := x5\<rparr>) = rec_inv F B s"
  "rec_inv F B (s\<lparr>es_balance_refresh := x6\<rparr>) = rec_inv F B s"
  unfolding rec_inv_def by simp_all

lemma new_of_set:
  "new_of (s\<lparr>es_new := od_set (es_new s) t d\<rparr>) t' = (if t = t' then d else new_of s t')"
  by (simp add: new_of_def od_default_def)

lemma existing_at_set:
  "existing_at (od_set E t (od_set (od_default E t []) k r)) t' k' =
     (if t = t' \<and> k = k' then Some r else existing_at E t' k')"
  by (simp add: existing_at_def od_default_def)

lemma agrees_sym: "agrees G r r' \<Longrightarrow> agrees G r' r"
  by (simp add: agrees_def)

section \<open>The steps that touch the records\<close>

lemma rec_inv_touch: "rec_inv F B s \<Longrightarrow> rec_inv F B (s\<lparr>es_new := od_set (es_new s) t (new_of s t)\<rparr>)"
  by (auto simp: rec_inv_def new_of_set distinct_od_set)

lemma rec_inv_append:
  assumes I: "rec_inv F B s" and r: "entity_ok t k r"
    and add: "t \<in> id_types \<Longrightarrow> may_add F (es_existing s) t k r"
  shows "rec_inv F B (s\<lparr>es_new :=
    od_set (es_new s) t (od_set (new_of s t) k (od_default (new_of s t) k [] @ [r]))\<rparr>)"
    (is "rec_inv F B ?s")
proof -
  have "entity_ok t' k' r' \<and> (t' \<in> id_types \<longrightarrow> may_add F (es_existing s) t' k' r')"
    if "od_get (new_of ?s t') k' = Some rs" "r' \<in> set rs" for t' k' rs r'
  proof (cases "t' = t \<and> k' = k \<and> r' = r")
    case True
    then show ?thesis using r add by simp
  next
    case False
    then have "\<exists>rs'. od_get (new_of s t') k' = Some rs' \<and> r' \<in> set rs'"
      using that by (auto simp: new_of_set od_default_def split: if_splits option.splits)
    then show ?thesis using rec_invD(4,5) [OF I] by blast
  qed
  moreover have "distinct (od_keys (new_of ?s t'))" for t'
    using rec_invD(2) [OF I] by (simp add: new_of_set distinct_od_set)
  moreover have "distinct (od_keys (es_new ?s))"
    using rec_invD(1) [OF I] by (simp add: distinct_od_set)
  ultimately show ?thesis
    using I unfolding rec_inv_def by simp
qed

lemma rec_inv_set_existing:
  assumes I: "rec_inv F B s" and r: "entity_ok t k r"
    and old: "\<And>r'. t \<in> id_types \<Longrightarrow> existing_at (es_existing s) t k = Some r' \<Longrightarrow> agrees (guarded t) r' r"
  shows "rec_inv F B (s\<lparr>es_existing := od_set (es_existing s) t (od_set (existing_of s t) k r)\<rparr>)"
    (is "rec_inv F B (s\<lparr>es_existing := ?E\<rparr>)")
proof -
  have at: "existing_at ?E t' k' = (if t = t' \<and> k = k' then Some r else existing_at (es_existing s) t' k')"
    for t' k' unfolding existing_of_def by (rule existing_at_set)
  have may: "may_add F ?E t' k' x" if "t' \<in> id_types" "may_add F (es_existing s) t' k' x" for t' k' x
    using that old by (auto simp: may_add_def at) (meson agrees_sym agrees_trans)
  have "entity_ok t' k' x \<and> (t' \<in> id_types \<longrightarrow> may_add F ?E t' k' x)"
    if "od_get (new_of s t') k' = Some rs" "x \<in> set rs" for t' k' rs x
    using rec_invD(4,5) [OF I that] may by blast
  moreover have "entity_ok t' k' x" if "t' \<in> id_types" "existing_at ?E t' k' = Some x" for t' k' x
    using that r rec_invD(3) [OF I] by (auto simp: at split: if_splits)
  moreover have "\<exists>x. existing_at ?E t' k' = Some x \<and> agrees (guarded t') r0 x"
    if t': "t' \<in> id_types" and r0: "existing_at B t' k' = Some r0" for t' k' r0
  proof -
    obtain x where x: "existing_at (es_existing s) t' k' = Some x" "agrees (guarded t') r0 x"
      using rec_invD(6) [OF I t' r0] by blast
    then show ?thesis using old t' by (auto simp: at) (meson agrees_trans)
  qed
  ultimately show ?thesis
    using rec_invD(1,2) [OF I] unfolding rec_inv_def by simp
qed

lemma rec_inv_add:
  assumes I: "rec_inv F B s" and r: "entity_ok t k r" and F: "(t, k) \<in> F"
    and old: "\<And>r'. existing_at (es_existing s) t k = Some r' \<Longrightarrow> agrees (guarded t) r' r"
  shows "rec_inv F B (snd (sq (append_new t k r) (set_existing t k r) s))"
proof -
  let ?s = "s\<lparr>es_existing := od_set (es_existing s) t (od_set (existing_of s t) k r)\<rparr>"
  have "rec_inv F B ?s" using I r old by (intro rec_inv_set_existing)
  moreover have "may_add F (es_existing ?s) t k r"
    using F by (simp add: may_add_def existing_of_def existing_at_set)
  ultimately have "rec_inv F B (?s\<lparr>es_new :=
      od_set (es_new ?s) t (od_set (new_of ?s t) k (od_default (new_of ?s t) k [] @ [r]))\<rparr>)"
    using r by (intro rec_inv_append)
  moreover have "s\<lparr>es_existing := x, es_new := y\<rparr> = s\<lparr>es_new := y, es_existing := x\<rparr>" for x y
    by simp
  ultimately show ?thesis
    by (simp only: append_new_def set_existing_def py_simps existing_of_def new_of_update) simp
qed

text \<open>A handler runs from a state with these records: all steps but the last keep them.\<close>

definition from_inv :: "(string \<times> rkey) set \<Rightarrow> existing_records \<Rightarrow> existing_records \<Rightarrow> em_state \<Rightarrow> bool" where
  "from_inv F B E s \<longleftrightarrow> rec_inv F B s \<and> es_existing s = E"

interpretation rec_frame: side_frame "rec_inv F B" for F B
  by unfold_locales (simp_all add: rec_inv_update)

interpretation from_frame: side_frame "from_inv F B E" for F B E
  by unfold_locales (simp_all add: rec_inv_update from_inv_def)

lemma from_invD: "from_inv F B E s \<Longrightarrow> rec_inv F B s"
  by (simp add: from_inv_def)

lemma keeps_from: "(\<And>E. leads (from_inv F B E) m (rec_inv F B)) \<Longrightarrow> keeps (rec_inv F B) m"
  by (auto simp: keeps_def leads_def from_inv_def)

lemma from_touch_new: "keeps (from_inv F B E) (touch_new t)"
proof (unfold touch_new_def, rule keeps_modify)
  fix s
  assume "from_inv F B E s"
  moreover have "new_of s t = []" if "\<not> od_has (es_new s) t"
    using that by (simp add: new_of_def od_default_def od_has_def)
  ultimately show "from_inv F B E (if od_has (es_new s) t then s else s\<lparr>es_new := od_set (es_new s) t []\<rparr>)"
    using rec_inv_touch [of F B s t] by (auto simp: from_inv_def)
qed

lemma from_in_new: "keeps (from_inv F B E) (in_new t k)"
  unfolding in_new_def by (intro keeps_rules from_touch_new)

lemma leads_add:
  assumes "entity_ok t k r" and "(t, k) \<in> F"
    and "\<And>r'. existing_at E t k = Some r' \<Longrightarrow> agrees (guarded t) r' r"
  shows "leads (from_inv F B E) (sq (append_new t k r) (set_existing t k r)) (rec_inv F B)"
  using assms rec_inv_add by (auto simp: leads_def from_inv_def)

lemma leads_append:
  assumes "entity_ok t k r" and "t \<in> id_types \<Longrightarrow> may_add F E t k r"
  shows "leads (from_inv F B E) (append_new t k r) (rec_inv F B)"
  using assms rec_inv_append by (auto simp: leads_def from_inv_def append_new_def py_simps)

lemma leads_check:
  "(\<And>s. I s \<Longrightarrow> J s) \<Longrightarrow> (\<And>s. I s \<Longrightarrow> v s = Inr () \<Longrightarrow> leads I n J) \<Longrightarrow> leads I (sq (check v) n) J"
  unfolding check_def sq_def by (rule leads_gets_lift) simp_all

section \<open>Records read and copied\<close>

definition known :: "existing_records \<Rightarrow> string \<Rightarrow> rkey \<Rightarrow> inst \<Rightarrow> bool" where
  "known E t k r \<longleftrightarrow> entity_ok t k r \<and> (\<exists>r'. existing_at E t k = Some r' \<and> agrees (guarded t) r' r)"

lemma known_cls: "known E t k r \<Longrightarrow> cls r = t"
  by (simp add: known_def entity_ok_def)

lemma guarded_columns:
  assumes "t \<in> id_types"
  shows "guarded t \<subseteq> set (columns_of t)" and "guarded t \<inter> set (validated_fields t) = {}"
    and "guarded t \<inter> bookkeeping_columns = {}" and "id_column t \<in> guarded t"
    and "id_column t \<notin> set (text_columns t)"
  using assms
  by (auto simp: id_types_def guarded_def columns_of_def user_columns_def track_columns_def
      playlist_columns_def validated_fields_def schema_required_def bookkeeping_columns_def
      id_column_def text_columns_def)

lemma agrees_id:
  assumes "agrees (guarded t) r r'" and "cls r = t" and "t \<in> id_types"
  shows "attr r' (id_column t) = attr r (id_column t)"
  using assms guarded_columns(4,5) [OF assms(3)] by (auto simp: agrees_def stored_plain)

lemma entity_ok_agrees: "entity_ok t k r \<Longrightarrow> agrees (guarded t) r r' \<Longrightarrow> entity_ok t k r'"
  using agrees_id [of t r r'] by (auto simp: entity_ok_def agrees_def)

lemma known_agrees: "known E t k r \<Longrightarrow> agrees (guarded t) r r' \<Longrightarrow> known E t k r'"
  unfolding known_def by (meson agrees_trans entity_ok_agrees)

lemma known_copy: "known E t k r \<Longrightarrow> t \<in> id_types \<Longrightarrow> copy_record e p r = Inr r' \<Longrightarrow> known E t k r'"
  using copy_record_agrees [of e p r r' "guarded t"] guarded_columns [of t] known_agrees known_cls
  by metis

lemma gives_last_new:
  assumes "t \<in> id_types"
  shows "gives (from_inv F B E) (last_new t k) (known E t k)"
proof -
  have "known E t k (last rs)"
    if I: "from_inv F B E s" and rs: "od_get (new_of s t) k = Some rs" "rs \<noteq> []" for s rs
  proof -
    from I have "rec_inv F B s" and "es_existing s = E" by (simp_all add: from_inv_def)
    moreover have "last rs \<in> set rs" using rs(2) by simp
    ultimately show ?thesis
      using rec_invD(4,5) [of F B s t k rs "last rs"] rs(1) assms
      by (auto simp: known_def may_add_def)
  qed
  then show ?thesis
    by (auto simp: gives_def last_new_def py_simps split: option.split)
qed

lemma gives_latest_record:
  assumes t: "t \<in> id_types"
  shows "gives (from_inv F B E) (latest_record t k) (known E t k)"
  unfolding latest_record_def
proof (rule gives_bnd [where Q = "\<lambda>x. \<forall>r. x = Some r \<longrightarrow> known E t k r"])
  show "gives (from_inv F B E) (gets (\<lambda>s. od_get (existing_of s t) k))
      (\<lambda>x. \<forall>r. x = Some r \<longrightarrow> known E t k r)"
    using t by (auto simp: gives_def gets_def existing_of_at known_def from_inv_def dest: rec_invD(3))
  fix x
  assume x: "\<forall>r. x = Some r \<longrightarrow> known E t k r"
  show "gives (from_inv F B E) (case x of None \<Rightarrow> raise KeyError
      | Some r \<Rightarrow> bnd (in_new t k) (\<lambda>b. if b then last_new t k else ret r)) (known E t k)"
  proof (cases x)
    case (Some r)
    have "gives (from_inv F B E) (bnd (in_new t k) (\<lambda>b. if b then last_new t k else ret r)) (known E t k)"
    proof (rule gives_bnd)
      show "gives (from_inv F B E) (in_new t k) (\<lambda>_. True)"
        by (rule keeps_gives) (rule from_in_new)
      fix b
      show "gives (from_inv F B E) (if b then last_new t k else ret r) (known E t k)"
        using x Some t by (simp add: gives_last_new gives_ret)
    qed
    then show ?thesis by (simp add: Some)
  qed (simp add: gives_raise)
qed

lemma leads_latest:
  assumes "t \<in> id_types" and "\<And>r. known E t k r \<Longrightarrow> leads (from_inv F B E) (f r) (rec_inv F B)"
  shows "leads (from_inv F B E) (bnd (latest_record t k) f) (rec_inv F B)"
  by (rule leads_bnd) (use assms gives_latest_record from_invD in blast)+

lemma leads_add_known:
  assumes "known E t k r" and "(t, k) \<in> F"
  shows "leads (from_inv F B E) (sq (append_new t k r) (set_existing t k r)) (rec_inv F B)"
  using assms by (intro leads_add) (auto simp: known_def)

lemma leads_add_fresh:
  assumes "entity_ok t k r" and "(t, k) \<in> F" and "existing_at E t k = None"
  shows "leads (from_inv F B E) (sq (append_new t k r) (set_existing t k r)) (rec_inv F B)"
  using assms by (intro leads_add) auto

lemmas leads_add_track =
  leads_add_known [of _ "''Track''" "KId n" for n, folded add_track_record_def]
lemmas leads_add_playlist =
  leads_add_known [of _ "''Playlist''" "KId n" for n, folded add_playlist_record_def]
lemmas leads_add_user =
  leads_add_known [of _ "''User''" "KId n" for n, folded add_user_record_def]
lemmas leads_new_track =
  leads_add_fresh [of "''Track''" "KId n" for n, folded add_track_record_def]
lemmas leads_new_playlist =
  leads_add_fresh [of "''Playlist''" "KId n" for n, folded add_playlist_record_def]
lemmas leads_new_user =
  leads_add_fresh [of "''User''" "KId n" for n, folded add_user_record_def]

lemma leads_append_known:
  assumes "known E t k r" and "(t, k) \<in> F"
  shows "leads (from_inv F B E) (append_new t k r) (rec_inv F B)"
  using assms by (intro leads_append) (auto simp: known_def may_add_def)

lemma leads_append_other:
  assumes "cls r = t" and "t \<notin> id_types"
  shows "leads (from_inv F B E) (append_new t k r) (rec_inv F B)"
  using assms by (intro leads_append) (auto simp: entity_ok_def)

lemma id_types [simp]: "''Track'' \<in> id_types" "''User'' \<in> id_types" "''Playlist'' \<in> id_types"
  by (simp_all add: id_types_def)

section \<open>Tracks\<close>

lemma protects_update_track_record:
  assumes "update_track_record e p r md s = Inr r'"
  shows "agrees (guarded ''Track'') r r'"
proof -
  have "protects (guarded ''Track'') (\<lambda>r. update_track_record e p r md s)"
    unfolding update_track_record_def populate_track_record_metadata_def set_json_field_def
    by (intro agrees_rules) (auto simp: guarded_def)
  with assms show ?thesis by (rule protectsD [rotated])
qed

lemma new_track_ok: "new_track e p = Inr r \<Longrightarrow> entity_ok ''Track'' (KId (p_entity_id p)) r"
  unfolding new_track_def entity_ok_def
  by (auto simp: make_inst_cls id_column_def validated_fields_def schema_required_def
      text_columns_def intro: make_inst_plain)

lemmas leads_track_tables =
  from_frame.keeps_track_tables [THEN leads_sq] from_frame.keeps_bus_dispatch [THEN leads_sq]

lemma leads_create_track:
  assumes F: "(''Track'', KId (p_entity_id p)) \<in> F" and "p_action p = ''Create''"
  shows "leads (from_inv F B E) (create_track e p) (rec_inv F B)"
  unfolding create_track_def create_track_body_def dispatch_challenge_track_upload_def
proof (intro leads_check leads_lift leads_track_tables leads_gets_lift leads_new_track F)
  fix s md r0 s' r
  assume "from_inv F B E s" and v: "validate_track_tx p s = Inr ()"
  then show "existing_at E ''Track'' (KId (p_entity_id p)) = None"
    using assms(2)
    by (auto simp: validate_track_tx_def bind_res_Inr od_has_def existing_of_at from_inv_def)
  assume "new_track e p = Inr r0" and "update_track_record e p r0 md s' = Inr r"
  then show "entity_ok ''Track'' (KId (p_entity_id p)) r"
    by (blast intro: entity_ok_agrees new_track_ok protects_update_track_record)
qed (simp_all add: from_invD)

lemma leads_update_track:
  assumes F: "(''Track'', KId (p_entity_id p)) \<in> F"
  shows "leads (from_inv F B E) (update_track e p) (rec_inv F B)"
  unfolding update_track_def update_track_body_def
proof (intro leads_check leads_lift leads_track_tables leads_latest leads_gets_lift
    leads_add_track F)
  fix md r0 r1 s r
  assume "known E ''Track'' (KId (p_entity_id p)) r0" and "copy_record e p r0 = Inr r1"
    and "update_track_record e p r1 md s = Inr r"
  then show "known E ''Track'' (KId (p_entity_id p)) r"
    by (blast intro: known_agrees known_copy protects_update_track_record id_types)
qed (simp_all add: from_invD)

lemma leads_delete_track:
  assumes F: "(''Track'', KId (p_entity_id p)) \<in> F"
  shows "leads (from_inv F B E) (delete_track e p) (rec_inv F B)"
  unfolding delete_track_def delete_track_body_def
proof (intro leads_check leads_lift leads_latest leads_add_track F)
  fix r0 r
  assume r0: "known E ''Track'' (KId (p_entity_id p)) r0"
    and "bind_res (copy_record e p r0) (set_attrs e [(''is_delete'', PBool True),
      (''stem_of'', PNull), (''remix_of'', PNull), (''premium_conditions'', PNull)]) = Inr r"
  then obtain r1 where r1: "copy_record e p r0 = Inr r1" and "set_attrs e [(''is_delete'', PBool True),
      (''stem_of'', PNull), (''remix_of'', PNull), (''premium_conditions'', PNull)] r1 = Inr r"
    unfolding bind_res_Inr by blast
  moreover have "protects (guarded ''Track'') (set_attrs e [(''is_delete'', PBool True),
      (''stem_of'', PNull), (''remix_of'', PNull), (''premium_conditions'', PNull)])"
    by (rule protects_set_attrs) (simp add: guarded_def)
  ultimately show "known E ''Track'' (KId (p_entity_id p)) r"
    using r0 by (blast intro: known_agrees known_copy id_types dest: protectsD)
qed (simp_all add: from_invD)

section \<open>Playlists\<close>

lemma process_playlist_data_event_agrees:
  assumes "process_playlist_data_event e p r md = Inr r'"
  shows "agrees (guarded ''Playlist'') r r'"
proof -
  have "protects (guarded ''Playlist'') (\<lambda>r. process_playlist_data_event e p r md)"
    unfolding process_playlist_data_event_def
    by (intro agrees_rules) (auto simp: guarded_def)
  with assms show ?thesis by (rule protectsD [rotated])
qed

lemma new_playlist_ok: "new_playlist e p md xs = Inr r \<Longrightarrow> entity_ok ''Playlist'' (KId (p_entity_id p)) r"
  unfolding new_playlist_def entity_ok_def bind_res_Inr
  by (auto simp: make_inst_cls id_column_def validated_fields_def
      text_columns_def intro: make_inst_plain)

lemmas leads_playlist_tables =
  from_frame.keeps_update_playlist_routes_table [THEN leads_sq]

lemma leads_create_playlist:
  assumes F: "(''Playlist'', KId (p_entity_id p)) \<in> F" and "p_action p = ''Create''"
  shows "leads (from_inv F B E) (create_playlist e p) (rec_inv F B)"
  unfolding create_playlist_def create_playlist_body_def dispatch_challenge_playlist_upload_def
proof (intro leads_check leads_lift leads_playlist_tables leads_then leads_new_playlist F
    keeps_run_when rec_frame.keeps_bus_dispatch)
  fix s md tracks entries r
  assume "from_inv F B E s" and v: "validate_playlist_tx p s = Inr ()"
  then show "existing_at E ''Playlist'' (KId (p_entity_id p)) = None"
    using assms(2)
    by (auto simp: validate_playlist_tx_def bind_res_Inr od_has_def existing_of_at from_inv_def)
  assume "new_playlist e p md entries = Inr r"
  then show "entity_ok ''Playlist'' (KId (p_entity_id p)) r" by (rule new_playlist_ok)
qed (simp_all add: from_invD)

lemma leads_update_playlist:
  assumes F: "(''Playlist'', KId (p_entity_id p)) \<in> F"
  shows "leads (from_inv F B E) (update_playlist e p) (rec_inv F B)"
  unfolding update_playlist_def update_playlist_body_def dispatch_challenge_playlist_upload_def
proof (intro leads_check leads_lift leads_latest leads_playlist_tables leads_then
    leads_add_playlist F keeps_bnd keeps_lift_res keeps_run_when rec_frame.keeps_bus_dispatch)
  fix md r0 r
  assume "known E ''Playlist'' (KId (p_entity_id p)) r0"
    and "bind_res (copy_record e p r0) (\<lambda>r. process_playlist_data_event e p r md) = Inr r"
  then show "known E ''Playlist'' (KId (p_entity_id p)) r"
    unfolding bind_res_Inr
    by (blast intro: known_agrees known_copy process_playlist_data_event_agrees id_types)
qed (simp_all add: from_invD)

lemma leads_delete_playlist:
  assumes F: "(''Playlist'', KId (p_entity_id p)) \<in> F"
  shows "leads (from_inv F B E) (delete_playlist e p) (rec_inv F B)"
  unfolding delete_playlist_def delete_playlist_body_def
proof (intro leads_check leads_lift leads_latest leads_append_known F)
  fix r0 r
  assume "known E ''Playlist'' (KId (p_entity_id p)) r0"
    and "bind_res (copy_record e p r0) (\<lambda>r. set_attr e r ''is_delete'' (PBool True)) = Inr r"
  moreover have "''is_delete'' \<notin> guarded ''Playlist''" by (simp add: guarded_def)
  ultimately show "known E ''Playlist'' (KId (p_entity_id p)) r"
    unfolding bind_res_Inr by (blast intro: known_agrees known_copy agrees_set_attr id_types)
qed (simp_all add: from_invD)

section \<open>Social records and notifications\<close>

lemma social_record_cls: "social_record e p t d = Inr r \<Longrightarrow>
    t \<in> {''Follow'', ''Save'', ''Repost'', ''Subscription''} \<Longrightarrow> cls r = t"
  by (auto simp: social_record_def dest: make_inst_cls)

lemma action_record_type:
  "action_to_record_type a = Some t \<Longrightarrow> t \<in> {''Follow'', ''Save'', ''Repost'', ''Subscription''}"
  by (auto simp: action_to_record_type_def split: if_splits)

lemma leads_social_body: "leads (from_inv F B E) (social_body e d p) (rec_inv F B)"
proof (cases "action_to_record_type (p_action p)")
  case None
  then show ?thesis by (simp add: social_body_def leads_keeps keeps_ret from_invD)
next
  case (Some t)
  have "leads (from_inv F B E) (append_new t k r) (rec_inv F B)"
    if "social_record e p t d = Inr r" for k r
    using action_record_type [OF Some] social_record_cls [OF that]
    by (intro leads_append_other) (auto simp: id_types_def)
  then show ?thesis
    unfolding social_body_def add_social_feature_record_def
    by (auto simp: Some intro!: leads_lift leads_then rec_frame.keeps_dispatch_social_event from_invD)
qed

lemma leads_social:
  "leads (from_inv F B E) (create_social_record e p) (rec_inv F B)"
  "leads (from_inv F B E) (delete_social_record e p) (rec_inv F B)"
  unfolding create_social_record_def delete_social_record_def
  by (intro leads_check leads_run_when leads_social_body; simp add: from_invD)+

lemma leads_add_seen:
  assumes "cls r = ''PlaylistSeen''"
  shows "leads (from_inv F B E) (add_playlist_seen_record k r) (rec_inv F B)"
  unfolding add_playlist_seen_record_def
proof (rule leads_then)
  show "leads (from_inv F B E) (append_new ''PlaylistSeen'' k r) (rec_inv F B)"
    by (rule leads_append_other) (use assms in \<open>simp_all add: id_types_def\<close>)
  show "keeps (rec_inv F B) (set_existing ''PlaylistSeen'' k r)"
    unfolding set_existing_def
    by (intro keeps_modify rec_inv_set_existing) (simp_all add: assms entity_ok_def id_types_def)
qed

lemma leads_add_once:
  assumes "cls r = t" and "t \<notin> id_types"
  shows "leads (from_inv F B E) (bnd (in_new t k) (\<lambda>b. if \<not> b then append_new t k r else ret ()))
    (rec_inv F B)"
proof (rule leads_bnd_keeps)
  show "keeps (from_inv F B E) (in_new t k)" by (rule from_in_new)
  show "leads (from_inv F B E) (if \<not> b then append_new t k r else ret ()) (rec_inv F B)" for b
    using assms by (simp add: leads_append_other leads_keeps keeps_ret from_invD)
qed (rule from_invD)

lemma leads_notification:
  "leads (from_inv F B E) (view_notification e p) (rec_inv F B)"
  "leads (from_inv F B E) (create_notification e p) (rec_inv F B)"
  "leads (from_inv F B E) (view_playlist e p) (rec_inv F B)"
proof -
  show "leads (from_inv F B E) (view_notification e p) (rec_inv F B)"
    unfolding view_notification_def add_notification_seen_record_def
    by (intro leads_check leads_lift leads_add_once)
      (auto dest: make_inst_cls simp: id_types_def from_invD)
  show "leads (from_inv F B E) (create_notification e p) (rec_inv F B)"
    unfolding create_notification_def add_notification_record_def
    by (intro leads_check leads_lift leads_bnd_keeps [OF keeps_gets] leads_add_once)
      (auto dest: make_inst_cls simp: id_types_def from_invD)
  show "leads (from_inv F B E) (view_playlist e p) (rec_inv F B)"
    unfolding view_playlist_def view_playlist_body_def
    by (intro leads_check leads_lift leads_add_seen) (auto dest: make_inst_cls simp: from_invD)
qed

section \<open>Users\<close>

lemma set_if_truthy_protects [agrees_rules]: "fst fk \<notin> G \<Longrightarrow> protects G (set_if_truthy e md fk)"
  by (cases fk) (auto simp: protects_def set_if_truthy_def bind_res_Inr
      split: option.splits if_splits intro: agrees_set_attr)

lemma set_if_present_protects [agrees_rules]: "f \<notin> G \<Longrightarrow> protects G (set_if_present e md f)"
  by (auto simp: protects_def set_if_present_def split: option.splits intro: agrees_set_attr)

lemma move_image_protects [agrees_rules]:
  "fst fg \<notin> G \<Longrightarrow> snd fg \<notin> G \<Longrightarrow> protects G (move_image e fg)"
  by (cases fg) (auto simp: protects_def move_image_def bind_res_Inr
      split: if_splits dest!: agrees_set_attr [rotated] intro: agrees_trans)

lemma user_profile_fields_protects:
  "protects (guarded ''User'') (user_profile_fields e md)"
  unfolding user_profile_fields_def
  by (intro agrees_rules) (auto simp: guarded_def)

lemma update_legacy_user_images_protects:
  "protects (guarded ''User'') (update_legacy_user_images e)"
  unfolding update_legacy_user_images_def
  by (intro agrees_rules) (auto simp: guarded_def)

lemma validate_user_metadata_agrees:
  assumes "validate_user_metadata e r md s = Inr r'"
  shows "agrees (guarded ''User'') r r'"
proof -
  have p: "protects (guarded ''User'') (set_attrs e [(''handle'', v), (''handle_lc'', w)])" for v w
    by (rule protects_set_attrs) (simp add: guarded_def)
  show ?thesis
    using assms unfolding validate_user_metadata_def
    by (auto simp: bind_res_Inr split: if_splits option.splits dest: protectsD [OF p] simp del: set_attrs_Cons)
qed

lemma gives_update_user_metadata:
  "gives (from_inv F B E) (update_user_metadata e r md) (agrees (guarded ''User'') r)"
proof -
  have lib: "agrees (guarded ''User'') r1 r2" if "bind_res (set_if_truthy e md (''playlist_library'',
      ''playlist_library'') r1) (set_if_present e md ''is_deactivated'') = Inr r2" for r1 r2
  proof -
    have "protects (guarded ''User'') (\<lambda>r. bind_res (set_if_truthy e md (''playlist_library'',
      ''playlist_library'') r) (set_if_present e md ''is_deactivated''))"
      by (intro agrees_rules) (auto simp: guarded_def)
    then show ?thesis using that by (rule protectsD)
  qed
  show ?thesis
    unfolding update_user_metadata_def
  proof (rule gives_bnd [OF gives_lift_res])
    fix r1
    assume "user_profile_fields e md r = Inr r1"
    then show "agrees (guarded ''User'') r r1" by (rule protectsD [OF user_profile_fields_protects])
  next
    fix r1
    assume r1: "agrees (guarded ''User'') r r1"
    show "gives (from_inv F B E)
      (sq (case od_get md ''associated_wallets'' of None \<Rightarrow> ret ()
           | Some v \<Rightarrow> update_user_associated_wallets e r1 v ''eth'')
        (sq (case od_get md ''associated_sol_wallets'' of None \<Rightarrow> ret ()
             | Some v \<Rightarrow> update_user_associated_wallets e r1 v ''sol'')
          (bnd (lift_res (bind_res (set_if_truthy e md (''playlist_library'', ''playlist_library'') r1)
                  (set_if_present e md ''is_deactivated'')))
            (\<lambda>r. sq (case od_get md ''events'' of None \<Rightarrow> ret ()
                  | Some v \<Rightarrow> bnd (lift_res (truthy v)) (\<lambda>t. run_when t (update_user_events r v)))
              (ret r))))) (agrees (guarded ''User'') r)"
      by (intro gives_sq [OF keeps_gives] gives_bnd [OF gives_lift_res] gives_ret)
        (auto split: option.split
          intro!: keeps_rules from_frame.keeps_update_user_associated_wallets
            from_frame.keeps_update_user_events
          dest: lib intro: agrees_trans [OF r1])
  qed
qed

lemma leads_create_user:
  assumes F: "(''User'', KId (p_user_id p)) \<in> F" and "p_action p = ''Create''"
  shows "leads (from_inv F B E) (create_user e p) (rec_inv F B)"
  unfolding create_user_def get_endpoint_string_from_sp_ids_def
proof (intro leads_check leads_lift leads_sq_lift leads_new_user F
    leads_bnd_keeps [OF keeps_bnd] from_frame.keeps_endpoints)
  fix s r0 ns r1 ep r
  assume "from_inv F B E s" and v: "validate_user_tx e p s = Inr ()"
  then show "existing_at E ''User'' (KId (p_user_id p)) = None"
    using assms(2)
    by (auto simp: validate_user_tx_def bind_res_Inr user_exists_def od_has_def existing_of_at
        from_inv_def)
  assume r0: "make_inst e ''User''
       [(''user_id'', PInt (p_user_id p)), (''wallet'', PStr (str_lower (p_signer p))),
        (''txhash'', PStr (p_txhash p)), (''blockhash'', PStr (p_blockhash p)),
        (''blocknumber'', PInt (p_block_number p)), (''created_at'', block_datetime p),
        (''updated_at'', block_datetime p), (''is_current'', PBool False)] = Inr r0"
    and r1: "set_attrs e [(''primary_id'', PInt (hd ns)), (''secondary_ids'', int_list (tl ns))] r0 = Inr r1"
    and r: "set_attr e r1 ''creator_node_endpoint'' (PStr ep) = Inr r"
  have "attr r0 ''user_id'' = PInt (p_user_id p)"
    by (rule make_inst_plain [OF r0])
      (simp_all add: validated_fields_def schema_required_def text_columns_def)
  moreover have "cls r0 = ''User''" using r0 by (rule make_inst_cls)
  ultimately have "attr r ''user_id'' = PInt (p_user_id p)" and "cls r = ''User''"
    using set_attrs_other [OF r1] set_attr_other [OF r] set_attrs_cls [OF r1] set_attr_cls [OF r]
    by simp_all
  then show "entity_ok ''User'' (KId (p_user_id p)) r" by (simp add: entity_ok_def id_column_def)
qed (auto simp: from_invD intro: keeps_ret from_frame.keeps_endpoints)

lemma leads_update_user:
  assumes F: "(''User'', KId (p_entity_id p)) \<in> F"
  shows "leads (from_inv F B E) (update_user e p) (rec_inv F B)"
  unfolding update_user_def update_user_body_def
proof (intro leads_check leads_lift leads_latest leads_gets_lift leads_sq_lift
    leads_bnd [OF gives_update_user_metadata] leads_then leads_add_user F
    rec_frame.keeps_bus_dispatch)
  fix md r0 r1 s r2 r3 r
  assume "known E ''User'' (KId (p_entity_id p)) r0" and "copy_record e p r0 = Inr r1"
    and "validate_user_metadata e r1 md s = Inr r2" and "agrees (guarded ''User'') r2 r3"
  then have r3: "known E ''User'' (KId (p_entity_id p)) r3"
    by (blast intro: known_agrees known_copy validate_user_metadata_agrees id_types)
  assume "bind_res (set_attr e r3 ''metadata_multihash'' (PStr (p_metadata_cid p)))
            (update_legacy_user_images e) = Inr r"
  moreover have "''metadata_multihash'' \<notin> guarded ''User''" by (simp add: guarded_def)
  ultimately show "known E ''User'' (KId (p_entity_id p)) r"
    using r3 unfolding bind_res_Inr
    by (blast intro: known_agrees agrees_set_attr protectsD [OF update_legacy_user_images_protects])
qed (simp_all add: from_invD)

lemma leads_verify_user:
  assumes F: "(''User'', KId (p_user_id p)) \<in> F"
  shows "leads (from_inv F B E) (verify_user e p) (rec_inv F B)"
  unfolding verify_user_def
proof (intro leads_check leads_lift leads_gets_lift leads_sq_lift leads_then leads_add_user F
    rec_frame.keeps_bus_dispatch)
  fix s r0 r1 r
  assume "from_inv F B E s" and "(case od_get (existing_of s ''User'') (KId (p_user_id p)) of
            None \<Rightarrow> Inl KeyError | Some u \<Rightarrow> Inr u) = Inr r0"
  then have "known E ''User'' (KId (p_user_id p)) r0"
    using rec_invD(3) [of F B s "''User''"]
    by (auto simp: known_def existing_of_at from_inv_def split: option.splits)
  moreover assume "copy_record e p r0 = Inr r1" and "set_attr e r1 ''is_verified'' (PBool True) = Inr r"
  moreover have "''is_verified'' \<notin> guarded ''User''" by (simp add: guarded_def)
  ultimately show "known E ''User'' (KId (p_user_id p)) r"
    by (blast intro: known_agrees known_copy agrees_set_attr id_types)
qed (simp_all add: from_invD)

lemma leads_update_user_replica_set:
  assumes F: "(''User'', KId (p_user_id p)) \<in> F"
  shows "leads (from_inv F B E) (update_user_replica_set e p) (rec_inv F B)"
  unfolding update_user_replica_set_def get_endpoint_string_from_sp_ids_def
proof (intro leads_sq [OF from_frame.keeps_is_valid_user_replica_set_tx] leads_latest leads_lift)
  fix r0 r1 and ids :: "int list \<times> int list"
  assume r0: "known E ''User'' (KId (p_user_id p)) r0" and r1: "copy_record e p r0 = Inr r1"
  obtain cur upd where ids: "ids = (cur, upd)" by force
  have "leads (from_inv F B E)
     (bnd (lift_res (set_attrs e [(''primary_id'', PInt (hd upd)), (''secondary_ids'', int_list (tl upd)),
        (''replica_set_update_signer'', PStr (p_signer p))] r1)) (\<lambda>r.
      bnd (bnd (get_endpoint_from_id e (hd upd)) (\<lambda>ep. append_endpoints e ep (tl upd))) (\<lambda>ep.
      bnd (lift_res (set_attr e r ''creator_node_endpoint'' (PStr ep))) (add_user_record (p_user_id p)))))
     (rec_inv F B)"
  proof (intro leads_lift leads_add_user F leads_bnd_keeps [OF keeps_bnd] from_frame.keeps_endpoints)
    fix r2 ep r
    have "protects (guarded ''User'') (set_attrs e [(''primary_id'', PInt (hd upd)),
        (''secondary_ids'', int_list (tl upd)), (''replica_set_update_signer'', PStr (p_signer p))])"
      by (rule protects_set_attrs) (simp add: guarded_def)
    moreover assume "set_attrs e [(''primary_id'', PInt (hd upd)), (''secondary_ids'', int_list (tl upd)),
        (''replica_set_update_signer'', PStr (p_signer p))] r1 = Inr r2"
      and "set_attr e r2 ''creator_node_endpoint'' (PStr ep) = Inr r"
    moreover have "''creator_node_endpoint'' \<notin> guarded ''User''" by (simp add: guarded_def)
    ultimately show "known E ''User'' (KId (p_user_id p)) r"
      using known_copy [OF r0 _ r1] by (blast intro: known_agrees agrees_set_attr id_types dest: protectsD)
  qed (simp_all add: from_invD)
  then show "leads (from_inv F B E) (case ids of (current, updated) \<Rightarrow>
     bnd (lift_res (set_attrs e [(''primary_id'', PInt (hd updated)), (''secondary_ids'', int_list (tl updated)),
        (''replica_set_update_signer'', PStr (p_signer p))] r1)) (\<lambda>r.
      bnd (bnd (get_endpoint_from_id e (hd updated)) (\<lambda>ep. append_endpoints e ep (tl updated))) (\<lambda>ep.
      bnd (lift_res (set_attr e r ''creator_node_endpoint'' (PStr ep))) (add_user_record (p_user_id p)))))
     (rec_inv F B)"
    by (simp add: ids)
qed (simp_all add: from_invD)

section \<open>A block\<close>

definition fetched :: "(string \<times> rkey) set \<Rightarrow> em_params \<Rightarrow> bool" where
  "fetched F p \<longleftrightarrow> (''User'', KId (p_user_id p)) \<in> F \<and>
     (p_entity_type p \<in> id_types \<longrightarrow> (p_entity_type p, KId (p_entity_id p)) \<in> F)"

lemma leads_handle_event:
  assumes "fetched F p"
  shows "leads (from_inv F B E) (handle_event e p) (rec_inv F B)"
proof -
  have user: "(''User'', KId (p_user_id p)) \<in> F"
    and entity: "\<And>t. p_entity_type p = t \<Longrightarrow> t \<in> id_types \<Longrightarrow> (t, KId (p_entity_id p)) \<in> F"
    using assms by (auto simp: fetched_def)
  have "leads (from_inv F B E) (ret ()) (rec_inv F B)"
    by (simp add: leads_keeps keeps_ret from_invD)
  then show ?thesis
    unfolding handle_event_def Let_def
    by (intro leads_if leads_create_track leads_update_track leads_delete_track
        leads_create_playlist leads_update_playlist leads_delete_playlist leads_social
        leads_notification leads_create_user leads_update_user leads_verify_user
        leads_update_user_replica_set user entity) simp_all
qed

lemma keeps_process_txs_rec:
  assumes "\<And>tx ev. tx \<in> set txs \<Longrightarrow> ev \<in> set (tx_events tx) \<Longrightarrow>
    fetched F (event_params b (tx_hash tx) ev)"
  shows "keeps (rec_inv F B) (process_txs e b txs)"
  unfolding process_txs_def process_event_def
  using assms by (intro keeps_for_each keeps_swallow keeps_from leads_handle_event)

end
