(* ===== verification/EM_Block.thy ===== *)
theory EM_Block
  imports EM_Records
begin

text \<open>
  One block as a whole: from tables with at most one current row per entity, fetching the
  originals, running the handlers, compiling the records and invalidating the rows they
  replace leads to tables with at most one current row per entity.
\<close>

section \<open>Well-formed tables\<close>

definition current_with :: "string \<Rightarrow> int \<Rightarrow> inst \<Rightarrow> bool" where
  "current_with t n r \<longleftrightarrow> is_current_row r \<and> attr r (id_column t) = PInt n"

definition rows_ok :: "string \<Rightarrow> inst list \<Rightarrow> bool" where
  "rows_ok t rows \<longleftrightarrow> (\<forall>r \<in> set rows. cls r = t) \<and>
     (t \<in> id_types \<longrightarrow> (\<forall>r \<in> set rows. \<exists>n. attr r (id_column t) = PInt n) \<and>
       (\<forall>n. length (filter (current_with t n) rows) \<le> 1))"

definition db_ok :: "(string \<Rightarrow> inst list) \<Rightarrow> bool" where
  "db_ok db \<longleftrightarrow> (\<forall>t. rows_ok t (db t))"

lemma length_le_1_same: "length xs \<le> 1 \<Longrightarrow> x \<in> set xs \<Longrightarrow> y \<in> set xs \<Longrightarrow> x = y"
  by (cases xs) auto

section \<open>The originals\<close>

lemma fetch_existing_at:
  assumes "t \<in> id_types"
  shows "existing_at (fetch_existing_entities db ks) t k = od_get (fetch_by_id db ks t) k"
proof -
  have "fetch_by_id db ks t = []" if "keys_of ks t = []"
    by (simp add: fetch_by_id_def that od_build_def)
  then show ?thesis
    using assms unfolding existing_at_def od_default_def fetch_existing_entities_def od_get_filter
    by (auto simp: id_types_def)
qed

lemma fetch_by_id_Some:
  assumes "od_get (fetch_by_id db ks t) k = Some r"
  shows "r \<in> set (db t) \<and> is_current_row r \<and> k = KId (int_attr r (id_column t)) \<and> k \<in> set (keys_of ks t)"
  using od_get_build_SomeD [OF assms [unfolded fetch_by_id_def]] by auto

lemma fetch_entity_ok:
  assumes "db_ok db" and "t \<in> id_types"
    and "existing_at (fetch_existing_entities db ks) t k = Some r"
  shows "entity_ok t k r"
proof -
  have "od_get (fetch_by_id db ks t) k = Some r" using assms by (simp add: fetch_existing_at)
  then have "r \<in> set (db t)" and "k = KId (int_attr r (id_column t))"
    using fetch_by_id_Some [of db ks t k r] by simp_all
  moreover obtain n where "attr r (id_column t) = PInt n" and "cls r = t"
    using assms(1,2) calculation(1) unfolding db_ok_def rows_ok_def by blast
  ultimately show ?thesis by (auto simp: entity_ok_def int_attr_def as_int_def)
qed

lemma fetch_finds:
  assumes db: "db_ok db" and t: "t \<in> id_types" and r: "r \<in> set (db t)" "current_with t n r"
    and k: "KId n \<in> set (keys_of ks t)"
  shows "existing_at (fetch_existing_entities db ks) t (KId n) = Some r"
proof -
  have id: "attr r (id_column t) = PInt n" and cur: "is_current_row r"
    using r(2) by (simp_all add: current_with_def)
  have "od_get (fetch_by_id db ks t) (KId n) \<noteq> None"
    unfolding fetch_by_id_def od_get_build_None using r(1) id cur k
    by (auto simp: int_attr_def as_int_def is_int_def intro!: bexI [of _ r])
  then obtain r' where r': "od_get (fetch_by_id db ks t) (KId n) = Some r'" by blast
  have "r' \<in> set (db t)" "is_current_row r'" "int_attr r' (id_column t) = n"
    using fetch_by_id_Some [OF r'] by auto
  moreover have "\<exists>m. attr r' (id_column t) = PInt m"
    using db t calculation(1) by (auto simp: db_ok_def rows_ok_def)
  ultimately have "r' \<in> set (filter (current_with t n) (db t))"
    by (auto simp: current_with_def int_attr_def as_int_def)
  moreover have "length (filter (current_with t n) (db t)) \<le> 1"
    using db t by (auto simp: db_ok_def rows_ok_def)
  ultimately have "r' = r" using r by (intro length_le_1_same [of "filter (current_with t n) (db t)"]) auto
  with r' t show ?thesis by (simp add: fetch_existing_at)
qed

lemma rec_inv_start:
  assumes "db_ok db"
  shows "rec_inv F (fetch_existing_entities db ks) (start_block (fetch_existing_entities db ks) s)"
  using fetch_entity_ok [OF assms]
  by (auto simp: rec_inv_def start_block_def new_of_def od_default_def od_keys_def)

section \<open>Which keys are fetched\<close>

lemma collect_events_keys:
  "fold_res (collect_event b) evs ks0 = Inr ks \<Longrightarrow>
   set ks0 \<subseteq> set ks \<and> (\<forall>ev \<in> set evs. set (event_keys ev) \<subseteq> set ks)"
proof (induction evs arbitrary: ks0)
  case (Cons ev evs)
  then obtain ks1 where ks1: "collect_event b ev ks0 = Inr ks1"
      "fold_res (collect_event b) evs ks1 = Inr ks"
    by (auto split: sum.splits)
  then have "set ks0 \<subseteq> set ks1" and "set (event_keys ev) \<subseteq> set ks1"
    by (auto simp: collect_event_def bind_res_Inr)
  with Cons.IH [OF ks1(2)] show ?case by auto
qed simp

lemma collect_fetched:
  assumes "collect_entities_to_fetch b txs = Inr ks" and "tx \<in> set txs" and "ev \<in> set (tx_events tx)"
  shows "fetched (set ks) (event_params b (tx_hash tx) ev)"
proof -
  have "set (event_keys ev) \<subseteq> set ks"
    using collect_events_keys [OF assms(1) [unfolded collect_entities_to_fetch_def]] assms(2,3) by auto
  moreover have "id_types = set entity_types_to_fetch"
    by (auto simp: id_types_def entity_types_to_fetch_def)
  ultimately show ?thesis
    by (auto simp: fetched_def event_params_def event_keys_def split: if_splits)
qed

section \<open>Compiled records\<close>

lemma retire_record_attrs:
  "cls (retire_record b r) = cls r"
  "f \<noteq> ''is_current'' \<Longrightarrow> f \<noteq> ''updated_at'' \<Longrightarrow> attr (retire_record b r) f = attr r f"
  by (simp_all add: retire_record_def Let_def)

lemma retire_record_not_current:
  "has_column r ''is_current'' \<Longrightarrow> \<not> is_current_row (retire_record b r)"
  by (simp add: retire_record_def Let_def is_current_row_def)

lemma make_current_attrs:
  "cls (make_current r) = cls r"
  "f \<noteq> ''is_current'' \<Longrightarrow> attr (make_current r) f = attr r f"
  by (simp_all add: make_current_def)

lemma compile_records_mem:
  assumes "r \<in> set (compile_records b rs)"
  shows "\<exists>r0 \<in> set rs. r = retire_record b r0 \<or> r = make_current (retire_record b r0)"
  using assms by (auto simp: compile_records_def split: if_splits dest: in_set_butlastD)

lemma id_columns_apart: "id_column t \<noteq> ''is_current''" "''is_current'' \<noteq> id_column t"
  "id_column t \<noteq> ''updated_at''"
  by (simp_all add: id_column_def)

lemma compile_records_ok:
  assumes "r \<in> set (compile_records b rs)" and "\<forall>r \<in> set rs. entity_ok t k r"
  shows "entity_ok t k r"
  using compile_records_mem [OF assms(1)] assms(2)
  by (auto simp: entity_ok_def retire_record_attrs make_current_attrs id_columns_apart)

lemma has_current_column: "t \<in> id_types \<Longrightarrow> cls r = t \<Longrightarrow> has_column r ''is_current''"
  by (auto simp: has_column_def columns_of_def id_types_def user_columns_def track_columns_def
      playlist_columns_def)

text \<open>Only the last record of an entity is current.\<close>

lemma compile_records_one_current:
  assumes t: "t \<in> id_types" and ok: "\<forall>r \<in> set rs. cls r = t"
  shows "length (filter (current_with t n) (compile_records b rs)) \<le> 1"
proof (cases "rs = []")
  case False
  have "filter (current_with t n) (map (retire_record b) (butlast rs)) = []"
    using ok has_current_column [OF t]
    by (auto simp: filter_empty_conv current_with_def retire_record_not_current
        dest!: in_set_butlastD)
  with False show ?thesis by (simp add: compile_records_def)
qed (simp add: compile_records_def)

lemma new_records_entry:
  assumes I: "rec_inv F B s" and "(t, d) \<in> set (es_new s)" and "(k, rs) \<in> set d"
  shows "od_get (new_of s t) k = Some rs"
proof -
  have "new_of s t = d"
    using assms(2) rec_invD(1) [OF I] in_set_od_get
    by (metis new_of_def od_default_def option.simps(5))
  then show ?thesis using assms(3) rec_invD(2) [OF I, of t] in_set_od_get by metis
qed

lemma saved_record:
  assumes I: "rec_inv F B s" and "r \<in> set (records_to_save b (es_new s))"
  shows "\<exists>t k rs. od_get (new_of s t) k = Some rs \<and> r \<in> set (compile_records b rs) \<and> entity_ok t k r"
proof -
  obtain t d k rs where *: "(t, d) \<in> set (es_new s)" "(k, rs) \<in> set d" "r \<in> set (compile_records b rs)"
    using assms(2) by (auto simp: records_to_save_def)
  then have rs: "od_get (new_of s t) k = Some rs" using new_records_entry [OF I] by blast
  then have "\<forall>r \<in> set rs. entity_ok t k r" using rec_invD(4) [OF I] by blast
  with * rs show ?thesis using compile_records_ok by blast
qed

lemma entity_ok_current: "entity_ok t k r \<Longrightarrow> current_with t n r \<Longrightarrow> t \<in> id_types \<Longrightarrow> k = KId n"
  by (auto simp: entity_ok_def current_with_def)

lemma records_to_save_current:
  assumes I: "rec_inv F B s" and t: "t \<in> id_types"
  shows "filter (\<lambda>r. cls r = t \<and> current_with t n r) (records_to_save b (es_new s)) =
    (case od_get (new_of s t) (KId n) of None \<Rightarrow> []
     | Some rs \<Rightarrow> filter (current_with t n) (compile_records b rs))"
    (is "filter ?P _ = _")
proof -
  have in_new: "od_get (es_new s) t' = Some d \<Longrightarrow> new_of s t' = d" for t' d
    by (simp add: new_of_def od_default_def)
  have ok: "entity_ok t' k r"
    if "(t', d) \<in> set (es_new s)" "(k, rs) \<in> set d" "r \<in> set (compile_records b rs)" for t' d k rs r
  proof -
    have "od_get (new_of s t') k = Some rs" using new_records_entry [OF I that(1,2)] .
    then have "\<forall>r \<in> set rs. entity_ok t' k r" using rec_invD(4) [OF I] by blast
    with that(3) show ?thesis by (rule compile_records_ok)
  qed
  let ?f = "\<lambda>t d. concat (map (\<lambda>(k, rs). compile_records b rs) d)"
  have "filter ?P (?f t' d) = []" if td: "(t', d) \<in> set (es_new s)" and ne: "t' \<noteq> t" for t' d
    using ok [OF td] ne by (auto simp: filter_empty_conv entity_ok_def)
  then have outer: "filter ?P (records_to_save b (es_new s)) =
      (case od_get (es_new s) t of None \<Rightarrow> [] | Some d \<Rightarrow> filter ?P (?f t d))"
    unfolding records_to_save_def by (intro filter_concat_key rec_invD(1) [OF I]) auto
  show ?thesis
  proof (cases "od_get (es_new s) t")
    case None
    then show ?thesis using outer by (simp add: new_of_def od_default_def)
  next
    case (Some d)
    have td: "(t, d) \<in> set (es_new s)" using Some by (rule od_get_in_set)
    have d: "new_of s t = d" using Some by (rule in_new)
    have "filter ?P (compile_records b rs) = []" if "(k, rs) \<in> set d" "k \<noteq> KId n" for k rs
      using ok [OF td that(1)] that(2) t
      by (auto simp: filter_empty_conv dest: entity_ok_current)
    then have "filter ?P (?f t d) =
        (case od_get d (KId n) of None \<Rightarrow> [] | Some rs \<Rightarrow> filter ?P (compile_records b rs))"
      using rec_invD(2) [OF I, of t] d by (intro filter_concat_key) auto
    moreover have "filter ?P (compile_records b rs) = filter (current_with t n) (compile_records b rs)"
      if "od_get d (KId n) = Some rs" for rs
      using ok [OF td od_get_in_set [OF that]]
      by (intro filter_cong) (auto simp: entity_ok_def)
    ultimately show ?thesis using outer Some d by (auto split: option.split)
  qed
qed

section \<open>Invalidated rows\<close>

lemma replaced_originals_mem:
  assumes "es_new s = nr" and "od_get (new_of s t) k = Some rs" and "rs \<noteq> []"
    and "existing_at B t k = Some r"
  shows "r \<in> set (replaced_originals nr B t)"
proof -
  have "(k, rs) \<in> set (od_default nr t [])"
    using od_get_in_set [OF assms(2)] assms(1) by (simp add: new_of_def)
  moreover have "r \<in> set (if rs = [] then [] else
        (case od_get (od_default B t []) k of None \<Rightarrow> [] | Some r \<Rightarrow> [r]))"
    using assms(3,4) by (simp add: existing_at_def)
  ultimately show ?thesis unfolding replaced_originals_def set_concat set_map by blast
qed

lemma invalidate_length_le:
  "length (filter (current_with t n) (invalidate_rows nr B t rows)) \<le> length (filter (current_with t n) rows)"
proof -
  have "\<not> current_with t n (put_attr r ''is_current'' (PBool False))" for r
    by (simp add: current_with_def is_current_row_def)
  then show ?thesis
    unfolding invalidate_rows_def by (induction rows) (auto simp: le_Suc_eq)
qed

lemma invalidate_none:
  assumes "\<And>r. r \<in> set rows \<Longrightarrow> current_with t n r \<Longrightarrow> r \<in> set (replaced_originals nr B t)"
    and "t \<in> id_types" and "\<forall>r \<in> set rows. cls r = t"
  shows "filter (current_with t n) (invalidate_rows nr B t rows) = []"
proof -
  have hit: "list_ex (\<lambda>o'. has_column o' ''is_current'' \<and> same_row t o' r) (replaced_originals nr B t)"
    if "r \<in> set rows" "current_with t n r" for r
    using assms(1) [OF that] assms(3) that(1) has_current_column [OF assms(2)]
    by (auto simp: list_ex_iff same_row_def list_all_iff)
  have "\<not> current_with t n (put_attr r ''is_current'' (PBool False))" for r
    by (simp add: current_with_def is_current_row_def)
  with hit show ?thesis
    by (auto simp: invalidate_rows_def filter_empty_conv)
qed

text \<open>The rows of the database stay as they are, but for \<open>is_current\<close>.\<close>

definition same_or_retired :: "inst \<Rightarrow> inst \<Rightarrow> bool" where
  "same_or_retired r r' \<longleftrightarrow> r' = r \<or> r' = put_attr r ''is_current'' (PBool False)"

lemma invalidate_rows_history: "list_all2 same_or_retired rows (invalidate_rows nr B t rows)"
  by (auto simp: invalidate_rows_def list_all2_conv_all_nth same_or_retired_def)

section \<open>The block\<close>

text \<open>What holds when the handlers have run.\<close>

definition block_ready :: "fetch_set \<Rightarrow> (string \<Rightarrow> inst list) \<Rightarrow> em_state \<Rightarrow> bool" where
  "block_ready ks db s \<longleftrightarrow> es_db s = db \<and> rec_inv (set ks) (fetch_existing_entities db ks) s"

lemma process_txs_ready:
  assumes "db_ok (es_db s)" and "collect_entities_to_fetch b txs = Inr ks"
  shows "block_ready ks (es_db s)
    (snd (process_txs e b txs (start_block (fetch_existing_entities (es_db s) ks) s)))"
proof -
  let ?s0 = "start_block (fetch_existing_entities (es_db s) ks) s"
  have "rec_inv (set ks) (fetch_existing_entities (es_db s) ks) (snd (process_txs e b txs ?s0))"
    using keeps_process_txs_rec [OF collect_fetched [OF assms(2)]] rec_inv_start [OF assms(1)]
    by (rule keepsD)
  moreover have "es_db (snd (process_txs e b txs ?s0)) = es_db s"
    by (rule keepsD [OF db_frame.keeps_process_txs]) (simp add: start_block_def)
  ultimately show ?thesis by (simp add: block_ready_def)
qed

lemma process_txs_returns: "\<exists>t. process_txs e b txs s = (Inr (), t)"
proof -
  have each: "\<exists>t. for_each xs f s = (Inr (), t)" if "\<And>x s. \<exists>t. f x s = (Inr (), t)"
    for xs :: "'a list" and f and s :: em_state
  proof (induction xs arbitrary: s)
    case (Cons x xs)
    from that [of x s] obtain u where "f x s = (Inr (), u)" by blast
    then show ?case using Cons.IH [of u] by (simp add: py_simps)
  qed (simp add: py_simps)
  show ?thesis
    unfolding process_txs_def process_event_def
    by (intro each) (simp add: swallow_def)
qed

text \<open>A block either raises before it did anything, or saves what its handlers collected.\<close>

lemma entity_manager_update_cases:
  assumes "txs \<noteq> []"
  shows "(\<exists>x. collect_entities_to_fetch b txs = Inl x \<and> entity_manager_update e b txs s = (Inl x, s)) \<or>
    (\<exists>ks s1. collect_entities_to_fetch b txs = Inr ks \<and>
       s1 = snd (process_txs e b txs (start_block (fetch_existing_entities (es_db s) ks) s)) \<and>
       entity_manager_update e b txs s = (Inr (length (records_to_save b (es_new s1))),
         save_block b (fetch_existing_entities (es_db s) ks) s1))"
proof (cases "collect_entities_to_fetch b txs")
  case (Inl x)
  then show ?thesis using assms by (simp add: entity_manager_update_def py_simps)
next
  case (Inr ks)
  obtain s1 where "process_txs e b txs (start_block (fetch_existing_entities (es_db s) ks) s) = (Inr (), s1)"
    using process_txs_returns by blast
  with Inr show ?thesis using assms by (simp add: entity_manager_update_def py_simps)
qed

lemma save_block_rows_ok:
  assumes db: "db_ok db" and ready: "block_ready ks db s"
  shows "db_ok (es_db (save_block b (fetch_existing_entities db ks) s))"
  unfolding db_ok_def
proof
  fix t
  let ?B = "fetch_existing_entities db ks"
  let ?old = "invalidate_rows (es_new s) ?B t (db t)"
  let ?new = "filter (\<lambda>r. cls r = t) (records_to_save b (es_new s))"
  have I: "rec_inv (set ks) ?B s" and s: "es_db s = db" using ready by (simp_all add: block_ready_def)
  have rows: "rows_ok t (db t)" using db by (simp add: db_ok_def)
  have cls_old: "\<forall>r \<in> set ?old. cls r = t"
    using rows by (auto simp: invalidate_rows_def rows_ok_def)
  moreover have "(\<forall>r \<in> set (?old @ ?new). \<exists>n. attr r (id_column t) = PInt n) \<and>
      (\<forall>n. length (filter (current_with t n) (?old @ ?new)) \<le> 1)" if t: "t \<in> id_types"
  proof (intro conjI allI)
    have "\<exists>n. attr r (id_column t) = PInt n" if "r \<in> set ?old" for r
      using that rows t by (auto simp: invalidate_rows_def rows_ok_def id_columns_apart split: if_splits)
    moreover have "\<exists>n. attr r (id_column t) = PInt n" if "r \<in> set ?new" for r
      using that t saved_record [OF I, of r b] by (auto simp: entity_ok_def)
    ultimately show "\<forall>r \<in> set (?old @ ?new). \<exists>n. attr r (id_column t) = PInt n" by auto
    fix n
    have new: "filter (current_with t n) ?new =
        (case od_get (new_of s t) (KId n) of None \<Rightarrow> []
         | Some rs \<Rightarrow> filter (current_with t n) (compile_records b rs))"
      using records_to_save_current [OF I t, of n b] by (simp add: conj_commute)
    show "length (filter (current_with t n) (?old @ ?new)) \<le> 1"
    proof (cases "\<exists>rs. od_get (new_of s t) (KId n) = Some rs \<and> rs \<noteq> []")
      case True
      then obtain rs where rs: "od_get (new_of s t) (KId n) = Some rs" "rs \<noteq> []" by blast
      then obtain r where "r \<in> set rs" by (cases rs) auto
      then have "KId n \<in> set (keys_of ks t)"
        using rec_invD(5) [OF I rs(1) _ t] by (force simp: may_add_def keys_of_def)
      then have "r \<in> set (replaced_originals (es_new s) ?B t)"
        if "r \<in> set (db t)" "current_with t n r" for r
        using replaced_originals_mem [OF refl rs] fetch_finds [OF db t that] by blast
      then have "filter (current_with t n) ?old = []"
        using rows t by (intro invalidate_none) (auto simp: rows_ok_def)
      moreover have "\<forall>r \<in> set rs. cls r = t"
        using rec_invD(4) [OF I rs(1)] by (auto simp: entity_ok_def)
      ultimately show ?thesis
        using new rs(1) compile_records_one_current [OF t, of rs n b] by simp
    next
      case False
      then have "filter (current_with t n) ?new = []"
        using new by (auto simp: compile_records_def split: option.split)
      moreover have "length (filter (current_with t n) (db t)) \<le> 1"
        using rows t by (simp add: rows_ok_def)
      ultimately show ?thesis
        using invalidate_length_le [of t n "es_new s" ?B "db t"] by simp
    qed
  qed
  ultimately show "rows_ok t (es_db (save_block b ?B s) t)"
    by (auto simp: rows_ok_def save_block_def s)
qed

text \<open>The current row of an entity after the block agrees with the one before it.\<close>

lemma old_row_current:
  assumes "rows_ok t rows" and "t \<in> id_types" and "r \<in> set rows" "current_with t n r"
    and "r' \<in> set (invalidate_rows nr B t rows)" and "current_with t n r'"
  shows "r' = r"
proof -
  have "r' \<in> set rows"
    using assms(5,6) by (auto simp: invalidate_rows_def current_with_def is_current_row_def split: if_splits)
  then show ?thesis
    using assms by (intro length_le_1_same [of "filter (current_with t n) rows"]) (auto simp: rows_ok_def)
qed

lemma compiled_agrees:
  assumes "r \<in> set (compile_records b rs)" and "G \<inter> {''is_current'', ''updated_at''} = {}"
  shows "\<exists>r0 \<in> set rs. agrees G r0 r"
proof -
  have "agrees G r0 (retire_record b r0)" and "agrees G r1 (make_current r1)" for r0 r1
    using assms(2) by (auto simp: retire_record_def make_current_def Let_def intro: agrees_put agrees_trans)
  then show ?thesis using compile_records_mem [OF assms(1)] by (blast intro: agrees_trans)
qed

lemma save_block_guarded:
  assumes db: "db_ok db" and ready: "block_ready ks db s" and t: "t \<in> id_types"
    and r: "r \<in> set (db t)" "current_with t n r"
    and r': "r' \<in> set (es_db (save_block b (fetch_existing_entities db ks) s) t)" "current_with t n r'"
  shows "agrees (guarded t) r r'"
proof -
  let ?B = "fetch_existing_entities db ks"
  have I: "rec_inv (set ks) ?B s" and s: "es_db s = db" using ready by (simp_all add: block_ready_def)
  consider (old) "r' \<in> set (invalidate_rows (es_new s) ?B t (db t))"
    | (new) "r' \<in> set (records_to_save b (es_new s))" "cls r' = t"
    using r'(1) by (auto simp: save_block_def s)
  then show ?thesis
  proof cases
    case old
    then show ?thesis
      using old_row_current [OF _ t r old r'(2)] db by (auto simp: db_ok_def)
  next
    case new
    obtain k rs where rs: "od_get (new_of s t) k = Some rs" "r' \<in> set (compile_records b rs)"
        "entity_ok t k r'"
      using saved_record [OF I new(1)] new(2) by (auto simp: entity_ok_def)
    have k: "k = KId n" using entity_ok_current [OF rs(3) r'(2) t] .
    have "guarded t \<inter> {''is_current'', ''updated_at''} = {}"
      using guarded_columns(3) [OF t] by (auto simp: bookkeeping_columns_def)
    then obtain r0 where r0: "r0 \<in> set rs" "agrees (guarded t) r0 r'"
      using compiled_agrees [OF rs(2)] by blast
    obtain x where x: "(t, k) \<in> set ks" "existing_at (es_existing s) t k = Some x" "agrees (guarded t) x r0"
      using rec_invD(5) [OF I rs(1) r0(1) t] by (auto simp: may_add_def)
    have "existing_at ?B t k = Some r"
      unfolding k using x(1) k by (intro fetch_finds [OF db t r]) (force simp: keys_of_def)
    then have "agrees (guarded t) r x" using rec_invD(6) [OF I t] x(2) by fastforce
    with x(3) r0(2) show ?thesis by (meson agrees_trans)
  qed
qed

end
