(* ===== verification/EM_Samples.thy ===== *)
theory EM_Samples
  imports EM_Core
begin

text \<open>
  Concrete inputs for the entity manager: an environment, one registered user, one track of
  that user, and the state of a session that holds them.  The witnesses of the properties run
  the handlers on these.
\<close>

definition sample_env :: env where
  "sample_env = \<lparr>schema_valid = (\<lambda>c f v. True), hashids_encode = (\<lambda>n. show_int n),
     json_loads = (\<lambda>t. if t = ''{}'' then Some (PDict []) else None),
     verified_address = Some ''0xVer'', notification_creator_addr = Some ''0xNote'',
     service_endpoint_info = (\<lambda>v. if is_int v \<and> 1 \<le> as_int v \<and> as_int v \<le> 9 then
       Inr \<lparr>operator_wallet = ''0xop'', endpoint = ''http://cn'', sp_block_number = 1,
            delegator_wallet = ''0xdel'' @ show_int (as_int v)\<rparr>
       else Inr \<lparr>operator_wallet = [], endpoint = [], sp_block_number = 0, delegator_wallet = []\<rparr>),
     replica_follows = [], replica_tips = [],
     recover_hash = (\<lambda>m sig. Inr sig), verify_sol_message = (\<lambda>k m sig. sig = k)\<rparr>"

definition row_of :: "string \<Rightarrow> (string \<times> pyval) list \<Rightarrow> inst" where
  "row_of c fvs = \<lparr>cls = c, attr = (\<lambda>f. case od_get fvs f of None \<Rightarrow> PNone | Some v \<Rightarrow> v)\<rparr>"

definition sample_user :: inst where
  "sample_user = row_of ''User''
     [(''user_id'', PInt 3000001), (''is_current'', PBool True), (''wallet'', PStr ''0xabc''),
      (''handle'', PStr ''Ann''), (''handle_lc'', PStr ''ann''), (''txhash'', PStr ''0x1''),
      (''blocknumber'', PInt 1), (''primary_id'', PInt 1),
      (''secondary_ids'', PList [PInt 2, PInt 3])]"

definition sample_track :: inst where
  "sample_track = row_of ''Track''
     [(''track_id'', PInt 2000001), (''is_current'', PBool True), (''owner_id'', PInt 3000001),
      (''title'', PStr ''Song''), (''txhash'', PStr ''0x1''), (''blocknumber'', PInt 1),
      (''is_delete'', PBool False)]"

definition no_routes :: routes where
  "no_routes = \<lparr>rt_table = [], rt_pending = []\<rparr>"

definition sample_db :: "string \<Rightarrow> inst list" where
  "sample_db t = (if t = ''User'' then [sample_user] else if t = ''Track'' then [sample_track] else [])"

definition sample_state :: em_state where
  "sample_state = \<lparr>es_db = sample_db, es_new = [],
     es_existing = [(''User'', [(KId 3000001, sample_user)]), (''Track'', [(KId 2000001, sample_track)])],
     es_track_routes = no_routes, es_playlist_routes = no_routes, es_stems = [], es_remixes = [],
     es_user_events = [], es_wallets = [], es_bus = [], es_sp_cache = [], es_balance_refresh = []\<rparr>"

definition sample_params :: "string \<Rightarrow> string \<Rightarrow> int \<Rightarrow> em_params" where
  "sample_params action entity_type entity_id =
     \<lparr>p_user_id = 3000001, p_entity_id = entity_id, p_entity_type = entity_type, p_action = action,
      p_metadata_cid = [], p_signer = ''0xABC'', p_block_time = 100, p_block_number = 7,
      p_blockhash = ''0xb'', p_txhash = ''0x2'', p_metadata = []\<rparr>"

end
