(* ===== verification/EM_Properties.thy ===== *)
theory EM_Properties
  imports EM_Block EM_Samples
begin

text \<open>
  The properties of the entity manager as a whole: what a block of transactions does to the
  tables, the routes and the bus, and what a transaction without a valid signer does.
\<close>

lemma sample_db_ok: "db_ok (es_db sample_state)"
  by (simp add: db_ok_def rows_ok_def sample_state_def sample_db_def id_types_def current_with_def
      id_column_def sample_user_def sample_track_def row_of_def)

section \<open>Properties of a block\<close>

text \<open>C2: Processing a block keeps every table well formed: each user, track and playlist has at
  most one current row afterwards, whatever the block's transactions are.\<close>

theorem block_one_current:
  assumes "db_ok (es_db s)"
  shows "db_ok (es_db (snd (entity_manager_update e b txs s)))"
proof (cases "txs = []")
  case True
  then show ?thesis using assms by (simp add: entity_manager_update_def ret_def)
next
  case False
  then show ?thesis
    using entity_manager_update_cases [OF False, of b e s]
      process_txs_ready [OF assms] save_block_rows_ok [OF assms] assms by auto
qed

definition sample_block :: em_block where
  "sample_block = \<lparr>bl_number = 7, bl_timestamp = 100, bl_hash = ''0xb'', bl_metadata = []\<rparr>"

definition sample_delete_tx :: em_tx where
  "sample_delete_tx = \<lparr>tx_hash = ''0x2'', tx_events = [\<lparr>ev_user_id = 3000001, ev_entity_id = 2000001,
     ev_entity_type = ''Track'', ev_action = ''Delete'', ev_metadata = [], ev_signer = ''0xABC''\<rparr>]\<rparr>"

lemma block_one_current_witness:
  "db_ok (es_db (snd (entity_manager_update sample_env sample_block [sample_delete_tx] sample_state)))
   \<and> length (es_db (snd (entity_manager_update sample_env sample_block [sample_delete_tx] sample_state)) ''Track'') = 2"
proof
  show "db_ok (es_db (snd (entity_manager_update sample_env sample_block [sample_delete_tx] sample_state)))"
    by (rule block_one_current) (rule sample_db_ok)
qed code_simp

text \<open>C10: A block never rewrites history: the rows a table held before stay in place, each either
  as it was or with \<open>is_current\<close> switched off, and the records of the block follow them.\<close>

theorem block_history:
  "\<exists>old new. es_db (snd (entity_manager_update e b txs s)) t = old @ new \<and>
     list_all2 same_or_retired (es_db s t) old"
proof -
  have refl: "list_all2 same_or_retired rows rows" for rows
    by (simp add: list_all2_same same_or_retired_def)
  have db: "es_db (snd (process_txs e b txs (start_block B s))) = es_db s" for B
    by (rule keepsD [OF db_frame.keeps_process_txs]) (simp add: start_block_def)
  let ?s' = "snd (entity_manager_update e b txs s)"
  have "es_db ?s' = es_db s \<or> (\<exists>nr B new. es_db ?s' t = invalidate_rows nr B t (es_db s t) @ new)"
  proof (cases "txs = []")
    case True
    then show ?thesis by (simp add: entity_manager_update_def ret_def)
  next
    case False
    then show ?thesis
      using entity_manager_update_cases [OF False, of b e s] db by (auto simp: save_block_def) blast
  qed
  then show ?thesis using refl invalidate_rows_history by (metis append_Nil2)
qed

text \<open>C5: No transaction changes whose entity it is: the current row of a user, track or playlist after
  a block has the id, the owner (for a user, the wallet) and the creation time that the current
  row had before the block.\<close>

theorem block_keeps_owner:
  assumes db: "db_ok (es_db s)" and t: "t \<in> id_types"
    and r: "r \<in> set (es_db s t)" "current_with t n r"
    and r': "r' \<in> set (es_db (snd (entity_manager_update e b txs s)) t)" "current_with t n r'"
    and g: "g \<in> guarded t"
  shows "stored r' g = stored r g"
proof -
  have same: "r' = r" if "r' \<in> set (es_db s t)"
    using db t r r'(2) that unfolding db_ok_def rows_ok_def
    by (intro length_le_1_same [of "filter (current_with t n) (es_db s t)"]) auto
  show ?thesis
  proof (cases "txs = []")
    case True
    then show ?thesis using same r'(1) by (simp add: entity_manager_update_def ret_def)
  next
    case False
    from entity_manager_update_cases [OF this, of b e s] show ?thesis
    proof
      assume "\<exists>x. collect_entities_to_fetch b txs = Inl x \<and> entity_manager_update e b txs s = (Inl x, s)"
      then show ?thesis using same r'(1) by auto
    next
      assume "\<exists>ks s1. collect_entities_to_fetch b txs = Inr ks \<and>
         s1 = snd (process_txs e b txs (start_block (fetch_existing_entities (es_db s) ks) s)) \<and>
         entity_manager_update e b txs s = (Inr (length (records_to_save b (es_new s1))),
           save_block b (fetch_existing_entities (es_db s) ks) s1)"
      then have "agrees (guarded t) r r'"
        using save_block_guarded [OF db process_txs_ready [OF db] t r _ r'(2)] r'(1) by auto
      then show ?thesis using g by (simp add: agrees_def)
    qed
  qed
qed

lemma block_keeps_owner_witness:
  "\<exists>r' \<in> set (es_db (snd (entity_manager_update sample_env sample_block [sample_delete_tx] sample_state)) ''Track'').
     current_with ''Track'' 2000001 r' \<and> attr r' ''is_delete'' = PBool True \<and>
     stored r' ''owner_id'' = stored sample_track ''owner_id''"
proof -
  let ?rows = "es_db (snd (entity_manager_update sample_env sample_block [sample_delete_tx] sample_state)) ''Track''"
  have "?rows ! 1 \<in> set ?rows" by (rule nth_mem) code_simp
  moreover have "current_with ''Track'' 2000001 (?rows ! 1)" by code_simp
  moreover have "attr (?rows ! 1) ''is_delete'' = PBool True" by code_simp
  moreover have "stored (?rows ! 1) ''owner_id'' = stored sample_track ''owner_id''"
    by (rule block_keeps_owner [OF sample_db_ok, where t = "''Track''" and n = 2000001])
      (use calculation in \<open>simp_all add: sample_state_def sample_db_def guarded_def
         current_with_def is_current_row_def id_column_def sample_track_def row_of_def\<close>)
  ultimately show ?thesis by blast
qed

text \<open>C11: A block keeps both route tables well formed: a slug belongs to at most one record of an
  owner, and a record has at most one current slug, whatever events the block holds and
  whichever of them fail half way.\<close>

theorem block_routes_ok:
  assumes "routes_ok (es_track_routes s)" and "routes_ok (es_playlist_routes s)"
  shows "routes_ok (es_track_routes (snd (entity_manager_update e b txs s))) \<and>
    routes_ok (es_playlist_routes (snd (entity_manager_update e b txs s)))"
proof (cases "txs = []")
  case True
  then show ?thesis using assms by (simp add: entity_manager_update_def ret_def)
next
  case False
  have start: "routes_ok (es_track_routes (start_block B s)) \<and> routes_ok (es_playlist_routes (start_block B s))"
    for B using assms by (simp add: start_block_def routes_ok_def)
  have "routes_ok (es_track_routes (snd (process_txs e b txs (start_block B s)))) \<and>
      routes_ok (es_playlist_routes (snd (process_txs e b txs (start_block B s))))" for B
    by (rule keepsD [OF routes_frame.keeps_process_txs]) (rule start)
  then show ?thesis
    using entity_manager_update_cases [OF False, of b e s] assms by (auto simp: save_block_def)
qed

definition playlist_metadata :: pydict where
  "playlist_metadata = [(''playlist_name'', PStr ''Mix''), (''description'', PStr ''d''),
     (''playlist_image_sizes_multihash'', PStr ''Qm''),
     (''playlist_contents'', PDict [(''track_ids'', PList [
        PDict [(''track'', PInt 2000001), (''time'', PInt 40)]])])]"

definition playlist_block :: em_block where
  "playlist_block = sample_block\<lparr>bl_metadata := [(''QmP'', playlist_metadata)]\<rparr>"

definition playlist_event :: "string \<Rightarrow> em_event" where
  "playlist_event action = \<lparr>ev_user_id = 3000001, ev_entity_id = 400001, ev_entity_type = ''Playlist'',
     ev_action = action, ev_metadata = ''QmP'', ev_signer = ''0xabc''\<rparr>"

definition playlist_txs :: "em_tx list" where
  "playlist_txs = [\<lparr>tx_hash = ''0x3'', tx_events = [playlist_event ''Create'']\<rparr>,
     \<lparr>tx_hash = ''0x4'', tx_events = [playlist_event ''Update'', playlist_event ''Delete'']\<rparr>]"

lemma block_routes_ok_witness:
  "routes_ok (es_track_routes (snd (entity_manager_update sample_env playlist_block playlist_txs sample_state))) \<and>
   routes_ok (es_playlist_routes (snd (entity_manager_update sample_env playlist_block playlist_txs sample_state)))"
  by (rule block_routes_ok) (simp_all add: sample_state_def no_routes_def routes_ok_def)

text \<open>The bus queue only grows: the events that were waiting when a block starts are still
  there when it ends, in the same order, and what the block dispatched follows them.\<close>

theorem block_bus_extends:
  "\<exists>es. es_bus (snd (entity_manager_update e b txs s)) = es_bus s @ es"
proof (cases "txs = []")
  case True
  then show ?thesis by (simp add: entity_manager_update_def ret_def)
next
  case False
  have "\<exists>es. es_bus (snd (process_txs e b txs (start_block B s))) = es_bus s @ es" for B
    by (rule keepsD [OF bus_frame.keeps_process_txs]) (simp add: start_block_def)
  then show ?thesis
    using entity_manager_update_cases [OF False, of b e s] by (auto simp: save_block_def)
qed

text \<open>The events whose handlers ask for the wallet of the user who is said to have sent them.\<close>

definition needs_signature :: "em_params \<Rightarrow> bool" where
  "needs_signature p \<longleftrightarrow>
     p_entity_type p \<in> {''Track'', ''Playlist''} \<or>
     p_action p \<in> set create_social_action_types \<union> set delete_social_action_types \<or>
     (p_action p = ''Update'' \<and> p_entity_type p = ''User'') \<or>
     (p_action p \<in> {''View'', ''ViewPlaylist''} \<and> p_entity_type p = ''Notification'')"

text \<open>C1: An event that needs a signature but is not signed by the wallet of its user (or whose user is
  not known) changes nothing at all: no record, no route, no bus event, no cache entry.\<close>

theorem unsigned_event_ignored:
  assumes "needs_signature p" and "\<not> user_authorised p s"
  shows "process_event e p s = (Inr (), s)"
proof -
  have user: "\<exists>x. update_user e p s = (Inl x, s)" if "p_action p = ''Update''"
  proof -
    have "validate_user_tx e p s \<noteq> Inr ()"
      using assms(2) that check_user_signer_ok by (auto simp: validate_user_tx_def bind_res_Inr)
    then obtain x where "validate_user_tx e p s = Inl x" by (cases "validate_user_tx e p s") auto
    then show ?thesis by (simp add: update_user_def check_def py_simps)
  qed
  have view: "\<exists>x. view_notification e p s = (Inl x, s)" if "p_action p = ''View''"
  proof -
    have "validate_notification_tx e p s \<noteq> Inr ()"
      using assms(2) that check_user_signer_ok by (auto simp: validate_notification_tx_def bind_res_Inr)
    then obtain x where "validate_notification_tx e p s = Inl x" by (cases "validate_notification_tx e p s") auto
    then show ?thesis by (simp add: view_notification_def check_def py_simps)
  qed
  note rest = track_create.unauthorised [OF assms(2), of e, folded create_track_def]
    track_update.unauthorised [OF assms(2), of e, folded update_track_def]
    track_delete.unauthorised [OF assms(2), of e, folded delete_track_def]
    playlist_create.unauthorised [OF assms(2), of e, folded create_playlist_def]
    playlist_update.unauthorised [OF assms(2), of e, folded update_playlist_def]
    playlist_delete.unauthorised [OF assms(2), of e, folded delete_playlist_def]
    social_create.unauthorised [OF assms(2), of e, folded create_social_record_def]
    social_delete.unauthorised [OF assms(2), of e, folded delete_social_record_def]
    playlist_view.unauthorised [OF assms(2), of e, folded view_playlist_def]
  have branch: "\<exists>r. (if c then m else n) s = (r, s)"
    if "c \<Longrightarrow> \<exists>r. m s = (r, s)" and "\<not> c \<Longrightarrow> \<exists>r. n s = (r, s)" for c and m n :: "unit em"
    using that by simp
  have handlers:
    "\<exists>r. create_track e p s = (r, s)"
    "\<exists>r. update_track e p s = (r, s)"
    "\<exists>r. delete_track e p s = (r, s)"
    "\<exists>r. create_playlist e p s = (r, s)"
    "\<exists>r. update_playlist e p s = (r, s)"
    "\<exists>r. delete_playlist e p s = (r, s)"
    "\<exists>r. create_social_record e p s = (r, s)"
    "\<exists>r. delete_social_record e p s = (r, s)"
    "\<exists>r. view_playlist e p s = (r, s)"
    "p_action p = ''Update'' \<Longrightarrow> \<exists>r. update_user e p s = (r, s)"
    "p_action p = ''View'' \<Longrightarrow> \<exists>r. view_notification e p s = (r, s)"
    using rest user view by blast+
  have "\<exists>r. handle_event e p s = (r, s)"
    unfolding handle_event_def Let_def
    by (intro branch; use assms(1) in
      \<open>simp add: handlers needs_signature_def ret_def create_social_action_types_def
        delete_social_action_types_def\<close>)
  then show ?thesis by (auto simp: process_event_def swallow_def)
qed

lemma unsigned_event_ignored_witness:
  "process_event sample_env (sample_params ''Delete'' ''Track'' 2000001\<lparr>p_signer := ''0xEvil''\<rparr>) sample_state
     = (Inr (), sample_state)"
proof (rule unsigned_event_ignored)
  show "needs_signature (sample_params ''Delete'' ''Track'' 2000001\<lparr>p_signer := ''0xEvil''\<rparr>)"
    by (simp add: needs_signature_def sample_params_def)
  have "wallet_accepts (PStr ''0xabc'') ''0xEvil'' = False" 
    unfolding wallet_accepts_def by (simp, code_simp)
  then show "\<not> user_authorised (sample_params ''Delete'' ''Track'' 2000001\<lparr>p_signer := ''0xEvil''\<rparr>) sample_state"
    by (simp add: user_authorised_def sample_params_def sample_state_def existing_of_def od_default_def
      sample_user_def row_of_def)
qed

end
