(* ===== verification/EM_Content_Properties.thy ===== *)
theory EM_Content_Properties
  imports EM_Block EM_Samples
begin

text \<open>
  What the handlers of tracks and playlists do when they succeed, and what they leave behind
  when they fail half way.
\<close>

section \<open>Runs that return\<close>

text \<open>The run of a handler that returns, effect by effect.\<close>

lemma sq_check_Inr: "sq (check v) m s = (Inr x, s') \<Longrightarrow> v s = Inr () \<and> m s = (Inr x, s')"
  by (auto simp: check_def py_simps split: sum.splits)

lemma bnd_lift_Inr: "bnd (lift_res r) f s = (Inr y, s') \<Longrightarrow> \<exists>x. r = Inr x \<and> f x s = (Inr y, s')"
  by (cases r) (auto simp: py_simps)

lemma bnd_gets_lift_Inr:
  "bnd (bnd (gets g) lift_res) f s = (Inr y, s') \<Longrightarrow> \<exists>x. g s = Inr x \<and> f x s = (Inr y, s')"
  by (auto simp: py_simps split: sum.splits)

lemma sq_unit_Inr: "sq m n s = (Inr y, s') \<Longrightarrow> \<exists>u. m s = (Inr (), u) \<and> n u = (Inr y, s')"
  for m :: "('s, unit) py"
  by (auto simp: sq_Inr)

definition last_record :: "em_state \<Rightarrow> string \<Rightarrow> int \<Rightarrow> inst option" where
  "last_record s t n =
     (case od_get (new_of s t) (KId n) of None \<Rightarrow> None | Some rs \<Rightarrow> if rs = [] then None else Some (last rs))"

lemma add_records_effect:
  assumes "sq (append_new t (KId n) r) (set_existing t (KId n) r) s = (x, s')"
  shows "last_record s' t n = Some r" and "existing_at (es_existing s') t (KId n) = Some r"
    and "\<exists>u v. s' = s\<lparr>es_new := u, es_existing := v\<rparr>"
proof -
  have s': "s' = snd (sq (append_new t (KId n) r) (set_existing t (KId n) r) s)" using assms by simp
  show "last_record s' t n = Some r" and "existing_at (es_existing s') t (KId n) = Some r"
    unfolding s' by (simp_all add: last_record_def append_new_def set_existing_def py_simps new_of_set
        existing_of_def existing_at_set)
  show "\<exists>u v. s' = s\<lparr>es_new := u, es_existing := v\<rparr>"
    unfolding s' append_new_def set_existing_def py_simps by auto
qed

lemmas add_track_effect = add_records_effect [of "''Track''", folded add_track_record_def]

lemma latest_record_effect: "\<exists>u. snd (latest_record t k s) = s\<lparr>es_new := u\<rparr>"
  by (auto simp: latest_record_def in_new_def touch_new_def last_new_def py_simps
      split: option.split intro: exI [of _ "es_new s"])

lemma latest_record_known:
  assumes "rec_inv F B s" and "t \<in> id_types" and "latest_record t k s = (Inr r, s')"
  shows "known (es_existing s) t k r"
  using gives_latest_record [OF assms(2), of F B "es_existing s" k] assms(1,3)
  by (auto simp: gives_def from_inv_def)

section \<open>Tracks\<close>

lemma set_attr_track_null:
  assumes "cls r = ''Track''"
  shows "set_attr e r ''stem_of'' PNull = Inr (put_attr r ''stem_of'' PNull)"
    and "set_attr e r ''remix_of'' PNull = Inr (put_attr r ''remix_of'' PNull)"
    and "set_attr e r ''premium_conditions'' PNull = Inr (put_attr r ''premium_conditions'' PNull)"
  by (simp_all add: assms set_attr_def validated_fields_def schema_required_def validate_field_helper_def
      text_columns_def strip_listener_def get_default_value_def schema_default_def
      schema_type_has_object_def)

lemma set_attr_track_deleted: "cls r = ''Track'' \<Longrightarrow> set_attr e r ''is_delete'' v = Inr (put_attr r ''is_delete'' v)"
  by (rule set_attr_plain) (simp_all add: validated_fields_def schema_required_def text_columns_def)

text \<open>A track deletion that succeeds was signed for its owner.  It leaves one more record of the track,
  a copy of the latest one with the same owner that is marked deleted and has lost its stem, remix and
  premium conditions, and touches nothing but the collected records.\<close>

theorem delete_track_effect:
  assumes run: "delete_track e p s = (Inr (), s')" and "p_action p = ''Delete''" and I: "rec_inv F B s"
  shows "\<exists>old r u v. user_authorised p s \<and>
    existing_at (es_existing s) ''Track'' (KId (p_entity_id p)) = Some old \<and>
    py_eq (attr old ''owner_id'') (PInt (p_user_id p)) \<and>
    last_record s' ''Track'' (p_entity_id p) = Some r \<and> agrees (guarded ''Track'') old r \<and>
    attr r ''is_delete'' = PBool True \<and> attr r ''stem_of'' = PNull \<and> attr r ''remix_of'' = PNull \<and>
    attr r ''premium_conditions'' = PNull \<and> s' = s\<lparr>es_new := u, es_existing := v\<rparr>"
proof -
  have v: "validate_track_tx p s = Inr ()" and body: "delete_track_body e p s = (Inr (), s')"
    using sq_check_Inr [OF run [unfolded delete_track_def]] by simp_all
  obtain r0 s1 where r0: "latest_record ''Track'' (KId (p_entity_id p)) s = (Inr r0, s1)"
    and "bnd (lift_res (bind_res (copy_record e p r0)
       (set_attrs e [(''is_delete'', PBool True), (''stem_of'', PNull), (''remix_of'', PNull),
                     (''premium_conditions'', PNull)]))) (add_track_record (p_entity_id p)) s1 = (Inr (), s')"
    using body unfolding delete_track_body_def bnd_Inr by blast
  then obtain r1 r where r1: "copy_record e p r0 = Inr r1"
    and r: "set_attrs e [(''is_delete'', PBool True), (''stem_of'', PNull), (''remix_of'', PNull),
        (''premium_conditions'', PNull)] r1 = Inr r"
    and add: "add_track_record (p_entity_id p) r s1 = (Inr (), s')"
    by (auto dest!: bnd_lift_Inr simp: bind_res_Inr simp del: set_attrs_Cons)
  obtain old where old: "existing_at (es_existing s) ''Track'' (KId (p_entity_id p)) = Some old"
      "py_eq (attr old ''owner_id'') (PInt (p_user_id p))"
    using v assms(2) by (auto simp: validate_track_tx_def bind_res_Inr existing_of_at split: option.splits)
  have k0: "known (es_existing s) ''Track'' (KId (p_entity_id p)) r0"
    using latest_record_known [OF I _ r0] by simp
  then have k1: "known (es_existing s) ''Track'' (KId (p_entity_id p)) r1"
    using known_copy r1 by simp
  have cls: "cls r1 = ''Track''" using k1 by (rule known_cls)
  have r_eq: "r = put_attr (put_attr (put_attr (put_attr r1 ''is_delete'' (PBool True)) ''stem_of'' PNull)
      ''remix_of'' PNull) ''premium_conditions'' PNull"
    using r cls by (simp add: set_attr_track_null set_attr_track_deleted)
  have "agrees (guarded ''Track'') r1 r"
    by (rule protectsD [OF protects_set_attrs r]) (simp add: guarded_def)
  then have agr: "agrees (guarded ''Track'') old r"
    using k1 old(1) by (auto simp: known_def intro: agrees_trans)
  obtain u where "s1 = s\<lparr>es_new := u\<rparr>"
    using latest_record_effect [of "''Track''" "KId (p_entity_id p)" s] r0 by auto
  then obtain u v where s': "s' = s\<lparr>es_new := u, es_existing := v\<rparr>"
    using add_track_effect(3) [OF add] by auto
  have attrs: "attr r ''is_delete'' = PBool True" "attr r ''stem_of'' = PNull"
      "attr r ''remix_of'' = PNull" "attr r ''premium_conditions'' = PNull"
    by (simp_all add: r_eq)
  show ?thesis
    by (rule exI [of _ old], rule exI [of _ r], rule exI [of _ u], rule exI [of _ v])
      (simp add: validate_track_tx_signer [OF v] old agr attrs s' add_track_effect(1) [OF add, unfolded s'])
qed

text \<open>Records of the sample state, for the witnesses.\<close>

lemma sample_rec_inv: "rec_inv F (es_existing sample_state) sample_state"
  by (auto simp: rec_inv_def sample_state_def new_of_def od_default_def od_keys_def existing_at_def
      entity_ok_def id_types_def id_column_def sample_user_def sample_track_def row_of_def
      split: if_splits)

lemma delete_track_effect_witness:
  "\<exists>s' r. delete_track sample_env (sample_params ''Delete'' ''Track'' 2000001) sample_state = (Inr (), s') \<and>
     last_record s' ''Track'' 2000001 = Some r \<and> attr r ''is_delete'' = PBool True"
proof -
  let ?p = "sample_params ''Delete'' ''Track'' 2000001"
  have "fst (delete_track sample_env ?p sample_state) = Inr ()" by code_simp
  then obtain s' where s': "delete_track sample_env ?p sample_state = (Inr (), s')"
    by (cases "delete_track sample_env ?p sample_state") auto
  moreover have "p_action ?p = ''Delete''" and "p_entity_id ?p = 2000001"
    by (simp_all add: sample_params_def)
  ultimately show ?thesis using delete_track_effect [OF s' _ sample_rec_inv] by auto
qed

section \<open>A new track\<close>

lemma with_track_routes_parts:
  assumes "with_track_routes m s = (x, s')"
  shows "s' = s\<lparr>es_track_routes := es_track_routes s'\<rparr>" and "m (es_track_routes s) = (x, es_track_routes s')"
  using assms by (auto simp: with_track_routes_def zoom_def split: prod.splits)

lemma new_track_attrs:
  assumes "new_track e p = Inr r"
  shows "attr r ''title'' = PNone" and "attr r ''track_id'' = PInt (p_entity_id p)"
    and "attr r ''owner_id'' = PInt (p_user_id p)" and "cls r = ''Track''"
proof -
  show "cls r = ''Track''" using assms by (auto simp: new_track_def dest: make_inst_cls)
  show "attr r ''title'' = PNone"
    using assms set_attrs_other [of e _ "new_inst ''Track''" r "''title''"]
    by (simp add: new_track_def make_inst_def new_inst_def del: set_attrs_Cons)
  show "attr r ''track_id'' = PInt (p_entity_id p)" and "attr r ''owner_id'' = PInt (p_user_id p)"
    using assms unfolding new_track_def
    by (auto intro!: make_inst_plain simp: validated_fields_def schema_required_def text_columns_def)
qed

text \<open>The routes step of a new track: its title gets a current route, the rest of the state stays.\<close>

lemma new_track_route:
  assumes r: "new_track e p = Inr r" and t: "dict_sub md ''title'' = Inr (PStr t)"
    and ok: "routes_ok (es_track_routes s)" and ts: "sanitize_slug e t (p_entity_id p) 0 \<noteq> []"
  shows "\<exists>s' rt. update_track_routes_table e r md s = (Inr (), s') \<and>
    s' = s\<lparr>es_track_routes := es_track_routes s'\<rparr> \<and>
    filter (current_of (p_entity_id p)) (rt_table (es_track_routes s')) = [rt] \<and>
    route_title_slug rt = sanitize_slug e t (p_entity_id p) 0"
proof -
  let ?m = "renew_route e (p_entity_id p) (p_user_id p) t
         (str_attr r ''blockhash'') (int_attr r ''blocknumber'') (str_attr r ''txhash'')"
  obtain R rt where R: "?m (es_track_routes s) = (Inr (), R)"
      "filter (current_of (p_entity_id p)) (rt_table R) = [rt]"
      "route_title_slug rt = sanitize_slug e t (p_entity_id p) 0"
    using renew_route_current [OF ok ts] by blast
  have "update_track_routes_table e r md s = with_track_routes ?m s"
    using t by (simp add: update_track_routes_table_def py_simps new_track_attrs [OF r] int_attr_def
        as_int_def as_str_def py_eq_def is_int_def)
  also have "\<dots> = (Inr (), s\<lparr>es_track_routes := R\<rparr>)"
    using R(1) by (simp add: with_track_routes_def zoom_def)
  finally show ?thesis using R(2,3) by auto
qed

text \<open>A track creation is not atomic: when the handle of the owner cannot be read (an owner created in the
  same block has no row yet), the handler fails after the routes table has changed, and the route of a track
  that does not exist stays current in the table.\<close>

theorem create_track_orphan_route:
  assumes v: "validate_track_tx p s = Inr ()" and md: "event_metadata p = Inr md"
    and r: "new_track e p = Inr r" and t: "dict_sub md ''title'' = Inr (PStr t)"
    and h: "\<And>u. u \<in> set (es_db s ''User'') \<Longrightarrow> attr u ''user_id'' = PInt (p_user_id p) \<Longrightarrow> \<not> is_current_row u"
    and ok: "routes_ok (es_track_routes s)" and ts: "sanitize_slug e t (p_entity_id p) 0 \<noteq> []"
  shows "\<exists>s' rt. create_track e p s = (Inl TypeError, s') \<and> es_new s' = es_new s \<and>
    filter (current_of (p_entity_id p)) (rt_table (es_track_routes s')) = [rt]"
proof -
  obtain s' rt where s': "update_track_routes_table e r md s = (Inr (), s')"
      "s' = s\<lparr>es_track_routes := es_track_routes s'\<rparr>"
      "filter (current_of (p_entity_id p)) (rt_table (es_track_routes s')) = [rt]"
    using new_track_route [OF r t ok ts] by blast
  have same: "es_db s' = es_db s" "es_new s' = es_new s" by (subst s'(2); simp)+
  have "filter (\<lambda>u. attr u ''user_id'' = PInt (p_user_id p) \<and> is_current_row u) (es_db s' ''User'') = []"
    using h by (auto simp: same filter_empty_conv)
  then have "get_handle p s' = Inl TypeError" by (simp add: get_handle_def)
  then have "create_track e p s = (Inl TypeError, s')"
    using v md r s'(1)
    by (simp add: create_track_def create_track_body_def check_def py_simps update_track_record_def)
  then show ?thesis using s'(3) same by blast
qed

definition sample_metadata :: pydict where
  "sample_metadata = [(''title'', PStr ''Demo''), (''track_cid'', PStr ''Qc''), (''cover_art'', PNone),
     (''cover_art_sizes'', PStr ''Qs''), (''tags'', PNone), (''genre'', PStr ''Rock''), (''mood'', PNone),
     (''credits_splits'', PNone), (''create_date'', PNone), (''release_date'', PNone),
     (''file_type'', PNone), (''description'', PNone), (''license'', PNone), (''isrc'', PNone),
     (''iswc'', PNone), (''track_segments'', PList []), (''is_unlisted'', PBool False),
     (''field_visibility'', PNone), (''is_premium'', PBool False)]"

definition sample_upload :: em_params where
  "sample_upload = (sample_params ''Create'' ''Track'' 2000002)
     \<lparr>p_metadata_cid := ''Qm'', p_metadata := [(''Qm'', sample_metadata)]\<rparr>"

lemma sample_upload_runs:
  "validate_track_tx sample_upload sample_state = Inr ()"
  "event_metadata sample_upload = Inr sample_metadata"
  "\<exists>r. new_track sample_env sample_upload = Inr r"
  "dict_sub sample_metadata ''title'' = Inr (PStr ''Demo'')"
  "sanitize_slug sample_env ''Demo'' (p_entity_id sample_upload) 0 \<noteq> []"
proof -
  have "case new_track sample_env sample_upload of Inl _ \<Rightarrow> False | Inr _ \<Rightarrow> True" by code_simp
  then show "\<exists>r. new_track sample_env sample_upload = Inr r"
    by (cases "new_track sample_env sample_upload") simp_all
qed (code_simp)+

lemma create_track_orphan_route_witness:
  "\<exists>s' rt. create_track sample_env sample_upload (sample_state\<lparr>es_db := (\<lambda>t. [])\<rparr>) = (Inl TypeError, s') \<and>
     es_new s' = [] \<and> filter (current_of 2000002) (rt_table (es_track_routes s')) = [rt]"
proof -
  obtain r where r: "new_track sample_env sample_upload = Inr r" using sample_upload_runs(3) by blast
  have "validate_track_tx sample_upload (sample_state\<lparr>es_db := (\<lambda>t. [])\<rparr>) = Inr ()" by code_simp
  from create_track_orphan_route [OF this sample_upload_runs(2) r sample_upload_runs(4) _ _ sample_upload_runs(5)]
  show ?thesis
    by (simp add: sample_state_def no_routes_def routes_ok_def sample_upload_def sample_params_def)
qed

lemma keeps_track_side_tables:
  "keeps (\<lambda>s. es_bus s = q \<and> es_track_routes s = R) (update_stems_table r md)"
  "keeps (\<lambda>s. es_bus s = q \<and> es_track_routes s = R) (update_remixes_table r md)"
  unfolding update_stems_table_def update_remixes_table_def Let_def
  by (auto split: option.split pyval.split intro!: keeps_rules keeps_modify)

text \<open>C29: A track creation that succeeds was signed for its owner and took a free id above the offset.
  Afterwards the last record of the id belongs to that user, exactly one route of the track is current and
  carries the slug of its title, and one upload event is on the bus.\<close>

theorem create_track_effect:
  assumes run: "create_track e p s = (Inr (), s')" and action: "p_action p = ''Create''"
    and ok: "routes_ok (es_track_routes s)" and md: "event_metadata p = Inr md"
    and t: "dict_sub md ''title'' = Inr (PStr t)" and ts: "sanitize_slug e t (p_entity_id p) 0 \<noteq> []"
  shows "\<exists>r rt. user_authorised p s \<and> TRACK_ID_OFFSET \<le> p_entity_id p \<and>
    existing_at (es_existing s) ''Track'' (KId (p_entity_id p)) = None \<and>
    last_record s' ''Track'' (p_entity_id p) = Some r \<and>
    attr r ''track_id'' = PInt (p_entity_id p) \<and> attr r ''owner_id'' = PInt (p_user_id p) \<and>
    filter (current_of (p_entity_id p)) (rt_table (es_track_routes s')) = [rt] \<and>
    route_title_slug rt = sanitize_slug e t (p_entity_id p) 0 \<and>
    es_bus s' = dispatch (PStr track_upload) (PInt (p_block_number p)) (PInt (p_user_id p)) PNone (es_bus s)"
proof -
  have v: "validate_track_tx p s = Inr ()" and body: "create_track_body e p s = (Inr (), s')"
    using sq_check_Inr [OF run [unfolded create_track_def]] by simp_all
  obtain r0 where r0: "new_track e p = Inr r0"
    and run1: "sq (update_track_routes_table e r0 md) (
       bnd (bnd (gets (update_track_record e p r0 md)) lift_res) (\<lambda>r.
       sq (update_stems_table r md) (sq (update_remixes_table r md) (
       sq (dispatch_challenge_track_upload p r) (add_track_record (p_entity_id p) r))))) s = (Inr (), s')"
    using body md unfolding create_track_body_def by (auto dest!: bnd_lift_Inr)
  obtain s1 rt where s1: "update_track_routes_table e r0 md s = (Inr (), s1)"
      "s1 = s\<lparr>es_track_routes := es_track_routes s1\<rparr>"
      "filter (current_of (p_entity_id p)) (rt_table (es_track_routes s1)) = [rt]"
      "route_title_slug rt = sanitize_slug e t (p_entity_id p) 0"
    using new_track_route [OF r0 t ok ts] by blast
  have bus1: "es_bus s1 = es_bus s" by (subst s1(2)) simp
  obtain r s2 s3 s4 where r: "update_track_record e p r0 md s1 = Inr r"
    and s2: "update_stems_table r md s1 = (Inr (), s2)"
    and s3: "update_remixes_table r md s2 = (Inr (), s3)"
    and s4: "dispatch_challenge_track_upload p r s3 = (Inr (), s4)"
    and add: "add_track_record (p_entity_id p) r s4 = (Inr (), s')"
    using run1 s1(1) by (auto dest!: sq_unit_Inr bnd_gets_lift_Inr)
  have agr: "agrees (guarded ''Track'') r0 r" using r by (rule protects_update_track_record)
  have ids: "attr r ''track_id'' = PInt (p_entity_id p)" "attr r ''owner_id'' = PInt (p_user_id p)"
    using agr new_track_attrs [OF r0]
    by (auto simp: agrees_def guarded_def stored_plain text_columns_def)
  have side: "es_bus s3 = es_bus s" "es_track_routes s3 = es_track_routes s1"
    using keepsD [OF keeps_track_side_tables(1) [of "es_bus s1" "es_track_routes s1" r md], of s1]
      keepsD [OF keeps_track_side_tables(2) [of "es_bus s1" "es_track_routes s1" r md], of s2] s2 s3 bus1
    by simp_all
  have s4': "s4 = s3\<lparr>es_bus := dispatch (PStr track_upload) (PInt (p_block_number p)) (PInt (p_user_id p))
      PNone (es_bus s3)\<rparr>"
    using s4 by (simp add: dispatch_challenge_track_upload_def bus_dispatch_def modify_def ids)
  obtain u w where s': "s' = s4\<lparr>es_new := u, es_existing := w\<rparr>"
    using add_track_effect(3) [OF add] by blast
  have "es_bus s' = dispatch (PStr track_upload) (PInt (p_block_number p)) (PInt (p_user_id p)) PNone (es_bus s)"
    and "es_track_routes s' = es_track_routes s1"
    using side by (simp_all add: s' s4')
  moreover have "TRACK_ID_OFFSET \<le> p_entity_id p"
      "existing_at (es_existing s) ''Track'' (KId (p_entity_id p)) = None"
    using v action by (auto simp: validate_track_tx_def bind_res_Inr od_has_def existing_of_at)
  ultimately show ?thesis
    using validate_track_tx_signer [OF v] add_track_effect(1) [OF add] ids s1(3,4) by auto
qed

lemma create_track_effect_witness:
  "\<exists>s' r. create_track sample_env sample_upload sample_state = (Inr (), s') \<and>
     last_record s' ''Track'' 2000002 = Some r \<and> attr r ''owner_id'' = PInt 3000001"
proof -
  have "fst (create_track sample_env sample_upload sample_state) = Inr ()" by code_simp
  then obtain s' where s': "create_track sample_env sample_upload sample_state = (Inr (), s')"
    by (cases "create_track sample_env sample_upload sample_state") auto
  have ids: "p_entity_id sample_upload = 2000002" "p_user_id sample_upload = 3000001"
      "p_action sample_upload = ''Create''"
    by (simp_all add: sample_upload_def sample_params_def)
  have "routes_ok (es_track_routes sample_state)"
    by (simp add: sample_state_def no_routes_def routes_ok_def)
  from create_track_effect [OF s' ids(3) this sample_upload_runs(2,4,5)] show ?thesis
    unfolding ids using s' by auto
qed

section \<open>The contents of a playlist\<close>

text \<open>
  The specification of the index times: an entry keeps the time at which a track with the same id and the
  same time of its owner was indexed before (the last such entry), and gets the time of the block otherwise.
\<close>

definition entry_key :: "string \<Rightarrow> pyval \<Rightarrow> (pyval \<times> pyval) result" where
  "entry_key time_field t =
     bind_res (bind_res (subscript t ''track'') hash_key) (\<lambda>k.
     bind_res (bind_res (subscript t time_field) hash_key) (\<lambda>m. Inr (k, m)))"

definition indexed_before :: "pyval list \<Rightarrow> pyval \<Rightarrow> pyval list" where
  "indexed_before old t =
     filter (\<lambda>o'. \<exists>km. entry_key ''metadata_time'' o' = Inr km \<and> entry_key ''time'' t = Inr km) old"

definition index_time :: "int \<Rightarrow> pyval list \<Rightarrow> pyval \<Rightarrow> pyval result" where
  "index_time now old t =
     (if indexed_before old t = [] then Inr (PInt now) else subscript (last (indexed_before old t)) ''time'')"

definition reindexed :: "int \<Rightarrow> pyval list \<Rightarrow> pyval \<Rightarrow> pyval \<Rightarrow> bool" where
  "reindexed now old t u \<longleftrightarrow>
     subscript u ''track'' = subscript t ''track'' \<and> subscript u ''metadata_time'' = subscript t ''time'' \<and>
     subscript u ''time'' = index_time now old t"

lemma content_entry_fields:
  "subscript (content_entry k time m) ''track'' = Inr k"
  "subscript (content_entry k time m) ''metadata_time'' = Inr m"
  "subscript (content_entry k time m) ''time'' = Inr time"
  by (simp_all add: content_entry_def subscript_def)

lemma map_res_list_all2:
  "map_res f xs = Inr ys \<Longrightarrow> (\<And>x y. x \<in> set xs \<Longrightarrow> f x = Inr y \<Longrightarrow> P x y) \<Longrightarrow> list_all2 P xs ys"
  by (induction xs arbitrary: ys) (auto split: sum.splits)

lemma note_index_time_Inr:
  assumes "note_index_time t d = Inr d'"
  shows "\<exists>km time. entry_key ''metadata_time'' t = Inr km \<and> subscript t ''time'' = Inr time \<and>
    d' = od_set d km time"
  using assms by (auto simp: note_index_time_def entry_key_def bind_res_Inr)

lemma index_times_lookup:
  assumes "fold_res note_index_time old d0 = Inr d"
    and "xs = filter (\<lambda>o'. entry_key ''metadata_time'' o' = Inr km) old"
  shows "if xs = [] then od_get d km = od_get d0 km
    else \<exists>v. subscript (last xs) ''time'' = Inr v \<and> od_get d km = Some v"
  using assms
proof (induction old arbitrary: d0 xs)
  case (Cons t old)
  obtain d1 where d1: "note_index_time t d0 = Inr d1" and rest: "fold_res note_index_time old d1 = Inr d"
    using Cons.prems(1) by (auto split: sum.splits)
  from d1 obtain km1 time where t: "entry_key ''metadata_time'' t = Inr km1"
      "subscript t ''time'' = Inr time" "d1 = od_set d0 km1 time"
    by (blast dest: note_index_time_Inr)
  show ?case
    using Cons.IH [OF rest refl] t Cons.prems(2) by (auto split: if_splits)
qed simp

lemma reindex_track_spec:
  assumes d: "fold_res note_index_time old [] = Inr d" and u: "reindex_track now d t = Inr u"
  shows "reindexed now old t u"
proof -
  obtain track mtime k where t: "subscript t ''track'' = Inr track" "subscript t ''time'' = Inr mtime"
      "hash_key track = Inr k"
    using u by (auto simp: reindex_track_def bind_res_Inr)
  show ?thesis
  proof (cases "hash_key mtime")
    case (Inr m)
    have "entry_key ''time'' t = Inr (k, m)" using t Inr by (simp add: entry_key_def)
    then have before: "indexed_before old t = filter (\<lambda>o'. entry_key ''metadata_time'' o' = Inr (k, m)) old"
      by (auto simp: indexed_before_def intro: filter_cong)
    have get: "if indexed_before old t = [] then od_get d (k, m) = None
        else \<exists>v. subscript (last (indexed_before old t)) ''time'' = Inr v \<and> od_get d (k, m) = Some v"
      using index_times_lookup [OF d before] by simp
    have "k \<in> fst ` set (od_keys d)" if "od_get d (k, m) \<noteq> None"
      using that od_get_None_iff [of d "(k, m)"] by force
    then have "u = content_entry track (od_default d (k, m) (PInt now)) mtime"
      using u t Inr by (auto simp: reindex_track_def od_default_def split: if_splits option.splits)
    then show ?thesis
      using get by (auto simp: reindexed_def index_time_def content_entry_fields t od_default_def
          split: if_splits)
  next
    case (Inl x)
    then have "u = content_entry track (PInt now) mtime"
      using u t by (auto simp: reindex_track_def split: if_splits)
    moreover have "indexed_before old t = []"
      using Inl t by (simp add: indexed_before_def entry_key_def)
    ultimately show ?thesis by (simp add: reindexed_def index_time_def content_entry_fields t)
  qed
qed

text \<open>Updating a playlist keeps its order and its history: the new contents list exactly the tracks the
  owner sent, in the order sent, each with the time the owner gave it; an entry that was there before keeps
  the time at which it was indexed, a new one gets the time of the block.\<close>

theorem playlist_contents_reindexed:
  assumes run: "process_playlist_contents r md now = Inr v"
    and meta: "truthy (attr r ''metadata_multihash'') = Inr True"
    and old: "contents_tracks (attr r ''playlist_contents'') = Inr old"
    and c: "dict_sub md ''playlist_contents'' = Inr c" and new: "contents_tracks c = Inr new"
  shows "\<exists>updated. v = PDict [(''track_ids'', PList updated)] \<and>
    list_all2 (reindexed now old) new updated"
proof -
  obtain d updated where d: "fold_res note_index_time old [] = Inr d"
      "map_res (reindex_track now d) new = Inr updated" "v = PDict [(''track_ids'', PList updated)]"
    using run unfolding process_playlist_contents_def meta old c new
    by (auto simp: bind_res_Inr new)
  then show ?thesis by (blast intro: map_res_list_all2 reindex_track_spec)
qed

definition old_entry :: "int \<Rightarrow> int \<Rightarrow> int \<Rightarrow> pyval" where
  "old_entry track mtime time = content_entry (PInt track) (PInt time) (PInt mtime)"

definition sent_entry :: "int \<Rightarrow> int \<Rightarrow> pyval" where
  "sent_entry track time = PDict [(''track'', PInt track), (''time'', PInt time)]"

definition sample_playlist :: inst where
  "sample_playlist = row_of ''Playlist'' [(''metadata_multihash'', PStr ''Qm''),
     (''playlist_contents'', PDict [(''track_ids'', PList [old_entry 1 10 50, old_entry 2 20 60])])]"

definition sent_metadata :: pydict where
  "sent_metadata = [(''playlist_contents'', PDict [(''track_ids'', PList [sent_entry 2 20, sent_entry 3 90])])]"

lemma playlist_contents_reindexed_witness:
  "\<exists>updated. process_playlist_contents sample_playlist sent_metadata 100
       = Inr (PDict [(''track_ids'', PList updated)]) \<and>
     list_all2 (reindexed 100 [old_entry 1 10 50, old_entry 2 20 60]) [sent_entry 2 20, sent_entry 3 90] updated \<and>
     map (\<lambda>u. subscript u ''time'') updated = [Inr (PInt 60), Inr (PInt 100)]"
proof -
  have run: "process_playlist_contents sample_playlist sent_metadata 100 = Inr (PDict [(''track_ids'',
      PList [content_entry (PInt 2) (PInt 60) (PInt 20), content_entry (PInt 3) (PInt 100) (PInt 90)])])"
    by code_simp
  have "truthy (attr sample_playlist ''metadata_multihash'') = Inr True"
    and "contents_tracks (attr sample_playlist ''playlist_contents'') = Inr [old_entry 1 10 50, old_entry 2 20 60]"
    and "dict_sub sent_metadata ''playlist_contents''
      = Inr (PDict [(''track_ids'', PList [sent_entry 2 20, sent_entry 3 90])])"
    and "contents_tracks (PDict [(''track_ids'', PList [sent_entry 2 20, sent_entry 3 90])])
      = Inr [sent_entry 2 20, sent_entry 3 90]"
    by code_simp+
  from playlist_contents_reindexed [OF run this] show ?thesis
    by (auto simp: run content_entry_fields)
qed

definition entry_time :: "pyval \<Rightarrow> int" where
  "entry_time t = (case subscript t ''time'' of Inr v \<Rightarrow> as_int v | Inl _ \<Rightarrow> 0)"

lemma later_time_Inr:
  assumes "later_time t best = Inr b"
  shows "\<exists>w. subscript t ''time'' = Inr w \<and> is_int w \<and> is_int best \<and>
    b = (if as_int best < as_int w then w else best)"
  using assms by (auto simp: later_time_def py_less_def bind_res_Inr split: if_splits)

lemma fold_later_time:
  assumes "fold_res later_time ts best = Inr v" and "is_int best"
  shows "is_int v \<and> as_int best \<le> as_int v \<and> (\<forall>t \<in> set ts. entry_time t \<le> as_int v) \<and>
    (v = best \<or> (\<exists>t \<in> set ts. subscript t ''time'' = Inr v))"
  using assms
proof (induction ts arbitrary: best)
  case (Cons t ts)
  obtain w where w: "subscript t ''time'' = Inr w" "is_int w"
    and rest: "fold_res later_time ts (if as_int best < as_int w then w else best) = Inr v"
    using Cons.prems(1) by (auto split: sum.splits dest!: later_time_Inr)
  have "is_int (if as_int best < as_int w then w else best)" using w Cons.prems(2) by simp
  from Cons.IH [OF rest this] w show ?case by (auto simp: entry_time_def split: if_splits)
qed simp

text \<open>The time a playlist was last added to is the latest index time of its entries: no entry is later and
  one entry has exactly that time; an empty playlist has none.\<close>

theorem last_added_to_latest:
  assumes "last_added_to ts = Inr v" and "ts \<noteq> []"
  shows "\<exists>n. v = PTime n \<and> (\<forall>t \<in> set ts. entry_time t \<le> n) \<and> (\<exists>t \<in> set ts. entry_time t = n)"
proof -
  obtain t ts' first w where ts: "ts = t # ts'" "subscript t ''time'' = Inr first"
    and w: "fold_res later_time ts first = Inr w" "utcfromtimestamp w = Inr v"
    using assms by (cases ts) (auto simp: last_added_to_def bind_res_Inr)
  have "is_int first"
    using w(1) ts by (auto split: sum.splits dest!: later_time_Inr)
  from fold_later_time [OF w(1) this] have "\<forall>t \<in> set ts. entry_time t \<le> as_int w"
      "w = first \<or> (\<exists>t \<in> set ts. subscript t ''time'' = Inr w)" by blast+
  moreover from this have "\<exists>t \<in> set ts. entry_time t = as_int w"
    using ts by (fastforce simp: entry_time_def)
  moreover have "v = PTime (as_int w)"
    using w(2) by (auto simp: utcfromtimestamp_def split: if_splits)
  ultimately show ?thesis by blast
qed

lemma last_added_to_latest_witness:
  "\<exists>n. last_added_to [sent_entry 1 5, sent_entry 2 9, sent_entry 3 7] = Inr (PTime n) \<and> n = 9"
proof -
  have run: "last_added_to [sent_entry 1 5, sent_entry 2 9, sent_entry 3 7] = Inr (PTime 9)" by code_simp
  from last_added_to_latest [OF this] show ?thesis using run by auto
qed

end
