(* ===== verification/EM_Account_Properties.thy ===== *)
theory EM_Account_Properties
  imports EM_Properties
begin

text \<open>
  Accounts: who may move a user to other content nodes, what a user's events and wallets keep,
  and which actions are reserved to configured addresses.
\<close>

section \<open>Replica sets\<close>

text \<open>How a client writes the ids of content nodes.\<close>

definition show_sp_ids :: "int list \<Rightarrow> string" where
  "show_sp_ids ns = str_join [CHR '',''] (map show_int ns)"

definition show_sp_update :: "int list \<Rightarrow> int list \<Rightarrow> string" where
  "show_sp_update current updated = show_sp_ids current @ CHR '':'' # show_sp_ids updated"

lemma show_int_nonneg: "0 \<le> n \<Longrightarrow> show_int n = show_nat (nat n)"
  by (simp add: show_int_def)

lemma not_in_show_nat: "code_point c < 48 \<or> 57 < code_point c \<Longrightarrow> c \<notin> set (show_nat n)"
  by (auto dest: show_nat_digits)

lemma parse_show_sp_ids:
  assumes "3 \<le> length ns" and "\<forall>n \<in> set ns. 0 \<le> n"
  shows "parse_sp_ids (show_sp_ids ns) = Inr ns"
proof -
  have "str_split (CHR '','') (show_sp_ids ns) = map show_int ns"
    unfolding show_sp_ids_def
    using assms by (intro str_split_join) (auto simp: show_int_nonneg not_in_show_nat code_point_def)
  moreover have "list_all str_isdigit (map show_int ns)"
    using assms(2) by (simp add: list_all_iff show_int_nonneg)
  moreover have "map_res read_int (map show_int ns) = Inr ns"
    using map_res_Inr [of ns "read_int \<circ> show_int" "\<lambda>n. n"] by (simp add: map_res_map read_show_int)
  ultimately show ?thesis using assms(1) by (simp add: parse_sp_ids_def)
qed

lemma colon_not_in_show_sp_ids:
  assumes "\<forall>n \<in> set ns. 0 \<le> n"
  shows "CHR '':'' \<notin> set (show_sp_ids ns)"
proof -
  have "CHR '':'' \<notin> set (str_join [CHR '',''] ws)" if "\<forall>w \<in> set ws. CHR '':'' \<notin> set w" for ws
    using that by (induction "[CHR '','']" ws rule: str_join.induct) auto
  moreover have "\<forall>w \<in> set (map show_int ns). CHR '':'' \<notin> set w"
    using assms by (auto simp: show_int_nonneg code_point_def dest: show_nat_digits)
  ultimately show ?thesis by (simp add: show_sp_ids_def)
qed

text \<open>The replica set a client sends is the one that is read: for lists of at least three node ids
  the text \<open>current:updated\<close> parses back to the two lists.\<close>

theorem parse_update_sp_id_roundtrip:
  assumes "3 \<le> length current" and "3 \<le> length updated"
    and "\<forall>n \<in> set current. 0 \<le> n" and "\<forall>n \<in> set updated. 0 \<le> n"
  shows "parse_update_sp_id (show_sp_update current updated) = Inr (current, updated)"
proof -
  have "str_split (CHR '':'') (show_sp_update current updated) = [show_sp_ids current, show_sp_ids updated]"
    unfolding show_sp_update_def
    using assms(3,4) by (simp add: str_split_append str_split_no_sep colon_not_in_show_sp_ids)
  then show ?thesis using assms by (simp add: parse_update_sp_id_def parse_show_sp_ids)
qed

lemma parse_update_sp_id_roundtrip_witness:
  "parse_update_sp_id (show_sp_update [1, 2, 3] [4, 15, 6]) = Inr ([1, 2, 3], [4, 15, 6]) \<and>
   show_sp_update [1, 2, 3] [4, 15, 6] = ''1,2,3:4,15,6''"
proof
  show "parse_update_sp_id (show_sp_update [1, 2, 3] [4, 15, 6]) = Inr ([1, 2, 3], [4, 15, 6])"
    by (rule parse_update_sp_id_roundtrip) simp_all
qed code_simp

text \<open>What the cache of node infos holds stays there.\<close>

definition node_info :: "em_state \<Rightarrow> pyval \<Rightarrow> sp_info \<Rightarrow> bool" where
  "node_info s n info \<longleftrightarrow> od_get (es_sp_cache s) (get_cn_sp_id_key n) = Some info"

lemma keeps_node_info: "keeps (\<lambda>s. node_info s n info) (fetch_node_info e m)"
  by (auto simp: keeps_def fetch_node_info_def node_info_def py_simps Let_def
      split: option.split sum.split prod.split)

lemma fetch_node_info_cached: "fetch_node_info e n s = (Inr info, s') \<Longrightarrow> node_info s' n info"
  by (auto simp: fetch_node_info_def node_info_def py_simps Let_def split: option.splits sum.splits)

lemma keeps_node_info_signer: "keeps (\<lambda>s. node_info s n info) (signer_is_replica e signer found ns)"
  by (induction ns arbitrary: found) (auto intro!: keeps_rules keeps_node_info)

lemma signer_is_replica_found:
  "signer_is_replica e signer found ns s = (Inr True, s') \<Longrightarrow>
   found \<or> (\<exists>n \<in> set ns. \<exists>info. node_info s' n info \<and> str_lower (delegator_wallet info) = str_lower signer)"
proof (induction ns arbitrary: found s)
  case (Cons n ns)
  then obtain info s1 where s1: "fetch_node_info e n s = (Inr info, s1)"
    and rest: "signer_is_replica e signer (found \<or> str_lower (delegator_wallet info) = str_lower signer) ns s1
      = (Inr True, s')"
    by (auto simp: bnd_Inr)
  have "node_info s' n info"
    using keepsD [OF keeps_node_info_signer fetch_node_info_cached [OF s1]] rest by (metis snd_conv)
  with Cons.IH [OF rest] show ?case by auto
qed (simp add: ret_def)

lemma keeps_node_info_registered: "keeps (\<lambda>s. node_info s n info) (for_each ns (check_registered e))"
  unfolding check_registered_def by (intro keeps_rules keeps_node_info)

lemma registered_nodes:
  "for_each ns (check_registered e) s = (Inr (), s') \<Longrightarrow>
   \<forall>n \<in> set ns. \<exists>info. node_info s' (PInt n) info \<and> endpoint info \<noteq> []"
proof (induction ns arbitrary: s)
  case (Cons n ns)
  obtain s1 where s1: "check_registered e n s = (Inr (), s1)"
    and rest: "for_each ns (check_registered e) s1 = (Inr (), s')"
    using Cons.prems by (auto simp: sq_Inr)
  obtain info where "node_info s1 (PInt n) info" "endpoint info \<noteq> []"
    using s1 by (auto simp: check_registered_def bnd_Inr run_Inr dest!: fetch_node_info_cached)
  moreover from this have "node_info s' (PInt n) info"
    using keepsD [OF keeps_node_info_registered] rest by (metis snd_conv)
  ultimately show ?case using Cons.IH [OF rest] by auto
qed simp

text \<open>C30: A replica set update that passes the validation comes from the wallet of the user or from the
  delegator wallet of one of the user's current nodes, names the current set correctly, and moves the user
  to at least three different nodes, all of them registered.\<close>

theorem replica_set_authorised:
  assumes run: "is_valid_user_replica_set_tx e p s = (Inr (), s')"
  shows "\<exists>user current updated.
    od_get (existing_of s ''User'') (KId (p_user_id p)) = Some user \<and>
    (wallet_accepts (attr user ''wallet'') (p_signer p) \<or>
      (\<exists>n \<in> set (user_sp_ids user). \<exists>info. node_info s' n info \<and>
         str_lower (delegator_wallet info) = str_lower (p_signer p))) \<and>
    parse_update_sp_id (p_metadata_cid p) = Inr (current, updated) \<and>
    PInt (hd current) = hd (user_sp_ids user) \<and> distinct updated \<and> 3 \<le> length updated \<and>
    (\<forall>n \<in> set updated. \<exists>info. node_info s' (PInt n) info \<and> endpoint info \<noteq> [])"
proof -
  obtain user where user: "od_get (existing_of s ''User'') (KId (p_user_id p)) = Some user"
    using run by (auto simp: is_valid_user_replica_set_tx_def py_simps split: option.splits)
  obtain mismatch s1 current updated where
    mm: "signer_mismatch (attr user ''wallet'') (p_signer p) = Inr mismatch"
    and s1: "(if mismatch
             then bnd (signer_is_replica e (p_signer p) False (remdups (user_sp_ids user))) (\<lambda>ok.
                  require ok (Raised ''Invalid tx signer''))
             else ret ()) s = (Inr (), s1)"
    and ids: "parse_update_sp_id (p_metadata_cid p) = Inr (current, updated)"
    and cur: "PInt (hd current) = hd (user_sp_ids user)" and dist: "distinct updated"
    and reg: "for_each updated (check_registered e) s1 = (Inr (), s')"
    using run user
    by (simp add: is_valid_user_replica_set_tx_def bnd_Inr sq_Inr run_Inr split_beta) fastforce
  have "wallet_accepts (attr user ''wallet'') (p_signer p) \<or>
      (\<exists>n \<in> set (user_sp_ids user). \<exists>info. node_info s1 n info \<and>
         str_lower (delegator_wallet info) = str_lower (p_signer p))"
  proof (cases mismatch)
    case True
    then have "signer_is_replica e (p_signer p) False (remdups (user_sp_ids user)) s = (Inr True, s1)"
      using s1 by (auto simp: bnd_Inr run_Inr)
    then show ?thesis by (auto dest: signer_is_replica_found)
  next
    case False
    then show ?thesis using mm by (simp add: signer_mismatch_False)
  qed
  moreover have "node_info s' n info" if "node_info s1 n info" for n info
    using keepsD [OF keeps_node_info_registered that] reg by (metis snd_conv)
  moreover have "3 \<le> length updated"
  proof -
    have len: "map_res f xs = Inr ys \<Longrightarrow> length ys = length xs" for f :: "string \<Rightarrow> int result" and xs ys
      by (induction xs arbitrary: ys) (auto split: sum.splits)
    show ?thesis
      using ids by (auto simp: parse_update_sp_id_def parse_sp_ids_def bind_res_Inr Let_def dest!: len)
  qed
  ultimately show ?thesis using user ids cur dist registered_nodes [OF reg] by blast
qed

definition replica_params :: em_params where
  "replica_params = (sample_params ''Update'' ''UserReplicaSet'' 3000001)
     \<lparr>p_metadata_cid := ''1,2,3:1,4,3'', p_signer := ''0xDEL2''\<rparr>"

lemma replica_set_authorised_witness:
  "\<exists>s' info n. is_valid_user_replica_set_tx sample_env replica_params sample_state = (Inr (), s') \<and>
     n \<in> set (user_sp_ids sample_user) \<and> node_info s' n info \<and>
     str_lower (delegator_wallet info) = str_lower (p_signer replica_params)"
proof -
  have "fst (is_valid_user_replica_set_tx sample_env replica_params sample_state) = Inr ()" by code_simp
  then obtain s' where s': "is_valid_user_replica_set_tx sample_env replica_params sample_state = (Inr (), s')"
    by (cases "is_valid_user_replica_set_tx sample_env replica_params sample_state") auto
  have u: "od_get (existing_of sample_state ''User'') (KId (p_user_id replica_params)) = Some sample_user"
    by (simp add: existing_of_def od_default_def sample_state_def replica_params_def sample_params_def)
  have "attr sample_user ''wallet'' = PStr ''0xabc''" by (simp add: sample_user_def row_of_def)
  moreover have "str_lower ''0xabc'' \<noteq> str_lower (p_signer replica_params)" by code_simp
  ultimately have "\<not> wallet_accepts (attr sample_user ''wallet'') (p_signer replica_params)"
    by (simp add: wallet_accepts_def)
  with replica_set_authorised [OF s'] u s' show ?thesis by auto
qed

section \<open>User events and wallets\<close>

text \<open>What a run over the events may make of a referrer and a mobile flag.\<close>

definition events_grow :: "int \<Rightarrow> int option \<times> bool \<Rightarrow> int option \<times> bool \<Rightarrow> bool" where
  "events_grow u before after \<longleftrightarrow>
     (fst before \<noteq> None \<longrightarrow> fst after = fst before) \<and>
     (snd before \<longrightarrow> snd after) \<and>
     (fst after = Some u \<longrightarrow> fst before = Some u)"

lemma events_grow_trans: "events_grow u a b \<Longrightarrow> events_grow u b c \<Longrightarrow> events_grow u a c"
  unfolding events_grow_def by metis

lemma gives_apply_user_event:
  "gives (\<lambda>s. es_user_events s = E) (apply_user_event u b kv rm) (events_grow u rm)"
proof -
  obtain ev v ref mob where kv: "kv = (ev, v)" and rm: "rm = (ref, mob)" by (cases kv, cases rm) auto
  have bus: "keeps (\<lambda>s. es_user_events s = E) (bus_dispatch x y z w)" for x y z w
    unfolding bus_dispatch_def by (rule keeps_modify) simp
  show ?thesis
    unfolding kv rm apply_user_event_def prod.case
    by (intro gives_if gives_sq [OF keeps_gives] gives_ret bus keeps_run_when)
      (auto simp: events_grow_def)
qed

lemma gives_apply_user_events:
  "gives (\<lambda>s. es_user_events s = E) (apply_user_events u b kvs rm) (events_grow u rm)"
proof (induction kvs arbitrary: rm)
  case Nil
  then show ?case by (simp add: gives_ret events_grow_def)
next
  case (Cons kv kvs)
  show ?case
    unfolding apply_user_events.simps
    by (rule gives_bnd [OF gives_apply_user_event])
      (auto intro: gives_conseq [OF Cons] events_grow_trans)
qed

lemma one_or_none_current:
  assumes "events_ok evs" and "ev \<in> set evs" and "current_event_of u ev"
  shows "one_or_none (filter (current_event_of u) evs) = Inr (Some ev)"
  using assms by (simp add: events_ok_def filter_single one_or_none_def)

text \<open>What a user's events recorded once is never lost: the referrer of the user's current row is set at most
  once and a mobile install is not taken back, whatever events a later update brings, and no update
  makes users their own referrer.\<close>

theorem user_events_set_once:
  assumes ok: "events_ok (es_user_events s)" and ev: "ev \<in> set (es_user_events s)" "current_event_of u ev"
    and u: "attr r ''user_id'' = PInt u"
  shows "\<exists>ev' \<in> set (es_user_events (snd (update_user_events r v s))). current_event_of u ev' \<and>
    events_grow u (ue_referrer ev, ue_is_mobile_user ev) (ue_referrer ev', ue_is_mobile_user ev')"
proof -
  let ?grow = "events_grow u (ue_referrer ev, ue_is_mobile_user ev)"
  let ?J = "\<lambda>s. \<exists>ev' \<in> set (es_user_events s). current_event_of u ev' \<and> ?grow (ue_referrer ev', ue_is_mobile_user ev')"
  let ?I = "\<lambda>t. es_user_events t = es_user_events s"
  have IJ: "?J t" if "?I t" for t
    using that ev by (auto simp: events_grow_def intro!: bexI [of _ ev])
  have add: "leads ?I (modify (\<lambda>t. t\<lparr>es_user_events := retire_events u (es_user_events t) @
        [\<lparr>ue_user_id = u, ue_is_current = True, ue_blocknumber = bn, ue_blockhash = bh,
          ue_referrer = ref, ue_is_mobile_user = mob\<rparr>]\<rparr>)) ?J"
    if "?grow (ref, mob)" for ref mob bn bh
    using that by (auto simp: leads_def modify_def current_event_of_def)
  have one: "one_or_none (filter (current_event_of u) (es_user_events t)) = Inr (Some ev)" if "?I t" for t
    using one_or_none_current [OF ok ev] that by simp
  have uid: "int_attr r ''user_id'' = u" by (simp add: int_attr_def u as_int_def)
  have "leads ?I (update_user_events r v) ?J"
  proof (cases "\<exists>evs. v = PDict evs")
    case True
    then obtain evs where v: "v = PDict evs" by blast
    show ?thesis
      unfolding update_user_events_def v pyval.case uid Let_def
    proof (intro leads_swallow leads_lift leads_if leads_gets_lift IJ)
      fix t existing
      assume "?I t" and "one_or_none (filter (current_event_of u) (es_user_events t)) = Inr existing"
      then have ex: "existing = Some ev" using one [OF refl] by simp
      show "leads ?I
          (bnd (apply_user_events u (attr r ''blocknumber'') evs
             (case existing of None \<Rightarrow> None | Some ev \<Rightarrow> ue_referrer ev,
              case existing of None \<Rightarrow> False | Some ev \<Rightarrow> ue_is_mobile_user ev))
            (\<lambda>(referrer, mobile).
              run_when (existing = None \<or>
                  mobile \<noteq> (case existing of None \<Rightarrow> False | Some ev \<Rightarrow> ue_is_mobile_user ev) \<or>
                  referrer \<noteq> (case existing of None \<Rightarrow> None | Some ev \<Rightarrow> ue_referrer ev))
                (modify (\<lambda>s. s\<lparr>es_user_events := retire_events u (es_user_events s) @
                   [\<lparr>ue_user_id = u, ue_is_current = True, ue_blocknumber = attr r ''blocknumber'',
                     ue_blockhash = attr r ''blockhash'', ue_referrer = referrer,
                     ue_is_mobile_user = mobile\<rparr>]\<rparr>)))) ?J"
        unfolding ex option.case
        by (rule leads_bnd [OF gives_apply_user_events IJ])
          (auto split: prod.split intro!: leads_run_when IJ add)
    qed (auto intro: leads_keeps keeps_ret IJ)
  next
    case False
    then have "update_user_events r v = swallow (bnd (lift_res (truthy (attr r ''blocknumber''))) (\<lambda>_. ret ()))"
      by (cases v) (simp_all add: update_user_events_def)
    then show ?thesis by (auto intro!: leads_keeps keeps_rules IJ)
  qed
  then show ?thesis by (rule leadsD) simp
qed

definition referred_event :: user_event where
  "referred_event = \<lparr>ue_user_id = 3000001, ue_is_current = True, ue_blocknumber = PInt 1,
     ue_blockhash = PStr ''0xb'', ue_referrer = Some 5, ue_is_mobile_user = False\<rparr>"

definition new_events :: pyval where
  "new_events = PDict [(''referrer'', PInt 9), (''is_mobile_user'', PBool True)]"

lemma user_events_set_once_witness:
  "\<exists>ev' \<in> set (es_user_events (snd (update_user_events sample_user new_events
       (sample_state\<lparr>es_user_events := [referred_event]\<rparr>)))).
     ue_is_current ev' \<and> ue_referrer ev' = Some 5"
proof -
  let ?s = "sample_state\<lparr>es_user_events := [referred_event]\<rparr>"
  have "events_ok (es_user_events ?s)" by (simp add: events_ok_def)
  moreover have "referred_event \<in> set (es_user_events ?s)" by simp
  moreover have "current_event_of 3000001 referred_event"
    by (simp add: current_event_of_def referred_event_def)
  moreover have "attr sample_user ''user_id'' = PInt 3000001" by (simp add: sample_user_def row_of_def)
  ultimately obtain ev' where "ev' \<in> set (es_user_events (snd (update_user_events sample_user new_events ?s)))"
      "current_event_of 3000001 ev'"
      "events_grow 3000001 (ue_referrer referred_event, ue_is_mobile_user referred_event)
        (ue_referrer ev', ue_is_mobile_user ev')"
    using user_events_set_once [of ?s referred_event 3000001 sample_user new_events] by blast
  then show ?thesis
    by (intro bexI [of _ ev']) (auto simp: events_grow_def current_event_of_def referred_event_def)
qed

text \<open>C36: A wallet of a chain is live for at most one user, and a user has at most one current event row:
  both survive every block.\<close>

theorem block_accounts_ok:
  assumes "events_ok (es_user_events s)" and "wallets_ok (es_wallets s)"
  shows "events_ok (es_user_events (snd (entity_manager_update e b txs s))) \<and>
    wallets_ok (es_wallets (snd (entity_manager_update e b txs s)))"
proof (cases "txs = []")
  case True
  then show ?thesis using assms by (simp add: entity_manager_update_def ret_def)
next
  case False
  have "events_ok (es_user_events (snd (process_txs e b txs (start_block B s)))) \<and>
      wallets_ok (es_wallets (snd (process_txs e b txs (start_block B s))))" for B
    by (rule keepsD [OF accounts_frame.keeps_process_txs]) (simp add: start_block_def assms)
  then show ?thesis
    using entity_manager_update_cases [OF False, of b e s] assms by (auto simp: save_block_def)
qed

lemma block_accounts_ok_witness:
  "events_ok (es_user_events (snd (entity_manager_update sample_env sample_block [sample_delete_tx]
     (sample_state\<lparr>es_user_events := [referred_event]\<rparr>)))) \<and>
   wallets_ok (es_wallets (snd (entity_manager_update sample_env sample_block [sample_delete_tx]
     (sample_state\<lparr>es_user_events := [referred_event]\<rparr>))))"
  by (rule block_accounts_ok) (simp_all add: events_ok_def wallets_ok_def sample_state_def)

section \<open>Who may do what\<close>

text \<open>Verifying a user and announcing a notification are reserved to the configured addresses: such an
  event with any other signer changes nothing.\<close>

theorem privileged_event_ignored:
  assumes "p_action p = ''Verify'' \<and> p_entity_type p = ''User'' \<and>
      \<not> address_matches (verified_address e) (p_signer p) \<or>
    p_action p = ''Create'' \<and> p_entity_type p = ''Notification'' \<and>
      \<not> address_matches (notification_creator_addr e) (p_signer p)"
  shows "process_event e p s = (Inr (), s)"
proof -
  have "\<exists>x. handle_event e p s = (Inl x, s)"
    using assms
  proof
    assume v: "p_action p = ''Verify'' \<and> p_entity_type p = ''User'' \<and>
      \<not> address_matches (verified_address e) (p_signer p)"
    then have "handle_event e p s = verify_user e p s"
      by (simp add: handle_event_def Let_def create_social_action_types_def delete_social_action_types_def
          ENABLE_DEVELOPMENT_FEATURES_def)
    moreover have "\<exists>x. validate_user_tx e p s = Inl x"
      using v by (simp add: validate_user_tx_def get_verifier_address_def)
    ultimately show ?thesis by (auto simp: verify_user_def check_def py_simps)
  next
    assume v: "p_action p = ''Create'' \<and> p_entity_type p = ''Notification'' \<and>
      \<not> address_matches (notification_creator_addr e) (p_signer p)"
    then have "handle_event e p s = create_notification e p s"
      by (simp add: handle_event_def Let_def create_social_action_types_def delete_social_action_types_def
          ENABLE_DEVELOPMENT_FEATURES_def)
    moreover have "\<exists>x. validate_notification_tx e p s = Inl x"
      using v by (simp add: validate_notification_tx_def get_notification_creator_def)
    ultimately show ?thesis by (auto simp: create_notification_def check_def py_simps)
  qed
  then show ?thesis by (auto simp: process_event_def swallow_def)
qed

lemma privileged_event_ignored_witness:
  "process_event sample_env (sample_params ''Verify'' ''User'' 3000001) sample_state = (Inr (), sample_state)"
proof (rule privileged_event_ignored, rule disjI1)
  have "\<not> address_matches (Some ''0xVer'') ''0xABC''" by code_simp
  then show "p_action (sample_params ''Verify'' ''User'' 3000001) = ''Verify'' \<and>
      p_entity_type (sample_params ''Verify'' ''User'' 3000001) = ''User'' \<and>
      \<not> address_matches (verified_address sample_env) (p_signer (sample_params ''Verify'' ''User'' 3000001))"
    by (simp add: sample_params_def sample_env_def)
qed

definition other_user :: inst where
  "other_user = row_of ''User''
     [(''user_id'', PInt 3000002), (''is_current'', PBool True), (''wallet'', PStr ''0xdef''),
      (''handle'', PStr ''Bob''), (''handle_lc'', PStr ''bob''), (''name'', PStr ''Bob''),
      (''txhash'', PStr ''0x1''), (''blocknumber'', PInt 1)]"

definition two_users :: em_state where
  "two_users = sample_state\<lparr>es_existing := [(''User'', [(KId 3000001, sample_user), (KId 3000002, other_user)])]\<rparr>"

definition foreign_update :: em_params where
  "foreign_update = (sample_params ''Update'' ''User'' 3000002)
     \<lparr>p_metadata_cid := ''Qm'', p_metadata := [(''Qm'', [(''name'', PStr ''Mallory'')])]\<rparr>"

text \<open>The update of a user checks the wallet of the user who sends it and writes the record of the entity
  it names: an event signed only by the first user renames the second.\<close>

theorem update_user_foreign_record:
  "fst (update_user sample_env foreign_update two_users) = Inr () \<and>
   p_user_id foreign_update = 3000001 \<and>
   map (\<lambda>kv. attr (snd kv) ''name'') (existing_of (snd (update_user sample_env foreign_update two_users)) ''User'')
     = [PNone, PStr ''Mallory'']"
  by code_simp

end
