(* ===== verification/Challenges.thy ===== *)
theory Challenges
  imports Models Event_Bus
begin

text \<open>
  challenges/challenge.py: the manager that all reward challenges share.  A batch of events of
  one type becomes a set of \<open>UserChallenge\<close> rows to create and to update; what is specific to
  a challenge is an \<open>updater\<close>, the subclass of \<open>ChallengeUpdater\<close> as a record of its methods.
  The batch runs inside one transaction: an exception rolls everything back.

  The locale \<open>challenge_updater\<close> states what a manager relies on, and inside it the facts about
  the table are proved once for all challenges: completed rows never change, keys stay unique,
  and an aggregate challenge is never completed more often than its step count allows.
\<close>

section \<open>Tables\<close>

datatype challenge_type = Boolean | Numeric | Aggregate | Trending

record challenge =
  ch_id :: string
  ch_type :: challenge_type
  ch_amount :: string
  ch_active :: bool
  ch_step_count :: "int option"
  ch_starting_block :: "int option"

record user_challenge =
  uc_challenge_id :: string
  uc_user_id :: int
  uc_specifier :: string
  uc_is_complete :: bool
  uc_current_step_count :: "int option"
  uc_completed_blocknumber :: "int option"

record profile_completion =
  pc_user_id :: int
  pc_profile_description :: bool
  pc_profile_name :: bool
  pc_profile_picture :: bool
  pc_profile_cover_photo :: bool
  pc_follows :: bool
  pc_favorites :: bool
  pc_reposts :: bool

record listen_streak =
  ls_user_id :: int
  ls_last_listen_date :: "int option"
  ls_listen_streak :: int

record trending_result =
  tr_user_id :: pyval
  tr_id :: pyval
  tr_rank :: pyval
  tr_type :: pyval
  tr_version :: pyval
  tr_week :: pyval

text \<open>What a session sees: the reward tables, and the rows of the other models by class.\<close>

record ch_db =
  cd_challenges :: "challenge list"
  cd_user_challenges :: "user_challenge list"
  cd_profile :: "profile_completion list"
  cd_streaks :: "listen_streak list"
  cd_trending :: "trending_result list"
  cd_rows :: "string \<Rightarrow> inst list"

type_synonym 'a ch = "(ch_db, 'a) py"

section \<open>Events\<close>

record event_meta =
  me_block_number :: int
  me_user_id :: int
  me_extra :: pydict

record full_event_meta = event_meta +
  me_specifier :: string

section \<open>Updaters\<close>

text \<open>The methods of a \<open>ChallengeUpdater\<close>.  The update returns the challenges it was given, changed.\<close>

record updater =
  up_update_user_challenges ::
    "string \<Rightarrow> user_challenge list \<Rightarrow> int option \<Rightarrow> full_event_meta list \<Rightarrow> int option \<Rightarrow> user_challenge list ch"
  up_on_after_challenge_creation :: "full_event_meta list \<Rightarrow> unit ch"
  up_generate_specifier :: "int \<Rightarrow> pydict \<Rightarrow> string result"
  up_should_create_new_challenge :: "ch_db \<Rightarrow> string \<Rightarrow> int \<Rightarrow> pydict \<Rightarrow> bool result"
  up_should_show_challenge_for_user :: "ch_db \<Rightarrow> int \<Rightarrow> bool result"
  up_get_override_challenge_step_count :: "int \<Rightarrow> ch_db \<Rightarrow> int \<Rightarrow> int option"

text \<open>The defaults of the base class.\<close>

definition base_updater :: updater where
  "base_updater =
     \<lparr>up_update_user_challenges = (\<lambda>event user_challenges step_count metadatas start. ret user_challenges),
      up_on_after_challenge_creation = (\<lambda>metadatas. ret ()),
      up_generate_specifier = (\<lambda>user_id extra. Inr (show_int user_id)),
      up_should_create_new_challenge = (\<lambda>db event user_id extra. Inr True),
      up_should_show_challenge_for_user = (\<lambda>db user_id. Inr True),
      up_get_override_challenge_step_count = (\<lambda>now db user_id. None)\<rparr>"

section \<open>The manager\<close>

record manager =
  mg_challenge_id :: string
  mg_updater :: updater
  mg_did_init :: bool
  mg_starting_block :: "int option"
  mg_step_count :: "int option"
  mg_challenge_type :: "challenge_type option"
  mg_is_active :: bool

definition new_manager :: "string \<Rightarrow> updater \<Rightarrow> manager" where
  "new_manager challenge_id up =
     \<lparr>mg_challenge_id = challenge_id, mg_updater = up, mg_did_init = False,
      mg_starting_block = None, mg_step_count = None, mg_challenge_type = None,
      mg_is_active = False\<rparr>"

definition init_challenge :: "ch_db \<Rightarrow> manager \<Rightarrow> manager result" where
  "init_challenge db m =
     (case filter (\<lambda>c. ch_id c = mg_challenge_id m) (cd_challenges db) of
        [] \<Rightarrow> Inl (Raised ''No matching challenge!'')
      | c # _ \<Rightarrow> Inr (m\<lparr>mg_starting_block := ch_starting_block c, mg_step_count := ch_step_count c,
          mg_challenge_type := Some (ch_type c), mg_did_init := True, mg_is_active := ch_active c\<rparr>))"

definition fetch_user_challenges :: "ch_db \<Rightarrow> string \<Rightarrow> string list \<Rightarrow> user_challenge list" where
  "fetch_user_challenges db challenge_id specifiers =
     (let rows = filter (\<lambda>u. uc_challenge_id u = challenge_id \<and> uc_specifier u \<in> set specifiers)
                   (cd_user_challenges db);
          specifier_map = od_build uc_specifier (\<lambda>u. u) rows
      in concat (map (\<lambda>s. case od_get specifier_map s of None \<Rightarrow> [] | Some u \<Rightarrow> [u]) specifiers))"

definition create_new_user_challenge :: "manager \<Rightarrow> full_event_meta \<Rightarrow> user_challenge" where
  "create_new_user_challenge m e =
     \<lparr>uc_challenge_id = mg_challenge_id m, uc_user_id = me_user_id e, uc_specifier = me_specifier e,
      uc_is_complete = (mg_challenge_type m = Some Aggregate), uc_current_step_count = Some 0,
      uc_completed_blocknumber = None\<rparr>"

definition add_specifier :: "updater \<Rightarrow> event_meta \<Rightarrow> full_event_meta result" where
  "add_specifier up e =
     bind_res (up_generate_specifier up (me_user_id e) (me_extra e)) (\<lambda>s.
     Inr \<lparr>me_block_number = me_block_number e, me_user_id = me_user_id e, me_extra = me_extra e,
          me_specifier = s\<rparr>)"

text \<open>The events by specifier: a later event of the same specifier replaces the earlier one.\<close>

definition events_map :: "full_event_meta list \<Rightarrow> (string, full_event_meta) odict" where
  "events_map es = od_build me_specifier (\<lambda>e. e) es"

definition challenges_of_user :: "ch_db \<Rightarrow> string \<Rightarrow> int \<Rightarrow> nat" where
  "challenges_of_user db challenge_id u =
     length (filter (\<lambda>c. uc_challenge_id c = challenge_id \<and> uc_user_id c = u) (cd_user_challenges db))"

definition maxed_out :: "int option \<Rightarrow> nat \<Rightarrow> bool" where
  "maxed_out step_count n = (case step_count of None \<Rightarrow> False | Some k \<Rightarrow> k \<noteq> 0 \<and> k \<le> int n)"

text \<open>Which new rows of an aggregate challenge are created: not beyond its step count per user.\<close>

fun select_new ::
    "manager \<Rightarrow> string \<Rightarrow> ch_db \<Rightarrow> full_event_meta list \<Rightarrow> full_event_meta list \<Rightarrow> full_event_meta list result" where
  "select_new m event db [] chosen = Inr chosen"
| "select_new m event db (e # es) chosen =
     (let user_id = me_user_id e;
          completion_count = challenges_of_user db (mg_challenge_id m) user_id +
            length (remdups (map me_specifier (filter (\<lambda>c. me_user_id c = user_id) chosen)))
      in if maxed_out (mg_step_count m) completion_count then select_new m event db es chosen
         else bind_res (up_should_create_new_challenge (mg_updater m) db event user_id (me_extra e)) (\<lambda>b.
              if b then select_new m event db es (chosen @ [e]) else select_new m event db es chosen))"

definition to_create :: "manager \<Rightarrow> string \<Rightarrow> ch_db \<Rightarrow> full_event_meta list \<Rightarrow> full_event_meta list result" where
  "to_create m event db new_metadata =
     (if mg_challenge_type m = Some Aggregate then select_new m event db new_metadata []
      else Inr new_metadata)"

text \<open>
  \<open>session.query(User.user_id)...all()\<close> yields rows of one column, and the filters below look
  for the bare id among these rows.
\<close>

definition deactivated_user_ids :: "ch_db \<Rightarrow> int list \<Rightarrow> pyval list" where
  "deactivated_user_ids db ids =
     map (\<lambda>u. PList [attr u ''user_id''])
       (filter (\<lambda>u. (\<exists>n \<in> set ids. attr u ''user_id'' = PInt n) \<and> attr u ''is_deactivated'' = PBool True)
          (cd_rows db ''User''))"

definition mark_completed :: "(string, full_event_meta) odict \<Rightarrow> user_challenge \<Rightarrow> user_challenge result" where
  "mark_completed evs c =
     (if uc_is_complete c then
        (case od_get evs (uc_specifier c) of
           None \<Rightarrow> Inl KeyError
         | Some e \<Rightarrow> Inr (c\<lparr>uc_completed_blocknumber := Some (me_block_number e)\<rparr>))
      else Inr c)"

text \<open>The primary key, and the commit: the objects the batch changed replace the rows they came from.\<close>

definition uc_key :: "user_challenge \<Rightarrow> string \<times> string" where
  "uc_key c = (uc_challenge_id c, uc_specifier c)"

definition current_object :: "user_challenge list \<Rightarrow> user_challenge \<Rightarrow> user_challenge" where
  "current_object changed c =
     (case find (\<lambda>d. uc_key d = uc_key c) changed of None \<Rightarrow> c | Some d \<Rightarrow> d)"

definition commit_challenges :: "user_challenge list \<Rightarrow> user_challenge list \<Rightarrow> ch_db \<Rightarrow> ch_db" where
  "commit_challenges changed added db =
     db\<lparr>cd_user_challenges := map (current_object changed) (cd_user_challenges db @ added)\<rparr>"

text \<open>The body of the \<open>try\<close> block.\<close>

definition process_batch :: "manager \<Rightarrow> string \<Rightarrow> full_event_meta list \<Rightarrow> unit ch" where
  "process_batch m event full =
     (let evs = events_map full;
          events = map snd evs;
          specifiers = map me_specifier events
      in bnd (gets (\<lambda>db. fetch_user_challenges db (mg_challenge_id m) specifiers)) (\<lambda>existing.
         let new_metadata = filter (\<lambda>e. me_specifier e \<notin> set (map uc_specifier existing)) events
         in bnd (bnd (gets (\<lambda>db. to_create m event db new_metadata)) lift_res) (\<lambda>create.
         let new_challenges = map (create_new_user_challenge m) create;
             to_update = filter (\<lambda>c. \<not> uc_is_complete c) existing @ new_challenges
         in bnd (gets (\<lambda>db. deactivated_user_ids db (map uc_user_id to_update))) (\<lambda>deactivated.
         let create' = filter (\<lambda>e. PInt (me_user_id e) \<notin> set deactivated) create;
             to_update' = filter (\<lambda>c. PInt (uc_user_id c) \<notin> set deactivated) to_update
         in sq (up_on_after_challenge_creation (mg_updater m) create') (
            bnd (up_update_user_challenges (mg_updater m) event to_update' (mg_step_count m) events
                   (mg_starting_block m)) (\<lambda>updated.
            bnd (lift_res (map_res (mark_completed evs) updated)) (\<lambda>changed.
            modify (commit_challenges changed new_challenges)))))))) "

text \<open>
  \<open>ChallengeManager.process\<close>: the result, the manager with its settings read, and the tables.
  An exception before the \<open>try\<close> block reaches the caller, one inside it rolls back and is swallowed.
\<close>

definition process :: "string \<Rightarrow> event_meta list \<Rightarrow> manager \<Rightarrow> ch_db \<Rightarrow> unit result \<times> manager \<times> ch_db" where
  "process event metas m0 db =
     (case (if mg_did_init m0 then Inr m0 else init_challenge db m0) of
        Inl x \<Rightarrow> (Inl x, m0, db)
      | Inr m \<Rightarrow>
          let relevant = (case mg_starting_block m of None \<Rightarrow> metas
                          | Some b \<Rightarrow> filter (\<lambda>e. b \<le> me_block_number e) metas)
          in if \<not> mg_is_active m \<or> relevant = [] then (Inr (), m, db)
             else (case map_res (add_specifier (mg_updater m)) relevant of
                 Inl x \<Rightarrow> (Inl x, m, db)
               | Inr full \<Rightarrow> (case process_batch m event full db of
                     (Inl x, _) \<Rightarrow> (Inr (), m, db)
                   | (Inr _, db') \<Rightarrow> (Inr (), m, db'))))"

section \<open>What a batch may do to the table\<close>

definition uc_ident :: "user_challenge \<Rightarrow> string \<times> int \<times> string" where
  "uc_ident c = (uc_challenge_id c, uc_user_id c, uc_specifier c)"

lemma uc_ident_key: "uc_ident c = uc_ident d \<Longrightarrow> uc_key c = uc_key d"
  by (simp add: uc_ident_def uc_key_def)

definition of_user :: "string \<Rightarrow> int \<Rightarrow> user_challenge list \<Rightarrow> nat" where
  "of_user challenge_id u rows = length (filter (\<lambda>c. uc_challenge_id c = challenge_id \<and> uc_user_id c = u) rows)"

text \<open>
  The changed objects come from rows of this challenge that were not complete, or from the rows
  that are added; the added rows are new.
\<close>

definition batch_ok :: "manager \<Rightarrow> user_challenge list \<Rightarrow> user_challenge list \<Rightarrow> user_challenge list \<Rightarrow> bool" where
  "batch_ok m rows changed added \<longleftrightarrow>
     (\<forall>d \<in> set changed. (\<exists>c \<in> set rows. \<not> uc_is_complete c \<and> uc_ident c = uc_ident d) \<or>
        (\<exists>c \<in> set added. uc_ident c = uc_ident d)) \<and>
     (\<forall>d \<in> set changed. uc_challenge_id d = mg_challenge_id m) \<and>
     (\<forall>c \<in> set added. uc_challenge_id c = mg_challenge_id m \<and> uc_key c \<notin> uc_key ` set rows) \<and>
     distinct (map uc_specifier added) \<and>
     (\<forall>k u. mg_challenge_type m = Some Aggregate \<longrightarrow> mg_step_count m = Some k \<longrightarrow> 0 < k \<longrightarrow>
        of_user (mg_challenge_id m) u added = 0 \<or>
        int (of_user (mg_challenge_id m) u rows + of_user (mg_challenge_id m) u added) \<le> k)"

lemma batch_ok_parts:
  assumes "batch_ok m rows changed added"
  shows "c \<in> set added \<Longrightarrow> uc_challenge_id c = mg_challenge_id m"
    and "c \<in> set added \<Longrightarrow> uc_key c \<notin> uc_key ` set rows"
    and "mg_challenge_type m = Some Aggregate \<Longrightarrow> mg_step_count m = Some k \<Longrightarrow> 0 < k \<Longrightarrow>
      of_user (mg_challenge_id m) u added = 0 \<or>
      int (of_user (mg_challenge_id m) u rows + of_user (mg_challenge_id m) u added) \<le> k"
  using assms by (simp_all add: batch_ok_def)

lemma current_object_ident:
  assumes "batch_ok m rows changed added" and "distinct (map uc_key rows)" and "c \<in> set (rows @ added)"
  shows "uc_ident (current_object changed c) = uc_ident c"
proof (cases "find (\<lambda>d. uc_key d = uc_key c) changed")
  case (Some d)
  then have d: "d \<in> set changed" "uc_key d = uc_key c" by (auto simp: find_Some_iff in_set_conv_nth)
  have inj: "inj_on uc_key (set rows)" using assms(2) by (simp add: distinct_map)
  have inj': "inj_on uc_key (set added)"
    using assms(1) by (auto simp: batch_ok_def distinct_map inj_on_def uc_key_def)
  have apart: "uc_key a \<noteq> uc_key r" if "a \<in> set added" "r \<in> set rows" for a r
    using assms(1) that unfolding batch_ok_def by (metis imageI)
  have "(\<exists>c \<in> set rows. \<not> uc_is_complete c \<and> uc_ident c = uc_ident d) \<or>
        (\<exists>c \<in> set added. uc_ident c = uc_ident d)"
    using assms(1) d(1) by (simp add: batch_ok_def)
  then obtain c' where c': "c' \<in> set rows \<or> c' \<in> set added" "uc_ident c' = uc_ident d" by blast
  then have "uc_key c' = uc_key c" using uc_ident_key d(2) by metis
  then have "c' = c"
    using c'(1) assms(3) inj inj' apart apart [THEN not_sym] by (auto simp: inj_on_def)
  then show ?thesis using c'(2) by (simp add: current_object_def Some)
qed (simp add: current_object_def)

lemma current_object_complete:
  assumes ok: "batch_ok m rows changed added" and "distinct (map uc_key rows)"
    and c: "c \<in> set rows" "uc_is_complete c"
  shows "current_object changed c = c"
proof (cases "find (\<lambda>d. uc_key d = uc_key c) changed")
  case (Some d)
  then have d: "d \<in> set changed" "uc_key d = uc_key c" by (auto simp: find_Some_iff in_set_conv_nth)
  have inj: "inj_on uc_key (set rows)" using assms(2) by (simp add: distinct_map)
  from ok d(1) consider c' where "c' \<in> set rows" "\<not> uc_is_complete c'" "uc_ident c' = uc_ident d"
    | c' where "c' \<in> set added" "uc_ident c' = uc_ident d"
    by (auto simp: batch_ok_def)
  then have False
  proof cases
    case (1 c')
    then have "c' = c" using uc_ident_key d(2) inj c(1) by (metis inj_on_def)
    with 1 c(2) show False by simp
  next
    case (2 c')
    then have "uc_key c' \<notin> uc_key ` set rows" using ok by (simp add: batch_ok_def)
    moreover have "uc_key c' = uc_key c" using 2 uc_ident_key d(2) by metis
    ultimately show False using c(1) by simp
  qed
  then show ?thesis ..
qed (simp add: current_object_def)

lemma current_object_other:
  assumes "batch_ok m rows changed added" and "uc_challenge_id c \<noteq> mg_challenge_id m"
  shows "current_object changed c = c"
proof -
  have "find (\<lambda>d. uc_key d = uc_key c) changed = None"
    using assms by (auto simp: find_None_iff batch_ok_def uc_key_def)
  then show ?thesis by (simp add: current_object_def)
qed

lemma batch_keys:
  assumes ok: "batch_ok m rows changed added" and d: "distinct (map uc_key rows)"
  shows "distinct (map uc_key (map (current_object changed) (rows @ added)))"
proof -
  have "(uc_key \<circ> current_object changed) c = uc_key c" if "c \<in> set (rows @ added)" for c
    unfolding comp_def by (rule uc_ident_key) (rule current_object_ident [OF assms that])
  then have eq: "map uc_key (map (current_object changed) (rows @ added)) = map uc_key (rows @ added)"
    unfolding map_map by (intro map_cong [OF refl])
  moreover have "distinct (map uc_key added)"
    using ok by (auto simp: batch_ok_def distinct_map inj_on_def uc_key_def)
  moreover have "uc_key ` set rows \<inter> uc_key ` set added = {}"
  proof (rule Int_emptyI)
    fix x
    assume x: "x \<in> uc_key ` set rows" and "x \<in> uc_key ` set added"
    then obtain a where "a \<in> set added" and "uc_key a = x" by (elim imageE) simp
    then show False using batch_ok_parts(2) [OF ok, of a] x by simp
  qed
  ultimately show ?thesis unfolding eq using d by simp
qed

lemma batch_aggregate:
  assumes ok: "batch_ok m rows changed added" and d: "distinct (map uc_key rows)"
    and m: "mg_challenge_type m = Some Aggregate" "mg_step_count m = Some k" "0 < k"
    and cap: "int (of_user (mg_challenge_id m) u rows) \<le> k"
  shows "int (of_user (mg_challenge_id m) u (map (current_object changed) (rows @ added))) \<le> k"
proof -
  let ?P = "\<lambda>c. uc_challenge_id c = mg_challenge_id m \<and> uc_user_id c = u"
  have "(?P \<circ> current_object changed) c = ?P c" if "c \<in> set (rows @ added)" for c
    using current_object_ident [OF ok d that] by (simp add: uc_ident_def)
  then have "filter (?P \<circ> current_object changed) (rows @ added) = filter ?P (rows @ added)"
    by (intro filter_cong [OF refl])
  then have e1: "of_user (mg_challenge_id m) u (map (current_object changed) (rows @ added))
      = of_user (mg_challenge_id m) u (rows @ added)"
    by (simp only: of_user_def filter_map length_map)
  have e2: "of_user (mg_challenge_id m) u (rows @ added)
      = of_user (mg_challenge_id m) u rows + of_user (mg_challenge_id m) u added"
    by (simp add: of_user_def)
  have "of_user (mg_challenge_id m) u added = 0 \<or>
      int (of_user (mg_challenge_id m) u rows + of_user (mg_challenge_id m) u added) \<le> k"
    by (rule batch_ok_parts(3) [OF ok m])
  then show ?thesis unfolding e1 e2 using cap by (elim disjE) simp_all
qed

section \<open>The events of a batch and the rows they create\<close>

lemma events_map_spec:
  shows "map me_specifier (map snd (events_map full)) = od_keys (events_map full)"
    and "distinct (map me_specifier (map snd (events_map full)))"
proof -
  have "me_specifier v = k" if "(k, v) \<in> set (events_map full)" for k v
  proof -
    have "od_get (events_map full) k = Some v"
      using that distinct_od_build in_set_od_get unfolding events_map_def by metis
    then show ?thesis unfolding events_map_def by (auto dest: od_get_build_SomeD)
  qed
  then show eq: "map me_specifier (map snd (events_map full)) = od_keys (events_map full)"
    by (auto simp: od_keys_def)
  show "distinct (map me_specifier (map snd (events_map full)))"
    unfolding eq by (simp add: events_map_def distinct_od_build)
qed

lemma fetch_mem:
  assumes "c \<in> set (fetch_user_challenges db cid specs)"
  shows "c \<in> set (cd_user_challenges db) \<and> uc_challenge_id c = cid \<and> uc_specifier c \<in> set specs"
  using assms
  by (auto simp: fetch_user_challenges_def Let_def split: option.splits dest!: sym [of "Some c"] od_get_build_SomeD)

lemma fetch_finds_specifier:
  assumes "c \<in> set (cd_user_challenges db)" and "uc_challenge_id c = cid" and "uc_specifier c \<in> set specs"
  shows "uc_specifier c \<in> uc_specifier ` set (fetch_user_challenges db cid specs)"
proof -
  let ?rows = "filter (\<lambda>u. uc_challenge_id u = cid \<and> uc_specifier u \<in> set specs) (cd_user_challenges db)"
  have "od_get (od_build uc_specifier (\<lambda>u. u) ?rows) (uc_specifier c) \<noteq> None"
    using assms by (auto simp: od_get_build_None)
  then obtain d where d: "od_get (od_build uc_specifier (\<lambda>u. u) ?rows) (uc_specifier c) = Some d" by blast
  then have "uc_specifier d = uc_specifier c" by (auto dest: od_get_build_SomeD)
  moreover have "d \<in> set (fetch_user_challenges db cid specs)"
    using d assms(3) by (force simp: fetch_user_challenges_def Let_def)
  ultimately show ?thesis by (metis imageI)
qed

definition chosen_ok :: "manager \<Rightarrow> ch_db \<Rightarrow> full_event_meta list \<Rightarrow> bool" where
  "chosen_ok m db chosen \<longleftrightarrow> (\<forall>k u. mg_step_count m = Some k \<longrightarrow> 0 < k \<longrightarrow>
     filter (\<lambda>e. me_user_id e = u) chosen = [] \<or>
     int (challenges_of_user db (mg_challenge_id m) u + length (filter (\<lambda>e. me_user_id e = u) chosen)) \<le> k)"

lemma select_new_spec:
  assumes "select_new m ev db es chosen = Inr cs" and "distinct (map me_specifier (chosen @ es))"
    and "chosen_ok m db chosen"
  shows "set cs \<subseteq> set chosen \<union> set es \<and> distinct (map me_specifier cs) \<and> chosen_ok m db cs"
  using assms
proof (induction es arbitrary: chosen)
  case (Cons e es)
  let ?mine = "filter (\<lambda>c. me_user_id c = me_user_id e) chosen"
  have "distinct (map me_specifier ?mine)"
    using Cons.prems(2) by (simp add: distinct_map_filter)
  then have count: "length (remdups (map me_specifier ?mine)) = length ?mine"
    by (simp add: distinct_remdups_id)
  show ?case
  proof (cases "maxed_out (mg_step_count m) (challenges_of_user db (mg_challenge_id m) (me_user_id e) + length ?mine)")
    case True
    then have "select_new m ev db es chosen = Inr cs" using Cons.prems(1) by (simp add: Let_def count)
    then show ?thesis using Cons.IH [of chosen] Cons.prems(2,3) by auto
  next
    case False
    then obtain b where "up_should_create_new_challenge (mg_updater m) db ev (me_user_id e) (me_extra e) = Inr b"
      and rest: "(if b then select_new m ev db es (chosen @ [e]) else select_new m ev db es chosen) = Inr cs"
      using Cons.prems(1) by (auto simp: Let_def count bind_res_Inr)
    have ok': "chosen_ok m db (chosen @ [e])"
      using Cons.prems(3) False by (auto simp: chosen_ok_def maxed_out_def)
    show ?thesis
    proof (cases b)
      case True
      then show ?thesis using Cons.IH [of "chosen @ [e]"] rest Cons.prems(2) ok' by auto
    next
      case False
      then show ?thesis using Cons.IH [of chosen] rest Cons.prems(2,3) by auto
    qed
  qed
qed auto

lemma to_create_spec:
  assumes "to_create m ev db es = Inr cs" and "distinct (map me_specifier es)"
  shows "set cs \<subseteq> set es" and "distinct (map me_specifier cs)"
    and "mg_challenge_type m = Some Aggregate \<Longrightarrow> chosen_ok m db cs"
  using assms select_new_spec [of m ev db es "[]" cs]
  by (auto simp: to_create_def chosen_ok_def split: if_splits)

section \<open>The contract of an updater\<close>

lemma map_res_idents:
  assumes "map_res f xs = Inr ys" and "\<And>x y. f x = Inr y \<Longrightarrow> g y = g x"
  shows "map g ys = map g xs"
  using assms(1) by (induction xs arbitrary: ys) (auto split: sum.splits dest: assms(2))

lemma mark_completed_ident: "mark_completed evs c = Inr d \<Longrightarrow> uc_ident d = uc_ident c"
  by (auto simp: mark_completed_def uc_ident_def split: if_splits option.splits)

lemma ident_mem:
  assumes "map uc_ident ds = map uc_ident cs" and "d \<in> set ds"
  shows "\<exists>c \<in> set cs. uc_ident c = uc_ident d"
proof -
  have "uc_ident d \<in> uc_ident ` set cs"
    using arg_cong [OF assms(1), of set] assms(2) by auto
  then show ?thesis by force
qed

locale challenge_updater =
  fixes up :: updater
  assumes update_ident:
      "up_update_user_challenges up ev ucs k es b db = (Inr ucs', db') \<Longrightarrow> map uc_ident ucs' = map uc_ident ucs"
    and update_table:
      "cd_user_challenges (snd (up_update_user_challenges up ev ucs k es b db)) = cd_user_challenges db"
    and created_table:
      "cd_user_challenges (snd (up_on_after_challenge_creation up es db)) = cd_user_challenges db"
begin

lemma batch_effect:
  assumes up: "mg_updater m = up" and run: "process_batch m ev full db = (Inr (), db')"
  shows "\<exists>changed added.
    cd_user_challenges db' = map (current_object changed) (cd_user_challenges db @ added) \<and>
    batch_ok m (cd_user_challenges db) changed added"
proof -
  define events where "events = map snd (events_map full)"
  define existing where "existing = fetch_user_challenges db (mg_challenge_id m) (map me_specifier events)"
  define new where "new = filter (\<lambda>e. me_specifier e \<notin> set (map uc_specifier existing)) events"
  obtain create where create: "to_create m ev db new = Inr create"
    using run by (auto simp: process_batch_def Let_def events_def existing_def new_def bnd_Inr run_Inr)
  define added where "added = map (create_new_user_challenge m) create"
  define to_update where "to_update = filter (\<lambda>c. \<not> uc_is_complete c) existing @ added"
  define deact where "deact = deactivated_user_ids db (map uc_user_id to_update)"
  define chosen where "chosen = filter (\<lambda>c. PInt (uc_user_id c) \<notin> set deact) to_update"
  obtain db1 updated db2 changed where
    db1: "up_on_after_challenge_creation up (filter (\<lambda>e. PInt (me_user_id e) \<notin> set deact) create) db = (Inr (), db1)"
    and upd: "up_update_user_challenges up ev chosen (mg_step_count m) events (mg_starting_block m) db1
        = (Inr updated, db2)"
    and ch: "map_res (mark_completed (events_map full)) updated = Inr changed"
    and db': "db' = commit_challenges changed added db2"
    using run create
    by (auto simp: process_batch_def Let_def events_def existing_def new_def bnd_Inr sq_Inr run_Inr up
        added_def to_update_def deact_def chosen_def modify_def)
  have table: "cd_user_challenges db2 = cd_user_challenges db"
    using created_table [of "filter (\<lambda>e. PInt (me_user_id e) \<notin> set deact) create" db]
      update_table [of ev chosen "mg_step_count m" events "mg_starting_block m" db1] db1 upd by simp
  have idents: "map uc_ident changed = map uc_ident chosen"
    using map_res_idents [OF ch mark_completed_ident] update_ident [OF upd] by simp
  have dist: "distinct (map me_specifier events)"
    unfolding events_def by (rule events_map_spec(2))
  then have dist_new: "distinct (map me_specifier new)"
    unfolding new_def by (rule distinct_map_filter)
  have sub: "set create \<subseteq> set new" and dist_create: "distinct (map me_specifier create)"
    using to_create_spec(1,2) [OF create dist_new] .
  have spec_added: "map uc_specifier added = map me_specifier create"
    by (simp add: added_def create_new_user_challenge_def)
  have origin: "(\<exists>c \<in> set (cd_user_challenges db). \<not> uc_is_complete c \<and> uc_ident c = uc_ident d) \<or>
        (\<exists>c \<in> set added. uc_ident c = uc_ident d)"
    and cid: "uc_challenge_id d = mg_challenge_id m" if "d \<in> set changed" for d
  proof -
    from ident_mem [OF idents that] obtain c where c: "c \<in> set to_update" "uc_ident c = uc_ident d"
      by (auto simp: chosen_def)
    then consider "c \<in> set existing" "\<not> uc_is_complete c" | "c \<in> set added"
      by (auto simp: to_update_def)
    then have "(c \<in> set (cd_user_challenges db) \<and> \<not> uc_is_complete c \<or> c \<in> set added) \<and>
        uc_challenge_id c = mg_challenge_id m"
      by cases (auto simp: existing_def added_def create_new_user_challenge_def dest: fetch_mem)
    with c(2) show "(\<exists>c \<in> set (cd_user_challenges db). \<not> uc_is_complete c \<and> uc_ident c = uc_ident d) \<or>
        (\<exists>c \<in> set added. uc_ident c = uc_ident d)"
      and "uc_challenge_id d = mg_challenge_id m"
      by (auto simp: uc_ident_def)
  qed
  have fresh: "uc_challenge_id c = mg_challenge_id m \<and> uc_key c \<notin> uc_key ` set (cd_user_challenges db)"
    if "c \<in> set added" for c
  proof -
    obtain e where e: "e \<in> set create" "c = create_new_user_challenge m e"
      using \<open>c \<in> set added\<close> by (auto simp: added_def)
    then have e_new: "e \<in> set events" "me_specifier e \<notin> set (map uc_specifier existing)"
      using sub by (auto simp: new_def)
    have c: "uc_challenge_id c = mg_challenge_id m" "uc_specifier c = me_specifier e"
      using e(2) by (simp_all add: create_new_user_challenge_def)
    have "uc_key r \<noteq> uc_key c" if "r \<in> set (cd_user_challenges db)" for r
      using fetch_finds_specifier [OF that, of "mg_challenge_id m" "map me_specifier events"] e_new c
      by (auto simp: uc_key_def existing_def)
    with c(1) show ?thesis by force
  qed
  have cap: "of_user (mg_challenge_id m) u added = 0 \<or>
        int (of_user (mg_challenge_id m) u (cd_user_challenges db) + of_user (mg_challenge_id m) u added) \<le> k"
    if "mg_challenge_type m = Some Aggregate" "mg_step_count m = Some k" "0 < k" for k u
  proof -
    have "of_user (mg_challenge_id m) u added = length (filter (\<lambda>e. me_user_id e = u) create)"
      by (simp add: of_user_def added_def create_new_user_challenge_def filter_map comp_def)
    moreover have "challenges_of_user db (mg_challenge_id m) u = of_user (mg_challenge_id m) u (cd_user_challenges db)"
      by (simp add: challenges_of_user_def of_user_def)
    moreover have "chosen_ok m db create"
      using to_create_spec(3) [OF create dist_new that(1)] .
    ultimately show ?thesis using that(2,3) by (auto simp: chosen_ok_def)
  qed
  have "batch_ok m (cd_user_challenges db) changed added"
    unfolding batch_ok_def
    using origin cid fresh dist_create spec_added cap by simp
  then show ?thesis
    by (intro exI [of _ changed] exI [of _ added]) (simp add: db' commit_challenges_def table)
qed

lemma process_effect:
  assumes "mg_updater m0 = up" and "process ev metas m0 db = (x, m, db')"
  shows "mg_updater m = up \<and> mg_challenge_id m = mg_challenge_id m0 \<and>
    (db' = db \<or> (\<exists>changed added.
      cd_user_challenges db' = map (current_object changed) (cd_user_challenges db @ added) \<and>
      batch_ok m (cd_user_challenges db) changed added))"
proof (cases "if mg_did_init m0 then Inr m0 else init_challenge db m0")
  case (Inl y)
  then show ?thesis using assms by (simp add: process_def)
next
  case (Inr m1)
  then have m1: "mg_updater m1 = up" "mg_challenge_id m1 = mg_challenge_id m0"
    using assms(1) by (auto simp: init_challenge_def split: if_splits list.splits)
  define relevant where "relevant = (case mg_starting_block m1 of None \<Rightarrow> metas
      | Some b \<Rightarrow> filter (\<lambda>e. b \<le> me_block_number e) metas)"
  have run: "(x, m, db') = (if \<not> mg_is_active m1 \<or> relevant = [] then (Inr (), m1, db)
             else (case map_res (add_specifier up) relevant of
                 Inl x \<Rightarrow> (Inl x, m1, db)
               | Inr full \<Rightarrow> (case process_batch m1 ev full db of
                     (Inl x, _) \<Rightarrow> (Inr (), m1, db)
                   | (Inr _, db') \<Rightarrow> (Inr (), m1, db'))))"
    using assms(2) [symmetric] unfolding process_def Inr sum.case Let_def
    by (simp only: relevant_def m1(1))
  have "m = m1 \<and> (db' = db \<or> (\<exists>full. process_batch m1 ev full db = (Inr (), db')))"
  proof (cases "map_res (add_specifier up) relevant")
    case (Inl y)
    then show ?thesis using run by (simp split: if_splits)
  next
    case (Inr full)
    obtain r db1 where pb: "process_batch m1 ev full db = (r, db1)" by force
    show ?thesis
    proof (cases r)
      case (Inl y)
      then have "m = m1 \<and> db' = db" using run \<open>map_res _ _ = _\<close> pb by (simp split: if_splits)
      then show ?thesis by blast
    next
      case (Inr u)
      then have "m = m1 \<and> (db' = db \<or> db' = db1)"
        using run \<open>map_res _ _ = _\<close> pb by (simp split: if_splits)
      moreover have "r = Inr ()" using Inr by simp
      ultimately show ?thesis using pb by blast
    qed
  qed
  then show ?thesis using m1 batch_effect [of m1 ev _ db db'] by blast
qed

lemma process_keys:
  assumes "mg_updater m0 = up" and "process ev metas m0 db = (x, m, db')"
    and "distinct (map uc_key (cd_user_challenges db))"
  shows "distinct (map uc_key (cd_user_challenges db'))"
  using process_effect [OF assms(1,2)] batch_keys [OF _ assms(3)] assms(3) by metis

lemma process_completed:
  assumes "mg_updater m0 = up" and "process ev metas m0 db = (x, m, db')"
    and d: "distinct (map uc_key (cd_user_challenges db))"
    and c: "c \<in> set (cd_user_challenges db)" "uc_is_complete c"
  shows "c \<in> set (cd_user_challenges db')"
  using process_effect [OF assms(1,2)]
proof (elim conjE disjE exE)
  fix changed added
  assume db': "cd_user_challenges db' = map (current_object changed) (cd_user_challenges db @ added)"
    and "batch_ok m (cd_user_challenges db) changed added"
  then have "current_object changed c = c" using current_object_complete d c by blast
  then show ?thesis unfolding db' using c(1) by (simp add: rev_image_eqI)
qed (simp add: c(1))

lemma process_other:
  assumes "mg_updater m0 = up" and "process ev metas m0 db = (x, m, db')"
  shows "filter (\<lambda>c. uc_challenge_id c \<noteq> mg_challenge_id m0) (cd_user_challenges db') =
    filter (\<lambda>c. uc_challenge_id c \<noteq> mg_challenge_id m0) (cd_user_challenges db)"
  using process_effect [OF assms]
proof (elim conjE disjE exE)
  fix changed added
  assume id: "mg_challenge_id m = mg_challenge_id m0"
    and db': "cd_user_challenges db' = map (current_object changed) (cd_user_challenges db @ added)"
    and ok: "batch_ok m (cd_user_challenges db) changed added"
  let ?P = "\<lambda>c. uc_challenge_id c \<noteq> mg_challenge_id m0"
  have id': "uc_challenge_id (current_object changed c) = uc_challenge_id c" for c
    by (auto simp: current_object_def find_Some_iff uc_key_def split: option.split)
  have "filter ?P (map (current_object changed) xs) = map (current_object changed) (filter ?P xs)" for xs
    by (induction xs) (simp_all add: id')
  moreover have "map (current_object changed) (filter ?P xs) = filter ?P xs" for xs
    using current_object_other [OF ok] by (intro map_idI) (simp add: id)
  moreover have "filter ?P added = []"
    using batch_ok_parts(1) [OF ok] by (simp add: filter_empty_conv id)
  ultimately show ?thesis unfolding db' by (simp only: filter_append append_Nil2)
qed simp

lemma process_aggregate:
  assumes "mg_updater m0 = up" and "process ev metas m0 db = (x, m, db')"
    and d: "distinct (map uc_key (cd_user_challenges db))"
    and m: "mg_challenge_type m = Some Aggregate" "mg_step_count m = Some k" "0 < k"
    and cap: "int (of_user (mg_challenge_id m) u (cd_user_challenges db)) \<le> k"
  shows "int (of_user (mg_challenge_id m) u (cd_user_challenges db')) \<le> k"
  using process_effect [OF assms(1,2)]
proof (elim conjE disjE exE)
  fix changed added
  assume db': "cd_user_challenges db' = map (current_object changed) (cd_user_challenges db @ added)"
    and ok: "batch_ok m (cd_user_challenges db) changed added"
  show ?thesis unfolding db' by (rule batch_aggregate [OF ok d m cap])
qed (use cap in simp)

end

text \<open>An updater that does not touch the settings of the challenges either: the step count a manager
  has read stays the one in the table.\<close>

locale settled_updater = challenge_updater +
  assumes update_settings:
      "cd_challenges (snd (up_update_user_challenges up ev ucs k es b db)) = cd_challenges db"
    and created_settings:
      "cd_challenges (snd (up_on_after_challenge_creation up es db)) = cd_challenges db"
begin

lemma batch_settings:
  assumes up: "mg_updater m = up" and run: "process_batch m ev full db = (Inr (), db')"
  shows "cd_challenges db' = cd_challenges db"
proof -
  have "keeps (\<lambda>d. cd_challenges d = cd_challenges db) (process_batch m ev full)"
    unfolding process_batch_def Let_def up
    by (intro keeps_rules keeps_modify)
      (simp_all add: commit_challenges_def keeps_def update_settings created_settings)
  from keepsD [OF this] show ?thesis using run by (metis snd_conv)
qed

lemma process_settings:
  assumes "mg_updater m0 = up" and "process ev metas m0 db = (x, m, db')"
  shows "cd_challenges db' = cd_challenges db"
  using assms by (auto simp: process_def Let_def init_challenge_def dest!: batch_settings [rotated]
      split: if_splits sum.splits list.splits prod.splits)

end

end
