(* ===== verification/Challenge_Updaters.thy ===== *)
theory Challenge_Updaters
  imports Challenges
begin

text \<open>
  The challenges of src/challenges: one updater each, and the manager made from it.  Every
  updater is an instance of the contract \<open>challenge_updater\<close>.
\<close>

section \<open>Challenges that one event completes\<close>

definition complete_all :: "user_challenge list \<Rightarrow> user_challenge list" where
  "complete_all ucs = map (\<lambda>c. c\<lparr>uc_is_complete := True\<rparr>) ucs"

definition connect_verified_updater :: updater where
  "connect_verified_updater = base_updater
     \<lparr>up_update_user_challenges := (\<lambda>event ucs step_count metadatas start. ret (complete_all ucs))\<rparr>"

definition connect_verified_challenge_manager :: manager where
  "connect_verified_challenge_manager = new_manager ''connect-verified'' connect_verified_updater"

definition first_playlist_updater :: updater where
  "first_playlist_updater = base_updater
     \<lparr>up_update_user_challenges := (\<lambda>event ucs step_count metadatas start. ret (complete_all ucs))\<rparr>"

definition first_playlist_challenge_manager :: manager where
  "first_playlist_challenge_manager = new_manager ''first-playlist'' first_playlist_updater"

definition mobile_install_updater :: updater where
  "mobile_install_updater = base_updater
     \<lparr>up_update_user_challenges := (\<lambda>event ucs step_count metadatas start. ret (complete_all ucs))\<rparr>"

definition mobile_install_challenge_manager :: manager where
  "mobile_install_challenge_manager = new_manager ''mobile-install'' mobile_install_updater"

definition send_first_tip_updater :: updater where
  "send_first_tip_updater = base_updater
     \<lparr>up_update_user_challenges := (\<lambda>event ucs step_count metadatas start. ret (complete_all ucs))\<rparr>"

definition send_first_tip_challenge_manager :: manager where
  "send_first_tip_challenge_manager = new_manager ''send-first-tip'' send_first_tip_updater"

definition referred_updater :: updater where
  "referred_updater = base_updater
     \<lparr>up_update_user_challenges := (\<lambda>event ucs step_count metadatas start. ret (complete_all ucs))\<rparr>"

definition referred_challenge_manager :: manager where
  "referred_challenge_manager = new_manager ''referred'' referred_updater"

section \<open>Referrals (referral_challenge.py)\<close>

text \<open>
  The text an f-string makes of a JSON scalar.  Specifiers are built from user ids, ranks and
  dates; lists and dictionaries, which do not occur in them, are left out of the model.
\<close>

definition format_value :: "pyval \<Rightarrow> string result" where
  "format_value v = (case v of
       PStr s \<Rightarrow> Inr s
     | PInt n \<Rightarrow> Inr (show_int n)
     | PBool b \<Rightarrow> Inr (if b then ''True'' else ''False'')
     | PNone \<Rightarrow> Inr ''None''
     | _ \<Rightarrow> Inl (Raised ''not a scalar''))"

definition generate_referral_specifier :: "int \<Rightarrow> pydict \<Rightarrow> string result" where
  "generate_referral_specifier user_id extra =
     bind_res (dict_sub extra ''referred_user_id'') (\<lambda>v.
     bind_res (format_value v) (\<lambda>r.
     Inr (show_int user_id @ ''=>'' @ r)))"

text \<open>\<open>one_or_none\<close> raises when several rows match.\<close>

definition does_user_exist_with_verification_status :: "ch_db \<Rightarrow> int \<Rightarrow> bool \<Rightarrow> bool result" where
  "does_user_exist_with_verification_status db user_id is_verified =
     (case filter (\<lambda>u. attr u ''user_id'' = PInt user_id \<and> is_current_row u \<and>
                       attr u ''is_verified'' = PBool is_verified) (cd_rows db ''User'') of
        [] \<Rightarrow> Inr False
      | [u] \<Rightarrow> Inr True
      | _ \<Rightarrow> Inl MultipleResultsFound)"

definition referral_updater :: updater where
  "referral_updater = base_updater
     \<lparr>up_generate_specifier := generate_referral_specifier,
      up_should_create_new_challenge := (\<lambda>db event user_id extra.
        does_user_exist_with_verification_status db user_id False),
      up_should_show_challenge_for_user := (\<lambda>db user_id.
        does_user_exist_with_verification_status db user_id False)\<rparr>"

definition verified_referral_updater :: updater where
  "verified_referral_updater = base_updater
     \<lparr>up_generate_specifier := generate_referral_specifier,
      up_should_create_new_challenge := (\<lambda>db event user_id extra.
        does_user_exist_with_verification_status db user_id True),
      up_should_show_challenge_for_user := (\<lambda>db user_id.
        does_user_exist_with_verification_status db user_id True)\<rparr>"

definition referral_challenge_manager :: manager where
  "referral_challenge_manager = new_manager ''referrals'' referral_updater"

definition verified_referral_challenge_manager :: manager where
  "verified_referral_challenge_manager = new_manager ''ref-v'' verified_referral_updater"

section \<open>Track uploads (track_upload_challenge.py)\<close>

definition counts_as_upload :: "int \<Rightarrow> inst \<Rightarrow> bool" where
  "counts_as_upload block_number t \<longleftrightarrow>
     is_int (attr t ''blocknumber'') \<and> block_number \<le> as_int (attr t ''blocknumber'') \<and>
     is_current_row t \<and> attr t ''is_delete'' = PBool False \<and> attr t ''is_unlisted'' = PBool False \<and>
     attr t ''stem_of'' \<in> {PNone, PNull}"

definition get_num_track_uploads_by_user :: "ch_db \<Rightarrow> int \<Rightarrow> int \<Rightarrow> int" where
  "get_num_track_uploads_by_user db block_number user_id =
     int (length (filter (\<lambda>t. attr t ''owner_id'' = PInt user_id \<and> counts_as_upload block_number t)
       (cd_rows db ''Track'')))"

definition track_upload_update ::
    "string \<Rightarrow> user_challenge list \<Rightarrow> int option \<Rightarrow> full_event_meta list \<Rightarrow> int option \<Rightarrow> user_challenge list ch" where
  "track_upload_update event ucs step_count metadatas starting_block =
     (case (step_count, starting_block) of
        (Some k, Some b) \<Rightarrow>
          gets (\<lambda>db. map (\<lambda>c. let n = get_num_track_uploads_by_user db b (uc_user_id c)
                  in c\<lparr>uc_current_step_count := Some n, uc_is_complete := k \<le> n\<rparr>) ucs)
      | _ \<Rightarrow> raise (Raised ''Expected a step count and starting block''))"

definition track_upload_updater :: updater where
  "track_upload_updater = base_updater\<lparr>up_update_user_challenges := track_upload_update\<rparr>"

definition track_upload_challenge_manager :: manager where
  "track_upload_challenge_manager = new_manager ''track-upload'' track_upload_updater"

section \<open>Profile completion (profile_challenge.py)\<close>

definition REPOST_THRESHOLD :: nat where "REPOST_THRESHOLD = 1"
definition FOLLOW_THRESHOLD :: nat where "FOLLOW_THRESHOLD = 5"
definition FAVORITES_THRESHOLD :: nat where "FAVORITES_THRESHOLD = 1"

definition get_profile_completion_challenges :: "ch_db \<Rightarrow> int list \<Rightarrow> profile_completion list" where
  "get_profile_completion_challenges db user_ids =
     filter (\<lambda>p. pc_user_id p \<in> set user_ids) (cd_profile db)"

definition get_user_dicts :: "ch_db \<Rightarrow> int list \<Rightarrow> inst list" where
  "get_user_dicts db user_ids =
     filter (\<lambda>u. (\<exists>n \<in> set user_ids. attr u ''user_id'' = PInt n) \<and> is_current_row u) (cd_rows db ''User'')"

text \<open>A NULL of the database reads as \<open>None\<close>.\<close>

definition present :: "inst \<Rightarrow> string \<Rightarrow> bool" where
  "present u f \<longleftrightarrow> attr u f \<noteq> PNone \<and> attr u f \<noteq> PNull"

definition profile_of_user :: "inst \<Rightarrow> profile_completion \<Rightarrow> profile_completion" where
  "profile_of_user u p = p
     \<lparr>pc_profile_description := present u ''bio'',
      pc_profile_name := present u ''name'',
      pc_profile_picture := present u ''profile_picture'' \<or> present u ''profile_picture_sizes'',
      pc_profile_cover_photo := present u ''cover_photo'' \<or> present u ''cover_photo_sizes''\<rparr>"

text \<open>\<open>completion_map[user["user_id"]]\<close> for every user row, then the assignments.\<close>

definition handle_profile_updates ::
    "inst list \<Rightarrow> profile_completion list \<Rightarrow> profile_completion list result" where
  "handle_profile_updates users completions =
     fold_res (\<lambda>u ps.
        bind_res (require_res (\<exists>p \<in> set ps. attr u ''user_id'' = PInt (pc_user_id p)) KeyError) (\<lambda>_.
        Inr (map (\<lambda>p. if attr u ''user_id'' = PInt (pc_user_id p) then profile_of_user u p else p) ps)))
      users completions"

text \<open>The live rows of one model that belong to a user by the column \<open>f\<close>.\<close>

definition live_rows :: "ch_db \<Rightarrow> string \<Rightarrow> string \<Rightarrow> int \<Rightarrow> nat" where
  "live_rows db model f user_id =
     length (filter (\<lambda>r. is_current_row r \<and> attr r f = PInt user_id \<and> attr r ''is_delete'' = PBool False)
       (cd_rows db model))"

definition handle_reposts :: "ch_db \<Rightarrow> profile_completion list \<Rightarrow> profile_completion list" where
  "handle_reposts db ps = map (\<lambda>p. p\<lparr>pc_reposts :=
     REPOST_THRESHOLD \<le> live_rows db ''Repost'' ''user_id'' (pc_user_id p)\<rparr>) ps"

definition handle_follow :: "ch_db \<Rightarrow> profile_completion list \<Rightarrow> profile_completion list" where
  "handle_follow db ps = map (\<lambda>p. p\<lparr>pc_follows :=
     FOLLOW_THRESHOLD \<le> live_rows db ''Follow'' ''follower_user_id'' (pc_user_id p)\<rparr>) ps"

definition handle_favorite :: "ch_db \<Rightarrow> profile_completion list \<Rightarrow> profile_completion list" where
  "handle_favorite db ps = map (\<lambda>p. p\<lparr>pc_favorites :=
     FAVORITES_THRESHOLD \<le> live_rows db ''Save'' ''user_id'' (pc_user_id p)\<rparr>) ps"

definition get_steps_complete :: "profile_completion \<Rightarrow> int" where
  "get_steps_complete p =
     of_bool (pc_profile_description p) + of_bool (pc_profile_name p) + of_bool (pc_profile_picture p) +
     of_bool (pc_profile_cover_photo p) + of_bool (pc_follows p) + of_bool (pc_favorites p) +
     of_bool (pc_reposts p)"

definition updated_completions ::
    "string \<Rightarrow> ch_db \<Rightarrow> int list \<Rightarrow> profile_completion list \<Rightarrow> profile_completion list result" where
  "updated_completions event db user_ids ps =
     (if event = profile_update then handle_profile_updates (get_user_dicts db user_ids) ps
      else if event = ev_repost then Inr (handle_reposts db ps)
      else if event = ev_follow then Inr (handle_follow db ps)
      else if event = ev_favorite then Inr (handle_favorite db ps)
      else Inr ps)"

definition profile_progress ::
    "int option \<Rightarrow> profile_completion list \<Rightarrow> user_challenge \<Rightarrow> user_challenge result" where
  "profile_progress step_count ps c =
     (case filter (\<lambda>p. pc_user_id p = uc_user_id c) ps of
        [] \<Rightarrow> Inl KeyError
      | qs \<Rightarrow> let n = get_steps_complete (last qs)
              in Inr (c\<lparr>uc_current_step_count := Some n, uc_is_complete := (step_count = Some n)\<rparr>))"

text \<open>The completion objects are rows of the session: what the handlers set is stored by user.\<close>

definition store_profiles :: "profile_completion list \<Rightarrow> ch_db \<Rightarrow> ch_db" where
  "store_profiles ps db = db\<lparr>cd_profile := map (\<lambda>r. case find (\<lambda>p. pc_user_id p = pc_user_id r) ps of
     None \<Rightarrow> r | Some p \<Rightarrow> p) (cd_profile db)\<rparr>"

definition profile_update_user_challenges ::
    "string \<Rightarrow> user_challenge list \<Rightarrow> int option \<Rightarrow> full_event_meta list \<Rightarrow> int option \<Rightarrow> user_challenge list ch" where
  "profile_update_user_challenges event ucs step_count metadatas starting_block =
     (let user_ids = map uc_user_id ucs in
      bnd (bnd (gets (\<lambda>db. updated_completions event db user_ids (get_profile_completion_challenges db user_ids)))
             lift_res) (\<lambda>ps.
      sq (modify (store_profiles ps)) (
      lift_res (map_res (profile_progress step_count ps) ucs))))"

text \<open>\<open>session.add_all\<close>: the primary keys must be new, or the flush raises.\<close>

definition add_all_rows :: "('r \<Rightarrow> 'k) \<Rightarrow> 'r list \<Rightarrow> 'r list \<Rightarrow> 'r list result" where
  "add_all_rows key rows added =
     (if distinct (map key added) \<and> (\<forall>r \<in> set added. key r \<notin> key ` set rows) then Inr (rows @ added)
      else Inl (Raised ''IntegrityError''))"

definition new_profile_completion :: "full_event_meta \<Rightarrow> profile_completion" where
  "new_profile_completion e =
     \<lparr>pc_user_id = me_user_id e, pc_profile_description = False, pc_profile_name = False,
      pc_profile_picture = False, pc_profile_cover_photo = False, pc_follows = False,
      pc_favorites = False, pc_reposts = False\<rparr>"

definition profile_on_after_challenge_creation :: "full_event_meta list \<Rightarrow> unit ch" where
  "profile_on_after_challenge_creation metadatas =
     bnd (bnd (gets (\<lambda>db. add_all_rows pc_user_id (cd_profile db) (map new_profile_completion metadatas)))
            lift_res) (\<lambda>rows.
     modify (\<lambda>db. db\<lparr>cd_profile := rows\<rparr>))"

definition profile_updater :: updater where
  "profile_updater = base_updater
     \<lparr>up_update_user_challenges := profile_update_user_challenges,
      up_on_after_challenge_creation := profile_on_after_challenge_creation\<rparr>"

definition profile_challenge_manager :: manager where
  "profile_challenge_manager = new_manager ''profile-completion'' profile_updater"

section \<open>Listen streaks (listen_streak_challenge.py)\<close>

definition one_day :: int where "one_day = 86400"

definition get_listen_streak_override :: "int \<Rightarrow> ch_db \<Rightarrow> int \<Rightarrow> int option" where
  "get_listen_streak_override now db user_id =
     (case filter (\<lambda>l. ls_user_id l = user_id) (cd_streaks db) of
        [] \<Rightarrow> None
      | l # _ \<Rightarrow> (case ls_last_listen_date l of
          None \<Rightarrow> None
        | Some since \<Rightarrow> if 2 * one_day \<le> now - since then Some 0 else None))"

definition get_listen_streak_challenges :: "ch_db \<Rightarrow> int list \<Rightarrow> listen_streak list" where
  "get_listen_streak_challenges db user_ids = filter (\<lambda>l. ls_user_id l \<in> set user_ids) (cd_streaks db)"

text \<open>One listen at \<open>new_date\<close>, with times in seconds.\<close>

definition listen_at :: "int \<Rightarrow> listen_streak \<Rightarrow> listen_streak" where
  "listen_at new_date l =
     (case ls_last_listen_date l of
        None \<Rightarrow> l\<lparr>ls_last_listen_date := Some new_date, ls_listen_streak := 1\<rparr>
      | Some since \<Rightarrow>
          if one_day \<le> new_date - since
          then l\<lparr>ls_last_listen_date := Some new_date,
                 ls_listen_streak := (if 2 * one_day \<le> new_date - since then 1 else ls_listen_streak l + 1)\<rparr>
          else l)"

definition listen_time :: "full_event_meta \<Rightarrow> int result" where
  "listen_time e =
     bind_res (dict_sub (me_extra e) ''created_at'') (\<lambda>v.
     if is_int v then Inr (as_int v) else Inl TypeError)"

text \<open>The streaks are paired with the events by position.\<close>

fun handle_track_listens :: "listen_streak list \<Rightarrow> full_event_meta list \<Rightarrow> listen_streak list result" where
  "handle_track_listens [] es = Inr []"
| "handle_track_listens (l # ls) [] = Inl IndexError"
| "handle_track_listens (l # ls) (e # es) =
     bind_res (listen_time e) (\<lambda>t.
     bind_res (handle_track_listens ls es) (\<lambda>rest.
     Inr (listen_at t l # rest)))"

definition streak_progress :: "int \<Rightarrow> listen_streak list \<Rightarrow> user_challenge \<Rightarrow> user_challenge result" where
  "streak_progress step_count ls c =
     (case filter (\<lambda>l. ls_user_id l = uc_user_id c) ls of
        [] \<Rightarrow> Inl KeyError
      | qs \<Rightarrow> let n = ls_listen_streak (last qs)
              in Inr (c\<lparr>uc_current_step_count := Some n, uc_is_complete := step_count \<le> n\<rparr>))"

definition store_streaks :: "listen_streak list \<Rightarrow> ch_db \<Rightarrow> ch_db" where
  "store_streaks ls db = db\<lparr>cd_streaks := map (\<lambda>r. case find (\<lambda>l. ls_user_id l = ls_user_id r) ls of
     None \<Rightarrow> r | Some l \<Rightarrow> l) (cd_streaks db)\<rparr>"

definition listen_streak_update_user_challenges ::
    "string \<Rightarrow> user_challenge list \<Rightarrow> int option \<Rightarrow> full_event_meta list \<Rightarrow> int option \<Rightarrow> user_challenge list ch" where
  "listen_streak_update_user_challenges event ucs step_count metadatas starting_block =
     (case step_count of
        None \<Rightarrow> raise (Raised ''Expected a step count for listen streak challenge'')
      | Some k \<Rightarrow>
          bnd (gets (\<lambda>db. get_listen_streak_challenges db (map uc_user_id ucs))) (\<lambda>partial.
          bnd (lift_res (if event = track_listen then handle_track_listens partial metadatas else Inr partial)) (\<lambda>ls.
          sq (modify (store_streaks ls)) (
          lift_res (map_res (streak_progress k ls) ucs)))))"

definition listen_streak_on_after_challenge_creation :: "full_event_meta list \<Rightarrow> unit ch" where
  "listen_streak_on_after_challenge_creation metadatas =
     bnd (bnd (gets (\<lambda>db. add_all_rows ls_user_id (cd_streaks db)
             (map (\<lambda>e. \<lparr>ls_user_id = me_user_id e, ls_last_listen_date = None, ls_listen_streak = 0\<rparr>) metadatas)))
            lift_res) (\<lambda>rows.
     modify (\<lambda>db. db\<lparr>cd_streaks := rows\<rparr>))"

definition listen_streak_updater :: updater where
  "listen_streak_updater = base_updater
     \<lparr>up_update_user_challenges := listen_streak_update_user_challenges,
      up_on_after_challenge_creation := listen_streak_on_after_challenge_creation,
      up_get_override_challenge_step_count := get_listen_streak_override\<rparr>"

definition listen_streak_challenge_manager :: manager where
  "listen_streak_challenge_manager = new_manager ''listen-streak'' listen_streak_updater"

section \<open>Trending (trending_challenge.py)\<close>

definition trending_result_of :: "full_event_meta \<Rightarrow> trending_result result" where
  "trending_result_of e =
     bind_res (dict_sub (me_extra e) ''user_id'') (\<lambda>u.
     bind_res (dict_sub (me_extra e) ''id'') (\<lambda>i.
     bind_res (dict_sub (me_extra e) ''rank'') (\<lambda>r.
     bind_res (dict_sub (me_extra e) ''type'') (\<lambda>t.
     bind_res (dict_sub (me_extra e) ''version'') (\<lambda>v.
     bind_res (dict_sub (me_extra e) ''week'') (\<lambda>w.
     Inr \<lparr>tr_user_id = u, tr_id = i, tr_rank = r, tr_type = t, tr_version = v, tr_week = w\<rparr>))))))"

definition tr_key :: "trending_result \<Rightarrow> pyval \<times> pyval \<times> pyval \<times> pyval" where
  "tr_key r = (tr_rank r, tr_type r, tr_version r, tr_week r)"

definition trending_on_after_challenge_creation :: "full_event_meta list \<Rightarrow> unit ch" where
  "trending_on_after_challenge_creation metadatas =
     bnd (lift_res (map_res trending_result_of metadatas)) (\<lambda>results.
     bnd (bnd (gets (\<lambda>db. add_all_rows tr_key (cd_trending db) results)) lift_res) (\<lambda>rows.
     modify (\<lambda>db. db\<lparr>cd_trending := rows\<rparr>)))"

definition trending_specifier :: "int \<Rightarrow> pydict \<Rightarrow> string result" where
  "trending_specifier user_id extra =
     bind_res (bind_res (dict_sub extra ''week'') format_value) (\<lambda>w.
     bind_res (bind_res (dict_sub extra ''rank'') format_value) (\<lambda>r.
     Inr (w @ '':'' @ r)))"

definition trending_updater :: updater where
  "trending_updater = base_updater
     \<lparr>up_update_user_challenges := (\<lambda>event ucs step_count metadatas start. ret (complete_all ucs)),
      up_on_after_challenge_creation := trending_on_after_challenge_creation,
      up_generate_specifier := trending_specifier\<rparr>"

definition trending_track_challenge_manager :: manager where
  "trending_track_challenge_manager = new_manager ''tt'' trending_updater"

definition trending_underground_track_challenge_manager :: manager where
  "trending_underground_track_challenge_manager = new_manager ''tut'' trending_updater"

definition trending_playlist_challenge_manager :: manager where
  "trending_playlist_challenge_manager = new_manager ''tp'' trending_updater"

text \<open>
  The time window of the weekly run: Friday between 12 and 13 o'clock in Los Angeles.  Times are
  seconds since the epoch in UTC; whether daylight saving is in force then is the time zone
  database's answer.  The epoch was a Thursday.
\<close>

definition weekday :: "int \<Rightarrow> int" where
  "weekday t = (t div one_day + 3) mod 7"

definition hour_of_day :: "int \<Rightarrow> int" where
  "hour_of_day t = (t mod one_day) div 3600"

definition get_is_valid_timestamp :: "(int \<Rightarrow> bool) \<Rightarrow> int \<Rightarrow> bool" where
  "get_is_valid_timestamp is_dst t =
     (let lo = (if is_dst t then 19 else 20); hi = (if is_dst t then 20 else 21)
      in weekday t = 4 \<and> lo \<le> hour_of_day t \<and> hour_of_day t < hi)"

text \<open>The weeks of the stored trending results, as day numbers.\<close>

definition should_trending_challenge_update :: "(int \<Rightarrow> bool) \<Rightarrow> int list \<Rightarrow> int \<Rightarrow> bool \<times> int option" where
  "should_trending_challenge_update is_dst weeks t =
     (if \<not> get_is_valid_timestamp is_dst t then (False, None)
      else if weeks = [] then (True, Some (t div one_day))
      else if fold max weeks (hd weeks) = t div one_day then (False, None)
      else (True, Some (t div one_day)))"

section \<open>Every updater keeps the contract\<close>

lemma complete_all_ident: "map uc_ident (complete_all ucs) = map uc_ident ucs"
  by (simp add: complete_all_def uc_ident_def)

text \<open>The tables that all challenges share, which no updater writes.\<close>

abbreviation shared_tables :: "ch_db \<Rightarrow> user_challenge list \<times> challenge list" where
  "shared_tables db \<equiv> (cd_user_challenges db, cd_challenges db)"

interpretation connect_verified: settled_updater connect_verified_updater
  by unfold_locales (auto simp: connect_verified_updater_def base_updater_def ret_def complete_all_ident)

interpretation first_playlist: settled_updater first_playlist_updater
  by unfold_locales (auto simp: first_playlist_updater_def base_updater_def ret_def complete_all_ident)

interpretation mobile_install: settled_updater mobile_install_updater
  by unfold_locales (auto simp: mobile_install_updater_def base_updater_def ret_def complete_all_ident)

interpretation send_first_tip: settled_updater send_first_tip_updater
  by unfold_locales (auto simp: send_first_tip_updater_def base_updater_def ret_def complete_all_ident)

interpretation referred: settled_updater referred_updater
  by unfold_locales (auto simp: referred_updater_def base_updater_def ret_def complete_all_ident)

interpretation referral: settled_updater referral_updater
  by unfold_locales (auto simp: referral_updater_def base_updater_def ret_def)

interpretation verified_referral: settled_updater verified_referral_updater
  by unfold_locales (auto simp: verified_referral_updater_def base_updater_def ret_def)

lemma track_upload_update_ident:
  "track_upload_update ev ucs k es b db = (Inr ucs', db') \<Longrightarrow> map uc_ident ucs' = map uc_ident ucs"
  by (auto simp: track_upload_update_def gets_def raise_def Let_def uc_ident_def comp_def split: option.splits)

interpretation track_upload: settled_updater track_upload_updater
  by unfold_locales
    (auto simp: track_upload_updater_def base_updater_def ret_def track_upload_update_ident
      track_upload_update_def gets_def raise_def split: option.split)

lemma profile_progress_ident: "profile_progress k ps c = Inr d \<Longrightarrow> uc_ident d = uc_ident c"
  by (auto simp: profile_progress_def uc_ident_def Let_def split: list.splits)

lemma streak_progress_ident: "streak_progress k ls c = Inr d \<Longrightarrow> uc_ident d = uc_ident c"
  by (auto simp: streak_progress_def uc_ident_def Let_def split: list.splits)

lemma keeps_table_profile:
  "keeps (\<lambda>db. shared_tables db = T) (profile_update_user_challenges ev ucs k es b)"
  "keeps (\<lambda>db. shared_tables db = T) (profile_on_after_challenge_creation es)"
  unfolding profile_update_user_challenges_def profile_on_after_challenge_creation_def Let_def
    store_profiles_def
  by (intro keeps_rules keeps_modify; simp)+

lemma keeps_table_streak:
  "keeps (\<lambda>db. shared_tables db = T) (listen_streak_update_user_challenges ev ucs k es b)"
  "keeps (\<lambda>db. shared_tables db = T) (listen_streak_on_after_challenge_creation es)"
  unfolding listen_streak_update_user_challenges_def listen_streak_on_after_challenge_creation_def
    store_streaks_def
  by (auto split: option.split intro!: keeps_rules keeps_modify)

lemma keeps_table_trending:
  "keeps (\<lambda>db. shared_tables db = T) (trending_on_after_challenge_creation es)"
  unfolding trending_on_after_challenge_creation_def by (intro keeps_rules keeps_modify) simp

lemma keeps_table_eq:
  assumes "\<And>T. keeps (\<lambda>db. shared_tables db = T) m"
  shows "cd_user_challenges (snd (m db)) = cd_user_challenges db"
    and "cd_challenges (snd (m db)) = cd_challenges db"
  using keepsD [OF assms [of "shared_tables db"], of db] by simp_all

interpretation profile: settled_updater profile_updater
proof unfold_locales
  fix ev ucs k es b db ucs' db'
  assume "up_update_user_challenges profile_updater ev ucs k es b db = (Inr ucs', db')"
  then show "map uc_ident ucs' = map uc_ident ucs"
    by (auto simp: profile_updater_def profile_update_user_challenges_def Let_def bnd_Inr sq_Inr run_Inr
        intro: map_res_idents profile_progress_ident)
qed (simp_all add: profile_updater_def base_updater_def keeps_table_eq keeps_table_profile)

interpretation streak: settled_updater listen_streak_updater
proof unfold_locales
  fix ev ucs k es b db ucs' db'
  assume "up_update_user_challenges listen_streak_updater ev ucs k es b db = (Inr ucs', db')"
  then show "map uc_ident ucs' = map uc_ident ucs"
    by (auto simp: listen_streak_updater_def listen_streak_update_user_challenges_def bnd_Inr sq_Inr run_Inr
        raise_def split: option.splits intro: map_res_idents streak_progress_ident)
qed (simp_all add: listen_streak_updater_def base_updater_def keeps_table_eq keeps_table_streak)

interpretation trending: settled_updater trending_updater
  by unfold_locales
    (auto simp: trending_updater_def base_updater_def ret_def complete_all_ident keeps_table_eq
      keeps_table_trending)

end
