(* ===== verification/Challenge_Bus.thy ===== *)
theory Challenge_Bus
  imports Challenge_Updaters
begin

text \<open>
  challenges/challenge_event_bus.py: the bus that carries events from the indexer to the managers
  of the challenges.  The managers are shared objects: one manager may listen to several events,
  and what it reads of its settings when it first runs is seen by all of them.  They are the
  entries of a list here, and listeners refer to them by position.

  The relation \<open>bus_step\<close> describes everything that happens between the indexer, the bus and the
  tables; what it preserves holds for every interleaving of indexing and processing.
\<close>

section \<open>The bus\<close>

record bus =
  cb_objects :: "manager list"
  cb_listeners :: "(string, nat list) odict"
  cb_managers :: "(string, nat) odict"
  cb_queue :: "internal_event list"
  cb_redis :: "queue_entry list"

definition new_bus :: "manager list \<Rightarrow> queue_entry list \<Rightarrow> bus" where
  "new_bus objects redis =
     \<lparr>cb_objects = objects, cb_listeners = [], cb_managers = [], cb_queue = [], cb_redis = redis\<rparr>"

definition register_listener :: "string \<Rightarrow> nat \<Rightarrow> bus \<Rightarrow> bus" where
  "register_listener event i b =
     (let challenge_id = mg_challenge_id (cb_objects b ! i);
          b' = b\<lparr>cb_listeners := od_set (cb_listeners b) event (od_default (cb_listeners b) event [] @ [i])\<rparr>
      in if od_has (cb_managers b') challenge_id then b'
         else b'\<lparr>cb_managers := od_set (cb_managers b') challenge_id i\<rparr>)"

definition get_manager :: "bus \<Rightarrow> string \<Rightarrow> manager result" where
  "get_manager b challenge_id =
     (case od_get (cb_managers b) challenge_id of None \<Rightarrow> Inl KeyError | Some i \<Rightarrow> Inr (cb_objects b ! i))"

definition does_manager_exist :: "bus \<Rightarrow> string \<Rightarrow> bool" where
  "does_manager_exist b challenge_id = od_has (cb_managers b) challenge_id"

definition bus_dispatch_event :: "pyval \<Rightarrow> pyval \<Rightarrow> pyval \<Rightarrow> pyval \<Rightarrow> bus \<Rightarrow> bus" where
  "bus_dispatch_event ev block user extra b = b\<lparr>cb_queue := dispatch ev block user extra (cb_queue b)\<rparr>"

definition bus_flush :: "(queue_entry \<Rightarrow> bool) \<Rightarrow> bus \<Rightarrow> bus" where
  "bus_flush accepts b =
     (case flush accepts (cb_queue b, cb_redis b) of (q, r) \<Rightarrow> b\<lparr>cb_queue := q, cb_redis := r\<rparr>)"

section \<open>Processing a batch\<close>

text \<open>\<open>event_user_dict\<close>: the events by type, in the order in which the types first occur.\<close>

definition to_meta :: "internal_event \<Rightarrow> event_meta" where
  "to_meta ev = \<lparr>me_block_number = ie_block_number ev, me_user_id = ie_user_id ev, me_extra = ie_extra ev\<rparr>"

definition group_event ::
    "internal_event \<Rightarrow> (string, event_meta list) odict \<Rightarrow> (string, event_meta list) odict" where
  "group_event ev d = od_set d (ie_event ev) (od_default d (ie_event ev) [] @ [to_meta ev])"

definition group_events :: "internal_event list \<Rightarrow> (string, event_meta list) odict" where
  "group_events evs = fold group_event evs []"

text \<open>One listener: an exception it lets through is recorded and does not stop the others.\<close>

definition run_listener ::
    "string \<Rightarrow> event_meta list \<Rightarrow> nat \<Rightarrow> manager list \<times> ch_db \<times> bool \<Rightarrow> manager list \<times> ch_db \<times> bool" where
  "run_listener event metas i st =
     (case st of (objects, db, did_error) \<Rightarrow>
        (case process event metas (objects ! i) db of
           (r, m, db') \<Rightarrow> (objects[i := m], db', did_error \<or> isl r)))"

definition run_listeners ::
    "(string, nat list) odict \<Rightarrow> string \<times> event_meta list \<Rightarrow> manager list \<times> ch_db \<times> bool \<Rightarrow>
     manager list \<times> ch_db \<times> bool" where
  "run_listeners listeners em st =
     (case em of (event, metas) \<Rightarrow> fold (run_listener event metas) (od_default listeners event []) st)"

text \<open>
  \<open>lrange(key, 0, max_events)\<close> includes the position \<open>max_events\<close>.  The entries read are trimmed off
  the list before they are decoded.
\<close>

definition process_events :: "nat \<Rightarrow> bus \<times> ch_db \<Rightarrow> (int \<times> bool) \<times> bus \<times> ch_db" where
  "process_events max_events st =
     (case st of (b, db) \<Rightarrow>
        let events_json = take (max_events + 1) (cb_redis b);
            b' = b\<lparr>cb_redis := drop (length events_json) (cb_redis b)\<rparr>
        in case map_res json_to_event events_json of
             Inl x \<Rightarrow> ((-1, True), b', db)
           | Inr evs \<Rightarrow>
               (case fold (run_listeners (cb_listeners b)) (group_events evs) (cb_objects b, db, False) of
                  (objects, db', did_error) \<Rightarrow>
                    ((int (length events_json), did_error), b'\<lparr>cb_objects := objects\<rparr>, db')))"

section \<open>The bus of the service\<close>

text \<open>The managers of the modules of challenges/, in the order in which they are registered first.\<close>

definition challenge_managers :: "manager list" where
  "challenge_managers =
     [profile_challenge_manager, listen_streak_challenge_manager, track_upload_challenge_manager,
      referral_challenge_manager, verified_referral_challenge_manager, referred_challenge_manager,
      connect_verified_challenge_manager, mobile_install_challenge_manager,
      trending_track_challenge_manager, trending_underground_track_challenge_manager,
      trending_playlist_challenge_manager, send_first_tip_challenge_manager,
      first_playlist_challenge_manager]"

definition setup_challenge_bus :: "queue_entry list \<Rightarrow> bus" where
  "setup_challenge_bus redis =
     fold (\<lambda>(event, i) b. register_listener event i b)
       [(profile_update, 0), (ev_repost, 0), (ev_follow, 0), (ev_favorite, 0), (track_listen, 1),
        (track_upload, 2), (referral_signup, 3), (referral_signup, 4), (referred_signup, 5),
        (connect_verified, 6), (mobile_install, 7), (trending_track, 8), (trending_underground, 9),
        (trending_playlist, 10), (send_tip, 11), (first_playlist, 12)]
       (new_bus challenge_managers redis)"

section \<open>What the bus does\<close>

subsection \<open>Grouping\<close>

lemma group_events_get:
  "od_default (group_events evs) e [] = map to_meta (filter (\<lambda>ev. ie_event ev = e) evs)"
proof -
  have "od_default (fold group_event evs d) e [] =
      od_default d e [] @ map to_meta (filter (\<lambda>ev. ie_event ev = e) evs)" for d
    by (induction evs arbitrary: d) (auto simp: group_event_def od_simps od_default_def)
  then show ?thesis by (simp add: group_events_def od_default_def)
qed

subsection \<open>What every listener keeps, a batch keeps\<close>

text \<open>
  A fact about the managers and the tables that survives every run of a manager survives a batch:
  the order of the listeners and the errors they let through do not matter.
\<close>

locale manager_invariant =
  fixes I :: "manager list \<Rightarrow> ch_db \<Rightarrow> bool"
  assumes run: "\<lbrakk> I objects db; i < length objects; process event metas (objects ! i) db = (r, m, db') \<rbrakk>
    \<Longrightarrow> I (objects[i := m]) db'"
begin

lemma run_listener_keeps:
  assumes "I objects db" and "i < length objects" and "run_listener event metas i (objects, db, e) = (objects', db', e')"
  shows "I objects' db' \<and> length objects' = length objects"
  using assms run by (auto simp: run_listener_def split: prod.splits)

lemma run_listener_list_keeps:
  assumes "I objects db" and "\<forall>i \<in> set ns. i < length objects"
    and "fold (run_listener event metas) ns (objects, db, e) = (objects', db', e')"
  shows "I objects' db' \<and> length objects' = length objects"
  using assms
proof (induction ns arbitrary: objects db e)
  case (Cons i ns)
  obtain o1 d1 e1 where step: "run_listener event metas i (objects, db, e) = (o1, d1, e1)"
    by (cases "run_listener event metas i (objects, db, e)")
  from run_listener_keeps [OF Cons.prems(1) _ step] Cons.prems(2)
  have "I o1 d1" "length o1 = length objects" by simp_all
  then show ?case using Cons.IH [of o1 d1 e1] Cons.prems(2,3) step by simp
qed simp

lemma run_listeners_keeps:
  assumes "I objects db" and "\<forall>e. \<forall>i \<in> set (od_default ls e []). i < length objects"
    and "fold (run_listeners ls) ems (objects, db, e) = (objects', db', e')"
  shows "I objects' db' \<and> length objects' = length objects"
  using assms
proof (induction ems arbitrary: objects db e)
  case (Cons em ems)
  obtain o1 d1 e1 where step: "run_listeners ls em (objects, db, e) = (o1, d1, e1)"
    by (cases "run_listeners ls em (objects, db, e)")
  obtain event metas where "em = (event, metas)" by force
  then have "I o1 d1 \<and> length o1 = length objects"
    using step Cons.prems(1,2) by (intro run_listener_list_keeps) (simp_all add: run_listeners_def)
  then show ?case using Cons.IH [of o1 d1 e1] Cons.prems(2,3) step by simp
qed simp

lemma process_events_keeps:
  assumes "I (cb_objects b) db" and "\<forall>e. \<forall>i \<in> set (od_default (cb_listeners b) e []). i < length (cb_objects b)"
    and "process_events n (b, db) = (out, b', db')"
  shows "I (cb_objects b') db'"
proof (cases "map_res json_to_event (take (n + 1) (cb_redis b))")
  case (Inr evs)
  obtain o1 d1 e1 where
    f: "fold (run_listeners (cb_listeners b)) (group_events evs) (cb_objects b, db, False) = (o1, d1, e1)"
    by (cases "fold (run_listeners (cb_listeners b)) (group_events evs) (cb_objects b, db, False)")
  from run_listeners_keeps [OF assms(1,2) f] have "I o1 d1" by simp
  moreover have "cb_objects b' = o1" "db' = d1"
    using assms(3) Inr f by (auto simp: process_events_def)
  ultimately show ?thesis by simp
qed (use assms in \<open>auto simp: process_events_def\<close>)

end

subsection \<open>The promises of the managers\<close>

definition settled_managers :: "manager list \<Rightarrow> bool" where
  "settled_managers objects \<longleftrightarrow> (\<forall>m \<in> set objects. settled_updater (mg_updater m))"

lemma settled_managers_nth [intro]:
  "settled_managers objects \<Longrightarrow> i < length objects \<Longrightarrow> settled_updater (mg_updater (objects ! i))"
  by (simp add: settled_managers_def)

lemma settled_managers_update:
  assumes "settled_managers objects" and "i < length objects" and "process ev metas (objects ! i) db = (r, m, db')"
  shows "settled_managers (objects[i := m])"
proof -
  have up: "settled_updater (mg_updater (objects ! i))" using assms(1,2) by blast
  then have "mg_updater m = mg_updater (objects ! i)"
    using challenge_updater.process_effect [OF _ refl assms(3)] by (simp add: settled_updater_def)
  with up assms(1) show ?thesis
    unfolding settled_managers_def by (metis insertE set_update_subset_insert subsetD)
qed

text \<open>The rows of the table have different keys.\<close>

definition keys_ok :: "manager list \<Rightarrow> ch_db \<Rightarrow> bool" where
  "keys_ok objects db \<longleftrightarrow> settled_managers objects \<and> distinct (map uc_key (cd_user_challenges db))"

interpretation keys: manager_invariant keys_ok
proof unfold_locales
  fix objects db i event metas r m db'
  assume "keys_ok objects db" and i: "i < length objects"
    and run: "process event metas (objects ! i) db = (r, m, db')"
  then have ok: "settled_managers objects" "distinct (map uc_key (cd_user_challenges db))"
    by (simp_all add: keys_ok_def)
  have "challenge_updater (mg_updater (objects ! i))"
    using ok(1) i settled_updater.axioms(1) by blast
  from challenge_updater.process_keys [OF this refl run ok(2)]
  show "keys_ok (objects[i := m]) db'"
    using settled_managers_update [OF ok(1) i run] by (simp add: keys_ok_def)
qed

text \<open>A row that is complete stays as it is.\<close>

definition keeps_row :: "user_challenge \<Rightarrow> manager list \<Rightarrow> ch_db \<Rightarrow> bool" where
  "keeps_row c objects db \<longleftrightarrow> keys_ok objects db \<and> uc_is_complete c \<and> c \<in> set (cd_user_challenges db)"

interpretation row: manager_invariant "keeps_row c" for c
proof unfold_locales
  fix objects db i event metas r m db'
  assume row: "keeps_row c objects db" and i: "i < length objects"
    and run: "process event metas (objects ! i) db = (r, m, db')"
  then have ok: "settled_managers objects" "distinct (map uc_key (cd_user_challenges db))"
    by (simp_all add: keeps_row_def keys_ok_def)
  have "challenge_updater (mg_updater (objects ! i))"
    using ok(1) i settled_updater.axioms(1) by blast
  from challenge_updater.process_completed [OF this refl run ok(2)] row
  show "keeps_row c (objects[i := m]) db'"
    using keys.run [OF _ i run] by (simp add: keeps_row_def)
qed

text \<open>
  The cap of the aggregate challenges: a manager that has read its settings has those of the table,
  and no user has more rows of an aggregate challenge than its step count.
\<close>

definition setting :: "challenge list \<Rightarrow> string \<Rightarrow> challenge option" where
  "setting cs challenge_id = find (\<lambda>c. ch_id c = challenge_id) cs"

definition has_settings :: "challenge list \<Rightarrow> manager \<Rightarrow> bool" where
  "has_settings cs m \<longleftrightarrow> mg_did_init m \<longrightarrow>
     (\<exists>c. setting cs (mg_challenge_id m) = Some c \<and> mg_challenge_type m = Some (ch_type c) \<and>
        mg_step_count m = ch_step_count c)"

definition cap_ok :: "challenge list \<Rightarrow> user_challenge list \<Rightarrow> bool" where
  "cap_ok cs rows \<longleftrightarrow> (\<forall>cid u c k. setting cs cid = Some c \<longrightarrow> ch_type c = Aggregate \<longrightarrow>
     ch_step_count c = Some k \<longrightarrow> 0 < k \<longrightarrow> int (of_user cid u rows) \<le> k)"

definition caps_ok :: "challenge list \<Rightarrow> manager list \<Rightarrow> ch_db \<Rightarrow> bool" where
  "caps_ok cs objects db \<longleftrightarrow> keys_ok objects db \<and> cd_challenges db = cs \<and>
     (\<forall>m \<in> set objects. has_settings cs m) \<and> cap_ok cs (cd_user_challenges db)"

lemma find_filter: "find P xs = (case filter P xs of [] \<Rightarrow> None | x # _ \<Rightarrow> Some x)"
  by (induction xs) auto

lemma init_challenge_settings:
  "init_challenge db m = Inr m' \<Longrightarrow> has_settings (cd_challenges db) m' \<and> mg_did_init m'"
  by (auto simp: init_challenge_def has_settings_def setting_def find_filter split: list.splits)

text \<open>A manager that changed the tables has read its settings.\<close>

lemma process_has_settings:
  assumes "process event metas m0 db = (r, m, db')" and "has_settings (cd_challenges db) m0"
  shows "has_settings (cd_challenges db) m \<and> (mg_did_init m \<or> db' = db)"
proof (cases "if mg_did_init m0 then Inr m0 else init_challenge db m0")
  case (Inl x)
  then show ?thesis using assms by (simp add: process_def)
next
  case (Inr m1)
  then have m1: "has_settings (cd_challenges db) m1 \<and> mg_did_init m1"
    using assms(2) init_challenge_settings by (auto split: if_splits)
  moreover have "fst (snd (process event metas m0 db)) = m1"
    unfolding process_def Inr sum.case Let_def by (simp split: sum.split prod.split)
  then have "m = m1" using assms(1) by simp
  ultimately show ?thesis by simp
qed

lemma of_user_other:
  assumes "filter (\<lambda>c. uc_challenge_id c \<noteq> x) rows' = filter (\<lambda>c. uc_challenge_id c \<noteq> x) rows" and "cid \<noteq> x"
  shows "of_user cid u rows' = of_user cid u rows"
proof -
  let ?P = "\<lambda>c. uc_challenge_id c = cid \<and> uc_user_id c = u" and ?Q = "\<lambda>c. uc_challenge_id c \<noteq> x"
  have mine: "filter ?P xs = filter ?P (filter ?Q xs)" for xs
    using assms(2) by (induction xs) auto
  have "filter ?P rows' = filter ?P (filter ?Q rows')" by (rule mine)
  also have "\<dots> = filter ?P (filter ?Q rows)" using assms(1) by (rule arg_cong)
  also have "\<dots> = filter ?P rows" by (rule mine [symmetric])
  finally show ?thesis by (simp only: of_user_def)
qed

interpretation caps: manager_invariant "caps_ok cs" for cs
proof unfold_locales
  fix objects db i event metas r m db'
  assume caps: "caps_ok cs objects db" and i: "i < length objects"
    and run: "process event metas (objects ! i) db = (r, m, db')"
  then have ok: "keys_ok objects db" "cd_challenges db = cs" "cap_ok cs (cd_user_challenges db)"
    and sets: "has_settings cs (objects ! i)" "\<forall>m \<in> set objects. has_settings cs m"
    by (simp_all add: caps_ok_def)
  have up: "settled_updater (mg_updater (objects ! i))"
    using ok(1) i by (auto simp: keys_ok_def)
  then have up': "challenge_updater (mg_updater (objects ! i))" by (rule settled_updater.axioms(1))
  note effect = challenge_updater.process_effect [OF up' refl run]
  have m: "has_settings cs m" "mg_did_init m \<or> db' = db"
    using process_has_settings [OF run] sets(1) ok(2) by simp_all
  have "int (of_user cid u (cd_user_challenges db')) \<le> k"
    if c: "setting cs cid = Some c" "ch_type c = Aggregate" "ch_step_count c = Some k" "0 < k" for cid u c k
  proof -
    have cap: "int (of_user cid u (cd_user_challenges db)) \<le> k" using ok(3) c by (auto simp: cap_ok_def)
    show ?thesis
    proof (cases "mg_did_init m \<and> cid = mg_challenge_id m")
      case True
      then have "mg_challenge_type m = Some Aggregate" "mg_step_count m = Some k"
        using m(1) c by (auto simp: has_settings_def)
      from challenge_updater.process_aggregate [OF up' refl run _ this c(4)] True cap ok(1)
      show ?thesis by (simp add: keys_ok_def)
    next
      case False
      then have "db' = db \<or> cid \<noteq> mg_challenge_id (objects ! i)" using m(2) effect by auto
      then show ?thesis
        using cap of_user_other [OF challenge_updater.process_other [OF up' refl run]] by auto
    qed
  qed
  then have "cap_ok cs (cd_user_challenges db')" unfolding cap_ok_def by blast
  moreover have "cd_challenges db' = cs"
    using settled_updater.process_settings [OF up refl run] ok(2) by simp
  moreover have "\<forall>m \<in> set (objects[i := m]). has_settings cs m"
    using sets(2) m(1) set_update_subset_insert [of objects i m] by auto
  ultimately show "caps_ok cs (objects[i := m]) db'"
    using keys.run [OF ok(1) i run] by (simp add: caps_ok_def)
qed

section \<open>The bus among its users\<close>

text \<open>
  What can happen to the bus and the reward tables: an event is dispatched, the queue is flushed,
  a batch is processed, or the indexer changes the other tables.
\<close>

inductive bus_step :: "bus \<times> ch_db \<Rightarrow> bus \<times> ch_db \<Rightarrow> bool" where
  dispatch: "bus_step (b, db) (bus_dispatch_event ev block user extra b, db)"
| flush: "bus_step (b, db) (bus_flush accepts b, db)"
| process: "process_events n (b, db) = (out, b', db') \<Longrightarrow> bus_step (b, db) (b', db')"
| index: "bus_step (b, db) (b, db\<lparr>cd_rows := rows\<rparr>)"

inductive_cases bus_stepE: "bus_step (b, db) (b', db')"

definition listeners_ok :: "bus \<Rightarrow> bool" where
  "listeners_ok b \<longleftrightarrow> (\<forall>e. \<forall>i \<in> set (od_default (cb_listeners b) e []). i < length (cb_objects b))"

lemma fold_keeps: "(\<And>x st. x \<in> set xs \<Longrightarrow> P st \<Longrightarrow> P (f x st)) \<Longrightarrow> P st \<Longrightarrow> P (fold f xs st)"
  by (induction xs arbitrary: st) auto

lemma run_listeners_length: "length (fst (run_listeners ls em st)) = length (fst st)"
  unfolding run_listeners_def
  by (cases em; simp) (rule fold_keeps, auto simp: run_listener_def split: prod.splits)

lemma bus_frame:
  "cb_listeners (bus_dispatch_event ev block user extra b) = cb_listeners b"
  "cb_objects (bus_dispatch_event ev block user extra b) = cb_objects b"
  "cb_listeners (bus_flush accepts b) = cb_listeners b" "cb_objects (bus_flush accepts b) = cb_objects b"
  by (simp_all add: bus_dispatch_event_def bus_flush_def flush_def)

lemma process_events_bus:
  assumes "process_events n (b, db) = (out, b', db')"
  shows "cb_listeners b' = cb_listeners b" and "length (cb_objects b') = length (cb_objects b)"
    and "cb_redis b' = drop (n + 1) (cb_redis b)" and "cb_queue b' = cb_queue b"
proof -
  let ?f = "\<lambda>evs. fold (run_listeners (cb_listeners b)) (group_events evs) (cb_objects b, db, False)"
  have len: "length (fst (?f evs)) = length (cb_objects b)" for evs
    using fold_keeps [of "group_events evs" "\<lambda>st. length (fst st) = length (cb_objects b)"
        "run_listeners (cb_listeners b)" "(cb_objects b, db, False)"] run_listeners_length by simp
  have "drop (length (take (n + 1) (cb_redis b))) (cb_redis b) = drop (n + 1) (cb_redis b)"
    by (cases "n + 1 \<le> length (cb_redis b)") simp_all
  then show "cb_listeners b' = cb_listeners b" and "length (cb_objects b') = length (cb_objects b)"
    and "cb_redis b' = drop (n + 1) (cb_redis b)" and "cb_queue b' = cb_queue b"
    using assms len by (auto simp: process_events_def Let_def split: sum.splits prod.splits
        dest!: arg_cong [of _ _ fst])
qed

text \<open>What a run of a manager and the indexer keep, every step of the bus keeps.\<close>

lemma bus_step_keeps:
  assumes inv: "manager_invariant I" and index: "\<And>objects db rows. I objects db \<Longrightarrow> I objects (db\<lparr>cd_rows := rows\<rparr>)"
    and step: "bus_step (b, db) (b', db')" and "I (cb_objects b) db" and "listeners_ok b"
  shows "I (cb_objects b') db' \<and> listeners_ok b'"
proof -
  from step consider n out where "process_events n (b, db) = (out, b', db')"
    | rows where "cb_objects b' = cb_objects b" "cb_listeners b' = cb_listeners b"
        "db' = db \<or> db' = db\<lparr>cd_rows := rows\<rparr>"
    by (elim bus_stepE) (auto simp: bus_frame)
  then show ?thesis
  proof cases
    case (1 n out)
    then show ?thesis
      using manager_invariant.process_events_keeps [OF inv assms(4) _ 1]
        process_events_bus [OF 1] assms(5) by (simp add: listeners_ok_def)
  next
    case 2
    then show ?thesis using assms(4,5) index by (auto simp: listeners_ok_def)
  qed
qed

lemma bus_steps_keep:
  assumes inv: "manager_invariant I" and index: "\<And>objects db rows. I objects db \<Longrightarrow> I objects (db\<lparr>cd_rows := rows\<rparr>)"
    and steps: "bus_step\<^sup>*\<^sup>* s s'" and "I (cb_objects (fst s)) (snd s)" and "listeners_ok (fst s)"
  shows "I (cb_objects (fst s')) (snd s') \<and> listeners_ok (fst s')"
  using steps
proof (induction rule: rtranclp_induct)
  case base
  then show ?case using assms(4,5) by simp
next
  case (step t u)
  obtain b db b' db' where "t = (b, db)" "u = (b', db')" by (cases t, cases u) blast
  then show ?case using bus_step_keeps [OF inv index] step by simp
qed

subsection \<open>The service's own bus\<close>

lemmas manager_defs =
  profile_challenge_manager_def
  listen_streak_challenge_manager_def track_upload_challenge_manager_def
  referral_challenge_manager_def verified_referral_challenge_manager_def referred_challenge_manager_def
  connect_verified_challenge_manager_def mobile_install_challenge_manager_def
  trending_track_challenge_manager_def trending_underground_track_challenge_manager_def
  trending_playlist_challenge_manager_def send_first_tip_challenge_manager_def
  first_playlist_challenge_manager_def new_manager_def

lemma settled_challenge_managers: "settled_managers challenge_managers"
  unfolding settled_managers_def challenge_managers_def manager_defs
  using profile.settled_updater_axioms streak.settled_updater_axioms track_upload.settled_updater_axioms
    referral.settled_updater_axioms verified_referral.settled_updater_axioms
    referred.settled_updater_axioms connect_verified.settled_updater_axioms
    mobile_install.settled_updater_axioms trending.settled_updater_axioms
    send_first_tip.settled_updater_axioms first_playlist.settled_updater_axioms
  by simp

lemma register_listener_objects [simp]: "cb_objects (register_listener event i b) = cb_objects b"
  by (simp add: register_listener_def Let_def)

lemma register_listener_listeners:
  "cb_listeners (register_listener event i b) =
     od_set (cb_listeners b) event (od_default (cb_listeners b) event [] @ [i])"
  by (simp add: register_listener_def Let_def)

lemma register_listener_ok: "listeners_ok b \<Longrightarrow> i < length (cb_objects b) \<Longrightarrow> listeners_ok (register_listener event i b)"
  by (auto simp: listeners_ok_def register_listener_listeners od_simps od_default_def)

lemma setup_bus_objects [simp]: "cb_objects (setup_challenge_bus redis) = challenge_managers"
  by (simp add: setup_challenge_bus_def new_bus_def)

lemma setup_bus_listeners: "listeners_ok (setup_challenge_bus redis)"
  unfolding setup_challenge_bus_def fold.simps comp_def id_def case_prod_conv
  by (intro register_listener_ok)
    (simp_all add: new_bus_def listeners_ok_def od_default_def challenge_managers_def)

lemma fresh_managers: "m \<in> set challenge_managers \<Longrightarrow> \<not> mg_did_init m"
  by (auto simp: challenge_managers_def manager_defs)

end
