(* ===== verification/Indexing_Errors.thy ===== *)
theory Indexing_Errors
  imports Models "HOL-Library.List_Lexorder"
begin

text \<open>
  What an indexer does with a block it cannot process: the error record in Redis
  (queries/get_skipped_transactions.py), the poll of the other discovery nodes
  (queries/confirm_indexing_transaction_error.py), the table of skipped transactions
  (queries/skipped_transactions.py) and the order of the transactions of a block
  (tasks/sort_block_transactions.py).
\<close>

section \<open>Rows and records\<close>

datatype skip_level = Node_level | Network_level

text \<open>The column \<open>txhash\<close> is not nullable, but an instance may carry \<open>None\<close> until it is flushed.\<close>

record skipped_tx =
  sk_blocknumber :: int
  sk_blockhash :: string
  sk_txhash :: "string option"
  sk_level :: skip_level

record block_row =
  bk_hash :: string
  bk_parent :: "string option"
  bk_number :: "int option"
  bk_current :: bool

text \<open>The dictionary under \<open>indexing:error\<close>; the key is absent as long as nothing failed.\<close>

record indexing_error =
  err_count :: int
  err_blocknumber :: int
  err_blockhash :: string
  err_txhash :: "string option"
  err_message :: string
  err_has_consensus :: bool

text \<open>\<open>IndexingError\<close>, the exception that ends a run of the indexer.\<close>

record indexing_failure =
  fail_type :: string
  fail_blocknumber :: int
  fail_blockhash :: string
  fail_txhash :: "string option"
  fail_message :: string

section \<open>The error record\<close>

definition same_error :: "indexing_error \<Rightarrow> int \<Rightarrow> string \<Rightarrow> string option \<Rightarrow> bool" where
  "same_error err n h tx \<longleftrightarrow> err_blocknumber err = n \<and> err_blockhash err = h \<and> err_txhash err = tx"

definition set_indexing_error ::
    "int \<Rightarrow> string \<Rightarrow> string option \<Rightarrow> string \<Rightarrow> bool \<Rightarrow> indexing_error option \<Rightarrow> indexing_error option" where
  "set_indexing_error n h tx msg has_consensus old =
     (let fresh = \<lparr>err_count = 1, err_blocknumber = n, err_blockhash = h, err_txhash = tx,
                   err_message = msg, err_has_consensus = has_consensus\<rparr>
      in case old of
           None \<Rightarrow> Some fresh
         | Some err \<Rightarrow>
             if \<not> same_error err n h tx then Some fresh
             else Some (err\<lparr>err_count := err_count err + 1, err_has_consensus := has_consensus\<rparr>))"

definition clear_indexing_error :: "indexing_error option \<Rightarrow> indexing_error option" where
  "clear_indexing_error old = None"

text \<open>\<open>get_tx_hash_to_skip\<close> of the indexers.\<close>

definition get_tx_hash_to_skip :: "indexing_error option \<Rightarrow> string option" where
  "get_tx_hash_to_skip redis =
     (case redis of None \<Rightarrow> None
      | Some err \<Rightarrow> if err_has_consensus err then err_txhash err else None)"

section \<open>Skipped transactions\<close>

definition opt_filter :: "'a option \<Rightarrow> ('b \<Rightarrow> 'a) \<Rightarrow> 'b list \<Rightarrow> 'b list" where
  "opt_filter v f xs = (case v of None \<Rightarrow> xs | Some x \<Rightarrow> filter (\<lambda>r. f r = x) xs)"

definition get_skipped_transactions ::
    "skipped_tx list \<Rightarrow> int option \<Rightarrow> string option \<Rightarrow> string option \<Rightarrow> skipped_tx list" where
  "get_skipped_transactions rows n h tx =
     opt_filter (map_option Some tx) sk_txhash (opt_filter h sk_blockhash (opt_filter n sk_blocknumber rows))"

definition MAX_NETWORK_LEVEL_SKIPPED_TX :: nat where "MAX_NETWORK_LEVEL_SKIPPED_TX = 100"

definition add_node_level_skipped_transaction ::
    "int \<Rightarrow> string \<Rightarrow> string option \<Rightarrow> (skipped_tx list, unit) py" where
  "add_node_level_skipped_transaction n h tx =
     modify (\<lambda>rows. rows @ [\<lparr>sk_blocknumber = n, sk_blockhash = h, sk_txhash = tx, sk_level = Node_level\<rparr>])"

text \<open>At the limit a bare \<open>raise\<close> with no exception in flight: Python's \<open>RuntimeError\<close>.\<close>

definition add_network_level_skipped_transaction ::
    "int \<Rightarrow> string \<Rightarrow> string option \<Rightarrow> (skipped_tx list, unit) py" where
  "add_network_level_skipped_transaction n h tx =
     bnd (gets (\<lambda>rows. length (filter (\<lambda>r. sk_level r = Network_level) rows))) (\<lambda>num_skipped_tx.
     if num_skipped_tx \<ge> MAX_NETWORK_LEVEL_SKIPPED_TX
     then raise (Raised ''No active exception to reraise'')
     else modify (\<lambda>rows. rows @
       [\<lparr>sk_blocknumber = n, sk_blockhash = h, sk_txhash = tx, sk_level = Network_level\<rparr>]))"

section \<open>The status of a transaction\<close>

datatype tx_status = PASSED | FAILED | NOT_FOUND

definition get_transaction_status ::
    "indexing_error option \<Rightarrow> skipped_tx list \<Rightarrow> block_row list \<Rightarrow> int \<Rightarrow> string \<Rightarrow> string \<Rightarrow> tx_status result" where
  "get_transaction_status redis skipped blocks n h tx =
     (if (case redis of None \<Rightarrow> False | Some err \<Rightarrow> same_error err n h (Some tx)) then Inr FAILED
      else
        let rows = filter (\<lambda>r. sk_blocknumber r = n \<and> sk_blockhash r = h \<and> sk_txhash r = Some tx) skipped
        in if length rows > 1 then Inl (Raised ''more than 1 skipped transaction'')
           else if length rows = 1 then Inr FAILED
           else
             let found = filter (\<lambda>b. bk_number b = Some n \<and> bk_hash b = h) blocks
             in if length found > 1 then Inl (Raised ''more than 1 block'')
                else if length found = 1 then Inr PASSED
                else Inr NOT_FOUND)"

text \<open>The route \<open>/indexing/transaction_status\<close>: the answer, or an error with its status code.\<close>

datatype 'a http_response = Success 'a | Error_response int

definition check_transaction_status ::
    "indexing_error option \<Rightarrow> skipped_tx list \<Rightarrow> block_row list \<Rightarrow>
     int option \<Rightarrow> string option \<Rightarrow> string option \<Rightarrow> tx_status http_response" where
  "check_transaction_status redis skipped blocks n h tx =
     (case (n, h, tx) of
        (Some n, Some h, Some tx) \<Rightarrow>
          (case get_transaction_status redis skipped blocks n h tx of
             Inl x \<Rightarrow> Error_response 500 | Inr st \<Rightarrow> Success st)
      | _ \<Rightarrow> Error_response 400)"

section \<open>Consensus\<close>

text \<open>
  \<open>ask\<close> is the answer of another node to the query string of the request, which writes a
  missing hash as \<open>None\<close>; a request that fails or is not answered with status 200 has no
  answer.  The threshold \<open>INDEXING_FAILURE_CONSENSUS_PERCENT\<close> is 1: all of them.
\<close>

definition INDEXING_FAILURE_CONSENSUS_PERCENT :: nat where "INDEXING_FAILURE_CONSENSUS_PERCENT = 1"

definition tx_param :: "string option \<Rightarrow> string" where
  "tx_param tx = (case tx of None \<Rightarrow> ''None'' | Some h \<Rightarrow> h)"

definition confirm_indexing_transaction_error ::
    "(string \<Rightarrow> int \<Rightarrow> string \<Rightarrow> string \<Rightarrow> tx_status option) \<Rightarrow> string list \<Rightarrow>
     int \<Rightarrow> string \<Rightarrow> string option \<Rightarrow> string \<Rightarrow> indexing_error option \<Rightarrow> indexing_error option" where
  "confirm_indexing_transaction_error ask all_other_nodes n h tx msg redis =
     (let num_other_nodes = length all_other_nodes;
          num_transaction_failures =
            length (filter (\<lambda>node. ask node n h (tx_param tx) = Some FAILED) all_other_nodes)
      in if num_other_nodes \<ge> 1 \<and>
            num_transaction_failures \<ge> num_other_nodes * INDEXING_FAILURE_CONSENSUS_PERCENT
         then set_indexing_error n h tx msg True redis
         else redis)"

text \<open>
  \<open>get_all_other_nodes\<close>: of the registered nodes, as pairs of endpoint and wallet, those with
  another wallet than this node's and a well-formed endpoint; \<open>is_fqdn\<close> is the URL validator.
\<close>

definition get_all_other_nodes ::
    "(string \<Rightarrow> bool) \<Rightarrow> string \<Rightarrow> (string \<times> string) list \<Rightarrow> string list \<times> string list" where
  "get_all_other_nodes is_fqdn own_wallet resp =
     (let others = filter (\<lambda>(endpoint, wallet). wallet \<noteq> own_wallet \<and> is_fqdn endpoint) resp
      in (map fst others, map snd others))"

text \<open>\<open>create_and_raise_indexing_error\<close>: the error is recorded, then confirmed.\<close>

definition record_failure ::
    "(string \<Rightarrow> int \<Rightarrow> string \<Rightarrow> string \<Rightarrow> tx_status option) \<Rightarrow> string list \<Rightarrow>
     indexing_failure \<Rightarrow> indexing_error option \<Rightarrow> indexing_error option" where
  "record_failure ask nodes f redis =
     confirm_indexing_transaction_error ask nodes (fail_blocknumber f) (fail_blockhash f) (fail_txhash f)
       (fail_message f)
       (set_indexing_error (fail_blocknumber f) (fail_blockhash f) (fail_txhash f) (fail_message f) False redis)"

section \<open>The order of the transactions\<close>

record chain_tx =
  ct_hash :: string
  ct_to :: "string option"
  ct_index :: int

definition sort_block_transactions :: "int \<Rightarrow> int \<Rightarrow> chain_tx list \<Rightarrow> chain_tx list" where
  "sort_block_transactions number start_block txs =
     (if number > start_block then sort_key ct_index txs else sort_key ct_hash txs)"

section \<open>Facts\<close>

lemma set_indexing_error_Some:
  "\<exists>err. set_indexing_error n h tx msg c redis = Some err \<and> same_error err n h tx \<and> err_has_consensus err = c"
  by (auto simp: set_indexing_error_def Let_def same_error_def split: option.split)

lemma record_failure_cases:
  obtains (agreed) err where "record_failure ask nodes f redis = Some err" "err_has_consensus err"
      "same_error err (fail_blocknumber f) (fail_blockhash f) (fail_txhash f)" "nodes \<noteq> []"
      "\<forall>node \<in> set nodes. ask node (fail_blocknumber f) (fail_blockhash f) (tx_param (fail_txhash f)) = Some FAILED"
    | (alone) err where "record_failure ask nodes f redis = Some err" "\<not> err_has_consensus err"
      "same_error err (fail_blocknumber f) (fail_blockhash f) (fail_txhash f)"
proof -
  let ?P = "\<lambda>node. ask node (fail_blocknumber f) (fail_blockhash f) (tx_param (fail_txhash f)) = Some FAILED"
  let ?r = "set_indexing_error (fail_blocknumber f) (fail_blockhash f) (fail_txhash f) (fail_message f) False redis"
  show thesis
  proof (cases "nodes \<noteq> [] \<and> length nodes \<le> length (filter ?P nodes)")
    case True
    then have "record_failure ask nodes f redis = set_indexing_error (fail_blocknumber f)
        (fail_blockhash f) (fail_txhash f) (fail_message f) True ?r"
      by (simp add: record_failure_def confirm_indexing_transaction_error_def
          INDEXING_FAILURE_CONSENSUS_PERCENT_def Suc_le_eq)
    moreover obtain err where "set_indexing_error (fail_blocknumber f) (fail_blockhash f)
          (fail_txhash f) (fail_message f) True ?r = Some err"
        "same_error err (fail_blocknumber f) (fail_blockhash f) (fail_txhash f)" "err_has_consensus err"
      using set_indexing_error_Some by blast
    moreover have "\<forall>node \<in> set nodes. ?P node"
      using True length_filter_less [of _ nodes ?P] by (auto simp: not_less [symmetric])
    ultimately show thesis using True by (intro agreed) simp_all
  next
    case False
    then have *: "record_failure ask nodes f redis = ?r"
      by (auto simp: record_failure_def confirm_indexing_transaction_error_def
          INDEXING_FAILURE_CONSENSUS_PERCENT_def Suc_le_eq)
    obtain err where "?r = Some err" "\<not> err_has_consensus err"
        "same_error err (fail_blocknumber f) (fail_blockhash f) (fail_txhash f)"
      using set_indexing_error_Some [of _ _ _ _ False] by (metis (full_types))
    with * show thesis by (intro alone) simp_all
  qed
qed

lemma sort_block_transactions_set [simp]:
  "set (sort_block_transactions n start txs) = set txs"
  by (simp add: sort_block_transactions_def)

end
