(* ===== verification/Metadata_Client.thy ===== *)
theory Metadata_Client
  imports EM_Update
begin

text \<open>
  The metadata an event refers to by its CID: which CIDs the events of a block need
  (\<open>fetch_cid_metadata\<close> of tasks/index_nethermind.py), how the content nodes are asked for
  them (utils/cid_metadata_client.py with the formats of tasks/metadata.py), and the table of
  fetched documents (\<open>save_cid_metadata\<close> of tasks/index.py).
\<close>

section \<open>Formats\<close>

definition track_metadata_format :: pydict where
  "track_metadata_format =
    [(''track_cid'', PNone), (''owner_id'', PNone), (''title'', PNone), (''route_id'', PNone),
     (''length'', PInt 0), (''cover_art'', PNone), (''cover_art_sizes'', PNone), (''tags'', PNone),
     (''genre'', PNone), (''mood'', PNone), (''credits_splits'', PNone), (''create_date'', PNone),
     (''release_date'', PNone), (''file_type'', PNone), (''description'', PNone),
     (''license'', PNone), (''isrc'', PNone), (''iswc'', PNone), (''track_segments'', PList []),
     (''download'', PDict []), (''remix_of'', PNone), (''is_unlisted'', PBool False),
     (''field_visibility'', PNone), (''stem_of'', PNone), (''is_premium'', PBool False),
     (''premium_conditions'', PNone), (''is_playlist_upload'', PBool False)]"

definition user_metadata_format :: pydict where
  "user_metadata_format =
    [(''profile_picture'', PNone), (''profile_picture_sizes'', PNone), (''cover_photo'', PNone),
     (''cover_photo_sizes'', PNone), (''bio'', PNone), (''name'', PNone), (''location'', PNone),
     (''handle'', PNone), (''associated_wallets'', PNone), (''associated_sol_wallets'', PNone),
     (''collectibles'', PNone), (''playlist_library'', PNone), (''events'', PNone),
     (''is_deactivated'', PNone), (''artist_pick_track_id'', PNone)]"

definition playlist_metadata_format :: pydict where
  "playlist_metadata_format =
    [(''playlist_id'', PNone), (''playlist_contents'', PNone), (''playlist_name'', PNone),
     (''playlist_image_sizes_multihash'', PNone), (''description'', PNone), (''is_album'', PNone),
     (''is_private'', PNone)]"

definition metadata_format_of :: "string \<Rightarrow> pydict result" where
  "metadata_format_of ty =
     (if ty = ''track'' then Inr track_metadata_format
      else if ty = ''user'' then Inr user_metadata_format
      else if ty = ''playlist_data'' then Inr playlist_metadata_format
      else Inl (Raised ''Unknown metadata type''))"

text \<open>\<open>_get_metadata_from_json\<close>.\<close>

definition get_metadata_from_json :: "pydict \<Rightarrow> pyval \<Rightarrow> pydict result" where
  "get_metadata_from_json default_metadata_fields resp_json =
     map_res (\<lambda>(parameter, v). bind_res (get_method resp_json parameter PNone) (\<lambda>w.
       Inr (parameter, if w \<noteq> PNone then w else v))) default_metadata_fields"

definition same_fields :: "pydict \<Rightarrow> pydict \<Rightarrow> bool" where
  "same_fields = list_all2 (\<lambda>(k, v) (k', w). k = k' \<and> py_eq v w)"

section \<open>The CIDs of a block\<close>

text \<open>The loop over the receipts: the set of CIDs with their transactions, who sent them, what they hold.\<close>

record cid_refs =
  cids_txhash_set :: "(string \<times> string) list"
  cid_to_user_id :: "(string, int) odict"
  cid_type :: "(string, string) odict"

definition note_cid_type :: "string \<Rightarrow> string \<Rightarrow> (string, string) odict \<Rightarrow> (string, string) odict" where
  "note_cid_type event_type cid d =
     (if event_type = ''Playlist'' then od_set d cid ''playlist_data''
      else if event_type = ''Track'' then od_set d cid ''track''
      else if event_type = ''User'' then od_set d cid ''user''
      else d)"

definition note_event :: "string \<Rightarrow> em_event \<Rightarrow> cid_refs \<Rightarrow> cid_refs" where
  "note_event txhash ev c =
     (let cid = ev_metadata ev in
      if cid = [] \<or> ev_entity_type ev = ''UserReplicaSet'' then c
      else if ev_action ev = ''Create'' \<and> ev_entity_type ev = ''User'' then c
      else c\<lparr>cids_txhash_set := List.insert (cid, txhash) (cids_txhash_set c),
             cid_to_user_id := od_set (cid_to_user_id c) cid (ev_user_id ev),
             cid_type := note_cid_type (ev_entity_type ev) cid (cid_type c)\<rparr>)"

definition collect_cids :: "em_tx list \<Rightarrow> cid_refs" where
  "collect_cids txs =
     fold (\<lambda>tx. fold (note_event (tx_hash tx)) (tx_events tx)) txs
       \<lparr>cids_txhash_set = [], cid_to_user_id = [], cid_type = []\<rparr>"

text \<open>The current users among the senders with their replica sets.\<close>

definition user_to_replica_set :: "inst list \<Rightarrow> cid_refs \<Rightarrow> (pyval, pyval) odict" where
  "user_to_replica_set users c =
     od_build (\<lambda>u. attr u ''user_id'') (\<lambda>u. attr u ''creator_node_endpoint'')
       (filter (\<lambda>u. is_current_row u \<and> attr u ''user_id'' \<in> PInt ` snd ` set (cid_to_user_id c)) users)"

section \<open>Asking the content nodes\<close>

text \<open>
  \<open>answers\<close> is the network: for the list of requests (CID and endpoint) it gives the documents
  in the order in which they arrive, up to the overall timeout; \<open>None\<close> stands for a request
  that failed or was cancelled.  A cancelled request makes the loop look at the previous
  document again, which changes nothing.
\<close>

type_synonym gateway = "(string \<times> string) list \<Rightarrow> (string \<times> pyval) option list"

definition get_gateway_endpoints ::
    "string list \<Rightarrow> bool \<Rightarrow> int \<Rightarrow> (pyval, pyval) odict \<Rightarrow> string list" where
  "get_gateway_endpoints cnode_endpoints should_fetch_from_replica_set user_id replica_sets =
     (if should_fetch_from_replica_set \<and> user_id \<noteq> 0 \<and> od_has replica_sets (PInt user_id)
      then (case od_default replica_sets (PInt user_id) PNone of
              PStr rs \<Rightarrow> if rs = [] then [] else str_split (CHR '','') rs
            | _ \<Rightarrow> [])
      else cnode_endpoints)"

definition cid_requests ::
    "string list \<Rightarrow> bool \<Rightarrow> string list \<Rightarrow> cid_refs \<Rightarrow> (pyval, pyval) odict \<Rightarrow> (string \<times> string) list" where
  "cid_requests cnode_endpoints replica fetched c replica_sets =
     concat (map (\<lambda>(cid, _). if cid \<in> set fetched then []
       else map (Pair cid) (get_gateway_endpoints cnode_endpoints replica
              (od_default (cid_to_user_id c) cid 0) replica_sets)) (cids_txhash_set c))"

fun gather_metadata ::
    "(string, string) odict \<Rightarrow> nat \<Rightarrow> nat \<Rightarrow> (string \<times> pyval) option list \<Rightarrow>
     (string, pydict) odict \<Rightarrow> (string, pydict) odict result" where
  "gather_metadata types num_fetched needed [] acc = Inr acc"
| "gather_metadata types num_fetched needed (None # as) acc = gather_metadata types num_fetched needed as acc"
| "gather_metadata types num_fetched needed (Some (cid, metadata_json) # as) acc =
     (case od_get types cid of
        None \<Rightarrow> Inl KeyError
      | Some ty \<Rightarrow> bind_res (metadata_format_of ty) (\<lambda>metadata_format.
          bind_res (get_metadata_from_json metadata_format metadata_json) (\<lambda>formatted_json.
          if \<not> same_fields formatted_json metadata_format
          then (let acc' = od_set acc cid formatted_json in
                if num_fetched + length acc' = needed then Inr acc'
                else gather_metadata types num_fetched needed as acc')
          else gather_metadata types num_fetched needed as acc)))"

definition fetch_metadata_from_gateway_endpoints ::
    "gateway \<Rightarrow> string list \<Rightarrow> (string, pydict) odict \<Rightarrow> cid_refs \<Rightarrow> (pyval, pyval) odict \<Rightarrow> bool \<Rightarrow>
     (string, pydict) odict result" where
  "fetch_metadata_from_gateway_endpoints answers cnode_endpoints fetched c replica_sets replica =
     gather_metadata (cid_type c) (length fetched) (length (cids_txhash_set c))
       (answers (cid_requests cnode_endpoints replica (od_keys fetched) c replica_sets)) []"

text \<open>\<open>d.update(d')\<close>.\<close>

definition od_update :: "('k, 'v) odict \<Rightarrow> ('k, 'v) odict \<Rightarrow> ('k, 'v) odict" where
  "od_update d d' = fold (\<lambda>(k, v) d. od_set d k v) d' d"

text \<open>First the senders' replica sets are asked, then every node for what is still missing.\<close>

definition fetch_cid_metadata ::
    "gateway \<Rightarrow> string list \<Rightarrow> inst list \<Rightarrow> em_tx list \<Rightarrow>
     ((string, pydict) odict \<times> (string, string) odict) result" where
  "fetch_cid_metadata answers cnode_endpoints users txs =
     (let c = collect_cids txs; replica_sets = user_to_replica_set users c in
      bind_res (fetch_metadata_from_gateway_endpoints answers cnode_endpoints [] c replica_sets True) (\<lambda>d1.
      let first = od_update [] d1 in
      bind_res (if length first \<noteq> length (cids_txhash_set c)
                then bind_res (fetch_metadata_from_gateway_endpoints answers cnode_endpoints first c
                                 replica_sets False) (\<lambda>d2. Inr (od_update first d2))
                else Inr first) (\<lambda>cid_metadata.
      if cid_type c \<noteq> [] \<and> length cid_metadata \<noteq> length (cid_type c)
      then Inl (Raised ''Did not fetch all CIDs'')
      else Inr (cid_metadata, cid_type c))))"

section \<open>The table of documents\<close>

record cid_row =
  cid_key :: string
  cid_row_type :: string
  cid_data :: pydict

definition upsert_cid :: "cid_row \<Rightarrow> cid_row list \<Rightarrow> cid_row list" where
  "upsert_cid row rows = (if cid_key row \<in> cid_key ` set rows then rows else rows @ [row])"

definition save_cid_metadata ::
    "(string, pydict) odict \<Rightarrow> (string, string) odict \<Rightarrow> cid_row list \<Rightarrow> cid_row list result" where
  "save_cid_metadata cid_metadata types rows =
     bind_res (map_res (\<lambda>(cid, val). case od_get types cid of
         None \<Rightarrow> Inl KeyError
       | Some ty \<Rightarrow> Inr \<lparr>cid_key = cid, cid_row_type = ty, cid_data = val\<rparr>) cid_metadata) (\<lambda>vals.
     Inr (fold upsert_cid vals rows))"

section \<open>What a successful fetch holds\<close>

lemma gather_metadata_keys:
  assumes "gather_metadata types n m as acc = Inr d" and "distinct (od_keys acc)"
    and "set (od_keys acc) \<subseteq> set (od_keys types)"
  shows "distinct (od_keys d) \<and> set (od_keys d) \<subseteq> set (od_keys types)"
  using assms
proof (induction types n m as acc rule: gather_metadata.induct)
  case (3 types n m cid json as acc)
  from "3.prems"(1) obtain ty fmt j where ty: "od_get types cid = Some ty"
      and fmt: "metadata_format_of ty = Inr fmt" and j: "get_metadata_from_json fmt json = Inr j"
      and rest: "(if \<not> same_fields j fmt
          then (let acc' = od_set acc cid j in
                if n + length acc' = m then Inr acc' else gather_metadata types n m as acc')
          else gather_metadata types n m as acc) = Inr d"
    by (auto simp: bind_res_Inr split: option.splits)
  have "cid \<in> set (od_keys types)" using ty od_get_None_iff [of types cid] by simp
  then have acc': "distinct (od_keys (od_set acc cid j))" "set (od_keys (od_set acc cid j)) \<subseteq> set (od_keys types)"
    using "3.prems"(2,3) by (simp_all add: distinct_od_set od_keys_set)
  show ?case
  proof (cases "same_fields j fmt")
    case True
    then show ?thesis using rest "3.IH"(2) [OF ty] "3.prems"(2,3) by simp
  next
    case False
    then show ?thesis
      using rest "3.IH"(1) [OF ty _ refl] acc'
      by (cases "n + length (od_set acc cid j) = m") (auto simp: Let_def)
  qed
qed simp_all

lemma od_update_keys:
  "distinct (od_keys d) \<Longrightarrow> distinct (od_keys (od_update d d')) \<and>
   set (od_keys (od_update d d')) \<subseteq> set (od_keys d) \<union> set (od_keys d')"
proof (induction d' arbitrary: d)
  case (Cons kv d')
  have "distinct (od_keys (od_set d (fst kv) (snd kv)))" using Cons.prems by (rule distinct_od_set)
  then have "distinct (od_keys (od_update (od_set d (fst kv) (snd kv)) d')) \<and>
      set (od_keys (od_update (od_set d (fst kv) (snd kv)) d')) \<subseteq>
      set (od_keys (od_set d (fst kv) (snd kv))) \<union> set (od_keys d')"
    by (rule Cons.IH)
  moreover have "od_update d (kv # d') = od_update (od_set d (fst kv) (snd kv)) d'"
    by (simp add: od_update_def case_prod_beta)
  moreover have "set (od_keys (od_set d (fst kv) (snd kv))) \<union> set (od_keys d') \<subseteq>
      set (od_keys d) \<union> set (od_keys (kv # d'))"
    by (auto simp: od_keys_set) (auto simp: od_keys_def)
  ultimately show ?case by (metis subset_trans)
qed (simp add: od_update_def)

lemma fetch_cid_metadata_keys:
  assumes "fetch_cid_metadata answers nodes users txs = Inr (md, types)"
  shows "types = cid_type (collect_cids txs)"
    and "distinct (od_keys md) \<and> set (od_keys md) \<subseteq> set (od_keys types)"
    and "types \<noteq> [] \<longrightarrow> length md = length types"
proof -
  let ?c = "collect_cids txs"
  let ?fetch = "\<lambda>fetched. fetch_metadata_from_gateway_endpoints answers nodes fetched ?c (user_to_replica_set users ?c)"
  have keys: "distinct (od_keys d) \<and> set (od_keys d) \<subseteq> set (od_keys (cid_type ?c))"
    if "?fetch fetched b = Inr d" for fetched b d
    using that unfolding fetch_metadata_from_gateway_endpoints_def
    by (rule gather_metadata_keys) (simp_all add: od_keys_def)
  have upd: "distinct (od_keys (od_update d d')) \<and> set (od_keys (od_update d d')) \<subseteq> A"
    if "distinct (od_keys d)" "set (od_keys d) \<subseteq> A" "set (od_keys d') \<subseteq> A"
    for d d' :: "(string, pydict) odict" and A
    using od_update_keys [OF that(1), of d'] that(2,3) by blast
  from assms obtain d1 where d1: "?fetch [] True = Inr d1"
    by (auto simp: fetch_cid_metadata_def Let_def bind_res_Inr)
  let ?first = "od_update [] d1"
  from assms d1 have types: "types = cid_type ?c" and len: "types \<noteq> [] \<longrightarrow> length md = length types"
    and md: "md = ?first \<or> (\<exists>d2. ?fetch ?first False = Inr d2 \<and> md = od_update ?first d2)"
    by (auto simp: fetch_cid_metadata_def Let_def bind_res_Inr split: if_splits)
  show "types = cid_type ?c" by (rule types)
  show "types \<noteq> [] \<longrightarrow> length md = length types" by (rule len)
  have first: "distinct (od_keys ?first) \<and> set (od_keys ?first) \<subseteq> set (od_keys types)"
    unfolding types using keys [OF d1] by (intro upd) (simp_all add: od_keys_def)
  from md show "distinct (od_keys md) \<and> set (od_keys md) \<subseteq> set (od_keys types)"
  proof
    assume "\<exists>d2. ?fetch ?first False = Inr d2 \<and> md = od_update ?first d2"
    then obtain d2 where d2: "?fetch ?first False = Inr d2" "md = od_update ?first d2" by blast
    show ?thesis unfolding d2(2)
      using first keys [OF d2(1)] types by (intro upd) simp_all
  qed (use first in simp)
qed

lemma collect_cids_types:
  "cid \<in> set (od_keys (cid_type (collect_cids txs))) \<longleftrightarrow>
   (\<exists>tx \<in> set txs. \<exists>ev \<in> set (tx_events tx). ev_metadata ev = cid \<and> cid \<noteq> [] \<and>
      ev_entity_type ev \<in> {''Playlist'', ''Track'', ''User''} \<and>
      \<not> (ev_action ev = ''Create'' \<and> ev_entity_type ev = ''User''))"
proof -
  let ?P = "\<lambda>ev. ev_metadata ev = cid \<and> cid \<noteq> [] \<and>
      ev_entity_type ev \<in> {''Playlist'', ''Track'', ''User''} \<and>
      \<not> (ev_action ev = ''Create'' \<and> ev_entity_type ev = ''User'')"
  have ev: "cid \<in> set (od_keys (cid_type (note_event h ev c))) \<longleftrightarrow>
      cid \<in> set (od_keys (cid_type c)) \<or> ?P ev" for h ev c
    by (auto simp: note_event_def note_cid_type_def Let_def od_keys_set)
  have evs: "cid \<in> set (od_keys (cid_type (fold (note_event h) evs c))) \<longleftrightarrow>
      cid \<in> set (od_keys (cid_type c)) \<or> (\<exists>ev \<in> set evs. ?P ev)" for h evs c
    by (induction evs arbitrary: c) (simp, simp only: fold_simps comp_apply ev bex_simps set_simps, blast)
  have "cid \<in> set (od_keys (cid_type (fold (\<lambda>tx. fold (note_event (tx_hash tx)) (tx_events tx)) txs c))) \<longleftrightarrow>
      cid \<in> set (od_keys (cid_type c)) \<or> (\<exists>tx \<in> set txs. \<exists>ev \<in> set (tx_events tx). ?P ev)" for c
    by (induction txs arbitrary: c) (simp, simp only: fold_simps comp_apply evs bex_simps set_simps, blast)
  then show ?thesis by (simp add: collect_cids_def od_keys_def)
qed

end
