(* ===== verification/Block_Indexer.thy ===== *)
theory Block_Indexer
  imports Indexing_Errors Metadata_Client Challenge_Updaters
begin

text \<open>
  tasks/index_nethermind.py, the forward direction: one block of the chain becomes a row of
  \<open>blocks\<close>, the changes its transactions make, and an entry in Redis.  A block is processed
  in a database session whose scope ends with a commit or a rollback, nested around the scope
  of the challenge bus queue, which is flushed either way.
\<close>

section \<open>The chain and the state\<close>

record chain_block =
  cb_hash :: string
  cb_parent :: string
  cb_number :: int
  cb_timestamp :: int
  cb_txs :: "chain_tx list"

text \<open>
  What a run of the indexer takes from outside: the node of the chain (receipts with their
  decoded events, blocks by hash and by number), the content nodes, the other discovery nodes,
  the database's verdict on a commit, and the configuration.
\<close>

record ix_env =
  ix_em_env :: env
  ix_receipt :: "chain_tx \<Rightarrow> em_tx option"
  ix_gateway :: gateway
  ix_cnodes :: "string list"
  ix_ask :: "string \<Rightarrow> int \<Rightarrow> string \<Rightarrow> string \<Rightarrow> tx_status option"
  ix_other_nodes :: "string list"
  ix_commit_error :: "chain_block \<Rightarrow> string option"
  ix_accepts :: "queue_entry \<Rightarrow> bool"
  ix_is_dst :: "int \<Rightarrow> bool"
  ix_em_address :: "string option"
  ix_sort_start :: int
  ix_save_cid :: bool

text \<open>
  \<open>ix_em\<close> holds the tables of the entity manager and the in-memory queue of the bus,
  \<open>ix_error\<close>, \<open>ix_queue\<close>, \<open>ix_last\<close> (the last indexed block), \<open>ix_tip\<close> (the latest block of the
  chain) and \<open>ix_poa\<close> (the last block of the old chain) are Redis keys, \<open>ix_tasks\<close> the Celery
  tasks sent.
\<close>

record ix_state =
  ix_em :: em_state
  ix_blocks :: "block_row list"
  ix_skipped :: "skipped_tx list"
  ix_cids :: "cid_row list"
  ix_weeks :: "int list"
  ix_error :: "indexing_error option"
  ix_queue :: "queue_entry list"
  ix_last :: "(int \<times> string) option"
  ix_tip :: "(int \<times> string) option"
  ix_poa :: "int option"
  ix_tasks :: "int list"

type_synonym 'a ix = "(ix_state, 'a) py"

text \<open>
  The constraints of the tables, checked when pending rows are flushed: block hashes and
  numbers are unique, a skipped transaction has a hash.  Once a flush has failed the session
  is unusable, so every later query raises as well.
\<close>

definition flush_ok :: "ix_state \<Rightarrow> bool" where
  "flush_ok s \<longleftrightarrow> distinct (map bk_hash (ix_blocks s)) \<and>
     distinct (filter (\<lambda>n. n \<noteq> None) (map bk_number (ix_blocks s))) \<and>
     list_all (\<lambda>r. sk_txhash r \<noteq> None) (ix_skipped s)"

definition session_flush :: "unit ix" where
  "session_flush = bnd (gets flush_ok) (\<lambda>ok. require ok (Raised ''IntegrityError''))"

section \<open>Receipts\<close>

definition block_failure :: "chain_block \<Rightarrow> string \<Rightarrow> string option \<Rightarrow> string \<Rightarrow> indexing_failure" where
  "block_failure b ty tx msg =
     \<lparr>fail_type = ty, fail_blocknumber = cb_number b, fail_blockhash = cb_hash b,
      fail_txhash = tx, fail_message = msg\<rparr>"

text \<open>
  A receipt that could not be fetched is missing from the dictionary.  The message names the file
  of the indexer, which is all that \<open>fetch_tx_receipts\<close> of index.py has different.
\<close>

definition receipts_missing :: "string \<Rightarrow> nat \<Rightarrow> nat \<Rightarrow> string" where
  "receipts_missing file num_submitted_txs num_processed_txs =
     file @ '' | fetch_tx_receipts Expected $'' @ show_nat num_submitted_txs @ '' received '' @ show_nat num_processed_txs"

definition fetch_receipts :: "string \<Rightarrow> ix_env \<Rightarrow> chain_block \<Rightarrow> (string, em_tx) odict result" where
  "fetch_receipts file E b =
     (let got = concat (map (\<lambda>tx. case ix_receipt E tx of None \<Rightarrow> [] | Some r \<Rightarrow> [(ct_hash tx, r)]) (cb_txs b));
          block_tx_with_receipts = od_build fst snd got;
          num_processed_txs = length (od_keys block_tx_with_receipts);
          num_submitted_txs = length (cb_txs b)
      in if num_processed_txs \<noteq> num_submitted_txs
         then Inl (Raised (receipts_missing file num_submitted_txs num_processed_txs)) else Inr block_tx_with_receipts)"

definition fetch_tx_receipts :: "ix_env \<Rightarrow> chain_block \<Rightarrow> (string, em_tx) odict result" where
  "fetch_tx_receipts E b = fetch_receipts ''index_nethermind.py'' E b"

definition zero_address :: string where
  "zero_address = ''0x0000000000000000000000000000000000000000''"

definition target_address :: "chain_tx \<Rightarrow> string" where
  "target_address tx = (case ct_to tx of None \<Rightarrow> zero_address | Some a \<Rightarrow> if a = [] then zero_address else a)"

definition should_skip_tx :: "string option \<Rightarrow> chain_tx \<Rightarrow> bool" where
  "should_skip_tx skip_tx_hash tx \<longleftrightarrow> target_address tx = zero_address \<or> skip_tx_hash = Some (ct_hash tx)"

text \<open>\<open>get_contract_type_for_tx\<close>: there is one contract, the entity manager.\<close>

definition is_entity_manager_tx :: "ix_env \<Rightarrow> chain_tx \<Rightarrow> bool" where
  "is_entity_manager_tx E tx \<longleftrightarrow> ct_to tx = ix_em_address E"

text \<open>Every failure to record a skipped transaction is logged and ignored.\<close>

definition save_skipped_tx :: "unit ix" where
  "save_skipped_tx =
     bnd (gets ix_error) (\<lambda>indexing_error. swallow (case indexing_error of
       None \<Rightarrow> raise TypeError
     | Some err \<Rightarrow> sq session_flush (zoom ix_skipped (\<lambda>rows s. s\<lparr>ix_skipped := rows\<rparr>)
         (add_network_level_skipped_transaction (err_blocknumber err) (err_blockhash err) (err_txhash err)))))"

primrec parse_txs :: "ix_env \<Rightarrow> string option \<Rightarrow> (string, em_tx) odict \<Rightarrow> chain_tx list \<Rightarrow> em_tx list ix" where
  "parse_txs E skip receipts [] = ret []"
| "parse_txs E skip receipts (tx # txs) =
     (case od_get receipts (ct_hash tx) of
        None \<Rightarrow> raise KeyError
      | Some tx_receipt \<Rightarrow>
          if should_skip_tx skip tx then sq save_skipped_tx (parse_txs E skip receipts txs)
          else bnd (parse_txs E skip receipts txs) (\<lambda>rs.
            ret (if is_entity_manager_tx E tx then tx_receipt # rs else rs)))"

section \<open>The block row and the changes of the block\<close>

definition new_block_row :: "chain_block \<Rightarrow> block_row" where
  "new_block_row b = \<lparr>bk_hash = cb_hash b, bk_parent = Some (cb_parent b),
     bk_number = Some (cb_number b), bk_current = True\<rparr>"

definition retire_block :: "block_row \<Rightarrow> block_row" where
  "retire_block r = (if bk_current r then r\<lparr>bk_current := False\<rparr> else r)"

definition add_indexed_block_to_db :: "chain_block \<Rightarrow> unit ix" where
  "add_indexed_block_to_db b =
     sq session_flush (
     bnd (gets (\<lambda>s. length (filter bk_current (ix_blocks s)))) (\<lambda>n.
     sq (require (n = 1) (Raised ''Expected single row marked as current''))
       (modify (\<lambda>s. s\<lparr>ix_blocks := map retire_block (ix_blocks s) @ [new_block_row b]\<rparr>))))"

definition em_block_of :: "chain_block \<Rightarrow> (string, pydict) odict \<Rightarrow> em_block" where
  "em_block_of b md = \<lparr>bl_number = cb_number b, bl_timestamp = cb_timestamp b, bl_hash = cb_hash b,
     bl_metadata = md\<rparr>"

text \<open>The first query of \<open>entity_manager_update\<close> flushes the new block row.\<close>

definition process_state_changes ::
    "ix_env \<Rightarrow> (string, pydict) odict \<Rightarrow> em_tx list \<Rightarrow> chain_block \<Rightarrow> unit ix" where
  "process_state_changes E md txs b =
     run_when (txs \<noteq> []) (sq session_flush (bnd (zoom ix_em (\<lambda>em s. s\<lparr>ix_em := em\<rparr>)
       (entity_manager_update (ix_em_env E) (em_block_of b md) txs)) (\<lambda>_. ret ())))"

definition save_cids :: "ix_env \<Rightarrow> (string, pydict) odict \<Rightarrow> (string, string) odict \<Rightarrow> unit ix" where
  "save_cids E md types =
     run_when (ix_save_cid E \<and> md \<noteq> []) (bnd (gets (\<lambda>s. save_cid_metadata md types (ix_cids s))) (\<lambda>r.
       bnd (lift_res r) (\<lambda>rows. modify (\<lambda>s. s\<lparr>ix_cids := rows\<rparr>))))"

text \<open>The body of the \<open>try\<close>: receipts, transactions, metadata, block row, changes, documents.\<close>

definition process_block :: "ix_env \<Rightarrow> chain_block \<Rightarrow> string option \<Rightarrow> unit ix" where
  "process_block E b skip_tx_hash =
     bnd (lift_res (fetch_tx_receipts E b)) (\<lambda>receipts.
     bnd (parse_txs E skip_tx_hash receipts
            (sort_block_transactions (cb_number b) (ix_sort_start E) (cb_txs b))) (\<lambda>txs.
     bnd (gets (\<lambda>s. fetch_cid_metadata (ix_gateway E) (ix_cnodes E) (es_db (ix_em s) ''User'') txs)) (\<lambda>r.
     bnd (lift_res r) (\<lambda>(cid_metadata, types).
     sq (add_indexed_block_to_db b) (
     sq (process_state_changes E cid_metadata txs b) (
     save_cids E cid_metadata types))))))"

section \<open>Scopes\<close>

text \<open>\<open>str(e)\<close>; only the text of the exceptions the code raises itself is used.\<close>

definition exn_text :: "exn \<Rightarrow> string" where
  "exn_text x = (case x of Raised msg \<Rightarrow> msg | KeyError \<Rightarrow> ''KeyError'' | TypeError \<Rightarrow> ''TypeError''
     | AttributeError \<Rightarrow> ''AttributeError'' | IndexError \<Rightarrow> ''IndexError'' | ValueError \<Rightarrow> ''ValueError''
     | MultipleResultsFound \<Rightarrow> ''MultipleResultsFound'')"

text \<open>\<open>create_and_raise_indexing_error\<close>, and the \<open>except\<close> clauses that call it.\<close>

definition create_and_raise_indexing_error :: "ix_env \<Rightarrow> indexing_failure \<Rightarrow> unit ix" where
  "create_and_raise_indexing_error E f =
     sq (modify (\<lambda>s. s\<lparr>ix_error := record_failure (ix_ask E) (ix_other_nodes E) f (ix_error s)\<rparr>))
       (raise (Raised (fail_message f)))"

definition on_failure :: "ix_env \<Rightarrow> (string \<Rightarrow> indexing_failure) \<Rightarrow> unit ix \<Rightarrow> unit ix" where
  "on_failure E f m = (\<lambda>s. case m s of
       (Inl x, t) \<Rightarrow> create_and_raise_indexing_error E (f (exn_text x)) t
     | (Inr u, t) \<Rightarrow> (Inr u, t))"

definition session_commit :: "ix_env \<Rightarrow> chain_block \<Rightarrow> unit ix" where
  "session_commit E b = sq session_flush (case ix_commit_error E b of
       None \<Rightarrow> ret () | Some msg \<Rightarrow> raise (Raised msg))"

text \<open>A rollback restores the tables; Redis, its caches and the bus keep what was written.\<close>

definition roll_back :: "ix_state \<Rightarrow> ix_state \<Rightarrow> ix_state" where
  "roll_back s0 s =
     s\<lparr>ix_em := (ix_em s0)\<lparr>es_bus := es_bus (ix_em s), es_sp_cache := es_sp_cache (ix_em s),
                  es_balance_refresh := es_balance_refresh (ix_em s)\<rparr>,
       ix_blocks := ix_blocks s0, ix_skipped := ix_skipped s0, ix_cids := ix_cids s0\<rparr>"

definition flush_bus :: "ix_env \<Rightarrow> ix_state \<Rightarrow> ix_state" where
  "flush_bus E s = (case flush (ix_accepts E) (es_bus (ix_em s), ix_queue s) of (q, redis) \<Rightarrow>
     s\<lparr>ix_em := (ix_em s)\<lparr>es_bus := q\<rparr>, ix_queue := redis\<rparr>)"

text \<open>\<open>with db.scoped_session() as session, challenge_bus.use_scoped_dispatch_queue()\<close>.\<close>

definition scoped :: "ix_env \<Rightarrow> unit ix \<Rightarrow> unit ix" where
  "scoped E m = (\<lambda>s. case m s of
       (Inl x, t) \<Rightarrow> (Inl x, roll_back s (flush_bus E t))
     | (Inr u, t) \<Rightarrow> (Inr u, flush_bus E t))"

section \<open>Indexing blocks\<close>

definition check_trending :: "ix_env \<Rightarrow> chain_block \<Rightarrow> unit ix" where
  "check_trending E b =
     bnd (gets (\<lambda>s. should_trending_challenge_update (ix_is_dst E) (ix_weeks s) (cb_timestamp b)))
       (\<lambda>(should_update, date). case date of
          Some d \<Rightarrow> run_when should_update (modify (\<lambda>s. s\<lparr>ix_tasks := ix_tasks s @ [d]\<rparr>))
        | None \<Rightarrow> ret ())"

definition index_session :: "ix_env \<Rightarrow> chain_block \<Rightarrow> unit ix" where
  "index_session E b =
     bnd (gets (\<lambda>s. get_tx_hash_to_skip (ix_error s))) (\<lambda>skip_tx_hash.
     sq (if skip_tx_hash = Some ''commit''
         then sq save_skipped_tx (add_indexed_block_to_db b)
         else on_failure E (block_failure b ''prefetch-cids'' None) (process_block E b skip_tx_hash)) (
     sq (on_failure E (block_failure b ''session.commit'' (Some ''commit'')) (session_commit E b)) (
     sq (check_trending E b) (
     run_when (skip_tx_hash \<noteq> None \<and> skip_tx_hash \<noteq> Some [])
       (modify (\<lambda>s. s\<lparr>ix_error := clear_indexing_error (ix_error s)\<rparr>))))))"

definition index_block :: "ix_env \<Rightarrow> chain_block \<Rightarrow> unit ix" where
  "index_block E b =
     sq (scoped E (index_session E b))
       (modify (\<lambda>s. s\<lparr>ix_last := Some (cb_number b, cb_hash b)\<rparr>))"

text \<open>The list runs from the newest block to the oldest, which is indexed first.\<close>

definition index_blocks :: "ix_env \<Rightarrow> chain_block list \<Rightarrow> unit ix" where
  "index_blocks E blocks_list = for_each (rev blocks_list) (index_block E)"

end
