(* ===== verification/Reorg.thy ===== *)
theory Reorg
  imports Block_Indexer
begin

text \<open>
  tasks/index_nethermind.py, the backward direction: \<open>revert_blocks\<close> takes the rows of a block
  that left the chain out of every table and makes the latest earlier row of each entity
  current again.  A query sees the database after the changes made so far (autoflush), so the
  tables are lists of rows in which a deleted row leaves a hole.
\<close>

section \<open>Integers of the database\<close>

text \<open>
  A nullable integer column.  In PostgreSQL's order NULL is the greatest value, so it comes
  first in a descending order; a comparison in a filter does not hold for NULL.
\<close>

datatype sql_int = SqlInt int | SqlNull

instantiation sql_int :: linorder
begin

fun less_eq_sql_int :: "sql_int \<Rightarrow> sql_int \<Rightarrow> bool" where
  "less_eq_sql_int _ SqlNull = True"
| "less_eq_sql_int SqlNull (SqlInt _) = False"
| "less_eq_sql_int (SqlInt m) (SqlInt n) = (m \<le> n)"

definition less_sql_int :: "sql_int \<Rightarrow> sql_int \<Rightarrow> bool" where
  "less_sql_int x y \<longleftrightarrow> x \<le> y \<and> \<not> y \<le> x"

instance
proof
  fix x y z :: sql_int
  show "x \<le> x" by (cases x) simp_all
  show "x \<le> y \<or> y \<le> x" by (cases x; cases y) auto
  show "x \<le> y \<Longrightarrow> y \<le> z \<Longrightarrow> x \<le> z" by (cases x; cases y; cases z) auto
  show "x \<le> y \<Longrightarrow> y \<le> x \<Longrightarrow> x = y" by (cases x; cases y) auto
qed (simp add: less_sql_int_def)

end

definition sql_before :: "sql_int \<Rightarrow> sql_int \<Rightarrow> bool" where
  "sql_before x y = (case (x, y) of (SqlInt m, SqlInt n) \<Rightarrow> m < n | _ \<Rightarrow> False)"

definition sql_of :: "pyval \<Rightarrow> sql_int" where
  "sql_of v = (if is_int v then SqlInt (as_int v) else SqlNull)"

definition row_blocknumber :: "inst \<Rightarrow> sql_int" where
  "row_blocknumber r = sql_of (attr r ''blocknumber'')"

section \<open>Tables during a revert\<close>

type_synonym 'a table = "'a option list"

definition rows_of :: "'a table \<Rightarrow> 'a list" where
  "rows_of tab = map the (filter (\<lambda>x. x \<noteq> None) tab)"

definition positions :: "('a \<Rightarrow> bool) \<Rightarrow> 'a table \<Rightarrow> nat list" where
  "positions P tab = filter (\<lambda>i. case tab ! i of None \<Rightarrow> False | Some r \<Rightarrow> P r) [0..<length tab]"

text \<open>
  \<open>order_by(blocknumber.desc()).first()\<close>.  Among several rows with the greatest block number
  the database is free to choose; \<open>pick\<close> is its choice.  For track routes the ties are broken
  by the slug in the collation of the database, which \<open>pick\<close> stands for as well.
\<close>

definition first_of :: "(nat list \<Rightarrow> nat) \<Rightarrow> nat list \<Rightarrow> nat option" where
  "first_of pick is = (case is of [] \<Rightarrow> None | i # _ \<Rightarrow> Some (if pick is \<in> set is then pick is else i))"

definition latest_row :: "(nat list \<Rightarrow> nat) \<Rightarrow> ('a \<Rightarrow> sql_int) \<Rightarrow> ('a \<Rightarrow> bool) \<Rightarrow> 'a table \<Rightarrow> nat option" where
  "latest_row pick number P tab =
     (let is = positions P tab in
      first_of pick (filter (\<lambda>i. \<forall>j \<in> set is. number (the (tab ! j)) \<le> number (the (tab ! i))) is))"

definition update_at :: "('a \<Rightarrow> 'a) \<Rightarrow> nat \<Rightarrow> 'a table \<Rightarrow> 'a table" where
  "update_at f i tab = tab[i := map_option f (tab ! i)]"

text \<open>One loop of \<open>revert_blocks\<close>: for each row of the reverted block, the latest row that is
  \<open>previous\<close> to it becomes current, and the row itself is deleted.\<close>

definition revert_entry ::
    "(nat list \<Rightarrow> nat) \<Rightarrow> ('a \<Rightarrow> sql_int) \<Rightarrow> ('a \<Rightarrow> 'a \<Rightarrow> bool) \<Rightarrow> ('a \<Rightarrow> 'a) \<Rightarrow> nat \<Rightarrow> 'a table \<Rightarrow> 'a table" where
  "revert_entry pick number previous mark i tab =
     (let r = the (tab ! i);
          tab' = (case latest_row pick number (previous r) tab of
                    None \<Rightarrow> tab | Some j \<Rightarrow> update_at mark j tab)
      in tab'[i := None])"

definition revert_entries ::
    "(nat list \<Rightarrow> nat) \<Rightarrow> ('a \<Rightarrow> sql_int) \<Rightarrow> ('a \<Rightarrow> bool) \<Rightarrow> ('a \<Rightarrow> 'a \<Rightarrow> bool) \<Rightarrow> ('a \<Rightarrow> 'a) \<Rightarrow> 'a list \<Rightarrow> 'a list" where
  "revert_entries pick number reverted previous mark rows =
     (let tab = map Some rows in
      rows_of (fold (revert_entry pick number previous mark) (positions reverted tab) tab))"

text \<open>The loop of wallets and user events marks every row of the previous block number.\<close>

definition revert_bulk_entry ::
    "(nat list \<Rightarrow> nat) \<Rightarrow> ('a \<Rightarrow> sql_int) \<Rightarrow> ('a \<Rightarrow> 'a \<Rightarrow> bool) \<Rightarrow> sql_int \<Rightarrow> ('a \<Rightarrow> 'a) \<Rightarrow> nat \<Rightarrow> 'a table \<Rightarrow> 'a table" where
  "revert_bulk_entry pick number same_user N mark i tab =
     (let r = the (tab ! i);
          tab' = (case latest_row pick number (\<lambda>q. same_user r q \<and> sql_before (number q) N) tab of
                    None \<Rightarrow> tab
                  | Some j \<Rightarrow> map (map_option (\<lambda>q. if same_user r q \<and> number q = number (the (tab ! j))
                                                   then mark q else q)) tab)
      in tab'[i := None])"

definition revert_bulk ::
    "(nat list \<Rightarrow> nat) \<Rightarrow> ('a \<Rightarrow> sql_int) \<Rightarrow> ('a \<Rightarrow> bool) \<Rightarrow> ('a \<Rightarrow> 'a \<Rightarrow> bool) \<Rightarrow> sql_int \<Rightarrow> ('a \<Rightarrow> 'a) \<Rightarrow> 'a list \<Rightarrow> 'a list" where
  "revert_bulk pick number reverted same_user N mark rows =
     (let tab = map Some rows in
      rows_of (fold (revert_bulk_entry pick number same_user N mark) (positions reverted tab) tab))"

section \<open>The tables of the model classes\<close>

definition in_block :: "string \<Rightarrow> inst \<Rightarrow> bool" where
  "in_block h r \<longleftrightarrow> stored r ''blockhash'' = PStr h"

definition same_columns :: "string list \<Rightarrow> inst \<Rightarrow> inst \<Rightarrow> bool" where
  "same_columns fs r q \<longleftrightarrow> list_all (\<lambda>f. attr r f = attr q f) fs"

definition set_current :: "inst \<Rightarrow> inst" where
  "set_current r = put_attr r ''is_current'' (PBool True)"

text \<open>
  The columns by which a table is searched for the previous row.  For playlists, tracks, users
  and content nodes the previous row is of an earlier block; saves, reposts and follows have no
  such condition.
\<close>

definition revert_columns :: "string \<Rightarrow> string list" where
  "revert_columns c =
     (if c = ''Save'' then [''user_id'', ''save_item_id'', ''save_type'']
      else if c = ''Repost'' then [''user_id'', ''repost_item_id'', ''repost_type'']
      else if c = ''Follow'' then [''follower_user_id'', ''followee_user_id'']
      else if c = ''Playlist'' then [''playlist_id'']
      else if c = ''Track'' then [''track_id'']
      else if c = ''UrsmContentNode'' then [''cnode_sp_id'']
      else [''user_id''])"

definition social_tables :: "string list" where
  "social_tables = [''Save'', ''Repost'', ''Follow'']"

definition entity_tables :: "string list" where
  "entity_tables = [''Playlist'', ''Track'', ''UrsmContentNode'', ''User'']"

definition previous_row :: "string \<Rightarrow> sql_int \<Rightarrow> inst \<Rightarrow> inst \<Rightarrow> bool" where
  "previous_row c N r q \<longleftrightarrow> same_columns (revert_columns c) r q \<and>
     (c \<in> set social_tables \<or> sql_before (row_blocknumber q) N)"

definition revert_table :: "(nat list \<Rightarrow> nat) \<Rightarrow> string \<Rightarrow> sql_int \<Rightarrow> string \<Rightarrow> inst list \<Rightarrow> inst list" where
  "revert_table pick h N c rows =
     revert_entries pick row_blocknumber (in_block h) (previous_row c N) set_current rows"

definition revert_tables :: "(nat list \<Rightarrow> nat) \<Rightarrow> string \<Rightarrow> sql_int \<Rightarrow> (string \<Rightarrow> inst list) \<Rightarrow> string \<Rightarrow> inst list" where
  "revert_tables pick h N db =
     (\<lambda>c. if c \<in> set (social_tables @ entity_tables) then revert_table pick h N c (db c) else db c)"

section \<open>Wallets, user events and track routes\<close>

definition revert_wallets :: "(nat list \<Rightarrow> nat) \<Rightarrow> string \<Rightarrow> sql_int \<Rightarrow> assoc_wallet list \<Rightarrow> assoc_wallet list" where
  "revert_wallets pick h N rows =
     revert_bulk pick (\<lambda>w. sql_of (aw_blocknumber w)) (\<lambda>w. aw_blockhash w = PStr h)
       (\<lambda>w q. aw_user_id q = aw_user_id w) N (\<lambda>w. w\<lparr>aw_is_current := True\<rparr>) rows"

definition revert_user_events :: "(nat list \<Rightarrow> nat) \<Rightarrow> string \<Rightarrow> sql_int \<Rightarrow> user_event list \<Rightarrow> user_event list" where
  "revert_user_events pick h N rows =
     revert_bulk pick (\<lambda>u. sql_of (ue_blocknumber u)) (\<lambda>u. ue_blockhash u = PStr h)
       (\<lambda>u q. ue_user_id q = ue_user_id u) N (\<lambda>u. u\<lparr>ue_is_current := True\<rparr>) rows"

definition revert_track_routes :: "(nat list \<Rightarrow> nat) \<Rightarrow> string \<Rightarrow> sql_int \<Rightarrow> route list \<Rightarrow> route list" where
  "revert_track_routes pick h N rows =
     revert_entries pick (\<lambda>q. SqlInt (route_blocknumber q)) (\<lambda>q. route_blockhash q = h)
       (\<lambda>r q. route_record_id q = route_record_id r \<and> sql_before (SqlInt (route_blocknumber q)) N)
       (\<lambda>q. q\<lparr>route_is_current := True\<rparr>) rows"

section \<open>One block\<close>

definition default_padded_start_hash :: string where
  "default_padded_start_hash = ''0x0000000000000000000000000000000000000000000000000000000000000000''"

definition default_config_start_hash :: string where "default_config_start_hash = ''0x0''"

definition revert_parent :: "block_row \<Rightarrow> string option" where
  "revert_parent rb = (if bk_parent rb = Some default_padded_start_hash
     then Some default_config_start_hash else bk_parent rb)"

definition revert_block_rows :: "block_row \<Rightarrow> block_row list \<Rightarrow> block_row list" where
  "revert_block_rows rb rows =
     filter (\<lambda>r. bk_hash r \<noteq> bk_hash rb)
       (map (\<lambda>r. if Some (bk_hash r) = revert_parent rb then r\<lparr>bk_current := True\<rparr> else r)
         (map (\<lambda>r. if bk_hash r = bk_hash rb then r\<lparr>bk_current := False\<rparr> else r) rows))"

definition block_sql_number :: "block_row \<Rightarrow> sql_int" where
  "block_sql_number rb = (case bk_number rb of None \<Rightarrow> SqlNull | Some n \<Rightarrow> SqlInt n)"

definition revert_em :: "(nat list \<Rightarrow> nat) \<Rightarrow> string \<Rightarrow> sql_int \<Rightarrow> em_state \<Rightarrow> em_state" where
  "revert_em pick h N s =
     s\<lparr>es_db := revert_tables pick h N (es_db s),
       es_wallets := revert_wallets pick h N (es_wallets s),
       es_user_events := revert_user_events pick h N (es_user_events s),
       es_track_routes := (es_track_routes s)
         \<lparr>rt_table := revert_track_routes pick h N (rt_table (es_track_routes s))\<rparr>\<rparr>"

definition revert_block :: "(nat list \<Rightarrow> nat) \<Rightarrow> block_row \<Rightarrow> ix_state \<Rightarrow> ix_state" where
  "revert_block pick rb s =
     s\<lparr>ix_em := revert_em pick (bk_hash rb) (block_sql_number rb) (ix_em s),
       ix_blocks := revert_block_rows rb (ix_blocks s)\<rparr>"

section \<open>A list of blocks\<close>

text \<open>More than 100 blocks are refused, of more than 50 the first 50 are reverted.\<close>

definition revert_blocks :: "(nat list \<Rightarrow> nat) \<Rightarrow> block_row list \<Rightarrow> unit ix" where
  "revert_blocks pick revert_blocks_list =
     (if revert_blocks_list = [] then ret ()
      else if length revert_blocks_list > 100 then raise (Raised ''Unexpected revert, >100 blocks'')
      else
        let bs = (if length revert_blocks_list > 50 then take 50 revert_blocks_list else revert_blocks_list)
        in modify (fold (revert_block pick) bs))"

end
