(* ===== verification/Chain_Sync.thy ===== *)
theory Chain_Sync
  imports Reorg
begin

text \<open>
  \<open>update_task\<close> of tasks/index_nethermind.py: pick a target block of the chain, walk back from it
  until the database knows a block, revert what the database has beyond that block, and index
  the blocks walked over.  Neither walk has a bound in the code, so they are partial functions;
  \<open>plan_update_ok\<close> of Chain_Walks says when they return.
\<close>

section \<open>The chain\<close>

text \<open>
  The node answers by hash, by number, and with its latest block.  Its block numbers start
  again after the last block of the old chain, \<open>final_poa_block\<close>, which the indexer adds.
  \<open>have_lock\<close> is the answer of the Redis lock.
\<close>

datatype identity_answer = Refused | Failed_request | Final_block "int option"

record chain_env =
  ch_ix :: ix_env
  ch_by_hash :: "string \<Rightarrow> chain_block option"
  ch_by_number :: "int \<Rightarrow> chain_block option"
  ch_latest :: "chain_block option"
  ch_pick :: "nat list \<Rightarrow> nat"
  ch_window :: int
  ch_is_stage :: bool
  ch_identity :: identity_answer
  ch_have_lock :: bool

definition shift_number :: "int \<Rightarrow> chain_block \<Rightarrow> chain_block" where
  "shift_number final_poa b = b\<lparr>cb_number := cb_number b + final_poa\<rparr>"

definition block_not_found :: exn where "block_not_found = Raised ''BlockNotFound''"

definition get_block :: "'k \<Rightarrow> ('k \<Rightarrow> chain_block option) \<Rightarrow> chain_block result" where
  "get_block k f = (case f k of None \<Rightarrow> Inl block_not_found | Some b \<Rightarrow> Inr b)"

text \<open>
  \<open>helpers.get_final_poa_block\<close>: outside the stage environment there is none; a cached value is
  used if there is one, else the identity service is asked.  An answer without the field makes
  \<open>int(None)\<close> raise, a refused connection is ignored.
\<close>

definition get_final_poa_block :: "bool \<Rightarrow> identity_answer \<Rightarrow> int option ix" where
  "get_final_poa_block is_stage answer =
     (if \<not> is_stage then ret None
      else bnd (gets ix_poa) (\<lambda>cached. case cached of
          Some n \<Rightarrow> ret (Some n)
        | None \<Rightarrow> (case answer of
              Refused \<Rightarrow> ret None
            | Failed_request \<Rightarrow> raise (Raised ''HTTPError'')
            | Final_block None \<Rightarrow> raise TypeError
            | Final_block (Some n) \<Rightarrow> sq (modify (\<lambda>s. s\<lparr>ix_poa := Some n\<rparr>)) (ret (Some n)))))"

definition update_latest_block_redis :: "chain_block option \<Rightarrow> unit ix" where
  "update_latest_block_redis tip =
     bnd (lift_res (get_block () (\<lambda>_. tip))) (\<lambda>b.
     modify (\<lambda>s. s\<lparr>ix_tip := Some (cb_number b, cb_hash b)\<rparr>))"

definition current_rows :: "block_row list \<Rightarrow> block_row list" where
  "current_rows blocks = filter bk_current blocks"

definition get_latest_block :: "chain_env \<Rightarrow> int \<Rightarrow> block_row list \<Rightarrow> chain_block result" where
  "get_latest_block C final_poa blocks =
     bind_res (require_res (length (current_rows blocks) = 1)
       (Raised ''Expected SINGLE row marked as current'')) (\<lambda>_.
     let current_block_number = (case bk_number (hd (current_rows blocks)) of None \<Rightarrow> 0 | Some n \<Rightarrow> n);
         target = current_block_number + ch_window C - final_poa
     in bind_res (get_block () (\<lambda>_. ch_latest C)) (\<lambda>latest_block_from_chain.
        bind_res (get_block (min target (cb_number latest_block_from_chain)) (ch_by_number C)) (\<lambda>b.
        Inr (shift_number final_poa b))))"

section \<open>The walk back along the chain\<close>

definition has_hash :: "block_row list \<Rightarrow> string \<Rightarrow> bool" where
  "has_hash blocks h \<longleftrightarrow> (\<exists>r \<in> set blocks. bk_hash r = h)"

text \<open>
  The query \<open>Block.blockhash == h and Block.parenthash == p and Block.is_current == True\<close> is
  Python's \<open>and\<close> of column expressions, whose truth value is that of comparing different
  columns: false.  It is the first condition alone.

  The result: the blocks to index, the hash at which chain and database meet (\<open>None\<close> for the
  raw bytes of the special case, which no text equals), and \<open>reached_initial_block\<close>, which is
  unbound when the loop leaves in its first round.
\<close>

record search =
  se_index_blocks :: "chain_block list"
  se_intersect :: "string option"
  se_reached_initial :: "bool option"

partial_function (option) find_intersection ::
    "(string \<Rightarrow> chain_block option) \<Rightarrow> int \<Rightarrow> block_row list \<Rightarrow>
     chain_block \<Rightarrow> chain_block list \<Rightarrow> bool option \<Rightarrow> search result option" where
  "find_intersection by_hash final_poa blocks latest_block index_blocks_list reached =
     (if has_hash blocks (cb_hash latest_block)
      then Some (Inr \<lparr>se_index_blocks = index_blocks_list, se_intersect = Some (cb_hash latest_block),
                      se_reached_initial = reached\<rparr>)
      else
        let blocks_list = index_blocks_list @ [latest_block];
            block_intersection_found = has_hash blocks (cb_parent latest_block);
            reached_initial_block = (cb_number latest_block = final_poa + 1)
        in if reached_initial_block
           then Some (Inr \<lparr>se_index_blocks = blocks_list, se_intersect = None, se_reached_initial = Some True\<rparr>)
           else case by_hash (cb_parent latest_block) of
               None \<Rightarrow> Some (Inl block_not_found)
             | Some b \<Rightarrow>
                 if block_intersection_found
                 then Some (Inr \<lparr>se_index_blocks = blocks_list, se_intersect = Some (cb_hash b),
                                 se_reached_initial = Some False\<rparr>)
                 else find_intersection by_hash final_poa blocks (shift_number final_poa b) blocks_list (Some False))"

text \<open>\<open>db_current_block.blockhash != intersect_block_hash and not reached_initial_block\<close>.\<close>

definition undo_operations_required :: "block_row \<Rightarrow> search \<Rightarrow> bool result" where
  "undo_operations_required db_current_block se =
     (if Some (bk_hash db_current_block) = se_intersect se then Inr False
      else case se_reached_initial se of
          None \<Rightarrow> Inl (Raised ''UnboundLocalError'')
        | Some reached \<Rightarrow> Inr (\<not> reached))"

section \<open>The walk back along the database\<close>

partial_function (option) collect_revert_blocks ::
    "block_row list \<Rightarrow> string option \<Rightarrow> block_row \<Rightarrow> block_row list \<Rightarrow> block_row list option" where
  "collect_revert_blocks blocks intersect traverse_block acc =
     (if Some (bk_hash traverse_block) = intersect then Some acc
      else case find (\<lambda>r. Some (bk_hash r) = bk_parent traverse_block) blocks of
          None \<Rightarrow> Some (acc @ [traverse_block])
        | Some parent \<Rightarrow> collect_revert_blocks blocks intersect parent (acc @ [traverse_block]))"

declare find_intersection.simps [code]
declare collect_revert_blocks.simps [code]

section \<open>The task\<close>

text \<open>The lists the session computes; \<open>None\<close> means that a walk never ends.\<close>

definition plan_update :: "chain_env \<Rightarrow> int \<Rightarrow> block_row list \<Rightarrow>
    (block_row list \<times> chain_block list) result option" where
  "plan_update C final_poa blocks =
     (case get_latest_block C final_poa blocks of
        Inl x \<Rightarrow> Some (Inl x)
      | Inr latest_block \<Rightarrow>
          Option.bind (find_intersection (ch_by_hash C) final_poa blocks latest_block [] None) (\<lambda>r.
          case r of
            Inl x \<Rightarrow> Some (Inl x)
          | Inr se \<Rightarrow>
              if length (current_rows blocks) \<noteq> 1
              then Some (Inl (Raised ''Expected SINGLE row marked as current''))
              else
                let db_current_block = hd (current_rows blocks)
                in case undo_operations_required db_current_block se of
                     Inl x \<Rightarrow> Some (Inl x)
                   | Inr undo \<Rightarrow>
                       map_option (\<lambda>reverts. Inr (reverts, se_index_blocks se))
                         (if undo then collect_revert_blocks blocks (se_intersect se) db_current_block []
                          else Some [])))"

text \<open>The early returns: the old chain is not finished, or another run holds the lock.\<close>

definition must_wait :: "int option \<Rightarrow> block_row list \<Rightarrow> bool result" where
  "must_wait final_poa blocks =
     (case final_poa of
        None \<Rightarrow> Inr True
      | Some n \<Rightarrow>
          if n = 0 then Inr True
          else case current_rows blocks of
              [] \<Rightarrow> Inr False
            | r # _ \<Rightarrow> (case bk_number r of None \<Rightarrow> Inl TypeError | Some m \<Rightarrow> Inr (m < n)))"

definition update_task :: "chain_env \<Rightarrow> ix_state \<Rightarrow> (unit result \<times> ix_state) option" where
  "update_task C s =
     (case bnd (get_final_poa_block (ch_is_stage C) (ch_identity C)) (\<lambda>final_poa.
             bnd (gets (\<lambda>s. must_wait final_poa (ix_blocks s))) (\<lambda>w.
             bnd (lift_res w) (\<lambda>wait.
             if wait then ret None
             else sq (update_latest_block_redis (ch_latest C)) (ret final_poa)))) s of
        (Inl x, t) \<Rightarrow> Some (Inl x, t)
      | (Inr None, t) \<Rightarrow> Some (Inr (), t)
      | (Inr (Some final_poa), t) \<Rightarrow>
          if \<not> ch_have_lock C then Some (Inr (), t)
          else map_option (\<lambda>plan. bnd (lift_res plan) (\<lambda>(revert_blocks_list, index_blocks_list).
                   sq (revert_blocks (ch_pick C) revert_blocks_list)
                      (index_blocks (ch_ix C) index_blocks_list)) t)
                 (plan_update C final_poa (ix_blocks t)))"

end
