(* ===== verification/Chain_Invariant.thy ===== *)
theory Chain_Invariant
  imports Chain_Sync
begin

text \<open>
  The rows of \<open>blocks\<close> form one chain.  In the order in which they were inserted their numbers
  are consecutive, each row is the child of the row before it (except the first row of the new
  chain, whose parent is not in the table), and the last row is the only current one.  Indexing
  appends to this chain, reverting removes its end; both walks of \<open>update_task\<close> follow it.
\<close>

section \<open>The invariant\<close>

definition link :: "int \<Rightarrow> block_row \<Rightarrow> block_row \<Rightarrow> bool" where
  "link F r q \<longleftrightarrow> bk_parent q = Some (bk_hash r) \<or> bk_number q = Some (F + 1)"

definition numbered :: "int \<Rightarrow> block_row list \<Rightarrow> bool" where
  "numbered n bs \<longleftrightarrow> (\<forall>i < length bs. bk_number (bs ! i) = Some (n + int i))"

definition one_tip :: "block_row list \<Rightarrow> bool" where
  "one_tip bs \<longleftrightarrow> bs \<noteq> [] \<and> bk_current (last bs) \<and> (\<forall>r \<in> set (butlast bs). \<not> bk_current r)"

definition chain_ok :: "int \<Rightarrow> block_row list \<Rightarrow> bool" where
  "chain_ok F bs \<longleftrightarrow> (\<exists>n \<le> F. numbered n bs) \<and> one_tip bs \<and> successively (link F) bs \<and>
     distinct (map bk_hash bs) \<and> default_padded_start_hash \<notin> bk_hash ` set bs"

definition past :: "int \<Rightarrow> block_row list \<Rightarrow> bool" where
  "past F bs \<longleftrightarrow> (\<exists>n. bk_number (last bs) = Some n \<and> F \<le> n)"

lemma one_tip_current: "one_tip bs \<Longrightarrow> current_rows bs = [last bs]"
proof -
  assume t: "one_tip bs"
  then obtain xs y where "bs = xs @ [y]" by (cases bs rule: rev_cases) (auto simp: one_tip_def)
  with t show ?thesis by (simp add: one_tip_def current_rows_def filter_empty_conv)
qed

lemma numbered_append:
  "numbered n (xs @ ys) \<longleftrightarrow> numbered n xs \<and> numbered (n + int (length xs)) ys"
proof
  assume *: "numbered n (xs @ ys)"
  have "bk_number (xs ! i) = Some (n + int i)" if "i < length xs" for i
    using * that by (auto simp: numbered_def nth_append dest: spec [of _ i])
  moreover have "bk_number (ys ! i) = Some (n + int (length xs) + int i)" if "i < length ys" for i
    using * that by (auto simp: numbered_def nth_append dest: spec [of _ "length xs + i"])
  ultimately show "numbered n xs \<and> numbered (n + int (length xs)) ys" by (simp add: numbered_def)
qed (auto simp: numbered_def nth_append)

lemma numbered_Cons [simp]: "numbered n (r # rs) \<longleftrightarrow> bk_number r = Some n \<and> numbered (n + 1) rs"
  using numbered_append [of n "[r]" rs] by (simp add: numbered_def)

lemma numbered_Nil [simp]: "numbered n []"
  by (simp add: numbered_def)

lemma numbered_mem:
  "numbered n bs \<Longrightarrow> r \<in> set bs \<Longrightarrow> \<exists>i < length bs. r = bs ! i \<and> bk_number r = Some (n + int i)"
  by (auto simp: numbered_def in_set_conv_nth)

lemma numbered_last: "numbered n bs \<Longrightarrow> bs \<noteq> [] \<Longrightarrow> bk_number (last bs) = Some (n + int (length bs) - 1)"
  by (cases bs rule: rev_cases) (auto simp: numbered_append)

lemma numbered_cong:
  "numbered n bs \<Longrightarrow> map bk_number bs = map bk_number cs \<Longrightarrow> numbered n cs"
  unfolding numbered_def by (metis length_map nth_map)

section \<open>Appending a block\<close>

definition can_follow :: "int \<Rightarrow> block_row list \<Rightarrow> chain_block \<Rightarrow> bool" where
  "can_follow F bs b \<longleftrightarrow> cb_hash b \<noteq> default_padded_start_hash \<and>
     (cb_number b = F + 1 \<or>
      (\<exists>r \<in> set bs. bk_hash r = cb_parent b \<and> bk_number r = Some (cb_number b - 1)))"

lemma retire_block_simps [simp]:
  "bk_hash (retire_block r) = bk_hash r" "bk_parent (retire_block r) = bk_parent r"
  "bk_number (retire_block r) = bk_number r" "\<not> bk_current (retire_block r)"
  by (simp_all add: retire_block_def)

lemma successively_map_retire: "successively (link F) (map retire_block bs) = successively (link F) bs"
  by (simp add: successively_map link_def)

lemma append_block_number:
  assumes n: "n \<le> F" "numbered n bs" "bs \<noteq> []" "past F bs" and "can_follow F bs b"
    and new: "Some (cb_number b) \<notin> bk_number ` set bs"
  shows "cb_number b = n + int (length bs)"
proof -
  have last: "bk_number (last bs) = Some (n + int (length bs) - 1)" using n(2,3) by (rule numbered_last)
  have fresh: "cb_number b < n \<or> n + int (length bs) \<le> cb_number b"
  proof (rule ccontr)
    assume *: "\<not> ?thesis"
    then have "nat (cb_number b - n) < length bs" by linarith
    moreover from this have "bk_number (bs ! nat (cb_number b - n)) = Some (cb_number b)"
      using n(2) * by (auto simp: numbered_def)
    ultimately show False using new by (metis image_eqI nth_mem)
  qed
  from assms(5) consider "cb_number b = F + 1"
    | r where "r \<in> set bs" "bk_number r = Some (cb_number b - 1)"
    by (auto simp: can_follow_def)
  then show ?thesis
  proof cases
    case 1
    then show ?thesis using fresh n(1,4) last by (auto simp: past_def)
  next
    case 2
    then obtain i where "i < length bs" "cb_number b - 1 = n + int i"
      using numbered_mem [OF n(2)] by fastforce
    then show ?thesis using fresh by linarith
  qed
qed

lemma append_block_ok:
  assumes ok: "chain_ok F bs" "past F bs" and follow: "can_follow F bs b"
    and new: "cb_hash b \<notin> bk_hash ` set bs" "Some (cb_number b) \<notin> bk_number ` set bs"
  shows "chain_ok F (map retire_block bs @ [new_block_row b])" and "past F (map retire_block bs @ [new_block_row b])"
proof -
  obtain n where n: "n \<le> F" "numbered n bs" using ok(1) by (auto simp: chain_ok_def)
  have ne: "bs \<noteq> []" using ok(1) by (auto simp: chain_ok_def one_tip_def)
  have nb: "cb_number b = n + int (length bs)"
    using n ne ok(2) follow new(2) by (rule append_block_number)
  have "numbered n (map retire_block bs)" using n(2) by (rule numbered_cong) simp
  then have num: "numbered n (map retire_block bs @ [new_block_row b])"
    by (simp add: numbered_append nb new_block_row_def)
  have last: "bk_number (last bs) = Some (cb_number b - 1)"
    using numbered_last [OF n(2) ne] nb by simp
  have "bk_parent (new_block_row b) = Some (bk_hash (last bs)) \<or> cb_number b = F + 1"
  proof (cases "cb_number b = F + 1")
    case False
    then obtain r where r: "r \<in> set bs" "bk_hash r = cb_parent b" "bk_number r = Some (cb_number b - 1)"
      using follow by (auto simp: can_follow_def)
    then obtain i where "i < length bs" "r = bs ! i" "cb_number b - 1 = n + int i"
      using numbered_mem [OF n(2)] by fastforce
    moreover from this have "i = length bs - 1" using nb by linarith
    ultimately have "r = last bs" using ne by (simp add: last_conv_nth)
    then show ?thesis using r(2) by (simp add: new_block_row_def)
  qed simp
  then have "link F (last (map retire_block bs)) (new_block_row b)"
    using ne by (auto simp: link_def last_map new_block_row_def)
  then have "successively (link F) (map retire_block bs @ [new_block_row b])"
    using ok(1) ne by (simp add: successively_append_iff successively_map_retire chain_ok_def)
  moreover have "distinct (map bk_hash (map retire_block bs @ [new_block_row b]))"
    using ok(1) new(1) by (simp add: chain_ok_def new_block_row_def comp_def)
  moreover have "default_padded_start_hash \<notin> bk_hash ` set (map retire_block bs @ [new_block_row b])"
    using ok(1) follow by (auto simp: chain_ok_def can_follow_def new_block_row_def)
  moreover have "one_tip (map retire_block bs @ [new_block_row b])"
    by (auto simp: one_tip_def new_block_row_def butlast_append)
  ultimately show "chain_ok F (map retire_block bs @ [new_block_row b])"
    using num n(1) unfolding chain_ok_def by blast
  show "past F (map retire_block bs @ [new_block_row b])"
    using last ok(2) by (auto simp: past_def new_block_row_def)
qed

section \<open>Removing the last block\<close>

definition retip :: "block_row list \<Rightarrow> block_row list" where
  "retip bs = butlast bs @ [(last bs)\<lparr>bk_current := True\<rparr>]"

lemma revert_tip:
  assumes ok: "chain_ok F (xs @ [y, t])" and parent: "bk_parent t = Some (bk_hash y)"
  shows "revert_block_rows t (xs @ [y, t]) = retip (xs @ [y])" and "chain_ok F (retip (xs @ [y]))"
proof -
  have d: "\<forall>r \<in> set (xs @ [y]). bk_hash r \<noteq> bk_hash t" "\<forall>r \<in> set xs. bk_hash r \<noteq> bk_hash y"
    using ok by (auto simp: chain_ok_def) (metis imageI)+
  have "revert_parent t = Some (bk_hash y)"
    using ok parent by (auto simp: revert_parent_def chain_ok_def)
  moreover have "map (\<lambda>r. if bk_hash r = bk_hash y then r\<lparr>bk_current := True\<rparr> else r) xs = xs"
    using d(2) by (intro map_idI) auto
  moreover have "map (\<lambda>r. if bk_hash r = bk_hash t then r\<lparr>bk_current := False\<rparr> else r) xs = xs"
    using d(1) by (intro map_idI) auto
  moreover have "filter (\<lambda>r. bk_hash r \<noteq> bk_hash t) xs = xs"
    using d(1) by (intro filter_True) auto
  ultimately show "revert_block_rows t (xs @ [y, t]) = retip (xs @ [y])"
    using d(1) by (auto simp: revert_block_rows_def retip_def)
  let ?y = "y\<lparr>bk_current := True\<rparr>"
  obtain n where n: "n \<le> F" "numbered n (xs @ [y])"
    using ok numbered_append [of _ "xs @ [y]" "[t]"] by (auto simp: chain_ok_def)
  then have "numbered n (retip (xs @ [y]))"
    by (simp add: retip_def numbered_append)
  moreover have "successively (link F) (xs @ [y])"
    using ok successively_append_iff [of "link F" "xs @ [y]" "[t]"] by (simp add: chain_ok_def)
  then have "successively (link F) (xs @ [?y])"
    by (auto simp: successively_append_iff link_def)
  moreover have "one_tip (retip (xs @ [y]))"
    using ok by (auto simp: one_tip_def retip_def chain_ok_def butlast_append)
  ultimately show "chain_ok F (retip (xs @ [y]))"
    using ok n(1) by (auto simp: chain_ok_def retip_def)
qed

section \<open>One block of the indexer\<close>

text \<open>
  Most steps write neither the rows of \<open>blocks\<close> nor the tables of the entity manager: what a
  predicate must not depend on to survive them.
\<close>

lemma keeps_session_flush: "keeps I session_flush"
  unfolding session_flush_def by (intro keeps_rules)

locale indexer_frame =
  fixes I :: "ix_state \<Rightarrow> bool"
  assumes frame_skipped: "I s \<Longrightarrow> I (s\<lparr>ix_skipped := x\<rparr>)"
    and frame_cids: "I s \<Longrightarrow> I (s\<lparr>ix_cids := y\<rparr>)"
    and frame_tasks: "I s \<Longrightarrow> I (s\<lparr>ix_tasks := z\<rparr>)"
    and frame_error: "I s \<Longrightarrow> I (s\<lparr>ix_error := w\<rparr>)"
begin

lemma keeps_save_skipped: "keeps I save_skipped_tx"
  unfolding save_skipped_tx_def
  by (auto split: option.split intro!: keeps_rules keeps_session_flush keeps_zoom_frame frame_skipped)

lemma keeps_parse_txs: "keeps I (parse_txs E skip receipts txs)"
  by (induction txs) (auto split: option.split intro!: keeps_rules keeps_save_skipped)

lemma keeps_save_cids: "keeps I (save_cids E md types)"
  unfolding save_cids_def by (intro keeps_rules keeps_modify frame_cids)

lemma keeps_check_trending: "keeps I (check_trending E b)"
  unfolding check_trending_def
  by (auto split: prod.split option.split intro!: keeps_rules keeps_modify frame_tasks)

lemma keeps_session_commit: "keeps I (session_commit E b)"
  unfolding session_commit_def by (auto split: option.split intro!: keeps_rules keeps_session_flush)

lemma keeps_end_of_session:
  "keeps I (sq (check_trending E b) (run_when c
     (modify (\<lambda>s. s\<lparr>ix_error := clear_indexing_error (ix_error s)\<rparr>))))"
  by (intro keeps_rules keeps_check_trending keeps_modify frame_error)

end

definition blocks_are :: "block_row list \<Rightarrow> ix_state \<Rightarrow> bool" where
  "blocks_are B s \<longleftrightarrow> ix_blocks s = B"

definition em_is :: "em_state \<Rightarrow> ix_state \<Rightarrow> bool" where
  "em_is M s \<longleftrightarrow> ix_em s = M"

interpretation blocks_frame: indexer_frame "blocks_are B" for B
  by unfold_locales (simp_all add: blocks_are_def)

interpretation em_frame: indexer_frame "em_is M" for M
  by unfold_locales (simp_all add: em_is_def)

lemma blocks_process_state_changes: "keeps (blocks_are B) (process_state_changes E md txs b)"
  unfolding process_state_changes_def
  by (intro keeps_rules keeps_session_flush keeps_zoom_frame) (simp_all add: blocks_are_def)

lemma kept_blocks: "keeps (blocks_are (ix_blocks s)) m \<Longrightarrow> m s = (r, t) \<Longrightarrow> ix_blocks t = ix_blocks s"
  using keepsD [of "blocks_are (ix_blocks s)" m s] by (simp add: blocks_are_def)

lemma kept_em: "keeps (em_is (ix_em s)) m \<Longrightarrow> m s = (r, t) \<Longrightarrow> ix_em t = ix_em s"
  using keepsD [of "em_is (ix_em s)" m s] by (simp add: em_is_def)

lemma add_indexed_block_InrD:
  "add_indexed_block_to_db b s = (Inr u, t) \<Longrightarrow>
   ix_blocks t = map retire_block (ix_blocks s) @ [new_block_row b] \<and>
   length (current_rows (ix_blocks s)) = 1 \<and> ix_em t = ix_em s"
  by (auto simp: add_indexed_block_to_db_def sq_Inr bnd_Inr run_Inr session_flush_def modify_def current_rows_def)

lemma on_failure_Inr: "on_failure E f m s = (Inr u, t) \<longleftrightarrow> m s = (Inr u, t)"
  by (auto simp: on_failure_def create_and_raise_indexing_error_def py_simps split: prod.splits sum.splits)

lemma process_block_InrD:
  assumes "process_block E b skip s = (Inr u, t)"
  shows "ix_blocks t = map retire_block (ix_blocks s) @ [new_block_row b]"
proof -
  from assms obtain receipts txs md types s1 s2 s3 where
      parse: "parse_txs E skip receipts (sort_block_transactions (cb_number b) (ix_sort_start E) (cb_txs b)) s
        = (Inr txs, s1)"
    and add: "add_indexed_block_to_db b s1 = (Inr (), s2)"
    and changes: "process_state_changes E md txs b s2 = (Inr (), s3)"
    and save: "save_cids E md types s3 = (Inr u, t)"
    by (fastforce simp: process_block_def bnd_Inr sq_Inr run_Inr)
  have "ix_blocks s1 = ix_blocks s" using blocks_frame.keeps_parse_txs parse by (rule kept_blocks)
  moreover have "ix_blocks s2 = map retire_block (ix_blocks s1) @ [new_block_row b]"
    using add_indexed_block_InrD [OF add] by simp
  moreover have "ix_blocks s3 = ix_blocks s2" using blocks_process_state_changes changes by (rule kept_blocks)
  moreover have "ix_blocks t = ix_blocks s3" using blocks_frame.keeps_save_cids save by (rule kept_blocks)
  ultimately show ?thesis by simp
qed

lemma session_commit_InrD: "session_commit E b s = (Inr u, t) \<Longrightarrow> flush_ok s \<and> t = s"
  by (cases "flush_ok s") (auto simp: session_commit_def session_flush_def py_simps split: option.splits)

lemma index_session_InrD:
  assumes "index_session E b s = (Inr u, t)"
  shows "ix_blocks t = map retire_block (ix_blocks s) @ [new_block_row b]"
    and "\<exists>s'. flush_ok s' \<and> ix_blocks s' = ix_blocks t"
proof -
  let ?skip = "get_tx_hash_to_skip (ix_error s)"
  from assms obtain s1 s2 where
      body: "(if ?skip = Some ''commit'' then sq save_skipped_tx (add_indexed_block_to_db b)
         else on_failure E (block_failure b ''prefetch-cids'' None) (process_block E b ?skip)) s = (Inr (), s1)"
    and commit: "session_commit E b s1 = (Inr (), s2)"
    and rest: "sq (check_trending E b) (run_when (?skip \<noteq> None \<and> ?skip \<noteq> Some [])
       (modify (\<lambda>s. s\<lparr>ix_error := clear_indexing_error (ix_error s)\<rparr>))) s2 = (Inr u, t)"
    by (auto simp: index_session_def bnd_Inr sq_Inr run_Inr on_failure_Inr)
  have "ix_blocks s1 = map retire_block (ix_blocks s) @ [new_block_row b]"
  proof (cases "?skip = Some ''commit''")
    case True
    with body obtain s0 where "save_skipped_tx s = (Inr (), s0)" "add_indexed_block_to_db b s0 = (Inr (), s1)"
      by (auto simp: sq_Inr)
    then show ?thesis using kept_blocks [OF blocks_frame.keeps_save_skipped] add_indexed_block_InrD by metis
  next
    case False
    with body show ?thesis using process_block_InrD by (simp add: on_failure_Inr)
  qed
  moreover have s1: "flush_ok s1" "s2 = s1" using session_commit_InrD [OF commit] by simp_all
  moreover have "ix_blocks t = ix_blocks s2"
    using blocks_frame.keeps_end_of_session rest by (rule kept_blocks)
  ultimately show "ix_blocks t = map retire_block (ix_blocks s) @ [new_block_row b]"
    and "\<exists>s'. flush_ok s' \<and> ix_blocks s' = ix_blocks t" by auto
qed

lemma flush_bus_blocks [simp]: "ix_blocks (flush_bus E s) = ix_blocks s"
  by (simp add: flush_bus_def split: prod.split)

text \<open>A block is appended as a whole, or its failure leaves the rows as they were.\<close>

lemma index_block_cases:
  obtains (indexed) t where "index_block E b s = (Inr (), t)"
      "ix_blocks t = map retire_block (ix_blocks s) @ [new_block_row b]"
      "distinct (map bk_hash (ix_blocks t))" "distinct (filter (\<lambda>n. n \<noteq> None) (map bk_number (ix_blocks t)))"
    | (failed) x t where "index_block E b s = (Inl x, t)" "ix_blocks t = ix_blocks s"
proof (cases "index_session E b s")
  case (Pair r u)
  show thesis
  proof (cases r)
    case (Inl x)
    then show thesis
      using Pair by (intro failed [of x "roll_back s (flush_bus E u)"]) (simp_all add: index_block_def scoped_def roll_back_def py_simps)
  next
    case (Inr v)
    from Pair Inr have *: "index_session E b s = (Inr v, u)" by simp
    obtain s' where "flush_ok s'" "ix_blocks s' = ix_blocks u" using index_session_InrD(2) [OF *] by blast
    then show thesis
      using * index_session_InrD(1) [OF *]
      by (intro indexed [of "(flush_bus E u)\<lparr>ix_last := Some (cb_number b, cb_hash b)\<rparr>"])
        (simp_all add: index_block_def scoped_def py_simps flush_ok_def)
  qed
qed

text \<open>An indexed block is one run of the entity manager, with an empty one where it was skipped.\<close>

definition em_effect :: "ix_env \<Rightarrow> chain_block \<Rightarrow> em_state \<Rightarrow> em_state \<Rightarrow> bool" where
  "em_effect E b em em' \<longleftrightarrow> (\<exists>md txs n.
     entity_manager_update (ix_em_env E) (em_block_of b md) txs em = (Inr n, em'))"

lemma em_effect_skip: "em_effect E b em em"
  unfolding em_effect_def by (intro exI [of _ "[]"] exI [of _ 0]) (simp add: entity_manager_update_def ret_def)

lemma process_state_changes_em:
  assumes "process_state_changes E md txs b s = (Inr u, t)"
  shows "em_effect E b (ix_em s) (ix_em t)"
proof (cases "txs = []")
  case True
  then show ?thesis using assms em_effect_skip by (simp add: process_state_changes_def py_simps)
next
  case False
  with assms have "\<exists>n. entity_manager_update (ix_em_env E) (em_block_of b md) txs (ix_em s) = (Inr n, ix_em t)"
    by (auto simp: process_state_changes_def run_when_def sq_Inr bnd_Inr run_Inr session_flush_def zoom_def
        split: prod.splits)
  then show ?thesis by (auto simp: em_effect_def)
qed

lemma process_block_em:
  assumes "process_block E b skip s = (Inr u, t)"
  shows "em_effect E b (ix_em s) (ix_em t)"
proof -
  from assms obtain receipts txs md types s1 s2 s3 where
      parse: "parse_txs E skip receipts (sort_block_transactions (cb_number b) (ix_sort_start E) (cb_txs b)) s
        = (Inr txs, s1)"
    and add: "add_indexed_block_to_db b s1 = (Inr (), s2)"
    and changes: "process_state_changes E md txs b s2 = (Inr (), s3)"
    and save: "save_cids E md types s3 = (Inr u, t)"
    by (fastforce simp: process_block_def bnd_Inr sq_Inr run_Inr)
  have "ix_em s1 = ix_em s" using em_frame.keeps_parse_txs parse by (rule kept_em)
  moreover have "ix_em s2 = ix_em s1" using add_indexed_block_InrD [OF add] by simp
  moreover have "ix_em t = ix_em s3" using em_frame.keeps_save_cids save by (rule kept_em)
  ultimately show ?thesis using process_state_changes_em [OF changes] by simp
qed

lemma index_session_em:
  assumes "index_session E b s = (Inr u, t)"
  shows "em_effect E b (ix_em s) (ix_em t)"
proof -
  let ?skip = "get_tx_hash_to_skip (ix_error s)"
  from assms obtain s1 s2 where
      body: "(if ?skip = Some ''commit'' then sq save_skipped_tx (add_indexed_block_to_db b)
         else on_failure E (block_failure b ''prefetch-cids'' None) (process_block E b ?skip)) s = (Inr (), s1)"
    and commit: "session_commit E b s1 = (Inr (), s2)"
    and rest: "sq (check_trending E b) (run_when (?skip \<noteq> None \<and> ?skip \<noteq> Some [])
       (modify (\<lambda>s. s\<lparr>ix_error := clear_indexing_error (ix_error s)\<rparr>))) s2 = (Inr u, t)"
    by (auto simp: index_session_def bnd_Inr sq_Inr run_Inr on_failure_Inr)
  have "ix_em t = ix_em s1"
    using kept_em [OF em_frame.keeps_end_of_session rest] session_commit_InrD [OF commit] by simp
  moreover have "em_effect E b (ix_em s) (ix_em s1)"
  proof (cases "?skip = Some ''commit''")
    case True
    with body obtain s0 where "save_skipped_tx s = (Inr (), s0)" "add_indexed_block_to_db b s0 = (Inr (), s1)"
      by (auto simp: sq_Inr)
    then have "ix_em s1 = ix_em s"
      using kept_em [OF em_frame.keeps_save_skipped] add_indexed_block_InrD by metis
    then show ?thesis using em_effect_skip by simp
  qed (use body process_block_em in \<open>simp add: on_failure_Inr\<close>)
  ultimately show ?thesis by simp
qed

lemma index_block_em:
  assumes "index_block E b s = (Inr u, t)"
  shows "\<exists>em. em_effect E b (ix_em s) em \<and> ix_em t = em\<lparr>es_bus := []\<rparr>"
proof -
  from assms obtain u1 where "index_session E b s = (Inr (), u1)" "ix_em t = ix_em (flush_bus E u1)"
    by (auto simp: index_block_def scoped_def py_simps split: prod.splits sum.splits)
  then show ?thesis
    using index_session_em by (intro exI [of _ "ix_em u1"]) (auto simp: flush_bus_def flush_def)
qed

section \<open>A list of blocks\<close>

text \<open>The list of the walk: each block is followed by its parent.\<close>

definition path_down :: "chain_block list \<Rightarrow> bool" where
  "path_down bs \<longleftrightarrow> successively (\<lambda>b p. cb_hash p = cb_parent b \<and> cb_number p + 1 = cb_number b) bs"

lemma fresh_row:
  assumes "distinct (map bk_hash (map retire_block bs @ [new_block_row b]))"
    and "distinct (filter (\<lambda>n. n \<noteq> None) (map bk_number (map retire_block bs @ [new_block_row b])))"
  shows "cb_hash b \<notin> bk_hash ` set bs" and "Some (cb_number b) \<notin> bk_number ` set bs"
proof -
  show "cb_hash b \<notin> bk_hash ` set bs" using assms(1) by (auto simp: new_block_row_def)
  show "Some (cb_number b) \<notin> bk_number ` set bs"
    using assms(2) by (auto simp: new_block_row_def)
qed

lemma index_block_chain:
  assumes "chain_ok F (ix_blocks s)" "past F (ix_blocks s)" "can_follow F (ix_blocks s) b"
    and "index_block E b s = (Inr u, t)"
  shows "chain_ok F (ix_blocks t) \<and> past F (ix_blocks t) \<and> last (ix_blocks t) = new_block_row b"
proof -
  from assms(4) have t: "ix_blocks t = map retire_block (ix_blocks s) @ [new_block_row b]"
      "distinct (map bk_hash (ix_blocks t))" "distinct (filter (\<lambda>n. n \<noteq> None) (map bk_number (ix_blocks t)))"
    by (cases rule: index_block_cases [of E b s], auto)+
  show ?thesis
    using append_block_ok [OF assms(1-3)] fresh_row t by simp
qed

lemma index_blocks_chain:
  assumes "chain_ok F (ix_blocks s)" "past F (ix_blocks s)" and "path_down bs"
    and "\<forall>b \<in> set bs. cb_hash b \<noteq> default_padded_start_hash"
    and "bs \<noteq> [] \<Longrightarrow> can_follow F (ix_blocks s) (last bs)"
    and "index_blocks E bs s = (r, t)"
  shows "chain_ok F (ix_blocks t)"
    and "r = Inr () \<Longrightarrow> bs \<noteq> [] \<Longrightarrow> last (ix_blocks t) = new_block_row (hd bs)"
proof -
  have "chain_ok F (ix_blocks t) \<and> (r = Inr () \<longrightarrow> bs \<noteq> [] \<longrightarrow> last (ix_blocks t) = new_block_row (hd bs))"
    using assms
  proof (induction bs arbitrary: s rule: rev_induct)
    case Nil
    then show ?case by (simp add: index_blocks_def py_simps)
  next
    case (snoc b bs)
    have follow: "can_follow F (ix_blocks s) b" using snoc.prems(5) by simp
    show ?case
    proof (cases rule: index_block_cases [of E b s])
      case (failed x u)
      then show ?thesis using snoc.prems(1,6) by (auto simp: index_blocks_def py_simps)
    next
      case (indexed u)
      have u: "chain_ok F (ix_blocks u)" "past F (ix_blocks u)" "last (ix_blocks u) = new_block_row b"
        using index_block_chain [OF snoc.prems(1,2) follow indexed(1)] by simp_all
      have rest: "index_blocks E bs u = (r, t)"
        using snoc.prems(6) indexed(1) by (simp add: index_blocks_def py_simps)
      have path: "path_down bs" "bs \<noteq> [] \<Longrightarrow> cb_hash b = cb_parent (last bs) \<and> cb_number b + 1 = cb_number (last bs)"
        using snoc.prems(3) by (auto simp: path_down_def successively_append_iff)
      have next_block: "can_follow F (ix_blocks u) (last bs)" if "bs \<noteq> []"
      proof -
        have "new_block_row b \<in> set (ix_blocks u)" using indexed(2) by simp
        moreover have "cb_hash (last bs) \<noteq> default_padded_start_hash" using snoc.prems(4) that by simp
        ultimately show ?thesis using path(2) [OF that] by (force simp: can_follow_def new_block_row_def)
      qed
      have IH: "chain_ok F (ix_blocks t) \<and>
          (r = Inr () \<longrightarrow> bs \<noteq> [] \<longrightarrow> last (ix_blocks t) = new_block_row (hd bs))"
        using u(1,2) path(1) _ next_block rest by (rule snoc.IH) (use snoc.prems(4) in simp)
      show ?thesis
      proof (cases "bs = []")
        case True
        then show ?thesis using rest u by (simp add: index_blocks_def py_simps)
      qed (use IH in simp)
    qed
  qed
  then show "chain_ok F (ix_blocks t)"
    and "r = Inr () \<Longrightarrow> bs \<noteq> [] \<Longrightarrow> last (ix_blocks t) = new_block_row (hd bs)" by simp_all
qed

end
