(* ===== verification/Chain_Walks.thy ===== *)
theory Chain_Walks
  imports Chain_Invariant
begin

text \<open>
  The two walks of \<open>update_task\<close> end, and what they collect is a path: along the chain down to a
  block whose parent the database has, along the database down to that block.  What is assumed
  of the chain: a hash names one block, a child's number is its parent's plus one, and the
  blocks the database shares with it carry the shifted numbers.
\<close>

section \<open>The chain\<close>

definition honest_chain :: "(string \<Rightarrow> chain_block option) \<Rightarrow> bool" where
  "honest_chain by_hash \<longleftrightarrow> (\<forall>h b. by_hash h = Some b \<longrightarrow>
     cb_hash b = h \<and> 0 \<le> cb_number b \<and> h \<noteq> default_padded_start_hash \<and>
     (\<forall>p. by_hash (cb_parent b) = Some p \<longrightarrow> cb_number p + 1 = cb_number b))"

definition agrees_with :: "(string \<Rightarrow> chain_block option) \<Rightarrow> int \<Rightarrow> block_row list \<Rightarrow> bool" where
  "agrees_with by_hash F bs \<longleftrightarrow> (\<forall>r \<in> set bs. \<forall>b. by_hash (bk_hash r) = Some b \<longrightarrow>
     bk_number r = Some (cb_number b + F) \<and> 1 \<le> cb_number b)"

definition numbers_agree :: "chain_env \<Rightarrow> bool" where
  "numbers_agree C \<longleftrightarrow> (\<forall>n b. ch_by_number C n = Some b \<longrightarrow> ch_by_hash C (cb_hash b) = Some b)"

text \<open>What the search returns.\<close>

definition search_ok :: "int \<Rightarrow> block_row list \<Rightarrow> chain_block \<Rightarrow> search \<Rightarrow> bool" where
  "search_ok F blocks target se \<longleftrightarrow>
     (if se_index_blocks se = []
      then se_reached_initial se = None \<and> se_intersect se = Some (cb_hash target)
      else hd (se_index_blocks se) = target \<and> path_down (se_index_blocks se) \<and>
        (\<forall>b \<in> set (se_index_blocks se). cb_hash b \<noteq> default_padded_start_hash) \<and>
        can_follow F blocks (last (se_index_blocks se)) \<and>
        (se_reached_initial se = Some True \<or>
         se_reached_initial se = Some False \<and>
         se_intersect se = Some (cb_parent (last (se_index_blocks se))) \<and>
         (\<exists>r \<in> set blocks. \<exists>n > F. bk_hash r = cb_parent (last (se_index_blocks se)) \<and> bk_number r = Some n)))"

lemma has_hash_iff: "has_hash blocks h \<longleftrightarrow> (\<exists>r \<in> set blocks. bk_hash r = h)"
  by (simp add: has_hash_def)

lemma path_down_append:
  "path_down (acc @ [b]) \<Longrightarrow> cb_hash p = cb_parent b \<Longrightarrow> cb_number p + 1 = cb_number b \<Longrightarrow>
   path_down ((acc @ [b]) @ [p])"
  by (simp add: path_down_def successively_append_iff)

lemma find_intersection_result:
  assumes chain: "honest_chain by_hash" "agrees_with by_hash F blocks"
    and "by_hash (cb_hash b0) = Some b0" and "b = shift_number F b0"
    and "path_down (acc @ [b])" and "\<forall>x \<in> set acc. cb_hash x \<noteq> default_padded_start_hash"
    and "acc = [] \<Longrightarrow> reached = None" and "acc \<noteq> [] \<Longrightarrow> \<not> has_hash blocks (cb_hash b)"
  shows "\<exists>r. find_intersection by_hash F blocks b acc reached = Some r \<and>
    (\<forall>se. r = Inr se \<longrightarrow> search_ok F blocks (hd (acc @ [b])) se)"
  using assms(3-)
proof (induction "nat (cb_number b0)" arbitrary: b0 b acc reached rule: less_induct)
  case less
  have b0: "0 \<le> cb_number b0" "cb_hash b0 \<noteq> default_padded_start_hash"
      "by_hash (cb_parent b0) = Some p \<Longrightarrow> cb_number p + 1 = cb_number b0 \<and> cb_hash p = cb_parent b0 \<and> 0 \<le> cb_number p"
    for p
    using chain(1) less.prems(1) unfolding honest_chain_def by blast+
  have b: "cb_hash b = cb_hash b0" "cb_parent b = cb_parent b0" "cb_number b = cb_number b0 + F"
    using less.prems(2) by (simp_all add: shift_number_def)
  have unpadded: "\<forall>x \<in> set (acc @ [b]). cb_hash x \<noteq> default_padded_start_hash"
    using less.prems(4) b0(2) b(1) by simp
  note unfold = find_intersection.simps [of by_hash F blocks b acc reached]
  show ?case
  proof (cases "has_hash blocks (cb_hash b)")
    case True
    then have "acc = []" "reached = None" using less.prems(5,6) by blast+
    with True show ?thesis
      by (simp add: find_intersection.simps [of by_hash F blocks b "[]" None] search_ok_def)
  next
    case new: False
    show ?thesis
    proof (cases "cb_number b = F + 1")
      case True
      then show ?thesis
        using new unpadded less.prems(3) by (simp add: unfold search_ok_def can_follow_def)
    next
      case number: False
      show ?thesis
      proof (cases "by_hash (cb_parent b)")
        case None
        then show ?thesis using new number by (simp add: unfold)
      next
        case (Some p)
        have p: "cb_number p + 1 = cb_number b0" "cb_hash p = cb_parent b0" "0 \<le> cb_number p"
          using b0(3) Some b(2) by simp_all
        show ?thesis
        proof (cases "has_hash blocks (cb_parent b)")
          case True
          then obtain r where r: "r \<in> set blocks" "bk_hash r = cb_parent b" by (auto simp: has_hash_def)
          then have "bk_number r = Some (cb_number p + F)" "1 \<le> cb_number p"
            using chain(2) Some by (simp_all add: agrees_with_def)
          then have "can_follow F blocks b" and "\<exists>n > F. bk_number r = Some n"
            using r b p b0(2) by (auto simp: can_follow_def intro!: bexI [of _ r])
          then show ?thesis
            using new number Some True r p b unpadded less.prems(3)
            by (auto simp: unfold search_ok_def intro!: bexI [of _ r])
        next
          case False
          let ?b = "shift_number F p"
          have "\<exists>r. find_intersection by_hash F blocks ?b (acc @ [b]) (Some False) = Some r \<and>
              (\<forall>se. r = Inr se \<longrightarrow> search_ok F blocks (hd ((acc @ [b]) @ [?b])) se)"
          proof (rule less.hyps [of p])
            show "nat (cb_number p) < nat (cb_number b0)" using p by linarith
            show "by_hash (cb_hash p) = Some p" using Some b(2) p(2) by simp
            show "path_down ((acc @ [b]) @ [?b])"
              using less.prems(3) p b by (intro path_down_append) (simp_all add: shift_number_def)
            show "\<not> has_hash blocks (cb_hash ?b)" using False b(2) p(2) by (simp add: shift_number_def)
          qed (use unpadded in simp_all)
          moreover have "find_intersection by_hash F blocks b acc reached =
              find_intersection by_hash F blocks ?b (acc @ [b]) (Some False)"
            using new number Some False by (simp add: unfold)
          moreover have "hd ((acc @ [b]) @ [?b]) = hd (acc @ [b])" by (cases acc) simp_all
          ultimately show ?thesis by (simp only:)
        qed
      qed
    qed
  qed
qed

section \<open>The rows to revert\<close>

lemma find_parent:
  assumes "distinct (map bk_hash blocks)" and "y \<in> set blocks" and "bk_parent t = Some (bk_hash y)"
  shows "find (\<lambda>r. Some (bk_hash r) = bk_parent t) blocks = Some y"
  using assms
proof (induction blocks)
  case (Cons r rs)
  then show ?case by (auto simp: image_iff)
qed simp

text \<open>
  The walk from the tip to a row of the new chain meets only parent links, because the one
  exception is below that row.
\<close>

lemma collect_revert_blocks_path:
  assumes "distinct (map bk_hash blocks)" and "set (x # mid) \<subseteq> set blocks"
    and "successively (\<lambda>r q. bk_parent q = Some (bk_hash r)) (x # mid)" and "distinct (map bk_hash (x # mid))"
  shows "collect_revert_blocks blocks (Some (bk_hash x)) (last (x # mid)) acc = Some (acc @ rev mid)"
  using assms(2-)
proof (induction mid arbitrary: acc rule: rev_induct)
  case Nil
  then show ?case by (simp add: collect_revert_blocks.simps)
next
  case (snoc t mid)
  let ?y = "last (x # mid)"
  have path: "successively (\<lambda>r q. bk_parent q = Some (bk_hash r)) (x # mid)" "bk_parent t = Some (bk_hash ?y)"
    using snoc.prems(2) successively_append_iff [of _ "x # mid" "[t]"] by auto
  have "?y \<in> set blocks" using snoc.prems(1) last_in_set [of "x # mid"] by auto
  with assms(1) have "find (\<lambda>r. Some (bk_hash r) = bk_parent t) blocks = Some ?y"
    using path(2) by (rule find_parent)
  moreover have "bk_hash t \<noteq> bk_hash x" using snoc.prems(3) by auto
  moreover have "collect_revert_blocks blocks (Some (bk_hash x)) ?y (acc @ [t]) = Some ((acc @ [t]) @ rev mid)"
    using snoc.prems path(1) by (intro snoc.IH) auto
  ultimately show ?case
    by (simp add: collect_revert_blocks.simps [of blocks _ t])
qed

lemma chain_links:
  assumes ok: "chain_ok F (pre @ x # mid)" and x: "bk_number x = Some n" "F < n"
  shows "successively (\<lambda>r q. bk_parent q = Some (bk_hash r)) (x # mid)"
proof -
  obtain m where m: "numbered m (pre @ x # mid)" using ok by (auto simp: chain_ok_def)
  then have "numbered n (x # mid)" using x(1) by (simp add: numbered_append)
  then have later: "bk_number q = Some k \<Longrightarrow> n < k" if "q \<in> set mid" for q k
    using that numbered_mem [of "n + 1" mid q] by auto
  have "successively (link F) (x # mid)"
    using ok by (simp add: chain_ok_def successively_append_iff)
  then show ?thesis
    unfolding successively_conv_nth
  proof (intro allI impI)
    fix i
    assume i: "Suc i < length (x # mid)"
      and "\<forall>i. Suc i < length (x # mid) \<longrightarrow> link F ((x # mid) ! i) ((x # mid) ! Suc i)"
    then have "link F ((x # mid) ! i) (mid ! i)" by fastforce
    moreover have "bk_number (mid ! i) \<noteq> Some (F + 1)" using later [of "mid ! i" "F + 1"] i x(2) by auto
    ultimately show "bk_parent ((x # mid) ! Suc i) = Some (bk_hash ((x # mid) ! i))" by (simp add: link_def)
  qed
qed

section \<open>Reverting the end of the chain\<close>

lemma revert_block_blocks [simp]: "ix_blocks (revert_block pick t s) = revert_block_rows t (ix_blocks s)"
  by (simp add: revert_block_def)

lemma chain_ok_tip: "chain_ok F bs \<Longrightarrow> retip bs = bs"
proof -
  assume "chain_ok F bs"
  then obtain xs y where "bs = xs @ [y]" "bk_current y"
    by (cases bs rule: rev_cases) (auto simp: chain_ok_def one_tip_def)
  then show ?thesis by (simp add: retip_def)
qed

text \<open>
  The rows given to \<open>revert_blocks\<close> are copies taken before the first change; only their hash
  and parent are read.
\<close>

lemma revert_fold_chain:
  assumes "chain_ok F (pre @ x # mid)" and "successively (\<lambda>r q. bk_parent q = Some (bk_hash r)) (x # mid)"
    and "ix_blocks s = retip (pre @ x # mid)" and "k \<le> length mid"
  shows "chain_ok F (ix_blocks (fold (revert_block pick) (take k (rev mid)) s)) \<and>
    ix_blocks (fold (revert_block pick) (take k (rev mid)) s) =
      retip (pre @ x # take (length mid - k) mid)"
  using assms(4)
proof (induction k)
  case 0
  then show ?case using assms(1,3) chain_ok_tip by simp
next
  case (Suc k)
  let ?s = "fold (revert_block pick) (take k (rev mid)) s"
  define m where "m = length mid - Suc k"
  define t where "t = mid ! m"
  define y where "y = last (x # take m mid)"
  define xs where "xs = pre @ butlast (x # take m mid)"
  have m: "m < length mid" "length mid - k = Suc m" using Suc.prems by (simp_all add: m_def)
  have mid: "take (Suc m) mid = take m mid @ [t]" using m(1) by (simp add: t_def take_Suc_conv_app_nth)
  have split: "pre @ x # take m mid = xs @ [y]"
    unfolding xs_def y_def by (metis append.assoc append_butlast_last_id list.distinct(1))
  then have split': "pre @ x # take (Suc m) mid = xs @ [y, t]" by (simp add: mid)
  have IH: "chain_ok F (ix_blocks ?s) \<and> ix_blocks ?s = retip (pre @ x # take (length mid - k) mid)"
    using Suc.prems by (intro Suc.IH) simp
  then have "chain_ok F (ix_blocks ?s)" and "ix_blocks ?s = retip (xs @ [y, t])"
    unfolding m(2) split' by blast+
  then have ok: "chain_ok F (xs @ [y, t\<lparr>bk_current := True\<rparr>])"
    and s: "ix_blocks ?s = xs @ [y, t\<lparr>bk_current := True\<rparr>]"
    by (simp_all add: retip_def butlast_append)
  have "x # mid = (x # take m mid) @ t # drop (Suc m) mid"
    using m(1) by (simp add: t_def id_take_nth_drop)
  then have "bk_parent t = Some (bk_hash y)"
    using assms(2) successively_append_iff [of _ "x # take m mid" "t # drop (Suc m) mid"]
    unfolding y_def by simp
  then have "revert_block_rows (t\<lparr>bk_current := True\<rparr>) (ix_blocks ?s) = retip (xs @ [y])"
    and "chain_ok F (retip (xs @ [y]))"
    using revert_tip [OF ok] s by simp_all
  moreover have "revert_block_rows (t\<lparr>bk_current := True\<rparr>) = revert_block_rows t"
    by (simp add: revert_block_rows_def revert_parent_def fun_eq_iff)
  moreover have "take (Suc k) (rev mid) = take k (rev mid) @ [t]"
    using Suc.prems by (simp add: take_Suc_conv_app_nth rev_nth t_def m_def)
  ultimately show ?case using split by (simp add: m_def)
qed

section \<open>The plan\<close>

definition plan_ok :: "int \<Rightarrow> block_row list \<Rightarrow> chain_block \<Rightarrow> block_row list \<Rightarrow> chain_block list \<Rightarrow> bool" where
  "plan_ok F blocks target reverts lst \<longleftrightarrow>
     (if lst = [] then reverts = [] \<and> bk_hash (last blocks) = cb_hash target
      else hd lst = target \<and> path_down lst \<and> (\<forall>b \<in> set lst. cb_hash b \<noteq> default_padded_start_hash) \<and>
        can_follow F blocks (last lst) \<and>
        (reverts = [] \<or> (\<exists>pre x mid n. blocks = pre @ x # mid \<and> reverts = rev mid \<and>
           bk_hash x = cb_parent (last lst) \<and> bk_number x = Some n \<and> F < n)))"

lemma collect_revert_blocks_ok:
  assumes ok: "chain_ok F blocks" and r: "r \<in> set blocks" "bk_number r = Some n" "F < n"
  shows "\<exists>pre mid. blocks = pre @ r # mid \<and>
    collect_revert_blocks blocks (Some (bk_hash r)) (last blocks) [] = Some (rev mid)"
proof -
  obtain pre mid where split: "blocks = pre @ r # mid" using r(1) by (meson split_list)
  have "distinct (map bk_hash blocks)" using ok by (simp add: chain_ok_def)
  moreover have "set (r # mid) \<subseteq> set blocks" and "last (r # mid) = last blocks" using split by auto
  moreover have "successively (\<lambda>r q. bk_parent q = Some (bk_hash r)) (r # mid)"
    using ok r(2,3) unfolding split by (rule chain_links)
  moreover have "distinct (map bk_hash (r # mid))" using ok split by (simp add: chain_ok_def)
  ultimately show ?thesis
    using collect_revert_blocks_path [of blocks r mid "[]"] split by auto
qed

lemma plan_update_ok:
  assumes chain: "honest_chain (ch_by_hash C)" "agrees_with (ch_by_hash C) F blocks"
    and numbers: "numbers_agree C"
    and ok: "chain_ok F blocks"
  shows "\<exists>plan. plan_update C F blocks = Some plan \<and>
    (\<forall>reverts lst. plan = Inr (reverts, lst) \<longrightarrow>
       (\<exists>target. get_latest_block C F blocks = Inr target \<and> plan_ok F blocks target reverts lst))"
proof (cases "get_latest_block C F blocks")
  case (Inl x)
  then show ?thesis by (simp add: plan_update_def)
next
  case (Inr target)
  then obtain n b0 where b0: "ch_by_number C n = Some b0" "target = shift_number F b0"
    by (auto simp: get_latest_block_def bind_res_Inr get_block_def Let_def split: option.splits)
  obtain r where r: "find_intersection (ch_by_hash C) F blocks target [] None = Some r"
      "\<And>se. r = Inr se \<Longrightarrow> search_ok F blocks target se"
    using find_intersection_result [OF chain _ b0(2), of "[]" None] numbers b0(1)
    by (auto simp: path_down_def numbers_agree_def)
  have tip: "current_rows blocks = [last blocks]"
    using ok by (intro one_tip_current) (simp add: chain_ok_def)
  show ?thesis
  proof (cases r)
    case (Inl x)
    then show ?thesis using Inr r(1) by (simp add: plan_update_def)
  next
    case se: (Inr se)
    have search: "search_ok F blocks target se" using r(2) se by simp
    have plan: "plan_update C F blocks = (case undo_operations_required (last blocks) se of
          Inl x \<Rightarrow> Some (Inl x)
        | Inr undo \<Rightarrow> map_option (\<lambda>reverts. Inr (reverts, se_index_blocks se))
            (if undo then collect_revert_blocks blocks (se_intersect se) (last blocks) [] else Some []))"
      using Inr r(1) se tip by (simp add: plan_update_def Let_def)
    show ?thesis
    proof (cases "undo_operations_required (last blocks) se")
      case (Inl x)
      then show ?thesis using plan by simp
    next
      case undo: (Inr undo)
      show ?thesis
      proof (cases undo)
        case False
        then have "plan_ok F blocks target [] (se_index_blocks se)"
          using undo search
          by (auto simp: plan_ok_def search_ok_def undo_operations_required_def split: if_splits option.splits)
        then show ?thesis using plan undo False Inr by simp
      next
        case True
        then have "se_reached_initial se = Some False" and "se_index_blocks se \<noteq> []"
          using undo search
          by (auto simp: search_ok_def undo_operations_required_def split: if_splits option.splits)
        then obtain r n where r: "r \<in> set blocks" "bk_number r = Some n" "F < n"
            and hash: "bk_hash r = cb_parent (last (se_index_blocks se))"
              "se_intersect se = Some (bk_hash r)"
          using search by (auto simp: search_ok_def)
        obtain pre mid where mid: "blocks = pre @ r # mid"
            "collect_revert_blocks blocks (Some (bk_hash r)) (last blocks) [] = Some (rev mid)"
          using collect_revert_blocks_ok [OF ok r] by blast
        then have "plan_ok F blocks target (rev mid) (se_index_blocks se)"
          using search \<open>se_index_blocks se \<noteq> []\<close> r hash by (auto simp: plan_ok_def search_ok_def)
        then show ?thesis using plan undo True Inr mid(2) hash(2) by simp
      qed
    qed
  qed
qed

section \<open>Carrying it out\<close>

lemma revert_blocks_chain:
  assumes ok: "chain_ok F (ix_blocks s)" "past F (ix_blocks s)" and plan: "plan_ok F (ix_blocks s) target reverts lst"
    and run: "revert_blocks pick reverts s = (r, t)"
  shows "chain_ok F (ix_blocks t)"
    and "r = Inr () \<Longrightarrow> past F (ix_blocks t) \<and> (lst \<noteq> [] \<longrightarrow> can_follow F (ix_blocks t) (last lst)) \<and>
      (lst = [] \<longrightarrow> ix_blocks t = ix_blocks s)"
proof -
  have "chain_ok F (ix_blocks t) \<and> (r = Inr () \<longrightarrow> past F (ix_blocks t) \<and>
      (lst \<noteq> [] \<longrightarrow> can_follow F (ix_blocks t) (last lst)) \<and> (lst = [] \<longrightarrow> ix_blocks t = ix_blocks s))"
  proof (cases "reverts = [] \<or> length reverts > 100")
    case True
    then have "t = s" using run by (auto simp: revert_blocks_def py_simps split: if_splits)
    then show ?thesis using ok plan by (simp add: plan_ok_def split: if_splits)
  next
    case False
    then obtain pre x mid n where split: "ix_blocks s = pre @ x # mid" "reverts = rev mid"
        and x: "bk_hash x = cb_parent (last lst)" "bk_number x = Some n" "F < n" and lst: "lst \<noteq> []"
      using plan by (auto simp: plan_ok_def split: if_splits)
    define k where "k = (if length reverts > 50 then 50 else length reverts)"
    have t: "t = fold (revert_block pick) (take k (rev mid)) s" and r: "r = Inr ()"
      using run False split(2) by (auto simp: revert_blocks_def py_simps k_def)
    have links: "successively (\<lambda>r q. bk_parent q = Some (bk_hash r)) (x # mid)"
      using ok(1) x(2,3) unfolding split(1) by (rule chain_links)
    have "chain_ok F (ix_blocks t) \<and> ix_blocks t = retip (pre @ x # take (length mid - k) mid)"
      unfolding t
    proof (rule revert_fold_chain)
      show "chain_ok F (pre @ x # mid)" using ok(1) split(1) by simp
      show "ix_blocks s = retip (pre @ x # mid)" using chain_ok_tip [OF ok(1)] split(1) by simp
      show "k \<le> length mid" using split(2) by (simp add: k_def)
    qed (rule links)
    then have tip: "chain_ok F (ix_blocks t)" "ix_blocks t = retip (pre @ x # take (length mid - k) mid)" by blast+
    have mem: "\<exists>q \<in> set (ix_blocks t). bk_hash q = bk_hash x \<and> bk_number q = bk_number x"
    proof -
      have "\<exists>q \<in> set (retip bs). bk_hash q = bk_hash y \<and> bk_number q = bk_number y" if "y \<in> set bs" for y bs
      proof (cases "y = last bs")
        case False
        then have "y \<in> set (butlast bs)"
          using that by (metis append_butlast_last_id empty_iff empty_set in_set_butlast_appendI
              last_in_set rotate1.simps(2) set_ConsD set_rotate1)
        then show ?thesis by (auto simp: retip_def)
      qed (simp add: retip_def)
      then show ?thesis using tip(2) by simp
    qed
    then have "past F (ix_blocks t)"
    proof -
      obtain m q where m: "numbered m (ix_blocks t)" and q: "q \<in> set (ix_blocks t)" "bk_number q = Some n"
        using tip(1) mem x(2) by (auto simp: chain_ok_def)
      obtain i where "i < length (ix_blocks t)" "n = m + int i" using numbered_mem [OF m q(1)] q(2) by auto
      moreover have "ix_blocks t \<noteq> []" using q(1) by auto
      ultimately show ?thesis using numbered_last [OF m] x(3) by (auto simp: past_def)
    qed
    moreover have "can_follow F (ix_blocks t) (last lst)"
    proof -
      from plan lst have "can_follow F (ix_blocks s) (last lst)" by (simp add: plan_ok_def)
      moreover have "bk_number y = Some n" if "y \<in> set (ix_blocks s)" "bk_hash y = cb_parent (last lst)" for y
      proof -
        have "x \<in> set (ix_blocks s)" using split(1) by simp
        moreover have "inj_on bk_hash (set (ix_blocks s))" using ok(1) by (simp add: chain_ok_def distinct_map)
        ultimately have "y = x" using that x(1) by (metis inj_onD)
        then show ?thesis using x(2) by simp
      qed
      ultimately show ?thesis using mem x(1,2) by (auto simp: can_follow_def)
    qed
    ultimately show ?thesis using tip(1) lst by simp
  qed
  then show "chain_ok F (ix_blocks t)"
    and "r = Inr () \<Longrightarrow> past F (ix_blocks t) \<and> (lst \<noteq> [] \<longrightarrow> can_follow F (ix_blocks t) (last lst)) \<and>
      (lst = [] \<longrightarrow> ix_blocks t = ix_blocks s)" by simp_all
qed

end
