(* ===== verification/EM_Stamps.thy ===== *)
theory EM_Stamps
  imports EM_Block
begin

text \<open>
  Every record of a user, track or playlist that a block writes carries the hash and the number
  of that block, whatever the metadata of the event says: the stamp by which a revert finds
  the rows of a block again.
\<close>

section \<open>The invariant\<close>

definition stamp_columns :: "string set" where
  "stamp_columns = {''blockhash'', ''blocknumber''}"

definition stamped :: "string \<Rightarrow> int \<Rightarrow> inst \<Rightarrow> bool" where
  "stamped h n r \<longleftrightarrow> stored r ''blockhash'' = PStr (strip_nul h) \<and> attr r ''blocknumber'' = PInt n"

definition stamp_inv :: "string \<Rightarrow> int \<Rightarrow> em_state \<Rightarrow> bool" where
  "stamp_inv h n s \<longleftrightarrow> (\<forall>t \<in> id_types.
     (\<forall>k r. existing_at (es_existing s) t k = Some r \<longrightarrow> cls r = t) \<and>
     (\<forall>k rs. od_get (new_of s t) k = Some rs \<longrightarrow> (\<forall>r \<in> set rs. cls r = t \<and> stamped h n r)))"

lemma stamp_invD:
  assumes "stamp_inv h n s" and "t \<in> id_types"
  shows "existing_at (es_existing s) t k = Some r \<Longrightarrow> cls r = t"
    and "od_get (new_of s t) k = Some rs \<Longrightarrow> r \<in> set rs \<Longrightarrow> cls r = t \<and> stamped h n r"
  using assms unfolding stamp_inv_def by blast+

interpretation stamp_frame: side_frame "stamp_inv h n" for h n
  by unfold_locales (simp_all add: stamp_inv_def)

lemma blocknumber_plain: "''blocknumber'' \<notin> set (text_columns c)"
  by (simp add: text_columns_def)

lemma stamped_agrees:
  "stamped h n r \<Longrightarrow> agrees stamp_columns r r' \<Longrightarrow> stamped h n r'"
  using stored_plain [OF blocknumber_plain, of r] stored_plain [OF blocknumber_plain, of r']
  by (auto simp: stamped_def agrees_def stamp_columns_def)

lemma stamped_put: "f \<notin> stamp_columns \<Longrightarrow> stamped h n (put_attr r f v) = stamped h n r"
  by (auto simp: stamped_def stamp_columns_def stored_put_other)

section \<open>Fresh records and copies\<close>

lemma stamp_columns_facts:
  assumes "t \<in> id_types"
  shows "''blockhash'' \<in> set (columns_of t)" "''blocknumber'' \<in> set (columns_of t)"
    and "''blockhash'' \<notin> set (validated_fields t)" "''blocknumber'' \<notin> set (validated_fields t)"
    and "''blockhash'' \<in> set (text_columns t)"
  using assms
  by (auto simp: id_types_def columns_of_def user_columns_def track_columns_def playlist_columns_def
      validated_fields_def schema_required_def text_columns_def)

lemma stored_text:
  assumes "f \<in> set (text_columns (cls r'))" and "strip_listener (cls r') f (PStr s) = Inr (attr r' f)"
  shows "stored r' f = PStr (strip_nul s)"
proof -
  have "attr r' f = PStr (strip_nul s)" using assms by (auto simp: strip_listener_def strip_nul_def split: if_splits)
  then show ?thesis using assms(1) by (simp add: stored_def strip_nul_def)
qed

lemma set_attrs_stamped:
  assumes "set_attrs e fvs r = Inr r'" and t: "cls r = t" "t \<in> id_types"
    and "map_of (rev fvs) ''blockhash'' = Some (PStr h)" and "map_of (rev fvs) ''blocknumber'' = Some (PInt n)"
  shows "stamped h n r'"
proof -
  note facts = stamp_columns_facts [OF t(2)]
  have cls: "cls r' = cls r" using assms(1) by (rule set_attrs_cls)
  have "strip_listener (cls r) ''blockhash'' (PStr h) = Inr (attr r' ''blockhash'')"
    using assms(1,4) facts(3) t(1) by (intro set_attrs_listener) simp_all
  then have "stored r' ''blockhash'' = PStr (strip_nul h)"
    using facts(5) t(1) cls by (intro stored_text) simp_all
  moreover have "attr r' ''blocknumber'' = PInt n"
    using assms(1,5) facts(4) [folded t(1)] blocknumber_plain by (rule set_attrs_plain)
  ultimately show ?thesis by (simp add: stamped_def)
qed

lemma make_inst_stamped:
  assumes "make_inst e t fvs = Inr r" and "t \<in> id_types"
    and "map_of (rev fvs) ''blockhash'' = Some (PStr h)" and "map_of (rev fvs) ''blocknumber'' = Some (PInt n)"
  shows "stamped h n r"
  using assms by (auto simp: make_inst_def new_inst_def intro: set_attrs_stamped)

lemma copied_value_at:
  assumes "f \<in> set cs" and "distinct cs"
  shows "map_of (rev (map (copied_value p) (map (\<lambda>f. (f, attr r f)) cs))) f = Some (snd (copied_value p (f, attr r f)))"
proof -
  have "map (fst \<circ> (copied_value p \<circ> (\<lambda>f. (f, attr r f)))) cs = cs" by (intro map_idI) simp
  then have d: "distinct (map fst (rev (map (copied_value p) (map (\<lambda>f. (f, attr r f)) cs))))"
    using assms(2) by (simp add: rev_map [symmetric] del: rev_map)
  have "(f, snd (copied_value p (f, attr r f))) = copied_value p (f, attr r f)"
    by (simp add: prod_eq_iff)
  then have "(f, snd (copied_value p (f, attr r f))) \<in> set (rev (map (copied_value p) (map (\<lambda>f. (f, attr r f)) cs)))"
    using assms(1) by (simp add: image_iff) metis
  with d show ?thesis by (rule map_of_is_SomeI)
qed

lemma copy_record_stamped:
  assumes "copy_record e p r = Inr r'" and "cls r = t" and "t \<in> id_types"
  shows "stamped (p_blockhash p) (p_block_number p) r'"
proof -
  let ?fvs = "map (copied_value p) (map (\<lambda>f. (f, attr r f)) (columns_of t))"
  have "set_attrs e ?fvs (new_inst t) = Inr r'"
    using assms(1,2) by (simp add: copy_record_def get_attributes_dict_def)
  moreover have "cls (new_inst t) = t" by (simp add: new_inst_def)
  moreover have "map_of (rev ?fvs) ''blockhash'' = Some (PStr (p_blockhash p))"
      "map_of (rev ?fvs) ''blocknumber'' = Some (PInt (p_block_number p))"
    using stamp_columns_facts(1,2) [OF assms(3)] distinct_columns [of t]
    by (simp_all only: copied_value_at) (simp_all add: copied_value_def)
  ultimately show ?thesis using assms(3) by (intro set_attrs_stamped)
qed

section \<open>The steps that touch the records\<close>

definition good :: "string \<Rightarrow> int \<Rightarrow> string \<Rightarrow> inst \<Rightarrow> bool" where
  "good h n t r \<longleftrightarrow> cls r = t \<and> stamped h n r"

lemma good_agrees: "good h n t r \<Longrightarrow> agrees stamp_columns r r' \<Longrightarrow> good h n t r'"
  by (auto simp: good_def agrees_def intro: stamped_agrees [unfolded agrees_def])

lemma good_copy:
  "copy_record e p r = Inr r' \<Longrightarrow> cls r = t \<Longrightarrow> t \<in> id_types \<Longrightarrow>
   good (p_blockhash p) (p_block_number p) t r'"
  by (simp add: good_def copy_record_cls copy_record_stamped)

lemma stamp_append:
  assumes "stamp_inv h n s" and "t \<in> id_types \<Longrightarrow> good h n t r"
  shows "stamp_inv h n (s\<lparr>es_new := od_set (es_new s) t (od_set (new_of s t) k (od_default (new_of s t) k [] @ [r]))\<rparr>)"
    (is "stamp_inv h n ?s")
proof -
  have "cls r' = t' \<and> stamped h n r'"
    if t': "t' \<in> id_types" and r': "od_get (new_of ?s t') k' = Some rs" "r' \<in> set rs" for t' k' rs r'
  proof (cases "t' = t \<and> k' = k \<and> r' = r")
    case True
    then show ?thesis using assms(2) t' by (simp add: good_def)
  next
    case False
    then have "\<exists>rs'. od_get (new_of s t') k' = Some rs' \<and> r' \<in> set rs'"
      using r' by (auto simp: new_of_set od_default_def split: if_splits option.splits)
    then show ?thesis using stamp_invD(2) [OF assms(1) t'] by blast
  qed
  then show ?thesis using assms(1) by (simp add: stamp_inv_def)
qed

lemma stamp_set_existing:
  assumes "stamp_inv h n s" and "t \<in> id_types \<Longrightarrow> cls r = t"
  shows "stamp_inv h n (s\<lparr>es_existing := od_set (es_existing s) t (od_set (existing_of s t) k r)\<rparr>)"
proof -
  have at: "existing_at (od_set (es_existing s) t (od_set (existing_of s t) k r)) t' k' =
      (if t = t' \<and> k = k' then Some r else existing_at (es_existing s) t' k')" for t' k'
    unfolding existing_of_def by (rule existing_at_set)
  show ?thesis using assms by (simp add: stamp_inv_def at)
qed

lemma stamp_touch_new: "keeps (stamp_inv h n) (touch_new t)"
proof (unfold touch_new_def, rule keeps_modify)
  fix s
  assume "stamp_inv h n s"
  then show "stamp_inv h n (if od_has (es_new s) t then s else s\<lparr>es_new := od_set (es_new s) t []\<rparr>)"
    by (auto simp: stamp_inv_def new_of_set)
qed

lemma stamp_in_new: "keeps (stamp_inv h n) (in_new t k)"
  unfolding in_new_def by (intro keeps_rules stamp_touch_new)

lemma leads_stamp_append:
  "(t \<in> id_types \<Longrightarrow> good h n t r) \<Longrightarrow> leads (stamp_inv h n) (append_new t k r) (stamp_inv h n)"
  unfolding append_new_def by (intro leads_keeps keeps_modify stamp_append)

lemma leads_stamp_add:
  assumes "good h n t r"
  shows "leads (stamp_inv h n) (sq (append_new t k r) (set_existing t k r)) (stamp_inv h n)"
  unfolding append_new_def set_existing_def
  using assms by (intro leads_keeps keeps_sq keeps_modify stamp_append stamp_set_existing) (simp_all add: good_def)

lemmas leads_stamp_track = leads_stamp_add [of _ _ "''Track''" _ "KId k" for k, folded add_track_record_def]
lemmas leads_stamp_playlist = leads_stamp_add [of _ _ "''Playlist''" _ "KId k" for k, folded add_playlist_record_def]
lemmas leads_stamp_user = leads_stamp_add [of _ _ "''User''" _ "KId k" for k, folded add_user_record_def]

lemma gives_stamp_latest:
  assumes t: "t \<in> id_types"
  shows "gives (stamp_inv h n) (latest_record t k) (\<lambda>r. cls r = t)"
  unfolding latest_record_def
proof (rule gives_bnd [where Q = "\<lambda>x. \<forall>r. x = Some r \<longrightarrow> cls r = t"])
  show "gives (stamp_inv h n) (gets (\<lambda>s. od_get (existing_of s t) k)) (\<lambda>x. \<forall>r. x = Some r \<longrightarrow> cls r = t)"
    using t by (auto simp: gives_def gets_def existing_of_at dest: stamp_invD(1))
  fix x :: "inst option"
  assume x: "\<forall>r. x = Some r \<longrightarrow> cls r = t"
  have "cls (last rs) = t" if "stamp_inv h n s" "od_get (new_of s t) k = Some rs" "rs \<noteq> []" for s rs
    using stamp_invD(2) [OF that(1) t that(2)] that(3) by simp
  then have last: "gives (stamp_inv h n) (last_new t k) (\<lambda>r. cls r = t)"
    by (auto simp: gives_def last_new_def py_simps split: option.split)
  show "gives (stamp_inv h n) (case x of None \<Rightarrow> raise KeyError
      | Some r \<Rightarrow> bnd (in_new t k) (\<lambda>b. if b then last_new t k else ret r)) (\<lambda>r. cls r = t)"
  proof (cases x)
    case (Some r)
    have "gives (stamp_inv h n) (bnd (in_new t k) (\<lambda>b. if b then last_new t k else ret r)) (\<lambda>r. cls r = t)"
      using x Some last by (intro gives_bnd [OF keeps_gives [OF stamp_in_new]]) (simp add: gives_ret)
    then show ?thesis by (simp add: Some)
  qed (simp add: gives_raise)
qed

lemma leads_stamp_latest:
  assumes "t \<in> id_types" and "\<And>r. cls r = t \<Longrightarrow> leads (stamp_inv h n) (f r) (stamp_inv h n)"
  shows "leads (stamp_inv h n) (bnd (latest_record t k) f) (stamp_inv h n)"
  using gives_stamp_latest [OF assms(1)] assms(2) by (intro leads_bnd)

section \<open>The handlers\<close>

text \<open>What an event of the block knows of it.\<close>

definition of_block :: "string \<Rightarrow> int \<Rightarrow> em_params \<Rightarrow> bool" where
  "of_block h n p \<longleftrightarrow> p_blockhash p = h \<and> p_block_number p = n"

lemma good_copied:
  assumes "of_block h n p" and "copy_record e p r = Inr r'" and "cls r = t" and "t \<in> id_types"
  shows "good h n t r'"
  using assms good_copy [OF assms(2-4)] by (simp add: of_block_def)

lemma good_made:
  assumes "of_block h n p" and "make_inst e t fvs = Inr r" and "t \<in> id_types"
    and "map_of (rev fvs) ''blockhash'' = Some (PStr (p_blockhash p))"
    and "map_of (rev fvs) ''blocknumber'' = Some (PInt (p_block_number p))"
  shows "good h n t r"
  using assms make_inst_stamped [OF assms(2-5)] by (simp add: good_def of_block_def make_inst_cls)

lemma stamps_update_track_record:
  assumes "update_track_record e p r md s = Inr r'"
  shows "agrees stamp_columns r r'"
proof -
  have "protects stamp_columns (\<lambda>r. update_track_record e p r md s)"
    unfolding update_track_record_def populate_track_record_metadata_def set_json_field_def
    by (intro agrees_rules) (auto simp: stamp_columns_def)
  with assms show ?thesis by (rule protectsD [rotated])
qed

lemma stamps_playlist_data:
  assumes "process_playlist_data_event e p r md = Inr r'"
  shows "agrees stamp_columns r r'"
proof -
  have "protects stamp_columns (\<lambda>r. process_playlist_data_event e p r md)"
    unfolding process_playlist_data_event_def
    by (intro agrees_rules) (auto simp: stamp_columns_def)
  with assms show ?thesis by (rule protectsD [rotated])
qed

lemma stamps_set_attrs:
  "fst ` set fvs \<inter> stamp_columns = {} \<Longrightarrow> set_attrs e fvs r = Inr r' \<Longrightarrow> agrees stamp_columns r r'"
  by (rule protectsD [OF protects_set_attrs])

lemma stamps_set_attr:
  "f \<notin> stamp_columns \<Longrightarrow> set_attr e r f v = Inr r' \<Longrightarrow> agrees stamp_columns r r'"
  by (rule agrees_set_attr)

lemmas leads_stamp_tables =
  stamp_frame.keeps_track_tables [THEN leads_sq] stamp_frame.keeps_bus_dispatch [THEN leads_sq]
  stamp_frame.keeps_update_playlist_routes_table [THEN leads_sq]

lemma leads_stamp_track_handlers:
  assumes "of_block h n p"
  shows "leads (stamp_inv h n) (create_track e p) (stamp_inv h n)"
    and "leads (stamp_inv h n) (update_track e p) (stamp_inv h n)"
    and "leads (stamp_inv h n) (delete_track e p) (stamp_inv h n)"
proof -
  show "leads (stamp_inv h n) (create_track e p) (stamp_inv h n)"
    unfolding create_track_def create_track_body_def dispatch_challenge_track_upload_def
  proof (intro leads_check leads_lift leads_stamp_tables leads_gets_lift leads_stamp_track)
    fix s r0 md r
    assume r0: "new_track e p = Inr r0" and r: "update_track_record e p r0 md s = Inr r"
    have "good h n ''Track'' r0"
      using r0 unfolding new_track_def by (rule good_made [OF assms]) simp_all
    then show "good h n ''Track'' r" using stamps_update_track_record [OF r] by (rule good_agrees)
  qed simp_all
  show "leads (stamp_inv h n) (update_track e p) (stamp_inv h n)"
    unfolding update_track_def update_track_body_def
  proof (intro leads_check leads_lift leads_stamp_tables leads_stamp_latest leads_gets_lift leads_stamp_track)
    fix md r0 r1 s r
    assume "cls r0 = ''Track''" and "copy_record e p r0 = Inr r1"
      and r: "update_track_record e p r1 md s = Inr r"
    then have "good h n ''Track'' r1" by (intro good_copied [OF assms]) simp_all
    then show "good h n ''Track'' r" using stamps_update_track_record [OF r] by (rule good_agrees)
  qed simp_all
  show "leads (stamp_inv h n) (delete_track e p) (stamp_inv h n)"
    unfolding delete_track_def delete_track_body_def
  proof (intro leads_check leads_lift leads_stamp_latest leads_stamp_track)
    fix r0 r
    assume r0: "cls r0 = ''Track''"
      and "bind_res (copy_record e p r0) (set_attrs e [(''is_delete'', PBool True),
        (''stem_of'', PNull), (''remix_of'', PNull), (''premium_conditions'', PNull)]) = Inr r"
    then obtain r1 where r1: "copy_record e p r0 = Inr r1" and r: "set_attrs e [(''is_delete'', PBool True),
        (''stem_of'', PNull), (''remix_of'', PNull), (''premium_conditions'', PNull)] r1 = Inr r"
      unfolding bind_res_Inr by blast
    have "good h n ''Track'' r1" using assms r1 r0 by (rule good_copied) simp
    then show "good h n ''Track'' r"
      by (rule good_agrees) (rule stamps_set_attrs [OF _ r], simp add: stamp_columns_def)
  qed simp_all
qed

lemma leads_stamp_playlist_handlers:
  assumes "of_block h n p"
  shows "leads (stamp_inv h n) (create_playlist e p) (stamp_inv h n)"
    and "leads (stamp_inv h n) (update_playlist e p) (stamp_inv h n)"
    and "leads (stamp_inv h n) (delete_playlist e p) (stamp_inv h n)"
proof -
  show "leads (stamp_inv h n) (create_playlist e p) (stamp_inv h n)"
    unfolding create_playlist_def create_playlist_body_def dispatch_challenge_playlist_upload_def
  proof (intro leads_check leads_lift leads_stamp_tables leads_then leads_stamp_playlist
      keeps_run_when stamp_frame.keeps_bus_dispatch)
    fix md entries r
    assume "new_playlist e p md entries = Inr r"
    then show "good h n ''Playlist'' r"
      unfolding new_playlist_def bind_res_Inr by (elim exE conjE) (erule good_made [OF assms], simp_all)
  qed simp_all
  show "leads (stamp_inv h n) (update_playlist e p) (stamp_inv h n)"
    unfolding update_playlist_def update_playlist_body_def dispatch_challenge_playlist_upload_def
  proof (intro leads_check leads_lift leads_stamp_latest leads_stamp_tables leads_then
      leads_stamp_playlist keeps_bnd keeps_lift_res keeps_run_when stamp_frame.keeps_bus_dispatch)
    fix md r0 r
    assume r0: "cls r0 = ''Playlist''"
      and "bind_res (copy_record e p r0) (\<lambda>r. process_playlist_data_event e p r md) = Inr r"
    then obtain r1 where r1: "copy_record e p r0 = Inr r1" "process_playlist_data_event e p r1 md = Inr r"
      unfolding bind_res_Inr by blast
    have "good h n ''Playlist'' r1" using assms r1(1) r0 by (rule good_copied) simp
    then show "good h n ''Playlist'' r" using stamps_playlist_data [OF r1(2)] by (rule good_agrees)
  qed simp_all
  show "leads (stamp_inv h n) (delete_playlist e p) (stamp_inv h n)"
    unfolding delete_playlist_def delete_playlist_body_def
  proof (intro leads_check leads_lift leads_stamp_latest leads_stamp_append)
    fix r0 r
    assume r0: "cls r0 = ''Playlist''"
      and "bind_res (copy_record e p r0) (\<lambda>r. set_attr e r ''is_delete'' (PBool True)) = Inr r"
    then obtain r1 where r1: "copy_record e p r0 = Inr r1" "set_attr e r1 ''is_delete'' (PBool True) = Inr r"
      unfolding bind_res_Inr by blast
    have "good h n ''Playlist'' r1" using assms r1(1) r0 by (rule good_copied) simp
    then show "good h n ''Playlist'' r"
      by (rule good_agrees) (rule stamps_set_attr [OF _ r1(2)], simp add: stamp_columns_def)
  qed simp_all
qed

lemma leads_stamp_social:
  "leads (stamp_inv h n) (create_social_record e p) (stamp_inv h n)"
  "leads (stamp_inv h n) (delete_social_record e p) (stamp_inv h n)"
proof -
  have "leads (stamp_inv h n) (social_body e d p) (stamp_inv h n)" for d
  proof (cases "action_to_record_type (p_action p)")
    case None
    then show ?thesis by (simp add: social_body_def leads_keeps keeps_ret)
  next
    case (Some t)
    have "leads (stamp_inv h n) (append_new t k r) (stamp_inv h n)" for k r
      using action_record_type [OF Some] by (intro leads_stamp_append) (auto simp: id_types_def)
    then show ?thesis
      unfolding social_body_def add_social_feature_record_def
      by (auto simp: Some intro!: leads_lift leads_then stamp_frame.keeps_dispatch_social_event)
  qed
  then show "leads (stamp_inv h n) (create_social_record e p) (stamp_inv h n)"
      "leads (stamp_inv h n) (delete_social_record e p) (stamp_inv h n)"
    unfolding create_social_record_def delete_social_record_def
    by (intro leads_check leads_run_when; simp)+
qed

lemma leads_stamp_once:
  assumes "t \<notin> id_types"
  shows "leads (stamp_inv h n) (bnd (in_new t k) (\<lambda>b. if \<not> b then append_new t k r else ret ())) (stamp_inv h n)"
  using assms by (intro leads_bnd_keeps stamp_in_new) (auto intro!: leads_stamp_append simp: leads_keeps keeps_ret)

lemma leads_stamp_notification:
  "leads (stamp_inv h n) (view_notification e p) (stamp_inv h n)"
  "leads (stamp_inv h n) (create_notification e p) (stamp_inv h n)"
  "leads (stamp_inv h n) (view_playlist e p) (stamp_inv h n)"
proof -
  show "leads (stamp_inv h n) (view_notification e p) (stamp_inv h n)"
    unfolding view_notification_def add_notification_seen_record_def
    by (intro leads_check leads_lift leads_stamp_once) (auto simp: id_types_def)
  show "leads (stamp_inv h n) (create_notification e p) (stamp_inv h n)"
    unfolding create_notification_def add_notification_record_def
    by (intro leads_check leads_lift leads_bnd_keeps [OF keeps_gets] leads_stamp_once) (auto simp: id_types_def)
  have "keeps (stamp_inv h n) (set_existing ''PlaylistSeen'' k r)" for k r
    unfolding set_existing_def by (intro keeps_modify stamp_set_existing) (simp_all add: id_types_def)
  moreover have "leads (stamp_inv h n) (append_new ''PlaylistSeen'' k r) (stamp_inv h n)" for k r
    by (rule leads_stamp_append) (simp add: id_types_def)
  ultimately show "leads (stamp_inv h n) (view_playlist e p) (stamp_inv h n)"
    unfolding view_playlist_def view_playlist_body_def add_playlist_seen_record_def
    by (intro leads_check leads_lift leads_then) simp_all
qed

lemma stamps_user_profile: "protects stamp_columns (user_profile_fields e md)"
  unfolding user_profile_fields_def by (intro agrees_rules) (auto simp: stamp_columns_def)

lemma stamps_legacy_images: "protects stamp_columns (update_legacy_user_images e)"
  unfolding update_legacy_user_images_def by (intro agrees_rules) (auto simp: stamp_columns_def)

lemma stamps_user_flags: "protects stamp_columns (\<lambda>r. bind_res (set_if_truthy e md (''playlist_library'',
    ''playlist_library'') r) (set_if_present e md ''is_deactivated''))"
  by (intro agrees_rules) (auto simp: stamp_columns_def)

lemma stamps_validate_user_metadata:
  assumes "validate_user_metadata e r md s = Inr r'"
  shows "agrees stamp_columns r r'"
proof -
  have p: "protects stamp_columns (set_attrs e [(''handle'', v), (''handle_lc'', w)])" for v w
    by (rule protects_set_attrs) (simp add: stamp_columns_def)
  show ?thesis
    using assms unfolding validate_user_metadata_def
    by (auto simp: bind_res_Inr split: if_splits option.splits dest: protectsD [OF p] simp del: set_attrs_Cons)
qed

lemma gives_stamp_user_metadata:
  "gives (stamp_inv h n) (update_user_metadata e r md) (agrees stamp_columns r)"
  unfolding update_user_metadata_def
proof (rule gives_bnd [OF gives_lift_res])
  fix r1
  assume "user_profile_fields e md r = Inr r1"
  then show "agrees stamp_columns r r1" by (rule protectsD [OF stamps_user_profile])
next
  fix r1
  assume r1: "agrees stamp_columns r r1"
  show "gives (stamp_inv h n)
    (sq (case od_get md ''associated_wallets'' of None \<Rightarrow> ret ()
         | Some v \<Rightarrow> update_user_associated_wallets e r1 v ''eth'')
      (sq (case od_get md ''associated_sol_wallets'' of None \<Rightarrow> ret ()
           | Some v \<Rightarrow> update_user_associated_wallets e r1 v ''sol'')
        (bnd (lift_res (bind_res (set_if_truthy e md (''playlist_library'', ''playlist_library'') r1)
                (set_if_present e md ''is_deactivated'')))
          (\<lambda>r. sq (case od_get md ''events'' of None \<Rightarrow> ret ()
                | Some v \<Rightarrow> bnd (lift_res (truthy v)) (\<lambda>t. run_when t (update_user_events r v)))
            (ret r))))) (agrees stamp_columns r)"
    by (intro gives_sq [OF keeps_gives] gives_bnd [OF gives_lift_res] gives_ret)
      (auto split: option.split
        intro!: keeps_rules stamp_frame.keeps_update_user_associated_wallets
          stamp_frame.keeps_update_user_events
        dest: protectsD [OF stamps_user_flags] intro: agrees_trans [OF r1])
qed

lemma leads_stamp_create_user:
  assumes "of_block h n p"
  shows "leads (stamp_inv h n) (create_user e p) (stamp_inv h n)"
  unfolding create_user_def get_endpoint_string_from_sp_ids_def
proof (intro leads_check leads_lift leads_sq_lift leads_stamp_user
    leads_bnd_keeps [OF keeps_bnd] stamp_frame.keeps_endpoints)
  fix s r0 ns r1 ep r
  assume r0: "make_inst e ''User''
       [(''user_id'', PInt (p_user_id p)), (''wallet'', PStr (str_lower (p_signer p))),
        (''txhash'', PStr (p_txhash p)), (''blockhash'', PStr (p_blockhash p)),
        (''blocknumber'', PInt (p_block_number p)), (''created_at'', block_datetime p),
        (''updated_at'', block_datetime p), (''is_current'', PBool False)] = Inr r0"
    and r1: "set_attrs e [(''primary_id'', PInt (hd ns)), (''secondary_ids'', int_list (tl ns))] r0 = Inr r1"
    and r: "set_attr e r1 ''creator_node_endpoint'' (PStr ep) = Inr r"
  have "good h n ''User'' r0" using r0 by (rule good_made [OF assms]) simp_all
  then have "good h n ''User'' r1"
    by (rule good_agrees) (rule stamps_set_attrs [OF _ r1], simp add: stamp_columns_def)
  then show "good h n ''User'' r"
    by (rule good_agrees) (rule stamps_set_attr [OF _ r], simp add: stamp_columns_def)
qed (auto intro: keeps_ret stamp_frame.keeps_endpoints)

lemma leads_stamp_update_user:
  assumes "of_block h n p"
  shows "leads (stamp_inv h n) (update_user e p) (stamp_inv h n)"
  unfolding update_user_def update_user_body_def
proof (intro leads_check leads_lift leads_stamp_latest leads_gets_lift leads_sq_lift
    leads_bnd [OF gives_stamp_user_metadata] leads_then leads_stamp_user stamp_frame.keeps_bus_dispatch)
  fix md r0 r1 s r2 r3 r
  assume r0: "cls r0 = ''User''" and r1: "copy_record e p r0 = Inr r1"
    and r2: "validate_user_metadata e r1 md s = Inr r2" and r3: "agrees stamp_columns r2 r3"
    and "bind_res (set_attr e r3 ''metadata_multihash'' (PStr (p_metadata_cid p)))
            (update_legacy_user_images e) = Inr r"
  then obtain r4 where r4: "set_attr e r3 ''metadata_multihash'' (PStr (p_metadata_cid p)) = Inr r4"
      "update_legacy_user_images e r4 = Inr r"
    unfolding bind_res_Inr by blast
  have "good h n ''User'' r1" using assms r1 r0 by (rule good_copied) simp
  then have "good h n ''User'' r2" using stamps_validate_user_metadata [OF r2] by (rule good_agrees)
  then have "good h n ''User'' r3" using r3 by (rule good_agrees)
  then have "good h n ''User'' r4"
    by (rule good_agrees) (rule stamps_set_attr [OF _ r4(1)], simp add: stamp_columns_def)
  then show "good h n ''User'' r" by (rule good_agrees) (rule protectsD [OF stamps_legacy_images r4(2)])
qed simp_all

lemma leads_stamp_verify_user:
  assumes "of_block h n p"
  shows "leads (stamp_inv h n) (verify_user e p) (stamp_inv h n)"
  unfolding verify_user_def
proof (intro leads_check leads_lift leads_gets_lift leads_sq_lift leads_then leads_stamp_user
    stamp_frame.keeps_bus_dispatch)
  fix s r0 r1 r
  assume I: "stamp_inv h n s" and "(case od_get (existing_of s ''User'') (KId (p_user_id p)) of
            None \<Rightarrow> Inl KeyError | Some u \<Rightarrow> Inr u) = Inr r0"
  then have "existing_at (es_existing s) ''User'' (KId (p_user_id p)) = Some r0"
    by (auto simp: existing_of_at split: option.splits)
  then have r0: "cls r0 = ''User''" by (rule stamp_invD(1) [OF I, rotated]) simp
  assume r1: "copy_record e p r0 = Inr r1" and r: "set_attr e r1 ''is_verified'' (PBool True) = Inr r"
  have "good h n ''User'' r1" using assms r1 r0 by (rule good_copied) simp
  then show "good h n ''User'' r"
    by (rule good_agrees) (rule stamps_set_attr [OF _ r], simp add: stamp_columns_def)
qed simp_all

lemma leads_stamp_replica_set:
  assumes "of_block h n p"
  shows "leads (stamp_inv h n) (update_user_replica_set e p) (stamp_inv h n)"
  unfolding update_user_replica_set_def get_endpoint_string_from_sp_ids_def
proof (intro leads_sq [OF stamp_frame.keeps_is_valid_user_replica_set_tx] leads_stamp_latest leads_lift)
  fix r0 r1 and ids :: "int list \<times> int list"
  assume r0: "cls r0 = ''User''" and r1: "copy_record e p r0 = Inr r1"
  obtain cur upd where ids: "ids = (cur, upd)" by force
  have "leads (stamp_inv h n)
     (bnd (lift_res (set_attrs e [(''primary_id'', PInt (hd upd)), (''secondary_ids'', int_list (tl upd)),
        (''replica_set_update_signer'', PStr (p_signer p))] r1)) (\<lambda>r.
      bnd (bnd (get_endpoint_from_id e (hd upd)) (\<lambda>ep. append_endpoints e ep (tl upd))) (\<lambda>ep.
      bnd (lift_res (set_attr e r ''creator_node_endpoint'' (PStr ep))) (add_user_record (p_user_id p)))))
     (stamp_inv h n)"
  proof (intro leads_lift leads_stamp_user leads_bnd_keeps [OF keeps_bnd] stamp_frame.keeps_endpoints)
    fix r2 ep r
    assume r2: "set_attrs e [(''primary_id'', PInt (hd upd)), (''secondary_ids'', int_list (tl upd)),
        (''replica_set_update_signer'', PStr (p_signer p))] r1 = Inr r2"
      and r: "set_attr e r2 ''creator_node_endpoint'' (PStr ep) = Inr r"
    have "good h n ''User'' r1" using assms r1 r0 by (rule good_copied) simp
    then have "good h n ''User'' r2"
      by (rule good_agrees) (rule stamps_set_attrs [OF _ r2], simp add: stamp_columns_def)
    then show "good h n ''User'' r"
      by (rule good_agrees) (rule stamps_set_attr [OF _ r], simp add: stamp_columns_def)
  qed simp_all
  then show "leads (stamp_inv h n) (case ids of (current, updated) \<Rightarrow>
     bnd (lift_res (set_attrs e [(''primary_id'', PInt (hd updated)), (''secondary_ids'', int_list (tl updated)),
        (''replica_set_update_signer'', PStr (p_signer p))] r1)) (\<lambda>r.
      bnd (bnd (get_endpoint_from_id e (hd updated)) (\<lambda>ep. append_endpoints e ep (tl updated))) (\<lambda>ep.
      bnd (lift_res (set_attr e r ''creator_node_endpoint'' (PStr ep))) (add_user_record (p_user_id p)))))
     (stamp_inv h n)"
    by (simp add: ids)
qed simp_all

section \<open>A block\<close>

lemma leads_stamp_handle_event:
  assumes "of_block h n p"
  shows "leads (stamp_inv h n) (handle_event e p) (stamp_inv h n)"
proof -
  have "leads (stamp_inv h n) (ret ()) (stamp_inv h n)" by (simp add: leads_keeps keeps_ret)
  then show ?thesis
    unfolding handle_event_def Let_def
    using leads_stamp_track_handlers [OF assms] leads_stamp_playlist_handlers [OF assms]
      leads_stamp_create_user [OF assms] leads_stamp_update_user [OF assms] leads_stamp_verify_user [OF assms]
      leads_stamp_replica_set [OF assms] leads_stamp_social leads_stamp_notification
    by (intro leads_if) simp_all
qed

lemma keeps_stamp_process_txs: "keeps (stamp_inv (bl_hash b) (bl_number b)) (process_txs e b txs)"
  unfolding process_txs_def process_event_def
proof (intro keeps_for_each keeps_swallow)
  fix tx ev
  have "leads (stamp_inv (bl_hash b) (bl_number b)) (handle_event e (event_params b (tx_hash tx) ev))
      (stamp_inv (bl_hash b) (bl_number b))"
    by (rule leads_stamp_handle_event) (simp add: of_block_def event_params_def)
  then show "keeps (stamp_inv (bl_hash b) (bl_number b)) (handle_event e (event_params b (tx_hash tx) ev))"
    by (simp add: leads_def keeps_def)
qed

end
