(* ===== verification/Reorg_Entities.thy ===== *)
theory Reorg_Entities
  imports EM_Stamps Reorg
begin

text \<open>
  Reverting the block that was indexed last undoes it for users, tracks and playlists: the
  rows the block added carry its stamp and are deleted, and the row it retired is the latest
  of its entity and becomes current again.
\<close>

section \<open>What a block does to a table\<close>

abbreviation row_id :: "string \<Rightarrow> inst \<Rightarrow> pyval" where
  "row_id t r \<equiv> attr r (id_column t)"

definition retire_ids :: "string \<Rightarrow> pyval set \<Rightarrow> inst \<Rightarrow> inst" where
  "retire_ids t K r = (if is_current_row r \<and> row_id t r \<in> K then put_attr r ''is_current'' (PBool False) else r)"

lemma stamped_retire: "stamped h n (retire_record b r) = stamped h n r" "stamped h n (make_current r) = stamped h n r"
  by (simp_all add: retire_record_def make_current_def Let_def stamped_put stamp_columns_def)

lemma stamped_compiled:
  "r \<in> set (compile_records b rs) \<Longrightarrow> \<forall>r \<in> set rs. stamped h n r \<Longrightarrow> stamped h n r"
  using compile_records_mem [of r b rs] by (auto simp: stamped_retire)

definition saved_ids :: "em_state \<Rightarrow> string \<Rightarrow> pyval set" where
  "saved_ids s t = {PInt n | n. \<exists>rs. od_get (new_of s t) (KId n) = Some rs \<and> rs \<noteq> []}"

lemma invalidate_rows_ids:
  assumes db: "db_ok db" and ready: "block_ready ks db s" and t: "t \<in> id_types"
  shows "invalidate_rows (es_new s) (fetch_existing_entities db ks) t (db t) = map (retire_ids t (saved_ids s t)) (db t)"
proof -
  let ?B = "fetch_existing_entities db ks"
  have I: "rec_inv (set ks) ?B s" using ready by (simp add: block_ready_def)
  have rows: "rows_ok t (db t)" using db by (simp add: db_ok_def)
  have "list_ex (\<lambda>o'. has_column o' ''is_current'' \<and> same_row t o' r) (replaced_originals (es_new s) ?B t) \<longleftrightarrow>
      is_current_row r \<and> row_id t r \<in> saved_ids s t" (is "?hit \<longleftrightarrow> _") if r: "r \<in> set (db t)" for r
  proof
    assume ?hit
    then obtain o' where o': "o' \<in> set (replaced_originals (es_new s) ?B t)" "same_row t o' r"
      by (auto simp: list_ex_iff)
    then obtain k rs where k: "(k, rs) \<in> set (new_of s t)" "rs \<noteq> []" "existing_at ?B t k = Some o'"
      by (force simp: replaced_originals_def new_of_def existing_at_def split: option.splits if_splits)
    have "od_get (new_of s t) k = Some rs" using k(1) rec_invD(2) [OF I] by (metis in_set_od_get)
    moreover obtain n where n: "k = KId n" "row_id t o' = PInt n"
      using fetch_entity_ok [OF db t k(3)] t by (auto simp: entity_ok_def)
    moreover have "is_current_row o'"
      using fetch_by_id_Some [of db ks t k o'] k(3) t by (simp add: fetch_existing_at)
    moreover have "attr r ''is_current'' = attr o' ''is_current''" "row_id t r = row_id t o'"
      using o'(2) t by (auto simp: same_row_def primary_key_def id_column_def id_types_def split: if_splits)
    ultimately show "is_current_row r \<and> row_id t r \<in> saved_ids s t"
      using k(2) by (auto simp: saved_ids_def is_current_row_def)
  next
    assume *: "is_current_row r \<and> row_id t r \<in> saved_ids s t"
    then obtain n rs where rs: "row_id t r = PInt n" "od_get (new_of s t) (KId n) = Some rs" "rs \<noteq> []"
      by (auto simp: saved_ids_def)
    then obtain x where "x \<in> set rs" by (cases rs) auto
    then have "KId n \<in> set (keys_of ks t)"
      using rec_invD(5) [OF I rs(2) _ t] by (force simp: may_add_def keys_of_def)
    then have "existing_at ?B t (KId n) = Some r"
      using * rs(1) by (intro fetch_finds [OF db t r]) (simp add: current_with_def)
    then have "r \<in> set (replaced_originals (es_new s) ?B t)"
      using replaced_originals_mem [OF refl rs(2,3)] by blast
    moreover have "has_column r ''is_current''" using has_current_column [OF t] rows r by (simp add: rows_ok_def)
    ultimately show ?hit by (auto simp: list_ex_iff same_row_def list_all_iff)
  qed
  then show ?thesis by (simp add: invalidate_rows_def retire_ids_def)
qed

lemma saved_rows:
  assumes I: "rec_inv F B s" and S: "stamp_inv h n s" and t: "t \<in> id_types"
    and r: "r \<in> set (records_to_save b (es_new s))" "cls r = t"
  shows "stamped h n r \<and> row_id t r \<in> saved_ids s t"
proof -
  obtain k rs where rs: "od_get (new_of s t) k = Some rs" "r \<in> set (compile_records b rs)" "entity_ok t k r"
    using saved_record [OF I r(1)] r(2) by (auto simp: entity_ok_def)
  moreover have "rs \<noteq> []" using rs(2) by (auto simp: compile_records_def)
  moreover have "\<forall>r \<in> set rs. stamped h n r" using stamp_invD(2) [OF S t rs(1)] by blast
  ultimately show ?thesis
    using stamped_compiled t by (auto simp: entity_ok_def saved_ids_def)
qed

lemma saved_rows_exist:
  assumes I: "rec_inv F B s" and t: "t \<in> id_types" and k: "k \<in> saved_ids s t"
  shows "\<exists>r \<in> set (records_to_save b (es_new s)). cls r = t \<and> row_id t r = k"
proof -
  obtain n rs where rs: "k = PInt n" "od_get (new_of s t) (KId n) = Some rs" "rs \<noteq> []"
    using k by (auto simp: saved_ids_def)
  let ?r = "make_current (retire_record b (last rs))"
  have r: "?r \<in> set (compile_records b rs)" using rs(3) by (simp add: compile_records_def)
  moreover have "entity_ok t (KId n) ?r"
    using r by (rule compile_records_ok) (use rec_invD(4) [OF I rs(2)] in blast)
  moreover have "(KId n, rs) \<in> set (new_of s t)" using rs(2) by (rule od_get_in_set)
  moreover have "(t, new_of s t) \<in> set (es_new s)"
    using rs(2) od_get_in_set by (fastforce simp: new_of_def od_default_def split: option.splits)
  ultimately show ?thesis using t rs(1) by (force simp: records_to_save_def entity_ok_def)
qed

lemma block_rows:
  assumes db: "db_ok db" and ready: "block_ready ks db s" and S: "stamp_inv h n s" and t: "t \<in> id_types"
  shows "\<exists>K new. es_db (save_block b (fetch_existing_entities db ks) s) t = map (retire_ids t K) (db t) @ new \<and>
    (\<forall>r \<in> set new. stamped h n r \<and> row_id t r \<in> K) \<and> K \<subseteq> row_id t ` set new"
proof -
  let ?new = "filter (\<lambda>r. cls r = t) (records_to_save b (es_new s))"
  have I: "rec_inv (set ks) (fetch_existing_entities db ks) s" and s: "es_db s = db"
    using ready by (simp_all add: block_ready_def)
  have "es_db (save_block b (fetch_existing_entities db ks) s) t = map (retire_ids t (saved_ids s t)) (db t) @ ?new"
    by (simp add: save_block_def s invalidate_rows_ids [OF db ready t])
  moreover have "\<forall>r \<in> set ?new. stamped h n r \<and> row_id t r \<in> saved_ids s t"
    using saved_rows [OF I S t] by auto
  moreover have "saved_ids s t \<subseteq> row_id t ` set ?new"
    using saved_rows_exist [OF I t] by (force simp: image_iff)
  ultimately show ?thesis by blast
qed

lemma entity_manager_update_rows:
  assumes "db_ok (es_db s)" and t: "t \<in> id_types"
    and run: "entity_manager_update e b txs s = (Inr n, s')"
  shows "\<exists>K new. es_db s' t = map (retire_ids t K) (es_db s t) @ new \<and>
    (\<forall>r \<in> set new. stamped (bl_hash b) (bl_number b) r \<and> row_id t r \<in> K) \<and> K \<subseteq> row_id t ` set new"
proof (cases "txs = []")
  case True
  then have "s' = s" using run by (simp add: entity_manager_update_def py_simps)
  moreover have "map (retire_ids t {}) xs = xs" for xs by (intro map_idI) (simp add: retire_ids_def)
  ultimately show ?thesis by (intro exI [of _ "{}"] exI [of _ "[]"]) simp
next
  case False
  then obtain ks s1 where ks: "collect_entities_to_fetch b txs = Inr ks"
      "s1 = snd (process_txs e b txs (start_block (fetch_existing_entities (es_db s) ks) s))"
      "s' = save_block b (fetch_existing_entities (es_db s) ks) s1"
    using entity_manager_update_cases [OF False, of b e s] run by auto
  have "stamp_inv (bl_hash b) (bl_number b) (start_block (fetch_existing_entities (es_db s) ks) s)"
    using fetch_entity_ok [OF assms(1)]
    by (auto simp: stamp_inv_def start_block_def new_of_def od_default_def entity_ok_def)
  then have "stamp_inv (bl_hash b) (bl_number b) s1"
    unfolding ks(2) by (rule keepsD [OF keeps_stamp_process_txs])
  moreover have "block_ready ks (es_db s) s1"
    unfolding ks(2) using assms(1) ks(1) by (rule process_txs_ready)
  ultimately show ?thesis unfolding ks(3) using assms(1) t by (intro block_rows)
qed

section \<open>The way back\<close>

text \<open>No row is of the block with this hash, and all are of earlier blocks.\<close>

definition before_block :: "string \<Rightarrow> int \<Rightarrow> inst list \<Rightarrow> bool" where
  "before_block h n rows \<longleftrightarrow> (\<forall>r \<in> set rows. \<not> in_block h r \<and> sql_before (row_blocknumber r) (SqlInt n))"

lemma retire_ids_facts:
  "t \<in> id_types \<Longrightarrow> row_id t (retire_ids t K r) = row_id t r"
  "row_blocknumber (retire_ids t K r) = row_blocknumber r"
  "in_block h (retire_ids t K r) = in_block h r"
  by (simp_all add: retire_ids_def row_blocknumber_def in_block_def stored_put_other id_columns_apart)

lemma set_current_retired: "is_current_row r \<Longrightarrow> set_current (retire_ids t K r) = r"
  by (cases r) (auto simp: set_current_def retire_ids_def put_attr_def is_current_row_def fun_upd_idem)

lemma revert_columns_id: "t \<in> id_types \<Longrightarrow> revert_columns t = [id_column t] \<and> t \<notin> set social_tables \<and> t \<in> set entity_tables"
  by (auto simp: id_types_def revert_columns_def id_column_def social_tables_def entity_tables_def)

lemma stamped_in_block:
  "strip_nul h = h \<Longrightarrow> stamped h n r \<Longrightarrow> in_block h r \<and> row_blocknumber r = SqlInt n"
  by (simp add: stamped_def in_block_def row_blocknumber_def sql_of_def as_int_def)

text \<open>
  The row a revert makes current for an entity: the choice of the database among the rows of the
  entity with the greatest block number.
\<close>

definition chosen_row :: "(nat list \<Rightarrow> nat) \<Rightarrow> string \<Rightarrow> inst list \<Rightarrow> pyval \<Rightarrow> nat option" where
  "chosen_row pick t rows k =
     (let is = filter (\<lambda>i. row_id t (rows ! i) = k) [0..<length rows]
      in first_of pick (filter (\<lambda>i. \<forall>j \<in> set is. row_blocknumber (rows ! j) \<le> row_blocknumber (rows ! i)) is))"

text \<open>The row at a position when the entities of \<open>K\<close> are retired and those of \<open>L\<close> are back.\<close>

definition row_back :: "(nat list \<Rightarrow> nat) \<Rightarrow> string \<Rightarrow> pyval set \<Rightarrow> pyval set \<Rightarrow> inst list \<Rightarrow> nat \<Rightarrow> inst" where
  "row_back pick t K L rows i =
     (let r = retire_ids t K (rows ! i)
      in if row_id t (rows ! i) \<in> L \<and> chosen_row pick t rows (row_id t (rows ! i)) = Some i then set_current r else r)"

lemma set_current_facts:
  "t \<in> id_types \<Longrightarrow> row_id t (set_current r) = row_id t r"
  "row_blocknumber (set_current r) = row_blocknumber r" "in_block h (set_current r) = in_block h r"
  "set_current (set_current r) = set_current r" "set_current (retire_ids t K r) = set_current r"
  "is_current_row (set_current r)"
  by (simp_all add: set_current_def retire_ids_def is_current_row_def row_blocknumber_def in_block_def
      stored_put_other id_columns_apart) (simp_all add: put_attr_def)

lemma row_back_facts:
  "t \<in> id_types \<Longrightarrow> row_id t (row_back pick t K L rows i) = row_id t (rows ! i)"
  "row_blocknumber (row_back pick t K L rows i) = row_blocknumber (rows ! i)"
  by (simp_all add: row_back_def Let_def set_current_facts retire_ids_facts)

text \<open>The table when the first \<open>j\<close> new rows are gone: their entities have a current row again.\<close>

definition partly_reverted :: "(nat list \<Rightarrow> nat) \<Rightarrow> string \<Rightarrow> pyval set \<Rightarrow> inst list \<Rightarrow> inst list \<Rightarrow> nat \<Rightarrow> inst table" where
  "partly_reverted pick t K old new j =
     map (\<lambda>i. Some (row_back pick t K (row_id t ` set (take j new)) old i)) [0..<length old] @
       replicate j None @ map Some (drop j new)"

lemma first_of_single: "first_of pick [i] = Some i"
  by (simp add: first_of_def)

lemma positions_partly:
  assumes t: "t \<in> id_types" and before: "before_block h n old" and h: "strip_nul h = h"
    and new: "\<forall>r \<in> set new. stamped h n r" and j: "j < length new"
  shows "positions (previous_row t (SqlInt n) (new ! j)) (partly_reverted pick t K old new j) =
    filter (\<lambda>i. row_id t (old ! i) = row_id t (new ! j)) [0..<length old]"
proof -
  let ?P = "previous_row t (SqlInt n) (new ! j)"
  let ?tab = "partly_reverted pick t K old new j"
  have len: "length ?tab = length old + length new" using j by (simp add: partly_reverted_def)
  have P: "?P q \<longleftrightarrow> row_id t q = row_id t (new ! j) \<and> sql_before (row_blocknumber q) (SqlInt n)" for q
    using revert_columns_id [OF t] by (auto simp: previous_row_def same_columns_def)
  have old: "(case ?tab ! i of None \<Rightarrow> False | Some r \<Rightarrow> ?P r) \<longleftrightarrow> row_id t (old ! i) = row_id t (new ! j)"
    if "i < length old" for i
    using that before
    by (simp add: partly_reverted_def nth_append P row_back_facts(1) [OF t] row_back_facts(2) before_block_def)
  have later: "\<not> (case ?tab ! i of None \<Rightarrow> False | Some r \<Rightarrow> ?P r)"
    if i: "length old \<le> i" "i < length old + length new" for i
  proof (cases "i < length old + j")
    case True
    then have "i - length old < j" using i by linarith
    then show ?thesis using i by (simp add: partly_reverted_def nth_append)
  next
    case False
    then have *: "?tab ! i = Some (new ! (i - length old))"
      using i j by (simp add: partly_reverted_def nth_append)
    have "row_blocknumber (new ! (i - length old)) = SqlInt n"
      using new i by (intro conjunct2 [OF stamped_in_block [OF h]]) auto
    then show ?thesis unfolding * by (simp add: P sql_before_def)
  qed
  let ?Q = "\<lambda>i. case ?tab ! i of None \<Rightarrow> False | Some r \<Rightarrow> ?P r"
  have "filter ?Q [0..<length old] = filter (\<lambda>i. row_id t (old ! i) = row_id t (new ! j)) [0..<length old]"
    by (rule filter_cong) (simp_all add: old)
  moreover have "filter ?Q [length old..<length old + length new] = []"
    unfolding filter_empty_conv by (intro ballI later) simp_all
  ultimately show ?thesis
    unfolding positions_def len upt_add_eq_append [OF le0] filter_append by (simp only: append_Nil2)
qed

lemma latest_partly:
  assumes t: "t \<in> id_types" and before: "before_block h n old" and h: "strip_nul h = h"
    and new: "\<forall>r \<in> set new. stamped h n r" and j: "j < length new"
  shows "latest_row pick row_blocknumber (previous_row t (SqlInt n) (new ! j)) (partly_reverted pick t K old new j) =
    chosen_row pick t old (row_id t (new ! j))"
proof -
  let ?tab = "partly_reverted pick t K old new j"
  let ?is = "filter (\<lambda>i. row_id t (old ! i) = row_id t (new ! j)) [0..<length old]"
  have number: "row_blocknumber (the (?tab ! i)) = row_blocknumber (old ! i)" if "i \<in> set ?is" for i
    using that by (simp add: partly_reverted_def nth_append row_back_facts(2))
  then have "(\<forall>k \<in> set ?is. row_blocknumber (the (?tab ! k)) \<le> row_blocknumber (the (?tab ! i))) \<longleftrightarrow>
      (\<forall>k \<in> set ?is. row_blocknumber (old ! k) \<le> row_blocknumber (old ! i))" if "i \<in> set ?is" for i
    using that by (intro ball_cong refl) (simp only: number)
  then have "filter (\<lambda>i. \<forall>k \<in> set ?is. row_blocknumber (the (?tab ! k)) \<le> row_blocknumber (the (?tab ! i))) ?is =
      filter (\<lambda>i. \<forall>k \<in> set ?is. row_blocknumber (old ! k) \<le> row_blocknumber (old ! i)) ?is"
    by (intro filter_cong refl)
  then show ?thesis
    by (simp only: latest_row_def chosen_row_def Let_def positions_partly [OF t before h new j])
qed

lemma first_of_in: "first_of pick is = Some i \<Longrightarrow> i \<in> set is"
  by (auto simp: first_of_def split: list.splits if_splits)

lemma chosen_in:
  assumes "chosen_row pick t rows k = Some i"
  shows "i < length rows \<and> row_id t (rows ! i) = k \<and>
    (\<forall>j < length rows. row_id t (rows ! j) = k \<longrightarrow> row_blocknumber (rows ! j) \<le> row_blocknumber (rows ! i))"
  using first_of_in [OF assms [unfolded chosen_row_def Let_def]] by auto

text \<open>One step of the loop gives back the row of one entity.\<close>

lemma current_unique:
  assumes "rows_ok t old" and "t \<in> id_types" and "i < length old" "c < length old"
    and "is_current_row (old ! i)" "is_current_row (old ! c)" "row_id t (old ! i) = row_id t (old ! c)"
  shows "i = c"
proof -
  obtain m where m: "row_id t (old ! c) = PInt m"
    using assms(1,2) nth_mem [OF assms(4)] unfolding rows_ok_def by blast
  let ?P = "\<lambda>k. current_with t m (old ! k)"
  have "length (filter (current_with t m) old) \<le> 1" using assms(1,2) by (simp add: rows_ok_def)
  moreover have "filter (current_with t m) old = map ((!) old) (filter ?P [0..<length old])"
    using filter_map [of "current_with t m" "(!) old" "[0..<length old]"] by (simp add: map_nth comp_def)
  ultimately have "length (filter ?P [0..<length old]) \<le> 1" by simp
  then show ?thesis
    using assms m by (intro length_le_1_same [of "filter ?P [0..<length old]"]) (auto simp: current_with_def)
qed

lemma revert_entry_partly:
  assumes t: "t \<in> id_types" and before: "before_block h n old" and h: "strip_nul h = h"
    and new: "\<forall>r \<in> set new. stamped h n r" and j: "j < length new"
  shows "revert_entry pick row_blocknumber (previous_row t (SqlInt n)) set_current (length old + j)
      (partly_reverted pick t K old new j) = partly_reverted pick t K old new (Suc j)"
proof -
  let ?tab = "partly_reverted pick t K old new j" and ?k = "row_id t (new ! j)"
  let ?came = "\<lambda>L i. row_back pick t K L old i" and ?L = "row_id t ` set (take j new)"
  have at: "?tab ! (length old + j) = Some (new ! j)"
    using j by (simp add: partly_reverted_def nth_append)
  have take: "row_id t ` set (take (Suc j) new) = insert ?k ?L"
    using j by (simp add: take_Suc_conv_app_nth)
  have split: "?tab = map (\<lambda>i. Some (?came ?L i)) [0..<length old] @ replicate j None @ Some (new ! j) # map Some (drop (Suc j) new)"
    using j by (simp add: partly_reverted_def Cons_nth_drop_Suc [symmetric])
  have gone: "(xs @ replicate j None @ Some y # ys)[length old + j := None] = xs @ replicate (Suc j) None @ ys"
    if "length xs = length old" for xs ys :: "inst table" and y
    using that by (simp add: list_update_append replicate_append_same [symmetric])
  have other: "?came (insert ?k ?L) i = ?came ?L i" if "chosen_row pick t old ?k \<noteq> Some i" for i
    using that by (auto simp: row_back_def Let_def)
  have chosen: "?came (insert ?k ?L) c = set_current (?came ?L c)" if "chosen_row pick t old ?k = Some c" for c
    using that chosen_in [OF that] by (simp add: row_back_def Let_def set_current_facts(4))
  note latest = latest_partly [OF t before h new j, of pick K]
  show ?thesis
  proof (cases "chosen_row pick t old ?k")
    case None
    then have "map (\<lambda>i. Some (?came (insert ?k ?L) i)) [0..<length old] = map (\<lambda>i. Some (?came ?L i)) [0..<length old]"
      by (simp add: other)
    then show ?thesis
      using None latest at by (simp add: revert_entry_def split gone) (simp add: partly_reverted_def take)
  next
    case (Some c)
    then have c: "c < length old" using chosen_in by blast
    have "map (\<lambda>i. Some (?came (insert ?k ?L) i)) [0..<length old] =
        (map (\<lambda>i. Some (?came ?L i)) [0..<length old])[c := Some (set_current (?came ?L c))]"
    proof (rule nth_equalityI)
      fix i assume "i < length (map (\<lambda>i. Some (?came (insert ?k ?L) i)) [0..<length old])"
      then have i: "i < length old" by simp
      show "map (\<lambda>i. Some (?came (insert ?k ?L) i)) [0..<length old] ! i =
          (map (\<lambda>i. Some (?came ?L i)) [0..<length old])[c := Some (set_current (?came ?L c))] ! i"
        using i chosen [OF Some] other [of i] Some by (cases "i = c") simp_all
    qed simp
    moreover have "update_at set_current c ?tab =
        (map (\<lambda>i. Some (?came ?L i)) [0..<length old])[c := Some (set_current (?came ?L c))] @
          replicate j None @ Some (new ! j) # map Some (drop (Suc j) new)"
      using c by (simp add: update_at_def split list_update_append nth_append)
    ultimately show ?thesis
      using at latest Some by (simp add: revert_entry_def gone) (simp add: partly_reverted_def take)
  qed
qed

lemma positions_Some: "positions P (map Some xs) = filter (\<lambda>i. P (xs ! i)) [0..<length xs]"
  unfolding positions_def by (rule filter_cong) simp_all

lemma revert_entries_back:
  assumes t: "t \<in> id_types" and before: "before_block h n old" and h: "strip_nul h = h"
    and new: "\<forall>r \<in> set new. stamped h n r \<and> row_id t r \<in> K" "K \<subseteq> row_id t ` set new"
  shows "revert_table pick h (SqlInt n) t (map (retire_ids t K) old @ new) = map (row_back pick t K K old) [0..<length old]"
proof -
  let ?f = "revert_entry pick row_blocknumber (previous_row t (SqlInt n)) set_current"
  have stamps: "\<forall>r \<in> set new. stamped h n r" using new(1) by blast
  have K: "row_id t ` set new = K" using new by blast
  have start: "map Some (map (retire_ids t K) old @ new) = partly_reverted pick t K old new 0"
    by (rule nth_equalityI) (simp_all add: partly_reverted_def row_back_def nth_append)
  have new_in: "in_block h ((map (retire_ids t K) old @ new) ! i) \<longleftrightarrow> length old \<le> i"
    if i: "i < length old + length new" for i
  proof (cases "i < length old")
    case True
    moreover have "\<not> in_block h (old ! i)" using before True by (simp add: before_block_def)
    ultimately show ?thesis by (simp add: nth_append retire_ids_facts(3))
  next
    case False
    then have "new ! (i - length old) \<in> set new" using i by simp
    then have "in_block h (new ! (i - length old))" using stamps stamped_in_block [OF h] by blast
    then show ?thesis using False by (simp add: nth_append)
  qed
  have "positions (in_block h) (map Some (map (retire_ids t K) old @ new)) =
      filter (\<lambda>i. length old \<le> i) [0..<length old + length new]"
    unfolding positions_Some by (rule filter_cong) (simp_all add: new_in)
  also have "\<dots> = [length old..<length old + length new]"
    unfolding upt_add_eq_append [OF le0] filter_append
    by (simp add: filter_empty_conv)
  also have "\<dots> = map ((+) (length old)) [0..<length new]"
    by (rule nth_equalityI) simp_all
  finally have pos: "positions (in_block h) (map Some (map (retire_ids t K) old @ new)) = map ((+) (length old)) [0..<length new]" .
  have "fold ?f (map ((+) (length old)) [0..<j]) (partly_reverted pick t K old new 0) = partly_reverted pick t K old new j"
    if "j \<le> length new" for j
    using that by (induction j) (simp_all add: revert_entry_partly [OF t before h stamps])
  from this [of "length new"] have "fold ?f (map ((+) (length old)) [0..<length new]) (partly_reverted pick t K old new 0) =
      map Some (map (row_back pick t K K old) [0..<length old]) @ replicate (length new) None"
    by (simp add: partly_reverted_def K comp_def)
  moreover have "rows_of (map Some xs @ replicate m None) = xs" for xs :: "inst list" and m
    by (simp add: rows_of_def filter_empty_conv comp_def)
  ultimately show ?thesis
    by (simp only: revert_table_def revert_entries_def Let_def pos start [symmetric] flip: start)
qed

section \<open>What a revert restores\<close>

text \<open>The current row of the entity is the only row of it in its latest block.\<close>

definition newest_alone :: "string \<Rightarrow> inst list \<Rightarrow> pyval \<Rightarrow> bool" where
  "newest_alone t rows k \<longleftrightarrow> (\<exists>j < length rows. is_current_row (rows ! j) \<and> row_id t (rows ! j) = k \<and>
     (\<forall>i < length rows. row_id t (rows ! i) = k \<longrightarrow> i \<noteq> j \<longrightarrow> row_blocknumber (rows ! i) < row_blocknumber (rows ! j)))"

text \<open>
  The rows are the same but for which one of an entity is current: every entity whose newest row
  is alone in its block has its rows as before; any other that had a current row has one again,
  the one it had or one of its latest block.
\<close>

definition restored :: "string \<Rightarrow> inst list \<Rightarrow> inst list \<Rightarrow> bool" where
  "restored t rows rows' \<longleftrightarrow> length rows' = length rows \<and> rows_ok t rows' \<and>
     (\<forall>i < length rows. set_current (rows' ! i) = set_current (rows ! i) \<and>
       (newest_alone t rows (row_id t (rows ! i)) \<longrightarrow> rows' ! i = rows ! i) \<and>
       (is_current_row (rows ! i) \<longrightarrow>
         (\<exists>j < length rows. row_id t (rows ! j) = row_id t (rows ! i) \<and> is_current_row (rows' ! j))) \<and>
       (is_current_row (rows' ! i) \<longrightarrow> rows' ! i = rows ! i \<or>
         (\<forall>j < length rows. row_id t (rows ! j) = row_id t (rows ! i) \<longrightarrow> row_blocknumber (rows ! j) \<le> row_blocknumber (rows ! i))))"

lemma current_back:
  assumes ok: "rows_ok t rows" and t: "t \<in> id_types" and i: "i < length rows" and cur: "is_current_row (row_back pick t K K rows i)"
  shows "if row_id t (rows ! i) \<in> K then chosen_row pick t rows (row_id t (rows ! i)) = Some i
    else is_current_row (rows ! i) \<and> row_back pick t K K rows i = rows ! i"
  using cur
  by (auto simp: row_back_def Let_def retire_ids_def is_current_row_def put_attr_def split: if_splits)

lemma chosen_alone:
  assumes "newest_alone t rows k"
  obtains c where "c < length rows" "is_current_row (rows ! c)" "row_id t (rows ! c) = k" "chosen_row pick t rows k = Some c"
proof -
  obtain c where c: "c < length rows" "is_current_row (rows ! c)" "row_id t (rows ! c) = k"
      "\<And>i. i < length rows \<Longrightarrow> row_id t (rows ! i) = k \<Longrightarrow> i \<noteq> c \<Longrightarrow> row_blocknumber (rows ! i) < row_blocknumber (rows ! c)"
    using assms unfolding newest_alone_def by metis
  let ?is = "filter (\<lambda>i. row_id t (rows ! i) = k) [0..<length rows]"
  have "(\<forall>j \<in> set ?is. row_blocknumber (rows ! j) \<le> row_blocknumber (rows ! i)) \<longleftrightarrow> i = c" if i: "i \<in> set ?is" for i
  proof
    assume "\<forall>j \<in> set ?is. row_blocknumber (rows ! j) \<le> row_blocknumber (rows ! i)"
    then have "row_blocknumber (rows ! c) \<le> row_blocknumber (rows ! i)" using c(1,3) by simp
    then show "i = c" using c(4) [of i] i by (auto simp: not_less [symmetric])
  next
    assume "i = c"
    moreover have "row_blocknumber (rows ! j) \<le> row_blocknumber (rows ! c)" if "j \<in> set ?is" for j
      using c(4) [of j] that by (cases "j = c") (auto intro: less_imp_le)
    ultimately show "\<forall>j \<in> set ?is. row_blocknumber (rows ! j) \<le> row_blocknumber (rows ! i)" by blast
  qed
  then have "filter (\<lambda>i. \<forall>j \<in> set ?is. row_blocknumber (rows ! j) \<le> row_blocknumber (rows ! i)) ?is = filter (\<lambda>i. i = c) ?is"
    by (intro filter_cong) simp_all
  also have "\<dots> = [c]"
    using c(1,3) by (intro filter_single) (auto simp: distinct_length_filter card_le_Suc0_iff_eq)
  finally have "chosen_row pick t rows k = Some c"
    by (simp only: chosen_row_def Let_def first_of_single)
  then show thesis using c that by blast
qed

lemma first_of_some: "xs \<noteq> [] \<Longrightarrow> first_of pick xs \<noteq> None"
  by (simp add: first_of_def split: list.split)

lemma chosen_some:
  assumes "i < length rows" and "row_id t (rows ! i) = k"
  obtains c where "c < length rows" "row_id t (rows ! c) = k" "chosen_row pick t rows k = Some c"
proof -
  let ?is = "filter (\<lambda>i. row_id t (rows ! i) = k) [0..<length rows]"
  let ?max = "filter (\<lambda>i. \<forall>j \<in> set ?is. row_blocknumber (rows ! j) \<le> row_blocknumber (rows ! i)) ?is"
  let ?B = "(\<lambda>i. row_blocknumber (rows ! i)) ` set ?is"
  have "i \<in> set ?is" using assms by simp
  then have "?B \<noteq> {}" by (metis empty_iff imageI)
  moreover have fin: "finite ?B" by (rule finite_imageI [OF List.finite_set])
  ultimately have "Max ?B \<in> ?B" using Max_in by blast
  then obtain c where c: "c \<in> set ?is" "Max ?B = row_blocknumber (rows ! c)" by (rule imageE)
  have "row_blocknumber (rows ! j) \<le> row_blocknumber (rows ! c)" if "j \<in> set ?is" for j
    unfolding c(2) [symmetric] by (rule Max_ge [OF fin imageI [OF that]])
  then have "c \<in> set ?max" using c(1) by simp
  then have "first_of pick ?max \<noteq> None" by (intro first_of_some) (metis empty_iff list.set(1))
  then obtain d where d: "chosen_row pick t rows k = Some d" by (auto simp: chosen_row_def Let_def)
  show thesis using chosen_in [OF d] d that by blast
qed

lemma revert_restores:
  assumes ok: "rows_ok t rows" and t: "t \<in> id_types"
  shows "restored t rows (map (row_back pick t K K rows) [0..<length rows])" (is "restored t rows ?rows")
proof -
  have same: "row_id t (?rows ! i) = row_id t (rows ! i)" "cls (?rows ! i) = cls (rows ! i)"
      "set_current (?rows ! i) = set_current (rows ! i)" if "i < length rows" for i
  proof -
    have i: "?rows ! i = row_back pick t K K rows i" using that by simp
    show "row_id t (?rows ! i) = row_id t (rows ! i)" unfolding i by (rule row_back_facts(1) [OF t])
    show "cls (?rows ! i) = cls (rows ! i)" unfolding i by (simp add: row_back_def Let_def set_current_def retire_ids_def)
    show "set_current (?rows ! i) = set_current (rows ! i)" unfolding i by (simp add: row_back_def Let_def set_current_facts)
  qed
  have one: "i = j" if "i < length rows" "j < length rows" "is_current_row (?rows ! i)" "is_current_row (?rows ! j)"
      "row_id t (rows ! i) = row_id t (rows ! j)" for i j
  proof -
    have cur2: "is_current_row (row_back pick t K K rows i)" "is_current_row (row_back pick t K K rows j)"
      using that(1-4) by simp_all
    note cur = current_back [OF ok t that(1) cur2(1)] current_back [OF ok t that(2) cur2(2)]
    show ?thesis
    proof (cases "row_id t (rows ! i) \<in> K")
      case True
      then have "chosen_row pick t rows (row_id t (rows ! j)) = Some i" "chosen_row pick t rows (row_id t (rows ! j)) = Some j"
        using cur unfolding that(5) by (simp_all only: if_True)
      then show ?thesis by simp
    next
      case False
      then have "is_current_row (rows ! i)" "is_current_row (rows ! j)"
        using cur unfolding that(5) by (simp_all only: if_False)
      then show ?thesis using current_unique [OF ok t that(1,2) _ _ that(5)] by blast
    qed
  qed
  have "length (filter (current_with t n) ?rows) \<le> 1" for n
    using one same(1) by (intro length_filter_le_1I) (auto simp: current_with_def)
  moreover have "cls r = t \<and> (\<exists>n. row_id t r = PInt n)" if r: "r \<in> set ?rows" for r
  proof -
    obtain i where "i < length rows" "r = ?rows ! i" using r by (metis in_set_conv_nth length_map length_upt minus_nat.diff_0)
    then show ?thesis using ok t same(1,2) [of i] nth_mem [of i rows] unfolding rows_ok_def by metis
  qed
  ultimately have "rows_ok t ?rows" unfolding rows_ok_def by blast
  moreover have "?rows ! i = rows ! i" if i: "i < length rows" and alone: "newest_alone t rows (row_id t (rows ! i))" for i
  proof -
    obtain c where c: "c < length rows" "is_current_row (rows ! c)" "row_id t (rows ! c) = row_id t (rows ! i)"
        "chosen_row pick t rows (row_id t (rows ! i)) = Some c"
      using alone by (rule chosen_alone)
    show ?thesis
    proof (cases "i = c")
      case True
      then show ?thesis using i c set_current_retired [OF c(2), of t K] by (auto simp: row_back_def Let_def retire_ids_def)
    next
      case False
      then have "\<not> is_current_row (rows ! i)" using current_unique [OF ok t i c(1) _ c(2)] c(3) by auto
      then show ?thesis using i c(4) False by (simp add: row_back_def Let_def retire_ids_def)
    qed
  qed
  moreover have "?rows ! i = rows ! i \<or> (\<forall>j < length rows. row_id t (rows ! j) = row_id t (rows ! i) \<longrightarrow>
      row_blocknumber (rows ! j) \<le> row_blocknumber (rows ! i))" if "i < length rows" "is_current_row (?rows ! i)" for i
    using that current_back [OF ok t, of i pick K] chosen_in [of pick t rows "row_id t (rows ! i)" i] by (auto split: if_splits)
  moreover have "\<exists>j < length rows. row_id t (rows ! j) = row_id t (rows ! i) \<and> is_current_row (?rows ! j)"
    if i: "i < length rows" "is_current_row (rows ! i)" for i
  proof (cases "row_id t (rows ! i) \<in> K")
    case True
    obtain c where c: "c < length rows" "row_id t (rows ! c) = row_id t (rows ! i)" "chosen_row pick t rows (row_id t (rows ! i)) = Some c"
      using chosen_some [OF i(1) refl] by metis
    then have "?rows ! c = set_current (retire_ids t K (rows ! c))" using True by (simp add: row_back_def Let_def set_current_facts)
    then show ?thesis using c by (auto simp: set_current_facts)
  next
    case False
    then have "?rows ! i = rows ! i" using i(1) by (simp add: row_back_def Let_def retire_ids_def)
    then show ?thesis using i by metis
  qed
  ultimately show ?thesis using same(3) by (simp add: restored_def)
qed

end
