(* ===== verification/Indexer_Properties.thy ===== *)
theory Indexer_Properties
  imports Chain_Walks Reorg_Entities EM_Samples
begin

text \<open>
  What the block indexer guarantees: the rows of \<open>blocks\<close> stay one chain with one current tip
  whatever fails, a run that succeeds ends at its target, and a revert undoes the block indexed
  last; and where it does not do what it means to.
\<close>

section \<open>Sample data\<close>

definition sample_ix_env :: ix_env where
  "sample_ix_env = \<lparr>ix_em_env = sample_env,
     ix_receipt = (\<lambda>tx. Some \<lparr>tx_hash = ct_hash tx, tx_events =
       [if ct_hash tx = ''0xdel''
        then \<lparr>ev_user_id = 3000001, ev_entity_id = 2000001, ev_entity_type = ''Track'', ev_action = ''Delete'',
               ev_metadata = [], ev_signer = ''0xABC''\<rparr>
        else \<lparr>ev_user_id = 3000001, ev_entity_id = 3000002, ev_entity_type = ''User'', ev_action = ''Follow'',
               ev_metadata = [], ev_signer = ''0xABC''\<rparr>]\<rparr>),
     ix_gateway = (\<lambda>reqs. []), ix_cnodes = [''http://cn''], ix_ask = (\<lambda>node n h tx. Some NOT_FOUND),
     ix_other_nodes = [''http://dn2''], ix_commit_error = (\<lambda>b. if cb_hash b = ''0xbad'' then Some ''disk full'' else None),
     ix_accepts = (\<lambda>j. True), ix_is_dst = (\<lambda>t. False), ix_em_address = Some ''0xem'', ix_sort_start = 0,
     ix_save_cid = False\<rparr>"

definition row_at :: "string \<Rightarrow> string \<Rightarrow> int \<Rightarrow> bool \<Rightarrow> block_row" where
  "row_at h p n c = \<lparr>bk_hash = h, bk_parent = Some p, bk_number = Some n, bk_current = c\<rparr>"

definition block_at :: "string \<Rightarrow> string \<Rightarrow> int \<Rightarrow> chain_tx list \<Rightarrow> chain_block" where
  "block_at h p n txs = \<lparr>cb_hash = h, cb_parent = p, cb_number = n, cb_timestamp = 0, cb_txs = txs\<rparr>"

text \<open>The old chain ends at block 5; then block 1 of the new chain, and a block that was orphaned.\<close>

definition sample_rows :: "block_row list" where
  "sample_rows = [row_at ''0xp5'' ''0xp4'' 5 False, row_at ''0xn1'' ''0xn0'' 6 False,
     row_at ''0xo2'' ''0xn1'' 7 True]"

definition sample_chain :: "string \<Rightarrow> chain_block option" where
  "sample_chain h = map_of [(''0xn1'', block_at ''0xn1'' ''0xn0'' 1 []),
     (''0xn2'', block_at ''0xn2'' ''0xn1'' 2 []), (''0xn3'', block_at ''0xn3'' ''0xn2'' 3 [])] h"

text \<open>A second user, so that the first has somebody to follow.\<close>

definition sample_em :: em_state where
  "sample_em = sample_state\<lparr>es_db := sample_db(''User'' := [sample_user, row_of ''User''
     [(''user_id'', PInt 3000002), (''is_current'', PBool True), (''wallet'', PStr ''0xdef''),
      (''txhash'', PStr ''0x1''), (''blocknumber'', PInt 1)]])\<rparr>"

definition sample_ix_state :: ix_state where
  "sample_ix_state = \<lparr>ix_em = sample_em, ix_blocks = sample_rows, ix_skipped = [], ix_cids = [],
     ix_weeks = [], ix_error = None, ix_queue = [], ix_last = None, ix_tip = None, ix_poa = Some 5,
     ix_tasks = []\<rparr>"

definition sample_sync :: chain_env where
  "sample_sync = \<lparr>ch_ix = sample_ix_env, ch_by_hash = sample_chain,
     ch_by_number = (\<lambda>n. if n = 3 then sample_chain ''0xn3'' else None),
     ch_latest = sample_chain ''0xn3'', ch_pick = hd, ch_window = 20, ch_is_stage = True,
     ch_identity = Refused, ch_have_lock = True\<rparr>"

section \<open>One chain\<close>

text \<open>The number at which the old chain ends, when the run learns it.\<close>

definition old_chain_ends :: "chain_env \<Rightarrow> ix_state \<Rightarrow> int \<Rightarrow> bool" where
  "old_chain_ends C s F \<longleftrightarrow>
     (\<forall>n u. get_final_poa_block (ch_is_stage C) (ch_identity C) s = (Inr (Some n), u) \<longrightarrow> n = F)"

text \<open>The start of a run: the rows are untouched, and if it goes on the old chain is complete.\<close>

lemma update_task_start:
  assumes "chain_ok F (ix_blocks s)"
    and final: "old_chain_ends C s F"
  obtains (ended) r t where "update_task C s = Some (r, t)" "ix_blocks t = ix_blocks s"
    | (goes_on) t where "ix_blocks t = ix_blocks s" "past F (ix_blocks s)"
      "update_task C s = map_option (\<lambda>plan. bnd (lift_res plan) (\<lambda>(revert_blocks_list, index_blocks_list).
         sq (revert_blocks (ch_pick C) revert_blocks_list) (index_blocks (ch_ix C) index_blocks_list)) t)
         (plan_update C F (ix_blocks s))"
proof -
  let ?m = "bnd (get_final_poa_block (ch_is_stage C) (ch_identity C)) (\<lambda>final_poa.
             bnd (gets (\<lambda>s. must_wait final_poa (ix_blocks s))) (\<lambda>w.
             bnd (lift_res w) (\<lambda>wait.
             if wait then ret None
             else sq (update_latest_block_redis (ch_latest C)) (ret final_poa))))"
  have k1: "keeps (blocks_are B) (get_final_poa_block c i)" for B c i
    unfolding get_final_poa_block_def
    by (intro keeps_rules) (auto split: option.split identity_answer.split intro!: keeps_rules keeps_modify
        simp: blocks_are_def)
  have "keeps (blocks_are B) ?m" for B
    unfolding update_latest_block_redis_def
    by (intro keeps_rules k1 keeps_modify) (simp_all add: blocks_are_def)
  then have blocks: "ix_blocks t = ix_blocks s" if "?m s = (r, t)" for r t
    using that by (rule kept_blocks)
  obtain r t where m: "?m s = (r, t)" by force
  show thesis
  proof (cases "(\<exists>x. r = Inl x) \<or> r = Inr None \<or> \<not> ch_have_lock C")
    case True
    then have "\<exists>r t. update_task C s = Some (r, t) \<and> ix_blocks t = ix_blocks s"
      using m blocks [OF m] by (cases r) (auto simp: update_task_def split: option.split)
    then show thesis using ended by blast
  next
    case False
    then obtain n where r: "r = Inr (Some n)" "ch_have_lock C" by (cases r) auto
    with m obtain u where u: "get_final_poa_block (ch_is_stage C) (ch_identity C) s = (Inr (Some n), u)"
        "must_wait (Some n) (ix_blocks u) = Inr False"
      by (auto simp: bnd_Inr sq_Inr run_Inr split: if_splits)
    have "n = F" using final u(1) by (simp add: old_chain_ends_def)
    have "ix_blocks u = ix_blocks s" using k1 u(1) by (rule kept_blocks)
    moreover have "current_rows (ix_blocks s) = [last (ix_blocks s)]"
      using assms(1) by (intro one_tip_current) (simp add: chain_ok_def)
    ultimately have "past F (ix_blocks s)"
      using u(2) \<open>n = F\<close> by (auto simp: must_wait_def past_def split: if_splits option.splits)
    then show thesis
      using m r \<open>n = F\<close> blocks [OF m] by (intro goes_on [of t]) (simp_all add: update_task_def)
  qed
qed

lemma carried_out:
  assumes ok: "chain_ok F (ix_blocks s)" "past F (ix_blocks s)" and plan: "plan_ok F (ix_blocks s) target reverts lst"
    and run: "sq (revert_blocks pick reverts) (index_blocks E lst) s = (r, t)"
  shows "chain_ok F (ix_blocks t)" and "r = Inr () \<Longrightarrow> bk_hash (last (ix_blocks t)) = cb_hash target"
proof -
  obtain r1 t1 where rev: "revert_blocks pick reverts s = (r1, t1)" by force
  note tip = revert_blocks_chain [OF ok plan rev]
  have "chain_ok F (ix_blocks t) \<and> (r = Inr () \<longrightarrow> bk_hash (last (ix_blocks t)) = cb_hash target)"
  proof (cases r1)
    case (Inl x)
    then show ?thesis using run rev tip(1) by (auto simp: py_simps)
  next
    case (Inr u)
    then have idx: "index_blocks E lst t1 = (r, t)" using run rev by (simp add: py_simps)
    have path: "path_down lst" "\<forall>b \<in> set lst. cb_hash b \<noteq> default_padded_start_hash"
      using plan by (auto simp: plan_ok_def path_down_def split: if_splits)
    have t1: "past F (ix_blocks t1)" "lst \<noteq> [] \<Longrightarrow> can_follow F (ix_blocks t1) (last lst)"
        "lst = [] \<Longrightarrow> ix_blocks t1 = ix_blocks s"
      using tip(2) Inr by simp_all
    note fin = index_blocks_chain [OF tip(1) t1(1) path t1(2) idx]
    show ?thesis
    proof (cases "lst = []")
      case True
      then show ?thesis
        using idx t1(3) plan fin(1) by (auto simp: index_blocks_def py_simps plan_ok_def)
    next
      case False
      then show ?thesis using fin plan by (auto simp: plan_ok_def new_block_row_def)
    qed
  qed
  then show "chain_ok F (ix_blocks t)" and "r = Inr () \<Longrightarrow> bk_hash (last (ix_blocks t)) = cb_hash target"
    by simp_all
qed

text \<open>C3: A run of the indexer always returns, and the block table stays one chain whose last row
  is the only current one: whichever call fails, whatever part of the chain was replaced, and
  however many blocks were already indexed or reverted when it failed.\<close>

theorem update_task_one_chain:
  assumes "honest_chain (ch_by_hash C)" and "agrees_with (ch_by_hash C) F (ix_blocks s)"
    and "numbers_agree C"
    and "chain_ok F (ix_blocks s)"
    and "old_chain_ends C s F"
  shows "\<exists>r t. update_task C s = Some (r, t) \<and> chain_ok F (ix_blocks t)"
proof -
  from assms(4,5) show ?thesis
  proof (cases rule: update_task_start [of F s C])
    case (ended r t)
    then show ?thesis using assms(4) by simp
  next
    case (goes_on t)
    obtain plan where plan: "plan_update C F (ix_blocks s) = Some plan"
        "\<And>reverts lst. plan = Inr (reverts, lst) \<Longrightarrow> \<exists>target. plan_ok F (ix_blocks s) target reverts lst"
      using plan_update_ok [OF assms(1-4)] by blast
    show ?thesis
    proof (cases plan)
      case (Inl x)
      then show ?thesis using goes_on plan(1) assms(4) by (simp add: bnd_lift_res)
    next
      case (Inr p)
      obtain reverts lst where p: "p = (reverts, lst)" by force
      obtain target where ok: "plan_ok F (ix_blocks t) target reverts lst"
        using plan(2) Inr p goes_on(1) by auto
      obtain r u where run: "sq (revert_blocks (ch_pick C) reverts) (index_blocks (ch_ix C) lst) t = (r, u)" by force
      have "chain_ok F (ix_blocks u)"
        using carried_out(1) [OF _ _ ok run] goes_on assms(4) by simp
      then show ?thesis using goes_on(3) plan(1) Inr p run by (simp add: bnd_lift_res)
    qed
  qed
qed

lemmas sample_chain_defs =
  sample_chain_def sample_sync_def sample_ix_state_def sample_rows_def row_at_def block_at_def

lemma sample_honest: "honest_chain sample_chain"
  by (auto simp: honest_chain_def sample_chain_defs default_padded_start_hash_def split: if_splits)

lemma sample_agrees: "agrees_with sample_chain 5 sample_rows"
  by (auto simp: agrees_with_def sample_chain_defs split: if_splits)

lemma sample_chain_ok: "chain_ok 5 sample_rows"
  by (auto simp: chain_ok_def sample_chain_defs one_tip_def link_def default_padded_start_hash_def
      intro: exI [of _ 5])

lemma sample_numbers: "numbers_agree sample_sync"
  by (auto simp: numbers_agree_def sample_chain_defs split: if_splits)

lemma sample_final: "old_chain_ends sample_sync sample_ix_state 5"
  by (simp add: old_chain_ends_def get_final_poa_block_def sample_chain_defs py_simps)

lemma update_task_one_chain_witness:
  "\<exists>r t. update_task sample_sync sample_ix_state = Some (r, t) \<and> chain_ok 5 (ix_blocks t)"
proof (rule update_task_one_chain)
  show "honest_chain (ch_by_hash sample_sync)" using sample_honest by (simp add: sample_sync_def)
  show "agrees_with (ch_by_hash sample_sync) 5 (ix_blocks sample_ix_state)"
    using sample_agrees by (simp add: sample_sync_def sample_ix_state_def)
  show "chain_ok 5 (ix_blocks sample_ix_state)" using sample_chain_ok by (simp add: sample_ix_state_def)
qed (rule sample_numbers sample_final)+

text \<open>C6: A run that goes on and succeeds ends at its target: the last row of the block table, the
  current one, is the block of the chain the run set out for.\<close>

theorem update_task_reaches_target:
  assumes "honest_chain (ch_by_hash C)" and "agrees_with (ch_by_hash C) F (ix_blocks s)"
    and "numbers_agree C"
    and "chain_ok F (ix_blocks s)" and "past F (ix_blocks s)"
    and "ch_is_stage C" "ix_poa s = Some F" "F \<noteq> 0" "ch_have_lock C"
    and run: "update_task C s = Some (Inr (), t)"
  shows "\<exists>target. get_latest_block C F (ix_blocks s) = Inr target \<and>
    bk_hash (last (ix_blocks t)) = cb_hash target \<and> bk_current (last (ix_blocks t))"
proof -
  have "current_rows (ix_blocks s) = [last (ix_blocks s)]"
    using assms(4) by (intro one_tip_current) (simp add: chain_ok_def)
  then have wait: "must_wait (Some F) (ix_blocks s) = Inr False"
    using assms(5,8) by (auto simp: must_wait_def past_def)
  obtain plan where plan: "plan_update C F (ix_blocks s) = Some plan"
      "\<And>reverts lst. plan = Inr (reverts, lst) \<Longrightarrow>
        \<exists>target. get_latest_block C F (ix_blocks s) = Inr target \<and> plan_ok F (ix_blocks s) target reverts lst"
    using plan_update_ok [OF assms(1-4)] by blast
  obtain r u where tip: "update_latest_block_redis (ch_latest C) s = (r, u)" by force
  have u: "ix_blocks u = ix_blocks s"
    using tip by (auto simp: update_latest_block_redis_def py_simps split: prod.splits sum.splits)
  have go: "update_task C s = (case r of Inl x \<Rightarrow> Some (Inl x, u)
      | Inr _ \<Rightarrow> Some (bnd (lift_res plan) (\<lambda>(reverts, lst).
          sq (revert_blocks (ch_pick C) reverts) (index_blocks (ch_ix C) lst)) u))"
    using assms(6,7,9) wait tip plan(1) u
    by (simp add: update_task_def get_final_poa_block_def py_simps split: sum.splits)
  with run obtain reverts lst where
      carried: "sq (revert_blocks (ch_pick C) reverts) (index_blocks (ch_ix C) lst) u = (Inr (), t)"
      and p: "plan = Inr (reverts, lst)"
    by (cases r; cases plan) (auto simp: bnd_lift_res)
  obtain target where target: "get_latest_block C F (ix_blocks s) = Inr target"
      "plan_ok F (ix_blocks u) target reverts lst"
    using plan(2) [OF p] u by auto
  have "bk_hash (last (ix_blocks t)) = cb_hash target" and "chain_ok F (ix_blocks t)"
    using carried_out [OF _ _ target(2) carried] assms(4,5) u by simp_all
  then show ?thesis using target(1) by (simp add: chain_ok_def one_tip_def)
qed

text \<open>The orphaned block is reverted, and the two blocks that replace it are indexed.\<close>

lemma sample_run:
  "map_option (\<lambda>(r, t). (r, map bk_hash (ix_blocks t), map bk_current (ix_blocks t), ix_last t))
     (update_task sample_sync sample_ix_state) =
   Some (Inr (), [''0xp5'', ''0xn1'', ''0xn2'', ''0xn3''], [False, False, False, True], Some (8, ''0xn3''))"
  by code_simp

lemma update_task_reaches_target_witness:
  "\<exists>t target. update_task sample_sync sample_ix_state = Some (Inr (), t) \<and>
     get_latest_block sample_sync 5 sample_rows = Inr target \<and> bk_hash (last (ix_blocks t)) = cb_hash target"
proof -
  obtain t where t: "update_task sample_sync sample_ix_state = Some (Inr (), t)"
    using sample_run by (auto simp: case_prod_beta)
  have "\<exists>target. get_latest_block sample_sync 5 (ix_blocks sample_ix_state) = Inr target \<and>
      bk_hash (last (ix_blocks t)) = cb_hash target \<and> bk_current (last (ix_blocks t))"
  proof (rule update_task_reaches_target)
    show "honest_chain (ch_by_hash sample_sync)" using sample_honest by (simp add: sample_sync_def)
    show "agrees_with (ch_by_hash sample_sync) 5 (ix_blocks sample_ix_state)"
      using sample_agrees by (simp add: sample_sync_def sample_ix_state_def)
    show "chain_ok 5 (ix_blocks sample_ix_state)" using sample_chain_ok by (simp add: sample_ix_state_def)
    show "past 5 (ix_blocks sample_ix_state)" by (simp add: past_def sample_chain_defs)
    show "update_task sample_sync sample_ix_state = Some (Inr (), t)" by (rule t)
  qed (rule sample_numbers | simp add: sample_sync_def sample_ix_state_def)+
  then show ?thesis using t by (auto simp: sample_ix_state_def)
qed

section \<open>Undoing a block\<close>

lemma retip_retired: "chain_ok F bs \<Longrightarrow> retip (map retire_block bs) = bs"
proof -
  assume "chain_ok F bs"
  then obtain xs y where bs: "bs = xs @ [y]" "bk_current y" "\<forall>r \<in> set xs. \<not> bk_current r"
    by (cases bs rule: rev_cases) (auto simp: chain_ok_def one_tip_def)
  have "map retire_block xs = xs" using bs(3) by (intro map_idI) (simp add: retire_block_def)
  then show ?thesis using bs(1,2) by (simp add: retip_def retire_block_def)
qed

text \<open>C4: Reverting the block indexed last restores the block table exactly, and the tables of users, tracks and
  playlists up to which row of an entity is current, whatever its transactions did: over rows of
  earlier blocks no row is lost, added or changed otherwise, an entity that had a current row has
  exactly one again, and if that row is the only one of its latest block then all its rows are
  exactly as before.  Where an earlier block left several rows of an entity, the database is free to
  choose the current one among those of the entity's latest block, but an older row is never made
  current.\<close>

theorem revert_undoes_block:
  assumes run: "index_block E b s = (Inr u, s')"
    and chain: "chain_ok F (ix_blocks s)" "past F (ix_blocks s)" "can_follow F (ix_blocks s) b"
    and parent: "cb_parent b = bk_hash (last (ix_blocks s))"
    and db: "db_ok (es_db (ix_em s))" and hash: "strip_nul (cb_hash b) = cb_hash b"
    and t: "t \<in> id_types"
    and before: "before_block (cb_hash b) (cb_number b) (es_db (ix_em s) t)"
  shows "restored t (es_db (ix_em s) t) (es_db (ix_em (revert_block pick (new_block_row b) s')) t) \<and>
    ix_blocks (revert_block pick (new_block_row b) s') = ix_blocks s"
proof
  obtain em where em: "em_effect E b (ix_em s) em" "ix_em s' = em\<lparr>es_bus := []\<rparr>"
    using index_block_em [OF run] by blast
  then obtain md txs n where "entity_manager_update (ix_em_env E) (em_block_of b md) txs (ix_em s) = (Inr n, em)"
    by (auto simp: em_effect_def)
  from entity_manager_update_rows [OF db t this] obtain K new where
      rows: "es_db em t = map (retire_ids t K) (es_db (ix_em s) t) @ new"
      "\<forall>r \<in> set new. stamped (cb_hash b) (cb_number b) r \<and> row_id t r \<in> K" "K \<subseteq> row_id t ` set new"
    by (auto simp: em_block_of_def)
  have ok: "rows_ok t (es_db (ix_em s) t)" using db by (simp add: db_ok_def)
  have "t \<in> set (social_tables @ entity_tables)" using revert_columns_id [OF t] by simp
  then have "es_db (ix_em (revert_block pick (new_block_row b) s')) t = revert_table pick (cb_hash b) (SqlInt (cb_number b)) t (es_db em t)"
    by (simp add: revert_block_def revert_em_def revert_tables_def em(2) block_sql_number_def new_block_row_def)
  also have "\<dots> = map (row_back pick t K K (es_db (ix_em s) t)) [0..<length (es_db (ix_em s) t)]"
    unfolding rows(1) using t before hash rows(2,3) by (rule revert_entries_back)
  finally show "restored t (es_db (ix_em s) t) (es_db (ix_em (revert_block pick (new_block_row b) s')) t)"
    using revert_restores [OF ok t] by simp
  obtain xs y where bs: "ix_blocks s = xs @ [y]"
    using chain(1) by (cases "ix_blocks s" rule: rev_cases) (auto simp: chain_ok_def one_tip_def)
  have s': "ix_blocks s' = map retire_block xs @ [retire_block y, new_block_row b]"
    using run bs by (cases rule: index_block_cases [of E b s]) auto
  have "chain_ok F (ix_blocks s')" using index_block_chain [OF chain run] by blast
  then have "revert_block_rows (new_block_row b) (ix_blocks s') = retip (map retire_block xs @ [retire_block y])"
    unfolding s' using parent bs by (intro revert_tip(1)) (simp_all add: new_block_row_def)
  also have "\<dots> = ix_blocks s" using retip_retired [OF chain(1)] bs by simp
  finally show "ix_blocks (revert_block pick (new_block_row b) s') = ix_blocks s" by simp
qed

definition indexed_sample :: chain_block where
  "indexed_sample = block_at ''0xn3'' ''0xo2'' 8
     [\<lparr>ct_hash = ''0xdel'', ct_to = Some ''0xem'', ct_index = 0\<rparr>]"

lemma indexed_sample_run:
  "(\<lambda>(r, t). (r, length (es_db (ix_em t) ''Track''))) (index_block sample_ix_env indexed_sample sample_ix_state) = (Inr (), 2)"
  by code_simp

lemma sample_em_db_ok: "db_ok (es_db sample_em)"
proof -
  have "rows_ok t (es_db sample_em t)" for t
    by (auto simp: rows_ok_def sample_em_def sample_state_def sample_db_def sample_user_def sample_track_def
        row_of_def id_types_def id_column_def current_with_def is_current_row_def)
  then show ?thesis by (simp add: db_ok_def)
qed

lemma sample_track_table:
  "newest_alone ''Track'' (es_db sample_em ''Track'') (PInt 2000001)" "before_block ''0xn3'' 8 (es_db sample_em ''Track'')"
  by (simp_all add: newest_alone_def id_column_def before_block_def sample_em_def sample_state_def sample_db_def
      sample_track_def row_of_def is_current_row_def in_block_def stored_def row_blocknumber_def sql_of_def
      sql_before_def as_int_def)

lemma revert_undoes_block_witness:
  "\<exists>s'. index_block sample_ix_env indexed_sample sample_ix_state = (Inr (), s') \<and>
     length (es_db (ix_em s') ''Track'') = 2 \<and>
     es_db (ix_em (revert_block hd (new_block_row indexed_sample) s')) ''Track'' = [sample_track] \<and>
     ix_blocks (revert_block hd (new_block_row indexed_sample) s') = sample_rows"
proof -
  obtain s' where s': "index_block sample_ix_env indexed_sample sample_ix_state = (Inr (), s')"
      "length (es_db (ix_em s') ''Track'') = 2"
    using indexed_sample_run by (auto simp: case_prod_beta prod_eq_iff)
  let ?t = "revert_block hd (new_block_row indexed_sample) s'"
  have undone: "restored ''Track'' (es_db (ix_em sample_ix_state) ''Track'') (es_db (ix_em ?t) ''Track'') \<and>
      ix_blocks ?t = ix_blocks sample_ix_state"
  proof (rule revert_undoes_block [OF s'(1)])
    show "chain_ok 5 (ix_blocks sample_ix_state)" using sample_chain_ok by (simp add: sample_ix_state_def)
    show "past 5 (ix_blocks sample_ix_state)" by (simp add: past_def sample_chain_defs)
    show "can_follow 5 (ix_blocks sample_ix_state) indexed_sample"
      by (simp add: can_follow_def indexed_sample_def sample_chain_defs default_padded_start_hash_def)
    show "cb_parent indexed_sample = bk_hash (last (ix_blocks sample_ix_state))"
      by (simp add: indexed_sample_def sample_chain_defs)
    show "db_ok (es_db (ix_em sample_ix_state))" using sample_em_db_ok by (simp add: sample_ix_state_def)
    show "strip_nul (cb_hash indexed_sample) = cb_hash indexed_sample"
      by (simp add: indexed_sample_def block_at_def strip_nul_def)
    show "before_block (cb_hash indexed_sample) (cb_number indexed_sample) (es_db (ix_em sample_ix_state) ''Track'')"
      using sample_track_table(2) by (simp add: sample_ix_state_def indexed_sample_def block_at_def)
  qed simp
  have one: "es_db (ix_em sample_ix_state) ''Track'' = [sample_track]"
    by (simp add: sample_ix_state_def sample_em_def sample_state_def sample_db_def)
  moreover have "row_id ''Track'' sample_track = PInt 2000001" by (simp add: sample_track_def row_of_def id_column_def)
  ultimately have "es_db (ix_em ?t) ''Track'' = [sample_track]"
    using undone sample_track_table(1) by (auto simp: restored_def length_Suc_conv sample_ix_state_def)
  then show ?thesis using s' undone by (auto simp: sample_ix_state_def)
qed

text \<open>The revert of a save, repost or follow does not bring the earlier row back.  The query for
  the previous row has no bound on the block number, so the latest row it finds is the one that
  is deleted next; the earlier row stays retired and no row of the pair is current.\<close>

theorem social_revert_loses_current:
  assumes "c \<in> set social_tables" and "in_block h r"
    and "\<forall>q \<in> set old. \<not> in_block h q \<and>
      (same_columns (revert_columns c) r q \<longrightarrow> row_blocknumber q < row_blocknumber r)"
  shows "revert_table pick h N c (old @ [r]) = old"
proof -
  let ?tab = "map Some (old @ [r])" and ?P = "previous_row c N r" and ?m = "length old"
  have P: "?P q \<longleftrightarrow> same_columns (revert_columns c) r q" for q
    using assms(1) by (simp add: previous_row_def)
  have r: "?P r" by (simp add: P same_columns_def list_all_iff)
  have reverted: "positions (in_block h) ?tab = [?m]"
  proof -
    have "filter (\<lambda>i. in_block h ((old @ [r]) ! i)) [0..<?m] = []"
      using assms(3) by (auto simp: filter_empty_conv nth_append)
    then show ?thesis unfolding positions_Some using assms(2) by simp
  qed
  have found: "positions ?P ?tab = filter (\<lambda>i. ?P ((old @ [r]) ! i)) [0..<?m] @ [?m]"
    unfolding positions_Some using r by simp
  have at: "the (?tab ! i) = (old @ [r]) ! i" if "i \<le> ?m" for i
    using that by (simp add: nth_append)
  have less: "row_blocknumber (the (?tab ! i)) < row_blocknumber r" if "i < ?m" "?P ((old @ [r]) ! i)" for i
    using that assms(3) at [of i] by (auto simp: P nth_append)
  have top: "row_blocknumber (the (?tab ! ?m)) = row_blocknumber r" using at [of ?m] by simp
  define Q where "Q = (\<lambda>i. \<forall>j \<in> set (positions ?P ?tab). row_blocknumber (the (?tab ! j)) \<le> row_blocknumber (the (?tab ! i)))"
  have "\<not> Q i" if "i < ?m" "?P ((old @ [r]) ! i)" for i
    using less [OF that] top found by (auto simp: Q_def not_le [symmetric])
  then have "filter Q (filter (\<lambda>i. ?P ((old @ [r]) ! i)) [0..<?m]) = []" by (auto simp: filter_empty_conv)
  moreover have "Q ?m" unfolding Q_def found using less top by (auto intro: less_imp_le)
  ultimately have "filter Q (positions ?P ?tab) = [?m]" unfolding found filter_append by simp
  then have "latest_row pick row_blocknumber ?P ?tab = Some ?m"
    by (simp add: latest_row_def Let_def first_of_single Q_def)
  then have "revert_entry pick row_blocknumber (previous_row c N) set_current ?m ?tab = map Some old @ [None]"
    by (simp add: revert_entry_def update_at_def nth_append list_update_append)
  moreover have "rows_of (map Some old @ [None]) = old" by (simp add: rows_of_def comp_def)
  ultimately show ?thesis
    by (simp only: revert_table_def revert_entries_def Let_def reverted fold_simps comp_apply id_apply)
qed

definition sample_follow :: "int \<Rightarrow> string \<Rightarrow> bool \<Rightarrow> inst" where
  "sample_follow n h c = row_of ''Follow'' [(''follower_user_id'', PInt 1), (''followee_user_id'', PInt 2),
     (''blocknumber'', PInt n), (''blockhash'', PStr h), (''is_current'', PBool c)]"

lemma social_revert_loses_current_witness:
  "revert_table hd ''0xn3'' (SqlInt 8) ''Follow'' ([sample_follow 7 ''0xo2'' False] @ [sample_follow 8 ''0xn3'' True]) =
     [sample_follow 7 ''0xo2'' False]"
  by (rule social_revert_loses_current)
    (simp_all add: social_tables_def in_block_def stored_def sample_follow_def row_of_def text_columns_def
      strip_nul_def row_blocknumber_def sql_of_def as_int_def less_sql_int_def)

end
