(* ===== verification/Indexer_Failures.thy ===== *)
theory Indexer_Failures
  imports Indexer_Properties
begin

text \<open>
  What happens when a block fails: who may skip it, what a failure leaves behind, and the
  failures that never end.
\<close>

section \<open>Failing sessions\<close>

text \<open>A session that does not skip the whole block fails in one of two places, and records where.\<close>

lemma on_failure_Inl:
  "on_failure E f m s = (Inl x, t) \<Longrightarrow> \<exists>y u. m s = (Inl y, u) \<and>
     t = u\<lparr>ix_error := record_failure (ix_ask E) (ix_other_nodes E) (f (exn_text y)) (ix_error u)\<rparr>"
  by (auto simp: on_failure_def create_and_raise_indexing_error_def py_simps split: prod.splits sum.splits)

lemma end_of_session_returns:
  "\<exists>t. sq (check_trending E b) (run_when c (modify f)) s = (Inr (), t)"
  by (auto simp: check_trending_def py_simps split: prod.split option.split)

lemma index_session_Inl:
  assumes "index_session E b s = (Inl x, t)" and "get_tx_hash_to_skip (ix_error s) \<noteq> Some ''commit''"
  shows "\<exists>f redis. ix_error t = record_failure (ix_ask E) (ix_other_nodes E) f redis \<and>
    fail_blocknumber f = cb_number b \<and> fail_blockhash f = cb_hash b \<and>
    (fail_txhash f = None \<or> fail_txhash f = Some ''commit'')"
proof -
  let ?skip = "get_tx_hash_to_skip (ix_error s)"
  let ?first = "on_failure E (block_failure b ''prefetch-cids'' None) (process_block E b ?skip)"
  let ?second = "on_failure E (block_failure b ''session.commit'' (Some ''commit'')) (session_commit E b)"
  let ?rest = "sq (check_trending E b) (run_when (?skip \<noteq> None \<and> ?skip \<noteq> Some [])
    (modify (\<lambda>s. s\<lparr>ix_error := clear_indexing_error (ix_error s)\<rparr>)))"
  have session: "index_session E b s = sq ?first (sq ?second ?rest) s"
    using assms(2) by (simp add: index_session_def bnd_def gets_def)
  obtain r1 s1 where 1: "?first s = (r1, s1)" by force
  show ?thesis
  proof (cases r1)
    case (Inl y)
    then have "t = s1" using assms(1) session 1 by (simp add: sq_def bnd_def)
    then obtain y' u where "t = u\<lparr>ix_error := record_failure (ix_ask E) (ix_other_nodes E)
        (block_failure b ''prefetch-cids'' None (exn_text y')) (ix_error u)\<rparr>"
      using on_failure_Inl [OF 1 [unfolded Inl]] by blast
    then show ?thesis
      by (intro exI [of _ "block_failure b ''prefetch-cids'' None (exn_text y')"] exI [of _ "ix_error u"])
        (simp add: block_failure_def)
  next
    case (Inr v)
    then have 2: "sq ?second ?rest s1 = (Inl x, t)" using assms(1) session 1 by (simp add: sq_def bnd_def)
    obtain r2 s2 where 3: "?second s1 = (r2, s2)" by force
    show ?thesis
    proof (cases r2)
      case (Inl y)
      then have "t = s2" using 2 3 by (simp add: sq_def bnd_def)
      then obtain y' u where "t = u\<lparr>ix_error := record_failure (ix_ask E) (ix_other_nodes E)
          (block_failure b ''session.commit'' (Some ''commit'') (exn_text y')) (ix_error u)\<rparr>"
        using on_failure_Inl [OF 3 [unfolded Inl]] by blast
      then show ?thesis
        by (intro exI [of _ "block_failure b ''session.commit'' (Some ''commit'') (exn_text y')"]
            exI [of _ "ix_error u"]) (simp add: block_failure_def)
    next
      case (Inr w)
      then have "?rest s2 = (Inl x, t)" using 2 3 by (simp add: sq_def bnd_def)
      moreover obtain t' where "?rest s2 = (Inr (), t')" using end_of_session_returns by blast
      ultimately show ?thesis by simp
    qed
  qed
qed

lemma roll_back_error [simp]: "ix_error (roll_back s0 s) = ix_error s"
  by (simp add: roll_back_def)

lemma flush_bus_error [simp]: "ix_error (flush_bus E s) = ix_error s"
  by (simp add: flush_bus_def split: prod.split)

lemma index_block_Inl:
  assumes "index_block E b s = (Inl x, t)"
  obtains u where "index_session E b s = (Inl x, u)" "t = roll_back s (flush_bus E u)"
  using assms by (auto simp: index_block_def scoped_def py_simps split: prod.splits sum.splits)

text \<open>C22: A transaction is never skipped on its own: after a block failed the only thing the next
  run may skip is the whole block, and only if its commit failed and every other discovery node,
  of which there is at least one, reported the same.\<close>

theorem skip_needs_consensus:
  assumes "index_block E b s = (Inl x, t)" and "get_tx_hash_to_skip (ix_error s) = None"
    and "get_tx_hash_to_skip (ix_error t) = Some h"
  shows "h = ''commit'' \<and> ix_other_nodes E \<noteq> [] \<and>
    (\<forall>node \<in> set (ix_other_nodes E). ix_ask E node (cb_number b) (cb_hash b) ''commit'' = Some FAILED)"
proof -
  obtain u where u: "index_session E b s = (Inl x, u)" "t = roll_back s (flush_bus E u)"
    using assms(1) by (rule index_block_Inl)
  obtain f redis where f: "ix_error u = record_failure (ix_ask E) (ix_other_nodes E) f redis"
      "fail_blocknumber f = cb_number b" "fail_blockhash f = cb_hash b"
      "fail_txhash f = None \<or> fail_txhash f = Some ''commit''"
    using index_session_Inl [OF u(1)] assms(2) by auto
  have t: "ix_error t = record_failure (ix_ask E) (ix_other_nodes E) f redis" using u(2) f(1) by simp
  show ?thesis
  proof (cases rule: record_failure_cases [of "ix_ask E" "ix_other_nodes E" f redis])
    case (agreed err)
    then have h: "fail_txhash f = Some h" using t assms(3) by (auto simp: get_tx_hash_to_skip_def same_error_def)
    then have "h = ''commit''" using f(4) by auto
    then show ?thesis using agreed h f(2,3) by (simp add: tx_param_def)
  next
    case (alone err)
    then show ?thesis using t assms(3) by (simp add: get_tx_hash_to_skip_def)
  qed
qed

definition agreeing_env :: ix_env where
  "agreeing_env = sample_ix_env\<lparr>ix_ask := (\<lambda>node n h tx. Some FAILED)\<rparr>"

definition bad_block :: chain_block where
  "bad_block = block_at ''0xbad'' ''0xo2'' 8 [\<lparr>ct_hash = ''0xfol'', ct_to = Some ''0xem'', ct_index = 0\<rparr>]"

lemma bad_block_run:
  "(\<lambda>(r, t). (r, map_option err_txhash (ix_error t), get_tx_hash_to_skip (ix_error t), length (ix_queue t),
      length (es_db (ix_em t) ''Follow''))) (index_block agreeing_env bad_block sample_ix_state) =
   (Inl (Raised ''disk full''), Some (Some ''commit''), Some ''commit'', 1, 0)"
  by code_simp

lemma skip_needs_consensus_witness:
  "\<exists>x t. index_block agreeing_env bad_block sample_ix_state = (Inl x, t) \<and>
     (\<forall>node \<in> set (ix_other_nodes agreeing_env).
        ix_ask agreeing_env node (cb_number bad_block) (cb_hash bad_block) ''commit'' = Some FAILED)"
proof -
  obtain x t where run: "index_block agreeing_env bad_block sample_ix_state = (Inl x, t)"
      "get_tx_hash_to_skip (ix_error t) = Some ''commit''"
    using bad_block_run by (auto simp: case_prod_beta prod_eq_iff)
  have "get_tx_hash_to_skip (ix_error sample_ix_state) = None"
    by (simp add: sample_ix_state_def get_tx_hash_to_skip_def)
  from skip_needs_consensus [OF run(1) this run(2)] show ?thesis using run(1) by blast
qed

section \<open>Events of a block that was not stored\<close>

definition queue_is :: "queue_entry list \<Rightarrow> ix_state \<Rightarrow> bool" where
  "queue_is Q s \<longleftrightarrow> ix_queue s = Q"

interpretation queue_frame: indexer_frame "queue_is Q" for Q
  by unfold_locales (simp_all add: queue_is_def)

lemma queue_process_block: "keeps (queue_is Q) (process_block E b skip)"
  unfolding process_block_def add_indexed_block_to_db_def process_state_changes_def
  by (auto split: prod.split intro!: keeps_rules queue_frame.keeps_parse_txs queue_frame.keeps_save_cids
      keeps_session_flush keeps_modify keeps_zoom_frame simp: queue_is_def)

text \<open>C23: When the commit of a block fails, its changes are rolled back but the challenge events they
  dispatched are not: the bus is flushed on the way out, so every encodable event of the block is
  on the Redis queue although nothing of the block was stored.\<close>

theorem failed_commit_sends_events:
  assumes "get_tx_hash_to_skip (ix_error s) = None"
    and body: "process_block E b None s = (Inr u, s1)" and "ix_commit_error E b = Some msg"
  shows "\<exists>x t. index_block E b s = (Inl x, t) \<and> es_db (ix_em t) = es_db (ix_em s) \<and> ix_blocks t = ix_blocks s \<and>
    ix_queue t = ix_queue s @ map Encoded (filter (\<lambda>ev. event_to_json ev = Inr (Encoded ev) \<and>
      ix_accepts E (Encoded ev)) (es_bus (ix_em s1)))"
proof -
  have q: "ix_queue s1 = ix_queue s"
    using keepsD [OF queue_process_block [of "ix_queue s" E b None], of s] body by (simp add: queue_is_def)
  have "\<exists>y. session_commit E b s1 = (Inl y, s1)"
    using assms(3) by (auto simp: session_commit_def session_flush_def py_simps)
  then obtain y redis where session: "index_session E b s = (Inl y, s1\<lparr>ix_error := redis\<rparr>)"
    using assms(1) body
    by (auto simp: index_session_def on_failure_def create_and_raise_indexing_error_def py_simps)
  let ?t = "roll_back s (flush_bus E (s1\<lparr>ix_error := redis\<rparr>))"
  have "index_block E b s = (Inl y, ?t)"
    using session by (simp add: index_block_def scoped_def py_simps)
  moreover have "ix_queue ?t = ix_queue s @ map Encoded (filter (\<lambda>ev. event_to_json ev = Inr (Encoded ev) \<and>
      ix_accepts E (Encoded ev)) (es_bus (ix_em s1)))"
    by (simp add: roll_back_def flush_bus_def flush_def fold_flush_event q)
  moreover have "es_db (ix_em ?t) = es_db (ix_em s)" "ix_blocks ?t = ix_blocks s"
    by (simp_all add: roll_back_def)
  ultimately show ?thesis by blast
qed

lemma bad_block_body:
  "(\<lambda>(r, t). (r, length (filter (\<lambda>ev. event_to_json ev = Inr (Encoded ev) \<and> ix_accepts agreeing_env (Encoded ev)) (es_bus (ix_em t)))))
     (process_block agreeing_env bad_block None sample_ix_state) = (Inr (), 1)"
  by code_simp

lemma failed_commit_sends_events_witness:
  "\<exists>x t ev. index_block agreeing_env bad_block sample_ix_state = (Inl x, t) \<and>
     es_db (ix_em t) = es_db (ix_em sample_ix_state) \<and> ix_queue t = [Encoded ev]"
proof -
  obtain s1 where s1: "process_block agreeing_env bad_block None sample_ix_state = (Inr (), s1)"
      "length (filter (\<lambda>ev. event_to_json ev = Inr (Encoded ev) \<and> ix_accepts agreeing_env (Encoded ev))
        (es_bus (ix_em s1))) = 1"
    using bad_block_body by (auto simp: case_prod_beta prod_eq_iff)
  have "\<exists>x t. index_block agreeing_env bad_block sample_ix_state = (Inl x, t) \<and>
      es_db (ix_em t) = es_db (ix_em sample_ix_state) \<and> ix_blocks t = ix_blocks sample_ix_state \<and>
      ix_queue t = ix_queue sample_ix_state @ map Encoded (filter (\<lambda>ev. event_to_json ev = Inr (Encoded ev) \<and>
        ix_accepts agreeing_env (Encoded ev)) (es_bus (ix_em s1)))"
  proof (rule failed_commit_sends_events [OF _ s1(1)])
    show "get_tx_hash_to_skip (ix_error sample_ix_state) = None"
      by (simp add: sample_ix_state_def get_tx_hash_to_skip_def)
    show "ix_commit_error agreeing_env bad_block = Some ''disk full''"
      by (simp add: agreeing_env_def sample_ix_env_def bad_block_def block_at_def)
  qed
  then show ?thesis
    using s1(2) by (auto simp: sample_ix_state_def length_Suc_conv)
qed

section \<open>A block that never gets indexed\<close>

text \<open>The failure of a block outside its commit is recorded without a transaction; saving it as a
  skipped transaction then violates the table's constraint, and so does everything after.\<close>

definition poisoned :: "ix_state \<Rightarrow> bool" where
  "poisoned s \<longleftrightarrow> (\<exists>err. ix_error s = Some err \<and> err_txhash err = None)"

definition skip_rows :: "ix_state \<Rightarrow> nat" where
  "skip_rows s = length (filter (\<lambda>r. sk_level r = Network_level) (ix_skipped s))"

lemma save_skipped_poisons:
  assumes "poisoned s" and "flush_ok s \<Longrightarrow> skip_rows s < MAX_NETWORK_LEVEL_SKIPPED_TX"
  shows "\<exists>t. save_skipped_tx s = (Inr (), t) \<and> \<not> flush_ok t \<and> ix_error t = ix_error s"
proof (cases "flush_ok s")
  case True
  then show ?thesis
    using assms by (auto simp: poisoned_def skip_rows_def save_skipped_tx_def session_flush_def zoom_def
        add_network_level_skipped_transaction_def py_simps flush_ok_def)
next
  case False
  then show ?thesis
    using assms(1) by (auto simp: poisoned_def save_skipped_tx_def session_flush_def py_simps)
qed

lemma parse_txs_poisons:
  assumes "parse_txs E None receipts txs s = (r, t)" and "poisoned s"
    and "flush_ok s \<Longrightarrow> skip_rows s < MAX_NETWORK_LEVEL_SKIPPED_TX"
  shows "poisoned t \<and> (r = Inr rs \<longrightarrow>
    (\<not> flush_ok s \<or> (\<exists>tx \<in> set txs. target_address tx = zero_address)) \<longrightarrow> \<not> flush_ok t)"
  using assms
proof (induction txs arbitrary: s r t rs)
  case Nil
  then show ?case by (simp add: ret_def)
next
  case (Cons tx txs)
  show ?case
  proof (cases "od_get receipts (ct_hash tx)")
    case None
    then show ?thesis using Cons.prems by (auto simp: raise_def)
  next
    case (Some rc)
    show ?thesis
    proof (cases "target_address tx = zero_address")
      case True
      obtain u where u: "save_skipped_tx s = (Inr (), u)" "\<not> flush_ok u" "ix_error u = ix_error s"
        using save_skipped_poisons Cons.prems(2,3) by blast
      then have "parse_txs E None receipts txs u = (r, t)" "poisoned u"
        using Cons.prems(1,2) Some True by (simp_all add: should_skip_tx_def sq_def bnd_def poisoned_def)
      from Cons.IH [OF this] u(2) show ?thesis by blast
    next
      case False
      obtain r' u where u: "parse_txs E None receipts txs s = (r', u)" by force
      have "t = u" and "r = Inr rs \<Longrightarrow> \<exists>rs'. r' = Inr rs'"
        using Cons.prems(1) Some False u
        by (auto simp: should_skip_tx_def bnd_def ret_def split: sum.splits)
      then show ?thesis using Cons.IH [OF u Cons.prems(2,3)] False by (metis set_ConsD)
    qed
  qed
qed

lemma poisoned_block_fails:
  assumes "poisoned s" and "skip_rows s < MAX_NETWORK_LEVEL_SKIPPED_TX"
    and "\<exists>tx \<in> set (cb_txs b). target_address tx = zero_address"
  shows "\<exists>x t. index_block E b s = (Inl x, t) \<and> poisoned t \<and> skip_rows t = skip_rows s"
proof -
  have skip: "get_tx_hash_to_skip (ix_error s) = None"
    using assms(1) by (auto simp: poisoned_def get_tx_hash_to_skip_def)
  have "\<exists>x u. process_block E b None s = (Inl x, u)"
  proof (cases "fetch_tx_receipts E b")
    case (Inl x)
    then show ?thesis by (simp add: process_block_def bnd_lift_res)
  next
    case (Inr receipts)
    obtain r u where parse: "parse_txs E None receipts
        (sort_block_transactions (cb_number b) (ix_sort_start E) (cb_txs b)) s = (r, u)" by force
    have bad: "\<not> flush_ok u" if "r = Inr rs" for rs
      using parse_txs_poisons [OF parse assms(1), of rs] assms(2,3) that by simp
    have add: "\<exists>x. add_indexed_block_to_db b v = (Inl x, v)" if "\<not> flush_ok v" for v
      using that by (simp add: add_indexed_block_to_db_def session_flush_def py_simps)
    show ?thesis
    proof (cases r)
      case (Inl x)
      then show ?thesis using Inr parse by (simp add: process_block_def py_simps)
    next
      case (Inr rs)
      obtain x where "add_indexed_block_to_db b u = (Inl x, u)" using add [OF bad [OF Inr]] by blast
      then show ?thesis
        using \<open>fetch_tx_receipts E b = Inr receipts\<close> parse Inr
        by (cases "fetch_cid_metadata (ix_gateway E) (ix_cnodes E) (es_db (ix_em u) ''User'') rs")
          (auto simp: process_block_def py_simps)
    qed
  qed
  then obtain x u where "process_block E b None s = (Inl x, u)" by blast
  moreover define f where "f = block_failure b ''prefetch-cids'' None (exn_text x)"
  moreover define v where "v = u\<lparr>ix_error := record_failure (ix_ask E) (ix_other_nodes E) f (ix_error u)\<rparr>"
  ultimately have "\<exists>y. index_session E b s = (Inl y, v)"
    using skip by (auto simp: index_session_def on_failure_def create_and_raise_indexing_error_def py_simps)
  then obtain y where "index_block E b s = (Inl y, roll_back s (flush_bus E v))"
    by (auto simp: index_block_def scoped_def py_simps)
  moreover have "poisoned (roll_back s (flush_bus E v))"
  proof -
    have "\<exists>err. record_failure (ix_ask E) (ix_other_nodes E) f (ix_error u) = Some err \<and> err_txhash err = None"
      by (rule record_failure_cases [of "ix_ask E" "ix_other_nodes E" f "ix_error u"])
        (simp_all add: f_def block_failure_def same_error_def)
    then show ?thesis by (simp add: poisoned_def v_def)
  qed
  moreover have "skip_rows (roll_back s (flush_bus E v)) = skip_rows s"
    by (simp add: skip_rows_def roll_back_def)
  ultimately show ?thesis by blast
qed

text \<open>A block with a contract creation never gets indexed once any block before it failed outside
  its commit: however often the run is repeated, and whatever the chain, the content nodes and
  the other nodes answer, indexing it raises, for the failure is recorded without a transaction,
  is not cleared by a later success, and is saved as a skipped transaction without a hash.\<close>

theorem poisoned_block:
  assumes "ix_error s = Some err" and "err_txhash err = None"
    and "skip_rows s < MAX_NETWORK_LEVEL_SKIPPED_TX"
    and "tx \<in> set (cb_txs b)" and "ct_to tx = None"
  shows "\<exists>x. fst (index_block (E n) b (fold (\<lambda>i s. snd (index_block (E i) b s)) [0..<n] s)) = Inl x"
proof -
  have tx: "\<exists>tx \<in> set (cb_txs b). target_address tx = zero_address"
    using assms(4,5) by (intro bexI [of _ tx]) (simp_all add: target_address_def)
  have "poisoned (fold (\<lambda>i s. snd (index_block (E i) b s)) [0..<n] s) \<and>
      skip_rows (fold (\<lambda>i s. snd (index_block (E i) b s)) [0..<n] s) = skip_rows s"
  proof (induction n)
    case 0
    then show ?case using assms(1,2) by (simp add: poisoned_def)
  next
    case (Suc n)
    with assms(3) poisoned_block_fails [OF _ _ tx, of _ "E n"] show ?case by fastforce
  qed
  with assms(3) poisoned_block_fails [OF _ _ tx, of _ "E n"] show ?thesis by fastforce
qed

definition creation_block :: chain_block where
  "creation_block = block_at ''0xcre'' ''0xo2'' 8 [\<lparr>ct_hash = ''0xnew'', ct_to = None, ct_index = 0\<rparr>]"

definition failed_once :: ix_state where
  "failed_once = sample_ix_state\<lparr>ix_error := Some \<lparr>err_count = 1, err_blocknumber = 8, err_blockhash = ''0xcre'',
     err_txhash = None, err_message = ''timeout'', err_has_consensus = False\<rparr>\<rparr>"

lemma poisoned_block_witness:
  "\<exists>x. fst (index_block sample_ix_env creation_block
     (fold (\<lambda>i s. snd (index_block sample_ix_env creation_block s)) [0..<3] failed_once)) = Inl x"
  by (rule poisoned_block [where E = "\<lambda>_. sample_ix_env" and err = "the (ix_error failed_once)"
      and tx = "\<lparr>ct_hash = ''0xnew'', ct_to = None, ct_index = 0\<rparr>"])
    (simp_all add: failed_once_def creation_block_def block_at_def sample_ix_state_def skip_rows_def
      MAX_NETWORK_LEVEL_SKIPPED_TX_def)

text \<open>Without the recorded failure the same block is indexed.\<close>

lemma creation_block_indexed:
  "fst (index_block sample_ix_env creation_block sample_ix_state) = Inr ()"
  by code_simp

section \<open>The target is already in the database\<close>

text \<open>When the block the run sets out for is a row of the block table but not the current one, as
  after the chain's head moved back, the run raises before it reverts or indexes anything: the
  search leaves its loop in the first round, where \<open>reached_initial_block\<close> is not yet bound.\<close>

theorem lagging_target_raises:
  assumes "get_latest_block C F blocks = Inr target" and "has_hash blocks (cb_hash target)"
    and "current_rows blocks = [r]" and "bk_hash r \<noteq> cb_hash target"
  shows "plan_update C F blocks = Some (Inl (Raised ''UnboundLocalError''))"
  using assms by (simp add: plan_update_def find_intersection.simps undo_operations_required_def)

text \<open>The chain went back from block 2 to block 1 while the table is at the orphaned block 2.\<close>

lemma lagging_target_raises_witness:
  "plan_update (sample_sync\<lparr>ch_latest := sample_chain ''0xn1'',
       ch_by_number := (\<lambda>n. if n = 1 then sample_chain ''0xn1'' else None)\<rparr>) 5 sample_rows =
     Some (Inl (Raised ''UnboundLocalError''))"
  by (rule lagging_target_raises [where target = "block_at ''0xn1'' ''0xn0'' 6 []" and r = "last sample_rows"])
    (simp_all add: sample_chain_defs get_latest_block_def current_rows_def require_res_def get_block_def
      shift_number_def has_hash_def)

section \<open>The documents of a block\<close>

definition needs_document :: "em_tx list \<Rightarrow> string \<Rightarrow> bool" where
  "needs_document txs cid \<longleftrightarrow> (\<exists>tx \<in> set txs. \<exists>ev \<in> set (tx_events tx). ev_metadata ev = cid \<and> cid \<noteq> [] \<and>
     ev_entity_type ev \<in> {''Playlist'', ''Track'', ''User''} \<and>
     \<not> (ev_action ev = ''Create'' \<and> ev_entity_type ev = ''User''))"

text \<open>A block is processed with exactly the documents its events refer to: when the fetch succeeds,
  the metadata holds one entry for the CID of every event on a user, track or playlist other than
  the creation of a user, and none for anything else, whatever the content nodes answered.\<close>

theorem metadata_complete:
  assumes "fetch_cid_metadata answers nodes users txs = Inr (md, types)"
  shows "set (od_keys md) = {cid. needs_document txs cid} \<and> distinct (od_keys md)"
proof
  note keys = fetch_cid_metadata_keys [OF assms]
  have "set (od_keys md) = set (od_keys types)"
  proof (cases "types = []")
    case False
    have "card (set (od_keys types)) \<le> length types"
      using card_length [of "od_keys types"] by (simp add: od_keys_def)
    also have "\<dots> = card (set (od_keys md))"
      using keys(2,3) False distinct_card [of "od_keys md"] by (simp add: od_keys_def)
    finally show ?thesis using keys(2) by (intro card_seteq) simp_all
  qed (use keys(2) in \<open>simp add: od_keys_def\<close>)
  then show "set (od_keys md) = {cid. needs_document txs cid}"
    unfolding keys(1) needs_document_def by (simp only: collect_cids_types set_eq_iff mem_Collect_eq simp_thms)
  show "distinct (od_keys md)" using keys(2) by blast
qed

definition sample_update_tx :: em_tx where
  "sample_update_tx = \<lparr>tx_hash = ''0xup'', tx_events = [\<lparr>ev_user_id = 3000001, ev_entity_id = 3000001,
     ev_entity_type = ''User'', ev_action = ''Update'', ev_metadata = ''QmA'', ev_signer = ''0xABC''\<rparr>]\<rparr>"

definition sample_gateway :: gateway where
  "sample_gateway reqs = map (\<lambda>(cid, node). if node = ''http://cn''
     then Some (cid, PDict [(''name'', PStr ''Ada'')]) else None) reqs"

lemma sample_fetch:
  "(case fetch_cid_metadata sample_gateway [''http://dead'', ''http://cn''] [] [sample_update_tx] of
      Inl x \<Rightarrow> None | Inr (md, types) \<Rightarrow> Some (map fst md)) = Some [''QmA'']"
  by code_simp

lemma metadata_complete_witness:
  "\<exists>md types. fetch_cid_metadata sample_gateway [''http://dead'', ''http://cn''] [] [sample_update_tx] = Inr (md, types) \<and>
     set (od_keys md) = {cid. needs_document [sample_update_tx] cid}"
proof -
  obtain md types where
      "fetch_cid_metadata sample_gateway [''http://dead'', ''http://cn''] [] [sample_update_tx] = Inr (md, types)"
    using sample_fetch by (auto split: sum.splits)
  then show ?thesis using metadata_complete by blast
qed

end
