(* ===== verification/Poa_Indexer.thy ===== *)
theory Poa_Indexer
  imports Chain_Sync
begin

text \<open>
  tasks/index.py: the indexer of the old chain (POA), from which index_nethermind.py was derived.
  The functions that are the same in both files are those of Block_Indexer, Reorg and Chain_Sync;
  here is what differs.  The message of missing receipts names this file, created notifications have no document to fetch, subscriptions are
  reverted, the walk ends at the start of the chain and the task when the chain is complete.
\<close>

section \<open>The documents of a block\<close>

definition poa_note_event :: "string \<Rightarrow> em_event \<Rightarrow> cid_refs \<Rightarrow> cid_refs" where
  "poa_note_event txhash ev c =
     (let cid = ev_metadata ev in
      if cid = [] \<or> ev_entity_type ev = ''UserReplicaSet'' then c
      else if ev_action ev = ''Create'' \<and> ev_entity_type ev = ''User'' then c
      else if ev_action ev = ''Create'' \<and> ev_entity_type ev = ''Notification'' then c
      else c\<lparr>cids_txhash_set := List.insert (cid, txhash) (cids_txhash_set c),
             cid_to_user_id := od_set (cid_to_user_id c) cid (ev_user_id ev),
             cid_type := note_cid_type (ev_entity_type ev) cid (cid_type c)\<rparr>)"

definition poa_collect_cids :: "em_tx list \<Rightarrow> cid_refs" where
  "poa_collect_cids txs =
     fold (\<lambda>tx. fold (poa_note_event (tx_hash tx)) (tx_events tx)) txs
       \<lparr>cids_txhash_set = [], cid_to_user_id = [], cid_type = []\<rparr>"

definition poa_fetch_cid_metadata ::
    "gateway \<Rightarrow> string list \<Rightarrow> inst list \<Rightarrow> em_tx list \<Rightarrow>
     ((string, pydict) odict \<times> (string, string) odict) result" where
  "poa_fetch_cid_metadata answers cnode_endpoints users txs =
     (let c = poa_collect_cids txs; replica_sets = user_to_replica_set users c in
      bind_res (fetch_metadata_from_gateway_endpoints answers cnode_endpoints [] c replica_sets True) (\<lambda>d1.
      let first = od_update [] d1 in
      bind_res (if length first \<noteq> length (cids_txhash_set c)
                then bind_res (fetch_metadata_from_gateway_endpoints answers cnode_endpoints first c
                                 replica_sets False) (\<lambda>d2. Inr (od_update first d2))
                else Inr first) (\<lambda>cid_metadata.
      if cid_type c \<noteq> [] \<and> length cid_metadata \<noteq> length (cid_type c)
      then Inl (Raised ''Did not fetch all CIDs'')
      else Inr (cid_metadata, cid_type c))))"

section \<open>Indexing blocks\<close>

definition poa_fetch_tx_receipts :: "ix_env \<Rightarrow> chain_block \<Rightarrow> (string, em_tx) odict result" where
  "poa_fetch_tx_receipts E b = fetch_receipts ''index.py'' E b"

definition poa_process_block :: "ix_env \<Rightarrow> chain_block \<Rightarrow> string option \<Rightarrow> unit ix" where
  "poa_process_block E b skip_tx_hash =
     bnd (lift_res (poa_fetch_tx_receipts E b)) (\<lambda>receipts.
     bnd (parse_txs E skip_tx_hash receipts
            (sort_block_transactions (cb_number b) (ix_sort_start E) (cb_txs b))) (\<lambda>txs.
     bnd (gets (\<lambda>s. poa_fetch_cid_metadata (ix_gateway E) (ix_cnodes E) (es_db (ix_em s) ''User'') txs)) (\<lambda>r.
     bnd (lift_res r) (\<lambda>(cid_metadata, types).
     sq (add_indexed_block_to_db b) (
     sq (process_state_changes E cid_metadata txs b) (
     save_cids E cid_metadata types))))))"

definition poa_index_session :: "ix_env \<Rightarrow> chain_block \<Rightarrow> unit ix" where
  "poa_index_session E b =
     bnd (gets (\<lambda>s. get_tx_hash_to_skip (ix_error s))) (\<lambda>skip_tx_hash.
     sq (if skip_tx_hash = Some ''commit''
         then sq save_skipped_tx (add_indexed_block_to_db b)
         else on_failure E (block_failure b ''prefetch-cids'' None) (poa_process_block E b skip_tx_hash)) (
     sq (on_failure E (block_failure b ''session.commit'' (Some ''commit'')) (session_commit E b)) (
     sq (check_trending E b) (
     run_when (skip_tx_hash \<noteq> None \<and> skip_tx_hash \<noteq> Some [])
       (modify (\<lambda>s. s\<lparr>ix_error := clear_indexing_error (ix_error s)\<rparr>))))))"

definition poa_index_block :: "ix_env \<Rightarrow> chain_block \<Rightarrow> unit ix" where
  "poa_index_block E b =
     sq (scoped E (poa_index_session E b))
       (modify (\<lambda>s. s\<lparr>ix_last := Some (cb_number b, cb_hash b)\<rparr>))"

definition poa_index_blocks :: "ix_env \<Rightarrow> chain_block list \<Rightarrow> unit ix" where
  "poa_index_blocks E blocks_list = for_each (rev blocks_list) (poa_index_block E)"

section \<open>Reverting blocks\<close>

definition revert_subscriptions :: "(nat list \<Rightarrow> nat) \<Rightarrow> string \<Rightarrow> sql_int \<Rightarrow> inst list \<Rightarrow> inst list" where
  "revert_subscriptions pick h N rows =
     revert_entries pick row_blocknumber (in_block h)
       (\<lambda>r q. same_columns [''subscriber_id'', ''user_id''] r q \<and> sql_before (row_blocknumber q) N) set_current rows"

definition poa_revert_tables :: "(nat list \<Rightarrow> nat) \<Rightarrow> string \<Rightarrow> sql_int \<Rightarrow> (string \<Rightarrow> inst list) \<Rightarrow> string \<Rightarrow> inst list" where
  "poa_revert_tables pick h N db =
     (\<lambda>c. if c \<in> {''Save'', ''Repost'', ''Follow'', ''Playlist'', ''Track'', ''UrsmContentNode'', ''User''}
          then revert_table pick h N c (db c)
          else if c = ''Subscription'' then revert_subscriptions pick h N (db c) else db c)"

definition poa_revert_em :: "(nat list \<Rightarrow> nat) \<Rightarrow> string \<Rightarrow> sql_int \<Rightarrow> em_state \<Rightarrow> em_state" where
  "poa_revert_em pick h N s =
     s\<lparr>es_db := poa_revert_tables pick h N (es_db s),
       es_wallets := revert_wallets pick h N (es_wallets s),
       es_user_events := revert_user_events pick h N (es_user_events s),
       es_track_routes := (es_track_routes s)
         \<lparr>rt_table := revert_track_routes pick h N (rt_table (es_track_routes s))\<rparr>\<rparr>"

definition poa_revert_block :: "(nat list \<Rightarrow> nat) \<Rightarrow> block_row \<Rightarrow> ix_state \<Rightarrow> ix_state" where
  "poa_revert_block pick rb s =
     s\<lparr>ix_em := poa_revert_em pick (bk_hash rb) (block_sql_number rb) (ix_em s),
       ix_blocks := revert_block_rows rb (ix_blocks s)\<rparr>"

definition poa_revert_blocks :: "(nat list \<Rightarrow> nat) \<Rightarrow> block_row list \<Rightarrow> unit ix" where
  "poa_revert_blocks pick revert_blocks_list =
     (if revert_blocks_list = [] then ret ()
      else if length revert_blocks_list > 100 then raise (Raised ''Unexpected revert, >100 blocks'')
      else
        let bs = (if length revert_blocks_list > 50 then take 50 revert_blocks_list else revert_blocks_list)
        in modify (fold (poa_revert_block pick) bs))"

section \<open>The task\<close>

definition poa_get_latest_block :: "chain_env \<Rightarrow> block_row list \<Rightarrow> chain_block result" where
  "poa_get_latest_block C blocks =
     bind_res (require_res (length (current_rows blocks) = 1)
       (Raised ''Expected SINGLE row marked as current'')) (\<lambda>_.
     let current_block_number = (case bk_number (hd (current_rows blocks)) of None \<Rightarrow> 0 | Some n \<Rightarrow> n);
         target_latest_block_number = current_block_number + ch_window C
     in bind_res (get_block () (\<lambda>_. ch_latest C)) (\<lambda>latest_block_from_chain.
        get_block (min target_latest_block_number (cb_number latest_block_from_chain)) (ch_by_number C)))"

partial_function (option) poa_find_intersection ::
    "(string \<Rightarrow> chain_block option) \<Rightarrow> block_row list \<Rightarrow> chain_block \<Rightarrow> chain_block list \<Rightarrow>
     (chain_block list \<times> string) result option" where
  "poa_find_intersection by_hash blocks latest_block index_blocks_list =
     (if has_hash blocks (cb_hash latest_block)
      then Some (Inr (index_blocks_list, cb_hash latest_block))
      else
        let blocks_list = index_blocks_list @ [latest_block];
            block_intersection_found = has_hash blocks (cb_parent latest_block);
            reached_initial_block = (cb_parent latest_block = default_padded_start_hash)
        in if reached_initial_block then Some (Inr (blocks_list, default_config_start_hash))
           else case by_hash (cb_parent latest_block) of
               None \<Rightarrow> Some (Inl block_not_found)
             | Some b \<Rightarrow>
                 if block_intersection_found then Some (Inr (blocks_list, cb_hash b))
                 else poa_find_intersection by_hash blocks b blocks_list)"

declare poa_find_intersection.simps [code]

definition poa_plan_update :: "chain_env \<Rightarrow> block_row list \<Rightarrow> (block_row list \<times> chain_block list) result option" where
  "poa_plan_update C blocks =
     (case poa_get_latest_block C blocks of
        Inl x \<Rightarrow> Some (Inl x)
      | Inr latest_block \<Rightarrow>
          Option.bind (poa_find_intersection (ch_by_hash C) blocks latest_block []) (\<lambda>r.
          case r of
            Inl x \<Rightarrow> Some (Inl x)
          | Inr (index_blocks_list, intersect_block_hash) \<Rightarrow>
              if length (current_rows blocks) \<noteq> 1
              then Some (Inl (Raised ''Expected SINGLE row marked as current''))
              else map_option (\<lambda>reverts. Inr (reverts, index_blocks_list))
                (collect_revert_blocks blocks (Some intersect_block_hash) (hd (current_rows blocks)) [])))"

text \<open>The old chain is complete when the current row has reached its last block.\<close>

definition poa_complete :: "int option \<Rightarrow> block_row list \<Rightarrow> bool result" where
  "poa_complete final_poa blocks =
     (case final_poa of
        None \<Rightarrow> Inr False
      | Some n \<Rightarrow>
          if n = 0 then Inr False
          else case current_rows blocks of
              [] \<Rightarrow> Inr False
            | r # _ \<Rightarrow> (case bk_number r of None \<Rightarrow> Inl TypeError | Some m \<Rightarrow> Inr (n \<le> m)))"

definition poa_update_task :: "chain_env \<Rightarrow> ix_state \<Rightarrow> (unit result \<times> ix_state) option" where
  "poa_update_task C s =
     (case bnd (get_final_poa_block (ch_is_stage C) (ch_identity C)) (\<lambda>final_poa.
             bnd (gets (\<lambda>s. poa_complete final_poa (ix_blocks s))) (\<lambda>w.
             bnd (lift_res w) (\<lambda>done_indexing.
             if done_indexing then ret False
             else sq (update_latest_block_redis (ch_latest C)) (ret True)))) s of
        (Inl x, t) \<Rightarrow> Some (Inl x, t)
      | (Inr go, t) \<Rightarrow>
          if \<not> go \<or> \<not> ch_have_lock C then Some (Inr (), t)
          else map_option (\<lambda>plan. bnd (lift_res plan) (\<lambda>(revert_blocks_list, index_blocks_list).
                   sq (poa_revert_blocks (ch_pick C) revert_blocks_list)
                      (poa_index_blocks (ch_ix C) index_blocks_list)) t)
                 (poa_plan_update C (ix_blocks t)))"

end
