(* ===== verification/Poa_Properties.thy ===== *)
theory Poa_Properties
  imports Poa_Indexer Indexer_Properties
begin

text \<open>
  The indexer of the old chain beside its successor: at every time one of them runs, and the walks
  of the old one end.
\<close>

section \<open>Which indexer runs\<close>

lemma final_poa_frame:
  assumes "get_final_poa_block stage answer s = (Inr final, u)"
  shows "\<exists>poa. u = s\<lparr>ix_poa := poa\<rparr>"
proof -
  have "u = s\<lparr>ix_poa := ix_poa s\<rparr> \<or> (\<exists>n. u = s\<lparr>ix_poa := Some n\<rparr>)"
    using assms
    by (auto simp: get_final_poa_block_def bnd_Inr run_Inr sq_Inr modify_def raise_def
        split: if_splits option.splits identity_answer.splits)
  then show ?thesis by blast
qed

text \<open>C8: Once the number of the last block of the old chain is known, one of the two indexers stops at
  its first check and changes no table: the new one while the current row is below that number,
  the old one from then on.\<close>

theorem one_indexer_runs:
  assumes "get_final_poa_block (ch_is_stage C) (ch_identity C) s = (Inr (Some F), u)" and "F \<noteq> 0"
    and "ch_is_stage P = ch_is_stage C" and "ch_identity P = ch_identity C"
    and "current_rows (ix_blocks s) = r # rs" and "bk_number r = Some n"
  shows "(if n < F then update_task C s else poa_update_task P s) = Some (Inr (), u) \<and>
    (\<exists>poa. u = s\<lparr>ix_poa := poa\<rparr>)"
proof -
  obtain poa where u: "u = s\<lparr>ix_poa := poa\<rparr>" using final_poa_frame [OF assms(1)] by blast
  then have rows: "current_rows (ix_blocks u) = r # rs" using assms(5) by simp
  have "must_wait (Some F) (ix_blocks u) = Inr (n < F)" "poa_complete (Some F) (ix_blocks u) = Inr (F \<le> n)"
    using rows assms(2,6) by (simp_all add: must_wait_def poa_complete_def)
  then show ?thesis
    using assms(1,3,4) u by (auto simp: update_task_def poa_update_task_def bnd_def gets_def lift_res_def ret_def)
qed

lemma one_indexer_runs_witness:
  "update_task sample_sync (sample_ix_state\<lparr>ix_poa := Some 9\<rparr>) = Some (Inr (), sample_ix_state\<lparr>ix_poa := Some 9\<rparr>) \<and>
   poa_update_task sample_sync (sample_ix_state\<lparr>ix_poa := Some 5\<rparr>) = Some (Inr (), sample_ix_state\<lparr>ix_poa := Some 5\<rparr>)"
proof -
  let ?s = "\<lambda>F. sample_ix_state\<lparr>ix_poa := Some F\<rparr>"
  obtain r where r: "current_rows (ix_blocks (?s F)) = [r]" "bk_number r = Some 7" for F :: int
    by (simp add: sample_ix_state_def sample_rows_def current_rows_def row_at_def)
  have "get_final_poa_block (ch_is_stage sample_sync) (ch_identity sample_sync) (?s F) = (Inr (Some F), ?s F)" for F
    by (simp add: get_final_poa_block_def sample_sync_def py_simps)
  from one_indexer_runs [OF this _ refl refl r(1) r(2), of 9] one_indexer_runs [OF this _ refl refl r(1) r(2), of 5]
  show ?thesis by simp
qed

section \<open>The walks end\<close>

text \<open>The rows of a table whose parents are below them; the row without a number is the lowest.\<close>

definition height :: "block_row \<Rightarrow> int" where
  "height r = (case bk_number r of None \<Rightarrow> -1 | Some n \<Rightarrow> n)"

definition parents_below :: "block_row list \<Rightarrow> bool" where
  "parents_below bs \<longleftrightarrow> list_all (\<lambda>q. list_all (\<lambda>r. bk_parent q = Some (bk_hash r) \<longrightarrow> height r < height q) bs) bs"

lemma collect_revert_ends:
  assumes "parents_below blocks" and "q \<in> set blocks"
  shows "\<exists>reverts. collect_revert_blocks blocks intersect q acc = Some reverts"
  using assms(2)
proof (induction "length (filter (\<lambda>x. height x < height q) blocks)" arbitrary: q acc rule: less_induct)
  case less
  note unfold = collect_revert_blocks.simps [of blocks intersect q acc]
  show ?case
  proof (cases "find (\<lambda>r. Some (bk_hash r) = bk_parent q) blocks")
    case None
    then show ?thesis by (simp add: unfold)
  next
    case (Some r)
    then have r: "r \<in> set blocks" "bk_parent q = Some (bk_hash r)" by (auto simp: find_Some_iff)
    then have below: "height r < height q" using assms(1) less.prems by (auto simp: parents_below_def list_all_iff)
    let ?low = "\<lambda>q. filter (\<lambda>x. height x < height q) blocks"
    have "?low r = filter (\<lambda>x. height x < height r) (?low q)"
      unfolding filter_filter using below by (intro filter_cong) auto
    moreover have "r \<in> set (?low q)" using r(1) below by simp
    then have "length (filter (\<lambda>x. height x < height r) (?low q)) < length (?low q)"
      by (rule length_filter_less) simp
    ultimately have "length (?low r) < length (?low q)" by simp
    from less.hyps [OF this r(1)] show ?thesis using Some by (simp add: unfold)
  qed
qed

lemma poa_intersection_ends:
  assumes "honest_chain by_hash" and "by_hash (cb_hash b) = Some b"
  shows "\<exists>r. poa_find_intersection by_hash blocks b acc = Some r"
  using assms(2)
proof (induction "nat (cb_number b)" arbitrary: b acc rule: less_induct)
  case less
  note unfold = poa_find_intersection.simps [of by_hash blocks b acc]
  show ?case
  proof (cases "by_hash (cb_parent b)")
    case None
    then show ?thesis by (simp add: unfold Let_def)
  next
    case (Some p)
    then have "cb_number p + 1 = cb_number b" "cb_hash p = cb_parent b" "0 \<le> cb_number p"
      using assms(1) less.prems unfolding honest_chain_def by blast+
    then have "\<exists>r. poa_find_intersection by_hash blocks p (acc @ [b]) = Some r"
      using Some by (intro less.hyps) auto
    then show ?thesis using Some by (simp add: unfold Let_def)
  qed
qed

lemma poa_plan_ends:
  assumes "honest_chain (ch_by_hash C)" and "numbers_agree C" and "parents_below blocks"
  shows "\<exists>plan. poa_plan_update C blocks = Some plan"
proof (cases "poa_get_latest_block C blocks")
  case (Inr b)
  then obtain n where "ch_by_number C n = Some b"
    by (auto simp: poa_get_latest_block_def bind_res_Inr Let_def get_block_def split: option.splits)
  then have "ch_by_hash C (cb_hash b) = Some b" using assms(2) by (simp add: numbers_agree_def)
  then obtain r where r: "poa_find_intersection (ch_by_hash C) blocks b [] = Some r"
    using poa_intersection_ends [OF assms(1)] by blast
  show ?thesis
  proof (cases "length (current_rows blocks) = 1")
    case True
    then have "hd (current_rows blocks) \<in> set (current_rows blocks)" by (intro hd_in_set) auto
    then have "hd (current_rows blocks) \<in> set blocks" by (simp add: current_rows_def)
    from collect_revert_ends [OF assms(3) this] show ?thesis
      using Inr r by (auto simp: poa_plan_update_def split: sum.split)
  next
    case False
    then show ?thesis using Inr r by (auto simp: poa_plan_update_def split: sum.split)
  qed
qed (simp add: poa_plan_update_def)

text \<open>C9: Every run of the indexer of the old chain returns, if a child's number is its parent's plus one
  on the chain and larger in the table.\<close>

theorem poa_update_returns:
  assumes "honest_chain (ch_by_hash C)" and "numbers_agree C" and "parents_below (ix_blocks s)"
  shows "\<exists>r t. poa_update_task C s = Some (r, t)"
proof -
  let ?m = "bnd (get_final_poa_block (ch_is_stage C) (ch_identity C)) (\<lambda>final_poa.
             bnd (gets (\<lambda>s. poa_complete final_poa (ix_blocks s))) (\<lambda>w.
             bnd (lift_res w) (\<lambda>done_indexing.
             if done_indexing then ret False
             else sq (update_latest_block_redis (ch_latest C)) (ret True))))"
  have k1: "keeps (blocks_are B) (get_final_poa_block c i)" for B c i
    unfolding get_final_poa_block_def
    by (intro keeps_rules) (auto split: option.split identity_answer.split intro!: keeps_rules keeps_modify
        simp: blocks_are_def)
  have "keeps (blocks_are B) ?m" for B
    unfolding update_latest_block_redis_def
    by (intro keeps_rules k1 keeps_modify) (simp_all add: blocks_are_def)
  then have blocks: "ix_blocks t = ix_blocks s" if "?m s = (r, t)" for r t
    using that by (rule kept_blocks)
  obtain r t where m: "?m s = (r, t)" by force
  obtain plan where "poa_plan_update C (ix_blocks t) = Some plan"
    using poa_plan_ends assms blocks [OF m] by metis
  then show ?thesis using m by (cases r) (auto simp: poa_update_task_def)
qed

section \<open>Samples\<close>

lemma poa_update_returns_witness: "\<exists>r t. poa_update_task sample_sync sample_ix_state = Some (r, t)"
proof (rule poa_update_returns)
  show "honest_chain (ch_by_hash sample_sync)" using sample_honest by (simp add: sample_sync_def)
  show "parents_below (ix_blocks sample_ix_state)"
    by (simp add: parents_below_def height_def sample_ix_state_def sample_rows_def row_at_def)
qed (rule sample_numbers)

text \<open>The old chain from its start: the first block was orphaned, and its parent is the start row.\<close>

definition old_chain :: "string \<Rightarrow> chain_block option" where
  "old_chain h = map_of [(''0xa'', block_at ''0xa'' default_padded_start_hash 0 []), (''0xb'', block_at ''0xb'' ''0xa'' 1 [])] h"

definition old_sync :: chain_env where
  "old_sync = sample_sync\<lparr>ch_by_hash := old_chain, ch_by_number := (\<lambda>n. if n = 1 then old_chain ''0xb'' else None),
     ch_latest := old_chain ''0xb''\<rparr>"

definition old_rows :: "block_row list" where
  "old_rows = [\<lparr>bk_hash = ''0x0'', bk_parent = None, bk_number = None, bk_current = False\<rparr>,
     row_at ''0xorphan'' default_padded_start_hash 0 True]"

lemma poa_sample_run:
  "map_option (\<lambda>(r, t). (r, map bk_hash (ix_blocks t), map bk_current (ix_blocks t), ix_last t))
     (poa_update_task old_sync (sample_ix_state\<lparr>ix_blocks := old_rows\<rparr>)) =
   Some (Inr (), [''0x0'', ''0xa'', ''0xb''], [False, False, True], Some (1, ''0xb''))"
  by code_simp

text \<open>A subscription of the orphaned block is removed with it, and the one before is current again.\<close>

definition subscription_at :: "string \<Rightarrow> int \<Rightarrow> bool \<Rightarrow> inst" where
  "subscription_at h n current = row_of ''Subscription'' [(''subscriber_id'', PInt 1), (''user_id'', PInt 2),
     (''blockhash'', PStr h), (''blocknumber'', PInt n), (''is_current'', PBool current)]"

lemma subscription_reverted:
  "map (\<lambda>r. (attr r ''blockhash'', attr r ''is_current''))
     (revert_subscriptions hd ''0xorphan'' (SqlInt 2) [subscription_at ''0xa'' 1 False, subscription_at ''0xorphan'' 2 True]) =
   [(PStr ''0xa'', PBool True)]"
  by code_simp

end
