(* ===== verification/Sol_Transactions.thy ===== *)
theory Sol_Transactions
  imports Models "HOL-Library.Word"
begin

text \<open>
  What the indexers read of a Solana transaction: its message and metadata
  (solana/solana_transaction_types.py), the helpers that look into them (utils/helpers.py) and
  the decoding of instruction data (solana/solana_parser.py).  Base58 is the library's; the
  bytes it gives are words of eight bits.
\<close>

section \<open>Transactions\<close>

record sol_instruction =
  in_accounts :: "int list"
  in_data :: string
  in_program_index :: int

record token_balance =
  tb_account_index :: int
  tb_owner :: string
  tb_amount :: int

record sol_meta =
  mt_err :: bool
  mt_logs :: "string list"
  mt_pre :: "token_balance list"
  mt_post :: "token_balance list"

record sol_message =
  ms_account_keys :: "string list"
  ms_instructions :: "sol_instruction list"

record sol_tx =
  st_slot :: int
  st_block_time :: int
  st_meta :: sol_meta
  st_message :: sol_message

record sig_info =
  si_signature :: string
  si_slot :: int
  si_block_time :: int

text \<open>\<open>xs[i]\<close> of Python: an index below zero counts from the end, one out of range raises.\<close>

definition py_index :: "'a list \<Rightarrow> int \<Rightarrow> 'a result" where
  "py_index xs i =
     (let n = int (length xs); k = (if i < 0 then i + n else i)
      in if 0 \<le> k \<and> k < n then Inr (xs ! nat k) else Inl IndexError)"

text \<open>\<open>xs.index(x)\<close>.\<close>

fun list_index :: "'a \<Rightarrow> 'a list \<Rightarrow> int result" where
  "list_index x [] = Inl ValueError"
| "list_index x (y # ys) = (if x = y then Inr 0 else bind_res (list_index x ys) (\<lambda>i. Inr (i + 1)))"

section \<open>Helpers\<close>

definition has_log :: "sol_meta \<Rightarrow> string \<Rightarrow> bool" where
  "has_log meta instruction \<longleftrightarrow> list_ex (\<lambda>log. log = instruction) (mt_logs meta)"

definition get_account_index :: "sol_instruction \<Rightarrow> int \<Rightarrow> int result" where
  "get_account_index instruction i = py_index (in_accounts instruction) i"

definition get_valid_instruction :: "sol_message \<Rightarrow> string \<Rightarrow> sol_instruction option result" where
  "get_valid_instruction tx_message program_address =
     bind_res (list_index program_address (ms_account_keys tx_message)) (\<lambda>program_index.
       Inr (find (\<lambda>instruction. in_program_index instruction = program_index) (ms_instructions tx_message)))"

definition balance_at :: "token_balance list \<Rightarrow> int \<Rightarrow> token_balance option" where
  "balance_at bs idx = find (\<lambda>b. tb_account_index b = idx) bs"

definition get_solana_tx_token_balances :: "sol_meta \<Rightarrow> int \<Rightarrow> int \<times> int" where
  "get_solana_tx_token_balances meta idx =
     (case (balance_at (mt_pre meta) idx, balance_at (mt_post meta) idx) of
        (Some pre_balance, Some post_balance) \<Rightarrow> (tb_amount pre_balance, tb_amount post_balance)
      | _ \<Rightarrow> (-1, -1))"

definition get_solana_tx_owner :: "sol_meta \<Rightarrow> int \<Rightarrow> string" where
  "get_solana_tx_owner meta idx =
     (case balance_at (mt_pre meta) idx of None \<Rightarrow> [] | Some b \<Rightarrow> tb_owner b)"

section \<open>Instruction data\<close>

datatype instruction_type = u64 | String_type | EthereumAddress | UnixTimestamp

type_synonym instruction_format = "(string \<times> instruction_type) list"

datatype param = Num nat | Text string

definition solanaInstructionSpace :: "instruction_type \<Rightarrow> nat" where
  "solanaInstructionSpace ty = (case ty of u64 \<Rightarrow> 8 | String_type \<Rightarrow> 4 | EthereumAddress \<Rightarrow> 20 | UnixTimestamp \<Rightarrow> 8)"

text \<open>\<open>int.from_bytes\<close>, little and big endian; a slice may be shorter than asked for.\<close>

primrec from_bytes_little :: "8 word list \<Rightarrow> nat" where
  "from_bytes_little [] = 0"
| "from_bytes_little (b # bs) = unat b + 256 * from_bytes_little bs"

definition from_bytes_big :: "8 word list \<Rightarrow> nat" where
  "from_bytes_big bs = from_bytes_little (rev bs)"

text \<open>\<open>xs[a:b]\<close> for bounds that are not negative.\<close>

definition slice :: "'a list \<Rightarrow> nat \<Rightarrow> nat \<Rightarrow> 'a list" where
  "slice xs a b = take (b - a) (drop a xs)"

definition hex_char :: "nat \<Rightarrow> char" where
  "hex_char d = ''0123456789abcdef'' ! d"

fun show_hex :: "nat \<Rightarrow> string" where
  "show_hex n = (if n < 16 then [hex_char n] else show_hex (n div 16) @ [hex_char (n mod 16)])"

declare show_hex.simps [simp del]

text \<open>\<open>f"0x{n:040x}"\<close>\<close>

definition eth_address :: "nat \<Rightarrow> string" where
  "eth_address n = (let h = show_hex n in ''0x'' @ replicate (40 - length h) (CHR ''0'') @ h)"

text \<open>UTF-8 as far as Latin-1 reaches: a byte below 128, or two bytes that start with C2 or C3.\<close>

fun utf8 :: "8 word list \<Rightarrow> string result" where
  "utf8 [] = Inr []"
| "utf8 (b # bs) =
     (if unat b < 128 then bind_res (utf8 bs) (\<lambda>s. Inr (char_of (unat b) # s))
      else case bs of
          [] \<Rightarrow> Inl ValueError
        | c # cs \<Rightarrow>
            if (unat b = 194 \<or> unat b = 195) \<and> 128 \<le> unat c \<and> unat c < 192
            then bind_res (utf8 cs) (\<lambda>s. Inr (char_of ((unat b - 192) * 64 + (unat c - 128)) # s))
            else Inl ValueError)"

definition read_param :: "8 word list \<Rightarrow> nat \<Rightarrow> instruction_type \<Rightarrow> (param \<times> nat) result" where
  "read_param decoded last_end ty =
     (let type_len = solanaInstructionSpace ty;
          raw = slice decoded last_end (last_end + type_len)
      in case ty of
           String_type \<Rightarrow>
             (let instr_len = from_bytes_little raw;
                  start = last_end + type_len; stop = last_end + type_len + instr_len
              in bind_res (utf8 (slice decoded start stop)) (\<lambda>s. Inr (Text s, stop)))
         | EthereumAddress \<Rightarrow> Inr (Text (eth_address (from_bytes_big raw)), last_end + type_len)
         | _ \<Rightarrow> Inr (Num (from_bytes_little raw), last_end + type_len))"

fun parse_params ::
    "8 word list \<Rightarrow> instruction_format \<Rightarrow> nat \<Rightarrow> (string, param) odict \<Rightarrow> (string, param) odict result" where
  "parse_params decoded [] last_end acc = Inr acc"
| "parse_params decoded ((name, ty) # fmt) last_end acc =
     bind_res (read_param decoded last_end ty) (\<lambda>(v, e). parse_params decoded fmt e (od_set acc name v))"

definition parse_instruction_data ::
    "(string \<Rightarrow> 8 word list result) \<Rightarrow> string \<Rightarrow> instruction_format \<Rightarrow> (string, param) odict result" where
  "parse_instruction_data b58decode data fmt =
     bind_res (b58decode data) (\<lambda>bytes. parse_params (drop 1 bytes) fmt 0 [])"

section \<open>A reference encoder\<close>

text \<open>
  The layout a program on the chain writes: fixed-width little endian numbers, strings with a
  length of four bytes, and addresses as 20 bytes, which the parser shows in hexadecimal.
\<close>

primrec to_bytes_little :: "nat \<Rightarrow> nat \<Rightarrow> 8 word list" where
  "to_bytes_little 0 n = []"
| "to_bytes_little (Suc k) n = word_of_nat (n mod 256) # to_bytes_little k (n div 256)"

definition utf8_char :: "char \<Rightarrow> 8 word list" where
  "utf8_char c = (let n = code_point c in
     if n < 128 then [word_of_nat n] else [word_of_nat (192 + n div 64), word_of_nat (128 + n mod 64)])"

definition utf8_encode :: "string \<Rightarrow> 8 word list" where
  "utf8_encode s = concat (map utf8_char s)"

definition fits :: "instruction_type \<Rightarrow> param \<Rightarrow> bool" where
  "fits ty v \<longleftrightarrow> (case (ty, v) of
       (String_type, Text s) \<Rightarrow> length (utf8_encode s) < 2 ^ 32
     | (EthereumAddress, Num n) \<Rightarrow> n < 2 ^ 160
     | (u64, Num n) \<Rightarrow> n < 2 ^ 64
     | (UnixTimestamp, Num n) \<Rightarrow> n < 2 ^ 64
     | _ \<Rightarrow> False)"

definition encode_param :: "instruction_type \<Rightarrow> param \<Rightarrow> 8 word list" where
  "encode_param ty v = (case v of
       Text s \<Rightarrow> to_bytes_little 4 (length (utf8_encode s)) @ utf8_encode s
     | Num n \<Rightarrow> if ty = EthereumAddress then rev (to_bytes_little 20 n) else to_bytes_little 8 n)"

definition shown_param :: "instruction_type \<Rightarrow> param \<Rightarrow> param" where
  "shown_param ty v = (case v of
       Num n \<Rightarrow> if ty = EthereumAddress then Text (eth_address n) else v
     | Text s \<Rightarrow> v)"

definition encode_params :: "(instruction_type \<times> param) list \<Rightarrow> 8 word list" where
  "encode_params vs = concat (map (\<lambda>(ty, v). encode_param ty v) vs)"

section \<open>Facts\<close>

lemma length_to_bytes_little [simp]: "length (to_bytes_little k n) = k"
  by (induction k arbitrary: n) simp_all

lemma from_to_bytes_little: "n < 256 ^ k \<Longrightarrow> from_bytes_little (to_bytes_little k n) = n"
proof (induction k arbitrary: n)
  case (Suc k)
  have "unat (word_of_nat (n mod 256) :: 8 word) = n mod 256"
    by (simp add: unat_of_nat)
  moreover have "n div 256 < 256 ^ k" using Suc.prems by (simp add: div_less_iff_less_mult mult.commute)
  ultimately show ?case using Suc.IH [of "n div 256"] by simp
qed simp

lemma utf8_char_run: "utf8 (utf8_char c @ bs) = bind_res (utf8 bs) (\<lambda>s. Inr (c # s))"
proof -
  have n: "code_point c < 256" by (simp add: code_point_def)
  show ?thesis
  proof (cases "code_point c < 128")
    case True
    then show ?thesis by (simp add: utf8_char_def unat_of_nat code_point_def)
  next
    case False
    have "code_point c div 64 = 2 \<or> code_point c div 64 = 3" using n False by auto
    moreover have "code_point c div 64 * 64 + code_point c mod 64 = code_point c" by simp
    moreover have "unat (word_of_nat (192 + code_point c div 64) :: 8 word) = 192 + code_point c div 64"
      unfolding unat_of_nat using n by simp
    moreover have "unat (word_of_nat (128 + code_point c mod 64) :: 8 word) = 128 + code_point c mod 64"
      unfolding unat_of_nat by simp
    moreover have "char_of (code_point c) = c" by (simp add: code_point_def)
    ultimately show ?thesis using False by (auto simp: utf8_char_def Let_def)
  qed
qed

lemma utf8_roundtrip: "utf8 (utf8_encode s) = Inr s"
  by (induction s) (simp_all add: utf8_encode_def utf8_char_run bind_res_def)

lemma slice_middle: "slice (xs @ ys @ zs) (length xs) (length xs + length ys) = ys"
  by (simp add: slice_def)

lemma read_encoded_param:
  assumes "fits ty v"
  shows "read_param (pre @ encode_param ty v @ post) (length pre) ty =
    Inr (shown_param ty v, length pre + length (encode_param ty v))"
proof (cases v)
  case (Num n)
  show ?thesis
  proof (cases "ty = EthereumAddress")
    case True
    then have "slice (pre @ rev (to_bytes_little 20 n) @ post) (length pre) (length pre + 20) = rev (to_bytes_little 20 n)"
      using slice_middle [of pre "rev (to_bytes_little 20 n)" post] by simp
    moreover have "n < 256 ^ 20" using assms Num True by (simp add: fits_def)
    ultimately show ?thesis using Num True
      by (simp add: read_param_def solanaInstructionSpace_def encode_param_def shown_param_def
          from_bytes_big_def from_to_bytes_little)
  next
    case False
    then have ty: "ty = u64 \<or> ty = UnixTimestamp" "n < 256 ^ 8"
      using assms Num by (auto simp: fits_def split: instruction_type.splits)
    have "slice (pre @ to_bytes_little 8 n @ post) (length pre) (length pre + 8) = to_bytes_little 8 n"
      using slice_middle [of pre "to_bytes_little 8 n" post] by simp
    then show ?thesis using Num ty
      by (auto simp: read_param_def solanaInstructionSpace_def encode_param_def shown_param_def
          from_to_bytes_little)
  qed
next
  case (Text s)
  then have ty: "ty = String_type" "length (utf8_encode s) < 256 ^ 4"
    using assms by (auto simp: fits_def split: instruction_type.splits)
  let ?len = "to_bytes_little 4 (length (utf8_encode s))"
  have "slice (pre @ ?len @ utf8_encode s @ post) (length pre) (length pre + 4) = ?len"
    using slice_middle [of pre ?len "utf8_encode s @ post"] by simp
  moreover have "slice (pre @ ?len @ utf8_encode s @ post) (length pre + 4)
      (length pre + 4 + length (utf8_encode s)) = utf8_encode s"
    using slice_middle [of "pre @ ?len" "utf8_encode s" post] by simp
  ultimately show ?thesis using Text ty
    by (simp add: read_param_def solanaInstructionSpace_def encode_param_def shown_param_def
        from_to_bytes_little utf8_roundtrip Let_def add.assoc)
qed

lemma od_set_new: "k \<notin> set (od_keys d) \<Longrightarrow> od_set d k v = d @ [(k, v)]"
  by (induction d) (auto simp: od_keys_def)

lemma parse_encoded_params:
  assumes "distinct (od_keys acc @ map fst fmt)" and "map snd fmt = map fst vs" and "\<forall>(ty, v) \<in> set vs. fits ty v"
  shows "parse_params (pre @ encode_params vs) fmt (length pre) acc =
    Inr (acc @ zip (map fst fmt) (map (\<lambda>(ty, v). shown_param ty v) vs))"
  using assms
proof (induction vs arbitrary: pre fmt acc)
  case Nil
  then show ?case by simp
next
  case (Cons tv vs)
  obtain ty v where tv: "tv = (ty, v)" by force
  obtain name fmt' where fmt: "fmt = (name, ty) # fmt'" using Cons.prems(2) tv by (cases fmt) auto
  have acc: "od_set acc name (shown_param ty v) = acc @ [(name, shown_param ty v)]"
    using Cons.prems(1) fmt by (intro od_set_new) auto
  have "read_param (pre @ encode_param ty v @ encode_params vs) (length pre) ty =
      Inr (shown_param ty v, length (pre @ encode_param ty v))"
    using read_encoded_param [of ty v] Cons.prems(3) tv by simp
  moreover have "parse_params ((pre @ encode_param ty v) @ encode_params vs) fmt'
      (length (pre @ encode_param ty v)) (acc @ [(name, shown_param ty v)]) =
      Inr ((acc @ [(name, shown_param ty v)]) @ zip (map fst fmt') (map (\<lambda>(ty, v). shown_param ty v) vs))"
    using Cons.prems fmt tv by (intro Cons.IH) (auto simp: od_keys_def)
  ultimately show ?case using tv fmt acc by (simp add: encode_params_def bind_res_def)
qed

end
