(* ===== verification/Param_Types.thy ===== *)
theory Param_Types
  imports Sol_Transactions
begin

text \<open>
  The type of parsed instruction data: whatever the bytes, a parse that succeeds gives every name
  of the format a value of the type the format says.
\<close>

text \<open>The values of a type: words of 64 bits, texts, and addresses with 40 hexadecimal digits.\<close>

definition hex_digits :: string where "hex_digits = ''0123456789abcdef''"

definition is_param :: "instruction_type \<Rightarrow> param \<Rightarrow> bool" where
  "is_param ty v = (case (ty, v) of
       (String_type, Text s) \<Rightarrow> True
     | (EthereumAddress, Text s) \<Rightarrow> length s = 42 \<and> take 2 s = ''0x'' \<and> list_all (\<lambda>c. c \<in> set hex_digits) (drop 2 s)
     | (u64, Num n) \<Rightarrow> n < 2 ^ 64
     | (UnixTimestamp, Num n) \<Rightarrow> n < 2 ^ 64
     | _ \<Rightarrow> False)"

lemma from_bytes_little_less: "from_bytes_little bs < 256 ^ length bs"
proof (induction bs)
  case (Cons b bs)
  have "unat b < 256" using unsigned_less [of b] by simp
  then show ?case using Cons.IH by simp
qed simp

lemma few_bytes_less:
  assumes "length bs \<le> k"
  shows "from_bytes_little bs < 256 ^ k"
proof -
  have "(256::nat) ^ length bs \<le> 256 ^ k" using assms by (intro power_increasing) auto
  with from_bytes_little_less show ?thesis by (rule less_le_trans)
qed

lemma slice_less: "from_bytes_little (slice bs a (a + k)) < 256 ^ k"
  by (rule few_bytes_less) (simp add: slice_def)

lemma slice_big_less: "from_bytes_big (slice bs a (a + k)) < 256 ^ k"
  unfolding from_bytes_big_def by (rule few_bytes_less) (simp add: slice_def)

lemma hex_char_digit: "d < 16 \<Longrightarrow> hex_char d \<in> set hex_digits"
  unfolding hex_char_def hex_digits_def by (rule nth_mem) simp

lemma show_hex_digits: "list_all (\<lambda>c. c \<in> set hex_digits) (show_hex n)"
proof (induction n rule: show_hex.induct)
  case (1 n)
  then show ?case
    using hex_char_digit [of n] hex_char_digit [of "n mod 16"] by (simp add: show_hex.simps [of n])
qed

lemma length_show_hex: "n < 16 ^ Suc k \<Longrightarrow> length (show_hex n) \<le> Suc k"
proof (induction k arbitrary: n)
  case (Suc k)
  show ?case
  proof (cases "n < 16")
    case False
    have "n div 16 < 16 ^ Suc k" using Suc.prems by (simp add: div_less_iff_less_mult mult.commute)
    then show ?thesis using Suc.IH False by (simp add: show_hex.simps [of n])
  qed (simp add: show_hex.simps [of n])
qed (simp add: show_hex.simps)

lemma eth_address_form:
  assumes "n < 256 ^ 20"
  shows "is_param EthereumAddress (Text (eth_address n))"
proof -
  have "n < 16 ^ Suc 39" using assms by simp
  from length_show_hex [OF this] have "length (show_hex n) \<le> 40" by simp
  moreover have "CHR ''0'' \<in> set hex_digits" by (simp add: hex_digits_def)
  ultimately show ?thesis
    using show_hex_digits [of n] by (auto simp: is_param_def eth_address_def Let_def list_all_iff)
qed

lemma read_param_typed:
  assumes "read_param bs start ty = Inr (v, stop)"
  shows "is_param ty v"
proof (cases ty)
  case EthereumAddress
  then show ?thesis
    using assms eth_address_form [OF slice_big_less [of bs start 20]]
    by (auto simp: read_param_def solanaInstructionSpace_def Let_def)
qed (use assms slice_less [of bs start 8] in
    \<open>auto simp: read_param_def solanaInstructionSpace_def is_param_def Let_def bind_res_Inr\<close>)

lemma parse_params_typed:
  assumes "parse_params bs fmt start acc = Inr ps" and "distinct (od_keys acc @ map fst fmt)"
  shows "\<exists>new. ps = acc @ new \<and> list_all2 (\<lambda>(name, ty) (k, v). k = name \<and> is_param ty v) fmt new"
  using assms
proof (induction fmt arbitrary: start acc)
  case (Cons nt fmt)
  obtain name ty where nt: "nt = (name, ty)" by force
  obtain v stop where v: "read_param bs start ty = Inr (v, stop)"
      "parse_params bs fmt stop (od_set acc name v) = Inr ps"
    using Cons.prems(1) by (auto simp: nt bind_res_Inr)
  have acc: "od_set acc name v = acc @ [(name, v)]" using Cons.prems(2) by (intro od_set_new) (auto simp: nt)
  have "distinct (od_keys (acc @ [(name, v)]) @ map fst fmt)" using Cons.prems(2) by (auto simp: nt od_keys_def)
  from Cons.IH [OF v(2) [unfolded acc] this] obtain new
    where "ps = (acc @ [(name, v)]) @ new" "list_all2 (\<lambda>(name, ty) (k, v). k = name \<and> is_param ty v) fmt new" by blast
  then show ?case using read_param_typed [OF v(1)] by (intro exI [of _ "(name, v) # new"]) (simp add: nt)
qed simp

text \<open>C38: Instruction data that parses is well typed, whatever its bytes and however few: the result
  has the names of the format in their order, each with a value of its type, numbers below
  \<open>2 ^ 64\<close> and addresses with forty digits.\<close>

theorem parse_instruction_typed:
  assumes "parse_instruction_data b58decode data fmt = Inr params" and "distinct (map fst fmt)"
  shows "list_all2 (\<lambda>(name, ty) (k, v). k = name \<and> is_param ty v) fmt params"
proof -
  obtain bytes where "parse_params (drop 1 bytes) fmt 0 [] = Inr params"
    using assms(1) by (auto simp: parse_instruction_data_def bind_res_Inr)
  from parse_params_typed [OF this] show ?thesis using assms(2) by (auto simp: od_keys_def)
qed

text \<open>A truncated message: the address is what is left of it, and the amount reads as zero.\<close>

lemma parse_instruction_typed_witness:
  "parse_instruction_data (\<lambda>s. Inr [4, 1, 2]) ''data'' [(''eth_recipient'', EthereumAddress), (''amount'', u64)] =
     Inr [(''eth_recipient'', Text ''0x0000000000000000000000000000000000000102''), (''amount'', Num 0)] \<and>
   is_param EthereumAddress (Text ''0x0000000000000000000000000000000000000102'')"
proof -
  let ?fmt = "[(''eth_recipient'', EthereumAddress), (''amount'', u64)]"
  have parsed: "parse_instruction_data (\<lambda>s. Inr [4, 1, 2]) ''data'' ?fmt =
     Inr [(''eth_recipient'', Text ''0x0000000000000000000000000000000000000102''), (''amount'', Num 0)]"
    by code_simp
  have "list_all2 (\<lambda>(name, ty) (k, v). k = name \<and> is_param ty v) ?fmt
      [(''eth_recipient'', Text ''0x0000000000000000000000000000000000000102''), (''amount'', Num 0)]"
    by (rule parse_instruction_typed [OF parsed]) simp
  then show ?thesis using parsed by simp
qed

end
