(* ===== verification/Sol_Walk.thy ===== *)
theory Sol_Walk
  imports Sol_Transactions "HOL-Library.Sublist"
begin

text \<open>
  How the Solana indexers find the transactions to process: \<open>get_transaction_signatures\<close> of
  tasks/index_rewards_manager.py, whose loop tasks/index_user_bank.py repeats.  It asks the
  client for pages of signatures from the newest backwards until it meets one the database
  knows, and keeps the oldest pages if there are too many.
\<close>

section \<open>The walk\<close>

definition INITIAL_FETCH_SIZE :: nat where "INITIAL_FETCH_SIZE = 10"

definition FETCH_TX_SIGNATURES_BATCH_SIZE :: nat where "FETCH_TX_SIGNATURES_BATCH_SIZE = 1000"

definition TX_SIGNATURES_MAX_BATCHES :: nat where "TX_SIGNATURES_MAX_BATCHES = 100"

definition TX_SIGNATURES_RESIZE_LENGTH :: nat where "TX_SIGNATURES_RESIZE_LENGTH = 75"

text \<open>\<open>get_signatures_for_address(program, before, limit)\<close> of the client.\<close>

type_synonym signature_source = "string option \<Rightarrow> nat \<Rightarrow> sig_info list result"

definition above_min :: "int option \<Rightarrow> sig_info \<Rightarrow> bool" where
  "above_min min_slot t \<longleftrightarrow> (case min_slot of None \<Rightarrow> True | Some m \<Rightarrow> si_slot t > m)"

text \<open>One page: the signatures to process, and whether a known one was met.\<close>

primrec scan_page ::
    "int \<Rightarrow> (string \<Rightarrow> bool) \<Rightarrow> int option \<Rightarrow> sig_info list \<Rightarrow> string list \<times> bool" where
  "scan_page latest exist min_slot [] = ([], False)"
| "scan_page latest exist min_slot (t # ts) =
     (let (batch, found) = scan_page latest exist min_slot ts in
      if si_slot t > latest then (si_signature t # batch, found)
      else if above_min min_slot t
      then (if exist (si_signature t) then ([], True) else (si_signature t # batch, found))
      else (batch, found))"

text \<open>\<open>xs[-n:]\<close> of a list that is longer.\<close>

definition resize :: "'a list list \<Rightarrow> 'a list list" where
  "resize batches =
     (if length batches > TX_SIGNATURES_MAX_BATCHES
      then drop (length batches - TX_SIGNATURES_RESIZE_LENGTH) batches else batches)"

definition add_batch :: "'a list list \<Rightarrow> 'a list \<Rightarrow> 'a list list" where
  "add_batch batches batch = resize (if batch = [] then batches else batches @ [batch])"

partial_function (option) signatures_from ::
    "signature_source \<Rightarrow> int \<Rightarrow> (string \<Rightarrow> bool) \<Rightarrow> int option \<Rightarrow> nat \<Rightarrow> string option \<Rightarrow> string list list \<Rightarrow>
     string list list result option" where
  "signatures_from source latest exist min_slot fetch_size last_tx batches =
     (case source last_tx fetch_size of
        Inl x \<Rightarrow> Some (Inl x)
      | Inr txs \<Rightarrow>
          if txs = [] then Some (Inr batches)
          else
            let (batch, found) = scan_page latest exist min_slot txs; batches' = add_batch batches batch
            in if found then Some (Inr batches')
               else signatures_from source latest exist min_slot FETCH_TX_SIGNATURES_BATCH_SIZE
                      (Some (si_signature (List.last txs))) batches')"

declare signatures_from.simps [code]

definition get_transaction_signatures ::
    "signature_source \<Rightarrow> int \<Rightarrow> (string \<Rightarrow> bool) \<Rightarrow> int option \<Rightarrow> string list list result option" where
  "get_transaction_signatures source latest exist min_slot =
     map_option (\<lambda>r. bind_res r (\<lambda>batches. Inr (rev batches)))
       (signatures_from source latest exist min_slot INITIAL_FETCH_SIZE None [])"

section \<open>The history of a program\<close>

text \<open>
  What a Solana node promises: the signatures of a program, newest first, are a list without
  repetition whose slots do not increase, and a request answers with the ones right after
  \<open>before\<close>, at most as many as asked for; or it fails.
\<close>

definition after :: "string \<Rightarrow> sig_info list \<Rightarrow> sig_info list" where
  "after h H = tl (dropWhile (\<lambda>t. si_signature t \<noteq> h) H)"

definition page_of :: "sig_info list \<Rightarrow> string option \<Rightarrow> nat \<Rightarrow> sig_info list" where
  "page_of H b k = take k (case b of None \<Rightarrow> H | Some h \<Rightarrow> after h H)"

definition history_ok :: "sig_info list \<Rightarrow> bool" where
  "history_ok H \<longleftrightarrow> distinct (map si_signature H) \<and> sorted_wrt (\<lambda>t u. si_slot u \<le> si_slot t) H"

definition serves :: "signature_source \<Rightarrow> sig_info list \<Rightarrow> bool" where
  "serves source H \<longleftrightarrow> (\<forall>b k. (\<exists>x. source b k = Inl x) \<or> source b k = Inr (page_of H b k))"

section \<open>What the walk returns\<close>

definition known :: "int \<Rightarrow> (string \<Rightarrow> bool) \<Rightarrow> int option \<Rightarrow> sig_info \<Rightarrow> bool" where
  "known latest exist min_slot t \<longleftrightarrow> si_slot t \<le> latest \<and> above_min min_slot t \<and> exist (si_signature t)"

definition wanted :: "int \<Rightarrow> (string \<Rightarrow> bool) \<Rightarrow> int option \<Rightarrow> sig_info list \<Rightarrow> string list" where
  "wanted latest exist min_slot H =
     map si_signature (filter (\<lambda>t. latest < si_slot t \<or> above_min min_slot t)
       (takeWhile (\<lambda>t. \<not> known latest exist min_slot t) H))"

lemma scan_page_eq:
  "scan_page latest exist m ts = (wanted latest exist m ts, \<exists>t \<in> set ts. known latest exist m t)"
proof (induction ts)
  case (Cons t ts)
  then show ?case by (auto simp: wanted_def known_def)
qed (simp add: wanted_def)

lemma wanted_append:
  "wanted latest exist m (xs @ ys) =
   (if \<exists>t \<in> set xs. known latest exist m t then wanted latest exist m xs
    else wanted latest exist m xs @ wanted latest exist m ys)"
proof (cases "\<exists>t \<in> set xs. known latest exist m t")
  case False
  then have "takeWhile (\<lambda>t. \<not> known latest exist m t) xs = xs" (is "?xs")
    and "takeWhile (\<lambda>t. \<not> known latest exist m t) (xs @ ys) = xs @ takeWhile (\<lambda>t. \<not> known latest exist m t) ys" (is "?ys")
    by (simp_all add: takeWhile_eq_all_conv takeWhile_append2)
  note eqs = \<open>?xs\<close> \<open>?ys\<close>
  show ?thesis by (simp only: wanted_def eqs filter_append map_append False if_False)
qed (auto simp: wanted_def takeWhile_append)

lemma concat_resize: "\<exists>old. concat batches = old @ concat (resize batches)"
proof -
  have "concat batches = concat (take n batches) @ concat (drop n batches)" for n
    by (metis append_take_drop_id concat_append)
  then show ?thesis by (auto simp: resize_def)
qed

lemma concat_add_batch:
  "\<exists>old. concat batches @ batch = old @ concat (add_batch batches batch) \<and>
     (length batches + (if batch = [] then 0 else 1) \<le> TX_SIGNATURES_MAX_BATCHES \<longrightarrow> old = [])"
proof (cases "length batches + (if batch = [] then 0 else 1) \<le> TX_SIGNATURES_MAX_BATCHES")
  case True
  then show ?thesis by (intro exI [of _ "[]"]) (auto simp: add_batch_def resize_def)
next
  case False
  then show ?thesis
    using concat_resize [of "if batch = [] then batches else batches @ [batch]"]
    by (auto simp: add_batch_def split: if_splits)
qed

lemma length_add_batch: "length (add_batch batches batch) \<le> length batches + (if batch = [] then 0 else 1)"
  by (auto simp: add_batch_def resize_def)

text \<open>What is left to collect fits into the pages left before the oldest are kept only.\<close>

definition few_pages :: "nat \<Rightarrow> nat \<Rightarrow> nat \<Rightarrow> bool" where
  "few_pages batches fetch_size rest \<longleftrightarrow> batches \<le> TX_SIGNATURES_MAX_BATCHES \<and>
     (rest = 0 \<or> (\<exists>k. batches + Suc k \<le> TX_SIGNATURES_MAX_BATCHES \<and>
       rest \<le> fetch_size + k * FETCH_TX_SIGNATURES_BATCH_SIZE))"

lemma few_pages_step:
  assumes "few_pages n fetch_size (b + w)" and "w \<noteq> 0 \<Longrightarrow> b = fetch_size" and "fetch_size > 0"
    and "n' \<le> n + (if b = 0 then 0 else 1)"
  shows "n + (if b = 0 then 0 else 1) \<le> TX_SIGNATURES_MAX_BATCHES" and "few_pages n' FETCH_TX_SIGNATURES_BATCH_SIZE w"
proof -
  show max: "n + (if b = 0 then 0 else 1) \<le> TX_SIGNATURES_MAX_BATCHES"
    using assms(1) by (auto simp: few_pages_def)
  show "few_pages n' FETCH_TX_SIGNATURES_BATCH_SIZE w"
  proof (cases "w = 0")
    case True
    then show ?thesis using max assms(4) by (simp add: few_pages_def)
  next
    case False
    then obtain k where k: "n + Suc k \<le> TX_SIGNATURES_MAX_BATCHES" "w \<le> k * FETCH_TX_SIGNATURES_BATCH_SIZE"
      using assms(1-3) by (auto simp: few_pages_def)
    then obtain j where "k = Suc j" using False by (cases k) auto
    then show ?thesis using k assms(4) max by (auto simp: few_pages_def intro!: exI [of _ j] split: if_splits)
  qed
qed

lemma few_pages_start: "rest \<le> 99010 \<Longrightarrow> few_pages 0 INITIAL_FETCH_SIZE rest"
  by (auto simp: few_pages_def TX_SIGNATURES_MAX_BATCHES_def INITIAL_FETCH_SIZE_def
      FETCH_TX_SIGNATURES_BATCH_SIZE_def intro!: exI [of _ 99])

text \<open>A page that is not collected as a whole reaches below the slots to collect, so that nothing after it is.\<close>

lemma wanted_short_page:
  assumes sorted: "sorted_wrt (\<lambda>t u. si_slot u \<le> si_slot t) (xs @ ys)" and none: "\<not> (\<exists>t \<in> set xs. known latest exist m t)"
    and left: "wanted latest exist m ys \<noteq> []"
  shows "length (wanted latest exist m xs) = length xs"
proof -
  let ?P = "\<lambda>t. latest < si_slot t \<or> above_min m t"
  obtain u where u: "u \<in> set ys" "?P u"
    using left by (auto simp: wanted_def filter_empty_conv dest: set_takeWhileD)
  have "?P t" if "t \<in> set xs" for t
  proof -
    have "si_slot u \<le> si_slot t" using sorted that u(1) by (auto simp: sorted_wrt_append)
    then show ?thesis using u(2) by (auto simp: above_min_def split: option.splits)
  qed
  then have "filter ?P xs = xs" by (simp add: filter_id_conv)
  moreover have "takeWhile (\<lambda>t. \<not> known latest exist m t) xs = xs" using none by (simp add: takeWhile_eq_all_conv)
  ultimately show ?thesis by (simp only: wanted_def length_map)
qed

lemma after_nth:
  assumes "distinct (map si_signature H)" and "H = xs @ t # ys"
  shows "after (si_signature t) H = ys"
proof -
  have "si_signature t \<notin> si_signature ` set xs" using assms by auto
  then have "dropWhile (\<lambda>u. si_signature u \<noteq> si_signature t) xs = []"
    by (metis (mono_tags, lifting) dropWhile_eq_Nil_conv image_eqI)
  then have "dropWhile (\<lambda>u. si_signature u \<noteq> si_signature t) H = t # ys"
    using assms(2) by (simp add: dropWhile_append)
  then show ?thesis by (simp add: after_def)
qed

text \<open>
  From any point of the history the walk ends, and unless the client fails it adds the wanted
  signatures of the rest, less the newest ones if there are too many pages.
\<close>

lemma signatures_from_rest:
  assumes "serves source H" and "history_ok H" and "fetch_size > 0"
    and "H = done_part @ rest" and "last_tx = (if done_part = [] then None else Some (si_signature (List.last done_part)))"
  shows "\<exists>r. signatures_from source latest exist m fetch_size last_tx batches = Some r \<and>
    (\<forall>bs. r = Inr bs \<longrightarrow> (\<exists>newer. concat batches @ wanted latest exist m rest = newer @ concat bs \<and>
      (few_pages (length batches) fetch_size (length (wanted latest exist m rest)) \<longrightarrow> newer = [])))"
  using assms(3,4,5)
proof (induction "length rest" arbitrary: rest done_part last_tx fetch_size batches rule: less_induct)
  case less
  have page: "page_of H last_tx fetch_size = take fetch_size rest"
  proof (cases "done_part = []")
    case True
    then show ?thesis using less.prems by (simp add: page_of_def)
  next
    case False
    then have "H = butlast done_part @ List.last done_part # rest"
      using less.prems(2) by simp
    then have "after (si_signature (List.last done_part)) H = rest"
      using assms(2) by (intro after_nth) (simp_all add: history_ok_def)
    then show ?thesis using False less.prems(3) by (simp add: page_of_def)
  qed
  show ?case
  proof (cases "\<exists>x. source last_tx fetch_size = Inl x")
    case True
    then show ?thesis by (auto simp: signatures_from.simps [of source latest exist m fetch_size])
  next
    case False
    let ?txs = "take fetch_size rest" and ?rest = "drop fetch_size rest"
    have sorted: "sorted_wrt (\<lambda>t u. si_slot u \<le> si_slot t) (?txs @ ?rest)"
      using assms(2) less.prems(2) by (simp add: history_ok_def sorted_wrt_append)
    have source: "source last_tx fetch_size = Inr ?txs"
      using False assms(1) unfolding page [symmetric] serves_def by blast
    show ?thesis
    proof (cases "rest = []")
      case True
      then show ?thesis
        using source less.prems(1) by (simp add: signatures_from.simps [of source latest exist m fetch_size] wanted_def)
    next
      case False
      then have txs: "?txs \<noteq> []" using less.prems(1) by simp
      let ?batch = "wanted latest exist m ?txs"
      obtain old where old: "concat batches @ ?batch = old @ concat (add_batch batches ?batch)"
          "length batches + (if ?batch = [] then 0 else 1) \<le> TX_SIGNATURES_MAX_BATCHES \<Longrightarrow> old = []"
        using concat_add_batch by blast
      have split: "wanted latest exist m rest =
          (if \<exists>t \<in> set ?txs. known latest exist m t then ?batch else ?batch @ wanted latest exist m ?rest)"
        using wanted_append [of latest exist m ?txs ?rest] by simp
      show ?thesis
      proof (cases "\<exists>t \<in> set ?txs. known latest exist m t")
        case True
        then have "old = []" if "few_pages (length batches) fetch_size (length (wanted latest exist m rest))"
          using that old(2) split by (auto simp: few_pages_def split: if_splits)
        then show ?thesis
          using True source txs split old(1)
          by (auto simp: signatures_from.simps [of source latest exist m fetch_size] scan_page_eq)
      next
        case found: False
        have "\<exists>r. signatures_from source latest exist m FETCH_TX_SIGNATURES_BATCH_SIZE
            (Some (si_signature (List.last ?txs))) (add_batch batches ?batch) = Some r \<and>
          (\<forall>bs. r = Inr bs \<longrightarrow> (\<exists>newer. concat (add_batch batches ?batch) @ wanted latest exist m ?rest = newer @ concat bs \<and>
            (few_pages (length (add_batch batches ?batch)) FETCH_TX_SIGNATURES_BATCH_SIZE (length (wanted latest exist m ?rest)) \<longrightarrow> newer = [])))"
        proof (rule less.hyps [of ?rest FETCH_TX_SIGNATURES_BATCH_SIZE "done_part @ ?txs"])
          show "length ?rest < length rest" using False less.prems(1) by simp
        qed (use less.prems(2) txs in \<open>simp_all add: FETCH_TX_SIGNATURES_BATCH_SIZE_def\<close>)
        then obtain r where r: "signatures_from source latest exist m FETCH_TX_SIGNATURES_BATCH_SIZE
            (Some (si_signature (List.last ?txs))) (add_batch batches ?batch) = Some r"
          and bs: "\<And>bs. r = Inr bs \<Longrightarrow> \<exists>newer. concat (add_batch batches ?batch) @ wanted latest exist m ?rest = newer @ concat bs \<and>
            (few_pages (length (add_batch batches ?batch)) FETCH_TX_SIGNATURES_BATCH_SIZE (length (wanted latest exist m ?rest)) \<longrightarrow> newer = [])"
          by blast
        have "\<exists>newer. concat batches @ wanted latest exist m rest = newer @ concat bs \<and>
            (few_pages (length batches) fetch_size (length (wanted latest exist m rest)) \<longrightarrow> newer = [])" if r_bs: "r = Inr bs" for bs
        proof -
          obtain newer where newer: "concat (add_batch batches ?batch) @ wanted latest exist m ?rest = newer @ concat bs"
              "few_pages (length (add_batch batches ?batch)) FETCH_TX_SIGNATURES_BATCH_SIZE (length (wanted latest exist m ?rest)) \<Longrightarrow> newer = []"
            using bs [OF r_bs] by blast
          then have "concat batches @ wanted latest exist m rest = (old @ newer) @ concat bs"
            using split found old(1) by (metis append.assoc)
          moreover have "old @ newer = []" if "few_pages (length batches) fetch_size (length (wanted latest exist m rest))"
          proof -
            have few: "few_pages (length batches) fetch_size (length ?batch + length (wanted latest exist m ?rest))"
              using that split found by simp
            have full: "length ?batch = fetch_size" if "length (wanted latest exist m ?rest) \<noteq> 0"
            proof -
              have "length ?batch = length ?txs"
                using sorted found that by (intro wanted_short_page [of ?txs ?rest]) simp_all
              moreover have "?rest \<noteq> []" using that by (auto simp: wanted_def)
              ultimately show ?thesis by simp
            qed
            have new: "length (add_batch batches ?batch) \<le> length batches + (if length ?batch = 0 then 0 else 1)"
              using length_add_batch [of batches ?batch] by simp
            show ?thesis
              using few_pages_step [OF few full less.prems(1) new] old(2) newer(2) by simp
          qed
          ultimately show ?thesis by blast
        qed
        then show ?thesis
          using source txs found r
          by (simp add: signatures_from.simps [of source latest exist m fetch_size] scan_page_eq)
      qed
    qed
  qed
qed

lemma get_transaction_signatures_result:
  assumes "serves source H" and "history_ok H"
  obtains (failed) x where "get_transaction_signatures source latest exist m = Some (Inl x)"
    | (batches) bs newer where "get_transaction_signatures source latest exist m = Some (Inr bs)"
      "wanted latest exist m H = newer @ concat (rev bs)"
      "few_pages 0 INITIAL_FETCH_SIZE (length (wanted latest exist m H)) \<Longrightarrow> newer = []"
proof -
  obtain r where r: "signatures_from source latest exist m INITIAL_FETCH_SIZE None [] = Some r"
      "\<And>bs. r = Inr bs \<Longrightarrow> \<exists>newer. wanted latest exist m H = newer @ concat bs \<and>
        (few_pages 0 INITIAL_FETCH_SIZE (length (wanted latest exist m H)) \<longrightarrow> newer = [])"
    using signatures_from_rest [OF assms, of INITIAL_FETCH_SIZE "[]" H None latest exist m "[]"]
    by (auto simp: INITIAL_FETCH_SIZE_def)
  show thesis
  proof (cases r)
    case (Inl x)
    then show thesis using r(1) failed by (simp add: get_transaction_signatures_def bind_res_def)
  next
    case (Inr bs)
    obtain newer where "wanted latest exist m H = newer @ concat bs"
        "few_pages 0 INITIAL_FETCH_SIZE (length (wanted latest exist m H)) \<Longrightarrow> newer = []"
      using r(2) [OF Inr] by blast
    then show thesis using r(1) Inr
      by (intro batches [where bs = "rev bs" and newer = newer])
        (simp add: get_transaction_signatures_def bind_res_def, simp, blast)
  qed
qed

end
