(* ===== verification/Reward_Queries.thy ===== *)
theory Reward_Queries
  imports Challenge_Bus
begin

text \<open>
  queries/get_challenges.py, what the clients are shown of a user's rewards, and
  challenges/create_new_challenges.py, the settings of the challenges at start-up.  The updaters of
  the service do not override the metadata methods of the base class, whose metadata is empty.
\<close>

section \<open>Responses\<close>

record disbursement =
  cdis_challenge_id :: string
  cdis_user_id :: int
  cdis_specifier :: string
  cdis_signature :: string
  cdis_slot :: int
  cdis_amount :: string

record response =
  rs_challenge_id :: string
  rs_user_id :: int
  rs_specifier :: string
  rs_is_complete :: bool
  rs_is_active :: bool
  rs_is_disbursed :: bool
  rs_current_step_count :: "int option"
  rs_max_steps :: "int option"
  rs_challenge_type :: challenge_type
  rs_amount :: string
  rs_metadata :: pydict

definition rollup_aggregates :: "user_challenge list \<Rightarrow> challenge \<Rightarrow> response result" where
  "rollup_aggregates user_challenges parent =
     (let num_complete = int (length (filter uc_is_complete user_challenges));
          complete = (case ch_step_count parent of
              None \<Rightarrow> True | Some k \<Rightarrow> if k = 0 then True else k \<le> num_complete)
      in case user_challenges of
           [] \<Rightarrow> Inl IndexError
         | u # _ \<Rightarrow> Inr
             \<lparr>rs_challenge_id = ch_id parent, rs_user_id = uc_user_id u, rs_specifier = [],
              rs_is_complete = complete, rs_is_active = ch_active parent, rs_is_disbursed = False,
              rs_current_step_count = Some num_complete, rs_max_steps = ch_step_count parent,
              rs_challenge_type = ch_type parent, rs_amount = ch_amount parent, rs_metadata = []\<rparr>)"

definition to_challenge_response ::
    "user_challenge \<Rightarrow> challenge \<Rightarrow> disbursement option \<Rightarrow> pydict \<Rightarrow> response" where
  "to_challenge_response u c d metadata =
     \<lparr>rs_challenge_id = ch_id c, rs_user_id = uc_user_id u, rs_specifier = uc_specifier u,
      rs_is_complete = uc_is_complete u, rs_is_active = ch_active c, rs_is_disbursed = (d \<noteq> None),
      rs_current_step_count = uc_current_step_count u, rs_max_steps = ch_step_count c,
      rs_challenge_type = ch_type c, rs_amount = ch_amount c, rs_metadata = metadata\<rparr>"

definition empty_response :: "int \<Rightarrow> challenge \<Rightarrow> pydict \<Rightarrow> response" where
  "empty_response user_id c metadata =
     \<lparr>rs_challenge_id = ch_id c, rs_user_id = user_id, rs_specifier = [], rs_is_complete = False,
      rs_is_active = ch_active c, rs_is_disbursed = False, rs_current_step_count = Some 0,
      rs_max_steps = ch_step_count c, rs_challenge_type = ch_type c, rs_amount = ch_amount c,
      rs_metadata = metadata\<rparr>"

definition create_empty_user_challenges :: "int \<Rightarrow> challenge list \<Rightarrow> pydict list \<Rightarrow> response list result" where
  "create_empty_user_challenges user_id cs metadatas =
     map_res (\<lambda>(i, c). if i < length metadatas then Inr (empty_response user_id c (metadatas ! i))
                        else Inl IndexError) (enumerate 0 cs)"

section \<open>Metadata\<close>

definition get_metadata :: "manager \<Rightarrow> string list \<Rightarrow> pydict list" where
  "get_metadata m specifiers = map (\<lambda>s. []) specifiers"

definition get_default_metadata :: "manager \<Rightarrow> pydict" where
  "get_default_metadata m = []"

text \<open>The specifiers by challenge, then the metadata by specifier, then both in the order of the rows.\<close>

definition specifiers_by_challenge :: "user_challenge list \<Rightarrow> (string, string list) odict" where
  "specifiers_by_challenge ucs =
     fold (\<lambda>c d. od_set d (uc_challenge_id c) (od_default d (uc_challenge_id c) [] @ [uc_specifier c])) ucs []"

definition add_metadata ::
    "bus \<Rightarrow> string \<times> string list \<Rightarrow> (string, pydict) odict \<Rightarrow> (string, pydict) odict result" where
  "add_metadata b ks d = (case ks of (challenge_id, specifiers) \<Rightarrow>
     bind_res (get_manager b challenge_id) (\<lambda>m.
     Inr (fold (\<lambda>(s, md) d. od_set d s md) (zip specifiers (get_metadata m specifiers)) d)))"

definition get_challenges_metadata :: "bus \<Rightarrow> user_challenge list \<Rightarrow> pydict list result" where
  "get_challenges_metadata b ucs =
     bind_res (fold_res (add_metadata b) (specifiers_by_challenge ucs) []) (\<lambda>d.
     map_res (\<lambda>c. case od_get d (uc_specifier c) of None \<Rightarrow> Inl KeyError | Some md \<Rightarrow> Inr md) ucs)"

definition get_empty_metadata :: "bus \<Rightarrow> challenge list \<Rightarrow> pydict list result" where
  "get_empty_metadata b cs = map_res (\<lambda>c. map_sum id get_default_metadata (get_manager b (ch_id c))) cs"

section \<open>All challenges of a user\<close>

text \<open>The outer join of the user challenges with their disbursements.\<close>

definition pays :: "user_challenge \<Rightarrow> disbursement \<Rightarrow> bool" where
  "pays u d \<longleftrightarrow> cdis_specifier d = uc_specifier u \<and> cdis_challenge_id d = uc_challenge_id u"

definition challenges_and_disbursements ::
    "ch_db \<Rightarrow> disbursement list \<Rightarrow> int \<Rightarrow> (user_challenge \<times> disbursement option) list" where
  "challenges_and_disbursements db ds user_id =
     concat (map (\<lambda>u. case filter (pays u) ds of [] \<Rightarrow> [(u, None)] | qs \<Rightarrow> map (\<lambda>d. (u, Some d)) qs)
       (filter (\<lambda>u. uc_user_id u = user_id) (cd_user_challenges db)))"

definition lookup_challenge :: "challenge list \<Rightarrow> string \<Rightarrow> challenge result" where
  "lookup_challenge cs challenge_id =
     (case od_get (od_build ch_id (\<lambda>c. c) cs) challenge_id of None \<Rightarrow> Inl KeyError | Some c \<Rightarrow> Inr c)"

text \<open>The rows shown: with \<open>show_historical\<close> all of them, without only those of active challenges.\<close>

definition existing_user_challenges ::
    "bool \<Rightarrow> challenge list \<Rightarrow> (user_challenge \<times> disbursement option) list \<Rightarrow> user_challenge list result" where
  "existing_user_challenges show_historical cs rows =
     bind_res (map_res (\<lambda>(u, d).
         if show_historical then Inr (True, u)
         else bind_res (lookup_challenge cs (uc_challenge_id u)) (\<lambda>c. Inr (ch_active c, u))) rows) (\<lambda>marked.
     Inr (map snd (filter fst marked)))"

text \<open>
  One row of the loop: nothing for a row of an aggregate challenge or an incomplete trending one.
  The disbursement is the one at the row's position in the list before the filter.
\<close>

definition regular_response ::
    "int \<Rightarrow> int \<Rightarrow> ch_db \<Rightarrow> bus \<Rightarrow> disbursement option list \<Rightarrow> pydict list \<Rightarrow> nat \<times> user_challenge \<Rightarrow> response list result" where
  "regular_response now user_id db b disbursements metadata iu = (case iu of (i, u) \<Rightarrow>
     bind_res (lookup_challenge (cd_challenges db) (uc_challenge_id u)) (\<lambda>parent.
     if ch_type parent = Aggregate then Inr []
     else if ch_type parent = Trending \<and> \<not> uc_is_complete u then Inr []
     else
       let r = to_challenge_response u parent (disbursements ! i) (metadata ! i)
       in bind_res (get_manager b (ch_id parent)) (\<lambda>m.
          case up_get_override_challenge_step_count (mg_updater m) now db user_id of
            Some n \<Rightarrow> Inr [if uc_is_complete u then r else r\<lparr>rs_current_step_count := Some n\<rparr>]
          | None \<Rightarrow> Inr [r])))"

definition aggregate_rows :: "challenge list \<Rightarrow> user_challenge list \<Rightarrow> (string, user_challenge list) odict" where
  "aggregate_rows cs ucs =
     fold (\<lambda>u d. case lookup_challenge cs (uc_challenge_id u) of
         Inr c \<Rightarrow> if ch_type c = Aggregate \<and> uc_is_complete u
                  then od_set d (uc_challenge_id u) (od_default d (uc_challenge_id u) [] @ [u]) else d
       | Inl x \<Rightarrow> d) ucs []"

definition active_non_hidden :: "ch_db \<Rightarrow> bus \<Rightarrow> int \<Rightarrow> challenge list result" where
  "active_non_hidden db b user_id =
     bind_res (map_res (\<lambda>c.
         if \<not> ch_active c \<or> ch_type c = Trending then Inr (False, c)
         else bind_res (get_manager b (ch_id c)) (\<lambda>m.
              bind_res (up_should_show_challenge_for_user (mg_updater m) db user_id) (\<lambda>shown.
              Inr (shown, c)))) (cd_challenges db)) (\<lambda>marked.
     Inr (map snd (filter fst marked)))"

definition get_challenges ::
    "int \<Rightarrow> int \<Rightarrow> bool \<Rightarrow> ch_db \<Rightarrow> disbursement list \<Rightarrow> bus \<Rightarrow> response list result" where
  "get_challenges now user_id show_historical db ds b =
     (let rows = filter (\<lambda>(u, d). does_manager_exist b (uc_challenge_id u))
                   (challenges_and_disbursements db ds user_id);
          disbursements = map snd rows
      in bind_res (existing_user_challenges show_historical (cd_challenges db) rows) (\<lambda>existing.
         bind_res (get_challenges_metadata b existing) (\<lambda>metadata.
         bind_res (map_res (regular_response now user_id db b disbursements metadata) (enumerate 0 existing))
           (\<lambda>regular.
         bind_res (map_res (\<lambda>(challenge_id, us). bind_res (lookup_challenge (cd_challenges db) challenge_id)
             (rollup_aggregates us)) (aggregate_rows (cd_challenges db) existing)) (\<lambda>rolled_up.
         bind_res (active_non_hidden db b user_id) (\<lambda>active.
         let needed = filter (\<lambda>c. ch_id c \<notin> set (map uc_challenge_id existing)) active
         in bind_res (get_empty_metadata b needed) (\<lambda>empty_metadata.
            bind_res (create_empty_user_challenges user_id needed empty_metadata) (\<lambda>empty.
            Inr (concat regular @ rolled_up @ empty)))))))))"

section \<open>The settings at start-up\<close>

record challenge_override =
  co_id :: string
  co_amount :: "string option"
  co_active :: "bool option"
  co_step_count :: "int option option"
  co_starting_block :: "int option option"

definition apply_override :: "challenge_override \<Rightarrow> challenge \<Rightarrow> challenge" where
  "apply_override ov c = c
     \<lparr>ch_id := co_id ov,
      ch_amount := (case co_amount ov of None \<Rightarrow> ch_amount c | Some a \<Rightarrow> a),
      ch_active := (case co_active ov of None \<Rightarrow> ch_active c | Some a \<Rightarrow> a),
      ch_starting_block := (case co_starting_block ov of None \<Rightarrow> ch_starting_block c | Some s \<Rightarrow> s),
      ch_step_count := (case co_step_count ov of None \<Rightarrow> ch_step_count c | Some s \<Rightarrow> s)\<rparr>"

text \<open>The contents of the JSON files are parameters; only two environments have overrides.\<close>

definition get_challenges_dicts ::
    "challenge list \<Rightarrow> (string \<Rightarrow> challenge_override list) \<Rightarrow> string \<Rightarrow> challenge list" where
  "get_challenges_dicts challenges_json stage_json env_name =
     (if env_name = ''stage'' \<or> env_name = ''dev'' then
        (let ovs = od_build co_id (\<lambda>ov. ov) (stage_json env_name)
         in map (\<lambda>c. case od_get ovs (ch_id c) of None \<Rightarrow> c | Some ov \<Rightarrow> apply_override ov c) challenges_json)
      else challenges_json)"

definition update_setting :: "challenge list \<Rightarrow> challenge \<Rightarrow> challenge" where
  "update_setting dicts c =
     fold (\<lambda>d c. if ch_id d = ch_id c
        then c\<lparr>ch_active := ch_active d, ch_amount := ch_amount d, ch_step_count := ch_step_count d,
               ch_starting_block := ch_starting_block d\<rparr> else c) dicts c"

definition create_new_challenges :: "challenge list \<Rightarrow> challenge_type list \<Rightarrow> challenge list \<Rightarrow> challenge list" where
  "create_new_challenges dicts allowed existing =
     (let new = filter (\<lambda>c. ch_id c \<notin> set (map ch_id existing)) dicts;
          new' = (if allowed = [] then new else filter (\<lambda>c. ch_type c \<in> set allowed) new)
      in map (update_setting dicts) existing @ new')"

end
