(* ===== verification/Sol_State.thy ===== *)
theory Sol_State
  imports Sol_Walk Event_Bus EM_Core Reward_Queries
begin

text \<open>
  The state of the Solana indexers: the tables they read and write (models/users/,
  models/rewards/), the Redis keys of utils/cache_solana_program.py and the set of users whose
  balance is to be refreshed (queries/get_balances.py).
\<close>

section \<open>Tables\<close>

record bank_account =
  ba_signature :: string
  ba_ethereum_address :: string
  ba_bank_account :: string
  ba_created_at :: int

text \<open>A processed transaction, of \<open>user_bank_txs\<close> or \<open>reward_manager_txs\<close>.\<close>

record sol_row =
  sr_signature :: string
  sr_slot :: int
  sr_created_at :: int

record user_tip =
  ut_slot :: int
  ut_signature :: string
  ut_sender_user_id :: int
  ut_receiver_user_id :: int
  ut_amount :: int
  ut_created_at :: int

datatype transaction_type = Tip | User_reward | Trending_reward | Transfer
  | Purchase_stripe | Purchase_coinbase | Purchase_unknown

datatype transaction_method = Send | Receive

record audio_tx =
  at_user_bank :: string
  at_slot :: int
  at_signature :: string
  at_transaction_type :: transaction_type
  at_method :: transaction_method
  at_created_at :: int
  at_change :: int
  at_balance :: int
  at_metadata :: "string option"

record cached_tx =
  cx_signature :: string
  cx_slot :: int
  cx_timestamp :: int

record sol_state =
  so_users :: "inst list"
  so_wallets :: "assoc_wallet list"
  so_challenges :: "challenge list"
  so_user_challenges :: "user_challenge list"
  so_accounts :: "bank_account list"
  so_bank_txs :: "sol_row list"
  so_reward_txs :: "sol_row list"
  so_tips :: "user_tip list"
  so_history :: "audio_tx list"
  so_disbursements :: "disbursement list"
  so_spl :: "(int \<times> string) list"
  so_bus :: "internal_event list"
  so_queue :: "queue_entry list"
  so_refresh :: "int list"
  so_latest :: "string \<Rightarrow> cached_tx option"
  so_slots :: "string \<Rightarrow> int option"
  so_seen :: "sig_info list"
  so_challenge_types :: "(string, transaction_type) odict"

type_synonym 'a so = "(sol_state, 'a) py"

text \<open>
  Outside: the Solana client, Base58, the derivation of account addresses, the order in which
  the threads of a batch finish, and the Redis queue of the challenge bus.
\<close>

record sol_env =
  se_source :: signature_source
  se_tx :: "string \<Rightarrow> sol_tx result"
  se_slot :: "int option result"
  se_b58decode :: "string \<Rightarrow> 8 word list result"
  se_derive :: "8 word list \<Rightarrow> string"
  se_rank :: "string \<Rightarrow> nat"
  se_accepts :: "queue_entry \<Rightarrow> bool"
  se_program :: string
  se_mint :: string
  se_account :: string
  se_valid_program :: bool
  se_min_slot :: int
  se_have_lock :: bool

section \<open>Redis\<close>

text \<open>A set: adding a member again changes nothing.\<close>

definition enqueue_immediate_balance_refresh :: "int list \<Rightarrow> unit so" where
  "enqueue_immediate_balance_refresh user_ids =
     run_when (user_ids \<noteq> []) (modify (\<lambda>s. s\<lparr>so_refresh := fold List.insert user_ids (so_refresh s)\<rparr>))"

definition cache_latest_sol_db_tx :: "string \<Rightarrow> cached_tx \<Rightarrow> unit so" where
  "cache_latest_sol_db_tx key latest_tx = modify (\<lambda>s. s\<lparr>so_latest := (so_latest s)(key \<mapsto> latest_tx)\<rparr>)"

definition fetch_and_cache_latest_program_tx_redis :: "sol_env \<Rightarrow> string \<Rightarrow> unit so" where
  "fetch_and_cache_latest_program_tx_redis E key =
     bnd (lift_res (se_source E None 1)) (\<lambda>transactions_array.
     case transactions_array of
       [] \<Rightarrow> ret ()
     | tx # _ \<Rightarrow> cache_latest_sol_db_tx key
         \<lparr>cx_signature = si_signature tx, cx_slot = si_slot tx, cx_timestamp = si_block_time tx\<rparr>)"

section \<open>Sessions\<close>

text \<open>The primary keys of the tables, which the database checks at a commit.\<close>

definition keys_ok :: "sol_state \<Rightarrow> bool" where
  "keys_ok s \<longleftrightarrow> distinct (map ba_signature (so_accounts s)) \<and> distinct (map sr_signature (so_bank_txs s)) \<and>
     distinct (map sr_signature (so_reward_txs s)) \<and>
     distinct (map (\<lambda>t. (ut_slot t, ut_signature t)) (so_tips s)) \<and>
     distinct (map (\<lambda>t. (at_user_bank t, at_signature t)) (so_history s)) \<and>
     distinct (map (\<lambda>d. (cdis_challenge_id d, cdis_specifier d)) (so_disbursements s))"

text \<open>A rollback restores the tables; Redis and the in-memory queue of the bus keep what was written.\<close>

definition roll_back_sol :: "sol_state \<Rightarrow> sol_state \<Rightarrow> sol_state" where
  "roll_back_sol s0 s = s0\<lparr>so_bus := so_bus s, so_queue := so_queue s, so_refresh := so_refresh s,
     so_latest := so_latest s, so_slots := so_slots s, so_seen := so_seen s,
     so_challenge_types := so_challenge_types s\<rparr>"

definition sol_session :: "'a so \<Rightarrow> 'a so" where
  "sol_session m = (\<lambda>s. case m s of
       (Inl x, t) \<Rightarrow> (Inl x, roll_back_sol s t)
     | (Inr v, t) \<Rightarrow> if keys_ok t then (Inr v, t) else (Inl (Raised ''IntegrityError''), roll_back_sol s t))"

text \<open>\<open>with challenge_bus.use_scoped_dispatch_queue()\<close>\<close>

definition scoped_queue :: "sol_env \<Rightarrow> 'a so \<Rightarrow> 'a so" where
  "scoped_queue E m = (\<lambda>s. case m s of
       (r, t) \<Rightarrow> (case flush (se_accepts E) (so_bus t, so_queue t) of (q, redis) \<Rightarrow>
         (r, t\<lparr>so_bus := q, so_queue := redis\<rparr>)))"

primrec for_each_collect :: "'a list \<Rightarrow> ('a \<Rightarrow> 'b so) \<Rightarrow> 'b list so" where
  "for_each_collect [] f = ret []"
| "for_each_collect (x # xs) f = bnd (f x) (\<lambda>y. bnd (for_each_collect xs f) (\<lambda>ys. ret (y # ys)))"

section \<open>A run\<close>

text \<open>
  What \<open>process_user_bank_txs\<close> and \<open>process_solana_rewards_manager\<close> do alike: find the batches,
  process them from the oldest to the newest, and finish; \<open>None\<close> means that the walk never ends.
\<close>

definition run_walk ::
    "signature_source \<Rightarrow> int \<Rightarrow> (string \<Rightarrow> bool) \<Rightarrow> int option \<Rightarrow> (string list \<Rightarrow> 'b so) \<Rightarrow>
     (string list list \<Rightarrow> 'b list \<Rightarrow> unit so) \<Rightarrow> sol_state \<Rightarrow> (unit result \<times> sol_state) option" where
  "run_walk source latest exist min_slot batch finish s =
     map_option (\<lambda>r. bnd (lift_res r) (\<lambda>transaction_signatures.
         bnd (for_each_collect transaction_signatures batch) (finish transaction_signatures)) s)
       (get_transaction_signatures source latest exist min_slot)"

lemma keeps_for_each_collect: "(\<And>x. keeps I (f x)) \<Longrightarrow> keeps I (for_each_collect xs f)"
  by (induction xs) (auto intro!: keeps_rules)

lemma run_walk_keeps:
  assumes "run_walk source latest exist m batch finish s = Some (r, t)" and "I s"
    and "\<And>b. keeps I (batch b)" and "\<And>bs vs. keeps I (finish bs vs)"
  shows "I t"
proof -
  obtain w where run: "bnd (lift_res w) (\<lambda>bs. bnd (for_each_collect bs batch) (finish bs)) s = (r, t)"
    using assms(1) by (auto simp: run_walk_def)
  have "keeps I (bnd (lift_res w) (\<lambda>bs. bnd (for_each_collect bs batch) (finish bs)))"
    by (intro keeps_rules keeps_for_each_collect assms(3,4))
  from keepsD [OF this assms(2)] show ?thesis by (simp add: run)
qed

section \<open>An older part of the history\<close>

definition row_entries :: "sol_row list \<Rightarrow> (string \<times> int) set" where
  "row_entries rs = (\<lambda>r. (sr_signature r, sr_slot r)) ` set rs"

definition above :: "int \<Rightarrow> sig_info list \<Rightarrow> (string \<times> int) set" where
  "above base ts = (\<lambda>t. (si_signature t, si_slot t)) ` {t \<in> set ts. base < si_slot t}"

text \<open>The table holds what lies above a slot after some point of the history, and nothing else.\<close>

definition older_part :: "int \<Rightarrow> sig_info list \<Rightarrow> sol_row list \<Rightarrow> bool" where
  "older_part base H rs \<longleftrightarrow> (\<exists>newer older. H = newer @ older \<and> row_entries rs = above base older)"

text \<open>The client tells the slot of a transaction as the history has it.\<close>

definition tells_slots :: "(string \<Rightarrow> sol_tx result) \<Rightarrow> sig_info list \<Rightarrow> bool" where
  "tells_slots get_tx H \<longleftrightarrow> (\<forall>t \<in> set H. \<forall>tx. get_tx (si_signature t) = Inr tx \<longrightarrow> st_slot tx = si_slot t)"

section \<open>A table of processed transactions\<close>

text \<open>
  What the walk relies on: the latest slot and the membership test of a table of processed
  transactions.  \<open>base\<close> is the latest slot of the empty table.
\<close>

locale processed_table =
  fixes rows :: "sol_state \<Rightarrow> sol_row list"
    and latest :: "sol_state \<Rightarrow> int"
    and exist :: "sol_state \<Rightarrow> string \<Rightarrow> bool"
    and base :: int
  assumes exist_iff: "exist s h \<longleftrightarrow> h \<in> sr_signature ` set (rows s)"
    and latest_empty: "rows s = [] \<Longrightarrow> latest s = base"
    and latest_max: "r \<in> set (rows s) \<Longrightarrow> sr_slot r \<le> latest s"
    and latest_in: "rows s \<noteq> [] \<Longrightarrow> latest s \<in> sr_slot ` set (rows s)"
begin

lemma wanted_newer:
  assumes H: "history_ok (newer @ older)" and e: "row_entries (rows s) = above base older"
    and m: "\<forall>t \<in> set (newer @ older). above_min m t \<longleftrightarrow> base < si_slot t"
  shows "wanted (latest s) (exist s) m (newer @ older) = map si_signature (filter (\<lambda>t. base < si_slot t) newer)"
proof -
  let ?known = "known (latest s) (exist s) m"
  have sigs: "exist s h \<longleftrightarrow> h \<in> si_signature ` {t \<in> set older. base < si_slot t}" for h
  proof -
    have "sr_signature ` set (rows s) = fst ` row_entries (rows s)" by (simp add: row_entries_def image_image)
    also have "\<dots> = si_signature ` {t \<in> set older. base < si_slot t}" by (simp add: e above_def image_image)
    finally show ?thesis by (simp add: exist_iff)
  qed
  have slots: "si_slot t \<le> latest s" if "t \<in> set older" "base < si_slot t" for t
  proof -
    have "(si_signature t, si_slot t) \<in> row_entries (rows s)" using that unfolding e above_def by blast
    then show ?thesis using latest_max by (auto simp: row_entries_def)
  qed
  have low: "base \<le> latest s"
  proof (cases "rows s = []")
    case False
    then obtain r where "r \<in> set (rows s)" "sr_slot r = latest s" using latest_in by fastforce
    then have "(sr_signature r, latest s) \<in> above base older" unfolding e [symmetric] row_entries_def by force
    then show ?thesis by (auto simp: above_def)
  qed (simp add: latest_empty)
  have known_older: "\<not> ?known t \<longleftrightarrow> \<not> base < si_slot t" if "t \<in> set older" for t
    using that slots sigs m by (auto simp: known_def)
  have "\<not> ?known t" if "t \<in> set newer" for t
  proof -
    have "si_signature t \<notin> si_signature ` set older"
      using H that by (force simp: history_ok_def)
    then show ?thesis by (auto simp: known_def sigs)
  qed
  then have split: "takeWhile (\<lambda>t. \<not> ?known t) (newer @ older) = newer @ takeWhile (\<lambda>t. \<not> ?known t) older"
    by (simp add: takeWhile_append2)
  have none: "\<not> base < si_slot t" if "t \<in> set (takeWhile (\<lambda>t. \<not> ?known t) older)" for t
    using set_takeWhileD [OF that] known_older by blast
  have "filter (\<lambda>t. latest s < si_slot t \<or> above_min m t) (newer @ takeWhile (\<lambda>t. \<not> ?known t) older) =
      filter (\<lambda>t. base < si_slot t) (newer @ takeWhile (\<lambda>t. \<not> ?known t) older)"
  proof (intro filter_cong refl)
    fix t assume "t \<in> set (newer @ takeWhile (\<lambda>t. \<not> ?known t) older)"
    then have "t \<in> set (newer @ older)" using set_takeWhileD [of t _ older] by (simp only: set_append Un_iff) blast
    then have "above_min m t \<longleftrightarrow> base < si_slot t" using m by blast
    then show "(latest s < si_slot t \<or> above_min m t) = (base < si_slot t)" using low by linarith
  qed
  also have "\<dots> = filter (\<lambda>t. base < si_slot t) newer"
    using none by (simp add: filter_empty_conv)
  finally show ?thesis by (simp add: wanted_def split)
qed

end

section \<open>Processing the batches\<close>

text \<open>A batch is processed in one session: it stores all its transactions or none.\<close>

locale batch_processing = processed_table rows latest exist base
  for rows :: "sol_state \<Rightarrow> sol_row list" and latest exist base +
  fixes batch :: "string list \<Rightarrow> 'b so" and get_tx :: "string \<Rightarrow> sol_tx result"
  assumes batch_stores: "batch b s = (Inr v, t) \<Longrightarrow>
      row_entries (rows t) = row_entries (rows s) \<union> {(h, st_slot tx) |h tx. h \<in> set b \<and> get_tx h = Inr tx}"
    and batch_fetches: "batch b s = (Inr v, t) \<Longrightarrow> h \<in> set b \<Longrightarrow> \<exists>tx. get_tx h = Inr tx"
    and batch_fails: "batch b s = (Inl x, t) \<Longrightarrow> rows t = rows s"
begin

lemma batch_indexed:
  assumes "tells_slots get_tx (newer @ older)" and "row_entries (rows s) = above base older"
    and "b = map si_signature (filter (\<lambda>t. base < si_slot t) n2)" and "newer = n1 @ n2"
    and "batch b s = (Inr v, t)"
  shows "row_entries (rows t) = above base (n2 @ older)"
proof -
  have "row_entries (rows t) = above base older \<union> {(h, st_slot tx) |h tx. h \<in> set b \<and> get_tx h = Inr tx}"
    using batch_stores [OF assms(5)] assms(2) by (simp add: row_entries_def)
  also have "{(h, st_slot tx) |h tx. h \<in> set b \<and> get_tx h = Inr tx} = above base n2"
  proof (rule set_eqI, rule iffI)
    fix p assume "p \<in> {(h, st_slot tx) |h tx. h \<in> set b \<and> get_tx h = Inr tx}"
    then show "p \<in> above base n2" using assms(1,3,4) by (auto simp: tells_slots_def above_def)
  next
    fix p assume "p \<in> above base n2"
    then obtain u where u: "u \<in> set n2" "base < si_slot u" "p = (si_signature u, si_slot u)" by (auto simp: above_def)
    then have b: "si_signature u \<in> set b" using assms(3) by simp
    then obtain tx where tx: "get_tx (si_signature u) = Inr tx" using batch_fetches [OF assms(5)] by blast
    then have "st_slot tx = si_slot u" using assms(1,4) u(1) by (simp add: tells_slots_def)
    then show "p \<in> {(h, st_slot tx) |h tx. h \<in> set b \<and> get_tx h = Inr tx}" using b tx u(3) by force
  qed
  finally show ?thesis by (auto simp: above_def)
qed

lemma filter_split:
  "map f (filter P xs) = a @ b \<Longrightarrow> \<exists>x1 x2. xs = x1 @ x2 \<and> map f (filter P x1) = a \<and> map f (filter P x2) = b"
proof (induction xs arbitrary: a)
  case (Cons x xs)
  show ?case
  proof (cases "P x \<and> a \<noteq> []")
    case True
    then obtain a' where a: "a = f x # a'" using Cons.prems by (cases a) auto
    then obtain x1 x2 where "xs = x1 @ x2" "map f (filter P x1) = a'" "map f (filter P x2) = b"
      using Cons.IH [of a'] Cons.prems True by auto
    then show ?thesis using True a by (intro exI [of _ "x # x1"] exI [of _ x2]) simp
  next
    case False
    show ?thesis
    proof (cases "a = []")
      case True
      then show ?thesis using Cons.prems by (intro exI [of _ "[]"] exI [of _ "x # xs"]) simp
    next
      case a: False
      then have "\<not> P x" using False by simp
      then obtain x1 x2 where "xs = x1 @ x2" "map f (filter P x1) = a" "map f (filter P x2) = b"
        using Cons.IH [of a] Cons.prems by auto
      then show ?thesis using \<open>\<not> P x\<close> by (intro exI [of _ "x # x1"] exI [of _ x2]) simp
    qed
  qed
qed simp

text \<open>However far a run gets, the table holds an older part of the history, and a run over all of
  the newer part that succeeds leaves nothing out.\<close>

lemma run_indexed:
  assumes "tells_slots get_tx H" and "H = newer @ older" and "row_entries (rows s) = above base older"
    and "map si_signature (filter (\<lambda>t. base < si_slot t) newer) = skipped @ concat (rev bs)"
    and "for_each_collect bs batch s = (r, t)"
  shows "older_part base H (rows t) \<and> (\<forall>v. r = Inr v \<longrightarrow> skipped = [] \<longrightarrow> row_entries (rows t) = above base H)"
  using assms(2-5)
proof (induction bs arbitrary: newer older s r)
  case Nil
  then have "skipped = [] \<Longrightarrow> above base newer = {}" by (auto simp: above_def filter_empty_conv)
  then show ?case using Nil by (auto simp: ret_def older_part_def above_def)
next
  case (Cons b bs)
  obtain r1 s1 where b: "batch b s = (r1, s1)" by force
  show ?case
  proof (cases r1)
    case (Inl x)
    then have "row_entries (rows t) = row_entries (rows s)" "r = Inl x"
      using Cons.prems(4) b batch_fails [of b s x s1] by (auto simp: bnd_def row_entries_def)
    then show ?thesis using Cons.prems(1,2) by (auto simp: older_part_def)
  next
    case (Inr v)
    obtain n1 n2 where n: "newer = n1 @ n2" "map si_signature (filter (\<lambda>t. base < si_slot t) n1) = skipped @ concat (rev bs)"
        "map si_signature (filter (\<lambda>t. base < si_slot t) n2) = b"
      using filter_split [of si_signature "\<lambda>t. base < si_slot t" newer "skipped @ concat (rev bs)" b] Cons.prems(3) by auto
    have e: "row_entries (rows s1) = above base (n2 @ older)"
      using assms(1) Cons.prems(1,2) n b [unfolded Inr] by (intro batch_indexed) simp_all
    obtain r2 where rest: "for_each_collect bs batch s1 = (r2, t)" and r: "\<And>x. r2 = Inl x \<Longrightarrow> r = Inl x"
      using Cons.prems(4) b Inr by (auto simp: bnd_def ret_def split: sum.splits prod.splits)
    have "older_part base H (rows t) \<and> (\<forall>v. r2 = Inr v \<longrightarrow> skipped = [] \<longrightarrow> row_entries (rows t) = above base H)"
      using Cons.prems(1) n e rest by (intro Cons.IH [of n1 "n2 @ older" s1 r2]) simp_all
    then show ?thesis using r by (cases r2) auto
  qed
qed

text \<open>What the table lacks, counted.\<close>

lemma lacking_count:
  assumes "history_ok (newer @ older)" and "row_entries (rows s) = above base older"
  shows "card (above base (newer @ older) - row_entries (rows s)) = length (filter (\<lambda>t. base < si_slot t) newer)"
proof -
  let ?f = "\<lambda>t. (si_signature t, si_slot t)" and ?new = "filter (\<lambda>t. base < si_slot t) newer"
  have dist: "distinct (map si_signature (newer @ older))" using assms(1) by (simp add: history_ok_def)
  then have "above base (newer @ older) - above base older = ?f ` set ?new"
    by (fastforce simp: above_def)
  moreover have "inj_on ?f (set ?new)" using dist by (auto simp: inj_on_def distinct_map)
  moreover have "distinct ?new" using dist by (auto simp: distinct_map)
  ultimately show ?thesis by (simp only: assms(2) card_image distinct_card)
qed

text \<open>The walk and the processing together.\<close>

lemma walk_and_run:
  assumes "serves source H" and "history_ok H" and "tells_slots get_tx H" and "older_part base H (rows s)"
    and m: "\<forall>t \<in> set H. above_min m t \<longleftrightarrow> base < si_slot t"
  obtains (failed) x where "get_transaction_signatures source (latest s) (exist s) m = Some (Inl x)"
    | (ran) bs where "get_transaction_signatures source (latest s) (exist s) m = Some (Inr bs)"
      "\<And>r t. for_each_collect bs batch s = (r, t) \<Longrightarrow> older_part base H (rows t) \<and>
        (\<forall>v. r = Inr v \<longrightarrow> card (above base H - row_entries (rows s)) \<le> 99010 \<longrightarrow> row_entries (rows t) = above base H)"
proof -
  obtain newer older where H: "H = newer @ older" and e: "row_entries (rows s) = above base older"
    using assms(4) by (auto simp: older_part_def)
  have w: "wanted (latest s) (exist s) m H = map si_signature (filter (\<lambda>t. base < si_slot t) newer)"
    using wanted_newer [of newer older s m] assms(2) m e unfolding H by blast
  show thesis
    using assms(1,2)
  proof (cases rule: get_transaction_signatures_result [where latest = "latest s" and exist = "exist s" and m = m])
    case (failed x)
    then show thesis by (rule that(1))
  next
    case (batches bs skipped)
    have "older_part base H (rows t) \<and> (\<forall>v. r = Inr v \<longrightarrow> skipped = [] \<longrightarrow> row_entries (rows t) = above base H)"
      if "for_each_collect bs batch s = (r, t)" for r t
      using batches(2) w that by (intro run_indexed [OF assms(3) H e]) simp_all
    moreover have "skipped = []" if "card (above base H - row_entries (rows s)) \<le> 99010"
      using that batches(3) w lacking_count [of newer older s] assms(2) e by (simp add: H few_pages_start)
    ultimately show thesis by (intro that(2) [OF batches(1)]) blast
  qed
qed

lemma run_walk_in_order:
  assumes "serves source H" and "history_ok H" and "tells_slots get_tx H" and "older_part base H (rows s)"
    and m: "\<forall>t \<in> set H. above_min m t \<longleftrightarrow> base < si_slot t"
    and finish: "\<And>bs vs s. rows (snd (finish bs vs s)) = rows s"
  shows "\<exists>r t. run_walk source (latest s) (exist s) m batch finish s = Some (r, t) \<and> older_part base H (rows t) \<and>
    (r = Inr () \<longrightarrow> card (above base H - row_entries (rows s)) \<le> 99010 \<longrightarrow> row_entries (rows t) = above base H)"
  using assms(1-4) m
proof (cases rule: walk_and_run)
  case (failed x)
  then show ?thesis using assms(4) by (simp add: run_walk_def bnd_lift_res)
next
  case (ran bs)
  obtain r t where run: "for_each_collect bs batch s = (r, t)" by force
  note facts = ran(2) [OF run]
  show ?thesis
  proof (cases r)
    case (Inl x)
    then have "run_walk source (latest s) (exist s) m batch finish s = Some (Inl x, t)"
      using ran(1) run by (simp add: run_walk_def bnd_lift_res bnd_def lift_res_def)
    then show ?thesis using facts by simp
  next
    case (Inr vs)
    then have "run_walk source (latest s) (exist s) m batch finish s = Some (finish bs vs t)"
      using ran(1) run by (simp add: run_walk_def bnd_lift_res bnd_def lift_res_def)
    then show ?thesis using facts Inr finish [of bs vs t] by (cases "finish bs vs t") simp
  qed
qed

end

end
