(* ===== verification/User_Bank.thy ===== *)
theory User_Bank
  imports Sol_State
begin

text \<open>
  tasks/index_user_bank.py: the transactions of the claimable token program create user banks and
  move tokens between them; a transfer between two banks is a tip, one out of a bank is a sent
  transfer.
\<close>

section \<open>Tables\<close>

definition get_highest_user_bank_tx_slot :: "int \<Rightarrow> sol_state \<Rightarrow> int" where
  "get_highest_user_bank_tx_slot min_slot s =
     (if so_bank_txs s = [] then min_slot else Max (sr_slot ` set (so_bank_txs s)))"

definition get_tx_in_db :: "sol_state \<Rightarrow> string \<Rightarrow> bool" where
  "get_tx_in_db s tx_sig \<longleftrightarrow> length (filter (\<lambda>r. sr_signature r = tx_sig) (so_bank_txs s)) > 0"

text \<open>The join of the current users with the given accounts; \<open>User.user_id\<close> is never null.\<close>

definition users_of_accounts :: "sol_state \<Rightarrow> string list \<Rightarrow> (int \<times> string) list" where
  "users_of_accounts s accts =
     concat (map (\<lambda>u. map (\<lambda>a. (as_int (attr u ''user_id''), ba_bank_account a))
       (filter (\<lambda>a. ba_bank_account a \<in> set accts \<and> attr u ''wallet'' = PStr (ba_ethereum_address a)) (so_accounts s)))
       (filter is_current_row (so_users s)))"

definition refresh_user_balances :: "string list \<Rightarrow> (int \<times> string) list so" where
  "refresh_user_balances accts =
     bnd (gets (\<lambda>s. users_of_accounts s accts)) (\<lambda>results.
     sq (enqueue_immediate_balance_refresh (map fst results)) (ret results))"

section \<open>Transfers\<close>

definition TRANSFER_SENDER_ACCOUNT_INDEX :: int where "TRANSFER_SENDER_ACCOUNT_INDEX = 1"

definition TRANSFER_RECEIVER_ACCOUNT_INDEX :: int where "TRANSFER_RECEIVER_ACCOUNT_INDEX = 2"

text \<open>The loop over the results; the last row of an account counts.\<close>

definition sender_and_receiver :: "string \<Rightarrow> string \<Rightarrow> (int \<times> string) list \<Rightarrow> int option \<times> int option" where
  "sender_and_receiver sender_account receiver_account results =
     fold (\<lambda>(user_id, account) (snd, rcv).
       if account = sender_account then (Some user_id, rcv)
       else if account = receiver_account then (snd, Some user_id) else (snd, rcv)) results (None, None)"

definition audio_row ::
    "string \<Rightarrow> int \<Rightarrow> string \<Rightarrow> transaction_type \<Rightarrow> transaction_method \<Rightarrow> int \<Rightarrow> int \<Rightarrow> int \<Rightarrow> string option \<Rightarrow> audio_tx" where
  "audio_row bank slot sig ty method time change balance metadata =
     \<lparr>at_user_bank = bank, at_slot = slot, at_signature = sig, at_transaction_type = ty, at_method = method,
      at_created_at = time, at_change = change, at_balance = balance, at_metadata = metadata\<rparr>"

definition add_history :: "audio_tx list \<Rightarrow> unit so" where
  "add_history rows = modify (\<lambda>s. s\<lparr>so_history := so_history s @ rows\<rparr>)"

definition dispatch_tip :: "int \<Rightarrow> int \<Rightarrow> unit so" where
  "dispatch_tip slot user_id =
     modify (\<lambda>s. s\<lparr>so_bus := dispatch (PStr send_tip) (PInt slot) (PInt user_id) PNone (so_bus s)\<rparr>)"

text \<open>The balances of a missing account are \<open>-1\<close>, never \<open>None\<close>, so the check for a missing
  balance never applies.\<close>

definition process_transfer_instruction ::
    "sol_instruction \<Rightarrow> string list \<Rightarrow> sol_meta \<Rightarrow> string \<Rightarrow> int \<Rightarrow> int \<Rightarrow> unit so" where
  "process_transfer_instruction instruction account_keys meta tx_sig slot timestamp =
     bnd (lift_res (get_account_index instruction TRANSFER_SENDER_ACCOUNT_INDEX)) (\<lambda>sender_idx.
     bnd (lift_res (get_account_index instruction TRANSFER_RECEIVER_ACCOUNT_INDEX)) (\<lambda>receiver_idx.
     bnd (lift_res (py_index account_keys sender_idx)) (\<lambda>sender_account.
     bnd (lift_res (py_index account_keys receiver_idx)) (\<lambda>receiver_account.
     bnd (refresh_user_balances [sender_account, receiver_account]) (\<lambda>user_id_accounts.
     if user_id_accounts = [] then ret ()
     else
       case sender_and_receiver sender_account receiver_account user_id_accounts of
         (None, receiver_user_id) \<Rightarrow> ret ()
       | (Some sender_user_id, receiver_user_id) \<Rightarrow>
           let (pre_sender, post_sender) = get_solana_tx_token_balances meta sender_idx;
               (pre_receiver, post_receiver) = get_solana_tx_token_balances meta receiver_idx;
               sent_amount = pre_sender - post_sender; received_amount = post_receiver - pre_receiver
           in if sent_amount \<noteq> received_amount then ret ()
              else if length user_id_accounts = 1
              then add_history [audio_row sender_account slot tx_sig Transfer Send timestamp sent_amount
                     post_sender (Some receiver_account)]
              else if length user_id_accounts = 2
              then (case receiver_user_id of
                  None \<Rightarrow> ret ()
                | Some receiver_id \<Rightarrow>
                    sq (modify (\<lambda>s. s\<lparr>so_tips := so_tips s @
                        [\<lparr>ut_slot = slot, ut_signature = tx_sig, ut_sender_user_id = sender_user_id,
                          ut_receiver_user_id = receiver_id, ut_amount = sent_amount, ut_created_at = timestamp\<rparr>]\<rparr>)) (
                    sq (dispatch_tip slot sender_user_id) (
                    add_history
                      [audio_row sender_account slot tx_sig Tip Send timestamp sent_amount post_sender (Some (show_int receiver_id)),
                       audio_row receiver_account slot tx_sig Tip Receive timestamp received_amount post_receiver
                         (Some (show_int sender_user_id))])))
              else ret ())))))"

section \<open>Transactions\<close>

definition create_token_account_instr :: instruction_format where
  "create_token_account_instr = [(''eth_address'', EthereumAddress)]"

definition parse_create_token_data :: "sol_env \<Rightarrow> string \<Rightarrow> (string, param) odict result" where
  "parse_create_token_data E data = parse_instruction_data (se_b58decode E) data create_token_account_instr"

text \<open>A bank account at position 0 of the keys is not stored: its index is taken for false.\<close>

definition process_create_token :: "sol_env \<Rightarrow> sol_instruction \<Rightarrow> string list \<Rightarrow> string \<Rightarrow> int \<Rightarrow> unit so" where
  "process_create_token E instruction account_keys tx_sig timestamp =
     bnd (lift_res (parse_create_token_data E (in_data instruction))) (\<lambda>parsed_token_data.
     bnd (lift_res (case od_get parsed_token_data ''eth_address'' of Some (Text a) \<Rightarrow> Inr a | _ \<Rightarrow> Inl KeyError)) (\<lambda>eth_addr.
     bnd (lift_res (se_b58decode E (in_data instruction))) (\<lambda>bytes.
     let bank_acct = se_derive E (take 20 (drop 1 bytes))
     in case list_index bank_acct account_keys of
          Inl e \<Rightarrow> ret ()
        | Inr bank_acct_index \<Rightarrow>
            run_when (bank_acct_index \<noteq> 0) (modify (\<lambda>s. s\<lparr>so_accounts := so_accounts s @
              [\<lparr>ba_signature = tx_sig, ba_ethereum_address = eth_addr, ba_bank_account = bank_acct,
                ba_created_at = timestamp\<rparr>]\<rparr>)))))"

definition process_user_bank_tx_details :: "sol_env \<Rightarrow> sol_tx \<Rightarrow> string \<Rightarrow> int \<Rightarrow> unit so" where
  "process_user_bank_tx_details E tx tx_sig timestamp =
     (let meta = st_meta tx; account_keys = ms_account_keys (st_message tx);
          has_create_token_instruction = has_log meta ''Program log: Instruction: CreateTokenAccount'';
          has_transfer_instruction = has_log meta ''Program log: Instruction: Transfer''
      in if mt_err meta then ret ()
         else if \<not> has_create_token_instruction \<and> \<not> has_transfer_instruction then ret ()
         else bnd (lift_res (get_valid_instruction (st_message tx) (se_program E))) (\<lambda>instr.
           case instr of
             None \<Rightarrow> ret ()
           | Some instruction \<Rightarrow>
               if has_create_token_instruction
               then process_create_token E instruction account_keys tx_sig timestamp
               else process_transfer_instruction instruction account_keys meta tx_sig (st_slot tx) timestamp))"

definition parse_user_bank_transaction :: "sol_env \<Rightarrow> string \<Rightarrow> (sol_tx \<times> string) so" where
  "parse_user_bank_transaction E tx_sig =
     bnd (lift_res (se_tx E tx_sig)) (\<lambda>tx.
     sq (process_user_bank_tx_details E tx tx_sig (st_block_time tx)) (
     sq (modify (\<lambda>s. s\<lparr>so_bank_txs := so_bank_txs s @
           [\<lparr>sr_signature = tx_sig, sr_slot = st_slot tx, sr_created_at = st_block_time tx\<rparr>]\<rparr>))
       (ret (tx, tx_sig))))"

section \<open>The task\<close>

text \<open>The threads of a batch share a session; \<open>se_rank\<close> is the order in which they finish.\<close>

definition process_user_bank_batch :: "sol_env \<Rightarrow> string list \<Rightarrow> (sol_tx \<times> string) list so" where
  "process_user_bank_batch E tx_sig_batch =
     sol_session (for_each_collect (sort_key (se_rank E) tx_sig_batch) (parse_user_bank_transaction E))"

definition newest_signature :: "string list list \<Rightarrow> string option" where
  "newest_signature batches =
     (if batches \<noteq> [] \<and> last batches \<noteq> [] then Some (hd (last batches)) else None)"

definition last_processed :: "string option \<Rightarrow> (sol_tx \<times> string) list list \<Rightarrow> cached_tx option" where
  "last_processed last_tx_sig done_batches =
     fold (\<lambda>(tx, sig) acc. if last_tx_sig = Some sig \<and> sig \<noteq> []
       then Some \<lparr>cx_signature = sig, cx_slot = st_slot tx, cx_timestamp = st_block_time tx\<rparr> else acc)
       (concat done_batches) None"

definition user_bank_slot_key :: string where "user_bank_slot_key = ''latest_sol_slot:user_bank''"
definition user_bank_db_key :: string where "user_bank_db_key = ''latest_sol_program_tx:user_bank:db''"
definition user_bank_program_key :: string where "user_bank_program_key = ''latest_sol_program_tx:user_bank:chain''"

text \<open>A slot that could not be fetched leaves the variable unbound.\<close>

definition finish_run :: "sol_env \<Rightarrow> string \<Rightarrow> string \<Rightarrow> cached_tx option \<Rightarrow> unit so" where
  "finish_run E db_key slot_key last_tx =
     (case last_tx of
        Some tx \<Rightarrow>
          sq (cache_latest_sol_db_tx db_key tx)
            (modify (\<lambda>s. s\<lparr>so_slots := (so_slots s)(slot_key \<mapsto> cx_slot tx)\<rparr>))
      | None \<Rightarrow> (case se_slot E of
            Inl x \<Rightarrow> raise (Raised ''UnboundLocalError'')
          | Inr None \<Rightarrow> ret ()
          | Inr (Some n) \<Rightarrow> modify (\<lambda>s. s\<lparr>so_slots := (so_slots s)(slot_key \<mapsto> n)\<rparr>)))"

text \<open>Without the addresses of the program and of the token in the configuration nothing is done.\<close>

definition process_user_bank_txs :: "sol_env \<Rightarrow> sol_state \<Rightarrow> (unit result \<times> sol_state) option" where
  "process_user_bank_txs E s =
     (if se_mint E = [] \<or> se_program E = [] then Some (Inr (), s)
      else run_walk (se_source E) (get_highest_user_bank_tx_slot (se_min_slot E) s) (get_tx_in_db s) (Some (se_min_slot E))
        (process_user_bank_batch E) (\<lambda>sigs done_batches.
          finish_run E user_bank_db_key user_bank_slot_key (last_processed (newest_signature sigs) done_batches)) s)"

definition index_user_bank :: "sol_env \<Rightarrow> sol_state \<Rightarrow> (unit result \<times> sol_state) option" where
  "index_user_bank E s =
     (case fetch_and_cache_latest_program_tx_redis E user_bank_program_key s of
        (Inl x, t) \<Rightarrow> Some (Inl x, t)
      | (Inr u, t) \<Rightarrow>
          if se_have_lock E
          then map_option (\<lambda>(r, t'). scoped_queue E (\<lambda>_. (r, t')) t) (process_user_bank_txs E t)
          else Some (Inr (), t))"

section \<open>The table of processed transactions\<close>

definition bank_txs_are :: "sol_row list \<Rightarrow> sol_state \<Rightarrow> bool" where
  "bank_txs_are R s \<longleftrightarrow> so_bank_txs s = R"

lemma keeps_bank_txs [keeps_rules]:
  "keeps (bank_txs_are R) (enqueue_immediate_balance_refresh ids)"
  "keeps (bank_txs_are R) (refresh_user_balances accts)"
  "keeps (bank_txs_are R) (add_history rows)"
  "keeps (bank_txs_are R) (dispatch_tip slot user_id)"
  unfolding enqueue_immediate_balance_refresh_def refresh_user_balances_def add_history_def dispatch_tip_def
  by (intro keeps_rules keeps_modify; simp add: bank_txs_are_def)+

lemma keeps_bank_txs_details: "keeps (bank_txs_are R) (process_user_bank_tx_details E tx sig time)"
  unfolding process_user_bank_tx_details_def process_create_token_def process_transfer_instruction_def Let_def
  by (auto split: option.split sum.split prod.split intro!: keeps_rules keeps_modify simp: bank_txs_are_def)

lemma parse_user_bank_rows:
  assumes "parse_user_bank_transaction E sig s = (Inr v, t)"
  obtains tx where "se_tx E sig = Inr tx" "v = (tx, sig)"
    "so_bank_txs t = so_bank_txs s @ [\<lparr>sr_signature = sig, sr_slot = st_slot tx, sr_created_at = st_block_time tx\<rparr>]"
proof -
  obtain tx u s1 where tx: "se_tx E sig = Inr tx" and d: "process_user_bank_tx_details E tx sig (st_block_time tx) s = (Inr u, s1)"
    and t: "v = (tx, sig)" "t = s1\<lparr>so_bank_txs := so_bank_txs s1 @
      [\<lparr>sr_signature = sig, sr_slot = st_slot tx, sr_created_at = st_block_time tx\<rparr>]\<rparr>"
    using assms by (auto simp: parse_user_bank_transaction_def bnd_Inr sq_Inr run_Inr modify_def)
  have "so_bank_txs s1 = so_bank_txs s"
    using keepsD [OF keeps_bank_txs_details [of "so_bank_txs s" E tx sig "st_block_time tx"], of s] d
    by (simp add: bank_txs_are_def)
  then show thesis using tx t by (intro that) simp_all
qed

lemma parse_user_bank_batch_rows:
  assumes "for_each_collect sigs (parse_user_bank_transaction E) s = (Inr v, t)"
  shows "(\<forall>h \<in> set sigs. \<exists>tx. se_tx E h = Inr tx) \<and>
    row_entries (so_bank_txs t) =
    row_entries (so_bank_txs s) \<union> {(h, st_slot tx) |h tx. h \<in> set sigs \<and> se_tx E h = Inr tx}"
  using assms
proof (induction sigs arbitrary: s v)
  case (Cons sig sigs)
  obtain w s1 ws where w: "parse_user_bank_transaction E sig s = (Inr w, s1)"
      and ws: "for_each_collect sigs (parse_user_bank_transaction E) s1 = (Inr ws, t)"
    using Cons.prems by (auto simp: bnd_Inr run_Inr)
  obtain tx where tx: "se_tx E sig = Inr tx"
      "so_bank_txs s1 = so_bank_txs s @ [\<lparr>sr_signature = sig, sr_slot = st_slot tx, sr_created_at = st_block_time tx\<rparr>]"
    using w by (rule parse_user_bank_rows)
  show ?case using Cons.IH [OF ws] tx by (auto simp: row_entries_def)
qed (simp add: ret_def)

interpretation bank_table: processed_table so_bank_txs "get_highest_user_bank_tx_slot m" get_tx_in_db m for m
proof
  show "get_tx_in_db s h \<longleftrightarrow> h \<in> sr_signature ` set (so_bank_txs s)" for s h
    by (auto simp: get_tx_in_db_def filter_empty_conv)
  show "so_bank_txs s = [] \<Longrightarrow> get_highest_user_bank_tx_slot m s = m" for s
    by (simp add: get_highest_user_bank_tx_slot_def)
  show "r \<in> set (so_bank_txs s) \<Longrightarrow> sr_slot r \<le> get_highest_user_bank_tx_slot m s" for r s
    by (auto simp: get_highest_user_bank_tx_slot_def)
  show "so_bank_txs s \<noteq> [] \<Longrightarrow> get_highest_user_bank_tx_slot m s \<in> sr_slot ` set (so_bank_txs s)" for s
    using Max_in [of "sr_slot ` set (so_bank_txs s)"] by (simp add: get_highest_user_bank_tx_slot_def)
qed

interpretation bank_run: batch_processing so_bank_txs "get_highest_user_bank_tx_slot m" get_tx_in_db m
  "process_user_bank_batch E" "se_tx E" for m E
proof
  fix b v s t h x
  show "row_entries (so_bank_txs t) =
      row_entries (so_bank_txs s) \<union> {(h, st_slot tx) |h tx. h \<in> set b \<and> se_tx E h = Inr tx}"
    if "process_user_bank_batch E b s = (Inr v, t)"
    using that parse_user_bank_batch_rows [of "sort_key (se_rank E) b" E s v t]
    by (auto simp: process_user_bank_batch_def sol_session_def split: sum.splits prod.splits if_splits)
  show "\<exists>tx. se_tx E h = Inr tx" if "process_user_bank_batch E b s = (Inr v, t)" "h \<in> set b"
    using that parse_user_bank_batch_rows [of "sort_key (se_rank E) b" E s v t]
    by (auto simp: process_user_bank_batch_def sol_session_def split: sum.splits prod.splits if_splits)
  show "so_bank_txs t = so_bank_txs s" if "process_user_bank_batch E b s = (Inl x, t)"
    using that by (auto simp: process_user_bank_batch_def sol_session_def roll_back_sol_def split: sum.splits prod.splits if_splits)
qed

lemma finish_run_rows: "so_bank_txs (snd (finish_run E k k' a s)) = so_bank_txs s"
  by (auto simp: finish_run_def cache_latest_sol_db_tx_def py_simps split: option.split sum.split)

end
