(* ===== verification/Sol_Properties.thy ===== *)
theory Sol_Properties
  imports User_Bank EM_Samples
begin

text \<open>
  What the Solana indexers guarantee: instruction data is read as it was written, every
  transaction of a program is processed once and in order of age, whatever fails; and where a
  transfer is recorded that moved nothing.
\<close>

section \<open>Instruction data\<close>

text \<open>C37: The parser of instruction data inverts the layout the programs write: numbers, strings and
  addresses of any format with different names come back as they were sent, an address in its
  hexadecimal form.\<close>

theorem parse_instruction_roundtrip:
  assumes "b58decode data = Inr (tag # encode_params vs)" and "map snd fmt = map fst vs"
    and "distinct (map fst fmt)" and "\<forall>(ty, v) \<in> set vs. fits ty v"
  shows "parse_instruction_data b58decode data fmt =
    Inr (zip (map fst fmt) (map (\<lambda>(ty, v). shown_param ty v) vs))"
  using parse_encoded_params [of "[]" fmt vs "[]"] assms
  by (simp add: parse_instruction_data_def bind_res_def od_keys_def)

definition sample_params :: "(instruction_type \<times> param) list" where
  "sample_params = [(u64, Num 1000), (String_type, Text ''u:7''), (EthereumAddress, Num 255)]"

lemma parse_instruction_roundtrip_witness:
  "parse_instruction_data (\<lambda>s. Inr (4 # encode_params sample_params)) ''data''
     [(''amount'', u64), (''id'', String_type), (''eth_recipient'', EthereumAddress)] =
   Inr [(''amount'', Num 1000), (''id'', Text ''u:7''),
     (''eth_recipient'', Text ''0x00000000000000000000000000000000000000ff'')]"
proof -
  let ?fmt = "[(''amount'', u64), (''id'', String_type), (''eth_recipient'', EthereumAddress)]"
  have "parse_instruction_data (\<lambda>s. Inr (4 # encode_params sample_params)) ''data'' ?fmt =
      Inr (zip (map fst ?fmt) (map (\<lambda>(ty, v). shown_param ty v) sample_params))"
    by (rule parse_instruction_roundtrip)
      (simp_all add: sample_params_def fits_def utf8_encode_def utf8_char_def code_point_def Let_def)
  moreover have "map (\<lambda>(ty, v). shown_param ty v) sample_params =
      [Num 1000, Text ''u:7'', Text ''0x00000000000000000000000000000000000000ff'']"
    by code_simp
  ultimately show ?thesis by simp
qed

section \<open>User banks\<close>

lemma scoped_queue_rows: "so_bank_txs (snd (scoped_queue E m s)) = so_bank_txs (snd (m s))"
  by (simp add: scoped_queue_def split: prod.splits)

lemma latest_program_rows:
  "fetch_and_cache_latest_program_tx_redis E key s = (r, t) \<Longrightarrow> so_bank_txs t = so_bank_txs s"
  by (auto simp: fetch_and_cache_latest_program_tx_redis_def cache_latest_sol_db_tx_def py_simps
      split: sum.splits list.splits)

lemma above_min_slot: "above_min (Some m) t \<longleftrightarrow> m < si_slot t"
  by (simp add: above_min_def)

lemma index_user_bank_run:
  assumes "serves (se_source E) H" and "history_ok H" and "tells_slots (se_tx E) H"
    and "older_part (se_min_slot E) H (so_bank_txs s)"
  shows "\<exists>r t. index_user_bank E s = Some (r, t) \<and> older_part (se_min_slot E) H (so_bank_txs t) \<and>
    (r = Inr () \<longrightarrow> se_have_lock E \<longrightarrow> se_mint E \<noteq> [] \<and> se_program E \<noteq> [] \<longrightarrow>
      card (above (se_min_slot E) H - row_entries (so_bank_txs s)) \<le> 99010 \<longrightarrow>
      row_entries (so_bank_txs t) = above (se_min_slot E) H)"
proof -
  obtain r0 s1 where first: "fetch_and_cache_latest_program_tx_redis E user_bank_program_key s = (r0, s1)" by force
  have rows: "so_bank_txs s1 = so_bank_txs s" using latest_program_rows [OF first] .
  have "\<exists>r t. process_user_bank_txs E s1 = Some (r, t) \<and> older_part (se_min_slot E) H (so_bank_txs t) \<and>
      (r = Inr () \<longrightarrow> se_mint E \<noteq> [] \<and> se_program E \<noteq> [] \<longrightarrow>
        card (above (se_min_slot E) H - row_entries (so_bank_txs s)) \<le> 99010 \<longrightarrow> row_entries (so_bank_txs t) = above (se_min_slot E) H)"
  proof (cases "se_mint E = [] \<or> se_program E = []")
    case True
    then show ?thesis using assms(4) rows by (auto simp: process_user_bank_txs_def)
  next
    case False
    then have "process_user_bank_txs E s1 =
      run_walk (se_source E) (get_highest_user_bank_tx_slot (se_min_slot E) s1) (get_tx_in_db s1) (Some (se_min_slot E))
        (process_user_bank_batch E) (\<lambda>sigs done_batches.
          finish_run E user_bank_db_key user_bank_slot_key (last_processed (newest_signature sigs) done_batches)) s1"
      by (simp add: process_user_bank_txs_def)
    moreover note bank_run.run_walk_in_order [OF assms(1-3), of "se_min_slot E" s1 "Some (se_min_slot E)"
      "\<lambda>sigs done_batches. finish_run E user_bank_db_key user_bank_slot_key (last_processed (newest_signature sigs) done_batches)"]
    ultimately show ?thesis using assms(4) False by (auto simp: above_min_slot finish_run_rows rows)
  qed
  then obtain r t where run: "process_user_bank_txs E s1 = Some (r, t)" "older_part (se_min_slot E) H (so_bank_txs t)"
      "r = Inr () \<Longrightarrow> se_mint E \<noteq> [] \<and> se_program E \<noteq> [] \<Longrightarrow>
        card (above (se_min_slot E) H - row_entries (so_bank_txs s)) \<le> 99010 \<Longrightarrow> row_entries (so_bank_txs t) = above (se_min_slot E) H"
    by blast
  obtain r' t' where q: "scoped_queue E (\<lambda>_. (r, t)) s1 = (r', t')" by force
  then have "r' = r" "so_bank_txs t' = so_bank_txs t" by (auto simp: scoped_queue_def split: prod.splits)
  then show ?thesis
    using first assms(4) rows run q by (cases r0; cases "se_have_lock E") (auto simp: index_user_bank_def)
qed

text \<open>C12: A run of the user bank indexer always returns, and the table of processed transactions stays an
  older part of the program's history: whichever request or batch fails, no transaction is
  recorded while an older one above the minimum slot is missing.\<close>

theorem user_bank_in_order:
  assumes "serves (se_source E) H" and "history_ok H" and "tells_slots (se_tx E) H"
    and "older_part (se_min_slot E) H (so_bank_txs s)"
  shows "\<exists>r t. index_user_bank E s = Some (r, t) \<and> older_part (se_min_slot E) H (so_bank_txs t)"
  using index_user_bank_run [OF assms] by blast

text \<open>C13: A run that succeeds is complete: if the program is configured and at most 99010 transactions of it
  above the minimum slot are not recorded yet, a hundred pages of them, then those it leaves recorded
  are exactly all of them, each with its slot, however long the history of the program is.  It starts
  from a table of an older part of the history, which is what every run leaves behind.\<close>

theorem user_bank_complete:
  assumes "serves (se_source E) H" and "history_ok H" and "tells_slots (se_tx E) H"
    and "older_part (se_min_slot E) H (so_bank_txs s)" and "se_have_lock E" and "se_mint E \<noteq> []" and "se_program E \<noteq> []"
    and "card ((\<lambda>u. (si_signature u, si_slot u)) ` {u \<in> set H. se_min_slot E < si_slot u} - row_entries (so_bank_txs s)) \<le> 99010"
    and "index_user_bank E s = Some (Inr (), t)"
  shows "row_entries (so_bank_txs t) = (\<lambda>u. (si_signature u, si_slot u)) ` {u \<in> set H. se_min_slot E < si_slot u}"
  using index_user_bank_run [OF assms(1-4)] assms(5-9) by (auto simp: above_def)

text \<open>A transfer between two user banks whose token balances are missing from the metadata is
  recorded as a tip of nothing, and rewarded: the missing balances read \<open>-1\<close> before and after,
  which the check for \<open>None\<close> does not see.\<close>

theorem tip_without_balances:
  assumes "get_account_index instr 1 = Inr i" and "get_account_index instr 2 = Inr j"
    and "py_index keys i = Inr a" and "py_index keys j = Inr b" and "a \<noteq> b"
    and "users_of_accounts s [a, b] = [(u, a), (v, b)]"
    and "balance_at (mt_pre meta) i = None" and "balance_at (mt_pre meta) j = None"
  shows "\<exists>t. process_transfer_instruction instr keys meta sig slot time s = (Inr (), t) \<and>
    so_tips t = so_tips s @ [\<lparr>ut_slot = slot, ut_signature = sig, ut_sender_user_id = u,
      ut_receiver_user_id = v, ut_amount = 0, ut_created_at = time\<rparr>] \<and>
    so_bus t = so_bus s @ [\<lparr>ie_event = send_tip, ie_block_number = slot, ie_user_id = u, ie_extra = []\<rparr>]"
  using assms
  by (simp add: process_transfer_instruction_def TRANSFER_SENDER_ACCOUNT_INDEX_def
      TRANSFER_RECEIVER_ACCOUNT_INDEX_def bnd_lift_res refresh_user_balances_def
      enqueue_immediate_balance_refresh_def sender_and_receiver_def get_solana_tx_token_balances_def
      add_history_def dispatch_tip_def py_simps)

section \<open>A sample\<close>

definition sample_history :: "sig_info list" where
  "sample_history = [\<lparr>si_signature = ''tip'', si_slot = 12, si_block_time = 1200\<rparr>,
     \<lparr>si_signature = ''new'', si_slot = 11, si_block_time = 1100\<rparr>,
     \<lparr>si_signature = ''old'', si_slot = 3, si_block_time = 300\<rparr>]"

text \<open>The tip moves 40 from the bank \<open>A\<close> to the bank \<open>B\<close>, and the transaction before created \<open>B\<close>.\<close>

definition sample_sol_tx :: "string \<Rightarrow> sol_tx result" where
  "sample_sol_tx sig = Inr
     (if sig = ''tip'' then \<lparr>st_slot = 12, st_block_time = 1200,
        st_meta = \<lparr>mt_err = False, mt_logs = [''Program log: Instruction: Transfer''],
          mt_pre = [\<lparr>tb_account_index = 1, tb_owner = ''o'', tb_amount = 100\<rparr>, \<lparr>tb_account_index = 2, tb_owner = ''o'', tb_amount = 0\<rparr>],
          mt_post = [\<lparr>tb_account_index = 1, tb_owner = ''o'', tb_amount = 60\<rparr>, \<lparr>tb_account_index = 2, tb_owner = ''o'', tb_amount = 40\<rparr>]\<rparr>,
        st_message = \<lparr>ms_account_keys = [''fee'', ''A'', ''B'', ''bank''],
          ms_instructions = [\<lparr>in_accounts = [0, 1, 2], in_data = ''t'', in_program_index = 3\<rparr>]\<rparr>\<rparr>
      else \<lparr>st_slot = (if sig = ''new'' then 11 else 3), st_block_time = 1100,
        st_meta = \<lparr>mt_err = False, mt_logs = [''Program log: Instruction: CreateTokenAccount''], mt_pre = [], mt_post = []\<rparr>,
        st_message = \<lparr>ms_account_keys = [''fee'', ''B'', ''bank''],
          ms_instructions = [\<lparr>in_accounts = [0, 1], in_data = ''c'', in_program_index = 2\<rparr>]\<rparr>\<rparr>)"

definition sample_sol_env :: sol_env where
  "sample_sol_env = \<lparr>se_source = (\<lambda>b k. Inr (page_of sample_history b k)), se_tx = sample_sol_tx, se_slot = Inr (Some 13),
     se_b58decode = (\<lambda>s. Inr (0 # replicate 19 0 @ [2])), se_derive = (\<lambda>bs. ''B''), se_rank = (\<lambda>h. if h = ''new'' then 0 else 1),
     se_accepts = (\<lambda>q. True), se_program = ''bank'', se_mint = ''mint'', se_account = ''rewards'', se_valid_program = True, se_min_slot = 10, se_have_lock = True\<rparr>"

definition bank_user :: "int \<Rightarrow> string \<Rightarrow> inst" where
  "bank_user n w = row_of ''User'' [(''user_id'', PInt n), (''is_current'', PBool True), (''wallet'', PStr w)]"

definition sample_sol_state :: sol_state where
  "sample_sol_state = \<lparr>so_users = [bank_user 1 ''0xa'', bank_user 2 ''0x0000000000000000000000000000000000000002''],
     so_wallets = [], so_challenges = [], so_user_challenges = [],
     so_accounts = [\<lparr>ba_signature = ''a'', ba_ethereum_address = ''0xa'', ba_bank_account = ''A'', ba_created_at = 0\<rparr>],
     so_bank_txs = [], so_reward_txs = [], so_tips = [], so_history = [], so_disbursements = [], so_spl = [],
     so_bus = [], so_queue = [], so_refresh = [], so_latest = (\<lambda>k. None), so_slots = (\<lambda>k. None), so_seen = [],
     so_challenge_types = []\<rparr>"

lemma sample_sol_run:
  "map_option (\<lambda>(r, t). (r, map sr_signature (so_bank_txs t), map ba_bank_account (so_accounts t),
      map (\<lambda>u. (ut_sender_user_id u, ut_receiver_user_id u, ut_amount u)) (so_tips t), length (so_history t),
      length (so_queue t), so_refresh t, so_slots t user_bank_slot_key))
     (index_user_bank sample_sol_env sample_sol_state) =
   Some (Inr (), [''new'', ''tip''], [''A'', ''B''], [(1, 2, 40)], 2, 1, [2, 1], Some 12)"
  by code_simp

text \<open>When the threads finish in the other order the bank of the receiver is not there yet, and the tip
  is recorded as a transfer to somebody outside.\<close>

lemma sample_sol_run_swapped:
  "map_option (\<lambda>(r, t). (r, length (so_tips t), map (\<lambda>a. (at_transaction_type a, at_method a)) (so_history t)))
     (index_user_bank (sample_sol_env\<lparr>se_rank := length\<rparr>) sample_sol_state) =
   Some (Inr (), 0, [(Transfer, Send)])"
  by code_simp

lemma sample_serves: "serves (se_source sample_sol_env) sample_history" "history_ok sample_history"
  by (simp_all add: serves_def sample_sol_env_def history_ok_def sample_history_def)

lemma sample_agrees_txs: "tells_slots (se_tx sample_sol_env) sample_history"
  by (auto simp: tells_slots_def sample_history_def sample_sol_env_def sample_sol_tx_def)

lemma sample_indexed: "older_part (se_min_slot sample_sol_env) sample_history (so_bank_txs sample_sol_state)"
  unfolding older_part_def
  by (intro exI [of _ sample_history] exI [of _ "[]"])
    (simp add: row_entries_def above_def sample_sol_state_def)

lemma user_bank_in_order_witness:
  "\<exists>r t. index_user_bank sample_sol_env sample_sol_state = Some (r, t) \<and>
     older_part (se_min_slot sample_sol_env) sample_history (so_bank_txs t)"
  by (intro user_bank_in_order sample_serves sample_agrees_txs sample_indexed)

lemma user_bank_complete_witness:
  "\<exists>t. index_user_bank sample_sol_env sample_sol_state = Some (Inr (), t) \<and>
     row_entries (so_bank_txs t) = {(''tip'', 12), (''new'', 11)}"
proof -
  obtain t where t: "index_user_bank sample_sol_env sample_sol_state = Some (Inr (), t)"
    using sample_sol_run by (auto simp: case_prod_beta)
  have "row_entries (so_bank_txs t) =
      (\<lambda>u. (si_signature u, si_slot u)) ` {u \<in> set sample_history. se_min_slot sample_sol_env < si_slot u}"
  proof (rule user_bank_complete [OF sample_serves sample_agrees_txs sample_indexed _ _ _ _ t])
    let ?f = "\<lambda>u. (si_signature u, si_slot u)"
    let ?lacking = "?f ` {u \<in> set sample_history. se_min_slot sample_sol_env < si_slot u} - row_entries (so_bank_txs sample_sol_state)"
    have "card ?lacking \<le> card (?f ` set sample_history)" by (rule card_mono) auto
    also have "\<dots> \<le> length sample_history" by (metis card_length set_map length_map)
    finally show "card ?lacking \<le> 99010" by (simp add: sample_history_def)
  qed (simp_all add: sample_sol_env_def)
  also have "{u \<in> set sample_history. se_min_slot sample_sol_env < si_slot u} = set (take 2 sample_history)"
    by (auto simp: sample_history_def sample_sol_env_def)
  finally show ?thesis using t by (auto simp: sample_history_def)
qed

definition two_banks :: sol_state where
  "two_banks = sample_sol_state\<lparr>so_accounts := so_accounts sample_sol_state @
     [\<lparr>ba_signature = ''b'', ba_ethereum_address = ''0x0000000000000000000000000000000000000002'',
       ba_bank_account = ''B'', ba_created_at = 0\<rparr>]\<rparr>"

lemma tip_without_balances_witness:
  "\<exists>t. process_transfer_instruction \<lparr>in_accounts = [0, 1, 2], in_data = ''t'', in_program_index = 3\<rparr>
       [''fee'', ''A'', ''B'', ''bank''] \<lparr>mt_err = False, mt_logs = [], mt_pre = [], mt_post = []\<rparr> ''tip'' 12 1200 two_banks =
     (Inr (), t) \<and> map ut_amount (so_tips t) = [0] \<and> length (so_bus t) = 1"
proof -
  have "\<exists>t. process_transfer_instruction \<lparr>in_accounts = [0, 1, 2], in_data = ''t'', in_program_index = 3\<rparr>
       [''fee'', ''A'', ''B'', ''bank''] \<lparr>mt_err = False, mt_logs = [], mt_pre = [], mt_post = []\<rparr> ''tip'' 12 1200 two_banks =
     (Inr (), t) \<and> so_tips t = so_tips two_banks @ [\<lparr>ut_slot = 12, ut_signature = ''tip'', ut_sender_user_id = 1,
        ut_receiver_user_id = 2, ut_amount = 0, ut_created_at = 1200\<rparr>] \<and>
     so_bus t = so_bus two_banks @ [\<lparr>ie_event = send_tip, ie_block_number = 12, ie_user_id = 1, ie_extra = []\<rparr>]"
  proof (rule tip_without_balances [where i = 1 and j = 2 and a = "''A''" and b = "''B''"])
    show "users_of_accounts two_banks [''A'', ''B''] = [(1, ''A''), (2, ''B'')]" by code_simp
  qed (simp_all add: get_account_index_def py_index_def balance_at_def)
  then show ?thesis by (auto simp: two_banks_def sample_sol_state_def)
qed

end
