(* ===== verification/Rewards_Manager.thy ===== *)
theory Rewards_Manager
  imports User_Bank
begin

text \<open>
  tasks/index_rewards_manager.py: the transfers of the rewards manager program become
  disbursements of challenges and rows of the token history of their recipients.
\<close>

section \<open>Transfers\<close>

record reward_transfer =
  rt_amount :: nat
  rt_challenge_id :: string
  rt_specifier :: string
  rt_eth_recipient :: string
  rt_prebalance :: int
  rt_postbalance :: int

record reward_tx =
  rw_signature :: string
  rw_slot :: int
  rw_timestamp :: int
  rw_transfer :: "reward_transfer option"

definition REWARD_RECEIVER_ACCOUNT_INDEX :: int where "REWARD_RECEIVER_ACCOUNT_INDEX = 4"

definition rewards_manager_transfer_instr :: instruction_format where
  "rewards_manager_transfer_instr = [(''amount'', u64), (''id'', String_type), (''eth_recipient'', EthereumAddress)]"

definition parse_transfer_instruction_data :: "sol_env \<Rightarrow> string \<Rightarrow> (nat \<times> string \<times> string) result" where
  "parse_transfer_instruction_data E data =
     bind_res (parse_instruction_data (se_b58decode E) data rewards_manager_transfer_instr) (\<lambda>params.
       case (od_get params ''amount'', od_get params ''id'', od_get params ''eth_recipient'') of
         (Some (Num amount), Some (Text transfer_id), Some (Text eth_recipient)) \<Rightarrow> Inr (amount, transfer_id, eth_recipient)
       | _ \<Rightarrow> Inl KeyError)"

text \<open>\<open>split(":", 1)\<close> gives two parts if there is a colon.\<close>

definition parse_transfer_instruction_id :: "string \<Rightarrow> (string \<times> string) option" where
  "parse_transfer_instruction_id transfer_id =
     (if CHR '':'' \<in> set transfer_id
      then Some (takeWhile (\<lambda>c. c \<noteq> CHR '':'') transfer_id, tl (dropWhile (\<lambda>c. c \<noteq> CHR '':'') transfer_id))
      else None)"

text \<open>Every failure, as a program that is not among the keys, counts as no instruction.\<close>

definition reward_instruction :: "sol_env \<Rightarrow> sol_message \<Rightarrow> sol_meta \<Rightarrow> sol_instruction option" where
  "reward_instruction E tx_message meta =
     (if \<not> has_log meta ''Program log: Instruction: Transfer'' then None
      else if se_account E \<notin> set (ms_account_keys tx_message) then None
      else case list_index (se_program E) (ms_account_keys tx_message) of
          Inl x \<Rightarrow> None
        | Inr i \<Rightarrow> find (\<lambda>instruction. in_program_index instruction = i) (ms_instructions tx_message))"

definition fetch_and_parse_sol_rewards_transfer_instruction :: "sol_env \<Rightarrow> string \<Rightarrow> reward_tx result" where
  "fetch_and_parse_sol_rewards_transfer_instruction E tx_sig =
     bind_res (se_tx E tx_sig) (\<lambda>tx.
     let meta = st_meta tx;
         tx_metadata = \<lparr>rw_signature = tx_sig, rw_slot = st_slot tx, rw_timestamp = st_block_time tx, rw_transfer = None\<rparr>
     in if mt_err meta then Inr tx_metadata
        else case reward_instruction E (st_message tx) meta of
            None \<Rightarrow> Inr tx_metadata
          | Some instruction \<Rightarrow>
              bind_res (parse_transfer_instruction_data E (in_data instruction)) (\<lambda>(amount, transfer_id, eth_recipient).
              case parse_transfer_instruction_id transfer_id of
                None \<Rightarrow> Inr tx_metadata
              | Some (challenge_id, specifier) \<Rightarrow>
                  bind_res (py_index (in_accounts instruction) REWARD_RECEIVER_ACCOUNT_INDEX) (\<lambda>receiver_index.
                  let (pre_balance, post_balance) = get_solana_tx_token_balances meta receiver_index
                  in if pre_balance = -1 \<or> post_balance = -1
                     then Inl (Raised ''Reward recipient balance missing!'')
                     else Inr (tx_metadata\<lparr>rw_transfer := Some
                       \<lparr>rt_amount = amount, rt_challenge_id = challenge_id, rt_specifier = specifier,
                        rt_eth_recipient = eth_recipient, rt_prebalance = pre_balance, rt_postbalance = post_balance\<rparr>\<rparr>))))"

section \<open>Disbursements\<close>

text \<open>
  The map is kept for the life of the process.  Its filter, \<open>bool(Challenge.active)\<close>, is the truth
  value of a column object, which is true: inactive challenges are in the map.
\<close>

definition challenge_types_of :: "challenge list \<Rightarrow> (string, transaction_type) odict" where
  "challenge_types_of cs =
     od_build ch_id (\<lambda>c. if ch_type c = Trending then Trending_reward else User_reward) cs"

definition get_challenge_type_map :: "(string, transaction_type) odict so" where
  "get_challenge_type_map =
     sq (modify (\<lambda>s. if so_challenge_types s = []
           then s\<lparr>so_challenge_types := challenge_types_of (so_challenges s)\<rparr> else s))
       (gets so_challenge_types)"

text \<open>The users with a bank by wallet; an unknown recipient becomes user 0 with the bank 0.\<close>

definition recipients :: "sol_state \<Rightarrow> string list \<Rightarrow> (string, int \<times> string) odict" where
  "recipients s eth_recipients =
     od_build fst snd (concat (map (\<lambda>u. concat (map (\<lambda>a.
       if ba_ethereum_address a \<in> set eth_recipients \<and> attr u ''wallet'' = PStr (ba_ethereum_address a)
       then [(ba_ethereum_address a, (as_int (attr u ''user_id''), ba_bank_account a))] else []) (so_accounts s)))
       (filter is_current_row (so_users s))))"

definition disbursement_of :: "int \<Rightarrow> reward_tx \<Rightarrow> reward_transfer \<Rightarrow> disbursement" where
  "disbursement_of user_id tx tr =
     \<lparr>cdis_challenge_id = rt_challenge_id tr, cdis_user_id = user_id, cdis_specifier = rt_specifier tr,
      cdis_signature = rw_signature tx, cdis_slot = rw_slot tx, cdis_amount = show_nat (rt_amount tr)\<rparr>"

text \<open>\<open>session.flush()\<close> stores the pending row, which fails if its signature is there already.\<close>

definition add_reward_tx :: "reward_tx \<Rightarrow> unit so" where
  "add_reward_tx tx =
     sq (modify (\<lambda>s. s\<lparr>so_reward_txs := so_reward_txs s @
           [\<lparr>sr_signature = rw_signature tx, sr_slot = rw_slot tx, sr_created_at = rw_timestamp tx\<rparr>]\<rparr>))
       (bnd (gets (\<lambda>s. distinct (map sr_signature (so_reward_txs s)))) (\<lambda>ok. require ok (Raised ''IntegrityError'')))"

primrec reward_rows ::
    "(string, transaction_type) odict \<Rightarrow> (string, int \<times> string) odict \<Rightarrow> reward_tx list \<Rightarrow>
     (disbursement list \<times> audio_tx list) so" where
  "reward_rows types users_map [] = ret ([], [])"
| "reward_rows types users_map (tx # txs) =
     sq (add_reward_tx tx)
       (case rw_transfer tx of
          None \<Rightarrow> reward_rows types users_map txs
        | Some tr \<Rightarrow>
            let users_map' = (if od_has users_map (rt_eth_recipient tr) then users_map
                              else od_set users_map (rt_eth_recipient tr) (0, ''0''));
                (user_id, user_bank) = od_default users_map' (rt_eth_recipient tr) (0, ''0'')
            in bnd (lift_res (case od_get types (rt_challenge_id tr) of None \<Rightarrow> Inl KeyError | Some ty \<Rightarrow> Inr ty)) (\<lambda>ty.
               bnd (reward_rows types users_map' txs) (\<lambda>(ds, hs).
               ret (disbursement_of user_id tx tr # ds,
                    audio_row user_bank (rw_slot tx) (rw_signature tx) ty Receive (rw_timestamp tx)
                      (rt_postbalance tr - rt_prebalance tr) (rt_postbalance tr) (Some (rt_challenge_id tr)) # hs))))"

definition bulk_save :: "disbursement list \<Rightarrow> audio_tx list \<Rightarrow> unit so" where
  "bulk_save ds hs =
     sq (modify (\<lambda>s. s\<lparr>so_disbursements := so_disbursements s @ ds, so_history := so_history s @ hs\<rparr>))
       (bnd (gets keys_ok) (\<lambda>ok. require ok (Raised ''IntegrityError'')))"

definition process_batch_sol_reward_manager_txs :: "reward_tx list \<Rightarrow> unit so" where
  "process_batch_sol_reward_manager_txs txs =
     bnd (gets (\<lambda>s. recipients s (map rt_eth_recipient (List.map_filter rw_transfer txs)))) (\<lambda>users_map.
     bnd get_challenge_type_map (\<lambda>types.
     bnd (reward_rows types users_map txs) (\<lambda>(ds, hs).
     run_when (ds \<noteq> []) (sq (bulk_save ds hs) (enqueue_immediate_balance_refresh (map cdis_user_id ds))))))"

section \<open>The task\<close>

definition get_latest_reward_disbursment_slot :: "sol_state \<Rightarrow> int" where
  "get_latest_reward_disbursment_slot s =
     (if so_reward_txs s = [] then 0 else Max (sr_slot ` set (so_reward_txs s)))"

definition get_reward_tx_in_db :: "sol_state \<Rightarrow> string \<Rightarrow> bool" where
  "get_reward_tx_in_db s tx_sig \<longleftrightarrow> length (filter (\<lambda>r. sr_signature r = tx_sig) (so_reward_txs s)) > 0"

text \<open>The transactions of a batch are fetched first, and stored in one session.\<close>

definition process_reward_batch :: "sol_env \<Rightarrow> string list \<Rightarrow> reward_tx list so" where
  "process_reward_batch E tx_sig_batch =
     bnd (lift_res (map_res (fetch_and_parse_sol_rewards_transfer_instruction E) (sort_key (se_rank E) tx_sig_batch))) (\<lambda>txs.
     sq (sol_session (process_batch_sol_reward_manager_txs txs)) (ret txs))"

definition last_reward :: "string option \<Rightarrow> reward_tx list list \<Rightarrow> cached_tx option" where
  "last_reward last_tx_sig done_batches =
     fold (\<lambda>tx acc. if last_tx_sig = Some (rw_signature tx) \<and> rw_signature tx \<noteq> []
       then Some \<lparr>cx_signature = rw_signature tx, cx_slot = rw_slot tx, cx_timestamp = rw_timestamp tx\<rparr> else acc)
       (concat done_batches) None"

definition rewards_slot_key :: string where "rewards_slot_key = ''latest_sol_slot:rewards_manager''"
definition rewards_db_key :: string where "rewards_db_key = ''latest_sol_program_tx:rewards_manager:db''"
definition rewards_program_key :: string where "rewards_program_key = ''latest_sol_program_tx:rewards_manager:chain''"

definition process_solana_rewards_manager :: "sol_env \<Rightarrow> sol_state \<Rightarrow> (unit result \<times> sol_state) option" where
  "process_solana_rewards_manager E s =
     (if \<not> se_valid_program E \<or> se_account E = [] then Some (Inr (), s)
      else run_walk (se_source E) (get_latest_reward_disbursment_slot s) (get_reward_tx_in_db s) (Some (se_min_slot E))
             (process_reward_batch E) (\<lambda>sigs done_batches.
               finish_run E rewards_db_key rewards_slot_key (last_reward (newest_signature sigs) done_batches)) s)"

definition index_rewards_manager :: "sol_env \<Rightarrow> sol_state \<Rightarrow> (unit result \<times> sol_state) option" where
  "index_rewards_manager E s =
     (case fetch_and_cache_latest_program_tx_redis E rewards_program_key s of
        (Inl x, t) \<Rightarrow> Some (Inl x, t)
      | (Inr u, t) \<Rightarrow> if se_have_lock E then process_solana_rewards_manager E t else Some (Inr (), t))"

section \<open>What a batch stores\<close>

definition reward_row :: "reward_tx \<Rightarrow> sol_row" where
  "reward_row tx = \<lparr>sr_signature = rw_signature tx, sr_slot = rw_slot tx, sr_created_at = rw_timestamp tx\<rparr>"

text \<open>A payment: challenge, specifier, signature, slot and amount.\<close>

type_synonym payment = "string \<times> string \<times> string \<times> int \<times> string"

definition payment_of :: "disbursement \<Rightarrow> payment" where
  "payment_of d = (cdis_challenge_id d, cdis_specifier d, cdis_signature d, cdis_slot d, cdis_amount d)"

definition payments_in :: "reward_tx \<Rightarrow> payment list" where
  "payments_in tx = (case rw_transfer tx of None \<Rightarrow> []
     | Some tr \<Rightarrow> [(rt_challenge_id tr, rt_specifier tr, rw_signature tx, rw_slot tx, show_nat (rt_amount tr))])"

lemma reward_rows_result:
  assumes "reward_rows types users_map txs s = (Inr (ds, hs), t)"
  shows "so_reward_txs t = so_reward_txs s @ map reward_row txs \<and> so_disbursements t = so_disbursements s \<and>
    map payment_of ds = concat (map payments_in txs)"
  using assms
proof (induction txs arbitrary: users_map s ds hs)
  case Nil
  then show ?case by (simp add: ret_def)
next
  case (Cons tx txs)
  obtain s1 where add: "add_reward_tx tx s = (Inr (), s1)"
    using Cons.prems by (auto simp: sq_Inr)
  then have s1: "so_reward_txs s1 = so_reward_txs s @ [reward_row tx]" "so_disbursements s1 = so_disbursements s"
    by (auto simp: add_reward_tx_def py_simps reward_row_def split: if_splits)
  show ?case
  proof (cases "rw_transfer tx")
    case None
    then have "reward_rows types users_map txs s1 = (Inr (ds, hs), t)"
      using Cons.prems add by (simp add: sq_def bnd_def)
    from Cons.IH [OF this] s1 None show ?thesis by (simp add: payments_in_def)
  next
    case (Some tr)
    then obtain um u ds' hs' where rest: "reward_rows types um txs s1 = (Inr (ds', hs'), t)"
        and ds: "ds = disbursement_of u tx tr # ds'"
      using Cons.prems add by (auto simp: sq_def bnd_def lift_res_def ret_def Let_def split: sum.splits prod.splits option.splits)
    from Cons.IH [OF rest] s1 Some ds show ?thesis
      by (simp add: payments_in_def payment_of_def disbursement_of_def)
  qed
qed

lemma challenge_type_map_frame:
  "get_challenge_type_map s = (r, t) \<Longrightarrow> so_reward_txs t = so_reward_txs s \<and> so_disbursements t = so_disbursements s"
  by (auto simp: get_challenge_type_map_def py_simps split: if_splits)

lemma process_batch_result:
  assumes "process_batch_sol_reward_manager_txs txs s = (Inr v, t)"
  shows "so_reward_txs t = so_reward_txs s @ map reward_row txs \<and>
    map payment_of (so_disbursements t) = map payment_of (so_disbursements s) @ concat (map payments_in txs)"
proof -
  obtain types s1 ds hs s2 um where m: "get_challenge_type_map s = (Inr types, s1)"
      and rows: "reward_rows types um txs s1 = (Inr (ds, hs), s2)"
      and save: "run_when (ds \<noteq> []) (sq (bulk_save ds hs) (enqueue_immediate_balance_refresh (map cdis_user_id ds))) s2 = (Inr v, t)"
    using assms by (auto simp: process_batch_sol_reward_manager_txs_def bnd_Inr run_Inr)
  have "so_reward_txs t = so_reward_txs s2 \<and> so_disbursements t = so_disbursements s2 @ ds"
    using save by (auto simp: run_when_def bulk_save_def enqueue_immediate_balance_refresh_def py_simps split: if_splits)
  then show ?thesis using reward_rows_result [OF rows] challenge_type_map_frame [OF m] by simp
qed

lemma fetched_reward:
  assumes "fetch_and_parse_sol_rewards_transfer_instruction E sig = Inr w"
  obtains tx where "se_tx E sig = Inr tx" "rw_signature w = sig" "rw_slot w = st_slot tx"
  using assms
  by (auto simp: fetch_and_parse_sol_rewards_transfer_instruction_def bind_res_Inr Let_def case_prod_beta
      split: if_splits option.splits)

lemma map_res_all2: "map_res f xs = Inr ys \<Longrightarrow> list_all2 (\<lambda>x y. f x = Inr y) xs ys"
  by (induction xs arbitrary: ys) (auto split: sum.splits)

lemma list_all2_left: "list_all2 P xs ys \<Longrightarrow> x \<in> set xs \<Longrightarrow> \<exists>y \<in> set ys. P x y"
  by (induction rule: list_all2_induct) auto

lemma reward_batch_result:
  assumes "process_reward_batch E b s = (Inr v, t)"
  shows "\<forall>h \<in> set b. \<exists>w. fetch_and_parse_sol_rewards_transfer_instruction E h = Inr w"
    and "set (so_reward_txs t) = set (so_reward_txs s) \<union>
      {reward_row w |h w. h \<in> set b \<and> fetch_and_parse_sol_rewards_transfer_instruction E h = Inr w}"
    and "set (map payment_of (so_disbursements t)) = set (map payment_of (so_disbursements s)) \<union>
      (\<Union>w \<in> {w. \<exists>h \<in> set b. fetch_and_parse_sol_rewards_transfer_instruction E h = Inr w}. set (payments_in w))"
proof -
  let ?f = "fetch_and_parse_sol_rewards_transfer_instruction E"
  obtain txs u where f: "map_res ?f (sort_key (se_rank E) b) = Inr txs"
      and run: "sol_session (process_batch_sol_reward_manager_txs txs) s = (Inr u, t)"
    using assms by (auto simp: process_reward_batch_def bnd_Inr sq_Inr run_Inr)
  have all: "list_all2 (\<lambda>h w. ?f h = Inr w) (sort_key (se_rank E) b) txs" using f by (rule map_res_all2)
  show fetched: "\<forall>h \<in> set b. \<exists>w. ?f h = Inr w"
  proof
    fix h assume "h \<in> set b"
    then have "h \<in> set (sort_key (se_rank E) b)" by simp
    from list_all2_left [OF all this] show "\<exists>w. ?f h = Inr w" by blast
  qed
  have txs: "set txs = {w. \<exists>h \<in> set b. ?f h = Inr w}"
  proof -
    have "w \<in> set txs \<longleftrightarrow> (\<exists>h \<in> set (sort_key (se_rank E) b). ?f h = Inr w)" for w
      using all by (induction rule: list_all2_induct) auto
    then show ?thesis by auto
  qed
  have "process_batch_sol_reward_manager_txs txs s = (Inr u, t)"
    using run by (auto simp: sol_session_def split: sum.splits prod.splits if_splits)
  note r = process_batch_result [OF this]
  show "set (so_reward_txs t) = set (so_reward_txs s) \<union> {reward_row w |h w. h \<in> set b \<and> ?f h = Inr w}"
    using r txs by auto
  show "set (map payment_of (so_disbursements t)) = set (map payment_of (so_disbursements s)) \<union>
      (\<Union>w \<in> {w. \<exists>h \<in> set b. ?f h = Inr w}. set (payments_in w))"
    using r txs by simp
qed

lemma failed_session: "sol_session m s = (Inl x, t) \<Longrightarrow> so_reward_txs t = so_reward_txs s \<and> so_disbursements t = so_disbursements s"
  by (auto simp: sol_session_def roll_back_sol_def split: sum.splits prod.splits if_splits)

lemma failed_reward_batch:
  "process_reward_batch E b s = (Inl x, t) \<Longrightarrow> so_reward_txs t = so_reward_txs s \<and> so_disbursements t = so_disbursements s"
  using failed_session
  by (auto simp: process_reward_batch_def bnd_def lift_res_def sq_def ret_def split: sum.splits prod.splits)

interpretation reward_table: processed_table so_reward_txs get_latest_reward_disbursment_slot get_reward_tx_in_db 0
proof
  show "get_reward_tx_in_db s h \<longleftrightarrow> h \<in> sr_signature ` set (so_reward_txs s)" for s h
    by (auto simp: get_reward_tx_in_db_def filter_empty_conv)
  show "so_reward_txs s = [] \<Longrightarrow> get_latest_reward_disbursment_slot s = 0" for s
    by (simp add: get_latest_reward_disbursment_slot_def)
  show "r \<in> set (so_reward_txs s) \<Longrightarrow> sr_slot r \<le> get_latest_reward_disbursment_slot s" for r s
    by (auto simp: get_latest_reward_disbursment_slot_def)
  show "so_reward_txs s \<noteq> [] \<Longrightarrow> get_latest_reward_disbursment_slot s \<in> sr_slot ` set (so_reward_txs s)" for s
    using Max_in [of "sr_slot ` set (so_reward_txs s)"] by (simp add: get_latest_reward_disbursment_slot_def)
qed

interpretation reward_run: batch_processing so_reward_txs get_latest_reward_disbursment_slot get_reward_tx_in_db 0
  "process_reward_batch E" "se_tx E" for E
proof
  fix b v s t h x
  show "row_entries (so_reward_txs t) = row_entries (so_reward_txs s) \<union> {(h, st_slot tx) |h tx. h \<in> set b \<and> se_tx E h = Inr tx}"
    if run: "process_reward_batch E b s = (Inr v, t)"
  proof -
    let ?f = "fetch_and_parse_sol_rewards_transfer_instruction E"
    have "row_entries (so_reward_txs t) = row_entries (so_reward_txs s) \<union>
        (\<lambda>r. (sr_signature r, sr_slot r)) ` {reward_row w |h w. h \<in> set b \<and> ?f h = Inr w}"
      by (simp only: row_entries_def reward_batch_result(2) [OF run] image_Un)
    moreover have "(\<lambda>r. (sr_signature r, sr_slot r)) ` {reward_row w |h w. h \<in> set b \<and> ?f h = Inr w} =
        {(h, st_slot tx) |h tx. h \<in> set b \<and> se_tx E h = Inr tx}" (is "?l = ?r")
    proof
      show "?l \<subseteq> ?r" by (auto simp: reward_row_def elim!: fetched_reward)
      show "?r \<subseteq> ?l"
      proof
        fix p assume "p \<in> ?r"
        then obtain h tx where p: "p = (h, st_slot tx)" "h \<in> set b" "se_tx E h = Inr tx" by blast
        then obtain w where w: "?f h = Inr w" using reward_batch_result(1) [OF run] by blast
        then have "p = (sr_signature (reward_row w), sr_slot (reward_row w))"
          using p by (auto simp: reward_row_def elim: fetched_reward)
        then show "p \<in> ?l" using p(2) w by blast
      qed
    qed
    ultimately show ?thesis by simp
  qed
  show "\<exists>tx. se_tx E h = Inr tx" if "process_reward_batch E b s = (Inr v, t)" "h \<in> set b"
    using reward_batch_result(1) [OF that(1)] that(2) by (auto elim!: fetched_reward)
  show "so_reward_txs t = so_reward_txs s" if "process_reward_batch E b s = (Inl x, t)"
    using failed_reward_batch [OF that] by blast
qed

end
