(* ===== verification/Disbursement_Properties.thy ===== *)
theory Disbursement_Properties
  imports Rewards_Manager Sol_Properties
begin

text \<open>
  What the rewards manager indexer guarantees: a disbursement for every transfer that was
  processed and no other, in order of age, and where one transfer stops it for good.
\<close>

section \<open>A disbursement for every transfer\<close>

definition payments_of_row :: "sol_env \<Rightarrow> sol_row \<Rightarrow> payment list" where
  "payments_of_row E r =
     (case fetch_and_parse_sol_rewards_transfer_instruction E (sr_signature r) of Inl x \<Rightarrow> [] | Inr w \<Rightarrow> payments_in w)"

definition disbursements_match :: "sol_env \<Rightarrow> sol_state \<Rightarrow> bool" where
  "disbursements_match E s \<longleftrightarrow>
     set (map payment_of (so_disbursements s)) = (\<Union>r \<in> set (so_reward_txs s). set (payments_of_row E r))"

lemma payments_of_fetched:
  assumes "fetch_and_parse_sol_rewards_transfer_instruction E h = Inr w"
  shows "payments_of_row E (reward_row w) = payments_in w"
proof -
  have "sr_signature (reward_row w) = h" using assms by (auto simp: reward_row_def elim: fetched_reward)
  then show ?thesis using assms by (simp add: payments_of_row_def)
qed

lemma reward_batch_matches: "keeps (disbursements_match E) (process_reward_batch E b)"
proof (rule keepsI)
  fix s assume s: "disbursements_match E s"
  obtain r t where run: "process_reward_batch E b s = (r, t)" by force
  show "disbursements_match E (snd (process_reward_batch E b s))"
  proof (cases r)
    case (Inl x)
    then show ?thesis using failed_reward_batch run s by (simp add: disbursements_match_def)
  next
    case (Inr v)
    let ?ws = "{w. \<exists>h \<in> set b. fetch_and_parse_sol_rewards_transfer_instruction E h = Inr w}"
    note rows = reward_batch_result [OF run [unfolded Inr]]
    have "set (so_reward_txs t) = set (so_reward_txs s) \<union> reward_row ` ?ws" unfolding rows(2) by blast
    then have "(\<Union>r \<in> set (so_reward_txs t). set (payments_of_row E r)) =
        (\<Union>r \<in> set (so_reward_txs s). set (payments_of_row E r)) \<union> (\<Union>w \<in> ?ws. set (payments_of_row E (reward_row w)))"
      by auto
    also have "(\<Union>w \<in> ?ws. set (payments_of_row E (reward_row w))) = (\<Union>w \<in> ?ws. set (payments_in w))"
      using payments_of_fetched by (intro SUP_cong) auto
    finally show ?thesis using rows(3) s run by (simp add: disbursements_match_def)
  qed
qed

text \<open>The Redis keys and the two tables are apart.\<close>

definition reward_tables_are :: "sol_row list \<Rightarrow> disbursement list \<Rightarrow> challenge list \<Rightarrow> (string, transaction_type) odict \<Rightarrow> sol_state \<Rightarrow> bool" where
  "reward_tables_are R D C T s \<longleftrightarrow>
     so_reward_txs s = R \<and> so_disbursements s = D \<and> so_challenges s = C \<and> so_challenge_types s = T"

lemma keeps_reward_tables:
  "keeps (reward_tables_are R D C T) (fetch_and_cache_latest_program_tx_redis E key)"
  "keeps (reward_tables_are R D C T) (finish_run E db_key slot_key last_tx)"
  unfolding fetch_and_cache_latest_program_tx_redis_def finish_run_def cache_latest_sol_db_tx_def
  by (auto split: list.split option.split sum.split intro!: keeps_rules keeps_modify simp: reward_tables_are_def)

lemma reward_tables_kept:
  assumes "\<And>R D C T. keeps (reward_tables_are R D C T) m"
    and "\<And>s t. so_reward_txs t = so_reward_txs s \<Longrightarrow> so_disbursements t = so_disbursements s \<Longrightarrow>
      so_challenges t = so_challenges s \<Longrightarrow> so_challenge_types t = so_challenge_types s \<Longrightarrow> I s \<Longrightarrow> I t"
  shows "keeps I m"
  using keepsD [OF assms(1)] assms(2) by (intro keepsI) (auto simp: reward_tables_are_def)

text \<open>An invariant that depends on these tables and holds through a batch holds through a run.\<close>

lemma index_rewards_keeps:
  assumes batch: "\<And>b. keeps I (process_reward_batch E b)"
    and tables: "\<And>s t. so_reward_txs t = so_reward_txs s \<Longrightarrow> so_disbursements t = so_disbursements s \<Longrightarrow>
      so_challenges t = so_challenges s \<Longrightarrow> so_challenge_types t = so_challenge_types s \<Longrightarrow> I s \<Longrightarrow> I t"
    and run: "index_rewards_manager E s = Some (r, t)" and "I s"
  shows "I t"
proof -
  obtain r1 s1 where first: "fetch_and_cache_latest_program_tx_redis E rewards_program_key s = (r1, s1)" by force
  have kept: "keeps I (fetch_and_cache_latest_program_tx_redis E rewards_program_key)"
    by (rule reward_tables_kept [OF keeps_reward_tables(1) tables])
  have s1: "I s1" using keepsD [OF kept \<open>I s\<close>] first by simp
  have walk: "I t" if "run_walk src l e m (process_reward_batch E)
      (\<lambda>sigs done_batches. finish_run E k k' (last_reward (newest_signature sigs) done_batches)) s1 = Some (r, t)"
    for src l e m k k'
    by (rule run_walk_keeps [OF that s1 batch]) (rule reward_tables_kept [OF keeps_reward_tables(2) tables])
  show ?thesis
    using run first s1 walk
    by (auto simp: index_rewards_manager_def process_solana_rewards_manager_def split: sum.splits if_splits)
qed

text \<open>C18: Disbursements and processed transactions agree through every run, whatever fails: the
  disbursements are exactly the transfers the processed transactions carry, each with the
  challenge, the specifier, the amount, the signature and the slot of its transfer.\<close>

theorem disbursed_ok:
  assumes "index_rewards_manager E s = Some (r, t)" and "disbursements_match E s"
  shows "disbursements_match E t"
  using reward_batch_matches _ assms
  by (rule index_rewards_keeps) (simp add: disbursements_match_def)

section \<open>In order of age\<close>

text \<open>A run of the rewards manager indexer always returns, and its processed transactions stay an
  older part of the program's history; a successful run leaves nothing out if at most
  99010 transactions, a hundred pages, are not recorded before it.\<close>

lemma rewards_in_order:
  assumes "serves (se_source E) H" and "history_ok H" and "tells_slots (se_tx E) H"
    and "older_part 0 H (so_reward_txs s)" and "\<forall>u \<in> set H. max 0 (se_min_slot E) < si_slot u"
  shows "\<exists>r t. index_rewards_manager E s = Some (r, t) \<and> older_part 0 H (so_reward_txs t) \<and>
    (r = Inr () \<and> se_have_lock E \<and> se_valid_program E \<and> se_account E \<noteq> [] \<and>
        card ((\<lambda>u. (si_signature u, si_slot u)) ` set H - row_entries (so_reward_txs s)) \<le> 99010 \<longrightarrow>
      row_entries (so_reward_txs t) = (\<lambda>u. (si_signature u, si_slot u)) ` set H)"
proof -
  obtain r1 s1 where first: "fetch_and_cache_latest_program_tx_redis E rewards_program_key s = (r1, s1)" by force
  have rows: "so_reward_txs s1 = so_reward_txs s"
    using keepsD [OF keeps_reward_tables(1) [of "so_reward_txs s" "so_disbursements s" "so_challenges s"
        "so_challenge_types s" E rewards_program_key], of s] first by (simp add: reward_tables_are_def)
  have fin: "so_reward_txs (snd (finish_run E k k' a u)) = so_reward_txs u" for k k' a u
    by (auto simp: finish_run_def cache_latest_sol_db_tx_def py_simps split: option.split sum.split)
  have m: "\<forall>t \<in> set H. above_min (Some (se_min_slot E)) t \<longleftrightarrow> 0 < si_slot t"
    using assms(5) by (auto simp: above_min_def)
  have all: "above 0 H = (\<lambda>u. (si_signature u, si_slot u)) ` set H"
    using assms(5) by (auto simp: above_def)
  have "\<exists>r t. run_walk (se_source E) (get_latest_reward_disbursment_slot s1) (get_reward_tx_in_db s1) (Some (se_min_slot E))
      (process_reward_batch E) (\<lambda>sigs done_batches.
        finish_run E rewards_db_key rewards_slot_key (last_reward (newest_signature sigs) done_batches)) s1 = Some (r, t) \<and>
      older_part 0 H (so_reward_txs t) \<and>
      (r = Inr () \<longrightarrow> card (above 0 H - row_entries (so_reward_txs s1)) \<le> 99010 \<longrightarrow> row_entries (so_reward_txs t) = above 0 H)"
    by (rule reward_run.run_walk_in_order [OF assms(1-3) _ m]) (simp_all add: rows assms(4) fin)
  then show ?thesis
    using first rows assms(4) all
    by (cases r1; cases "se_have_lock E"; cases "se_valid_program E"; cases "se_account E = []")
      (auto simp: index_rewards_manager_def process_solana_rewards_manager_def)
qed

section \<open>An unknown challenge\<close>

text \<open>The challenges a running process may name: those of the table, and those it has cached.\<close>

definition knows_challenge :: "sol_state \<Rightarrow> string \<Rightarrow> bool" where
  "knows_challenge s c \<longleftrightarrow> c \<in> ch_id ` set (so_challenges s) \<or> od_has (so_challenge_types s) c"

definition stuck_at :: "string \<Rightarrow> string \<Rightarrow> sol_state \<Rightarrow> bool" where
  "stuck_at h c s \<longleftrightarrow> h \<notin> sr_signature ` set (so_reward_txs s) \<and> \<not> knows_challenge s c"

definition challenges_are :: "challenge list \<Rightarrow> (string, transaction_type) odict \<Rightarrow> sol_state \<Rightarrow> bool" where
  "challenges_are C T s \<longleftrightarrow> so_challenges s = C \<and> so_challenge_types s = T"

lemma keeps_challenges_rows: "keeps (challenges_are C T) (reward_rows types um txs)"
proof (induction txs arbitrary: um)
  case (Cons tx txs)
  then show ?case
    by (auto simp: add_reward_tx_def challenges_are_def Let_def split: option.split prod.split intro!: keeps_rules keeps_modify)
qed (auto intro: keeps_rules)

lemma keeps_challenges_save: "keeps (challenges_are C T) (bulk_save ds hs)"
  "keeps (challenges_are C T) (enqueue_immediate_balance_refresh ids)"
  unfolding bulk_save_def enqueue_immediate_balance_refresh_def
  by (intro keeps_rules keeps_modify; simp add: challenges_are_def)+

lemma od_keys_fold: "set (od_keys (fold (\<lambda>x d. od_set d (key x) (val x)) xs d)) = set (od_keys d) \<union> key ` set xs"
  by (induction xs arbitrary: d) (auto simp: od_keys_set)

lemma od_keys_build: "set (od_keys (od_build key val xs)) = key ` set xs"
  by (simp add: od_build_def od_keys_fold) (simp add: od_keys_def)

lemma known_type: "od_has (challenge_types_of cs) c \<Longrightarrow> c \<in> ch_id ` set cs"
  by (simp add: challenge_types_of_def od_has_iff od_keys_build)

lemma challenge_type_map_result:
  assumes "get_challenge_type_map s = (r, s1)"
  shows "\<exists>types. r = Inr types \<and> (od_has types c \<longrightarrow> knows_challenge s c) \<and> (knows_challenge s1 c \<longrightarrow> knows_challenge s c)"
  using assms known_type
  by (auto simp: get_challenge_type_map_def py_simps knows_challenge_def od_has_def split: if_splits)

text \<open>The map of the challenges never gains one that the table does not have.\<close>

lemma reward_batch_challenges:
  assumes "process_batch_sol_reward_manager_txs txs s = (r, t)" and "knows_challenge t c"
  shows "knows_challenge s c"
proof -
  obtain types s1 where m: "get_challenge_type_map s = (Inr types, s1)"
    using challenge_type_map_result by (metis surj_pair)
  define um where "um = recipients s (map rt_eth_recipient (List.map_filter rw_transfer txs))"
  define rest where "rest = bnd (reward_rows types um txs) (\<lambda>(ds, hs).
     run_when (ds \<noteq> []) (sq (bulk_save ds hs) (enqueue_immediate_balance_refresh (map cdis_user_id ds))))"
  have "keeps (challenges_are (so_challenges s1) (so_challenge_types s1)) rest"
    unfolding rest_def by (auto split: prod.split intro!: keeps_rules keeps_challenges_rows keeps_challenges_save)
  moreover have "rest s1 = (r, t)"
    using assms(1) m by (simp add: process_batch_sol_reward_manager_txs_def bnd_def gets_def rest_def um_def)
  ultimately have "so_challenges t = so_challenges s1" "so_challenge_types t = so_challenge_types s1"
    using keepsD [of "challenges_are (so_challenges s1) (so_challenge_types s1)" rest s1] by (simp_all add: challenges_are_def)
  then have "knows_challenge s1 c" using assms(2) by (simp add: knows_challenge_def)
  then show ?thesis using challenge_type_map_result [OF m] by blast
qed

lemma reward_rows_known:
  assumes "reward_rows types um txs s = (Inr (ds, hs), t)" and "tx \<in> set txs" and "rw_transfer tx = Some tr"
  shows "od_has types (rt_challenge_id tr)"
  using assms(1,2)
proof (induction txs arbitrary: um s ds hs)
  case (Cons w txs)
  then show ?case
    using assms(3)
    by (auto simp: sq_def bnd_def lift_res_def ret_def Let_def od_has_def split: sum.splits prod.splits option.splits)
qed simp

lemma keeps_stuck:
  assumes "fetch_and_parse_sol_rewards_transfer_instruction E h = Inr w"
    and "rw_transfer w = Some tr" and "rt_challenge_id tr = c"
  shows "keeps (stuck_at h c) (process_reward_batch E b)"
proof (rule keepsI)
  fix s assume s: "stuck_at h c s"
  let ?f = "fetch_and_parse_sol_rewards_transfer_instruction E"
  obtain r t where run: "process_reward_batch E b s = (r, t)" by force
  have known: "knows_challenge s c" if "knows_challenge t c"
  proof (cases "map_res ?f (sort_key (se_rank E) b)")
    case (Inl x)
    then show ?thesis using run that by (simp add: process_reward_batch_def bnd_def lift_res_def)
  next
    case (Inr txs)
    obtain r' t' where p: "process_batch_sol_reward_manager_txs txs s = (r', t')" by force
    have "t = t' \<or> t = roll_back_sol s t'"
      using run Inr p by (auto simp: process_reward_batch_def bnd_def sq_def ret_def lift_res_def sol_session_def split: sum.splits if_splits)
    then have "knows_challenge t' c \<or> c \<in> ch_id ` set (so_challenges s)"
      using that by (auto simp: knows_challenge_def roll_back_sol_def)
    then show ?thesis using reward_batch_challenges [OF p] by (auto simp: knows_challenge_def)
  qed
  have "h \<notin> sr_signature ` set (so_reward_txs t)"
  proof (cases r)
    case (Inl x)
    then show ?thesis using failed_reward_batch run s by (simp add: stuck_at_def)
  next
    case (Inr v)
    note rows = reward_batch_result [OF run [unfolded Inr]]
    have "h \<notin> set b"
    proof
      assume "h \<in> set b"
      obtain txs u where txs: "map_res ?f (sort_key (se_rank E) b) = Inr txs" "process_batch_sol_reward_manager_txs txs s = (Inr u, t)"
        using run Inr by (auto simp: process_reward_batch_def bnd_Inr sq_Inr run_Inr sol_session_def split: sum.splits prod.splits if_splits)
      have "h \<in> set (sort_key (se_rank E) b)" using \<open>h \<in> set b\<close> by simp
      from list_all2_left [OF map_res_all2 [OF txs(1)] this] have "w \<in> set txs" using assms(1) by auto
      moreover obtain types s1 ds hs s2 um where m: "get_challenge_type_map s = (Inr types, s1)"
          and "reward_rows types um txs s1 = (Inr (ds, hs), s2)"
        using txs(2) by (auto simp: process_batch_sol_reward_manager_txs_def bnd_Inr run_Inr)
      ultimately have "od_has types c" using reward_rows_known assms(2,3) by blast
      then show False using challenge_type_map_result [OF m] s by (auto simp: stuck_at_def)
    qed
    then show ?thesis
      using rows(2) s by (auto simp: stuck_at_def reward_row_def elim!: fetched_reward)
  qed
  then show "stuck_at h c (snd (process_reward_batch E b s))"
    using known s run by (auto simp: stuck_at_def)
qed

lemma split_at_absent:
  assumes "xs @ u # ys = as @ bs" and "u \<notin> set bs"
  shows "set bs \<subseteq> set ys"
proof -
  obtain us where "xs @ us = as" "u # ys = us @ bs"
    using assms by (auto simp: append_eq_append_conv2)
  then show ?thesis using assms(2) by (cases us) auto
qed

text \<open>C40: A transfer for a challenge that the challenges table does not have stops the indexer for good:
  no run records it or anything newer, and every run leaves the table the same kind of state.\<close>

theorem unknown_challenge_stalls:
  assumes "serves (se_source E) H" and "history_ok H" and "tells_slots (se_tx E) H"
    and "older_part 0 H (so_reward_txs s)" and "\<forall>u \<in> set H. max 0 (se_min_slot E) < si_slot u"
    and "H = newer @ u # older"
    and "fetch_and_parse_sol_rewards_transfer_instruction E (si_signature u) = Inr w"
    and "rw_transfer w = Some tr" and "stuck_at (si_signature u) (rt_challenge_id tr) s"
  shows "\<exists>r t. index_rewards_manager E s = Some (r, t) \<and> stuck_at (si_signature u) (rt_challenge_id tr) t \<and>
    row_entries (so_reward_txs t) \<subseteq> (\<lambda>u. (si_signature u, si_slot u)) ` set older"
proof -
  obtain r t where run: "index_rewards_manager E s = Some (r, t)" and o: "older_part 0 H (so_reward_txs t)"
    using rewards_in_order [OF assms(1-5)] by blast
  have stuck: "stuck_at (si_signature u) (rt_challenge_id tr) t"
    using keeps_stuck [OF assms(7,8) refl] _ run assms(9)
    by (rule index_rewards_keeps) (simp add: stuck_at_def knows_challenge_def)
  obtain n2 o2 where H: "H = n2 @ o2" and rows: "row_entries (so_reward_txs t) = above 0 o2"
    using o by (auto simp: older_part_def)
  have "u \<notin> set o2"
  proof
    assume "u \<in> set o2"
    moreover have "0 < si_slot u" using assms(5,6) by simp
    ultimately have "(si_signature u, si_slot u) \<in> row_entries (so_reward_txs t)" unfolding rows by (auto simp: above_def)
    then show False using stuck by (auto simp: row_entries_def stuck_at_def)
  qed
  then have "set o2 \<subseteq> set older"
    using split_at_absent H assms(6) by metis
  then show ?thesis using run stuck rows by (auto simp: above_def)
qed

section \<open>A sample\<close>

text \<open>Two rewards, the newer one for the challenge the transaction is called after.\<close>

definition reward_history :: "string \<Rightarrow> sig_info list" where
  "reward_history newest = [\<lparr>si_signature = newest, si_slot = 12, si_block_time = 1200\<rparr>,
     \<lparr>si_signature = ''u'', si_slot = 11, si_block_time = 1100\<rparr>]"

definition sample_reward_tx :: "string \<Rightarrow> sol_tx result" where
  "sample_reward_tx sig = Inr \<lparr>st_slot = (if sig = ''u'' then 11 else 12), st_block_time = 1100,
     st_meta = \<lparr>mt_err = False, mt_logs = [''Program log: Instruction: Transfer''],
       mt_pre = [\<lparr>tb_account_index = 2, tb_owner = ''o'', tb_amount = 5\<rparr>],
       mt_post = [\<lparr>tb_account_index = 2, tb_owner = ''o'', tb_amount = 8\<rparr>]\<rparr>,
     st_message = \<lparr>ms_account_keys = [''rewards'', ''manager'', ''A''],
       ms_instructions = [\<lparr>in_accounts = [0, 0, 0, 0, 2], in_data = sig, in_program_index = 1\<rparr>]\<rparr>\<rparr>"

definition sample_reward_env :: "string \<Rightarrow> sol_env" where
  "sample_reward_env newest = sample_sol_env\<lparr>se_source := (\<lambda>b k. Inr (page_of (reward_history newest) b k)),
     se_tx := sample_reward_tx, se_program := ''manager'', se_rank := (\<lambda>h. if h = ''u'' then 0 else 1),
     se_b58decode := (\<lambda>sig. Inr (1 # encode_params [(u64, Num 3), (String_type, Text (sig @ '':7'')), (EthereumAddress, Num 255)]))\<rparr>"

definition sample_reward_state :: sol_state where
  "sample_reward_state = sample_sol_state\<lparr>so_challenges := map (\<lambda>i. \<lparr>ch_id = i, ch_type = Numeric, ch_amount = ''1'',
     ch_active = True, ch_step_count = None, ch_starting_block = None\<rparr>) [''u'', ''v'']\<rparr>"

lemma sample_reward_run:
  "map_option (\<lambda>(r, t). (r, map sr_signature (so_reward_txs t), map payment_of (so_disbursements t), map cdis_user_id (so_disbursements t)))
     (index_rewards_manager (sample_reward_env ''v'') sample_reward_state) =
   Some (Inr (), [''u'', ''v''], [(''u'', ''7'', ''u'', 11, ''3''), (''v'', ''7'', ''v'', 12, ''3'')], [0, 0])"
  by code_simp

text \<open>A challenge \<open>w\<close> is not in the table.\<close>

lemma sample_unknown_run:
  "map_option (\<lambda>(r, t). (r, map sr_signature (so_reward_txs t), map payment_of (so_disbursements t)))
     (index_rewards_manager (sample_reward_env ''w'') sample_reward_state) = Some (Inl KeyError, [], [])"
  by code_simp

lemma disbursed_ok_witness:
  "map_option (\<lambda>(r, t). disbursements_match (sample_reward_env ''v'') t \<and> length (so_disbursements t) = 2)
     (index_rewards_manager (sample_reward_env ''v'') sample_reward_state) = Some True"
proof -
  obtain r t where t: "index_rewards_manager (sample_reward_env ''v'') sample_reward_state = Some (r, t)"
      "length (map payment_of (so_disbursements t)) = 2"
    using sample_reward_run by auto
  have "disbursements_match (sample_reward_env ''v'') t"
    by (rule disbursed_ok [OF t(1)]) (simp add: disbursements_match_def sample_reward_state_def sample_sol_state_def)
  then show ?thesis using t by simp
qed

lemma sample_reward_serves:
  "serves (se_source (sample_reward_env n)) (reward_history n)" "n \<noteq> ''u'' \<Longrightarrow> history_ok (reward_history n)"
  "n \<noteq> ''u'' \<Longrightarrow> tells_slots (se_tx (sample_reward_env n)) (reward_history n)"
  by (simp_all add: serves_def sample_reward_env_def history_ok_def reward_history_def tells_slots_def sample_reward_tx_def)

lemma sample_reward_start:
  "older_part 0 (reward_history n) (so_reward_txs sample_reward_state)"
  "\<forall>u \<in> set (reward_history n). max 0 (se_min_slot (sample_reward_env n)) < si_slot u"
proof -
  show "older_part 0 (reward_history n) (so_reward_txs sample_reward_state)" unfolding older_part_def
    by (rule exI [of _ "reward_history n"], rule exI [of _ "[]"])
      (simp add: row_entries_def above_def sample_reward_state_def sample_sol_state_def)
qed (simp add: reward_history_def sample_reward_env_def sample_sol_env_def)

lemma unknown_challenge_stalls_witness:
  "\<exists>r t. index_rewards_manager (sample_reward_env ''w'') sample_reward_state = Some (r, t) \<and>
     stuck_at ''w'' ''w'' t \<and> row_entries (so_reward_txs t) \<subseteq> {(''u'', 11)}"
proof -
  let ?E = "sample_reward_env ''w''"
  obtain w tr where w: "fetch_and_parse_sol_rewards_transfer_instruction ?E ''w'' = Inr w"
      "rw_transfer w = Some tr" "rt_challenge_id tr = ''w''"
  proof -
    have "(case fetch_and_parse_sol_rewards_transfer_instruction ?E ''w'' of Inl x \<Rightarrow> None
        | Inr w \<Rightarrow> map_option rt_challenge_id (rw_transfer w)) = Some ''w''"
      by code_simp
    then show thesis using that by (auto split: sum.splits)
  qed
  have "\<exists>r t. index_rewards_manager ?E sample_reward_state = Some (r, t) \<and>
      stuck_at (si_signature (hd (reward_history ''w''))) (rt_challenge_id tr) t \<and>
      row_entries (so_reward_txs t) \<subseteq> (\<lambda>u. (si_signature u, si_slot u)) ` set (tl (reward_history ''w''))"
  proof (rule unknown_challenge_stalls [where H = "reward_history ''w''" and w = w and newer = "[]"])
    show "stuck_at (si_signature (hd (reward_history ''w''))) (rt_challenge_id tr) sample_reward_state"
      by (simp add: w stuck_at_def knows_challenge_def reward_history_def sample_reward_state_def sample_sol_state_def od_has_def)
  qed (simp_all add: sample_reward_serves sample_reward_start w, simp_all add: reward_history_def w, simp add: sample_reward_env_def sample_sol_env_def)
  then show ?thesis by (simp add: reward_history_def w)
qed

end
