(* ===== verification/Event_Scanner.thy ===== *)
theory Event_Scanner
  imports EM_Core
begin

text \<open>
  eth_indexing/event_scanner.py and tasks/index_eth.py: the scan of an Ethereum node for the
  transfers of a token.  Every transfer puts the users of its two wallets on the queue of balances
  to refresh; the number of the last scanned block is kept in Redis and in the database.
\<close>

section \<open>State\<close>

definition MAX_REQUEST_RETRIES :: nat where "MAX_REQUEST_RETRIES = 30"
definition MIN_SCAN_CHUNK_SIZE :: int where "MIN_SCAN_CHUNK_SIZE = 10"
definition MAX_CHUNK_SCAN_SIZE :: int where "MAX_CHUNK_SCAN_SIZE = 10000"
definition CHUNK_SIZE_INCREASE :: int where "CHUNK_SIZE_INCREASE = 2"
definition START_CHUNK_SIZE :: int where "START_CHUNK_SIZE = 20"
definition ETH_BLOCK_TAIL_OFFSET :: int where "ETH_BLOCK_TAIL_OFFSET = 1"
definition MIN_SCAN_START_BLOCK :: int where "MIN_SCAN_START_BLOCK = 11103292"
definition CHAIN_REORG_SAFETY_BLOCKS :: int where "CHAIN_REORG_SAFETY_BLOCKS = 10"

record transfer_event =
  te_log_index :: "int option"
  te_hash :: string
  te_block :: int
  te_from :: string
  te_to :: string

text \<open>The Redis key, the row of \<open>eth_blocks\<close>, and the attribute of the scanner; \<open>sn_requests\<close> are
  the ranges asked of the node so far.\<close>

record scan_state =
  sn_users :: "inst list"
  sn_wallets :: "assoc_wallet list"
  sn_redis :: "string option"
  sn_block :: "int option"
  sn_last :: int
  sn_refresh :: "int list"
  sn_requests :: "(int \<times> int) list"
  sn_completed :: "int option"

type_synonym 'a scan = "(scan_state, 'a) py"

text \<open>
  The node: the number of its last block, the time of a block (\<open>None\<close> if it was not found), and
  the answer to the n-th request for the events of a range.
\<close>

record eth_node =
  en_block_number :: "int result"
  en_block :: "int \<Rightarrow> int option result"
  en_logs :: "nat \<Rightarrow> int \<Rightarrow> int \<Rightarrow> transfer_event list result"

section \<open>The last scanned block\<close>

definition stored_block :: "scan_state \<Rightarrow> int result" where
  "stored_block s =
     (case sn_redis s of
        Some (c # cs) \<Rightarrow> read_int (c # cs)
      | _ \<Rightarrow> (case sn_block s of
            Some n \<Rightarrow> Inr (if n = 0 then MIN_SCAN_START_BLOCK else n)
          | None \<Rightarrow> Inr MIN_SCAN_START_BLOCK))"

definition restore :: "unit scan" where
  "restore = bnd (gets stored_block) (\<lambda>r. bnd (lift_res r) (\<lambda>n. modify (\<lambda>s. s\<lparr>sn_last := n\<rparr>)))"

definition save :: "int \<Rightarrow> unit scan" where
  "save block_number = modify (\<lambda>s. s\<lparr>sn_last := block_number, sn_redis := Some (show_int block_number),
     sn_block := Some block_number\<rparr>)"

definition get_suggested_scan_end_block :: "int \<Rightarrow> int" where
  "get_suggested_scan_end_block latest_chain_block = latest_chain_block - ETH_BLOCK_TAIL_OFFSET"

section \<open>Events\<close>

definition transfer_event_wallets :: "transfer_event \<Rightarrow> string list" where
  "transfer_event_wallets ev = [te_from ev, te_to ev, str_lower (te_from ev), str_lower (te_to ev)]"

definition users_of_wallets :: "scan_state \<Rightarrow> string list \<Rightarrow> int list" where
  "users_of_wallets s ws =
     remdups (map (\<lambda>u. as_int (attr u ''user_id'')) (filter (\<lambda>u. is_current_row u \<and> attr u ''wallet'' \<in> PStr ` set ws) (sn_users s)) @
       map aw_user_id (filter (\<lambda>w. aw_is_current w \<and> \<not> aw_is_delete w \<and> aw_wallet w \<in> set ws) (sn_wallets s)))"

definition event_pointer :: "transfer_event \<Rightarrow> string" where
  "event_pointer ev = show_int (te_block ev) @ ''-'' @ te_hash ev @ ''-'' @
     (case te_log_index ev of None \<Rightarrow> ''None'' | Some i \<Rightarrow> show_int i)"

definition process_scan_event :: "transfer_event \<Rightarrow> string scan" where
  "process_scan_event ev =
     bnd (gets (\<lambda>s. users_of_wallets s (transfer_event_wallets ev))) (\<lambda>user_ids.
     sq (run_when (user_ids \<noteq> []) (modify (\<lambda>s. s\<lparr>sn_refresh := fold List.insert user_ids (sn_refresh s)\<rparr>)))
       (ret (event_pointer ev)))"

text \<open>The times of the blocks are cached for the chunk, and used for nothing.\<close>

definition get_block_mined_timestamp ::
    "eth_node \<Rightarrow> (int, int option) odict \<Rightarrow> int \<Rightarrow> (int, int option) odict result" where
  "get_block_mined_timestamp E block_timestamps block_num =
     (if od_has block_timestamps block_num then Inr block_timestamps
      else bind_res (en_block E block_num) (\<lambda>t. Inr (od_set block_timestamps block_num t)))"

primrec process_scan_events :: "eth_node \<Rightarrow> (int, int option) odict \<Rightarrow> transfer_event list \<Rightarrow> string list scan" where
  "process_scan_events E cache [] = ret []"
| "process_scan_events E cache (ev # evs) =
     sq (require (te_log_index ev \<noteq> None) (Raised ''AssertionError''))
       (bnd (lift_res (get_block_mined_timestamp E cache (te_block ev))) (\<lambda>cache'.
        bnd (process_scan_event ev) (\<lambda>p.
        bnd (process_scan_events E cache' evs) (\<lambda>ps. ret (p # ps)))))"

section \<open>Requests\<close>

definition fetch_events :: "eth_node \<Rightarrow> int \<Rightarrow> int \<Rightarrow> transfer_event list scan" where
  "fetch_events E from_block to_block =
     bnd (gets (\<lambda>s. en_logs E (length (sn_requests s)) from_block to_block)) (\<lambda>r.
     sq (modify (\<lambda>s. s\<lparr>sn_requests := sn_requests s @ [(from_block, to_block)]\<rparr>)) (lift_res r))"

text \<open>The loop over \<open>range(retries)\<close>; without retries it falls through and returns \<open>None\<close>.\<close>

fun retry_web3_call :: "(int \<Rightarrow> int \<Rightarrow> 'a scan) \<Rightarrow> int \<Rightarrow> int \<Rightarrow> nat \<Rightarrow> (int \<times> 'a) scan" where
  "retry_web3_call func start_block end_block 0 = raise TypeError"
| "retry_web3_call func start_block end_block (Suc i) =
     (\<lambda>s. case func start_block end_block s of
        (Inr events, t) \<Rightarrow> (Inr (end_block, events), t)
      | (Inl x, t) \<Rightarrow>
          if i = 0 then (Inl x, t)
          else retry_web3_call func start_block (start_block + (end_block - start_block) div 2) i t)"

definition scan_chunk :: "eth_node \<Rightarrow> int \<Rightarrow> int \<Rightarrow> (int \<times> string list) scan" where
  "scan_chunk E start_block end_block =
     bnd (retry_web3_call (fetch_events E) start_block end_block MAX_REQUEST_RETRIES) (\<lambda>(end_block, events).
     bnd (process_scan_events E [] events) (\<lambda>all_processed. ret (end_block, all_processed)))"

section \<open>The scan\<close>

definition estimate_next_chunk_size :: "int \<Rightarrow> nat \<Rightarrow> int" where
  "estimate_next_chunk_size current_chuck_size event_found_count =
     (let size = (if event_found_count > 0 then MIN_SCAN_CHUNK_SIZE else current_chuck_size * CHUNK_SIZE_INCREASE)
      in min MAX_CHUNK_SCAN_SIZE (max MIN_SCAN_CHUNK_SIZE size))"

text \<open>\<open>tip\<close> is the suggested end of the scan; \<open>None\<close> means that the loop never ends.\<close>

partial_function (option) scan_from ::
    "eth_node \<Rightarrow> int \<Rightarrow> int \<Rightarrow> int \<Rightarrow> int \<Rightarrow> string list \<Rightarrow> nat \<Rightarrow> scan_state \<Rightarrow>
     ((string list \<times> nat) result \<times> scan_state) option" where
  "scan_from E tip current_block end_block chunk_size all_processed total_chunks_scanned s =
     (if \<not> current_block \<le> end_block then Some (Inr (all_processed, total_chunks_scanned), s)
      else case scan_chunk E current_block (min (current_block + chunk_size) tip) s of
          (Inl x, t) \<Rightarrow> Some (Inl x, t)
        | (Inr (current_end, new_entries), t) \<Rightarrow>
            scan_from E tip (current_end + 1) end_block (estimate_next_chunk_size chunk_size (length new_entries))
              (all_processed @ new_entries) (total_chunks_scanned + 1) (snd (save (min current_end tip) t)))"

declare scan_from.simps [code]

definition scan_events :: "eth_node \<Rightarrow> int \<Rightarrow> int \<Rightarrow> int \<Rightarrow> int \<Rightarrow> scan_state \<Rightarrow> ((string list \<times> nat) result \<times> scan_state) option" where
  "scan_events E tip start_block end_block start_chunk_size s = scan_from E tip start_block end_block start_chunk_size [] 0 s"

text \<open>The scanner is made with the last block of the node.\<close>

definition index_eth_transfer_events :: "eth_node \<Rightarrow> scan_state \<Rightarrow> (unit result \<times> scan_state) option" where
  "index_eth_transfer_events E s =
     (case en_block_number E of
        Inl x \<Rightarrow> Some (Inl x, s)
      | Inr latest_chain_block \<Rightarrow> (case restore s of
          (Inl x, t) \<Rightarrow> Some (Inl x, t)
        | (Inr u, t) \<Rightarrow>
            let since_block = sn_last t - CHAIN_REORG_SAFETY_BLOCKS;
                start_block = max since_block 0;
                end_block = get_suggested_scan_end_block latest_chain_block
            in if start_block > end_block then Some (Inr (), t)
               else map_option (\<lambda>(r, u). bnd (lift_res r) (\<lambda>_. save end_block) u)
                      (scan_events E (get_suggested_scan_end_block latest_chain_block) start_block end_block START_CHUNK_SIZE t)))"

definition index_eth :: "bool \<Rightarrow> int \<Rightarrow> eth_node \<Rightarrow> scan_state \<Rightarrow> (unit result \<times> scan_state) option" where
  "index_eth have_lock end_time E s =
     (if have_lock
      then map_option (\<lambda>(r, t). bnd (lift_res r) (\<lambda>_. modify (\<lambda>s. s\<lparr>sn_completed := Some end_time\<rparr>)) t)
             (index_eth_transfer_events E s)
      else Some (Inr (), s))"

end
