(* ===== verification/Scan_Properties.thy ===== *)
theory Scan_Properties
  imports Event_Scanner EM_Samples
begin

text \<open>
  What the scan of the transfer events guarantees: no transfer is left out, whatever fails; a scan
  in chunks finds what one request would; requests stay small, and the scan ends.
\<close>

section \<open>A request and its retries\<close>

lemma half_between: "a \<le> b \<Longrightarrow> a \<le> a + (b - a) div 2 \<and> a + (b - a) div 2 \<le> (b :: int)"
  by simp

text \<open>What all states of a chunk share with the first; only the queue and the requests grow.\<close>

definition scan_frame :: "scan_state \<Rightarrow> scan_state \<Rightarrow> bool" where
  "scan_frame s t \<longleftrightarrow> sn_users t = sn_users s \<and> sn_wallets t = sn_wallets s \<and> sn_redis t = sn_redis s \<and>
     sn_block t = sn_block s \<and> set (sn_refresh s) \<subseteq> set (sn_refresh t)"

lemma scan_frame_refl [simp]: "scan_frame s s"
  by (simp add: scan_frame_def)

lemma scan_frame_trans: "scan_frame s t \<Longrightarrow> scan_frame t u \<Longrightarrow> scan_frame s u"
  by (auto simp: scan_frame_def)

lemma fetch_events_result:
  "fetch_events E a b s = (en_logs E (length (sn_requests s)) a b, s\<lparr>sn_requests := sn_requests s @ [(a, b)]\<rparr>)"
  by (simp add: fetch_events_def py_simps)

lemma retry_result:
  assumes "retry_web3_call (fetch_events E) a b k s = (r, t)" and "a \<le> b"
  shows "\<exists>new. t = s\<lparr>sn_requests := sn_requests s @ new\<rparr> \<and> (\<forall>(x, y) \<in> set new. x = a \<and> a \<le> y \<and> y \<le> b) \<and>
    (\<forall>e evs. r = Inr (e, evs) \<longrightarrow> a \<le> e \<and> e \<le> b \<and> (\<exists>n. en_logs E n a e = Inr evs))"
  using assms
proof (induction k arbitrary: b s)
  case 0
  then show ?case by (auto simp: raise_def intro!: exI [of _ "[]"])
next
  case (Suc i)
  let ?s = "s\<lparr>sn_requests := sn_requests s @ [(a, b)]\<rparr>"
  let ?b = "a + (b - a) div 2"
  show ?case
  proof (cases "en_logs E (length (sn_requests s)) a b")
    case (Inr evs)
    then show ?thesis using Suc.prems by (auto simp: fetch_events_result intro!: exI [of _ "[(a, b)]"])
  next
    case (Inl x)
    show ?thesis
    proof (cases "i = 0")
      case True
      then show ?thesis using Suc.prems Inl by (auto simp: fetch_events_result intro!: exI [of _ "[(a, b)]"])
    next
      case False
      have h: "a \<le> ?b" "?b \<le> b" using half_between [OF Suc.prems(2)] by blast+
      have "retry_web3_call (fetch_events E) a ?b i ?s = (r, t)"
        using Suc.prems(1) Inl False by (simp add: fetch_events_result [of E a b s])
      from Suc.IH [OF this h(1)] obtain new where new: "t = ?s\<lparr>sn_requests := sn_requests ?s @ new\<rparr>"
          "\<forall>(x, y) \<in> set new. x = a \<and> a \<le> y \<and> y \<le> ?b"
          "\<forall>e evs. r = Inr (e, evs) \<longrightarrow> a \<le> e \<and> e \<le> ?b \<and> (\<exists>n. en_logs E n a e = Inr evs)"
        by blast
      then show ?thesis using h(2) Suc.prems(2) by (intro exI [of _ "(a, b) # new"]) fastforce
    qed
  qed
qed

text \<open>A node that answers requests for one block is reached by halving.\<close>

lemma retry_succeeds:
  assumes "\<forall>n. \<exists>evs. en_logs E n a a = Inr evs" and "d < 2 ^ k"
  shows "\<exists>v t. retry_web3_call (fetch_events E) a (a + int d) (Suc k) s = (Inr v, t)"
  using assms(2)
proof (induction k arbitrary: d s)
  case 0
  then obtain evs where "en_logs E (length (sn_requests s)) a (a + int d) = Inr evs" using assms(1) by auto
  then show ?case by (simp add: fetch_events_result)
next
  case (Suc k)
  show ?case
  proof (cases "en_logs E (length (sn_requests s)) a (a + int d)")
    case (Inr evs)
    then show ?thesis by (simp add: fetch_events_result)
  next
    case (Inl x)
    have "d div 2 < 2 ^ k" using Suc.prems by (simp add: div_less_iff_less_mult mult.commute)
    note ih = Suc.IH [OF this, of "s\<lparr>sn_requests := sn_requests s @ [(a, a + int d)]\<rparr>"]
    have "a + (a + int d - a) div 2 = a + int (d div 2)" by (simp add: zdiv_int)
    then show ?thesis using ih Inl by (simp add: fetch_events_result [of E a "a + int d" s] del: retry_web3_call.simps(2) add: retry_web3_call.simps(2) [of _ _ _ "Suc k"])
  qed
qed

section \<open>A chunk\<close>

definition found :: "scan_state \<Rightarrow> transfer_event \<Rightarrow> bool" where
  "found s ev \<longleftrightarrow> set (users_of_wallets s (transfer_event_wallets ev)) \<subseteq> set (sn_refresh s)"

lemma found_later: "scan_frame s t \<Longrightarrow> found s ev \<Longrightarrow> found t ev"
  by (auto simp: found_def scan_frame_def users_of_wallets_def)

lemma process_scan_event_result:
  "\<exists>t. process_scan_event ev s = (Inr (event_pointer ev), t) \<and> scan_frame s t \<and> sn_requests t = sn_requests s \<and> found t ev"
proof -
  let ?ids = "users_of_wallets s (transfer_event_wallets ev)"
  define t where "t = (if ?ids = [] then s else s\<lparr>sn_refresh := fold List.insert ?ids (sn_refresh s)\<rparr>)"
  have fold: "set (fold List.insert ids r) = set ids \<union> set r" for ids r :: "int list"
    by (induction ids arbitrary: r) auto
  have ids: "users_of_wallets t (transfer_event_wallets ev) = ?ids"
    by (simp add: t_def users_of_wallets_def)
  have "process_scan_event ev s = (Inr (event_pointer ev), t)"
    by (simp add: process_scan_event_def py_simps t_def)
  moreover have "scan_frame s t" "sn_requests t = sn_requests s" by (simp_all add: t_def scan_frame_def fold)
  moreover have "found t ev" unfolding found_def ids by (simp add: t_def fold)
  ultimately show ?thesis by blast
qed

lemma process_scan_events_result:
  assumes "process_scan_events E cache evs s = (r, t)"
  shows "scan_frame s t \<and> sn_requests t = sn_requests s \<and>
    (\<forall>ps. r = Inr ps \<longrightarrow> ps = map event_pointer evs \<and> (\<forall>ev \<in> set evs. found t ev))"
  using assms
proof (induction evs arbitrary: cache s r)
  case (Cons ev evs)
  obtain s1 where s1: "process_scan_event ev s = (Inr (event_pointer ev), s1)" "scan_frame s s1"
      "sn_requests s1 = sn_requests s" "found s1 ev"
    using process_scan_event_result by blast
  show ?case
  proof (cases "te_log_index ev = None \<or> (\<exists>x. get_block_mined_timestamp E cache (te_block ev) = Inl x)")
    case True
    then show ?thesis using Cons.prems by (auto simp: py_simps split: if_splits sum.splits)
  next
    case False
    then obtain cache' where c: "get_block_mined_timestamp E cache (te_block ev) = Inr cache'"
      by (cases "get_block_mined_timestamp E cache (te_block ev)") auto
    obtain r1 where rest: "process_scan_events E cache' evs s1 = (r1, t)"
        and r: "r = (case r1 of Inl x \<Rightarrow> Inl x | Inr ps \<Rightarrow> Inr (event_pointer ev # ps))"
      using Cons.prems False c s1(1) by (auto simp: py_simps split: sum.splits prod.splits)
    note ih = Cons.IH [OF rest]
    then have "scan_frame s1 t" by blast
    then show ?thesis
      using ih s1 r scan_frame_trans [OF s1(2)] found_later by (cases r1) auto
  qed
qed (simp add: ret_def)

lemma scan_chunk_result:
  assumes "scan_chunk E a b s = (r, t)" and "a \<le> b"
  shows "scan_frame s t"
    and "\<exists>new. sn_requests t = sn_requests s @ new \<and> (\<forall>(x, y) \<in> set new. x = a \<and> a \<le> y \<and> y \<le> b)"
    and "r = Inr (e, ps) \<Longrightarrow> a \<le> e \<and> e \<le> b \<and> (\<exists>n evs. en_logs E n a e = Inr evs \<and> ps = map event_pointer evs \<and>
      (\<forall>ev \<in> set evs. found t ev))"
proof -
  obtain r1 s1 where req: "retry_web3_call (fetch_events E) a b MAX_REQUEST_RETRIES s = (r1, s1)" by force
  obtain new where new: "s1 = s\<lparr>sn_requests := sn_requests s @ new\<rparr>" "\<forall>(x, y) \<in> set new. x = a \<and> a \<le> y \<and> y \<le> b"
      "\<forall>e evs. r1 = Inr (e, evs) \<longrightarrow> a \<le> e \<and> e \<le> b \<and> (\<exists>n. en_logs E n a e = Inr evs)"
    using retry_result [OF req assms(2)] by blast
  have s1: "scan_frame s s1" using new(1) by (simp add: scan_frame_def)
  have "scan_frame s t \<and> sn_requests t = sn_requests s @ new \<and>
    (\<forall>e ps. r = Inr (e, ps) \<longrightarrow> a \<le> e \<and> e \<le> b \<and> (\<exists>n evs. en_logs E n a e = Inr evs \<and> ps = map event_pointer evs \<and>
      (\<forall>ev \<in> set evs. found t ev)))"
  proof (cases r1)
    case (Inl x)
    then show ?thesis using assms(1) req s1 new(1) by (auto simp: scan_chunk_def bnd_def)
  next
    case (Inr v)
    obtain e evs where v: "v = (e, evs)" by force
    obtain r2 where p: "process_scan_events E [] evs s1 = (r2, t)"
        and r: "r = (case r2 of Inl x \<Rightarrow> Inl x | Inr ps \<Rightarrow> Inr (e, ps))"
      using assms(1) req Inr v by (auto simp: scan_chunk_def bnd_def ret_def split: sum.splits prod.splits)
    note p' = process_scan_events_result [OF p]
    show ?thesis
      using p' r new Inr v scan_frame_trans [OF s1] by (cases r2) auto
  qed
  then show "scan_frame s t" "\<exists>new. sn_requests t = sn_requests s @ new \<and> (\<forall>(x, y) \<in> set new. x = a \<and> a \<le> y \<and> y \<le> b)"
    "r = Inr (e, ps) \<Longrightarrow> a \<le> e \<and> e \<le> b \<and> (\<exists>n evs. en_logs E n a e = Inr evs \<and> ps = map event_pointer evs \<and>
      (\<forall>ev \<in> set evs. found t ev))"
    using new(2) by blast+
qed

section \<open>The loop\<close>

lemma estimate_bounds: "MIN_SCAN_CHUNK_SIZE \<le> estimate_next_chunk_size c n" "estimate_next_chunk_size c n \<le> MAX_CHUNK_SCAN_SIZE"
  by (simp_all add: estimate_next_chunk_size_def Let_def MAX_CHUNK_SCAN_SIZE_def MIN_SCAN_CHUNK_SIZE_def)

lemma scan_loop:
  assumes "end_block \<le> tip" and "0 \<le> chunk" and "Q cur chunk acc n s"
    and step: "\<And>cur chunk acc n s e new t. Q cur chunk acc n s \<Longrightarrow> cur \<le> end_block \<Longrightarrow> 0 \<le> chunk \<Longrightarrow>
      scan_chunk E cur (min (cur + chunk) tip) s = (Inr (e, new), t) \<Longrightarrow> cur \<le> e \<Longrightarrow> e \<le> min (cur + chunk) tip \<Longrightarrow>
      Q (e + 1) (estimate_next_chunk_size chunk (length new)) (acc @ new) (n + 1) (snd (save e t))"
    and fail: "\<And>cur chunk acc n s x t. Q cur chunk acc n s \<Longrightarrow> cur \<le> end_block \<Longrightarrow> 0 \<le> chunk \<Longrightarrow>
      scan_chunk E cur (min (cur + chunk) tip) s = (Inl x, t) \<Longrightarrow> R (Inl x) t"
    and finish: "\<And>cur chunk acc n s. Q cur chunk acc n s \<Longrightarrow> end_block < cur \<Longrightarrow> R (Inr (acc, n)) s"
  shows "\<exists>r t. scan_from E tip cur end_block chunk acc n s = Some (r, t) \<and> R r t"
  using assms(2,3)
proof (induction "nat (end_block + 1 - cur)" arbitrary: cur chunk acc n s rule: less_induct)
  case less
  show ?case
  proof (cases "cur \<le> end_block")
    case False
    then show ?thesis using finish [OF less.prems(2)] by (subst scan_from.simps) simp
  next
    case True
    obtain r t where c: "scan_chunk E cur (min (cur + chunk) tip) s = (r, t)" by force
    show ?thesis
    proof (cases r)
      case (Inl x)
      then show ?thesis using fail [OF less.prems(2) True less.prems(1)] c True by (subst scan_from.simps) simp
    next
      case (Inr v)
      obtain e new where v: "v = (e, new)" by force
      have "cur \<le> min (cur + chunk) tip" using True assms(1) less.prems(1) by simp
      note e = scan_chunk_result(3) [OF c this, of e new]
      then have e: "cur \<le> e" "e \<le> min (cur + chunk) tip" using Inr v by blast+
      have "0 \<le> estimate_next_chunk_size chunk (length new)"
        using estimate_bounds(1) [of chunk "length new"] by (simp add: MIN_SCAN_CHUNK_SIZE_def)
      moreover have "nat (end_block + 1 - (e + 1)) < nat (end_block + 1 - cur)" using e True by simp
      ultimately have "\<exists>r u. scan_from E tip (e + 1) end_block (estimate_next_chunk_size chunk (length new)) (acc @ new) (n + 1)
          (snd (save e t)) = Some (r, u) \<and> R r u"
        using step [OF less.prems(2) True less.prems(1) c [unfolded Inr v] e] by (intro less.hyps)
      moreover have "min e tip = e" using e by simp
      ultimately show ?thesis using c Inr v True by (subst scan_from.simps) simp
    qed
  qed
qed

section \<open>Nothing is left out\<close>

definition in_blocks :: "int \<Rightarrow> int \<Rightarrow> transfer_event list \<Rightarrow> transfer_event list" where
  "in_blocks a b L = filter (\<lambda>ev. a \<le> te_block ev \<and> te_block ev \<le> b) L"

text \<open>A node answers with the events of the chain in the range it was asked for, or fails.\<close>

definition answers_with :: "eth_node \<Rightarrow> transfer_event list \<Rightarrow> bool" where
  "answers_with E L \<longleftrightarrow> (\<forall>n a b evs. en_logs E n a b = Inr evs \<longrightarrow> evs = in_blocks a b L)"

definition found_upto :: "transfer_event list \<Rightarrow> int \<Rightarrow> scan_state \<Rightarrow> bool" where
  "found_upto L b s \<longleftrightarrow> (\<forall>ev \<in> set L. MIN_SCAN_START_BLOCK < te_block ev \<and> te_block ev \<le> b \<longrightarrow> found s ev)"

text \<open>The users of every transfer up to the stored block have been queued.\<close>

definition covered :: "transfer_event list \<Rightarrow> scan_state \<Rightarrow> bool" where
  "covered L s \<longleftrightarrow> (case stored_block s of Inl x \<Rightarrow> True | Inr b \<Rightarrow> found_upto L b s)"

lemma stored_block_save [simp]: "stored_block (snd (save n s)) = Inr n"
proof -
  obtain c cs where "show_int n = c # cs" using show_int_not_Nil [of n] by (cases "show_int n") auto
  then show ?thesis using read_show_int [of n] by (simp add: stored_block_def save_def modify_def)
qed

lemma found_save [simp]: "found (snd (save n s)) ev = found s ev"
  by (simp add: save_def modify_def found_def users_of_wallets_def)

lemma found_upto_save [simp]: "found_upto L b (snd (save n s)) = found_upto L b s"
  by (simp add: found_upto_def)

lemma frame_found_upto: "scan_frame s t \<Longrightarrow> found_upto L b s \<Longrightarrow> found_upto L b t"
  using found_later by (auto simp: found_upto_def)

lemma frame_stored: "scan_frame s t \<Longrightarrow> stored_block t = stored_block s"
  by (simp add: scan_frame_def stored_block_def split: option.split list.split)

lemma frame_covered: "scan_frame s t \<Longrightarrow> covered L s \<Longrightarrow> covered L t"
  by (auto simp: covered_def frame_stored frame_found_upto split: sum.splits)

lemma chunk_events:
  assumes "scan_chunk E a b s = (Inr (e, ps), t)" and "a \<le> b" and "answers_with E L"
  shows "ps = map event_pointer (in_blocks a e L)" and "\<forall>ev \<in> set (in_blocks a e L). found t ev"
  using scan_chunk_result(3) [OF assms(1,2) refl] assms(3) by (auto simp: answers_with_def)

lemma scan_covers:
  assumes "answers_with E L" and "0 \<le> chunk" and "covered L s" and "found_upto L (cur - 1) s"
  shows "\<exists>r t. scan_from E tip cur tip chunk acc n s = Some (r, t) \<and> covered L t \<and> (\<forall>v. r = Inr v \<longrightarrow> found_upto L tip t)"
proof (rule scan_loop [where Q = "\<lambda>cur chunk acc n s. covered L s \<and> found_upto L (cur - 1) s", OF order_refl assms(2)])
  show "covered L s \<and> found_upto L (cur - 1) s" using assms(3,4) ..
next
  fix cur chunk acc n s e new t
  assume s: "covered L s \<and> found_upto L (cur - 1) s" and chunk: "cur \<le> tip" "0 \<le> chunk"
    and c: "scan_chunk E cur (min (cur + chunk) tip) s = (Inr (e, new), t)"
  have le: "cur \<le> min (cur + chunk) tip" using chunk by simp
  have "found_upto L (cur - 1) t" using frame_found_upto [OF scan_chunk_result(1) [OF c le]] s by blast
  then have "found_upto L e t"
    using chunk_events(2) [OF c le assms(1)] by (force simp: found_upto_def in_blocks_def not_le [symmetric])
  then show "covered L (snd (save e t)) \<and> found_upto L (e + 1 - 1) (snd (save e t))" by (simp add: covered_def)
next
  fix cur chunk and acc :: "string list" and n s x t
  assume s: "covered L s \<and> found_upto L (cur - 1) s" and chunk: "cur \<le> tip" "0 \<le> chunk"
    and c: "scan_chunk E cur (min (cur + chunk) tip) s = (Inl x, t)"
  have "cur \<le> min (cur + chunk) tip" using chunk by simp
  then show "covered L t \<and> (\<forall>v. Inl x = Inr v \<longrightarrow> found_upto L tip t)"
    using frame_covered [OF scan_chunk_result(1) [OF c]] s by simp
next
  fix cur chunk :: int and acc :: "string list" and n s
  assume "covered L s \<and> found_upto L (cur - 1) s" and "tip < cur"
  then show "covered L s \<and> (\<forall>v. Inr (acc, n) = Inr v \<longrightarrow> found_upto L tip s)"
    by (auto simp: found_upto_def)
qed

lemma restore_result:
  "restore s = (case stored_block s of Inl x \<Rightarrow> (Inl x, s) | Inr n \<Rightarrow> (Inr (), s\<lparr>sn_last := n\<rparr>))"
  by (simp add: restore_def py_simps split: sum.split)

lemma attributes [simp]:
  "found (s\<lparr>sn_last := n\<rparr>) ev = found s ev" "found (s\<lparr>sn_completed := c\<rparr>) ev = found s ev"
  "stored_block (s\<lparr>sn_last := n\<rparr>) = stored_block s" "stored_block (s\<lparr>sn_completed := c\<rparr>) = stored_block s"
  by (simp_all add: found_def users_of_wallets_def stored_block_def split: option.split list.split)

lemma covered_attributes [simp]:
  "found_upto L b (s\<lparr>sn_last := n\<rparr>) = found_upto L b s" "covered L (s\<lparr>sn_last := n\<rparr>) = covered L s"
  "found_upto L b (s\<lparr>sn_completed := c\<rparr>) = found_upto L b s" "covered L (s\<lparr>sn_completed := c\<rparr>) = covered L s"
  by (simp_all add: covered_def found_upto_def split: sum.split)

text \<open>C24: No transfer is ever left out: in every run of the scan, whichever requests fail, the users of all
  transfers up to the block it leaves stored have been put on the queue of balances to refresh,
  if that was so before.\<close>

theorem transfers_covered:
  assumes "answers_with E L" and "covered L s" and "index_eth have_lock now E s = Some (r, t)"
  shows "covered L t"
proof (cases "have_lock \<and> (\<exists>latest b. en_block_number E = Inr latest \<and> stored_block s = Inr b)")
  case False
  then show ?thesis
    using assms(2,3) by (auto simp: index_eth_def index_eth_transfer_events_def restore_result bnd_def lift_res_def split: sum.splits if_splits)
next
  case True
  then obtain latest b where lb: "have_lock" "en_block_number E = Inr latest" "stored_block s = Inr b" by blast
  let ?start = "max (b - CHAIN_REORG_SAFETY_BLOCKS) 0" and ?tip = "get_suggested_scan_end_block latest"
  let ?s = "s\<lparr>sn_last := b\<rparr>"
  have "found_upto L b s" using assms(2) lb by (simp add: covered_def)
  then have "found_upto L (?start - 1) ?s"
    by (auto simp: found_upto_def CHAIN_REORG_SAFETY_BLOCKS_def MIN_SCAN_START_BLOCK_def max_def split: if_splits)
  then obtain r1 t1 where run: "scan_from E ?tip ?start ?tip START_CHUNK_SIZE [] 0 ?s = Some (r1, t1)"
      "covered L t1" "\<And>v. r1 = Inr v \<Longrightarrow> found_upto L ?tip t1"
    using scan_covers [OF assms(1), of START_CHUNK_SIZE ?s ?start ?tip "[]" 0] assms(2) by (auto simp: START_CHUNK_SIZE_def)
  then have "covered L (snd (save ?tip t1))" if "r1 = Inr v" for v
    using that by (simp add: covered_def)
  then show ?thesis
    using assms(2,3) lb run
    by (cases r1) (auto simp: index_eth_def index_eth_transfer_events_def restore_result scan_events_def Let_def
        bnd_def lift_res_def save_def modify_def split: if_splits)
qed

section \<open>One request\<close>

lemma in_blocks_append:
  assumes "sorted (map te_block L)" and "a \<le> b" and "b \<le> c + 1"
  shows "in_blocks a (b - 1) L @ in_blocks b c L = in_blocks a c L"
  using assms(1)
proof (induction L)
  case (Cons ev L)
  have later: "te_block ev \<le> te_block f" if "f \<in> set L" for f using Cons.prems that by simp
  have ih: "in_blocks a (b - 1) L @ in_blocks b c L = in_blocks a c L" using Cons by simp
  show ?case
  proof (cases "b \<le> te_block ev")
    case True
    then have "in_blocks a (b - 1) L = []" using later by (force simp: in_blocks_def filter_empty_conv)
    then show ?thesis using ih True assms(2) by (simp add: in_blocks_def)
  next
    case False
    then show ?thesis using ih assms(3) by (auto simp: in_blocks_def)
  qed
qed (simp add: in_blocks_def)

text \<open>C25: A scan in chunks of any size finds exactly what one request for the whole range would, in the
  order of the chain and each transfer once, queues their users, stores the end of the range and
  uses at most one chunk for each block.\<close>

theorem scan_as_one_request:
  assumes "answers_with E L" and "sorted (map te_block L)" and "start_block \<le> tip" and "0 \<le> chunk"
    and "scan_events E tip start_block tip chunk s = Some (Inr (found_events, n), t)"
  shows "found_events = map event_pointer (in_blocks start_block tip L) \<and> stored_block t = Inr tip \<and>
    (\<forall>ev \<in> set (in_blocks start_block tip L). found t ev) \<and> int n \<le> tip - start_block + 1"
proof -
  let ?Q = "\<lambda>cur chunk acc n s. acc = map event_pointer (in_blocks start_block (cur - 1) L) \<and> start_block \<le> cur \<and>
    cur \<le> tip + 1 \<and> int n \<le> cur - start_block \<and> (start_block < cur \<longrightarrow> stored_block s = Inr (cur - 1)) \<and>
    (\<forall>ev \<in> set (in_blocks start_block (cur - 1) L). found s ev)"
  let ?R = "\<lambda>r t. \<forall>acc n. r = Inr (acc, n) \<longrightarrow> acc = map event_pointer (in_blocks start_block tip L) \<and>
    stored_block t = Inr tip \<and> (\<forall>ev \<in> set (in_blocks start_block tip L). found t ev) \<and> int n \<le> tip - start_block + 1"
  have "\<exists>r t. scan_from E tip start_block tip chunk [] 0 s = Some (r, t) \<and> ?R r t"
  proof (rule scan_loop [where Q = ?Q, OF order_refl assms(4)])
    show "?Q start_block chunk [] 0 s" using assms(3) by (simp add: in_blocks_def)
  next
    fix cur chunk acc n s e new t
    assume s: "?Q cur chunk acc n s" and chunk: "cur \<le> tip" "0 \<le> chunk" and e: "cur \<le> e" "e \<le> min (cur + chunk) tip"
      and c: "scan_chunk E cur (min (cur + chunk) tip) s = (Inr (e, new), t)"
    have le: "cur \<le> min (cur + chunk) tip" using chunk by simp
    note new = chunk_events [OF c le assms(1)]
    have split: "in_blocks start_block e L = in_blocks start_block (cur - 1) L @ in_blocks cur e L"
      using in_blocks_append [OF assms(2)] s e(1) by simp
    have "\<forall>ev \<in> set (in_blocks start_block e L). found t ev"
      unfolding split using new(2) s found_later [OF scan_chunk_result(1) [OF c le]] by auto
    then show "?Q (e + 1) (estimate_next_chunk_size chunk (length new)) (acc @ new) (n + 1) (snd (save e t))"
      using s e new(1) split by simp
  next
    fix cur chunk acc n s
    assume "?Q cur chunk acc n s" and "tip < cur"
    moreover from this have "cur - 1 = tip" by linarith
    ultimately show "?R (Inr (acc, n)) s" using assms(3) by simp
  qed simp
  then show ?thesis using assms(5) by (auto simp: scan_events_def)
qed

section \<open>Requests\<close>

text \<open>C26: Every run returns, whatever the node answers, and asks only for ranges that are not empty, lie
  between the first and the last but one block, and have at most \<open>MAX_CHUNK_SCAN_SIZE\<close> blocks after
  their first.\<close>

theorem scan_requests_bounded:
  "\<exists>r t new. index_eth have_lock now E s = Some (r, t) \<and> sn_requests t = sn_requests s @ new \<and>
    list_all (\<lambda>(a, b). 0 \<le> a \<and> a \<le> b \<and> b \<le> a + MAX_CHUNK_SCAN_SIZE \<and> (\<exists>n. en_block_number E = Inr n \<and> b < n)) new"
proof (cases "have_lock \<and> (\<exists>latest b. en_block_number E = Inr latest \<and> stored_block s = Inr b \<and>
    max (b - CHAIN_REORG_SAFETY_BLOCKS) 0 \<le> get_suggested_scan_end_block latest)")
  case False
  then show ?thesis
    by (cases "en_block_number E"; cases "stored_block s"; cases have_lock)
      (auto simp: index_eth_def index_eth_transfer_events_def restore_result Let_def bnd_def lift_res_def modify_def)
next
  case True
  then obtain latest b where lb: "have_lock" "en_block_number E = Inr latest" "stored_block s = Inr b"
    "max (b - CHAIN_REORG_SAFETY_BLOCKS) 0 \<le> get_suggested_scan_end_block latest" by blast
  let ?start = "max (b - CHAIN_REORG_SAFETY_BLOCKS) 0" and ?tip = "get_suggested_scan_end_block latest"
  define small where "small new \<longleftrightarrow> (\<forall>(a, b) \<in> set new. 0 \<le> a \<and> a \<le> b \<and> b \<le> a + MAX_CHUNK_SCAN_SIZE \<and> b < latest)" for new
  let ?ok = "\<lambda>u. \<exists>new. sn_requests u = sn_requests s @ new \<and> small new"
  let ?Q = "\<lambda>cur chunk (acc :: string list) (n :: nat) u. ?ok u \<and> 0 \<le> cur \<and> chunk \<le> MAX_CHUNK_SCAN_SIZE"
  have more: "?ok t" if "?ok u" "0 \<le> cur" "cur \<le> ?tip" "0 \<le> chunk" "chunk \<le> MAX_CHUNK_SCAN_SIZE"
    "scan_chunk E cur (min (cur + chunk) ?tip) u = (r, t)" for cur chunk u r t
  proof -
    from that(1) obtain new where new: "sn_requests u = sn_requests s @ new" "small new" by blast
    have "cur \<le> min (cur + chunk) ?tip" using that(3,4) by simp
    from scan_chunk_result(2) [OF that(6) this] obtain more where more: "sn_requests t = sn_requests u @ more"
        "\<forall>(x, y) \<in> set more. x = cur \<and> cur \<le> y \<and> y \<le> min (cur + chunk) ?tip"
      by blast
    have "?tip < latest" by (simp add: get_suggested_scan_end_block_def ETH_BLOCK_TAIL_OFFSET_def)
    then have "small more" using more(2) that(2,5) by (fastforce simp: small_def)
    then show ?thesis using new more(1) by (intro exI [of _ "new @ more"]) (auto simp: small_def)
  qed
  have "\<exists>r t. scan_from E ?tip ?start ?tip START_CHUNK_SIZE [] 0 (s\<lparr>sn_last := b\<rparr>) = Some (r, t) \<and> ?ok t"
  proof (rule scan_loop [where Q = ?Q, OF order_refl])
    show "0 \<le> START_CHUNK_SIZE" by (simp add: START_CHUNK_SIZE_def)
    show "?Q ?start START_CHUNK_SIZE [] 0 (s\<lparr>sn_last := b\<rparr>)" by (simp add: START_CHUNK_SIZE_def MAX_CHUNK_SCAN_SIZE_def small_def)
  next
    fix cur chunk and acc :: "string list" and n u e and new :: "string list" and t
    assume u: "?Q cur chunk acc n u" "cur \<le> ?tip" "0 \<le> chunk" "cur \<le> e"
      and c: "scan_chunk E cur (min (cur + chunk) ?tip) u = (Inr (e, new), t)"
    have "?ok t" using more [OF _ _ u(2,3) _ c] u(1) by blast
    then show "?Q (e + 1) (estimate_next_chunk_size chunk (length new)) (acc @ new) (n + 1) (snd (save e t))"
      using u(1,4) estimate_bounds(2) by (simp add: save_def modify_def)
  next
    fix cur chunk and acc :: "string list" and n :: nat and u x t
    assume u: "?Q cur chunk acc n u" "cur \<le> ?tip" "0 \<le> chunk"
      and c: "scan_chunk E cur (min (cur + chunk) ?tip) u = (Inl x, t)"
    show "?ok t" using more [OF _ _ u(2,3) _ c] u(1) by blast
  qed blast
  then obtain r t where run: "scan_from E ?tip ?start ?tip START_CHUNK_SIZE [] 0 (s\<lparr>sn_last := b\<rparr>) = Some (r, t)" "?ok t"
    by blast
  then show ?thesis
    using lb by (cases r) (auto simp: small_def list_all_iff index_eth_def index_eth_transfer_events_def restore_result scan_events_def Let_def
        bnd_def lift_res_def save_def modify_def)
qed

section \<open>One block is enough\<close>

lemma readable_events:
  assumes "\<forall>ev \<in> set evs. te_log_index ev \<noteq> None \<and> (\<exists>v. en_block E (te_block ev) = Inr v)"
  shows "\<exists>ps t. process_scan_events E cache evs s = (Inr ps, t)"
  using assms
proof (induction evs arbitrary: cache s)
  case (Cons ev evs)
  obtain v where "en_block E (te_block ev) = Inr v" using Cons.prems by auto
  then have "\<exists>cache'. get_block_mined_timestamp E cache (te_block ev) = Inr cache'"
    by (simp add: get_block_mined_timestamp_def)
  then obtain cache' where c: "get_block_mined_timestamp E cache (te_block ev) = Inr cache'" by blast
  obtain s1 where s1: "process_scan_event ev s = (Inr (event_pointer ev), s1)"
    using process_scan_event_result by blast
  obtain ps t where "process_scan_events E cache' evs s1 = (Inr ps, t)" using Cons.IH [of cache' s1] Cons.prems by auto
  then show ?case using Cons.prems c s1 by (auto simp: py_simps)
qed (simp add: ret_def)

text \<open>The range of a chunk is halved after each failure, and thirty attempts are more than the fifteen
  that reach a single block.\<close>

lemma chunk_succeeds:
  assumes "\<forall>n a. \<exists>evs. en_logs E n a a = Inr evs"
    and "\<forall>n a b evs. en_logs E n a b = Inr evs \<longrightarrow> (\<forall>ev \<in> set evs. te_log_index ev \<noteq> None \<and> (\<exists>v. en_block E (te_block ev) = Inr v))"
    and "a \<le> b" and "b \<le> a + MAX_CHUNK_SCAN_SIZE"
  shows "\<exists>v t. scan_chunk E a b s = (Inr v, t)"
proof -
  have "nat (b - a) < 2 ^ 29" "MAX_REQUEST_RETRIES = Suc 29" "b = a + int (nat (b - a))"
    using assms(3,4) by (simp_all add: MAX_CHUNK_SCAN_SIZE_def MAX_REQUEST_RETRIES_def)
  then obtain e evs t where req: "retry_web3_call (fetch_events E) a b MAX_REQUEST_RETRIES s = (Inr (e, evs), t)"
    using retry_succeeds [of E a "nat (b - a)" 29 s] assms(1) by fastforce
  then have "\<exists>n. en_logs E n a e = Inr evs" using retry_result [OF req assms(3)] by blast
  then obtain ps u where "process_scan_events E [] evs t = (Inr ps, u)"
    using readable_events [of evs E "[]" t] assms(2) by blast
  then show ?thesis using req by (simp add: scan_chunk_def py_simps)
qed

lemma one_block_run:
  assumes "\<forall>n a. \<exists>evs. en_logs E n a a = Inr evs"
    and "\<forall>n a b evs. en_logs E n a b = Inr evs \<longrightarrow> (\<forall>ev \<in> set evs. te_log_index ev \<noteq> None \<and> (\<exists>v. en_block E (te_block ev) = Inr v))"
    and "en_block_number E = Inr latest" and "stored_block s = Inr b" and "0 < latest" and "b \<le> latest"
  shows "\<exists>t. index_eth True now E s = Some (Inr (), t) \<and> stored_block t = Inr (latest - 1) \<and> sn_completed t = Some now"
proof -
  let ?start = "max (b - CHAIN_REORG_SAFETY_BLOCKS) 0" and ?tip = "get_suggested_scan_end_block latest"
  let ?Q = "\<lambda>(cur :: int) chunk (acc :: string list) (n :: nat) (u :: scan_state). chunk \<le> MAX_CHUNK_SCAN_SIZE"
  have tip: "?tip = latest - 1" "?start \<le> ?tip"
    using assms(5,6) by (simp_all add: get_suggested_scan_end_block_def ETH_BLOCK_TAIL_OFFSET_def CHAIN_REORG_SAFETY_BLOCKS_def)
  have "\<exists>r t. scan_from E ?tip ?start ?tip START_CHUNK_SIZE [] 0 (s\<lparr>sn_last := b\<rparr>) = Some (r, t) \<and> (\<exists>v. r = Inr v)"
  proof (rule scan_loop [where Q = ?Q, OF order_refl])
    fix cur chunk :: int and u x t
    assume "?Q cur chunk [] 0 u" "cur \<le> ?tip" "0 \<le> chunk" and c: "scan_chunk E cur (min (cur + chunk) ?tip) u = (Inl x, t)"
    then have "cur \<le> min (cur + chunk) ?tip" "min (cur + chunk) ?tip \<le> cur + MAX_CHUNK_SCAN_SIZE" by linarith+
    from chunk_succeeds [OF assms(1,2) this, of u] c show "\<exists>v. Inl x = Inr v" by simp
  qed (simp_all add: estimate_bounds START_CHUNK_SIZE_def MAX_CHUNK_SCAN_SIZE_def [symmetric], simp add: MAX_CHUNK_SCAN_SIZE_def)
  then obtain v t where run: "scan_from E ?tip ?start ?tip START_CHUNK_SIZE [] 0 (s\<lparr>sn_last := b\<rparr>) = Some (Inr v, t)" by blast
  obtain u where save: "save (latest - 1) t = (Inr (), u)" by (simp add: save_def modify_def)
  moreover have "\<not> latest - 1 < ?start" using tip by linarith
  then have "(latest - 1 < ?start) = False" by (rule Eq_FalseI [THEN meta_eq_to_obj_eq])
  ultimately have "index_eth True now E s = Some (Inr (), u\<lparr>sn_completed := Some now\<rparr>)"
    using assms(3,4) run
    by (simp add: index_eth_def index_eth_transfer_events_def restore_result scan_events_def Let_def bnd_def lift_res_def
        modify_def tip(1))
  then show ?thesis using stored_block_save [of "latest - 1" t] save by simp
qed

text \<open>C27: A node that answers every request for a single block is enough: then the scan succeeds and ends
  with the last block but one stored, however many of the longer requests fail.\<close>

theorem one_block_enough:
  assumes "\<forall>n a. \<exists>evs. en_logs E n a a = Inr evs"
    and "\<forall>n a b evs. en_logs E n a b = Inr evs \<longrightarrow> (\<forall>ev \<in> set evs. te_log_index ev \<noteq> None \<and> (\<exists>v. en_block E (te_block ev) = Inr v))"
    and "en_block_number E = Inr latest" and "stored_block s = Inr b" and "0 < latest" and "b \<le> latest"
  shows "\<exists>t. index_eth True now E s = Some (Inr (), t) \<and> stored_block t = Inr (latest - 1) \<and> sn_completed t = Some now"
  using one_block_run [OF assms] .

section \<open>A sample\<close>

definition sample_events :: "int \<Rightarrow> transfer_event list" where
  "sample_events base =
     [\<lparr>te_log_index = Some 0, te_hash = ''a1'', te_block = base + 3, te_from = ''0xA'', te_to = ''0xB''\<rparr>,
      \<lparr>te_log_index = Some 0, te_hash = ''b1'', te_block = base + 12, te_from = ''0xC'', te_to = ''0xD''\<rparr>,
      \<lparr>te_log_index = Some 1, te_hash = ''b1'', te_block = base + 12, te_from = ''0xB'', te_to = ''0xE''\<rparr>]"

text \<open>A node that refuses every third request for more than one block.\<close>

definition sample_node :: "int \<Rightarrow> eth_node" where
  "sample_node base = \<lparr>en_block_number = Inr (base + 31), en_block = (\<lambda>b. Inr (Some b)),
     en_logs = (\<lambda>n a b. if n mod 3 = 0 \<and> a \<noteq> b then Inl (Raised ''ReadTimeout'') else Inr (in_blocks a b (sample_events base)))\<rparr>"

definition scan_user :: "int \<Rightarrow> string \<Rightarrow> inst" where
  "scan_user n w = row_of ''User'' [(''user_id'', PInt n), (''is_current'', PBool True), (''wallet'', PStr w)]"

definition sample_scan_state :: "string option \<Rightarrow> scan_state" where
  "sample_scan_state redis = \<lparr>sn_users = [scan_user 1 ''0xa'', scan_user 2 ''0xD''],
     sn_wallets = [\<lparr>aw_user_id = 3, aw_wallet = ''0xe'', aw_chain = ''eth'', aw_is_current = True, aw_is_delete = False,
       aw_blocknumber = PNone, aw_blockhash = PNone\<rparr>],
     sn_redis = redis, sn_block = None, sn_last = 0, sn_refresh = [], sn_requests = [], sn_completed = None\<rparr>"

lemma sample_scan:
  "map_option (\<lambda>(r, t). (r, sn_refresh t, sn_redis t, sn_block t, sn_requests t)) (index_eth True 7 (sample_node 0) (sample_scan_state (Some ''8''))) =
   Some (Inr (), [3, 2, 1], Some ''30'', Some 30, [(0, 20), (0, 10), (11, 21), (22, 30), (22, 26), (27, 30)])"
  by code_simp

lemma sample_node_ok:
  "answers_with (sample_node base) (sample_events base)"
  "\<forall>n a. \<exists>evs. en_logs (sample_node base) n a a = Inr evs"
  "\<forall>n a b evs. en_logs (sample_node base) n a b = Inr evs \<longrightarrow>
     (\<forall>ev \<in> set evs. te_log_index ev \<noteq> None \<and> (\<exists>v. en_block (sample_node base) (te_block ev) = Inr v))"
  by (auto simp: answers_with_def sample_node_def sample_events_def in_blocks_def)

lemma sample_stored: "stored_block (sample_scan_state None) = Inr MIN_SCAN_START_BLOCK"
  by (simp add: stored_block_def sample_scan_state_def)

lemma sample_scan_run:
  "\<exists>t. index_eth True 7 (sample_node MIN_SCAN_START_BLOCK) (sample_scan_state None) = Some (Inr (), t) \<and>
     stored_block t = Inr (MIN_SCAN_START_BLOCK + 30)"
  using one_block_run [OF sample_node_ok(2,3) _ sample_stored, of MIN_SCAN_START_BLOCK "MIN_SCAN_START_BLOCK + 31" 7]
  by (auto simp: sample_node_def MIN_SCAN_START_BLOCK_def)

lemma transfers_covered_witness:
  "\<exists>t. index_eth True 7 (sample_node MIN_SCAN_START_BLOCK) (sample_scan_state None) = Some (Inr (), t) \<and>
     list_all (found t) (sample_events MIN_SCAN_START_BLOCK)"
proof -
  obtain t where t: "index_eth True 7 (sample_node MIN_SCAN_START_BLOCK) (sample_scan_state None) = Some (Inr (), t)"
      "stored_block t = Inr (MIN_SCAN_START_BLOCK + 30)"
    using sample_scan_run by blast
  have "covered (sample_events MIN_SCAN_START_BLOCK) t"
    by (rule transfers_covered [OF sample_node_ok(1) _ t(1)])
      (auto simp: covered_def sample_stored found_upto_def)
  then show ?thesis using t by (simp add: covered_def found_upto_def sample_events_def)
qed

lemma scan_as_one_request_witness:
  "\<exists>n t. scan_events (sample_node 0) 30 0 30 20 (sample_scan_state None) =
     Some (Inr ([''3-a1-0'', ''12-b1-0'', ''12-b1-1''], n), t) \<and> n \<le> 31"
proof -
  have "map_option (\<lambda>(r, t). case r of Inl x \<Rightarrow> None | Inr (ps, n) \<Rightarrow> Some n) (scan_events (sample_node 0) 30 0 30 20 (sample_scan_state None)) = Some (Some 4)"
    by code_simp
  then obtain found_events n t where run: "scan_events (sample_node 0) 30 0 30 20 (sample_scan_state None) = Some (Inr (found_events, n), t)"
    by (cases "scan_events (sample_node 0) 30 0 30 20 (sample_scan_state None)") (auto split: sum.splits)
  have "found_events = map event_pointer (in_blocks 0 30 (sample_events 0)) \<and> stored_block t = Inr 30 \<and>
      (\<forall>ev \<in> set (in_blocks 0 30 (sample_events 0)). found t ev) \<and> int n \<le> 30 - 0 + 1"
    by (rule scan_as_one_request [OF sample_node_ok(1) _ _ _ run]) (simp_all add: sample_events_def)
  moreover have "map event_pointer (in_blocks 0 30 (sample_events 0)) = [''3-a1-0'', ''12-b1-0'', ''12-b1-1'']" by code_simp
  ultimately show ?thesis using run by auto
qed

lemma one_block_enough_witness:
  "\<exists>t. index_eth True 7 (sample_node 0) (sample_scan_state (Some ''8'')) = Some (Inr (), t) \<and> stored_block t = Inr (31 - 1) \<and> sn_completed t = Some 7"
proof (rule one_block_enough [OF sample_node_ok(2,3)])
  have "read_int ''8'' = Inr 8" by code_simp
  then show "stored_block (sample_scan_state (Some ''8'')) = Inr 8" by (simp add: stored_block_def sample_scan_state_def)
qed (simp_all add: sample_node_def)

end
