(* ===== verification/Spl_Token.thy ===== *)
theory Spl_Token
  imports User_Bank
begin

text \<open>
  tasks/index_spl_token.py: transfers of the token into user banks from outside, among them
  purchases, which a memo names.  The walk back to the last scanned slot remembers the pages it
  has seen in Redis; a page is stored in chunks of a hundred transactions.
\<close>

section \<open>Memos\<close>

definition PURCHASE_AUDIO_MEMO_PROGRAM :: string where
  "PURCHASE_AUDIO_MEMO_PROGRAM = ''Memo1UhkJRfHyvLMcVucJwxXeuD728EqVDDwQDxFMNo''"

definition TRANSFER_CHECKED_INSTRUCTION :: string where
  "TRANSFER_CHECKED_INSTRUCTION = ''Program log: Instruction: TransferChecked''"

definition SPL_TOKEN_ID :: string where "SPL_TOKEN_ID = ''TokenkegQfeZyiNwAJbNbGKPFXCWuBvf9Ss623VQ5DA''"
definition TX_SIGNATURES_PROCESSING_SIZE :: nat where "TX_SIGNATURES_PROCESSING_SIZE = 100"
definition MEMO_INSTRUCTION_INDEX :: int where "MEMO_INSTRUCTION_INDEX = 4"
definition RECEIVER_ACCOUNT_INDEX :: int where "RECEIVER_ACCOUNT_INDEX = 2"
definition SENDER_ACCOUNT_INDEX :: int where "SENDER_ACCOUNT_INDEX = 0"

definition purchase_vendor_map :: "(string, transaction_type) odict" where
  "purchase_vendor_map = [(''Link by Stripe'', Purchase_stripe), (''Coinbase Pay'', Purchase_coinbase),
     (''Unknown'', Purchase_unknown)]"

definition parse_memo_instruction :: "sol_tx \<Rightarrow> string result" where
  "parse_memo_instruction tx =
     (case find (\<lambda>inst. in_program_index inst = MEMO_INSTRUCTION_INDEX) (ms_instructions (st_message tx)) of
        None \<Rightarrow> Inr []
      | Some memo_instruction \<Rightarrow>
          bind_res (py_index (ms_account_keys (st_message tx)) MEMO_INSTRUCTION_INDEX) (\<lambda>memo_account.
          Inr (if memo_account \<noteq> PURCHASE_AUDIO_MEMO_PROGRAM then [] else in_data memo_instruction)))"

text \<open>\<open>str(bytes)\<close>: the literal of the bytes with its \<open>b\<close> and quotes.\<close>

definition repr_byte :: "char \<Rightarrow> 8 word \<Rightarrow> string" where
  "repr_byte quote b =
     (let n = unat b; c = char_of n in
      if c = quote \<or> c = CHR 92 then [CHR 92, c]
      else if n = 9 then [CHR 92, CHR ''t''] else if n = 10 then [CHR 92, CHR ''n'']
      else if n = 13 then [CHR 92, CHR ''r'']
      else if n < 32 \<or> 127 \<le> n then [CHR 92, CHR ''x'', hex_char (n div 16), hex_char (n mod 16)]
      else [c])"

definition repr_bytes :: "8 word list \<Rightarrow> string" where
  "repr_bytes bs =
     (let quote = (if 39 \<in> set bs \<and> 34 \<notin> set bs then CHR 34 else CHR 39)
      in [CHR ''b'', quote] @ concat (map (repr_byte quote) bs) @ [quote])"

definition decode_memo_and_extract_vendor :: "sol_env \<Rightarrow> string \<Rightarrow> string result" where
  "decode_memo_and_extract_vendor E memo_encoded =
     bind_res (se_b58decode E memo_encoded) (\<lambda>bytes.
     let memo = repr_bytes bytes
     in if \<not> is_infix ''In-App $AUDIO Purchase:'' memo then Inr []
        else bind_res (py_index (str_split CHR '':'' (butlast (tl memo))) 1) (\<lambda>part.
          let vendor = drop 1 part in Inr (if od_has purchase_vendor_map vendor then vendor else [])))"

section \<open>Transactions\<close>

record spl_info =
  sx_user_bank :: string
  sx_signature :: string
  sx_slot :: int
  sx_timestamp :: int
  sx_vendor :: "string option"
  sx_prebalance :: int
  sx_postbalance :: int
  sx_sender_wallet :: string
  sx_root_accounts :: "string list"
  sx_token_accounts :: "string list"

definition spl_transfer_info :: "sol_env \<Rightarrow> sol_tx \<Rightarrow> string \<Rightarrow> sol_instruction \<Rightarrow> spl_info option result" where
  "spl_transfer_info E tx signature instruction =
     bind_res (parse_memo_instruction tx) (\<lambda>memo_encoded.
     bind_res (if memo_encoded = [] then Inr None
         else bind_res (decode_memo_and_extract_vendor E memo_encoded) (\<lambda>v. Inr (Some v))) (\<lambda>vendor.
     bind_res (get_account_index instruction SENDER_ACCOUNT_INDEX) (\<lambda>sender_idx.
     bind_res (get_account_index instruction RECEIVER_ACCOUNT_INDEX) (\<lambda>receiver_idx.
     let account_keys = ms_account_keys (st_message tx); meta = st_meta tx in
     bind_res (py_index account_keys sender_idx) (\<lambda>sender_token_account.
     bind_res (py_index account_keys receiver_idx) (\<lambda>receiver_token_account.
     let sender_root_account = get_solana_tx_owner meta sender_idx;
         receiver_root_account = get_solana_tx_owner meta receiver_idx;
         (prebalance, postbalance) = get_solana_tx_token_balances meta receiver_idx
     in if postbalance = -1 \<or> prebalance = -1 then Inr None
        else if postbalance - prebalance = 0 then Inr None
        else Inr (Some \<lparr>sx_user_bank = receiver_token_account, sx_signature = signature,
          sx_slot = st_slot tx, sx_timestamp = st_block_time tx, sx_vendor = vendor,
          sx_prebalance = prebalance, sx_postbalance = postbalance, sx_sender_wallet = sender_root_account,
          sx_root_accounts = [sender_root_account, receiver_root_account],
          sx_token_accounts = [sender_token_account, receiver_token_account]\<rparr>)))))))"

text \<open>Only the client raises \<open>UnsupportedVersionError\<close>.\<close>

definition parse_spl_token_transaction :: "sol_env \<Rightarrow> sig_info \<Rightarrow> spl_info option result" where
  "parse_spl_token_transaction E tx_sig =
     (case se_tx E (si_signature tx_sig) of
        Inl x \<Rightarrow> if x = Raised ''UnsupportedVersionError'' then Inr None else Inl x
      | Inr tx \<Rightarrow>
          let meta = st_meta tx in
          if mt_err meta then Inr None
          else if \<not> has_log meta TRANSFER_CHECKED_INSTRUCTION then Inr None
          else bind_res (get_valid_instruction (st_message tx) SPL_TOKEN_ID) (\<lambda>instr.
            case instr of
              None \<Rightarrow> Inr None
            | Some instruction \<Rightarrow>
                spl_transfer_info E tx (si_signature tx_sig) instruction))"

definition spl_audio_row :: "spl_info \<Rightarrow> audio_tx result" where
  "spl_audio_row tx_info =
     (let change = sx_postbalance tx_info - sx_prebalance tx_info;
          row = audio_row (sx_user_bank tx_info) (sx_slot tx_info) (sx_signature tx_info)
      in case sx_vendor tx_info of
           Some (c # cs) \<Rightarrow> (case od_get purchase_vendor_map (c # cs) of
               None \<Rightarrow> Inl KeyError
             | Some ty \<Rightarrow> Inr (row ty Receive (sx_timestamp tx_info) change (sx_postbalance tx_info) None))
         | _ \<Rightarrow> Inr (row Transfer Receive (sx_timestamp tx_info) change (sx_postbalance tx_info)
             (Some (sx_sender_wallet tx_info))))"

definition process_spl_token_transactions :: "spl_info list \<Rightarrow> string list \<Rightarrow> audio_tx list result" where
  "process_spl_token_transactions txs user_bank_set =
     map_res spl_audio_row (filter (\<lambda>tx_info. sx_user_bank tx_info \<in> set user_bank_set) txs)"

section \<open>A chunk\<close>

definition get_latest_slot :: "sol_state \<Rightarrow> int option" where
  "get_latest_slot s = (case so_spl s of [] \<Rightarrow> None | (slot, sig) # _ \<Rightarrow> Some slot)"

definition users_of_roots :: "sol_state \<Rightarrow> string list \<Rightarrow> int list" where
  "users_of_roots s roots = map aw_user_id (filter (\<lambda>w. aw_is_current w \<and> \<not> aw_is_delete w \<and> aw_chain w = ''sol'' \<and>
     aw_wallet w \<in> set roots) (so_wallets s))"

definition set_last_scanned :: "sig_info \<Rightarrow> unit so" where
  "set_last_scanned tx =
     modify (\<lambda>s. s\<lparr>so_spl := (si_slot tx, si_signature tx) # drop 1 (so_spl s)\<rparr>)"

definition spl_db_key :: string where "spl_db_key = ''latest_sol_program_tx:spl_token:db''"
definition spl_program_key :: string where "spl_program_key = ''latest_sol_program_tx:spl_token:chain''"

definition cache_latest_spl_audio_db_tx :: "sig_info \<Rightarrow> unit so" where
  "cache_latest_spl_audio_db_tx tx = cache_latest_sol_db_tx spl_db_key
     \<lparr>cx_signature = si_signature tx, cx_slot = si_slot tx, cx_timestamp = si_block_time tx\<rparr>"

text \<open>\<open>bulk_save_objects\<close> inserts at once, and fails on a key that is there.\<close>

definition insert_history :: "audio_tx list \<Rightarrow> unit so" where
  "insert_history audio_txs =
     run_when (audio_txs \<noteq> []) (sq (add_history audio_txs)
       (bnd (gets keys_ok) (\<lambda>ok. require ok (Raised ''IntegrityError''))))"

definition store_chunk :: "sol_env \<Rightarrow> string \<Rightarrow> sig_info list \<Rightarrow> spl_info list \<Rightarrow> unit so" where
  "store_chunk E user_bank_owner tx_sig_batch_records txs =
     (let updated_token_accounts = concat (map sx_token_accounts txs);
          updated_root_accounts = filter (\<lambda>r. r \<noteq> user_bank_owner) (concat (map sx_root_accounts txs))
      in bnd (gets (\<lambda>s. users_of_accounts s updated_token_accounts)) (\<lambda>user_result.
         bnd (lift_res (process_spl_token_transactions txs (map snd user_result))) (\<lambda>audio_txs.
         sq (insert_history audio_txs) (
         bnd (gets (\<lambda>s. users_of_roots s updated_root_accounts)) (\<lambda>associated_wallet_set.
         sq (enqueue_immediate_balance_refresh (remdups (map fst user_result @ associated_wallet_set))) (
         case tx_sig_batch_records of
           [] \<Rightarrow> ret ()
         | last_tx # _ \<Rightarrow> sq (cache_latest_spl_audio_db_tx last_tx) (set_last_scanned last_tx)))))))"

text \<open>The threads finish in the order of \<open>se_rank\<close>; the base address of the user banks is the owner.\<close>

definition parse_sol_tx_batch :: "sol_env \<Rightarrow> string \<Rightarrow> sig_info list \<Rightarrow> unit so" where
  "parse_sol_tx_batch E user_bank_owner tx_sig_batch_records =
     bnd (lift_res (map_res (parse_spl_token_transaction E) (sort_key (\<lambda>t. se_rank E (si_signature t)) tx_sig_batch_records))) (\<lambda>infos.
     sol_session (store_chunk E user_bank_owner tx_sig_batch_records (List.map_filter (\<lambda>i. i) infos)))"

fun split_list :: "nat \<Rightarrow> 'a list \<Rightarrow> 'a list list" where
  "split_list n xs = (if xs = [] \<or> n = 0 then [] else take n xs # split_list n (drop n xs))"

declare split_list.simps [simp del]

section \<open>The walk\<close>

text \<open>The list in Redis, newest page first; its second element is read too, and not used.\<close>

fun drop_traversed :: "int \<Rightarrow> sig_info list \<Rightarrow> string option \<times> sig_info list" where
  "drop_traversed latest [] = (None, [])"
| "drop_traversed latest (tx # cache) =
     (let cache' = (if length cache = 1 then [] else cache)
      in if si_slot tx > latest then (Some (si_signature tx), cache')
         else if length cache = 1 then (None, []) else drop_traversed latest cache)"

definition fetch_traversed_tx_from_cache :: "int option \<Rightarrow> sig_info list \<Rightarrow> string option \<times> sig_info list" where
  "fetch_traversed_tx_from_cache latest_db_slot cache =
     (case latest_db_slot of None \<Rightarrow> (None, cache) | Some latest \<Rightarrow> drop_traversed latest cache)"

definition traverse_page :: "int option \<Rightarrow> sig_info list \<Rightarrow> sig_info list \<times> bool" where
  "traverse_page latest txs =
     (case latest of
        None \<Rightarrow> (txs, True)
      | Some n \<Rightarrow> (takeWhile (\<lambda>t. si_slot t > n) txs, list_ex (\<lambda>t. si_slot t \<le> n) txs))"

partial_function (option) spl_walk ::
    "sol_env \<Rightarrow> int option \<Rightarrow> nat \<Rightarrow> string option \<Rightarrow> sig_info list list \<Rightarrow> sol_state \<Rightarrow>
     (sig_info list list result \<times> sol_state) option" where
  "spl_walk E latest fetch_size last_tx batches s =
     (case se_source E last_tx fetch_size of
        Inl x \<Rightarrow> Some (Inl x, s)
      | Inr txs \<Rightarrow>
          if txs = [] then Some (Inr batches, s)
          else
            let (batch, found) = traverse_page latest txs; batches' = add_batch batches batch;
                s' = s\<lparr>so_seen := List.last txs # so_seen s\<rparr>
            in if found then Some (Inr batches', s')
               else spl_walk E latest FETCH_TX_SIGNATURES_BATCH_SIZE (Some (si_signature (List.last txs))) batches' s')"

declare spl_walk.simps [code]

definition process_spl_token_tx :: "sol_env \<Rightarrow> string \<Rightarrow> sol_state \<Rightarrow> (unit result \<times> sol_state) option" where
  "process_spl_token_tx E user_bank_owner s =
     (if \<not> se_valid_program E then Some (Inr (), s)
      else
        let latest_processed_slot = get_latest_slot s;
            (cached_offset_tx, seen) = fetch_traversed_tx_from_cache latest_processed_slot (so_seen s)
        in map_option (\<lambda>(r, t). bnd (lift_res r) (\<lambda>batches.
               for_each (concat (map (split_list TX_SIGNATURES_PROCESSING_SIZE) (rev batches))) (parse_sol_tx_batch E user_bank_owner)) t)
             (spl_walk E latest_processed_slot INITIAL_FETCH_SIZE cached_offset_tx [] (s\<lparr>so_seen := seen\<rparr>)))"

definition index_spl_token :: "sol_env \<Rightarrow> string \<Rightarrow> sol_state \<Rightarrow> (unit result \<times> sol_state) option" where
  "index_spl_token E user_bank_owner s =
     (case fetch_and_cache_latest_program_tx_redis E spl_program_key s of
        (Inl x, t) \<Rightarrow> Some (Inl x, t)
      | (Inr u, t) \<Rightarrow> if se_have_lock E then process_spl_token_tx E user_bank_owner t else Some (Inr (), t))"

end
