(* ===== verification/Spl_Properties.thy ===== *)
theory Spl_Properties
  imports Spl_Token Sol_Properties
begin

text \<open>
  What the indexer of the token program guarantees: every row it adds to the history is a
  change of balance that the chain shows, and a run that succeeds misses none; and a row that is stored
  again makes its chunk fail.
\<close>

section \<open>Rows\<close>

text \<open>An instruction whose receiver is the bank, with these balances before and after.\<close>

definition shows_balances :: "sol_tx \<Rightarrow> string \<Rightarrow> int \<Rightarrow> int \<Rightarrow> bool" where
  "shows_balances tx bank pre post \<longleftrightarrow> list_ex (\<lambda>instruction. case get_account_index instruction RECEIVER_ACCOUNT_INDEX of
       Inl x \<Rightarrow> False
     | Inr idx \<Rightarrow> py_index (ms_account_keys (st_message tx)) idx = Inr bank \<and>
         get_solana_tx_token_balances (st_meta tx) idx = (pre, post)) (ms_instructions (st_message tx))"

definition received_row :: "sol_env \<Rightarrow> bank_account list \<Rightarrow> audio_tx \<Rightarrow> bool" where
  "received_row E banks a \<longleftrightarrow>
     (case se_tx E (at_signature a) of
        Inl x \<Rightarrow> False
      | Inr tx \<Rightarrow> \<not> mt_err (st_meta tx) \<and> has_log (st_meta tx) TRANSFER_CHECKED_INSTRUCTION \<and>
          at_slot a = st_slot tx \<and> at_created_at a = st_block_time tx \<and> at_method a = Receive \<and>
          at_transaction_type a \<in> {Transfer, Purchase_stripe, Purchase_coinbase, Purchase_unknown} \<and>
          at_change a \<noteq> 0 \<and> at_user_bank a \<in> ba_bank_account ` set banks \<and>
          shows_balances tx (at_user_bank a) (at_balance a - at_change a) (at_balance a))"

definition parsed_info :: "sol_env \<Rightarrow> spl_info \<Rightarrow> bool" where
  "parsed_info E i \<longleftrightarrow> (\<exists>t. parse_spl_token_transaction E t = Inr (Some i))"

lemma bind_res_InrE: "bind_res r f = Inr y \<Longrightarrow> (\<And>x. r = Inr x \<Longrightarrow> f x = Inr y \<Longrightarrow> P) \<Longrightarrow> P"
  by (cases r) auto

lemma transfer_info:
  assumes "spl_transfer_info E tx h instr = Inr (Some i)"
  shows "\<exists>idx. get_account_index instr RECEIVER_ACCOUNT_INDEX = Inr idx \<and>
    py_index (ms_account_keys (st_message tx)) idx = Inr (sx_user_bank i) \<and>
    get_solana_tx_token_balances (st_meta tx) idx = (sx_prebalance i, sx_postbalance i) \<and>
    sx_signature i = h \<and> sx_slot i = st_slot tx \<and> sx_timestamp i = st_block_time tx \<and> sx_postbalance i \<noteq> sx_prebalance i"
  using assms unfolding spl_transfer_info_def Let_def
  by (elim bind_res_InrE) (auto split: prod.splits if_splits)

lemma vendor_types:
  "od_get purchase_vendor_map v = Some ty \<Longrightarrow> ty \<in> {Purchase_stripe, Purchase_coinbase, Purchase_unknown}"
  by (simp add: purchase_vendor_map_def split: if_splits)

lemma spl_row_fields:
  assumes "spl_audio_row i = Inr a"
  shows "at_user_bank a = sx_user_bank i \<and> at_signature a = sx_signature i \<and> at_slot a = sx_slot i \<and>
      at_method a = Receive \<and> at_created_at a = sx_timestamp i \<and> at_balance a = sx_postbalance i \<and>
      at_change a = sx_postbalance i - sx_prebalance i \<and>
      at_transaction_type a \<in> {Transfer, Purchase_stripe, Purchase_coinbase, Purchase_unknown}"
proof (cases "\<exists>c cs. sx_vendor i = Some (c # cs)")
  case False
  then show ?thesis using assms
    by (auto simp: spl_audio_row_def audio_row_def Let_def split: option.splits list.splits)
next
  case True
  then obtain c cs ty where v: "sx_vendor i = Some (c # cs)" "od_get purchase_vendor_map (c # cs) = Some ty"
    using assms by (auto simp: spl_audio_row_def Let_def split: option.splits)
  then show ?thesis using assms vendor_types [OF v(2)] by (auto simp: spl_audio_row_def audio_row_def Let_def)
qed

lemma parsed_row:
  assumes "parsed_info E i" and "spl_audio_row i = Inr a" and "sx_user_bank i \<in> ba_bank_account ` set banks"
  shows "received_row E banks a"
proof -
  obtain t where p: "parse_spl_token_transaction E t = Inr (Some i)" using assms(1) by (auto simp: parsed_info_def)
  obtain tx where se: "se_tx E (si_signature t) = Inr tx"
    using p by (auto simp: parse_spl_token_transaction_def split: sum.splits if_splits)
  have ok: "\<not> mt_err (st_meta tx)" "has_log (st_meta tx) TRANSFER_CHECKED_INSTRUCTION"
    using p se by (simp_all add: parse_spl_token_transaction_def Let_def split: if_splits)
  obtain instr where instr: "get_valid_instruction (st_message tx) SPL_TOKEN_ID = Inr (Some instr)"
    using p se ok by (auto simp: parse_spl_token_transaction_def Let_def bind_res_Inr split: option.splits)
  have "spl_transfer_info E tx (si_signature t) instr = Inr (Some i)"
    using p se ok instr by (simp add: parse_spl_token_transaction_def Let_def)
  from transfer_info [OF this] obtain idx where
      idx: "get_account_index instr RECEIVER_ACCOUNT_INDEX = Inr idx" "py_index (ms_account_keys (st_message tx)) idx = Inr (sx_user_bank i)"
      and bal: "get_solana_tx_token_balances (st_meta tx) idx = (sx_prebalance i, sx_postbalance i)"
      and tx: "se_tx E (sx_signature i) = Inr tx" "sx_slot i = st_slot tx" "sx_timestamp i = st_block_time tx"
        "sx_postbalance i \<noteq> sx_prebalance i"
    using se by auto
  have "instr \<in> set (ms_instructions (st_message tx))"
    using instr by (auto simp: get_valid_instruction_def bind_res_Inr find_Some_iff)
  then have pays: "shows_balances tx (sx_user_bank i) (sx_prebalance i) (sx_postbalance i)"
    using idx bal unfolding shows_balances_def list_ex_iff by (intro bexI [of _ instr]) simp_all
  note row = spl_row_fields [OF assms(2)]
  show ?thesis using pays tx ok assms(3) row by (simp add: received_row_def)
qed

lemma processed_rows:
  assumes "process_spl_token_transactions txs banks = Inr rows" and "\<forall>i \<in> set txs. parsed_info E i"
    and "set banks \<subseteq> ba_bank_account ` set A"
  shows "list_all (received_row E A) rows"
proof -
  have "received_row E A a" if "a \<in> set rows" for a
    using assms that parsed_row map_res_mem unfolding process_spl_token_transactions_def by fastforce
  then show ?thesis by (simp add: list_all_iff)
qed

section \<open>The history\<close>

definition history_added :: "sol_env \<Rightarrow> bank_account list \<Rightarrow> audio_tx list \<Rightarrow> sol_state \<Rightarrow> bool" where
  "history_added E A H s \<longleftrightarrow> so_accounts s = A \<and> (\<exists>new. so_history s = H @ new \<and> list_all (received_row E A) new)"

lemma keeps_session:
  assumes "keeps I m" and "\<And>s t. I s \<Longrightarrow> I (roll_back_sol s t)"
  shows "keeps I (sol_session m)"
proof (rule keepsI)
  fix s assume "I s"
  then show "I (snd (sol_session m s))"
    using keepsD [OF assms(1), of s] assms(2) [of s] by (cases "m s") (auto simp: sol_session_def split: sum.split)
qed

lemma users_banks: "snd ` set (users_of_accounts s accts) \<subseteq> ba_bank_account ` set (so_accounts s)"
  by (auto simp: users_of_accounts_def)

lemma keeps_history_chunk:
  assumes "\<forall>i \<in> set txs. parsed_info E i"
  shows "keeps (history_added E A H) (store_chunk E bank_owner records txs)"
proof -
  let ?I = "history_added E A H"
  have insert: "keeps ?I (insert_history rows)" if "list_all (received_row E A) rows" for rows
    unfolding insert_history_def add_history_def
    by (intro keeps_rules keeps_modify) (use that in \<open>auto simp: history_added_def\<close>)
  have rest: "keeps ?I (enqueue_immediate_balance_refresh ids)" "keeps ?I (cache_latest_spl_audio_db_tx tx)" "keeps ?I (set_last_scanned tx)" for ids tx
    unfolding enqueue_immediate_balance_refresh_def cache_latest_spl_audio_db_tx_def cache_latest_sol_db_tx_def set_last_scanned_def
    by (intro keeps_rules keeps_modify; simp add: history_added_def)+
  have banks: "gives ?I (gets (\<lambda>s. users_of_accounts s accts)) (\<lambda>r. set (map snd r) \<subseteq> ba_bank_account ` set A)" for accts
  proof (rule gives_gets)
    fix s assume "?I s"
    then show "set (map snd (users_of_accounts s accts)) \<subseteq> ba_bank_account ` set A"
      using users_banks [of s accts] by (simp add: history_added_def)
  qed
  have rows: "gives ?I (lift_res (process_spl_token_transactions txs (map snd r))) (list_all (received_row E A))"
    if "set (map snd r) \<subseteq> ba_bank_account ` set A" for r :: "(int \<times> string) list"
    by (rule gives_lift_res) (rule processed_rows [OF _ assms that])
  show ?thesis
    unfolding store_chunk_def Let_def
    by (rule keeps_bnd_gives [OF banks], rule keeps_bnd_gives [OF rows], assumption)
      (auto intro!: keeps_rules insert rest split: list.split)
qed

lemma keeps_history_batch: "keeps (history_added E A H) (parse_sol_tx_batch E bank_owner records)"
proof -
  have parsed: "\<forall>i \<in> set (List.map_filter (\<lambda>i. i) infos). parsed_info E i"
    if "map_res (parse_spl_token_transaction E) xs = Inr infos" for xs infos
  proof -
    have "\<exists>x \<in> set xs. parse_spl_token_transaction E x = Inr y" if "y \<in> set infos" for y
      using \<open>map_res _ xs = _\<close> that by (rule map_res_mem)
    then show ?thesis by (force simp: map_filter_def parsed_info_def)
  qed
  show ?thesis
    unfolding parse_sol_tx_batch_def
    by (rule keeps_bnd_gives [OF gives_lift_res [OF parsed]], assumption)
      (auto intro!: keeps_session keeps_history_chunk simp: history_added_def roll_back_sol_def)
qed

lemma spl_walk_frame:
  assumes "spl_walk E latest k last_tx batches s = Some rt"
  shows "\<exists>seen. snd rt = s\<lparr>so_seen := seen\<rparr>"
proof (rule spl_walk.raw_induct [where P = "\<lambda>E latest k last_tx batches s rt. \<exists>seen. snd rt = s\<lparr>so_seen := seen\<rparr>", OF _ assms], goal_cases)
  case (1 walk E latest k last_tx batches s rt)
  show ?case
  proof (cases "se_source E last_tx k")
    case (Inl x)
    then have "snd rt = s\<lparr>so_seen := so_seen s\<rparr>" using 1(2) by auto
    then show ?thesis by blast
  next
    case (Inr txs)
    let ?s = "s\<lparr>so_seen := List.last txs # so_seen s\<rparr>"
    have "snd rt = s\<lparr>so_seen := so_seen s\<rparr> \<or> snd rt = ?s \<or>
        (\<exists>k b bs. walk E latest k b bs ?s = Some rt)"
      using 1(2) Inr by (auto simp: Let_def case_prod_beta split: if_splits)
    then consider "snd rt = s\<lparr>so_seen := so_seen s\<rparr>" | "snd rt = ?s" | k' b bs where "walk E latest k' b bs ?s = Some rt" by blast
    then show ?thesis
    proof cases
      case (3 k' b bs)
      from 1(1) [OF this] show ?thesis by auto
    qed blast+
  qed
qed

section \<open>The walk ends\<close>

text \<open>Wherever a remembered page makes it start, the walk comes to the end of the history.\<close>

lemma page_rest: "\<exists>older rest. H = older @ rest \<and> (\<forall>k. page_of H b k = take k rest)"
proof (cases b)
  case (Some h)
  have headed: "ys = take 1 ys @ tl ys" for ys :: "sig_info list" by (cases ys) simp_all
  have "H = takeWhile (\<lambda>t. si_signature t \<noteq> h) H @ dropWhile (\<lambda>t. si_signature t \<noteq> h) H" by simp
  also have "dropWhile (\<lambda>t. si_signature t \<noteq> h) H =
      take 1 (dropWhile (\<lambda>t. si_signature t \<noteq> h) H) @ after h H"
    unfolding after_def by (rule headed)
  finally show ?thesis using Some by (metis page_of_def append.assoc option.simps(5))
next
  case None
  then have "H = [] @ H \<and> (\<forall>k. page_of H b k = take k H)" by (simp add: page_of_def)
  then show ?thesis by blast
qed

lemma spl_walk_rest:
  assumes "serves (se_source E) H" and "history_ok H" and "k > 0" and "H = older @ rest"
    and "\<And>n. page_of H b n = take n rest"
  shows "\<exists>r. spl_walk E latest k b batches s = Some r"
  using assms(3-)
proof (induction "length rest" arbitrary: older rest b k batches s rule: less_induct)
  case less
  show ?case
  proof (cases "\<exists>x. se_source E b k = Inl x")
    case True
    then show ?thesis by (auto simp: spl_walk.simps [of E latest k])
  next
    case False
    let ?txs = "take k rest" and ?rest = "drop k rest"
    have source: "se_source E b k = Inr ?txs"
      using False assms(1) unfolding less.prems(3) [symmetric] serves_def by blast
    show ?thesis
    proof (cases "rest = []")
      case True
      then show ?thesis using source by (simp add: spl_walk.simps [of E latest k])
    next
      case nonempty: False
      then have txs: "?txs \<noteq> []" using less.prems(1) by simp
      have "H = (older @ butlast ?txs) @ List.last ?txs # ?rest"
        using less.prems(2) txs by (metis append.assoc append_Cons append_Nil append_butlast_last_id append_take_drop_id)
      then have "after (si_signature (List.last ?txs)) H = ?rest"
        using assms(2) by (intro after_nth) (simp_all add: history_ok_def)
      then have next_page: "page_of H (Some (si_signature (List.last ?txs))) n = take n ?rest" for n
        by (simp add: page_of_def)
      have "\<exists>r. spl_walk E latest FETCH_TX_SIGNATURES_BATCH_SIZE (Some (si_signature (List.last ?txs))) bs t = Some r" for bs t
        by (rule less.hyps [of ?rest FETCH_TX_SIGNATURES_BATCH_SIZE "older @ ?txs"])
          (use nonempty less.prems(1,2) next_page in \<open>simp_all add: FETCH_TX_SIGNATURES_BATCH_SIZE_def\<close>)
      then show ?thesis
        using source txs by (simp add: spl_walk.simps [of E latest k] Let_def case_prod_beta)
    qed
  qed
qed

lemma spl_walk_returns:
  assumes "serves (se_source E) H" and "history_ok H" and "k > 0"
  shows "\<exists>r t. spl_walk E latest k b batches s = Some (r, t)"
proof -
  obtain older rest where "H = older @ rest" "\<And>n. page_of H b n = take n rest" using page_rest by blast
  from spl_walk_rest [OF assms this] show ?thesis by auto
qed

section \<open>A run\<close>

lemma keeps_history_latest:
  "keeps (history_added E A H) (fetch_and_cache_latest_program_tx_redis E key)"
  unfolding fetch_and_cache_latest_program_tx_redis_def cache_latest_sol_db_tx_def
  by (auto intro!: keeps_rules keeps_modify simp: history_added_def split: list.split)

lemma history_added_run:
  assumes "process_spl_token_tx E bank_owner s = Some (r, t)" and "history_added E A H s"
  shows "history_added E A H t"
proof (cases "se_valid_program E")
  case True
  obtain offset seen where cache: "fetch_traversed_tx_from_cache (get_latest_slot s) (so_seen s) = (offset, seen)" by force
  let ?batch = "parse_sol_tx_batch E bank_owner"
  let ?all = "\<lambda>batches. for_each (concat (map (split_list TX_SIGNATURES_PROCESSING_SIZE) (rev batches))) ?batch"
  obtain w u where walk: "spl_walk E (get_latest_slot s) INITIAL_FETCH_SIZE offset [] (s\<lparr>so_seen := seen\<rparr>) = Some (w, u)"
      and run: "bnd (lift_res w) ?all u = (r, t)"
    using assms(1) True by (auto simp: process_spl_token_tx_def cache Let_def)
  obtain seen' where "u = (s\<lparr>so_seen := seen\<rparr>)\<lparr>so_seen := seen'\<rparr>" using spl_walk_frame [OF walk] by auto
  then have "history_added E A H u" using assms(2) by (simp add: history_added_def)
  moreover have "keeps (history_added E A H) (bnd (lift_res w) ?all)"
    by (intro keeps_rules keeps_history_batch)
  ultimately show ?thesis using run keepsD by fastforce
qed (use assms in \<open>simp add: process_spl_token_tx_def\<close>)

lemma process_spl_returns:
  assumes "serves (se_source E) H" and "history_ok H"
  shows "\<exists>r t. process_spl_token_tx E bank_owner s = Some (r, t)"
proof (cases "se_valid_program E")
  case True
  obtain offset seen where cache: "fetch_traversed_tx_from_cache (get_latest_slot s) (so_seen s) = (offset, seen)" by force
  have "\<exists>w u. spl_walk E (get_latest_slot s) INITIAL_FETCH_SIZE offset [] (s\<lparr>so_seen := seen\<rparr>) = Some (w, u)"
    using spl_walk_returns [OF assms, of INITIAL_FETCH_SIZE] unfolding INITIAL_FETCH_SIZE_def by simp
  then obtain w u where "spl_walk E (get_latest_slot s) INITIAL_FETCH_SIZE offset [] (s\<lparr>so_seen := seen\<rparr>) = Some (w, u)" by blast
  then show ?thesis using True by (simp add: process_spl_token_tx_def cache Let_def)
qed (simp add: process_spl_token_tx_def)

text \<open>C14: The indexer of token transfers always returns, and every row it adds to the history is a
  transfer the chain confirms: the transaction did not fail and logs a checked transfer, the
  bank is one of the stored banks, and the balance and change are those before and after.\<close>

theorem spl_history_sound:
  assumes "serves (se_source E) H" and "history_ok H"
  shows "\<exists>r t new. index_spl_token E bank_owner s = Some (r, t) \<and> so_history t = so_history s @ new \<and>
    list_all (received_row E (so_accounts s)) new"
proof -
  obtain r0 s1 where first: "fetch_and_cache_latest_program_tx_redis E spl_program_key s = (r0, s1)" by force
  have "history_added E (so_accounts s) (so_history s) s" by (simp add: history_added_def)
  from keepsD [OF keeps_history_latest [of _ _ _ spl_program_key] this]
  have s1: "history_added E (so_accounts s) (so_history s) s1" by (simp add: first)
  obtain r t where run: "process_spl_token_tx E bank_owner s1 = Some (r, t)"
    using process_spl_returns [OF assms] by blast
  have t: "history_added E (so_accounts s) (so_history s) t" by (rule history_added_run [OF run s1])
  show ?thesis
  proof (cases "r0 = Inr () \<and> se_have_lock E")
    case True
    then have "index_spl_token E bank_owner s = Some (r, t)" using first run by (simp add: index_spl_token_def)
    then show ?thesis using t by (auto simp: history_added_def)
  next
    case False
    then have "\<exists>r'. index_spl_token E bank_owner s = Some (r', s1)"
      using first by (cases r0) (simp_all add: index_spl_token_def)
    then show ?thesis using s1 by (auto simp: history_added_def)
  qed
qed

section \<open>A run that succeeds\<close>

lemma chunk_stored:
  assumes "parse_sol_tx_batch E bank_owner records s = (Inr (), t)" and "records \<noteq> []"
  shows "get_latest_slot t = Some (si_slot (hd records))"
proof -
  obtain infos where "sol_session (store_chunk E bank_owner records infos) s = (Inr (), t)"
    using assms(1) by (auto simp: parse_sol_tx_batch_def bnd_Inr lift_res_def)
  then have "store_chunk E bank_owner records infos s = (Inr (), t)"
    by (auto simp: sol_session_def split: prod.splits sum.splits if_splits)
  moreover obtain tx rest where "records = tx # rest" using assms(2) by (cases records) auto
  ultimately obtain u where "set_last_scanned tx u = (Inr (), t)"
    unfolding store_chunk_def Let_def bnd_Inr sq_Inr by (auto simp: sq_Inr)
  then show ?thesis using \<open>records = tx # rest\<close>
    by (auto simp: set_last_scanned_def modify_def get_latest_slot_def)
qed

lemma chunk_starts:
  assumes "page \<noteq> []"
  shows "split_list 100 page \<noteq> [] \<and> List.last (split_list 100 page) = drop (100 * ((length page - 1) div 100)) page \<and>
    list_all (\<lambda>c. c \<noteq> []) (split_list 100 page)"
  using assms
proof (induction "100::nat" page rule: split_list.induct)
  case (1 page)
  show ?case
  proof (cases "length page \<le> 100")
    case True
    then have "(length page - 1) div 100 = 0" by simp
    then show ?thesis using True 1(2) by (simp add: split_list.simps [of 100 page] split_list.simps [of 100 "[]"])
  next
    case False
    have "(length page - 1) div 100 = Suc ((length (drop 100 page) - 1) div 100)"
      using False by (simp add: le_div_geq)
    moreover have "drop 100 page \<noteq> []" using False by simp
    moreover note 1(1) [OF _ this]
    ultimately show ?thesis using 1(2)
      by (simp add: split_list.simps [of 100 page] algebra_simps)
  qed
qed

lemma chunks_stored:
  assumes "for_each chunks (parse_sol_tx_batch E bank_owner) s = (Inr (), t)" and "chunks \<noteq> []"
    and "list_all (\<lambda>c. c \<noteq> []) chunks"
  shows "get_latest_slot t = Some (si_slot (hd (List.last chunks)))"
  using assms
proof (induction chunks arbitrary: s)
  case (Cons c cs)
  then obtain u where c: "parse_sol_tx_batch E bank_owner c s = (Inr (), u)"
      and cs: "for_each cs (parse_sol_tx_batch E bank_owner) u = (Inr (), t)"
    by (auto simp: sq_Inr)
  show ?case
  proof (cases "cs = []")
    case True
    then show ?thesis using chunk_stored [OF c] cs Cons.prems(3) by (simp add: ret_def)
  next
    case False
    then show ?thesis using Cons.IH [OF cs] Cons.prems(3) by simp
  qed
qed simp

text \<open>The rows the transactions have a claim to: a parsed transfer to a bank of a current user.\<close>

definition owned_bank :: "sol_state \<Rightarrow> string \<Rightarrow> bool" where
  "owned_bank s bank \<longleftrightarrow> (\<exists>u \<in> set (so_users s). \<exists>a \<in> set (so_accounts s).
     is_current_row u \<and> ba_bank_account a = bank \<and> attr u ''wallet'' = PStr (ba_ethereum_address a))"

definition rows_due :: "sol_env \<Rightarrow> sol_state \<Rightarrow> sig_info list \<Rightarrow> audio_tx set" where
  "rows_due E s txs = {a. \<exists>u \<in> set txs. \<exists>i. parse_spl_token_transaction E u = Inr (Some i) \<and>
     owned_bank s (sx_user_bank i) \<and> spl_audio_row i = Inr a}"

definition same_banks :: "sol_state \<Rightarrow> sol_state \<Rightarrow> bool" where
  "same_banks s t \<longleftrightarrow> so_users t = so_users s \<and> so_accounts t = so_accounts s"

lemma rows_due_same: "same_banks s t \<Longrightarrow> rows_due E t txs = rows_due E s txs"
  by (simp add: rows_due_def owned_bank_def same_banks_def)

lemma rows_due_set: "set xs = set ys \<Longrightarrow> rows_due E s xs = rows_due E s ys"
  by (simp only: rows_due_def)

lemma banks_found: "bank \<in> set accts \<Longrightarrow> bank \<in> snd ` set (users_of_accounts s accts) \<longleftrightarrow> owned_bank s bank"
  by (force simp: users_of_accounts_def owned_bank_def)

lemma info_bank: "parse_spl_token_transaction E u = Inr (Some i) \<Longrightarrow> sx_user_bank i \<in> set (sx_token_accounts i)"
proof -
  assume p: "parse_spl_token_transaction E u = Inr (Some i)"
  then obtain tx where "se_tx E (si_signature u) = Inr tx"
    by (auto simp: parse_spl_token_transaction_def split: sum.splits if_splits)
  with p obtain instr where "spl_transfer_info E tx (si_signature u) instr = Inr (Some i)"
    by (auto simp: parse_spl_token_transaction_def Let_def bind_res_Inr split: option.splits if_splits)
  then show "sx_user_bank i \<in> set (sx_token_accounts i)"
    unfolding spl_transfer_info_def Let_def by (elim bind_res_InrE) (auto split: prod.splits if_splits)
qed

lemma stored_rows:
  assumes "process_spl_token_transactions txs (map snd (users_of_accounts s (concat (map sx_token_accounts txs)))) = Inr rows"
    and "\<forall>i \<in> set txs. sx_user_bank i \<in> set (sx_token_accounts i)"
  shows "set rows = {a. \<exists>i \<in> set txs. owned_bank s (sx_user_bank i) \<and> spl_audio_row i = Inr a}"
proof -
  let ?accts = "concat (map sx_token_accounts txs)"
  have "sx_user_bank i \<in> snd ` set (users_of_accounts s ?accts) \<longleftrightarrow> owned_bank s (sx_user_bank i)" if "i \<in> set txs" for i
    using that assms(2) by (intro banks_found) auto
  note owned = this
  have "a \<in> set rows \<longleftrightarrow> (\<exists>i \<in> set txs. sx_user_bank i \<in> snd ` set (users_of_accounts s ?accts) \<and> spl_audio_row i = Inr a)" for a
    unfolding map_res_mem_iff [OF assms(1) [unfolded process_spl_token_transactions_def]] by auto
  then show ?thesis using owned by blast
qed

lemma store_chunk_rows:
  assumes "store_chunk E bank_owner records txs s = (Inr (), t)"
    and "\<forall>i \<in> set txs. sx_user_bank i \<in> set (sx_token_accounts i)"
  shows "same_banks s t \<and>
    set (so_history t) = set (so_history s) \<union> {a. \<exists>i \<in> set txs. owned_bank s (sx_user_bank i) \<and> spl_audio_row i = Inr a}"
proof -
  let ?P = "\<lambda>B s0. so_history s0 = B \<and> same_banks s s0"
  have frame: "keeps (?P B) (gets f)" "keeps (?P B) (enqueue_immediate_balance_refresh ids)"
      "keeps (?P B) (cache_latest_spl_audio_db_tx tx)" "keeps (?P B) (set_last_scanned tx)" for B ids tx and f :: "sol_state \<Rightarrow> int list"
    unfolding enqueue_immediate_balance_refresh_def cache_latest_spl_audio_db_tx_def cache_latest_sol_db_tx_def set_last_scanned_def
    by (intro keeps_rules keeps_modify; simp add: same_banks_def)+
  obtain rows s1 where rows: "process_spl_token_transactions txs
        (map snd (users_of_accounts s (concat (map sx_token_accounts txs)))) = Inr rows"
      and ins: "insert_history rows s = (Inr (), s1)"
      and rest: "bnd (gets (\<lambda>s. users_of_roots s (filter (\<lambda>r. r \<noteq> bank_owner) (concat (map sx_root_accounts txs))))) (\<lambda>ws.
        sq (enqueue_immediate_balance_refresh (remdups (map fst (users_of_accounts s (concat (map sx_token_accounts txs))) @ ws)))
          (case records of [] \<Rightarrow> ret () | last_tx # _ \<Rightarrow> sq (cache_latest_spl_audio_db_tx last_tx) (set_last_scanned last_tx))) s1 = (Inr (), t)"
    using assms(1) by (auto simp: store_chunk_def Let_def bnd_Inr sq_Inr run_Inr)
  have s1: "so_history s1 = so_history s @ rows" "same_banks s s1"
    using ins by (auto simp: insert_history_def add_history_def run_when_def same_banks_def py_simps split: if_splits)
  have "keeps (?P (so_history s1)) (bnd (gets (\<lambda>s. users_of_roots s (filter (\<lambda>r. r \<noteq> bank_owner) (concat (map sx_root_accounts txs))))) (\<lambda>ws.
        sq (enqueue_immediate_balance_refresh (remdups (map fst (users_of_accounts s (concat (map sx_token_accounts txs))) @ ws)))
          (case records of [] \<Rightarrow> ret () | last_tx # _ \<Rightarrow> sq (cache_latest_spl_audio_db_tx last_tx) (set_last_scanned last_tx))))"
    by (intro keeps_rules frame) (auto intro!: keeps_rules frame split: list.split)
  from keepsD [OF this, of s1] rest s1 have "so_history t = so_history s @ rows" "same_banks s t" by simp_all
  then show ?thesis using stored_rows [OF rows assms(2)] by auto
qed

lemma batch_rows:
  assumes "parse_sol_tx_batch E bank_owner records s = (Inr (), t)"
  shows "same_banks s t \<and> set (so_history t) = set (so_history s) \<union> rows_due E s records"
proof -
  obtain infos where infos: "map_res (parse_spl_token_transaction E) (sort_key (\<lambda>t. se_rank E (si_signature t)) records) = Inr infos"
      and run: "sol_session (store_chunk E bank_owner records (List.map_filter (\<lambda>i. i) infos)) s = (Inr (), t)"
    using assms by (auto simp: parse_sol_tx_batch_def bnd_Inr run_Inr)
  have parsed: "i \<in> set (List.map_filter (\<lambda>i. i) infos) \<longleftrightarrow> (\<exists>u \<in> set records. parse_spl_token_transaction E u = Inr (Some i))" for i
    using map_res_mem_iff [OF infos, of "Some i"] by (force simp: map_filter_def)
  have "store_chunk E bank_owner records (List.map_filter (\<lambda>i. i) infos) s = (Inr (), t)"
    using run by (auto simp: sol_session_def split: prod.splits sum.splits if_splits)
  from store_chunk_rows [OF this] parsed info_bank
  have "same_banks s t \<and> set (so_history t) = set (so_history s) \<union>
      {a. \<exists>i \<in> set (List.map_filter (\<lambda>i. i) infos). owned_bank s (sx_user_bank i) \<and> spl_audio_row i = Inr a}" by blast
  then show ?thesis using parsed unfolding rows_due_def by blast
qed

lemma chunks_rows:
  assumes "for_each chunks (parse_sol_tx_batch E bank_owner) s = (Inr (), t)"
  shows "same_banks s t \<and> set (so_history t) = set (so_history s) \<union> rows_due E s (concat chunks)"
  using assms
proof (induction chunks arbitrary: s)
  case (Cons c cs)
  then obtain u where c: "parse_sol_tx_batch E bank_owner c s = (Inr (), u)"
      and cs: "for_each cs (parse_sol_tx_batch E bank_owner) u = (Inr (), t)"
    by (auto simp: sq_Inr)
  from batch_rows [OF c] Cons.IH [OF cs] rows_due_same [of s u E "concat cs"] show ?case
    by (auto simp: same_banks_def rows_due_def)
qed (simp add: ret_def same_banks_def rows_due_def)

text \<open>What the walk collects, page by page: what is above the last scanned slot.\<close>

lemma spl_walk_new:
  assumes "serves (se_source E) H" and "history_ok H" and "k > 0" and "H = older @ rest"
    and "\<And>m. page_of H b m = take m rest"
    and "few_pages (length batches) k (length (takeWhile (\<lambda>t. n < si_slot t) rest))"
    and "spl_walk E (Some n) k b batches s = Some (Inr bs, t)"
  shows "\<exists>more. bs = batches @ more \<and> concat more = takeWhile (\<lambda>t. n < si_slot t) rest \<and> [] \<notin> set more \<and>
    (more \<noteq> [] \<longrightarrow> length (hd more) \<le> k)"
  using assms(3-)
proof (induction "length rest" arbitrary: older rest b k batches s rule: less_induct)
  case less
  let ?P = "\<lambda>t. n < si_slot t" and ?txs = "take k rest" and ?rest = "drop k rest"
  let ?batch = "takeWhile ?P ?txs"
  have source: "se_source E b k = Inr ?txs"
  proof (cases "se_source E b k")
    case (Inl x)
    then show ?thesis using less.prems(5) by (simp add: spl_walk.simps [of E "Some n" k])
  next
    case (Inr y)
    then show ?thesis using assms(1) less.prems(3) unfolding serves_def by (metis sum.distinct(1))
  qed
  show ?case
  proof (cases "rest = []")
    case True
    then show ?thesis using less.prems(5) source by (simp add: spl_walk.simps [of E "Some n" k])
  next
    case nonempty: False
    then have txs: "?txs \<noteq> []" using less.prems(1) by simp
    show ?thesis
    proof (cases "list_ex (\<lambda>t. \<not> ?P t) ?txs")
      case True
      have stop: "takeWhile ?P rest = ?batch"
        using True by (metis append_take_drop_id list_ex_iff takeWhile_append1)
      then have "add_batch batches ?batch = batches @ (if ?batch = [] then [] else [?batch])"
        using less.prems(4) by (auto simp: few_pages_def add_batch_def resize_def)
      moreover have "bs = add_batch batches ?batch"
        using less.prems(5) source txs True by (simp add: spl_walk.simps [of E "Some n" k] traverse_page_def not_less Let_def)
      moreover have "length ?batch \<le> k" by (metis le_trans length_take length_takeWhile_le min.cobounded2)
      ultimately show ?thesis using stop by (intro exI [of _ "if ?batch = [] then [] else [?batch]"]) auto
    next
      case all: False
      then have batch: "?batch = ?txs" by (simp add: takeWhile_eq_all_conv list_ex_iff)
      have split: "takeWhile ?P rest = ?txs @ takeWhile ?P ?rest"
        using all by (metis append_take_drop_id list_ex_iff takeWhile_append2)
      have few: "few_pages (length batches) k (length ?txs + length (takeWhile ?P ?rest))"
        using less.prems(4) split by simp
      have full: "length ?txs = k" if "length (takeWhile ?P ?rest) \<noteq> 0"
      proof -
        have "?rest \<noteq> []" using that by auto
        then show ?thesis by simp
      qed
      have add_len: "length (add_batch batches ?txs) \<le> length batches + (if length ?txs = 0 then 0 else 1)"
        using length_add_batch [of batches ?txs] by (simp only: length_0_conv)
      have fp: "length batches + (if length ?txs = 0 then 0 else 1) \<le> TX_SIGNATURES_MAX_BATCHES"
          "few_pages (length (add_batch batches ?txs)) FETCH_TX_SIGNATURES_BATCH_SIZE (length (takeWhile ?P ?rest))"
        by (rule few_pages_step [OF few _ less.prems(1) add_len], erule full)+
      have add: "add_batch batches ?txs = batches @ [?txs]"
      proof -
        have "length batches + 1 \<le> TX_SIGNATURES_MAX_BATCHES" using fp(1) txs by (simp only: length_0_conv if_False)
        then show ?thesis using txs by (simp add: add_batch_def resize_def)
      qed
      have "H = (older @ butlast ?txs) @ List.last ?txs # ?rest"
        using less.prems(2) txs by (metis append.assoc append_Cons append_Nil append_butlast_last_id append_take_drop_id)
      then have "after (si_signature (List.last ?txs)) H = ?rest"
        using assms(2) by (intro after_nth) (simp_all add: history_ok_def)
      then have next_page: "page_of H (Some (si_signature (List.last ?txs))) m = take m ?rest" for m
        by (simp add: page_of_def)
      have run: "spl_walk E (Some n) FETCH_TX_SIGNATURES_BATCH_SIZE (Some (si_signature (List.last ?txs)))
          (batches @ [?txs]) (s\<lparr>so_seen := List.last ?txs # so_seen s\<rparr>) = Some (Inr bs, t)"
      proof -
        have "traverse_page (Some n) ?txs = (?txs, False)"
          using all by (simp add: traverse_page_def batch) (simp add: not_less list_ex_iff)
        then show ?thesis
          using less.prems(5) source txs add by (simp add: spl_walk.simps [of E "Some n" k] Let_def)
      qed
      have "\<exists>more. bs = (batches @ [?txs]) @ more \<and> concat more = takeWhile ?P ?rest \<and> [] \<notin> set more \<and>
          (more \<noteq> [] \<longrightarrow> length (hd more) \<le> FETCH_TX_SIGNATURES_BATCH_SIZE)"
        by (rule less.hyps [OF _ _ _ next_page _ run, of "older @ ?txs"])
          (use nonempty less.prems(1,2) fp(2) add in \<open>simp_all add: FETCH_TX_SIGNATURES_BATCH_SIZE_def\<close>)
      then obtain more where "bs = (batches @ [?txs]) @ more" "concat more = takeWhile ?P ?rest" "[] \<notin> set more" by blast
      then show ?thesis using txs split by (intro exI [of _ "?txs # more"]) auto
    qed
  qed
qed

text \<open>Where a run starts: below the newest remembered page above the last scanned slot.\<close>

definition spl_start :: "sol_state \<Rightarrow> sig_info list \<Rightarrow> sig_info list" where
  "spl_start s H = (case fst (fetch_traversed_tx_from_cache (get_latest_slot s) (so_seen s)) of None \<Rightarrow> H | Some h \<Rightarrow> after h H)"

lemma set_split_list: "set (concat (split_list (Suc n) xs)) = set xs"
proof (induction "Suc n" xs rule: split_list.induct)
  case (1 xs)
  show ?case
  proof (cases "xs = []")
    case True
    then show ?thesis by (simp add: split_list.simps)
  next
    case False
    then have "set (concat (split_list (Suc n) xs)) = set (take (Suc n) xs) \<union> set (drop (Suc n) xs)"
      using 1 by (simp add: split_list.simps [of "Suc n" xs])
    then show ?thesis by (simp flip: set_append)
  qed
qed

lemma chunks_of_batches: "set (concat (concat (map (split_list TX_SIGNATURES_PROCESSING_SIZE) bs))) = set (concat bs)"
proof (induction bs)
  case (Cons b bs)
  have "set (concat (split_list TX_SIGNATURES_PROCESSING_SIZE b)) = set b"
    using set_split_list [of 99 b] by (simp add: TX_SIGNATURES_PROCESSING_SIZE_def)
  then show ?case using Cons.IH by (simp only: list.map concat.simps concat_append set_append)
qed simp

text \<open>The page fetched first is stored last, in one chunk.\<close>

lemma last_chunk_stored:
  assumes "for_each (concat (map (split_list TX_SIGNATURES_PROCESSING_SIZE) (rev bs))) (parse_sol_tx_batch E bank_owner) s = (Inr (), t)"
    and "bs \<noteq> []" and "[] \<notin> set bs" and "length (hd bs) \<le> 100"
  shows "get_latest_slot t = Some (si_slot (hd (concat bs)))"
proof -
  let ?chunks = "concat (map (split_list 100) (rev bs))"
  obtain b more where bs: "bs = b # more" using assms(2) by (cases bs) auto
  then have b: "b \<noteq> []" "length b \<le> 100" using assms(3,4) by auto
  then have one: "split_list 100 b = [b]" by (simp add: split_list.simps [of 100 b] split_list.simps [of 100 "[]"])
  have "list_all (\<lambda>c. c \<noteq> []) (split_list 100 x)" if "x \<in> set bs" for x
    using chunk_starts [of x] that assms(3) by auto
  then have "list_all (\<lambda>c. c \<noteq> []) ?chunks" by (auto simp: list_all_iff)
  moreover have "?chunks = concat (map (split_list 100) (rev more)) @ [b]" by (simp add: bs one)
  ultimately show ?thesis
    using chunks_stored [OF assms(1) [unfolded TX_SIGNATURES_PROCESSING_SIZE_def]] b bs by simp
qed

text \<open>C15: Once a slot has been scanned, a run of the indexer of token transfers that succeeds is complete: the rows it adds are those of all
  transactions above the last scanned slot, below the point where it starts, that are transfers to the
  bank of a current user, and the last scanned slot becomes that of the newest of them.  At most 99010
  transactions, a hundred pages, may be new.  The run starts at the front of the history unless an earlier
  one left a page in Redis that is above the last scanned slot; then it starts below that page.\<close>

theorem spl_complete:
  assumes "serves (se_source E) H" and "history_ok H" and "se_valid_program E" and "se_have_lock E"
    and "get_latest_slot s = Some n" and "length (filter (\<lambda>u. n < si_slot u) (spl_start s H)) \<le> 99010"
    and "index_spl_token E bank_owner s = Some (Inr (), t)"
  shows "set (so_history t) = set (so_history s) \<union> rows_due E s (filter (\<lambda>u. n < si_slot u) (spl_start s H)) \<and>
    get_latest_slot t = Some (case filter (\<lambda>u. n < si_slot u) (spl_start s H) of [] \<Rightarrow> n | u # _ \<Rightarrow> si_slot u)"
proof -
  let ?start = "spl_start s H"
  let ?P = "\<lambda>u. n < si_slot u" and ?batch = "parse_sol_tx_batch E bank_owner"
  let ?chunks = "\<lambda>bs. concat (map (split_list TX_SIGNATURES_PROCESSING_SIZE) (rev bs))"
  obtain s1 where first: "fetch_and_cache_latest_program_tx_redis E spl_program_key s = (Inr (), s1)"
      and run: "process_spl_token_tx E bank_owner s1 = Some (Inr (), t)"
    using assms(4,7) by (auto simp: index_spl_token_def split: prod.splits sum.splits)
  have s1: "same_banks s s1" "so_history s1 = so_history s" "so_spl s1 = so_spl s" "so_seen s1 = so_seen s"
    using first by (auto simp: fetch_and_cache_latest_program_tx_redis_def cache_latest_sol_db_tx_def same_banks_def py_simps
        split: list.splits sum.splits)
  then have n: "get_latest_slot s1 = Some n" using assms(5) by (simp add: get_latest_slot_def)
  obtain offset seen where cache: "fetch_traversed_tx_from_cache (Some n) (so_seen s1) = (offset, seen)" by force
  obtain bs u where walk: "spl_walk E (Some n) INITIAL_FETCH_SIZE offset [] (s1\<lparr>so_seen := seen\<rparr>) = Some (Inr bs, u)"
      and chunks: "for_each (?chunks bs) ?batch u = (Inr (), t)"
    using run assms(3) n cache by (auto simp: process_spl_token_tx_def bnd_Inr run_Inr)
  obtain older where H: "H = older @ ?start" and page: "\<And>m. page_of H offset m = take m ?start"
  proof -
    obtain older rest where *: "H = older @ rest" "\<And>m. page_of H offset m = take m rest" using page_rest by blast
    have "take m ?start = page_of H offset m" for m
      using cache assms(5) s1(4) by (simp add: spl_start_def page_of_def split: option.split)
    then have "take (max (length ?start) (length rest)) ?start = take (max (length ?start) (length rest)) rest" using *(2) by simp
    then have "?start = rest" by simp
    then show thesis using * that by simp
  qed
  have "sorted_wrt (\<lambda>t u. si_slot u \<le> si_slot t) ?start"
    using assms(2) H by (metis history_ok_def sorted_wrt_append)
  then have "sorted_wrt (\<lambda>t u. si_slot u \<le> si_slot t) (dropWhile ?P ?start)"
    by (metis sorted_wrt_append takeWhile_dropWhile_id)
  then have "\<not> ?P x" if "x \<in> set (dropWhile ?P ?start)" for x
    using that hd_dropWhile [of ?P ?start] by (cases "dropWhile ?P ?start") auto
  then have new: "takeWhile ?P ?start = filter ?P ?start" by (rule takeWhile_eq_filter)
  have "\<exists>more. bs = [] @ more \<and> concat more = takeWhile ?P ?start \<and> [] \<notin> set more \<and>
      (more \<noteq> [] \<longrightarrow> length (hd more) \<le> INITIAL_FETCH_SIZE)"
    by (rule spl_walk_new [OF assms(1,2) _ H page _ walk])
      (use assms(6) in \<open>simp_all add: new few_pages_start, simp add: INITIAL_FETCH_SIZE_def\<close>)
  then have bs: "concat bs = filter ?P ?start" "[] \<notin> set bs" "bs \<noteq> [] \<Longrightarrow> length (hd bs) \<le> 100"
    by (auto simp: new INITIAL_FETCH_SIZE_def)
  obtain seen' where u: "u = s1\<lparr>so_seen := seen'\<rparr>" using spl_walk_frame [OF walk] by auto
  then have banks: "same_banks s u" "so_history u = so_history s" "get_latest_slot u = Some n"
    using s1 n by (simp_all add: same_banks_def get_latest_slot_def)
  have "rows_due E u (concat (?chunks bs)) = rows_due E s (filter ?P ?start)"
  proof -
    have "set (concat (?chunks bs)) = set (concat bs)" unfolding chunks_of_batches by simp
    then have "rows_due E u (concat (?chunks bs)) = rows_due E u (concat bs)" by (rule rows_due_set)
    then show ?thesis using rows_due_same [OF banks(1)] by (simp only: bs(1))
  qed
  then have "set (so_history t) = set (so_history s) \<union> rows_due E s (filter ?P ?start)"
    using chunks_rows [OF chunks] banks(2) by simp
  moreover have "get_latest_slot t = Some (case filter ?P ?start of [] \<Rightarrow> n | u # _ \<Rightarrow> si_slot u)"
  proof (cases "bs = []")
    case True
    then show ?thesis using bs(1) banks(3) chunks by (simp add: ret_def flip: bs(1))
  next
    case False
    moreover from this have "concat bs \<noteq> []" using bs(2) by (cases bs) auto
    ultimately show ?thesis using last_chunk_stored [OF chunks False bs(2) bs(3)] bs(1) by (simp split: list.split)
  qed
  ultimately show ?thesis by blast
qed

text \<open>A chunk that brings a row again fails at its insert, and leaves every table as it was.\<close>

lemma chunk_again:
  assumes "process_spl_token_transactions txs (map snd (users_of_accounts s (concat (map sx_token_accounts txs)))) = Inr rows"
    and "a \<in> set rows" and "b \<in> set (so_history s)"
    and "(at_user_bank a, at_signature a) = (at_user_bank b, at_signature b)"
  shows "\<exists>t. sol_session (store_chunk E bank_owner records txs) s = (Inl (Raised ''IntegrityError''), t) \<and>
    so_history t = so_history s \<and> so_spl t = so_spl s"
proof -
  have "(at_user_bank a, at_signature a) \<in> (\<lambda>t. (at_user_bank t, at_signature t)) ` set (so_history s)"
    using assms(3,4) by auto
  then have "\<not> keys_ok (s\<lparr>so_history := so_history s @ rows\<rparr>)"
    using assms(2) by (auto simp: keys_ok_def)
  moreover have "rows \<noteq> []" using assms(2) by auto
  ultimately have "insert_history rows s = (Inl (Raised ''IntegrityError''), s\<lparr>so_history := so_history s @ rows\<rparr>)"
    by (simp add: insert_history_def add_history_def py_simps)
  then have "store_chunk E bank_owner records txs s =
      (Inl (Raised ''IntegrityError''), s\<lparr>so_history := so_history s @ rows\<rparr>)"
    using assms(1) by (simp add: store_chunk_def Let_def bnd_def gets_def lift_res_def sq_def)
  then show ?thesis by (simp add: sol_session_def roll_back_sol_def)
qed

section \<open>A sample\<close>

text \<open>A purchase paid into the bank \<open>A\<close> by the account of somebody outside.\<close>

definition purchase_history :: "sig_info list" where
  "purchase_history = [\<lparr>si_signature = ''buy'', si_slot = 20, si_block_time = 2000\<rparr>]"

definition purchase_tx :: sol_tx where
  "purchase_tx = \<lparr>st_slot = 20, st_block_time = 2000,
     st_meta = \<lparr>mt_err = False, mt_logs = [TRANSFER_CHECKED_INSTRUCTION],
       mt_pre = [\<lparr>tb_account_index = 1, tb_owner = ''shop'', tb_amount = 90\<rparr>, \<lparr>tb_account_index = 2, tb_owner = ''o'', tb_amount = 5\<rparr>],
       mt_post = [\<lparr>tb_account_index = 1, tb_owner = ''shop'', tb_amount = 60\<rparr>, \<lparr>tb_account_index = 2, tb_owner = ''o'', tb_amount = 35\<rparr>]\<rparr>,
     st_message = \<lparr>ms_account_keys = [''fee'', ''S'', ''A'', SPL_TOKEN_ID, PURCHASE_AUDIO_MEMO_PROGRAM],
       ms_instructions = [\<lparr>in_accounts = [1, 0, 2], in_data = ''t'', in_program_index = 3\<rparr>,
         \<lparr>in_accounts = [], in_data = ''m'', in_program_index = 4\<rparr>]\<rparr>\<rparr>"

text \<open>The memo reads \<open>In-App $AUDIO Purchase: Coinbase Pay\<close>.\<close>

definition purchase_env :: sol_env where
  "purchase_env = sample_sol_env\<lparr>se_source := (\<lambda>b k. Inr (page_of purchase_history b k)), se_tx := (\<lambda>h. Inr purchase_tx),
     se_b58decode := (\<lambda>d. Inr (map (\<lambda>c. of_nat (of_char c)) ''In-App $AUDIO Purchase: Coinbase Pay''))\<rparr>"

lemma sample_purchase:
  "map_option (\<lambda>(r, t). (r, map (\<lambda>a. (at_transaction_type a, at_user_bank a, at_change a, at_balance a)) (so_history t),
      so_spl t, so_refresh t)) (index_spl_token purchase_env ''o'' sample_sol_state) =
   Some (Inr (), [(Purchase_coinbase, ''A'', 30, 35)], [(20, ''buy'')], [1])"
  by code_simp

lemma spl_history_sound_witness:
  "\<exists>r t new. index_spl_token purchase_env ''o'' sample_sol_state = Some (r, t) \<and>
     so_history t = so_history sample_sol_state @ new \<and> list_all (received_row purchase_env (so_accounts sample_sol_state)) new"
  by (rule spl_history_sound [of _ purchase_history])
    (simp_all add: serves_def purchase_env_def history_ok_def purchase_history_def)

lemma spl_complete_witness:
  "\<exists>t. index_spl_token purchase_env ''o'' (sample_sol_state\<lparr>so_spl := [(19, ''older'')]\<rparr>) = Some (Inr (), t) \<and>
     rows_due purchase_env sample_sol_state purchase_history \<subseteq> set (so_history t) \<and> get_latest_slot t = Some 20"
proof -
  let ?s = "sample_sol_state\<lparr>so_spl := [(19, ''older'')]\<rparr>"
  have "map_option fst (index_spl_token purchase_env ''o'' ?s) = Some (Inr ())" by code_simp
  then obtain t where t: "index_spl_token purchase_env ''o'' ?s = Some (Inr (), t)" by auto
  have n: "get_latest_slot ?s = Some 19" by (simp add: get_latest_slot_def)
  have start: "spl_start ?s purchase_history = purchase_history"
    unfolding spl_start_def n fetch_traversed_tx_from_cache_def by (simp add: sample_sol_state_def)
  have "filter (\<lambda>u. 19 < si_slot u) purchase_history = purchase_history" by (simp add: purchase_history_def)
  note due = this
  have "set (so_history t) = set (so_history ?s) \<union> rows_due purchase_env ?s (filter (\<lambda>u. 19 < si_slot u) (spl_start ?s purchase_history)) \<and>
      get_latest_slot t = Some (case filter (\<lambda>u. 19 < si_slot u) (spl_start ?s purchase_history) of [] \<Rightarrow> 19 | u # _ \<Rightarrow> si_slot u)"
  proof (rule spl_complete [OF _ _ _ _ n _ t])
    show "length (filter (\<lambda>u. 19 < si_slot u) (spl_start ?s purchase_history)) \<le> 99010"
      unfolding start due by (simp add: purchase_history_def)
  qed (simp_all add: serves_def purchase_env_def sample_sol_env_def history_ok_def purchase_history_def)
  then have "set (so_history t) = set (so_history ?s) \<union> rows_due purchase_env ?s purchase_history \<and>
      get_latest_slot t = Some (case purchase_history of [] \<Rightarrow> 19 | u # _ \<Rightarrow> si_slot u)"
    unfolding start due .
  moreover have "rows_due purchase_env ?s purchase_history = rows_due purchase_env sample_sol_state purchase_history"
    by (rule rows_due_same) (simp add: same_banks_def)
  ultimately show ?thesis using t by (simp add: purchase_history_def)
qed

text \<open>The sample run once more, over the state it left but with the scan set back, fails.\<close>

lemma sample_purchase_again:
  "map_option (\<lambda>(r, t). (r, length (so_history t), so_spl t))
     (Option.bind (index_spl_token purchase_env ''o'' sample_sol_state)
       (\<lambda>(r, t). index_spl_token purchase_env ''o'' (t\<lparr>so_spl := [(19, ''older'')], so_seen := []\<rparr>))) =
   Some (Inl (Raised ''IntegrityError''), 1, [(19, ''older'')])"
  by code_simp

end
