(* ===== verification/Solana_Plays.thy ===== *)
theory Solana_Plays
  imports Spl_Token EM_Playlists
begin

text \<open>
  tasks/index_solana_plays.py: the listens recorded by the TrackListenCount program become rows of
  \<open>plays\<close> and events of the challenge bus.  A chunk of a hundred transactions is fetched by
  threads and tried again as a whole up to ten times; its rows are stored in one session.
\<close>

section \<open>The message\<close>

text \<open>\<open>int(bytes)\<close>: white space around, a sign, and single underscores between digits are accepted.\<close>

definition is_byte_space :: "char \<Rightarrow> bool" where
  "is_byte_space c = (let n = code_point c in n = 32 \<or> 9 \<le> n \<and> n \<le> 13)"

definition strip_bytes :: "string \<Rightarrow> string" where
  "strip_bytes s = rev (dropWhile is_byte_space (rev (dropWhile is_byte_space s)))"

definition read_digits :: "string \<Rightarrow> nat result" where
  "read_digits s =
     (let groups = str_split CHR ''_'' s in if [] \<in> set groups then Inl ValueError else read_nat (concat groups))"

definition int_of_text :: "string \<Rightarrow> int result" where
  "int_of_text s =
     (case strip_bytes s of
        [] \<Rightarrow> Inl ValueError
      | c # cs \<Rightarrow>
          if c = CHR ''-'' then bind_res (read_digits cs) (\<lambda>n. Inr (- int n))
          else if c = CHR ''+'' then bind_res (read_digits cs) (\<lambda>n. Inr (int n))
          else bind_res (read_digits (c # cs)) (\<lambda>n. Inr (int n)))"

definition int_of_bytes :: "8 word list \<Rightarrow> int result" where
  "int_of_bytes bs = int_of_text (map (\<lambda>b. char_of (unat b)) bs)"

record play_message =
  pm_user :: "int option"
  pm_track :: int
  pm_source :: pyval
  pm_location :: pyval
  pm_timestamp :: nat

text \<open>Every exception of the first attempt is ignored; the source is set before the location is read.\<close>

definition parse_json_source :: "(8 word list \<Rightarrow> pyval result) \<Rightarrow> 8 word list \<Rightarrow> pyval \<times> pyval" where
  "parse_json_source loads decoded_source =
     (case loads decoded_source of
        Inl x \<Rightarrow> (PNone, PDict [])
      | Inr sourceDict \<Rightarrow> (case subscript sourceDict ''source'' of
            Inl x \<Rightarrow> (PNone, PDict [])
          | Inr source \<Rightarrow> (source, case subscript sourceDict ''location'' of Inl x \<Rightarrow> PDict [] | Inr location \<Rightarrow> location)))"

definition parse_source :: "(8 word list \<Rightarrow> pyval result) \<Rightarrow> 8 word list \<Rightarrow> pyval \<times> pyval" where
  "parse_source loads decoded_source =
     (let (source, location) = parse_json_source loads decoded_source
      in (if truthy source = Inr True then source
          else case utf8 decoded_source of Inl x \<Rightarrow> source | Inr s \<Rightarrow> PStr s, location))"

definition parse_play_data ::
    "(string \<Rightarrow> 8 word list result) \<Rightarrow> (8 word list \<Rightarrow> pyval result) \<Rightarrow> string \<Rightarrow> play_message result" where
  "parse_play_data b58decode loads data =
     bind_res (b58decode data) (\<lambda>bytes.
     let decoded = drop 1 bytes;
         user_id_length = from_bytes_little (slice decoded 0 4);
         user_id_end = 4 + user_id_length;
         user_id = (case int_of_bytes (slice decoded 4 user_id_end) of Inl x \<Rightarrow> None | Inr n \<Rightarrow> Some n);
         track_id_length = from_bytes_little (slice decoded user_id_end (user_id_end + 4));
         track_id_end = user_id_end + 4 + track_id_length
     in bind_res (int_of_bytes (slice decoded (user_id_end + 4) track_id_end)) (\<lambda>track_id.
        let source_length = from_bytes_little (slice decoded track_id_end (track_id_end + 4));
            source_end = track_id_end + 4 + source_length;
            (source, location) = parse_source loads (slice decoded (track_id_end + 4) source_end)
        in Inr \<lparr>pm_user = user_id, pm_track = track_id, pm_source = source, pm_location = location,
             pm_timestamp = from_bytes_little (slice decoded source_end (source_end + 8))\<rparr>))"

section \<open>State and environment\<close>

record sol_play =
  sp_user :: "int option"
  sp_track :: int
  sp_created :: int
  sp_source :: pyval
  sp_city :: pyval
  sp_region :: pyval
  sp_country :: pyval
  sp_slot :: "int option"
  sp_signature :: "string option"

record plays_state =
  pl_sol :: sol_state
  pl_plays :: "sol_play list"

type_synonym 'a pl = "(plays_state, 'a) py"

text \<open>
  Each attempt asks the client anew: \<open>pe_tx n\<close> is its answer in attempt \<open>n\<close>, \<open>pe_arrive n\<close> the order
  in which the threads finish, or the timeout.  \<open>pe_local\<close> is \<open>timestamp()\<close> of a time without a time
  zone, \<open>pe_insert_ok\<close> the verdict of the database on an insert, \<open>pe_json\<close> the decoder of JSON.
\<close>

record plays_env =
  pe_sol :: sol_env
  pe_tx :: "nat \<Rightarrow> string \<Rightarrow> sol_tx result"
  pe_arrive :: "nat \<Rightarrow> string list \<Rightarrow> string list result"
  pe_json :: "8 word list \<Rightarrow> pyval result"
  pe_local :: "int \<Rightarrow> int"
  pe_insert_ok :: "sol_play list \<Rightarrow> bool"
  pe_signer_group :: string

definition on_sol :: "'a so \<Rightarrow> 'a pl" where
  "on_sol m = zoom pl_sol (\<lambda>t s. s\<lparr>pl_sol := t\<rparr>) m"

definition SECP_PROGRAM :: string where "SECP_PROGRAM = ''KeccakSecp256k11111111111111111111111111111''"
definition PLAYS_PROCESSING_SIZE :: nat where "PLAYS_PROCESSING_SIZE = 100"
definition PLAYS_INITIAL_FETCH_SIZE :: nat where "PLAYS_INITIAL_FETCH_SIZE = 30"

section \<open>One transaction\<close>

definition is_valid_tx :: "plays_env \<Rightarrow> string list \<Rightarrow> bool" where
  "is_valid_tx E account_keys \<longleftrightarrow> SECP_PROGRAM \<in> set account_keys \<and> pe_signer_group E \<in> set account_keys"

definition parse_sol_play_transaction ::
    "plays_env \<Rightarrow> nat \<Rightarrow> string \<Rightarrow> (play_message \<times> int \<times> string) option result" where
  "parse_sol_play_transaction E attempt tx_sig =
     bind_res (pe_tx E attempt tx_sig) (\<lambda>tx.
     if mt_err (st_meta tx) then Inr None
     else if \<not> is_valid_tx E (ms_account_keys (st_message tx)) then Inr None
     else bind_res (get_valid_instruction (st_message tx) (se_program (pe_sol E))) (\<lambda>instr.
       case instr of
         None \<Rightarrow> Inr None
       | Some instruction \<Rightarrow>
           bind_res (parse_play_data (se_b58decode (pe_sol E)) (pe_json E) (in_data instruction)) (\<lambda>m.
           bind_res (utcfromtimestamp (PInt (int (pm_timestamp m)))) (\<lambda>created_at.
           Inr (Some (m, st_slot tx, tx_sig))))))"

definition play_of :: "play_message \<times> int \<times> string \<Rightarrow> sol_play result" where
  "play_of result =
     (let (m, slot, tx_sig) = result
      in bind_res (get_method (pm_location m) ''city'' PNone) (\<lambda>city.
         bind_res (get_method (pm_location m) ''region'' PNone) (\<lambda>region.
         bind_res (get_method (pm_location m) ''country'' PNone) (\<lambda>country.
         Inr \<lparr>sp_user = pm_user m, sp_track = pm_track m, sp_created = int (pm_timestamp m), sp_source = pm_source m,
           sp_city = city, sp_region = region, sp_country = country, sp_slot = Some slot, sp_signature = Some tx_sig\<rparr>))))"

section \<open>A chunk\<close>

definition fetch_play :: "plays_env \<Rightarrow> nat \<Rightarrow> string \<Rightarrow> sol_play option result" where
  "fetch_play E attempt tx_sig =
     bind_res (parse_sol_play_transaction E attempt tx_sig) (\<lambda>r.
     case r of None \<Rightarrow> Inr None | Some result \<Rightarrow> bind_res (play_of result) (\<lambda>p. Inr (Some p)))"

definition fetch_plays :: "plays_env \<Rightarrow> nat \<Rightarrow> string list \<Rightarrow> sol_play list result" where
  "fetch_plays E attempt tx_sig_batch_records =
     bind_res (pe_arrive E attempt tx_sig_batch_records) (\<lambda>futures.
     bind_res (map_res (fetch_play E attempt) futures) (\<lambda>rs. Inr (List.map_filter (\<lambda>r. r) rs)))"

fun fetch_with_retries :: "plays_env \<Rightarrow> nat \<Rightarrow> string list \<Rightarrow> nat \<Rightarrow> sol_play list result" where
  "fetch_with_retries E attempt records retries =
     (case fetch_plays E attempt records of
        Inr plays \<Rightarrow> Inr plays
      | Inl x \<Rightarrow> if 0 < retries then fetch_with_retries E (Suc attempt) records (retries - 1) else Inl x)"

declare fetch_with_retries.simps [simp del]

definition plays_db_key :: string where "plays_db_key = ''latest_sol_program_tx:play:db''"
definition plays_program_key :: string where "plays_program_key = ''latest_sol_program_tx:play:chain''"
definition plays_slot_key :: string where "plays_slot_key = ''latest_sol_slot:plays''"

definition cache_latest_play :: "plays_env \<Rightarrow> string \<Rightarrow> sol_play list \<Rightarrow> unit pl" where
  "cache_latest_play E last_tx_in_batch plays =
     (case find (\<lambda>p. sp_signature p = Some last_tx_in_batch) plays of
        None \<Rightarrow> ret ()
      | Some p \<Rightarrow> on_sol (cache_latest_sol_db_tx plays_db_key
          \<lparr>cx_signature = last_tx_in_batch, cx_slot = the (sp_slot p), cx_timestamp = pe_local E (sp_created p)\<rparr>))"

definition dispatch_listen :: "plays_env \<Rightarrow> sol_play \<Rightarrow> unit pl" where
  "dispatch_listen E p =
     (case sp_user p of
        None \<Rightarrow> ret ()
      | Some user_id \<Rightarrow> on_sol (modify (\<lambda>s. s\<lparr>so_bus := dispatch (PStr track_listen) (PInt (the (sp_slot p))) (PInt user_id)
          (PDict [(''created_at'', PInt (pe_local E (sp_created p)))]) (so_bus s)\<rparr>)))"

definition save_plays :: "plays_env \<Rightarrow> string list \<Rightarrow> sol_play list \<Rightarrow> unit pl" where
  "save_plays E records plays =
     sq (run_when (records \<noteq> [] \<and> plays = []) (on_sol (modify (\<lambda>s. s\<lparr>so_seen := []\<rparr>)))) (
     sq (cache_latest_play E (hd records) plays) (
     run_when (plays \<noteq> []) (
       sq (require (pe_insert_ok E plays) (Raised ''insert into plays'')) (
       sq (modify (\<lambda>s. s\<lparr>pl_plays := pl_plays s @ plays\<rparr>))
         (for_each plays (dispatch_listen E))))))"

definition parse_play_batch :: "plays_env \<Rightarrow> string list \<Rightarrow> unit pl" where
  "parse_play_batch E tx_sig_batch_records =
     bnd (lift_res (fetch_with_retries E 0 tx_sig_batch_records 10)) (save_plays E tx_sig_batch_records)"

section \<open>The walk\<close>

definition latest_play_slot :: "sol_play list \<Rightarrow> int" where
  "latest_play_slot plays =
     (case map (\<lambda>p. the (sp_slot p)) (filter (\<lambda>p. sp_slot p \<noteq> None \<and> sp_signature p \<noteq> None) plays) of
        [] \<Rightarrow> 0 | slot # slots \<Rightarrow> fold max slots slot)"

definition play_in_db :: "sol_play list \<Rightarrow> string \<Rightarrow> bool" where
  "play_in_db plays tx_sig \<longleftrightarrow> list_ex (\<lambda>p. sp_signature p = Some tx_sig) plays"

text \<open>\<open>not latest_play_slot\<close> is also true of a slot that is 0.\<close>

definition note_slot :: "string list \<Rightarrow> sig_info list \<Rightarrow> int option \<Rightarrow> int option" where
  "note_slot batch txs slot =
     (if batch \<noteq> [] \<and> (slot = None \<or> slot = Some 0) then Some (si_slot (hd txs)) else slot)"

text \<open>Unlike the other indexers, this one does not limit the number of batches.\<close>

partial_function (option) plays_walk ::
    "plays_env \<Rightarrow> int \<Rightarrow> (string \<Rightarrow> bool) \<Rightarrow> nat \<Rightarrow> string option \<Rightarrow> string list list \<Rightarrow> int option \<Rightarrow> plays_state \<Rightarrow>
     ((string list list \<times> int option) result \<times> plays_state) option" where
  "plays_walk E latest exist fetch_size last_tx batches slot s =
     (case se_source (pe_sol E) last_tx fetch_size of
        Inl x \<Rightarrow> Some (Inl x, s)
      | Inr txs \<Rightarrow>
          if txs = [] then Some (Inr (batches, slot), s)
          else
            let (batch, found) = scan_page latest exist None txs;
                batches' = (if batch = [] then batches else batches @ [batch]);
                slot' = note_slot batch txs slot;
                s' = s\<lparr>pl_sol := (pl_sol s)\<lparr>so_seen := List.last txs # so_seen (pl_sol s)\<rparr>\<rparr>
            in if found then Some (Inr (batches', slot'), s')
               else plays_walk E latest exist FETCH_TX_SIGNATURES_BATCH_SIZE (Some (si_signature (List.last txs))) batches' slot' s')"

declare plays_walk.simps [code]

section \<open>The task\<close>

definition set_plays_slot :: "plays_env \<Rightarrow> int option \<Rightarrow> unit pl" where
  "set_plays_slot E slot =
     (let set_slot = (\<lambda>n. on_sol (modify (\<lambda>s. s\<lparr>so_slots := (so_slots s)(plays_slot_key \<mapsto> n)\<rparr>)))
      in if slot \<noteq> None \<and> slot \<noteq> Some 0 then set_slot (the slot)
         else case se_slot (pe_sol E) of
             Inl x \<Rightarrow> raise (Raised ''UnboundLocalError'')
           | Inr None \<Rightarrow> ret ()
           | Inr (Some n) \<Rightarrow> set_slot n)"

definition process_batches :: "plays_env \<Rightarrow> string list list \<Rightarrow> int option \<Rightarrow> unit pl" where
  "process_batches E batches slot =
     sq (for_each (concat (map (split_list PLAYS_PROCESSING_SIZE) (rev batches))) (parse_play_batch E))
       (set_plays_slot E slot)"

definition process_solana_plays :: "plays_env \<Rightarrow> plays_state \<Rightarrow> (unit result \<times> plays_state) option" where
  "process_solana_plays E s =
     (if \<not> se_valid_program (pe_sol E) then Some (Inr (), s)
      else
        let latest = latest_play_slot (pl_plays s);
            (cached_offset_tx, seen) = drop_traversed latest (so_seen (pl_sol s))
        in map_option (\<lambda>(r, t). bnd (lift_res r) (\<lambda>(batches, slot). process_batches E batches slot) t)
             (plays_walk E latest (play_in_db (pl_plays s)) PLAYS_INITIAL_FETCH_SIZE cached_offset_tx [] None
               (s\<lparr>pl_sol := (pl_sol s)\<lparr>so_seen := seen\<rparr>\<rparr>)))"

definition flush_plays :: "plays_env \<Rightarrow> unit result \<times> plays_state \<Rightarrow> unit result \<times> plays_state" where
  "flush_plays E rt =
     (case rt of (r, t) \<Rightarrow> case scoped_queue (pe_sol E) (\<lambda>u. (r, u)) (pl_sol t) of (r', u) \<Rightarrow> (r', t\<lparr>pl_sol := u\<rparr>))"

definition index_solana_plays :: "plays_env \<Rightarrow> plays_state \<Rightarrow> (unit result \<times> plays_state) option" where
  "index_solana_plays E s =
     (case on_sol (fetch_and_cache_latest_program_tx_redis (pe_sol E) plays_program_key) s of
        (Inl x, t) \<Rightarrow> Some (Inl x, t)
      | (Inr u, t) \<Rightarrow> if se_have_lock (pe_sol E) then map_option (flush_plays E) (process_solana_plays E t)
                       else Some (Inr (), t))"

end
