(* ===== verification/Plays_Properties.thy ===== *)
theory Plays_Properties
  imports Solana_Plays Spl_Properties
begin

text \<open>
  What the indexer of listens guarantees: a run that succeeds over a table without gaps leaves
  none; but a listen that is missing below a recorded one is never indexed.
\<close>

section \<open>What a chunk stores\<close>

text \<open>The rows of a chunk, for whichever attempt; \<open>arrivals_ok\<close> says that the threads answer for what they were given.\<close>

definition arrivals_ok :: "plays_env \<Rightarrow> bool" where
  "arrivals_ok E \<longleftrightarrow> (\<forall>n xs ys. pe_arrive E n xs = Inr ys \<longrightarrow> set ys = set xs)"

lemma fetch_play_signature:
  assumes "fetch_play E n sig = Inr (Some p)"
  shows "sp_signature p = Some sig \<and> (\<exists>tx. pe_tx E n sig = Inr tx \<and> sp_slot p = Some (st_slot tx))"
  using assms unfolding fetch_play_def parse_sol_play_transaction_def play_of_def Let_def
  by (elim bind_res_InrE)
    (auto split: if_splits option.splits prod.splits elim!: bind_res_InrE)

lemma map_filter_Some: "p \<in> set (List.map_filter (\<lambda>r. r) rs) \<longleftrightarrow> Some p \<in> set rs"
  by (induction rs) (auto simp: map_filter_simps split: option.split)

lemma fetch_plays_rows:
  assumes "fetch_plays E n records = Inr plays" and "arrivals_ok E"
  shows "p \<in> set plays \<longleftrightarrow> (\<exists>sig \<in> set records. fetch_play E n sig = Inr (Some p))"
    and "sig \<in> set records \<Longrightarrow> \<exists>r. fetch_play E n sig = Inr r"
proof -
  obtain ys rs where ys: "pe_arrive E n records = Inr ys" "map_res (fetch_play E n) ys = Inr rs"
      and plays: "plays = List.map_filter (\<lambda>r. r) rs"
    using assms(1) by (auto simp: fetch_plays_def bind_res_Inr)
  have "set ys = set records" using ys(1) assms(2) by (simp add: arrivals_ok_def)
  then show "p \<in> set plays \<longleftrightarrow> (\<exists>sig \<in> set records. fetch_play E n sig = Inr (Some p))"
    and "sig \<in> set records \<Longrightarrow> \<exists>r. fetch_play E n sig = Inr r"
    using map_res_mem_iff [OF ys(2)] map_res_total [OF ys(2)] by (simp_all add: plays map_filter_Some)
qed

lemma retries_attempt:
  "fetch_with_retries E n records k = Inr plays \<Longrightarrow> \<exists>m. fetch_plays E m records = Inr plays"
proof (induction E n records k rule: fetch_with_retries.induct)
  case (1 E n records k)
  show ?case
  proof (cases "fetch_plays E n records")
    case (Inl x)
    then show ?thesis
      using "1.prems" "1.IH" [of x] by (simp add: fetch_with_retries.simps [of E n] split: if_splits)
  qed (use "1.prems" in \<open>auto simp: fetch_with_retries.simps [of E n]\<close>)
qed

section \<open>The table of plays\<close>

text \<open>The rows added to \<open>P\<close> are for transactions of \<open>S\<close>.\<close>

definition rows_added :: "sol_play list \<Rightarrow> string set \<Rightarrow> plays_state \<Rightarrow> bool" where
  "rows_added P S s \<longleftrightarrow> (\<exists>new. pl_plays s = P @ new \<and> (\<forall>p \<in> set new. \<exists>sig \<in> S. sp_signature p = Some sig))"

lemma keeps_rows_on_sol: "keeps (rows_added P S) (on_sol m)"
  unfolding on_sol_def by (rule keeps_zoom_frame) (simp add: rows_added_def)

lemma keeps_rows_save:
  assumes "\<forall>p \<in> set plays. \<exists>sig \<in> S. sp_signature p = Some sig"
  shows "keeps (rows_added P S) (save_plays E records plays)"
proof -
  have "keeps (rows_added P S) (modify (\<lambda>s. s\<lparr>pl_plays := pl_plays s @ plays\<rparr>))"
    using assms by (intro keeps_modify) (auto simp: rows_added_def)
  then show ?thesis
    unfolding save_plays_def cache_latest_play_def dispatch_listen_def
    by (auto intro!: keeps_rules keeps_rows_on_sol split: option.split)
qed

lemma keeps_rows_batch:
  assumes "\<forall>h \<in> set records. \<forall>n p. fetch_play E n h = Inr (Some p) \<longrightarrow> h \<in> S" and "arrivals_ok E"
  shows "keeps (rows_added P S) (parse_play_batch E records)"
proof -
  have "\<forall>p \<in> set plays. \<exists>sig \<in> S. sp_signature p = Some sig"
    if f: "fetch_with_retries E 0 records 10 = Inr plays" for plays
  proof -
    obtain m where m: "fetch_plays E m records = Inr plays" using retries_attempt [OF f] by blast
    show ?thesis using fetch_plays_rows(1) [OF m assms(2)] fetch_play_signature assms(1) by blast
  qed
  then show ?thesis
    unfolding parse_play_batch_def
    by (rule keeps_bnd_gives [OF gives_lift_res]) (assumption, rule keeps_rows_save)
qed

lemma set_chunks: "set (concat (concat (map (split_list PLAYS_PROCESSING_SIZE) bs))) = set (concat bs)"
proof (induction bs)
  case (Cons b bs)
  have "set (concat (split_list PLAYS_PROCESSING_SIZE b)) = set b"
    using set_split_list [of 99 b] by (simp add: PLAYS_PROCESSING_SIZE_def)
  then show ?case using Cons.IH by (simp only: list.map concat.simps concat_append set_append)
qed simp

lemma chunks_subset:
  assumes "c \<in> set (concat (map (split_list PLAYS_PROCESSING_SIZE) (rev batches)))"
  shows "set c \<subseteq> set (concat batches)"
  using assms set_chunks [of "rev batches"] by auto

lemma keeps_rows_process:
  assumes "\<forall>h \<in> set (concat batches). \<forall>n p. fetch_play E n h = Inr (Some p) \<longrightarrow> h \<in> S" and "arrivals_ok E"
  shows "keeps (rows_added P S) (process_batches E batches slot)"
proof -
  have "keeps (rows_added P S) (for_each cs (parse_play_batch E))"
    if "\<forall>c \<in> set cs. \<forall>h \<in> set c. \<forall>n p. fetch_play E n h = Inr (Some p) \<longrightarrow> h \<in> S" for cs
    using that by (induction cs) (auto intro!: keeps_rules keeps_rows_batch assms(2))
  moreover have "\<forall>c \<in> set (concat (map (split_list PLAYS_PROCESSING_SIZE) (rev batches))).
      \<forall>h \<in> set c. \<forall>n p. fetch_play E n h = Inr (Some p) \<longrightarrow> h \<in> S"
    using chunks_subset assms(1) by blast
  moreover have "keeps (rows_added P S) (set_plays_slot E slot)"
    unfolding set_plays_slot_def Let_def
    by (auto intro!: keeps_rules keeps_rows_on_sol split: sum.split option.split)
  ultimately show ?thesis unfolding process_batches_def by (intro keeps_sq) blast+
qed

text \<open>The list of traversed pages is only added to by the walk; a chunk without listens clears it.\<close>

definition seen_within :: "sig_info set \<Rightarrow> plays_state \<Rightarrow> bool" where
  "seen_within A s \<longleftrightarrow> set (so_seen (pl_sol s)) \<subseteq> A"

lemma keeps_seen_on_sol: "keeps (\<lambda>t. set (so_seen t) \<subseteq> A) m \<Longrightarrow> keeps (seen_within A) (on_sol m)"
  unfolding on_sol_def seen_within_def
  by (rule keepsI) (use keepsD in \<open>force simp: zoom_def split: prod.splits\<close>)

lemma keeps_seen_process: "keeps (seen_within A) (process_batches E batches slot)"
proof -
  have frame: "keeps (seen_within A) (on_sol (modify f))" if "\<And>t. set (so_seen (f t)) \<subseteq> set (so_seen t)" for f
    using that by (intro keeps_seen_on_sol keeps_modify) blast
  have "keeps (seen_within A) (modify (\<lambda>s. s\<lparr>pl_plays := pl_plays s @ plays\<rparr>))" for plays
    by (intro keeps_modify) (simp add: seen_within_def)
  then have "keeps (seen_within A) (save_plays E records plays)" for records plays
    unfolding save_plays_def cache_latest_play_def dispatch_listen_def cache_latest_sol_db_tx_def
    by (auto intro!: keeps_rules frame split: option.split)
  then have "keeps (seen_within A) (for_each cs (parse_play_batch E))" for cs
    unfolding parse_play_batch_def by (induction cs) (auto intro!: keeps_rules)
  moreover have "keeps (seen_within A) (set_plays_slot E slot)"
    unfolding set_plays_slot_def Let_def by (auto intro!: keeps_rules frame split: sum.split option.split)
  ultimately show ?thesis unfolding process_batches_def by (intro keeps_sq)
qed

section \<open>The walk\<close>

definition only_seen :: "plays_state \<Rightarrow> plays_state \<Rightarrow> bool" where
  "only_seen s t \<longleftrightarrow> (\<exists>seen. t = s\<lparr>pl_sol := (pl_sol s)\<lparr>so_seen := seen\<rparr>\<rparr>)"

lemma only_seen_refl: "only_seen s s"
  unfolding only_seen_def by (intro exI [of _ "so_seen (pl_sol s)"]) simp

lemma only_seen_step: "only_seen (s\<lparr>pl_sol := (pl_sol s)\<lparr>so_seen := seen\<rparr>\<rparr>) t \<Longrightarrow> only_seen s t"
  by (auto simp: only_seen_def)

lemma only_seen_plays: "only_seen s t \<Longrightarrow> pl_plays t = pl_plays s"
  by (auto simp: only_seen_def)

lemma plays_walk_rest:
  assumes "serves (se_source (pe_sol E)) H" and "history_ok H" and "k > 0" and "H = older @ rest"
    and "\<And>n. page_of H b n = take n rest"
  shows "\<exists>r t. plays_walk E latest exist k b batches slot s = Some (r, t) \<and> only_seen s t \<and>
    set (so_seen (pl_sol t)) \<subseteq> set (so_seen (pl_sol s)) \<union> set rest \<and> (\<forall>bs slot'. r = Inr (bs, slot') \<longrightarrow> concat bs = concat batches @ wanted latest exist None rest)"
  using assms(3-)
proof (induction "length rest" arbitrary: older rest b k batches slot s rule: less_induct)
  case less
  note unfold = plays_walk.simps [of E latest exist k]
  show ?case
  proof (cases "\<exists>x. se_source (pe_sol E) b k = Inl x")
    case True
    then show ?thesis using only_seen_refl by (auto simp: unfold)
  next
    case False
    let ?txs = "take k rest" and ?rest = "drop k rest"
    have source: "se_source (pe_sol E) b k = Inr ?txs"
      using False assms(1) unfolding less.prems(3) [symmetric] serves_def by blast
    show ?thesis
    proof (cases "rest = []")
      case True
      then show ?thesis using source only_seen_refl by (simp add: unfold wanted_def)
    next
      case nonempty: False
      then have txs: "?txs \<noteq> []" using less.prems(1) by simp
      let ?batch = "wanted latest exist None ?txs"
      let ?batches = "if ?batch = [] then batches else batches @ [?batch]"
      let ?s = "s\<lparr>pl_sol := (pl_sol s)\<lparr>so_seen := List.last ?txs # so_seen (pl_sol s)\<rparr>\<rparr>"
      have batches: "concat ?batches = concat batches @ ?batch" by simp
      have seen: "only_seen s ?s" unfolding only_seen_def by blast
      have split: "wanted latest exist None rest =
          (if \<exists>t \<in> set ?txs. known latest exist None t then ?batch else ?batch @ wanted latest exist None ?rest)"
        using wanted_append [of latest exist None ?txs ?rest] by simp
      show ?thesis
      proof (cases "\<exists>t \<in> set ?txs. known latest exist None t")
        case True
        moreover have "List.last ?txs \<in> set rest" using last_in_set [OF txs] by (rule in_set_takeD)
        ultimately show ?thesis using source txs split seen batches by (auto simp: unfold scan_page_eq Let_def)
      next
        case found: False
        have "H = (older @ butlast ?txs) @ List.last ?txs # ?rest"
          using less.prems(2) txs by (metis append.assoc append_Cons append_Nil append_butlast_last_id append_take_drop_id)
        then have "after (si_signature (List.last ?txs)) H = ?rest"
          using assms(2) by (intro after_nth) (simp_all add: history_ok_def)
        then have next_page: "page_of H (Some (si_signature (List.last ?txs))) n = take n ?rest" for n
          by (simp add: page_of_def)
        let ?slot = "note_slot ?batch ?txs slot"
        let ?run = "plays_walk E latest exist FETCH_TX_SIGNATURES_BATCH_SIZE (Some (si_signature (List.last ?txs))) ?batches ?slot ?s"
        have "\<exists>r t. ?run = Some (r, t) \<and> only_seen ?s t \<and> set (so_seen (pl_sol t)) \<subseteq> set (so_seen (pl_sol ?s)) \<union> set ?rest \<and>
            (\<forall>bs slot'. r = Inr (bs, slot') \<longrightarrow> concat bs = concat ?batches @ wanted latest exist None ?rest)"
          by (rule less.hyps [of ?rest FETCH_TX_SIGNATURES_BATCH_SIZE "older @ ?txs"])
            (use nonempty less.prems(1,2) next_page in \<open>simp_all add: FETCH_TX_SIGNATURES_BATCH_SIZE_def\<close>)
        then obtain r t where run: "?run = Some (r, t)" "only_seen ?s t"
            and kept: "set (so_seen (pl_sol t)) \<subseteq> set (so_seen (pl_sol ?s)) \<union> set ?rest"
            and bs: "\<And>bs slot'. r = Inr (bs, slot') \<Longrightarrow> concat bs = concat ?batches @ wanted latest exist None ?rest"
          by blast
        have "plays_walk E latest exist k b batches slot s = ?run"
          using source txs found by (simp add: unfold scan_page_eq Let_def)
        moreover have "concat bs = concat batches @ wanted latest exist None rest" if r: "r = Inr (bs, slot')" for bs slot'
          using bs [OF r] batches split found by simp
        moreover have "List.last ?txs \<in> set rest" using last_in_set [OF txs] by (rule in_set_takeD)
        then have "set (so_seen (pl_sol t)) \<subseteq> set (so_seen (pl_sol s)) \<union> set rest"
          using kept set_drop_subset [of k rest] by auto
        ultimately show ?thesis using run(1) only_seen_step [OF run(2)] by auto
      qed
    qed
  qed
qed

lemma wanted_all: "wanted latest exist None H = map si_signature (takeWhile (\<lambda>t. \<not> known latest exist None t) H)"
  by (simp add: wanted_def above_min_def)

text \<open>
  Where a run starts: below the newest remembered page whose slot is above those of the recorded
  listens, or else at the front of the history.
\<close>

definition walk_start :: "plays_state \<Rightarrow> sig_info list \<Rightarrow> sig_info list" where
  "walk_start s H = (case fst (drop_traversed (latest_play_slot (pl_plays s)) (so_seen (pl_sol s))) of
     None \<Rightarrow> H | Some h \<Rightarrow> after h H)"

lemma drop_traversed_facts:
  "set (snd (drop_traversed latest seen)) \<subseteq> set seen"
  "fst (drop_traversed latest seen) = Some h \<Longrightarrow> \<exists>u \<in> set seen. si_signature u = h \<and> latest < si_slot u"
proof (induction latest seen rule: drop_traversed.induct)
  case (2 latest tx cache)
  { case 1 then show ?case using 2(1) by (auto simp: Let_def split: if_splits) }
  { case 2 then show ?case using "2.IH"(2) by (auto simp: Let_def split: if_splits) }
qed simp_all

lemma after_suffix: "\<exists>older. H = older @ after h H"
proof -
  obtain older rest where H: "H = older @ rest" and page: "\<And>k. page_of H (Some h) k = take k rest"
    using page_rest [of H "Some h"] by blast
  have "take k (after h H) = take k rest" for k using page [of k] by (simp add: page_of_def)
  from this [of "max (length (after h H)) (length rest)"] have "after h H = rest" by simp
  then show ?thesis using H by blast
qed

lemma walk_start_suffix: "\<exists>older. H = older @ walk_start s H"
proof (cases "fst (drop_traversed (latest_play_slot (pl_plays s)) (so_seen (pl_sol s)))")
  case None
  then show ?thesis by (simp add: walk_start_def)
next
  case (Some h)
  then show ?thesis using after_suffix [of H h] by (simp add: walk_start_def)
qed

lemma process_plays_run:
  assumes "serves (se_source (pe_sol E)) H" and "history_ok H" and "se_valid_program (pe_sol E)"
  obtains r t where "only_seen s t" and "seen_within (set (so_seen (pl_sol s)) \<union> set H) t"
    and "process_solana_plays E s = Some (bnd (lift_res r) (\<lambda>(batches, slot). process_batches E batches slot) t)"
    and "\<And>bs slot. r = Inr (bs, slot) \<Longrightarrow> concat bs = map si_signature
      (takeWhile (\<lambda>t. \<not> known (latest_play_slot (pl_plays s)) (play_in_db (pl_plays s)) None t) (walk_start s H))"
proof -
  let ?latest = "latest_play_slot (pl_plays s)" and ?exist = "play_in_db (pl_plays s)"
  obtain b seen where cache: "drop_traversed ?latest (so_seen (pl_sol s)) = (b, seen)" by force
  let ?s = "s\<lparr>pl_sol := (pl_sol s)\<lparr>so_seen := seen\<rparr>\<rparr>"
  obtain older where H: "H = older @ walk_start s H" using walk_start_suffix by blast
  have "\<exists>r t. plays_walk E ?latest ?exist PLAYS_INITIAL_FETCH_SIZE b [] None ?s = Some (r, t) \<and> only_seen ?s t \<and>
    set (so_seen (pl_sol t)) \<subseteq> set (so_seen (pl_sol ?s)) \<union> set (walk_start s H) \<and>
    (\<forall>bs slot'. r = Inr (bs, slot') \<longrightarrow> concat bs = concat [] @ wanted ?latest ?exist None (walk_start s H))"
    by (rule plays_walk_rest [OF assms(1,2) _ H])
      (simp_all add: PLAYS_INITIAL_FETCH_SIZE_def page_of_def walk_start_def cache)
  then obtain r t where walk: "plays_walk E ?latest ?exist PLAYS_INITIAL_FETCH_SIZE b [] None ?s = Some (r, t)"
      and seen: "only_seen ?s t" "set (so_seen (pl_sol t)) \<subseteq> set seen \<union> set (walk_start s H)"
      and bs: "\<And>bs slot'. r = Inr (bs, slot') \<Longrightarrow> concat bs = wanted ?latest ?exist None (walk_start s H)"
    by auto
  show thesis
  proof (rule that [of t r])
    show "only_seen s t" using seen(1) by (rule only_seen_step)
    show "seen_within (set (so_seen (pl_sol s)) \<union> set H) t"
    proof -
      have "set seen \<subseteq> set (so_seen (pl_sol s))" using drop_traversed_facts(1) [of ?latest "so_seen (pl_sol s)"] cache by simp
      moreover have "set (walk_start s H) \<subseteq> set H" using arg_cong [OF H, of set] by simp
      ultimately show ?thesis using seen(2) by (auto simp: seen_within_def)
    qed
    show "process_solana_plays E s = Some (bnd (lift_res r) (\<lambda>(batches, slot). process_batches E batches slot) t)"
      using assms(3) walk by (simp add: process_solana_plays_def Let_def cache)
    show "concat bs = map si_signature (takeWhile (\<lambda>t. \<not> known ?latest ?exist None t) (walk_start s H))"
      if r: "r = Inr (bs, slot)" for bs slot
      using bs [OF r] by (simp add: wanted_all)
  qed
qed

lemma latest_play_slot_ge:
  assumes "p \<in> set plays" and "sp_slot p = Some n" and "sp_signature p = Some h"
  shows "n \<le> latest_play_slot plays"
proof -
  let ?slots = "map (\<lambda>p. the (sp_slot p)) (filter (\<lambda>p. sp_slot p \<noteq> None \<and> sp_signature p \<noteq> None) plays)"
  have n: "n \<in> set ?slots" using assms by (force simp: image_iff)
  have max: "y \<le> fold max ys y \<and> (\<forall>x \<in> set ys. x \<le> fold max ys y)" for y :: int and ys
    by (induction ys arbitrary: y) force+
  have "x \<le> fold max ys y" if "x \<in> set (y # ys)" for x y :: int and ys
    using that max [of y ys] by auto
  note le = this
  show ?thesis
  proof (cases ?slots)
    case Nil
    then show ?thesis using n by simp
  next
    case (Cons y ys)
    show ?thesis using le [of n y ys] n unfolding latest_play_slot_def Cons list.case by simp
  qed
qed

section \<open>A gap\<close>

text \<open>One run after the other, each over the history as it is by then; \<open>None\<close> is a run that does not return.\<close>

fun plays_runs :: "plays_env list \<Rightarrow> plays_state \<Rightarrow> plays_state option" where
  "plays_runs [] s = Some s"
| "plays_runs (E # Es) s = (case index_solana_plays E s of None \<Rightarrow> None | Some (r, t) \<Rightarrow> plays_runs Es t)"

definition old_rows :: "sig_info list \<Rightarrow> sol_play list \<Rightarrow> sol_play list" where
  "old_rows older P = filter (\<lambda>q. sp_signature q \<in> Some ` si_signature ` set older) P"

text \<open>The listen of \<open>t0\<close> is recorded, and the remembered pages tell the slots of the history.\<close>

definition gap_state :: "sig_info \<Rightarrow> sig_info list \<Rightarrow> plays_state \<Rightarrow> bool" where
  "gap_state t0 older s \<longleftrightarrow> (\<exists>p \<in> set (pl_plays s). sp_signature p = Some (si_signature t0) \<and> sp_slot p = Some (si_slot t0)) \<and>
     seen_within {u. si_signature u \<in> si_signature ` set (t0 # older) \<longrightarrow> si_slot u \<le> si_slot t0} s"

lemma start_above_gap:
  assumes "history_ok (newer @ t0 # older)" and "gap_state t0 older s"
  shows "set (takeWhile (\<lambda>t. \<not> known (latest_play_slot (pl_plays s)) (play_in_db (pl_plays s)) None t)
    (walk_start s (newer @ t0 # older))) \<subseteq> set newer"
proof -
  let ?known = "known (latest_play_slot (pl_plays s)) (play_in_db (pl_plays s)) None"
  obtain p where p: "p \<in> set (pl_plays s)" "sp_signature p = Some (si_signature t0)" "sp_slot p = Some (si_slot t0)"
    using assms(2) by (auto simp: gap_state_def)
  have top: "si_slot t0 \<le> latest_play_slot (pl_plays s)" using latest_play_slot_ge [OF p(1,3,2)] .
  then have t0: "?known t0" using p(1,2) by (auto simp: known_def above_min_def play_in_db_def list_ex_iff)
  then have stop: "set (takeWhile (\<lambda>t. \<not> ?known t) (xs @ t0 # older)) \<subseteq> set xs" for xs
    by (auto simp: takeWhile_append dest: set_takeWhileD)
  show ?thesis
  proof (cases "fst (drop_traversed (latest_play_slot (pl_plays s)) (so_seen (pl_sol s)))")
    case None
    then show ?thesis using stop [of newer] by (simp add: walk_start_def)
  next
    case (Some h)
    obtain u where u: "u \<in> set (so_seen (pl_sol s))" "si_signature u = h" "latest_play_slot (pl_plays s) < si_slot u"
      using drop_traversed_facts(2) [OF Some] by blast
    then have h: "h \<notin> si_signature ` set (t0 # older)"
      using assms(2) top by (fastforce simp: gap_state_def seen_within_def)
    have start: "walk_start s (newer @ t0 # older) = after h (newer @ t0 # older)" using Some by (simp add: walk_start_def)
    show ?thesis
    proof (cases "h \<in> si_signature ` set newer")
      case True
      then obtain v xs ys where v: "h = si_signature v" "newer = xs @ v # ys" by (auto simp: in_set_conv_decomp)
      then have "walk_start s (newer @ t0 # older) = ys @ t0 # older"
        unfolding start v(1) using assms(1) by (intro after_nth) (simp_all add: history_ok_def)
      then show ?thesis using stop [of ys] v(2) by auto
    next
      case False
      have "\<forall>t \<in> set (newer @ t0 # older). si_signature t \<noteq> h" using h False by auto
      then have "dropWhile (\<lambda>t. si_signature t \<noteq> h) (newer @ t0 # older) = []"
        by (simp only: dropWhile_eq_Nil_conv simp_thms)
      then show ?thesis unfolding start after_def by (simp only: list.sel takeWhile.simps list.set empty_subsetI)
    qed
  qed
qed

lemma gap_run:
  assumes "serves (se_source (pe_sol E)) (newer @ t0 # older)" and "history_ok (newer @ t0 # older)"
    and "arrivals_ok E" and "gap_state t0 older s"
  shows "\<exists>r t. process_solana_plays E s = Some (r, t) \<and> gap_state t0 older t \<and>
    old_rows older (pl_plays t) = old_rows older (pl_plays s)"
proof (cases "se_valid_program (pe_sol E)")
  case False
  then show ?thesis using assms(4) by (simp add: process_solana_plays_def)
next
  case True
  let ?H = "newer @ t0 # older" and ?S = "si_signature ` set newer"
  obtain r t where seen: "only_seen s t" "seen_within (set (so_seen (pl_sol s)) \<union> set ?H) t"
    and run: "process_solana_plays E s = Some (bnd (lift_res r) (\<lambda>(batches, slot). process_batches E batches slot) t)"
    and bs: "\<And>bs slot. r = Inr (bs, slot) \<Longrightarrow> concat bs = map si_signature
      (takeWhile (\<lambda>t. \<not> known (latest_play_slot (pl_plays s)) (play_in_db (pl_plays s)) None t) (walk_start s ?H))"
    by (rule process_plays_run [OF assms(1,2) True], rule that)
  have sub: "set (concat bs) \<subseteq> ?S" if "r = Inr (bs, slot)" for bs slot
    unfolding bs [OF that] using start_above_gap [OF assms(2,4)] by auto
  let ?A = "{u. si_signature u \<in> si_signature ` set (t0 # older) \<longrightarrow> si_slot u \<le> si_slot t0}"
  have H_slots: "set ?H \<subseteq> ?A"
  proof
    fix u assume u: "u \<in> set ?H"
    have "si_slot u \<le> si_slot t0" if sig: "si_signature u \<in> si_signature ` set (t0 # older)"
    proof -
      obtain v where v: "v \<in> set (t0 # older)" "si_signature u = si_signature v" using sig unfolding image_iff by blast
      have "inj_on si_signature (set ?H)" using assms(2) by (simp only: history_ok_def distinct_map)
      moreover have "v \<in> set ?H" using v(1) by auto
      ultimately have "u = v" using v(2) u by (simp only: inj_onD)
      then show ?thesis using v(1) assms(2) by (auto simp: history_ok_def sorted_wrt_append)
    qed
    then show "u \<in> ?A" by simp
  qed
  have "seen_within ?A s" using assms(4) by (simp only: gap_state_def)
  then have within: "seen_within ?A t" unfolding seen_within_def
    by (rule subset_trans [OF seen(2) [unfolded seen_within_def] Un_least [OF _ H_slots]])
  have added: "keeps (rows_added (pl_plays s) ?S) (case p of (batches, slot) \<Rightarrow> process_batches E batches slot)" if "r = Inr p" for p
  proof -
    obtain batches slot where p: "p = (batches, slot)" by force
    have "\<forall>h \<in> set (concat batches). \<forall>n q. fetch_play E n h = Inr (Some q) \<longrightarrow> h \<in> ?S"
      using sub [OF that [unfolded p]] by blast
    then show ?thesis unfolding p prod.case by (rule keeps_rows_process [OF _ assms(3)])
  qed
  let ?m = "bnd (lift_res r) (\<lambda>(batches, slot). process_batches E batches slot)"
  have "keeps (rows_added (pl_plays s) ?S) ?m" using added
    by (intro keeps_bnd_gives [OF gives_lift_res [where Q = "\<lambda>p. r = Inr p"]])
  moreover have "rows_added (pl_plays s) ?S t" using only_seen_plays [OF seen(1)] by (simp add: rows_added_def)
  moreover have "keeps (seen_within ?A) ?m" by (intro keeps_rules) (auto split: prod.split intro: keeps_seen_process)
  moreover obtain r' t' where end_run: "?m t = (r', t')" by force
  ultimately have rows: "rows_added (pl_plays s) ?S t'" and "seen_within ?A t'"
    using keepsD [of "rows_added (pl_plays s) ?S" ?m t] keepsD [of "seen_within ?A" ?m t] within by simp_all
  then obtain new where new: "pl_plays t' = pl_plays s @ new" "\<forall>p \<in> set new. \<exists>sig \<in> ?S. sp_signature p = Some sig"
    by (auto simp: rows_added_def)
  have "?S \<inter> si_signature ` set older = {}" using assms(2) by (auto simp: history_ok_def)
  then have "filter (\<lambda>q. sp_signature q \<in> Some ` si_signature ` set older) new = []"
    using new(2) by (fastforce simp: filter_empty_conv)
  then have "old_rows older (pl_plays t') = old_rows older (pl_plays s)" by (simp add: old_rows_def new(1))
  moreover have "gap_state t0 older t'" using assms(4) new(1) \<open>seen_within ?A t'\<close> by (auto simp: gap_state_def)
  ultimately show ?thesis using run end_run by simp
qed

text \<open>The rest of the task leaves the plays and the remembered pages alone.\<close>

lemma latest_program_frame:
  assumes "on_sol (fetch_and_cache_latest_program_tx_redis E key) s = (r, t)"
  shows "pl_plays t = pl_plays s \<and> so_seen (pl_sol t) = so_seen (pl_sol s)"
  using assms
  by (auto simp: on_sol_def zoom_def fetch_and_cache_latest_program_tx_redis_def cache_latest_sol_db_tx_def py_simps
      split: sum.splits list.splits prod.splits)

lemma flush_plays_frame: "flush_plays E (r, t) = (r', t') \<Longrightarrow> pl_plays t' = pl_plays t \<and> so_seen (pl_sol t') = so_seen (pl_sol t)"
  by (auto simp: flush_plays_def scoped_queue_def split: prod.splits)

lemma gap_task:
  assumes "serves (se_source (pe_sol E)) (newer @ t0 # older)" and "history_ok (newer @ t0 # older)"
    and "arrivals_ok E" and "gap_state t0 older s"
  shows "\<exists>r t. index_solana_plays E s = Some (r, t) \<and> gap_state t0 older t \<and>
    old_rows older (pl_plays t) = old_rows older (pl_plays s)"
proof -
  obtain r1 s1 where first: "on_sol (fetch_and_cache_latest_program_tx_redis (pe_sol E) plays_program_key) s = (r1, s1)" by force
  have s1: "gap_state t0 older s1" "pl_plays s1 = pl_plays s"
    using assms(4) latest_program_frame [OF first] by (simp_all add: gap_state_def seen_within_def)
  obtain r t where run: "process_solana_plays E s1 = Some (r, t)" "gap_state t0 older t"
      "old_rows older (pl_plays t) = old_rows older (pl_plays s1)"
    using gap_run [OF assms(1-3) s1(1)] by blast
  obtain r' t' where q: "flush_plays E (r, t) = (r', t')" by force
  have "gap_state t0 older t'" "pl_plays t' = pl_plays t"
    using run(2) flush_plays_frame [OF q] by (simp_all add: gap_state_def seen_within_def)
  then show ?thesis
    using first s1 run q by (cases r1) (auto simp: index_solana_plays_def)
qed

text \<open>C17: What is missing below a recorded listen, because an older chunk of the page failed after a newer
  one was stored, is missing for good: through any sequence of runs, however the history grows above
  the listen and whatever fails in them, every run returns and no row below the listen is added.
  Of the pages that earlier runs left in Redis only this is asked: none of those at or below the listen has a
  slot above it.\<close>

theorem gap_never_filled:
  assumes "\<forall>E \<in> set Es. arrivals_ok E \<and>
      (\<exists>newer. serves (se_source (pe_sol E)) (newer @ t0 # older) \<and> history_ok (newer @ t0 # older))"
    and "p \<in> set (pl_plays s)" and "sp_signature p = Some (si_signature t0)" and "sp_slot p = Some (si_slot t0)"
    and "\<forall>u \<in> set (so_seen (pl_sol s)). si_signature u \<in> si_signature ` set (t0 # older) \<longrightarrow> si_slot u \<le> si_slot t0"
  shows "\<exists>t. plays_runs Es s = Some t \<and>
    filter (\<lambda>q. sp_signature q \<in> Some ` si_signature ` set older) (pl_plays t) =
    filter (\<lambda>q. sp_signature q \<in> Some ` si_signature ` set older) (pl_plays s)"
proof -
  have "gap_state t0 older s" using assms(2-5) by (auto simp: gap_state_def seen_within_def)
  then have "\<exists>t. plays_runs Es s = Some t \<and> old_rows older (pl_plays t) = old_rows older (pl_plays s)"
    using assms(1)
  proof (induction Es arbitrary: s)
    case (Cons E Es)
    obtain newer where "serves (se_source (pe_sol E)) (newer @ t0 # older)" "history_ok (newer @ t0 # older)" "arrivals_ok E"
      using Cons.prems(2) by auto
    from gap_task [OF this Cons.prems(1)] obtain r u where u: "index_solana_plays E s = Some (r, u)" "gap_state t0 older u"
        "old_rows older (pl_plays u) = old_rows older (pl_plays s)" by blast
    then show ?case using Cons.IH [OF u(2)] Cons.prems(2) by simp
  qed simp
  then show ?thesis by (simp add: old_rows_def)
qed

section \<open>A run that succeeds\<close>

definition recorded :: "sol_play list \<Rightarrow> string set" where
  "recorded P = {h. \<exists>p \<in> set P. sp_signature p = Some h}"

text \<open>The client gives the same listen for a transaction in every attempt that succeeds.\<close>

definition tells_listens :: "plays_env \<Rightarrow> (string \<Rightarrow> sol_play option) \<Rightarrow> bool" where
  "tells_listens E g \<longleftrightarrow> (\<forall>n h r. fetch_play E n h = Inr r \<longrightarrow> r = g h)"

definition listens_older :: "(string \<Rightarrow> sol_play option) \<Rightarrow> sig_info list \<Rightarrow> sol_play list \<Rightarrow> bool" where
  "listens_older g H P \<longleftrightarrow> (\<exists>newer older. H = newer @ older \<and>
     recorded P \<inter> si_signature ` set H = si_signature ` {t \<in> set older. g (si_signature t) \<noteq> None})"

lemma keeps_plays_on_sol: "keeps (\<lambda>s. pl_plays s = P) (on_sol m)"
  unfolding on_sol_def by (rule keeps_zoom_frame) simp

lemma saved_plays:
  assumes "save_plays E records plays s = (Inr (), t)"
  shows "pl_plays t = pl_plays s @ plays"
proof -
  let ?clear = "run_when (records \<noteq> [] \<and> plays = []) (on_sol (modify (\<lambda>s. s\<lparr>so_seen := []\<rparr>)))"
  have frame: "keeps (\<lambda>s. pl_plays s = P) ?clear" "keeps (\<lambda>s. pl_plays s = P) (cache_latest_play E (hd records) plays)"
      "keeps (\<lambda>s. pl_plays s = P) (for_each plays (dispatch_listen E))" for P
    unfolding cache_latest_play_def dispatch_listen_def
    by (auto intro!: keeps_rules keeps_plays_on_sol split: option.split)
  obtain u1 u2 where u: "?clear s = (Inr (), u1)" "cache_latest_play E (hd records) plays u1 = (Inr (), u2)"
      "run_when (plays \<noteq> []) (sq (require (pe_insert_ok E plays) (Raised ''insert into plays''))
        (sq (modify (\<lambda>s. s\<lparr>pl_plays := pl_plays s @ plays\<rparr>)) (for_each plays (dispatch_listen E)))) u2 = (Inr (), t)"
    using assms unfolding save_plays_def sq_Inr by auto
  have "pl_plays u2 = pl_plays s"
    using keepsD [OF frame(1) [of "pl_plays s"], of s] keepsD [OF frame(2) [of "pl_plays s"], of u1] u(1,2) by simp
  moreover have "pl_plays t = pl_plays u2 @ plays"
  proof (cases "plays = []")
    case True
    then show ?thesis using u(3) by (simp add: run_when_def ret_def)
  next
    case False
    then obtain u3 where "for_each plays (dispatch_listen E) u3 = (Inr (), t)" "pl_plays u3 = pl_plays u2 @ plays"
      using u(3) by (auto simp: run_when_def sq_Inr run_Inr modify_def)
    then show ?thesis using keepsD [OF frame(3) [of "pl_plays u3"], of u3] by simp
  qed
  ultimately show ?thesis by simp
qed

lemma batch_recorded:
  assumes "parse_play_batch E c s = (Inr (), t)" and "arrivals_ok E" and "tells_listens E g"
  shows "recorded (pl_plays s) \<union> {h \<in> set c. g h \<noteq> None} \<subseteq> recorded (pl_plays t)"
proof -
  obtain plays where f: "fetch_with_retries E 0 c 10 = Inr plays" and "save_plays E c plays s = (Inr (), t)"
    using assms(1) by (auto simp: parse_play_batch_def bnd_Inr run_Inr)
  then have t: "pl_plays t = pl_plays s @ plays" by (intro saved_plays)
  obtain n where n: "fetch_plays E n c = Inr plays" using retries_attempt [OF f] by blast
  have "\<exists>p \<in> set plays. sp_signature p = Some h" if h: "h \<in> set c" "g h \<noteq> None" for h
  proof -
    obtain r where "fetch_play E n h = Inr r" using fetch_plays_rows(2) [OF n assms(2) h(1)] by blast
    then have "fetch_play E n h = Inr (g h)" using assms(3) by (auto simp: tells_listens_def)
    then obtain p where p: "fetch_play E n h = Inr (Some p)" using h(2) by auto
    then show ?thesis using fetch_plays_rows(1) [OF n assms(2)] fetch_play_signature [OF p] h(1) by blast
  qed
  then show ?thesis by (auto simp: t recorded_def)
qed

lemma chunks_recorded:
  assumes "for_each cs (parse_play_batch E) s = (Inr (), t)" and "arrivals_ok E" and "tells_listens E g"
  shows "recorded (pl_plays s) \<union> {h \<in> set (concat cs). g h \<noteq> None} \<subseteq> recorded (pl_plays t)"
  using assms(1)
proof (induction cs arbitrary: s)
  case (Cons c cs)
  then obtain u where c: "parse_play_batch E c s = (Inr (), u)" and cs: "for_each cs (parse_play_batch E) u = (Inr (), t)"
    by (auto simp: sq_Inr)
  show ?case using batch_recorded [OF c assms(2,3)] Cons.IH [OF cs] by auto
qed (simp add: ret_def)

lemma from_member:
  assumes "newer @ older = front @ k # rest" and "k \<notin> set newer"
  shows "set (k # rest) \<subseteq> set older"
  using assms
proof (induction newer arbitrary: front)
  case (Cons a newer)
  then show ?case by (cases front) auto
qed auto

text \<open>Where the walk stops, the older part begins: what lies below the stop is recorded already.\<close>

lemma below_stop_recorded:
  assumes "history_ok H" and split: "H = newer @ older" and part: "H = front @ rest"
    and old: "recorded P \<inter> si_signature ` set H = si_signature ` {t \<in> set older. g (si_signature t) \<noteq> None}"
    and "u \<in> set rest" and "g (si_signature u) \<noteq> None"
    and "u \<notin> set (takeWhile (\<lambda>t. \<not> known latest (play_in_db P) None t) rest)"
  shows "si_signature u \<in> recorded P"
proof -
  let ?known = "known latest (play_in_db P) None"
  let ?head = "takeWhile (\<lambda>t. \<not> ?known t) rest" and ?tail = "dropWhile (\<lambda>t. \<not> ?known t) rest"
  have "u \<in> set ?tail" using assms(5,7) by (metis Un_iff set_append takeWhile_dropWhile_id)
  moreover from this obtain k more where tail: "?tail = k # more" by (cases ?tail) auto
  ultimately have u: "u \<in> set (k # more)" by simp
  have rest: "rest = ?head @ k # more" unfolding tail [symmetric] by simp
  have "?known k" using tail by (metis dropWhile_eq_Cons_conv)
  then have "si_signature k \<in> recorded P" by (auto simp: known_def play_in_db_def recorded_def list_ex_iff)
  moreover have H: "H = (front @ ?head) @ k # more" using part rest by (metis append_assoc)
  then have k: "k \<in> set H" by (metis in_set_conv_decomp)
  ultimately obtain k' where k': "k' \<in> set older" "si_signature k = si_signature k'" using old by blast
  have inj: "inj_on si_signature (set H)" and dist: "distinct H" using assms(1) by (simp_all add: history_ok_def distinct_map)
  have "k' \<in> set H" using k'(1) unfolding split by simp
  with inj k'(2) k have "k = k'" by (rule inj_onD)
  then have "k \<notin> set newer" using k'(1) dist unfolding split by auto
  moreover have "newer @ older = (front @ ?head) @ k # more" by (rule trans [OF split [symmetric] H])
  ultimately have "set (k # more) \<subseteq> set older" by (intro from_member)
  then show ?thesis using u assms(6) old by blast
qed

lemma processed_recorded:
  assumes "process_batches E batches slot s = (Inr (), t)" and "arrivals_ok E" and "tells_listens E g"
  shows "recorded (pl_plays s) \<union> {h \<in> set (concat batches). g h \<noteq> None} \<subseteq> recorded (pl_plays t)"
proof -
  let ?chunks = "concat (map (split_list PLAYS_PROCESSING_SIZE) (rev batches))"
  obtain u where u: "for_each ?chunks (parse_play_batch E) s = (Inr (), u)" "set_plays_slot E slot u = (Inr (), t)"
    using assms(1) by (auto simp: process_batches_def sq_Inr)
  have "keeps (\<lambda>s. pl_plays s = pl_plays u) (set_plays_slot E slot)"
    unfolding set_plays_slot_def Let_def
    by (auto intro!: keeps_rules keeps_plays_on_sol split: sum.split option.split)
  then have "pl_plays t = pl_plays u" using keepsD [of "\<lambda>s. pl_plays s = pl_plays u" _ u] u(2) by fastforce
  moreover have "set (concat ?chunks) = set (concat batches)" unfolding set_chunks by simp
  ultimately show ?thesis using chunks_recorded [OF u(1) assms(2,3)] by simp
qed

lemma listens_cut:
  fixes R S :: "'a set"
  assumes "R = S \<union> A" and "A \<subseteq> B" and "B \<subseteq> R" and "B \<subseteq> C" and "S \<inter> C = D"
  shows "R \<inter> C = D \<union> B"
  using assms by blast

lemma added_listens:
  assumes "process_batches E batches slot s = (Inr (), t)" and "arrivals_ok E" and "tells_listens E g"
  shows "recorded (pl_plays t) = recorded (pl_plays s) \<union> {h \<in> set (concat batches). g h \<noteq> None}"
proof
  let ?S = "{h \<in> set (concat batches). g h \<noteq> None}"
  have "keeps (rows_added (pl_plays s) ?S) (process_batches E batches slot)"
    by (rule keeps_rows_process [OF _ assms(2)]) (use assms(3) in \<open>force simp: tells_listens_def\<close>)
  then have "rows_added (pl_plays s) ?S t" using keepsD [of _ _ s] assms(1) by (force simp: rows_added_def)
  then show "recorded (pl_plays t) \<subseteq> recorded (pl_plays s) \<union> ?S" by (fastforce simp: rows_added_def recorded_def)
qed (use processed_recorded [OF assms] in simp)

text \<open>C16: A run that succeeds over a table without gaps leaves none: if the recorded listens were those of
  an older part of the history, they are again, and all listens below the point where the walk started
  are among them.  The walk starts at the front of the history unless an earlier run left a page in Redis
  whose slot is above those of the recorded listens; then it starts below that page, and what is newer
  waits for a later run.  A transaction gives the same listen in every attempt to read it that succeeds.\<close>

theorem plays_complete:
  assumes "serves (se_source (pe_sol E)) H" and "history_ok H" and "arrivals_ok E" and "tells_listens E g"
    and "se_valid_program (pe_sol E)" and "listens_older g H (pl_plays s)"
    and "process_solana_plays E s = Some (Inr (), t)"
  shows "listens_older g H (pl_plays t) \<and>
    si_signature ` {u \<in> set (walk_start s H). g (si_signature u) \<noteq> None} \<subseteq> recorded (pl_plays t)"
proof -
  let ?rest = "walk_start s H"
  let ?stop = "\<lambda>t. \<not> known (latest_play_slot (pl_plays s)) (play_in_db (pl_plays s)) None t"
  let ?L = "\<lambda>xs. si_signature ` {u \<in> set xs. g (si_signature u) \<noteq> None}"
  obtain r s1 where seen: "only_seen s s1"
    and run: "process_solana_plays E s = Some (bnd (lift_res r) (\<lambda>(batches, slot). process_batches E batches slot) s1)"
    and bs: "\<And>bs slot. r = Inr (bs, slot) \<Longrightarrow> concat bs = map si_signature (takeWhile ?stop ?rest)"
    by (rule process_plays_run [OF assms(1,2,5)], rule that)
  have "bnd (lift_res r) (\<lambda>(batches, slot). process_batches E batches slot) s1 = (Inr (), t)" using run assms(7) by simp
  then obtain batches slot where r: "r = Inr (batches, slot)" and p: "process_batches E batches slot s1 = (Inr (), t)"
    by (auto simp: bnd_Inr run_Inr)
  have "{h \<in> set (concat batches). g h \<noteq> None} = ?L (takeWhile ?stop ?rest)" unfolding bs [OF r] by auto
  then have got: "recorded (pl_plays t) = recorded (pl_plays s) \<union> ?L (takeWhile ?stop ?rest)"
    using added_listens [OF p assms(3,4)] only_seen_plays [OF seen] by simp
  obtain newer older where H: "H = newer @ older" and old: "recorded (pl_plays s) \<inter> si_signature ` set H = ?L older"
    using assms(6) by (auto simp: listens_older_def)
  obtain front where front: "H = front @ ?rest" using walk_start_suffix by blast
  have below: "?L ?rest \<subseteq> recorded (pl_plays t)"
  proof
    fix h assume "h \<in> ?L ?rest"
    then obtain u where u: "u \<in> set ?rest" "g (si_signature u) \<noteq> None" "h = si_signature u" by blast
    show "h \<in> recorded (pl_plays t)"
    proof (cases "u \<in> set (takeWhile ?stop ?rest)")
      case True
      then show ?thesis using u(2,3) unfolding got by blast
    next
      case False
      then show ?thesis using below_stop_recorded [OF assms(2) H front old u(1,2)] u(3) unfolding got by blast
    qed
  qed
  have "set ?rest \<subseteq> set H" using arg_cong [OF front, of set] by simp
  then have sub: "?L (takeWhile ?stop ?rest) \<subseteq> ?L ?rest" "?L ?rest \<subseteq> si_signature ` set H"
    by (auto dest: set_takeWhileD)
  have all: "recorded (pl_plays t) \<inter> si_signature ` set H = ?L older \<union> ?L ?rest"
    using listens_cut [OF got sub(1) below sub(2) old] .
  have "suffix older H" "suffix ?rest H" using H front by (auto simp: suffix_def)
  then consider "suffix older ?rest" | "suffix ?rest older" using suffix_same_cases by blast
  then have "\<exists>part. suffix part H \<and> ?L older \<union> ?L ?rest = ?L part"
  proof cases
    case 1
    then have "?L older \<subseteq> ?L ?rest" by (auto dest: set_mono_suffix)
    then show ?thesis using \<open>suffix ?rest H\<close> by blast
  next
    case 2
    then have "?L ?rest \<subseteq> ?L older" by (auto dest: set_mono_suffix)
    then show ?thesis using \<open>suffix older H\<close> by blast
  qed
  then show ?thesis using all below by (auto simp: listens_older_def suffix_def)
qed

section \<open>The message\<close>

text \<open>What the program's clients sign: three texts with their lengths, and a time.\<close>

definition encode_play :: "string \<Rightarrow> string \<Rightarrow> 8 word list \<Rightarrow> nat \<Rightarrow> 8 word list" where
  "encode_play user track source time =
     to_bytes_little 4 (length user) @ map (\<lambda>c. word_of_nat (of_char c)) user @
     to_bytes_little 4 (length track) @ map (\<lambda>c. word_of_nat (of_char c)) track @
     to_bytes_little 4 (length source) @ source @ to_bytes_little 8 time"

lemma char_bytes: "map (\<lambda>b. char_of (unat b)) (map (\<lambda>c. word_of_nat (of_char c) :: 8 word) s) = s"
proof -
  have "char_of (unat (word_of_nat (of_char c) :: 8 word)) = c" for c
  proof -
    have "of_char c < (256 :: nat)" by simp
    then show ?thesis by (simp add: unat_of_nat)
  qed
  then show ?thesis by (simp add: comp_def)
qed

lemma plain_number: "c \<in> set (show_int n) \<Longrightarrow> \<not> is_byte_space c \<and> c \<noteq> CHR ''_'' \<and> c \<noteq> CHR ''+''"
  using show_nat_digits [of c "nat n"] show_nat_digits [of c "nat (- n)"]
  by (auto simp: show_int_def is_byte_space_def Let_def code_point_def split: if_splits)

lemma strip_plain: "\<forall>c \<in> set s. \<not> is_byte_space c \<Longrightarrow> strip_bytes s = s"
proof -
  have "dropWhile is_byte_space xs = xs" if "\<forall>c \<in> set xs. \<not> is_byte_space c" for xs
    using that by (cases xs) simp_all
  from this [of s] this [of "rev s"] show "\<forall>c \<in> set s. \<not> is_byte_space c \<Longrightarrow> strip_bytes s = s"
    by (simp add: strip_bytes_def)
qed

lemma digits_plain: "CHR ''_'' \<notin> set s \<Longrightarrow> s \<noteq> [] \<Longrightarrow> read_digits s = read_nat s"
  by (simp add: read_digits_def str_split_no_sep)

lemma int_of_show: "int_of_bytes (map (\<lambda>c. word_of_nat (of_char c)) (show_int n)) = Inr n"
proof -
  have strip: "strip_bytes (show_int n) = show_int n" using plain_number [of _ n] by (intro strip_plain) blast
  show ?thesis
  proof (cases "n < 0")
    case True
    then have s: "show_int n = CHR ''-'' # show_nat (nat (- n))" by (simp add: show_int_def)
    have "read_digits (show_nat (nat (- n))) = Inr (nat (- n))"
      using plain_number [of _ n] s by (subst digits_plain) auto
    then show ?thesis using strip s True by (simp only: int_of_bytes_def char_bytes int_of_text_def) simp
  next
    case False
    then obtain c cs where s: "show_int n = c # cs" "show_nat (nat n) = c # cs"
      by (cases "show_nat (nat n)") (auto simp: show_int_def)
    have c: "c \<noteq> CHR ''-''" "c \<noteq> CHR ''+''"
      using show_nat_hd_not_minus [OF s(2)] plain_number [of c n] s(1) by auto
    have "read_digits (c # cs) = Inr (nat n)"
      using plain_number [of _ n] s read_show_nat [of "nat n"] by (subst digits_plain) auto
    then show ?thesis using strip s(1) c False by (simp only: int_of_bytes_def char_bytes int_of_text_def) simp
  qed
qed

text \<open>A text with its length in front, at a given place of the message.\<close>

lemma read_text:
  assumes "length xs < 2 ^ 32" and "n = length pre"
  shows "from_bytes_little (slice (pre @ to_bytes_little 4 (length xs) @ xs @ post) n (n + 4)) = length xs"
    and "slice (pre @ to_bytes_little 4 (length xs) @ xs @ post) (n + 4) (n + 4 + length xs) = xs"
  using slice_middle [of pre "to_bytes_little 4 (length xs)" "xs @ post"]
    slice_middle [of "pre @ to_bytes_little 4 (length xs)" xs post] assms
  by (simp_all add: from_to_bytes_little)

text \<open>The parser inverts the layout the clients sign, for a listen of a user with a source and a place.\<close>

theorem play_message_roundtrip:
  assumes "b58decode data = Inr (tag # encode_play (show_int user) (show_int track) source time)"
    and "length (show_int user) < 2 ^ 32" and "length (show_int track) < 2 ^ 32" and "length source < 2 ^ 32"
    and "time < 2 ^ 64" and "loads source = Inr (PDict [(''source'', PStr s), (''location'', PDict loc)])" and "s \<noteq> []"
  shows "parse_play_data b58decode loads data =
    Inr \<lparr>pm_user = Some user, pm_track = track, pm_source = PStr s, pm_location = PDict loc, pm_timestamp = time\<rparr>"
proof -
  let ?b = "\<lambda>s. map (\<lambda>c. word_of_nat (of_char c) :: 8 word) s"
  let ?u = "?b (show_int user)" and ?t = "?b (show_int track)"
  let ?lu = "to_bytes_little 4 (length ?u)" and ?lt = "to_bytes_little 4 (length ?t)" and ?ls = "to_bytes_little 4 (length source)"
  let ?m = "encode_play (show_int user) (show_int track) source time"
  have m: "?m = [] @ ?lu @ ?u @ (?lt @ ?t @ ?ls @ source @ to_bytes_little 8 time)"
      "?m = (?lu @ ?u) @ ?lt @ ?t @ (?ls @ source @ to_bytes_little 8 time)"
      "?m = (?lu @ ?u @ ?lt @ ?t) @ ?ls @ source @ to_bytes_little 8 time"
      "?m = (?lu @ ?u @ ?lt @ ?t @ ?ls @ source) @ to_bytes_little 8 time @ []"
    by (simp_all add: encode_play_def)
  define n where "n = 4 + length ?u"
  define k where "k = n + 4 + length ?t"
  define l where "l = k + 4 + length source"
  have lens: "length ?u < 2 ^ 32" "length ?t < 2 ^ 32" using assms(2,3) by simp_all
  have "from_bytes_little (slice ?m 0 4) = length ?u" "slice ?m 4 n = ?u"
    using read_text [OF lens(1), of 0 "[]"] unfolding m(1) by (simp_all add: n_def)
  moreover have "from_bytes_little (slice ?m n (n + 4)) = length ?t" "slice ?m (n + 4) k = ?t"
    using read_text [OF lens(2), of n "?lu @ ?u"] unfolding m(2) by (simp_all add: n_def k_def)
  moreover have "from_bytes_little (slice ?m k (k + 4)) = length source" "slice ?m (k + 4) l = source"
    using read_text [OF assms(4), of k "?lu @ ?u @ ?lt @ ?t"] unfolding m(3) by (simp_all add: n_def k_def l_def)
  moreover have "from_bytes_little (slice ?m l (l + 8)) = time"
    using slice_middle [of "?lu @ ?u @ ?lt @ ?t @ ?ls @ source" "to_bytes_little 8 time" "[]"] assms(5)
    unfolding m(4) by (simp add: n_def k_def l_def from_to_bytes_little add.assoc)
  moreover have "parse_source loads source = (PStr s, PDict loc)"
    using assms(6,7) by (simp add: parse_source_def parse_json_source_def subscript_def)
  moreover have "drop 1 (tag # ?m) = ?m" by simp
  ultimately show ?thesis
    by (simp only: parse_play_data_def Let_def assms(1) bind_res_simps int_of_show n_def [symmetric] k_def [symmetric]
        l_def [symmetric] sum.case prod.case)
qed

section \<open>A sample\<close>

text \<open>Three listens; the node knows the newest and the oldest of them, or only the one between.\<close>

definition listen_history :: "sig_info list" where
  "listen_history = [\<lparr>si_signature = ''c'', si_slot = 23, si_block_time = 0\<rparr>,
     \<lparr>si_signature = ''b'', si_slot = 22, si_block_time = 0\<rparr>, \<lparr>si_signature = ''a'', si_slot = 21, si_block_time = 0\<rparr>]"

definition listen_tx :: "string \<Rightarrow> sol_tx" where
  "listen_tx h = \<lparr>st_slot = (if h = ''c'' then 23 else if h = ''b'' then 22 else 21), st_block_time = 0,
     st_meta = \<lparr>mt_err = False, mt_logs = [], mt_pre = [], mt_post = []\<rparr>,
     st_message = \<lparr>ms_account_keys = [SECP_PROGRAM, ''group'', ''bank''],
       ms_instructions = [\<lparr>in_accounts = [], in_data = h, in_program_index = 2\<rparr>]\<rparr>\<rparr>"

definition listen_env :: plays_env where
  "listen_env = \<lparr>pe_sol = sample_sol_env\<lparr>se_source := (\<lambda>b k. Inr (page_of listen_history b k)),
       se_b58decode := (\<lambda>d. Inr (1 # encode_play ''7'' ''42'' [119, 101, 98] 1600))\<rparr>,
     pe_tx = (\<lambda>n h. Inr (listen_tx h)), pe_arrive = (\<lambda>n xs. Inr (rev xs)), pe_json = (\<lambda>bs. Inl ValueError),
     pe_local = (\<lambda>t. t), pe_insert_ok = (\<lambda>ps. True), pe_signer_group = ''group''\<rparr>"

definition listen_row :: "string \<Rightarrow> sol_play" where
  "listen_row h = \<lparr>sp_user = Some 7, sp_track = 42, sp_created = 1600, sp_source = PStr ''web'', sp_city = PNone,
     sp_region = PNone, sp_country = PNone, sp_slot = Some (st_slot (listen_tx h)), sp_signature = Some h\<rparr>"

definition listened :: "string list \<Rightarrow> plays_state" where
  "listened hs = \<lparr>pl_sol = sample_sol_state, pl_plays = map listen_row hs\<rparr>"

lemma listen_run:
  "map_option (\<lambda>(r, t). (r, pl_plays t = map listen_row [''a'', ''b'', ''c''], length (so_queue (pl_sol t)), so_slots (pl_sol t) plays_slot_key))
     (index_solana_plays listen_env (listened [''a''])) = Some (Inr (), True, 2, Some 23)"
  by code_simp

text \<open>With \<open>b\<close> recorded, \<open>a\<close> is not looked for.\<close>

lemma listen_gap:
  "map_option (\<lambda>(r, t). (r, map sp_signature (pl_plays t))) (index_solana_plays listen_env (listened [''b''])) =
   Some (Inr (), [Some ''b'', Some ''c''])"
  by code_simp

lemma listen_serves: "serves (se_source (pe_sol listen_env)) listen_history" "history_ok listen_history" "arrivals_ok listen_env"
  by (simp_all add: serves_def listen_env_def history_ok_def listen_history_def arrivals_ok_def)

lemma gap_never_filled_witness:
  "\<exists>t. plays_runs [listen_env, listen_env] (listened [''b'']) = Some t \<and>
     filter (\<lambda>q. sp_signature q = Some ''a'') (pl_plays t) = []"
proof -
  let ?b = "\<lparr>si_signature = ''b'', si_slot = 22, si_block_time = 0\<rparr>"
    and ?a = "\<lparr>si_signature = ''a'', si_slot = 21, si_block_time = 0\<rparr>"
  have split: "listen_history = [hd listen_history] @ ?b # [?a]" by (simp add: listen_history_def)
  have "\<exists>t. plays_runs [listen_env, listen_env] (listened [''b'']) = Some t \<and>
     filter (\<lambda>q. sp_signature q \<in> Some ` si_signature ` set [?a]) (pl_plays t) =
     filter (\<lambda>q. sp_signature q \<in> Some ` si_signature ` set [?a]) (pl_plays (listened [''b'']))"
  proof (rule gap_never_filled [where ?t0.0 = ?b and p = "listen_row ''b''"])
    have "serves (se_source (pe_sol listen_env)) ([hd listen_history] @ ?b # [?a]) \<and> history_ok ([hd listen_history] @ ?b # [?a])"
      using listen_serves(1,2) by (simp only: split [symmetric])
    then show "\<forall>E \<in> set [listen_env, listen_env]. arrivals_ok E \<and>
        (\<exists>newer. serves (se_source (pe_sol E)) (newer @ ?b # [?a]) \<and> history_ok (newer @ ?b # [?a]))"
      using listen_serves(3) by (simp only: set_simps) blast
  qed (simp_all add: listened_def listen_row_def listen_tx_def sample_sol_state_def)
  then show ?thesis by (simp add: listened_def listen_row_def)
qed

lemma listen_fetched: "fetch_play listen_env n h = Inr (Some (listen_row h))"
proof -
  have "parse_play_data (\<lambda>d. Inr (1 # encode_play ''7'' ''42'' [119, 101, 98] 1600)) (\<lambda>bs. Inl ValueError) d =
      Inr \<lparr>pm_user = Some 7, pm_track = 42, pm_source = PStr ''web'', pm_location = PDict [], pm_timestamp = 1600\<rparr>" for d
    by code_simp
  then show ?thesis
    by (simp add: fetch_play_def parse_sol_play_transaction_def listen_env_def listen_tx_def is_valid_tx_def
        get_valid_instruction_def sample_sol_env_def SECP_PROGRAM_def utcfromtimestamp_def is_int_def as_int_def
        play_of_def listen_row_def get_method_def od_default_def)
qed

lemma plays_complete_witness:
  "\<exists>t. process_solana_plays listen_env (listened [''a'']) = Some (Inr (), t) \<and> ''b'' \<in> recorded (pl_plays t)"
proof -
  have "map_option fst (process_solana_plays listen_env (listened [''a''])) = Some (Inr ())" by code_simp
  then obtain t where t: "process_solana_plays listen_env (listened [''a'']) = Some (Inr (), t)" by auto
  let ?g = "\<lambda>h. Some (listen_row h)"
  have "listens_older ?g listen_history (pl_plays (listened [''a'']))"
    unfolding listens_older_def
    by (intro exI [of _ "take 2 listen_history"] exI [of _ "drop 2 listen_history"])
      (auto simp: listen_history_def recorded_def listened_def listen_row_def)
  moreover have "tells_listens listen_env ?g" by (auto simp: tells_listens_def listen_fetched)
  ultimately have "si_signature ` {u \<in> set (walk_start (listened [''a'']) listen_history). ?g (si_signature u) \<noteq> None} \<subseteq> recorded (pl_plays t)"
    using plays_complete [OF listen_serves _ _ _ t, of ?g]
    by (simp add: listened_def sample_sol_state_def listen_env_def sample_sol_env_def)
  moreover have "walk_start (listened [''a'']) listen_history = listen_history"
    by (simp add: walk_start_def listened_def sample_sol_state_def)
  ultimately show ?thesis using t by (simp add: listen_history_def)
qed

lemma play_message_roundtrip_witness:
  "parse_play_data (\<lambda>d. Inr (1 # encode_play (show_int 7) (show_int 42) [119, 101] 1600))
     (\<lambda>bs. Inr (PDict [(''source'', PStr ''web''), (''location'', PDict [])])) ''data'' =
   Inr \<lparr>pm_user = Some 7, pm_track = 42, pm_source = PStr ''web'', pm_location = PDict [], pm_timestamp = 1600\<rparr>"
  by (rule play_message_roundtrip) (simp | simp add: show_int_def show_nat.simps)+

end
