(* ===== verification/Listening_History.thy ===== *)
theory Listening_History
  imports Prelude "HOL-Library.Multiset" "HOL-Library.Char_ord" "HOL-Library.List_Lexorder"
begin

text \<open>
  tasks/user_listening_history/: the plays of each user, reduced to the latest play of each track,
  the thousand latest of them.  The history is built up batch by batch from the plays after a
  checkpoint; what it must be is defined on the table of all plays.
\<close>

section \<open>Tables\<close>

text \<open>The time of a play is the text \<open>str(created_at)\<close>, which sorts as the time does.\<close>

record play_row =
  py_id :: int
  py_user :: "int option"
  py_track :: int
  py_created :: string

type_synonym listen = "int \<times> string"

record history_row =
  hr_user :: int
  hr_listens :: "listen list"

record history_state =
  hs_plays :: "play_row list"
  hs_histories :: "history_row list"
  hs_checkpoints :: "(string, int) odict"

definition USER_LISTENING_HISTORY_TABLE_NAME :: string where
  "USER_LISTENING_HISTORY_TABLE_NAME = ''user_listening_history''"

definition BATCH_SIZE :: nat where "BATCH_SIZE = 100000"

definition get_last_indexed_checkpoint :: "history_state \<Rightarrow> string \<Rightarrow> int" where
  "get_last_indexed_checkpoint s tablename = (case od_get (hs_checkpoints s) tablename of Some n \<Rightarrow> n | None \<Rightarrow> 0)"

definition save_indexed_checkpoint :: "string \<Rightarrow> int \<Rightarrow> history_state \<Rightarrow> history_state" where
  "save_indexed_checkpoint tablename checkpoint s =
     s\<lparr>hs_checkpoints := od_set (hs_checkpoints s) tablename checkpoint\<rparr>"

section \<open>The task\<close>

text \<open>\<open>sort(reverse=True)\<close> keeps the order of equal elements.\<close>

definition sort_listening_history :: "(int, string) odict \<Rightarrow> nat \<Rightarrow> listen list" where
  "sort_listening_history deduped_history_dict limit = take limit (rev (sort_key snd (rev deduped_history_dict)))"

definition new_plays_after :: "int \<Rightarrow> play_row list \<Rightarrow> play_row list" where
  "new_plays_after prev plays =
     take BATCH_SIZE (sort_key py_id (filter (\<lambda>p. py_id p > prev \<and> py_user p \<noteq> None) plays))"

definition to_dict :: "play_row \<Rightarrow> listen" where
  "to_dict p = (py_track p, py_created p)"

definition add_listen :: "int \<Rightarrow> listen \<Rightarrow> (int, listen list) odict \<Rightarrow> (int, listen list) odict" where
  "add_listen user l d = od_set d user (od_default d user [] @ [l])"

definition reduce_plays ::
    "int set \<Rightarrow> play_row list \<Rightarrow> (int, listen list) odict \<times> (int, listen list) odict" where
  "reduce_plays existing_users new_plays =
     fold (\<lambda>p (ins, upd). let u = the (py_user p) in
         if u \<in> existing_users then (ins, add_listen u (to_dict p) upd) else (add_listen u (to_dict p) ins, upd))
       (rev new_plays) ([], [])"

definition note_listens :: "listen list \<Rightarrow> (int, string) odict \<Rightarrow> (int, string) odict" where
  "note_listens listens d = fold (\<lambda>l d. od_set d (fst l) (snd l)) (rev listens) d"

definition updated_history :: "(int, listen list) odict \<Rightarrow> history_row \<Rightarrow> history_row" where
  "updated_history upd row = row\<lparr>hr_listens :=
     sort_listening_history (note_listens (od_default upd (hr_user row) []) (note_listens (hr_listens row) [])) 1000\<rparr>"

definition inserted_histories :: "(int, listen list) odict \<Rightarrow> history_row list" where
  "inserted_histories ins =
     map (\<lambda>(user, listens). \<lparr>hr_user = user, hr_listens = sort_listening_history (note_listens listens []) 1000\<rparr>) ins"

definition index_user_listening_history :: "history_state \<Rightarrow> history_state" where
  "index_user_listening_history s =
     (let prev_id_checkpoint = get_last_indexed_checkpoint s USER_LISTENING_HISTORY_TABLE_NAME;
          new_plays = new_plays_after prev_id_checkpoint (hs_plays s)
      in if new_plays = [] then s
         else
           let new_checkpoint = py_id (last new_plays);
               users_with_new_plays = set (map (\<lambda>p. the (py_user p)) new_plays);
               existing_users = set (filter (\<lambda>u. u \<in> users_with_new_plays) (map hr_user (hs_histories s)));
               (ins, upd) = reduce_plays existing_users new_plays
           in save_indexed_checkpoint USER_LISTENING_HISTORY_TABLE_NAME new_checkpoint
                (s\<lparr>hs_histories := map (\<lambda>r. if hr_user r \<in> users_with_new_plays then updated_history upd r else r) (hs_histories s) @
                     inserted_histories ins\<rparr>))"

definition index_user_listening_history_task :: "bool \<Rightarrow> history_state \<Rightarrow> history_state" where
  "index_user_listening_history_task have_lock s = (if have_lock then index_user_listening_history s else s)"

section \<open>What it promises\<close>

text \<open>Of a list of listens from the newest to the oldest, the first of each track.\<close>

fun newest_per_track :: "listen list \<Rightarrow> listen list" where
  "newest_per_track [] = []"
| "newest_per_track (l # ls) = l # filter (\<lambda>k. fst k \<noteq> fst l) (newest_per_track ls)"

definition listens_of :: "play_row list \<Rightarrow> int \<Rightarrow> listen list" where
  "listens_of plays u = map to_dict (rev (sort_key py_id (filter (\<lambda>p. py_user p = Some u) plays)))"

text \<open>
  The latest \<open>k\<close> of some listens, from the newest to the oldest; which of equally old ones are among
  them is left open.
\<close>

definition top_listens :: "nat \<Rightarrow> listen list \<Rightarrow> listen list \<Rightarrow> bool" where
  "top_listens k ls hs \<longleftrightarrow> length hs = min k (length ls) \<and> distinct (map fst hs) \<and> set hs \<subseteq> set ls \<and>
     sorted_wrt (\<lambda>l m. snd m \<le> snd l) hs \<and> (\<forall>l \<in> set ls - set hs. \<forall>m \<in> set hs. snd l \<le> snd m)"

text \<open>
  The listens of a user from the last stored to the first: they are of at most a thousand tracks,
  or no listen was stored after a later one.  Only a user of more tracks whose listens were stored
  out of order may lose a listen that the limit cut before.
\<close>

definition settled :: "listen list \<Rightarrow> bool" where
  "settled ls \<longleftrightarrow> length (newest_per_track ls) \<le> 1000 \<or> sorted_wrt (\<lambda>l m. snd m \<le> snd l) ls"

definition history_good :: "listen list \<Rightarrow> listen list option \<Rightarrow> bool" where
  "history_good ls history \<longleftrightarrow> (case history of
     None \<Rightarrow> ls = []
   | Some h \<Rightarrow> ls \<noteq> [] \<and> (settled ls \<longrightarrow> top_listens 1000 (newest_per_track ls) h))"

definition history_of :: "history_state \<Rightarrow> int \<Rightarrow> listen list option" where
  "history_of s u = map_of (map (\<lambda>r. (hr_user r, hr_listens r)) (hs_histories s)) u"

definition checkpoint_of :: "history_state \<Rightarrow> int" where
  "checkpoint_of s = get_last_indexed_checkpoint s USER_LISTENING_HISTORY_TABLE_NAME"

text \<open>The histories are those of the plays up to the checkpoint.\<close>

definition history_ok :: "history_state \<Rightarrow> bool" where
  "history_ok s \<longleftrightarrow> distinct (map hr_user (hs_histories s)) \<and>
     (\<forall>u. history_good (listens_of (filter (\<lambda>p. py_id p \<le> checkpoint_of s) (hs_plays s)) u) (history_of s u))"

section \<open>The newest listen of each track\<close>

lemma newest_per_track_append:
  "newest_per_track (xs @ ys) = newest_per_track xs @ filter (\<lambda>k. fst k \<notin> fst ` set xs) (newest_per_track ys)"
  by (induction xs) (auto intro: filter_cong)

lemma newest_tracks: "fst ` set (newest_per_track ls) = fst ` set ls"
proof (induction ls)
  case (Cons l ls)
  have "fst ` {x \<in> A. fst x \<noteq> t} = fst ` A - {t}" for A :: "listen set" and t by auto
  then show ?case using Cons by simp
qed simp

lemma newest_subset: "set (newest_per_track ls) \<subseteq> set ls"
  by (induction ls) auto

lemma distinct_newest: "distinct (map fst (newest_per_track ls))"
  by (induction ls) (auto simp: distinct_map_filter)

lemma newest_length_mono: "length (newest_per_track old) \<le> length (newest_per_track (nw @ old))"
proof -
  have tracks: "card (fst ` set xs) = length (newest_per_track xs)" for xs
    using distinct_card [OF distinct_newest [of xs]] by (simp add: newest_tracks)
  show ?thesis unfolding tracks [symmetric] by (intro card_mono) auto
qed

lemma newest_id: "distinct (map fst ls) \<Longrightarrow> newest_per_track ls = ls"
proof (induction ls)
  case (Cons l ls)
  then have "fst k \<noteq> fst l" if "k \<in> set ls" for k using that by (metis distinct.simps(2) image_eqI list.simps(9) set_map)
  then have "filter (\<lambda>k. fst k \<noteq> fst l) ls = ls" by simp
  then show ?case using Cons by simp
qed simp

lemma map_of_newest: "map_of (newest_per_track ls) = map_of ls"
proof (induction ls)
  case (Cons l ls)
  have "map_of (filter (\<lambda>k. fst k \<noteq> fst l) xs) k = (if k = fst l then None else map_of xs k)" for xs :: "listen list" and k
    by (induction xs) auto
  then show ?case using Cons by (auto simp: fun_eq_iff)
qed simp

section \<open>One history\<close>

lemma od_get_note: "od_get (note_listens ls []) t = map_of ls t"
proof -
  have "od_get (fold (\<lambda>l d. od_set d (fst l) (snd l)) (rev ls) []) t = map_of ls t"
    by (induction ls) auto
  then show ?thesis by (simp add: note_listens_def)
qed

lemma note_append: "note_listens xs (note_listens ys d) = note_listens (xs @ ys) d"
  by (simp add: note_listens_def)

lemma distinct_note: "distinct (od_keys (note_listens ls []))"
  unfolding note_listens_def by (rule distinct_od_fold) (simp add: od_keys_def)

lemma sort_top:
  assumes "distinct (map fst d)"
  shows "top_listens k d (sort_listening_history d k)"
proof -
  let ?xs = "rev (sort_key snd (rev d))"
  have "sorted (map snd (sort_key snd (rev d)))" by simp
  then have sorted: "sorted_wrt (\<lambda>l m. snd m \<le> snd l) ?xs" by (simp add: sorted_map sorted_wrt_rev)
  have "distinct (map fst ?xs)" using assms by (simp add: rev_map distinct_map distinct_rev)
  then have "distinct (map fst (take k ?xs))" by (simp add: distinct_take flip: take_map)
  moreover have "snd l \<le> snd m" if "l \<in> set d - set (take k ?xs)" "m \<in> set (take k ?xs)" for l m
  proof -
    have "l \<in> set (take k ?xs @ drop k ?xs)" using that(1) by simp
    then have "l \<in> set (drop k ?xs)" using that(1) by (simp only: set_append) blast
    moreover have "sorted_wrt (\<lambda>l m. snd m \<le> snd l) (take k ?xs @ drop k ?xs)" using sorted by simp
    ultimately show ?thesis using that(2) unfolding sorted_wrt_append by blast
  qed
  moreover have "set (take k ?xs) \<subseteq> set d" using set_take_subset [of k ?xs] by simp
  ultimately show ?thesis using sorted sorted_wrt_take [OF sorted, of k] by (auto simp: top_listens_def sort_listening_history_def)
qed

lemma top_same:
  assumes "top_listens k xs h" and "set xs = set ys" and "distinct (map fst xs)" and "distinct (map fst ys)"
  shows "top_listens k ys h"
proof -
  have "length xs = length ys" using assms(2-4) by (metis distinct_card distinct_map)
  then show ?thesis using assms(1,2) by (simp add: top_listens_def)
qed

lemma sort_notes: "top_listens k (newest_per_track ls) (sort_listening_history (note_listens ls []) k)"
proof -
  let ?d = "note_listens ls []" and ?n = "newest_per_track ls"
  have d: "distinct (map fst ?d)" using distinct_note [of ls] by (simp add: od_keys_def)
  have "(t, c) \<in> set ?d \<longleftrightarrow> (t, c) \<in> set ?n" for t c
  proof -
    have "(t, c) \<in> set ?d \<longleftrightarrow> map_of ls t = Some c"
      using od_get_note [of ls t] in_set_od_get [OF distinct_note] od_get_in_set by metis
    also have "\<dots> \<longleftrightarrow> (t, c) \<in> set ?n"
      using map_of_newest [of ls] distinct_newest [of ls] by (metis map_of_eq_Some_iff)
    finally show ?thesis .
  qed
  then have "set ?d = set ?n" by auto
  then show ?thesis using top_same [OF sort_top [OF d] _ d distinct_newest] by blast
qed

text \<open>Cutting the older part at k is enough: a listen of it that the new ones push out makes room for
  no more than they take, and one that was cut is no newer than those that were kept.\<close>

lemma top_kept:
  assumes h: "top_listens k (newest_per_track old) h" and more: "length h < length (newest_per_track old)"
  shows "k \<le> length (newest_per_track (nw @ h))"
proof -
  let ?T = "fst ` set nw"
  have len: "length h = k" using h more by (simp add: top_listens_def)
  have dist: "distinct (map fst h)" using h by (simp add: top_listens_def)
  have "length (filter (\<lambda>l. fst l \<in> ?T) h) \<le> card ?T"
  proof -
    have "length (filter (\<lambda>l. fst l \<in> ?T) h) = card (fst ` set (filter (\<lambda>l. fst l \<in> ?T) h))"
      using dist by (metis distinct_card distinct_map_filter length_map set_map)
    also have "\<dots> \<le> card ?T" by (intro card_mono) auto
    finally show ?thesis .
  qed
  moreover have "card ?T = length (newest_per_track nw)"
    using distinct_card [OF distinct_newest [of nw]] by (simp add: newest_tracks)
  moreover have "length (filter (\<lambda>l. fst l \<in> ?T) h) + length (filter (\<lambda>l. fst l \<notin> ?T) h) = k"
    using sum_length_filter_compl [of "\<lambda>l. fst l \<in> ?T" h] len by simp
  ultimately show ?thesis using dist by (simp add: newest_per_track_append newest_id)
qed

lemma updated_top:
  assumes h: "top_listens 1000 (newest_per_track old) h" and settled: "settled (nw @ old)"
  shows "top_listens 1000 (newest_per_track (nw @ old)) (sort_listening_history (note_listens nw (note_listens h [])) 1000)"
proof -
  let ?T = "fst ` set nw" and ?A = "newest_per_track nw" and ?B = "newest_per_track old"
  let ?D = "newest_per_track (nw @ h)" and ?N = "newest_per_track (nw @ old)"
  let ?R = "sort_listening_history (note_listens nw (note_listens h [])) 1000"
  have R: "top_listens 1000 ?D ?R" using sort_notes [of 1000 "nw @ h"] by (simp add: note_append)
  have dist: "distinct (map fst h)" and sub: "set h \<subseteq> set ?B" using h by (simp_all add: top_listens_def)
  have D: "?D = ?A @ filter (\<lambda>l. fst l \<notin> ?T) h" using dist by (simp add: newest_per_track_append newest_id)
  have N: "?N = ?A @ filter (\<lambda>l. fst l \<notin> ?T) ?B" by (rule newest_per_track_append)
  show ?thesis
  proof (cases "length h = length ?B")
    case True
    have "distinct h" "distinct ?B" using dist distinct_newest [of old] by (simp_all add: distinct_map)
    then have "set h = set ?B" using True sub by (metis List.finite_set card_subset_eq distinct_card)
    then have "set ?D = set ?N" unfolding D N by simp
    then show ?thesis using top_same [OF R _ distinct_newest distinct_newest] by blast
  next
    case False
    then have less: "length h < length ?B" and k: "length h = 1000" using h by (auto simp: top_listens_def)
    have "length ?B \<le> length ?N" by (rule newest_length_mono)
    then have order: "sorted_wrt (\<lambda>l m. snd m \<le> snd l) (nw @ old)" using settled less k by (simp add: settled_def)
    have D_N: "set ?D \<subseteq> set ?N" unfolding D N using sub by auto
    have "length ?D \<le> length ?N"
      using D_N distinct_newest [of "nw @ h"] distinct_newest [of "nw @ old"]
      by (metis List.finite_set card_mono distinct_card distinct_map)
    then have len: "length ?R = min 1000 (length ?N)"
      using top_kept [OF h less, of nw] R by (simp add: top_listens_def)
    have "snd l \<le> snd m" if l: "l \<in> set ?N - set ?R" and m: "m \<in> set ?R" for l m
    proof (cases "l \<in> set ?D")
      case True
      then show ?thesis using R l m by (simp add: top_listens_def)
    next
      case False
      then have "l \<in> set ?B" "l \<notin> set h" using l unfolding D N by auto
      moreover have "m \<in> set ?D" using R m by (auto simp: top_listens_def)
      then have "m \<in> set nw \<or> m \<in> set h" unfolding D using newest_subset by auto
      ultimately show ?thesis
        using h order newest_subset [of old] by (auto simp: top_listens_def sorted_wrt_append)
    qed
    then show ?thesis using R D_N len by (auto simp: top_listens_def)
  qed
qed

lemma settled_old: "settled (nw @ old) \<Longrightarrow> settled old"
  using newest_length_mono [of old nw] by (auto simp: settled_def sorted_wrt_append)

section \<open>The batch\<close>

lemma sort_filter_plays: "filter P (sort_key py_id plays) = sort_key py_id (filter P plays)"
  by (rule filter_sort)

lemma listens_of_filter: "listens_of plays u = map to_dict (filter (\<lambda>p. py_user p = Some u) (rev (sort_key py_id plays)))"
  by (simp add: listens_of_def rev_filter flip: sort_filter_plays)

text \<open>The plays with a user in the order of their ids, split at the checkpoint before and after.\<close>

definition ordered_plays :: "play_row list \<Rightarrow> play_row list" where
  "ordered_plays plays = sort_key py_id (filter (\<lambda>p. py_user p \<noteq> None) plays)"

lemma new_plays_ordered:
  "new_plays_after prev plays = take BATCH_SIZE (filter (\<lambda>p. prev < py_id p) (ordered_plays plays))"
  by (simp add: new_plays_after_def ordered_plays_def sort_filter_plays conj_commute)

lemma listens_of_ordered: "listens_of (filter P plays) u = map to_dict (filter (\<lambda>p. py_user p = Some u) (rev (filter P (ordered_plays plays))))"
proof -
  have "filter (\<lambda>p. py_user p = Some u) (sort_key py_id (filter P plays)) =
      filter (\<lambda>p. py_user p = Some u) (filter P (ordered_plays plays))"
    by (auto simp: ordered_plays_def sort_filter_plays intro: arg_cong [of _ _ "sort_key py_id"] filter_cong)
  then show ?thesis by (simp add: listens_of_filter flip: rev_filter)
qed

lemma ordered_strict:
  assumes "distinct (map py_id plays)"
  shows "sorted_wrt (\<lambda>p q. py_id p < py_id q) (ordered_plays plays)"
proof -
  have "sorted (map py_id (ordered_plays plays))" "distinct (map py_id (ordered_plays plays))"
    using assms by (auto simp: ordered_plays_def distinct_map intro: inj_on_subset)
  then show ?thesis by (simp add: sorted_wrt_map [symmetric] strict_sorted_iff del: sorted_wrt_map)
qed

lemma split_at:
  assumes "sorted_wrt (\<lambda>p q. py_id p < py_id q) A"
  shows "A = filter (\<lambda>p. py_id p \<le> c) A @ filter (\<lambda>p. c < py_id p) A"
  using assms
proof (induction A)
  case (Cons p A)
  show ?case
  proof (cases "c < py_id p")
    case True
    then have "filter (\<lambda>p. py_id p \<le> c) A = []" using Cons.prems by (force simp: filter_empty_conv)
    then show ?thesis using Cons True by simp
  qed (use Cons in simp)
qed simp

lemma split_batch:
  assumes "sorted_wrt (\<lambda>p q. py_id p < py_id q) A" and "new = take n (filter (\<lambda>p. c < py_id p) A)" and "new \<noteq> []"
  shows "filter (\<lambda>p. py_id p \<le> py_id (last new)) A = filter (\<lambda>p. py_id p \<le> c) A @ new"
proof -
  let ?G = "filter (\<lambda>p. c < py_id p) A"
  have A: "A = filter (\<lambda>p. py_id p \<le> c) A @ ?G" using assms(1) by (rule split_at)
  obtain rest where G: "?G = new @ rest" using assms(2) by (metis append_take_drop_id)
  have "sorted_wrt (\<lambda>p q. py_id p < py_id q) (new @ rest)" using assms(1) by (simp add: sorted_wrt_filter flip: G)
  moreover obtain new' l where new: "new = new' @ [l]" using assms(3) by (cases new rule: rev_cases) auto
  ultimately have "\<forall>p \<in> set rest. \<not> py_id p \<le> py_id l" "\<forall>p \<in> set new. py_id p \<le> py_id l"
    by (auto simp: sorted_wrt_append intro: less_imp_le)
  moreover have "c < py_id l"
  proof -
    have "l \<in> set ?G" by (simp add: G new)
    then show ?thesis by simp
  qed
  then have "\<forall>p \<in> set (filter (\<lambda>p. py_id p \<le> c) A). py_id p \<le> py_id l" by auto
  ultimately have "filter (\<lambda>p. py_id p \<le> py_id l) (filter (\<lambda>p. py_id p \<le> c) A @ new @ rest) = filter (\<lambda>p. py_id p \<le> c) A @ new"
    by (simp only: filter_append filter_True filter_False append_Nil2)
  moreover have "filter (\<lambda>p. py_id p \<le> c) A @ new @ rest = A" using A G by metis
  ultimately show ?thesis by (simp only: new last_snoc)
qed

lemma od_default_add: "od_default (add_listen v l d) u [] = (if u = v then od_default d v [] @ [l] else od_default d u [])"
  by (simp add: add_listen_def od_default_def)

lemma od_keys_add: "set (od_keys (add_listen v l d)) = insert v (set (od_keys d))"
  by (auto simp: add_listen_def od_keys_set)

lemma distinct_add: "distinct (od_keys d) \<Longrightarrow> distinct (od_keys (add_listen v l d))"
  by (simp add: add_listen_def distinct_od_set)

definition sort_play :: "int set \<Rightarrow> play_row \<Rightarrow> (int, listen list) odict \<times> (int, listen list) odict \<Rightarrow> (int, listen list) odict \<times> (int, listen list) odict" where
  "sort_play existing p = (\<lambda>(ins, upd). let u = the (py_user p) in
     if u \<in> existing then (ins, add_listen u (to_dict p) upd) else (add_listen u (to_dict p) ins, upd))"

lemma sorted_plays:
  assumes "\<forall>p \<in> set ps. py_user p \<noteq> None"
  shows "od_default (snd (fold (sort_play E) ps d)) u [] =
      od_default (snd d) u [] @ (if u \<in> E then map to_dict (filter (\<lambda>p. py_user p = Some u) ps) else [])"
    and "od_default (fst (fold (sort_play E) ps d)) u [] =
      od_default (fst d) u [] @ (if u \<in> E then [] else map to_dict (filter (\<lambda>p. py_user p = Some u) ps))"
    and "set (od_keys (fst (fold (sort_play E) ps d))) = set (od_keys (fst d)) \<union> ((the \<circ> py_user) ` set ps - E)"
    and "distinct (od_keys (fst d)) \<Longrightarrow> distinct (od_keys (fst (fold (sort_play E) ps d)))"
  using assms
  by (induction ps arbitrary: d)
    (auto simp: sort_play_def od_default_add od_keys_add distinct_add Let_def split: prod.splits)

definition batch_listens :: "play_row list \<Rightarrow> int \<Rightarrow> listen list" where
  "batch_listens new u = map to_dict (filter (\<lambda>p. py_user p = Some u) (rev new))"

lemma reduced:
  assumes "\<forall>p \<in> set new. py_user p \<noteq> None" and "reduce_plays E new = (ins, upd)"
  shows "u \<in> E \<Longrightarrow> od_default upd u [] = batch_listens new u"
    and "u \<notin> E \<Longrightarrow> od_default ins u [] = batch_listens new u"
    and "set (od_keys ins) = (the \<circ> py_user) ` set new - E" and "distinct (od_keys ins)"
proof -
  have f: "fold (sort_play E) (rev new) ([], []) = (ins, upd)"
    using assms(2) by (simp add: reduce_plays_def sort_play_def [abs_def] case_prod_beta)
  note facts = sorted_plays [where ps = "rev new" and E = E and d = "([], [])", unfolded f]
  have empty: "od_default [] u [] = []" "od_keys ([] :: (int, listen list) odict) = []" for u :: int
    by (simp_all add: od_default_def od_keys_def)
  show "u \<in> E \<Longrightarrow> od_default upd u [] = batch_listens new u" "u \<notin> E \<Longrightarrow> od_default ins u [] = batch_listens new u"
    "set (od_keys ins) = (the \<circ> py_user) ` set new - E" "distinct (od_keys ins)"
    using facts assms(1) by (simp_all add: empty batch_listens_def)
qed

lemma batch_listens_Nil: "\<forall>p \<in> set new. py_user p \<noteq> None \<Longrightarrow> batch_listens new u = [] \<longleftrightarrow> u \<notin> (the \<circ> py_user) ` set new"
  by (force simp: batch_listens_def filter_empty_conv)

lemma map_of_updated:
  "map_of (map (\<lambda>r. (hr_user r, hr_listens r)) (map (\<lambda>r. if hr_user r \<in> U then updated_history upd r else r) rows)) u =
   map_option (\<lambda>ls. if u \<in> U then sort_listening_history (note_listens (od_default upd u []) (note_listens ls [])) 1000 else ls)
     (map_of (map (\<lambda>r. (hr_user r, hr_listens r)) rows) u)"
  by (induction rows) (auto simp: updated_history_def)

lemma map_of_inserted:
  "map_of (map (\<lambda>r. (hr_user r, hr_listens r)) (inserted_histories ins)) u =
   map_option (\<lambda>ls. sort_listening_history (note_listens ls []) 1000) (od_get ins u)"
  by (induction ins) (auto simp: inserted_histories_def)

lemma history_None: "history_of s u = None \<longleftrightarrow> u \<notin> hr_user ` set (hs_histories s)"
  by (simp add: history_of_def map_of_eq_None_iff image_image)

lemma history_step:
  assumes "distinct (map py_id (hs_plays s))" and "history_ok s"
  shows "history_ok (index_user_listening_history s)"
proof (cases "new_plays_after (checkpoint_of s) (hs_plays s) = []")
  case True
  then show ?thesis using assms(2) by (simp add: index_user_listening_history_def Let_def checkpoint_of_def)
next
  case False
  define new where "new = new_plays_after (checkpoint_of s) (hs_plays s)"
  define U where "U = (the \<circ> py_user) ` set new"
  define E where "E = U \<inter> hr_user ` set (hs_histories s)"
  let ?old = "\<lambda>u. listens_of (filter (\<lambda>p. py_id p \<le> checkpoint_of s) (hs_plays s)) u"
  let ?nw = "batch_listens new"
  obtain ins upd where red: "reduce_plays E new = (ins, upd)" by force
  define s' where "s' = index_user_listening_history s"
  have U: "set (map (\<lambda>p. the (py_user p)) new) = U" by (simp add: U_def comp_def)
  have E: "set (filter (\<lambda>u. u \<in> U) (map hr_user (hs_histories s))) = E" by (auto simp: E_def)
  have s': "hs_plays s' = hs_plays s" "checkpoint_of s' = py_id (last new)"
      "hs_histories s' = map (\<lambda>r. if hr_user r \<in> U then updated_history upd r else r) (hs_histories s) @ inserted_histories ins"
    using False red unfolding s'_def index_user_listening_history_def checkpoint_of_def [symmetric] new_def [symmetric] Let_def U E
    by (simp_all add: new_def [symmetric] save_indexed_checkpoint_def get_last_indexed_checkpoint_def checkpoint_of_def)
  have users: "\<forall>p \<in> set new. py_user p \<noteq> None"
    using set_take_subset by (fastforce simp: new_def new_plays_ordered ordered_plays_def)
  note red = reduced [OF users red]
  have split: "listens_of (filter (\<lambda>p. py_id p \<le> checkpoint_of s') (hs_plays s')) u = ?nw u @ ?old u" for u
    using split_batch [OF ordered_strict, of "hs_plays s" new BATCH_SIZE "checkpoint_of s"] assms(1) False
    by (simp add: listens_of_ordered s' new_def new_plays_ordered batch_listens_def)
  have good: "history_good (?old u) (history_of s u)" for u using assms(2) by (simp add: history_ok_def)
  have "history_good (?nw u @ ?old u) (history_of s' u)" for u
  proof (cases "history_of s u")
    case (Some ls)
    then have ls: "?old u \<noteq> []" "settled (?nw u @ ?old u) \<Longrightarrow> top_listens 1000 (newest_per_track (?old u)) ls"
      using good [of u] settled_old by (auto simp: history_good_def)
    have u: "u \<in> hr_user ` set (hs_histories s)" using Some history_None [of s u] by auto
    have h: "history_of s' u = Some (if u \<in> U then sort_listening_history (note_listens (od_default upd u []) (note_listens ls [])) 1000 else ls)"
      using Some by (simp add: history_of_def s'(3) map_of_updated map_add_def map_of_inserted del: map_map split: option.splits)
    show ?thesis
    proof (cases "u \<in> U")
      case True
      then have "od_default upd u [] = ?nw u" using red(1) u by (simp add: E_def)
      then show ?thesis using h ls updated_top [of "?old u" ls "?nw u"] True by (simp add: history_good_def)
    next
      case False
      then have "?nw u = []" using batch_listens_Nil [OF users] by (simp add: U_def)
      then show ?thesis using h ls False by (simp add: history_good_def)
    qed
  next
    case None
    then have old: "?old u = []" using good [of u] by (simp add: history_good_def)
    have u: "u \<notin> hr_user ` set (hs_histories s)" using None history_None [of s u] by simp
    then have uE: "u \<notin> E" by (simp add: E_def)
    have h: "history_of s' u = map_option (\<lambda>ls. sort_listening_history (note_listens ls []) 1000) (od_get ins u)"
      using None by (simp add: history_of_def s'(3) map_of_updated map_add_def map_of_inserted del: map_map split: option.splits)
    show ?thesis
    proof (cases "u \<in> U")
      case True
      then have "od_get ins u \<noteq> None" using red(3) uE by (simp add: od_get_None_iff U_def)
      then have "od_get ins u = Some (?nw u)" using red(2) [OF uE] by (auto simp: od_default_def)
      moreover have "?nw u \<noteq> []" using True batch_listens_Nil [OF users] by (simp add: U_def)
      ultimately show ?thesis using h old sort_notes by (simp add: history_good_def)
    next
      case False
      then have "od_get ins u = None" "?nw u = []"
        using red(3) batch_listens_Nil [OF users] by (simp_all add: od_get_None_iff U_def)
      then show ?thesis using h old by (simp add: history_good_def)
    qed
  qed
  moreover have "distinct (map hr_user (hs_histories s'))"
  proof -
    have "map hr_user (map (\<lambda>r. if hr_user r \<in> U then updated_history upd r else r) rows) = map hr_user rows" for rows
      by (induction rows) (auto simp: updated_history_def)
    moreover have "map hr_user (inserted_histories ins) = od_keys ins"
      by (auto simp: inserted_histories_def od_keys_def)
    ultimately have "map hr_user (hs_histories s') = map hr_user (hs_histories s) @ od_keys ins"
      by (simp only: s'(3) map_append)
    then show ?thesis using assms(2) red(3,4) by (auto simp: history_ok_def E_def U_def)
  qed
  ultimately show ?thesis by (simp add: history_ok_def split flip: s'_def)
qed

text \<open>C28: The history of every user is at all times what it promises to be: the listens last stored of each
  track the user played up to the checkpoint, the thousand latest of them, from the newest to the oldest.
  This holds of every user with at most a thousand tracks, in whatever order of time the listens were
  stored, and of every other user whose listens were stored in the order of time.  A run takes the next
  plays into the histories without looking at the older ones again.\<close>

theorem history_refines:
  assumes "distinct (map py_id (hs_plays s))" and "history_ok s"
  shows "history_ok (index_user_listening_history s)"
  using history_step [OF assms] .

section \<open>Catching up\<close>

definition pending_plays :: "history_state \<Rightarrow> play_row list" where
  "pending_plays s = filter (\<lambda>p. checkpoint_of s < py_id p) (ordered_plays (hs_plays s))"

lemma index_plays: "hs_plays (index_user_listening_history s) = hs_plays s"
  by (simp add: index_user_listening_history_def Let_def save_indexed_checkpoint_def case_prod_beta)

lemma index_checkpoint:
  "checkpoint_of (index_user_listening_history s) =
     (let new = take BATCH_SIZE (pending_plays s) in if new = [] then checkpoint_of s else py_id (last new))"
proof -
  have new: "new_plays_after (get_last_indexed_checkpoint s USER_LISTENING_HISTORY_TABLE_NAME) (hs_plays s) = take BATCH_SIZE (pending_plays s)"
    by (simp add: new_plays_ordered pending_plays_def checkpoint_of_def)
  show ?thesis
    unfolding index_user_listening_history_def Let_def new
    by (simp add: save_indexed_checkpoint_def checkpoint_of_def get_last_indexed_checkpoint_def case_prod_beta)
qed

lemma pending_step:
  assumes "distinct (map py_id (hs_plays s))"
  shows "pending_plays (index_user_listening_history s) = drop BATCH_SIZE (pending_plays s)"
proof (cases "take BATCH_SIZE (pending_plays s) = []")
  case True
  then show ?thesis by (auto simp: pending_plays_def index_plays index_checkpoint BATCH_SIZE_def)
next
  case False
  let ?A = "ordered_plays (hs_plays s)" and ?new = "take BATCH_SIZE (pending_plays s)"
  have strict: "sorted_wrt (\<lambda>p q. py_id p < py_id q) ?A" using assms by (rule ordered_strict)
  have split: "filter (\<lambda>p. py_id p \<le> py_id (last ?new)) ?A = filter (\<lambda>p. py_id p \<le> checkpoint_of s) ?A @ ?new"
    using split_batch [OF strict _ False] by (simp add: pending_plays_def)
  have cut: "?A = filter (\<lambda>p. py_id p \<le> c) ?A @ filter (\<lambda>p. c < py_id p) ?A" for c
    using strict split_at [of ?A c] by blast
  have "?A = (filter (\<lambda>p. py_id p \<le> checkpoint_of s) ?A @ ?new) @ filter (\<lambda>p. py_id (last ?new) < py_id p) ?A"
    using cut [of "py_id (last ?new)"] by (simp only: split)
  moreover have "?A = filter (\<lambda>p. py_id p \<le> checkpoint_of s) ?A @ ?new @ drop BATCH_SIZE (pending_plays s)"
    using cut [of "checkpoint_of s"] by (simp add: pending_plays_def)
  ultimately have "filter (\<lambda>p. py_id (last ?new) < py_id p) ?A = drop BATCH_SIZE (pending_plays s)"
    by (metis append_assoc same_append_eq)
  then show ?thesis using False by (simp add: pending_plays_def [of "index_user_listening_history s"] index_plays index_checkpoint)
qed

text \<open>The history catches up: after as many runs as the plays to index have batches, the history of
  every user is that of the whole table of plays.\<close>

lemma history_catches_up:
  assumes "distinct (map py_id (hs_plays s))" and "history_ok s" and "length (pending_plays s) \<le> k * BATCH_SIZE"
  shows "history_good (listens_of (hs_plays s) u) (history_of ((index_user_listening_history ^^ k) s) u)"
proof -
  let ?t = "(index_user_listening_history ^^ k) s"
  have run: "hs_plays ((index_user_listening_history ^^ n) s) = hs_plays s \<and> history_ok ((index_user_listening_history ^^ n) s) \<and>
      pending_plays ((index_user_listening_history ^^ n) s) = drop (n * BATCH_SIZE) (pending_plays s)" for n
    by (induction n) (use assms(1,2) in \<open>simp_all add: index_plays history_step pending_step add.commute\<close>)
  then have t: "hs_plays ?t = hs_plays s" "history_ok ?t" "pending_plays ?t = []" using run [of k] assms(3) by simp_all
  have "filter (\<lambda>p. py_id p \<le> checkpoint_of ?t) (ordered_plays (hs_plays s)) = ordered_plays (hs_plays s)"
    using t(1,3) by (auto simp: pending_plays_def filter_empty_conv not_less)
  then have "listens_of (filter (\<lambda>p. py_id p \<le> checkpoint_of ?t) (hs_plays s)) u = listens_of (hs_plays s) u"
    using listens_of_ordered [of "\<lambda>_. True" "hs_plays s"] by (simp add: listens_of_ordered)
  then show ?thesis using t by (metis history_ok_def)
qed

text \<open>Plays that are stored later get higher ids.\<close>

lemma history_ok_more_plays:
  assumes "history_ok s" and "\<forall>p \<in> set ps. checkpoint_of s < py_id p"
  shows "history_ok (s\<lparr>hs_plays := hs_plays s @ ps\<rparr>)"
proof -
  have "filter (\<lambda>p. py_id p \<le> checkpoint_of s) ps = []" using assms(2) by (auto simp: filter_empty_conv)
  then show ?thesis
    using assms(1) by (simp add: history_ok_def history_of_def checkpoint_of_def get_last_indexed_checkpoint_def)
qed

section \<open>A sample\<close>

definition sample_plays :: "play_row list" where
  "sample_plays = map (\<lambda>(i, u, t, c). \<lparr>py_id = i, py_user = u, py_track = t, py_created = c\<rparr>)
     [(1, Some 7, 10, ''2020''), (2, None, 10, ''2021''), (3, Some 7, 11, ''2021''), (4, Some 8, 10, ''2021''), (5, Some 7, 10, ''2022''), (6, Some 7, 11, ''2019'')]"

text \<open>The first play has been indexed; the last was stored out of the order of time.\<close>

definition sample_history_state :: history_state where
  "sample_history_state = \<lparr>hs_plays = sample_plays, hs_histories = [\<lparr>hr_user = 7, hr_listens = [(10, ''2020'')]\<rparr>],
     hs_checkpoints = [(''user_listening_history'', 1)]\<rparr>"

lemma sample_checkpoint: "checkpoint_of sample_history_state = 1"
  by (simp add: checkpoint_of_def get_last_indexed_checkpoint_def sample_history_state_def USER_LISTENING_HISTORY_TABLE_NAME_def)

lemma sample_ids: "distinct (map py_id (hs_plays sample_history_state))"
  by (simp add: sample_history_state_def sample_plays_def)

lemma sample_history_ok: "history_ok sample_history_state"
  using sample_checkpoint
  by (auto simp: history_ok_def history_good_def history_of_def top_listens_def listens_of_def to_dict_def
      sample_history_state_def sample_plays_def)

lemma history_refines_witness: "history_ok (index_user_listening_history sample_history_state) \<and>
    checkpoint_of (index_user_listening_history sample_history_state) = 6"
proof -
  have "map py_id (pending_plays sample_history_state) = [3, 4, 5, 6]"
    by (simp add: pending_plays_def sample_checkpoint ordered_plays_def)
      (simp add: sample_history_state_def sample_plays_def)
  then obtain p q r l where "pending_plays sample_history_state = [p, q, r, l]" "py_id l = 6"
    by (auto simp: map_eq_Cons_conv)
  then have "checkpoint_of (index_user_listening_history sample_history_state) = 6"
    by (simp add: index_checkpoint Let_def BATCH_SIZE_def)
  then show ?thesis using history_refines [OF sample_ids sample_history_ok] by blast
qed

end
