(* ===== verification/Multihash.thy ===== *)
theory Multihash
  imports PyVal "HOL-Library.Word"
begin

unbundle bit_operations_syntax

text \<open>
  utils/varint.py and utils/multihash.py: integers as bytes of seven bits each, lowest first, and
  hash digests that say which function made them.
\<close>

section \<open>Varints\<close>

text \<open>\<open>None\<close> means that the loop never ends: shifting a negative number right never gives 0.\<close>

partial_function (option) to_varint :: "int \<Rightarrow> 8 word list option" where
  "to_varint number =
     (let towrite = number AND 0x7F; number' = drop_bit 7 number in
      if number' \<noteq> 0 then Option.bind (to_varint number') (\<lambda>buf. Some (word_of_int (towrite OR 0x80) # buf))
      else Some [word_of_int towrite])"

declare to_varint.simps [code]

text \<open>The result and the number of bytes read; \<open>shift\<close> grows by seven with each of them.\<close>

fun from_stream :: "8 word list \<Rightarrow> nat \<Rightarrow> int \<Rightarrow> (int \<times> nat) result" where
  "from_stream [] shift res = Inl (Raised ''EOFError'')"
| "from_stream (i # is) shift res =
     (let res' = res OR push_bit shift (uint i AND 0x7F); shift' = shift + 7
      in if uint i AND 0x80 = 0 then Inr (res', shift' div 7) else from_stream is shift' res')"

definition from_varint :: "8 word list \<Rightarrow> nat \<Rightarrow> (int \<times> nat) result" where
  "from_varint data offset =
     bind_res (from_stream (drop offset data) 0 0) (\<lambda>(n, k). Inr (n, offset + k))"

section \<open>Hash functions\<close>

definition hash_family :: "string \<Rightarrow> int \<Rightarrow> nat \<Rightarrow> (string, int) odict" where
  "hash_family name start n = map (\<lambda>i. (name @ ''-'' @ show_nat (8 * i), start + int i)) [1..<Suc n]"

definition hash_names :: "(string, int) odict" where
  "hash_names =
     [(''md5'', 0xD5), (''sha1'', 0x11), (''sha2-256'', 0x12), (''sha2-512'', 0x13), (''dbl-sha2-256'', 0x56),
      (''sha3-224'', 0x17), (''sha3-256'', 0x16), (''sha3-384'', 0x15), (''sha3-512'', 0x14),
      (''shake-128'', 0x18), (''shake-256'', 0x19), (''keccak-224'', 0x1A), (''keccak-256'', 0x1B),
      (''keccak-384'', 0x1C), (''keccak-512'', 0x1D), (''murmur3-128'', 0x22), (''murmur3-32'', 0x23)] @
     hash_family ''blake2b'' 0xB200 64 @ hash_family ''blake2s'' 0xB240 32 @ hash_family ''Skein256'' 0xB300 32 @
     hash_family ''Skein512'' 0xB320 64 @ hash_family ''Skein1024'' 0xB360 128"

text \<open>The table \<open>codes\<close> lists the same pairs the other way round.\<close>

definition hash_codes :: "(int, string) odict" where
  "hash_codes = map (\<lambda>(n, c). (c, n)) hash_names"

section \<open>Multihashes\<close>

datatype hash_code = Hash_name string | Hash_number int

definition is_app_code :: "int \<Rightarrow> bool" where
  "is_app_code code \<longleftrightarrow> 0 < code \<and> code < 0x10"

definition is_valid_code :: "int \<Rightarrow> bool" where
  "is_valid_code code \<longleftrightarrow> is_app_code code \<or> od_has hash_codes code"

definition coerce_code :: "hash_code \<Rightarrow> int result" where
  "coerce_code name =
     bind_res (case name of
         Hash_name n \<Rightarrow> (case od_get hash_names n of
             None \<Rightarrow> Inl (Raised ''Unrecognized hash function name'')
           | Some c \<Rightarrow> Inr c)
       | Hash_number c \<Rightarrow> Inr c) (\<lambda>code.
     if \<not> od_has hash_codes code \<and> \<not> is_app_code code then Inl (Raised ''Unrecognized function code'') else Inr code)"

text \<open>The length that is given must be that of the digest.\<close>

definition encode :: "8 word list \<Rightarrow> hash_code \<Rightarrow> nat option \<Rightarrow> 8 word list result option" where
  "encode digest code len =
     (case coerce_code code of
        Inl x \<Rightarrow> Some (Inl x)
      | Inr hash_function \<Rightarrow>
          let n = (case len of None \<Rightarrow> length digest | Some k \<Rightarrow> k)
          in if n \<noteq> length digest then Some (Inl (Raised ''digest length should be equal to specified length''))
             else (case (to_varint hash_function, to_varint (int n)) of
                 (Some a, Some b) \<Rightarrow> Some (Inr (a @ b @ digest))
               | _ \<Rightarrow> None))"

record multihash =
  mh_code :: int
  mh_name :: string
  mh_length :: int
  mh_digest :: "8 word list"

definition decode :: "8 word list \<Rightarrow> multihash result" where
  "decode buf =
     (if length buf < 3 then Inl (Raised ''multihash too short'')
      else bind_res (from_varint buf 0) (\<lambda>(code, n).
        if \<not> is_valid_code code then Inl (Raised ''multihash unknown function code'')
        else bind_res (from_varint buf n) (\<lambda>(len, n).
          if len < 1 then Inl (Raised ''multihash invalid length'')
          else
            let rest = drop n buf
            in if int (length rest) \<noteq> len then Inl (Raised ''multihash length inconsistent'')
               else (case od_get hash_codes code of
                   None \<Rightarrow> Inl KeyError
                 | Some name \<Rightarrow> Inr \<lparr>mh_code = code, mh_name = name, mh_length = len, mh_digest = rest\<rparr>))))"

text \<open>\<open>hex\<close> and \<open>fromhex\<close> cancel; Base58 is a parameter.\<close>

definition multihash_digest_to_cid :: "(8 word list \<Rightarrow> string) \<Rightarrow> 8 word list \<Rightarrow> string result option" where
  "multihash_digest_to_cid b58encode multihash_digest =
     map_option (\<lambda>r. bind_res r (\<lambda>buf. Inr (b58encode buf))) (encode multihash_digest (Hash_number 18) None)"

section \<open>Reading what was written\<close>

lemma low_bits: "n AND 0x7F = n mod 128" "drop_bit 7 n = n div 128" for n :: int
  using take_bit_eq_mod [of 7 n] by (simp_all add: take_bit_eq_mask mask_eq_exp_minus_1 drop_bit_eq_div)

lemma to_varint_rec:
  "to_varint n = (if n div 128 \<noteq> 0 then map_option ((#) (word_of_int (n mod 128 OR 0x80))) (to_varint (n div 128))
     else Some [word_of_int (n mod 128)])"
  by (subst to_varint.simps) (simp add: low_bits Let_def map_conv_bind_option comp_def)

lemma or_plus: "0 \<le> a \<Longrightarrow> a < 2 ^ k \<Longrightarrow> a OR push_bit k b = a + 2 ^ k * b" for a b :: int
proof -
  assume a: "0 \<le> a" "a < 2 ^ k"
  then have "take_bit k a = a" by (simp add: take_bit_int_eq_self)
  then have "\<not> bit a n \<or> \<not> bit (push_bit k b) n" for n
    by (metis bit_push_bit_iff bit_take_bit_iff not_le)
  then have "a + push_bit k b = a OR push_bit k b" by (intro disjunctive_add_eq_or) (auto simp: bit_eq_iff bit_and_iff)
  then show ?thesis by (simp add: push_bit_eq_mult mult.commute)
qed

lemma to_varint_negative: "n < 0 \<Longrightarrow> to_varint n = None"
proof (induction "nat (- n)" arbitrary: n rule: less_induct)
  case less
  have neg: "n div 128 < 0" using less.prems by (simp add: neg_imp_zdiv_neg_iff)
  show ?case
  proof (cases "n = -1")
    case True
    show ?thesis
    proof (cases "to_varint (-1)")
      case (Some bs)
      have "to_varint (-1) = map_option ((#) (word_of_int (127 OR 0x80))) (to_varint (-1))"
        by (subst to_varint_rec) simp
      then have "length bs = Suc (length bs)" using Some by (metis length_Cons option.inject option.simps(9))
      then show ?thesis by simp
    qed (simp add: True)
  next
    case False
    then have "n < n div 128" using less.prems by linarith
    then have "to_varint (n div 128) = None" using neg by (intro less.hyps) simp_all
    then show ?thesis using neg by (subst to_varint_rec) simp
  qed
qed

lemma to_varint_nonneg: "0 \<le> n \<Longrightarrow> \<exists>bs. to_varint n = Some bs \<and> bs \<noteq> []"
proof (induction "nat n" arbitrary: n rule: less_induct)
  case less
  show ?case
  proof (cases "n div 128 = 0")
    case True
    then show ?thesis by (subst to_varint_rec) simp
  next
    case False
    then have "nat (n div 128) < nat n" "0 \<le> n div 128" using less.prems by (simp_all add: pos_imp_zdiv_nonneg_iff) linarith
    from less.hyps [OF this] show ?thesis using False by (subst to_varint_rec) auto
  qed
qed

lemma byte_bits:
  assumes "0 \<le> m" and "m < 128"
  shows "uint (word_of_int m :: 8 word) = m" and "m AND 0x80 = 0" and "m AND 0x7F = m"
    and "uint (word_of_int (m OR 0x80) :: 8 word) = m OR 0x80"
    and "(m OR 0x80) AND 0x80 \<noteq> 0" and "(m OR 0x80) AND 0x7F = m"
proof -
  have m: "take_bit 7 m = m" using assms by (simp add: take_bit_int_eq_self)
  have split: "m OR 0x80 = m + 128" using or_plus [of m 7 1] assms by simp
  have fits: "uint (word_of_int x :: 8 word) = x" if "0 \<le> x" "x < 256" for x
    using that by (simp add: uint_word_of_int)
  show "uint (word_of_int m :: 8 word) = m" "uint (word_of_int (m OR 0x80) :: 8 word) = m OR 0x80"
    unfolding split using assms by (intro fits; linarith)+
  show low: "m AND 0x7F = m" using m low_bits(1) [of m] assms by simp
  have "m AND 0x80 = (m AND 0x7F) AND 0x80" by (simp only: low)
  also have "\<dots> = 0" by (simp add: and.assoc)
  finally show high: "m AND 0x80 = 0" .
  show "(m OR 0x80) AND 0x80 \<noteq> 0" using high by (simp add: bit.conj_disj_distrib2)
  show "(m OR 0x80) AND 0x7F = m" using low by (simp add: bit.conj_disj_distrib2)
qed

lemma from_stream_varint:
  assumes "0 \<le> n" and "to_varint n = Some bs" and "0 \<le> r" and "r < 2 ^ (7 * j)"
  shows "from_stream (bs @ rest) (7 * j) r = Inr (r + 2 ^ (7 * j) * n, j + length bs)"
  using assms
proof (induction "nat n" arbitrary: n bs r j rule: less_induct)
  case less
  let ?m = "n mod 128"
  have m: "0 \<le> ?m" "?m < 128" by simp_all
  note bits = byte_bits [OF m]
  have n: "n = ?m + 128 * (n div 128)" by simp
  show ?case
  proof (cases "n div 128 = 0")
    case True
    then have "bs = [word_of_int ?m]" using less.prems(2) by (subst (asm) to_varint_rec) simp
    moreover have "?m = n" using n True by simp
    ultimately show ?thesis using or_plus [OF less.prems(3,4), of n] bits(1-3) by (simp add: Let_def)
  next
    case False
    then obtain bs' where bs': "to_varint (n div 128) = Some bs'" "bs = word_of_int (?m OR 0x80) # bs'"
      using less.prems(2) by (subst (asm) to_varint_rec) auto
    let ?r = "r + 2 ^ (7 * j) * ?m"
    have q: "nat (n div 128) < nat n" "0 \<le> n div 128"
      using False less.prems(1) by (simp_all add: pos_imp_zdiv_nonneg_iff) linarith
    have "?r < 2 ^ (7 * j) + 2 ^ (7 * j) * ?m" using less.prems(4) by simp
    also have "\<dots> = 2 ^ (7 * j) * (?m + 1)" by (simp add: distrib_left)
    also have "\<dots> \<le> 2 ^ (7 * j) * 128" using m by (intro mult_left_mono) simp_all
    also have "\<dots> = 2 ^ (7 * Suc j)" by (simp add: power_add)
    finally have "?r < 2 ^ (7 * Suc j)" .
    moreover have "0 \<le> ?r" using less.prems(3) by simp
    ultimately have "from_stream (bs' @ rest) (7 * Suc j) ?r = Inr (?r + 2 ^ (7 * Suc j) * (n div 128), Suc j + length bs')"
      using less.hyps [OF q(1,2) bs'(1)] by blast
    moreover have "?r + 2 ^ (7 * Suc j) * (n div 128) = r + 2 ^ (7 * j) * n"
    proof -
      have "(2 :: int) ^ (7 * Suc j) = 2 ^ (7 * j) * 128" by (simp add: power_add)
      then have "?r + 2 ^ (7 * Suc j) * (n div 128) = r + 2 ^ (7 * j) * (?m + 128 * (n div 128))"
        by (simp only: distrib_left mult.assoc add.assoc)
      then show ?thesis using n by simp
    qed
    ultimately show ?thesis using or_plus [OF less.prems(3,4), of ?m] bits bs'(2) by (simp add: Let_def add.commute [of _ 7])
  qed
qed

lemma from_varint_to_varint:
  assumes "0 \<le> n" and "to_varint n = Some bs"
  shows "from_varint (pre @ bs @ rest) (length pre) = Inr (n, length pre + length bs)"
  using from_stream_varint [OF assms, of 0 0 rest] by (simp add: from_varint_def)

section \<open>The table of functions\<close>

lemma hash_family_codes: "map snd (hash_family name start n) = map (\<lambda>i. start + int i) [1..<Suc n]"
  by (simp add: hash_family_def)

lemma distinct_codes: "distinct (od_keys hash_codes)"
proof -
  have "od_keys hash_codes = map snd hash_names" by (simp add: od_keys_def hash_codes_def case_prod_beta)
  moreover have "distinct (map snd hash_names)"
    unfolding hash_names_def map_append hash_family_codes
    by (auto simp: distinct_map inj_on_def)
  ultimately show ?thesis by simp
qed

lemma codes_positive: "(n, c) \<in> set hash_names \<Longrightarrow> 0x10 < c"
  unfolding hash_names_def hash_family_def by auto

lemma od_get_codes: "(n, c) \<in> set hash_names \<Longrightarrow> od_get hash_codes c = Some n"
  by (rule in_set_od_get [OF distinct_codes]) (force simp: hash_codes_def)

lemma coerced:
  assumes "coerce_code code = Inr c"
  shows "is_app_code c \<or> (\<exists>n. (n, c) \<in> set hash_names \<and> od_get hash_codes c = Some n)"
proof -
  have "is_app_code c \<or> od_has hash_codes c"
    using assms by (auto simp: coerce_code_def bind_res_Inr split: if_splits)
  then show ?thesis
    using od_get_in_set [of hash_codes c] by (auto simp: od_has_def hash_codes_def)
qed

lemma encoded:
  assumes "coerce_code code = Inr c"
  obtains a b where "to_varint c = Some a" "to_varint (int (length digest)) = Some b" "a \<noteq> []" "b \<noteq> []"
    "encode digest code None = Some (Inr (a @ b @ digest))" "0 < c"
proof -
  have c: "0 < c" using coerced [OF assms] codes_positive by (fastforce simp: is_app_code_def)
  obtain a b where ab: "to_varint c = Some a" "a \<noteq> []" "to_varint (int (length digest)) = Some b" "b \<noteq> []"
    using to_varint_nonneg [of c] to_varint_nonneg [of "int (length digest)"] c by auto
  then show thesis using assms c by (intro that) (simp_all add: encode_def)
qed

lemma decoded:
  assumes "to_varint c = Some a" and "to_varint (int (length digest)) = Some b" and "a \<noteq> []" and "b \<noteq> []"
    and "0 < c" and "digest \<noteq> []" and "is_valid_code c"
  shows "decode (a @ b @ digest) = (case od_get hash_codes c of
      None \<Rightarrow> Inl KeyError
    | Some name \<Rightarrow> Inr \<lparr>mh_code = c, mh_name = name, mh_length = int (length digest), mh_digest = digest\<rparr>)"
proof -
  have len: "\<not> length (a @ b @ digest) < 3" using assms(3,4,6) by (cases a; cases b; cases digest) auto
  have "from_varint (a @ b @ digest) 0 = Inr (c, length a)"
    using from_varint_to_varint [of c a "[]" "b @ digest"] assms(1,5) by simp
  moreover have "from_varint (a @ b @ digest) (length a) = Inr (int (length digest), length a + length b)"
    using from_varint_to_varint [of "int (length digest)" b a digest] assms(2) by simp
  moreover have "1 \<le> int (length digest)" using assms(6) by (cases digest) auto
  ultimately show ?thesis using assms(6,7) len by (simp add: decode_def not_less del: length_append)
qed

text \<open>C39: A digest that is encoded with any of the named hash functions decodes to itself, with the code and
  the name of the function and its length.\<close>

theorem multihash_roundtrip:
  assumes "coerce_code code = Inr c" and "\<not> is_app_code c" and "digest \<noteq> []"
  shows "\<exists>bs name. encode digest code None = Some (Inr bs) \<and> (name, c) \<in> set hash_names \<and>
    decode bs = Inr \<lparr>mh_code = c, mh_name = name, mh_length = int (length digest), mh_digest = digest\<rparr>"
proof -
  obtain name where name: "(name, c) \<in> set hash_names" "od_get hash_codes c = Some name"
    using coerced [OF assms(1)] assms(2) by blast
  then have "is_valid_code c" by (simp add: is_valid_code_def od_has_def)
  then show ?thesis using assms(1,3) name by (elim encoded [where digest = digest]) (auto simp: decoded)
qed

text \<open>A digest with a code of the application range is encoded without complaint, but never decoded:
  the code is valid and has no name, and the look-up raises a \<open>KeyError\<close>.\<close>

lemma app_code_not_decoded:
  assumes "is_app_code c" and "digest \<noteq> []"
  shows "\<exists>bs. encode digest (Hash_number c) None = Some (Inr bs) \<and> decode bs = Inl KeyError"
proof -
  have c: "coerce_code (Hash_number c) = Inr c" using assms(1) by (simp add: coerce_code_def)
  have "od_get hash_codes c = None"
  proof (cases "od_get hash_codes c")
    case (Some n)
    then have "(n, c) \<in> set hash_names" using od_get_in_set by (force simp: hash_codes_def)
    then show ?thesis using codes_positive assms(1) by (fastforce simp: is_app_code_def)
  qed
  moreover have "is_valid_code c" using assms(1) by (simp add: is_valid_code_def)
  ultimately show ?thesis using c assms(2) by (elim encoded [where digest = digest]) (auto simp: decoded)
qed

lemma multihash_roundtrip_witness:
  "\<exists>bs. encode [1, 2, 3] (Hash_name ''sha2-256'') None = Some (Inr bs) \<and> (\<exists>name. decode bs =
     Inr \<lparr>mh_code = 18, mh_name = name, mh_length = 3, mh_digest = [1, 2, 3]\<rparr>)"
proof -
  have c: "coerce_code (Hash_name ''sha2-256'') = Inr 18"
    using od_get_codes [of "''sha2-256''" 18] by (simp add: coerce_code_def hash_names_def od_has_def)
  have "\<exists>bs name. encode [1, 2, 3] (Hash_name ''sha2-256'') None = Some (Inr bs) \<and> (name, 18) \<in> set hash_names \<and>
    decode bs = Inr \<lparr>mh_code = 18, mh_name = name, mh_length = int (length [1, 2, 3 :: 8 word]), mh_digest = [1, 2, 3]\<rparr>"
    by (rule multihash_roundtrip [OF c]) (simp_all add: is_app_code_def)
  then show ?thesis by auto
qed

lemma app_code_not_decoded_witness:
  "\<exists>bs. encode [1, 2, 3] (Hash_number 7) None = Some (Inr bs) \<and> decode bs = Inl KeyError"
  by (rule app_code_not_decoded) (simp_all add: is_app_code_def)

text \<open>A CIDv0: the code of SHA-256 and the length before the digest.\<close>

lemma cid_of_digest:
  assumes "length d = 32"
  shows "multihash_digest_to_cid b58encode d = Some (Inr (b58encode (0x12 # 0x20 # d)))"
proof -
  have "od_has hash_codes 18" using od_get_codes [of "''sha2-256''" 18] by (simp add: hash_names_def od_has_def)
  moreover have "to_varint 18 = Some [0x12]" "to_varint 32 = Some [0x20]" by (subst to_varint_rec; simp)+
  ultimately show ?thesis using assms by (simp add: multihash_digest_to_cid_def encode_def coerce_code_def)
qed

end
