(* ===== verification/Clock.thy ===== *)
theory Clock
  imports PyVal "HOL-Library.Char_ord" "HOL-Library.List_Lexorder"
begin

text \<open>
  The part of Python's \<open>datetime\<close> that the metrics use: dates and times to the minute, going back by
  days and minutes, and \<open>strftime\<close> and \<open>strptime\<close> for the three formats of utils/redis_metrics.py.
  The texts sort as the times do, which the code relies on.
\<close>

section \<open>Dates and times\<close>

type_synonym date = "nat \<times> nat \<times> nat"

record datetime =
  dt_date :: date
  dt_hour :: nat
  dt_minute :: nat

definition is_leap :: "nat \<Rightarrow> bool" where
  "is_leap y \<longleftrightarrow> y mod 4 = 0 \<and> (y mod 100 \<noteq> 0 \<or> y mod 400 = 0)"

definition days_in_month :: "nat \<Rightarrow> nat \<Rightarrow> nat" where
  "days_in_month y m = (if m = 2 then if is_leap y then 29 else 28 else if m \<in> {4, 6, 9, 11} then 30 else 31)"

text \<open>Four digits for the year, as \<open>%Y\<close> has in practice.\<close>

definition valid_date :: "date \<Rightarrow> bool" where
  "valid_date d \<longleftrightarrow> (case d of (y, m, day) \<Rightarrow> 1000 \<le> y \<and> y \<le> 9999 \<and> 1 \<le> m \<and> m \<le> 12 \<and> 1 \<le> day \<and> day \<le> days_in_month y m)"

definition valid_time :: "datetime \<Rightarrow> bool" where
  "valid_time t \<longleftrightarrow> valid_date (dt_date t) \<and> dt_hour t < 24 \<and> dt_minute t < 60"

definition prev_date :: "date \<Rightarrow> date" where
  "prev_date d = (case d of (y, m, day) \<Rightarrow>
     if 1 < day then (y, m, day - 1)
     else if 1 < m then (y, m - 1, days_in_month y (m - 1)) else (y - 1, 12, 31))"

definition minus_days :: "nat \<Rightarrow> datetime \<Rightarrow> datetime" where
  "minus_days n t = t\<lparr>dt_date := (prev_date ^^ n) (dt_date t)\<rparr>"

definition prev_hour :: "datetime \<Rightarrow> datetime" where
  "prev_hour t = (if 0 < dt_hour t then t\<lparr>dt_hour := dt_hour t - 1\<rparr> else (minus_days 1 t)\<lparr>dt_hour := 23\<rparr>)"

text \<open>Less than an hour back.\<close>

definition minus_minutes :: "nat \<Rightarrow> datetime \<Rightarrow> datetime" where
  "minus_minutes n t = (if n \<le> dt_minute t then t\<lparr>dt_minute := dt_minute t - n\<rparr>
     else (prev_hour t)\<lparr>dt_minute := dt_minute t + 60 - n\<rparr>)"

definition date_before :: "date \<Rightarrow> date \<Rightarrow> bool" where
  "date_before a b \<longleftrightarrow> (case (a, b) of ((y, m, d), (y', m', d')) \<Rightarrow> y < y' \<or> y = y' \<and> (m < m' \<or> m = m' \<and> d < d'))"

definition time_before :: "datetime \<Rightarrow> datetime \<Rightarrow> bool" where
  "time_before t u \<longleftrightarrow> date_before (dt_date t) (dt_date u) \<or> dt_date t = dt_date u \<and>
     (dt_hour t < dt_hour u \<or> dt_hour t = dt_hour u \<and> dt_minute t < dt_minute u)"

section \<open>Formats\<close>

definition pad2 :: "nat \<Rightarrow> string" where
  "pad2 n = [digit_char (n div 10 mod 10), digit_char (n mod 10)]"

definition pad4 :: "nat \<Rightarrow> string" where
  "pad4 n = pad2 (n div 100) @ pad2 (n mod 100)"

text \<open>\<open>%Y/%m/%d\<close>, \<open>%Y/%m/%d:%H\<close> and \<open>%Y/%m/%d:%H:%M\<close>\<close>

definition fmt_day :: "date \<Rightarrow> string" where
  "fmt_day d = (case d of (y, m, day) \<Rightarrow> pad4 y @ ''/'' @ pad2 m @ ''/'' @ pad2 day)"

definition fmt_hour :: "datetime \<Rightarrow> string" where
  "fmt_hour t = fmt_day (dt_date t) @ '':'' @ pad2 (dt_hour t)"

definition fmt_minute :: "datetime \<Rightarrow> string" where
  "fmt_minute t = fmt_hour t @ '':'' @ pad2 (dt_minute t)"

text \<open>Fields as the regular expressions of \<open>strptime\<close> match them: one or two digits; a day may have a space in front.\<close>

definition read_field :: "string \<Rightarrow> nat result" where
  "read_field s = (if length s = 1 \<or> length s = 2 then read_nat s else Inl ValueError)"

definition read_year :: "string \<Rightarrow> nat result" where
  "read_year s = (if length s = 4 then read_nat s else Inl ValueError)"

definition read_day_field :: "string \<Rightarrow> nat result" where
  "read_day_field s = (case s of [c, d] \<Rightarrow> if c = CHR '' '' then read_field [d] else read_field s | _ \<Rightarrow> read_field s)"

definition check_date :: "nat \<Rightarrow> nat \<Rightarrow> nat \<Rightarrow> date result" where
  "check_date y m d = (if 1 \<le> y \<and> 1 \<le> m \<and> m \<le> 12 \<and> 1 \<le> d \<and> d \<le> days_in_month y m then Inr (y, m, d) else Inl ValueError)"

definition strptime_day :: "string \<Rightarrow> date result" where
  "strptime_day s = (case str_split CHR ''/'' s of
       [y, m, d] \<Rightarrow> bind_res (read_year y) (\<lambda>y. bind_res (read_field m) (\<lambda>m. bind_res (read_day_field d) (\<lambda>d. check_date y m d)))
     | _ \<Rightarrow> Inl ValueError)"

definition strptime_hour :: "string \<Rightarrow> datetime result" where
  "strptime_hour s = (case str_split CHR '':'' s of
       [d, h] \<Rightarrow> bind_res (strptime_day d) (\<lambda>d. bind_res (read_field h) (\<lambda>h.
         if h < 24 then Inr \<lparr>dt_date = d, dt_hour = h, dt_minute = 0\<rparr> else Inl ValueError))
     | _ \<Rightarrow> Inl ValueError)"

definition strptime_minute :: "string \<Rightarrow> datetime result" where
  "strptime_minute s = (case str_split CHR '':'' s of
       [d, h, m] \<Rightarrow> bind_res (strptime_day d) (\<lambda>d. bind_res (read_field h) (\<lambda>h. bind_res (read_field m) (\<lambda>m.
         if h < 24 \<and> m < 60 then Inr \<lparr>dt_date = d, dt_hour = h, dt_minute = m\<rparr> else Inl ValueError)))
     | _ \<Rightarrow> Inl ValueError)"

section \<open>Reading what was written\<close>

lemma read_nat_pad2: "n < 100 \<Longrightarrow> read_nat (pad2 n) = Inr n"
proof -
  assume "n < 100"
  then have "10 * (n div 10) + n mod 10 = n" and "n div 10 < 10" by simp_all
  then show ?thesis by (simp add: read_nat_def pad2_def)
qed

lemma read_nat_pad4:
  assumes "n < 10000"
  shows "read_nat (pad4 n) = Inr n"
proof -
  have "read_nat (pad2 a @ pad2 b) = Inr (100 * a + b)" if "a < 100" "b < 100" for a b
  proof -
    have "10 * (10 * (10 * (a div 10) + a mod 10) + b div 10) + b mod 10 = 100 * a + b" by simp
    moreover have "a div 10 mod 10 = a div 10" "b div 10 mod 10 = b div 10" using that by simp_all
    ultimately show ?thesis by (simp add: read_nat_def pad2_def)
  qed
  from this [of "n div 100" "n mod 100"] show ?thesis using assms by (simp add: pad4_def)
qed

lemma length_pad [simp]: "length (pad2 n) = 2" "length (pad4 n) = 4"
  by (simp_all add: pad2_def pad4_def)

lemma digit_char_neq [simp]: "n < 10 \<Longrightarrow> digit_char n \<noteq> CHR ''/''" "n < 10 \<Longrightarrow> digit_char n \<noteq> CHR '':''" "n < 10 \<Longrightarrow> digit_char n \<noteq> CHR '' ''"
  using code_point_digit [of n] by (auto simp: code_point_def simp del: code_point_digit)

lemma sep_notin_pad [simp]:
  "CHR ''/'' \<notin> set (pad2 n)" "CHR '':'' \<notin> set (pad2 n)" "CHR ''/'' \<notin> set (pad4 n)" "CHR '':'' \<notin> set (pad4 n)"
  by (auto simp: pad2_def pad4_def dest: sym)

lemma read_field_pad2: "n < 100 \<Longrightarrow> read_field (pad2 n) = Inr n"
  by (simp add: read_field_def read_nat_pad2)

lemma read_day_pad2: "n < 100 \<Longrightarrow> read_day_field (pad2 n) = Inr n"
  using read_field_pad2 [of n] by (simp add: read_day_field_def pad2_def)

lemma days_in_month_le: "days_in_month y m \<le> 31"
  by (simp add: days_in_month_def)

lemma valid_bounds:
  assumes "valid_date (y, m, d)"
  shows "y < 10000" "m < 100" "d < 100" "1 \<le> y" "1 \<le> m" "m \<le> 12" "1 \<le> d" "d \<le> days_in_month y m"
  using assms days_in_month_le [of y m] by (auto simp: valid_date_def)

lemma strptime_fmt_day: "valid_date d \<Longrightarrow> strptime_day (fmt_day d) = Inr d"
proof (cases d)
  case (fields y m day)
  assume "valid_date d"
  with fields show ?thesis
    using valid_bounds [of y m day]
    by (simp add: fmt_day_def strptime_day_def str_split_append str_split_no_sep read_year_def read_nat_pad4 read_field_pad2
        read_day_pad2 check_date_def)
qed

lemma colon_notin_day: "CHR '':'' \<notin> set (fmt_day d)"
  by (cases d) (auto simp: fmt_day_def)

lemma split_hour: "str_split CHR '':'' (fmt_hour t) = [fmt_day (dt_date t), pad2 (dt_hour t)]"
  by (simp add: fmt_hour_def str_split_append [OF colon_notin_day] str_split_no_sep)

lemma split_minute: "str_split CHR '':'' (fmt_minute t) = [fmt_day (dt_date t), pad2 (dt_hour t), pad2 (dt_minute t)]"
  by (simp add: fmt_minute_def fmt_hour_def str_split_append [OF colon_notin_day] str_split_append str_split_no_sep)

lemma strptime_fmt_hour: "valid_time t \<Longrightarrow> strptime_hour (fmt_hour t) = Inr (t\<lparr>dt_minute := 0\<rparr>)"
  by (simp add: strptime_hour_def split_hour strptime_fmt_day valid_time_def read_field_pad2)

lemma strptime_fmt_minute: "valid_time t \<Longrightarrow> strptime_minute (fmt_minute t) = Inr t"
  by (simp add: strptime_minute_def split_minute strptime_fmt_day valid_time_def read_field_pad2)

lemma fmt_day_inject: "valid_date a \<Longrightarrow> valid_date b \<Longrightarrow> fmt_day a = fmt_day b \<longleftrightarrow> a = b"
  by (metis strptime_fmt_day Inr_inject)

section \<open>Texts sort as times\<close>

lemma digit_less: "a < 10 \<Longrightarrow> b < 10 \<Longrightarrow> digit_char a < digit_char b \<longleftrightarrow> a < b"
  by (simp add: less_char_def code_point_digit [unfolded code_point_def])

lemma digit_eq: "a < 10 \<Longrightarrow> b < 10 \<Longrightarrow> digit_char a = digit_char b \<longleftrightarrow> a = b"
  by (metis code_point_digit add_left_cancel)

lemma pad2_less:
  assumes "a < 100" and "b < 100"
  shows "pad2 a @ xs < pad2 b @ ys \<longleftrightarrow> a < b \<or> a = b \<and> xs < ys"
proof -
  have ab: "a div 10 < 10" "b div 10 < 10" using assms by simp_all
  have "a = 10 * (a div 10) + a mod 10" and "b = 10 * (b div 10) + b mod 10" by simp_all
  moreover have "a mod 10 < 10" and "b mod 10 < 10" by simp_all
  ultimately have *: "a < b \<longleftrightarrow> a div 10 < b div 10 \<or> a div 10 = b div 10 \<and> a mod 10 < b mod 10"
    by linarith
  have "a = b \<longleftrightarrow> a div 10 = b div 10 \<and> a mod 10 = b mod 10" by (metis div_mult_mod_eq)
  with * show ?thesis using ab by (auto simp: pad2_def digit_less digit_eq)
qed

lemma pad4_less:
  assumes "a < 10000" and "b < 10000"
  shows "pad4 a @ xs < pad4 b @ ys \<longleftrightarrow> a < b \<or> a = b \<and> xs < ys"
proof -
  have "a = 100 * (a div 100) + a mod 100" and "b = 100 * (b div 100) + b mod 100" by simp_all
  moreover have "a mod 100 < 100" and "b mod 100 < 100" by simp_all
  ultimately have "a < b \<longleftrightarrow> a div 100 < b div 100 \<or> a div 100 = b div 100 \<and> a mod 100 < b mod 100" by linarith
  moreover have "a = b \<longleftrightarrow> a div 100 = b div 100 \<and> a mod 100 = b mod 100" by (metis div_mult_mod_eq)
  moreover have "a div 100 < 100" and "b div 100 < 100" using assms by simp_all
  ultimately show ?thesis by (auto simp: pad4_def pad2_less)
qed

definition small_date :: "date \<Rightarrow> bool" where
  "small_date d \<longleftrightarrow> (case d of (y, m, day) \<Rightarrow> y < 10000 \<and> m < 100 \<and> day < 100)"

lemma small_date_valid: "valid_date d \<Longrightarrow> small_date d"
  by (cases d) (auto simp: small_date_def dest: valid_bounds(1-3))

lemma small_prev: "small_date d \<Longrightarrow> small_date (prev_date d)"
  using days_in_month_le [of "fst d" "fst (snd d) - 1"] by (cases d) (auto simp: small_date_def prev_date_def)

lemma small_prevs: "small_date d \<Longrightarrow> small_date ((prev_date ^^ k) d)"
  by (induction k) (simp_all add: small_prev)

lemma fmt_day_less:
  assumes "small_date a" and "small_date b"
  shows "fmt_day a @ xs < fmt_day b @ ys \<longleftrightarrow> date_before a b \<or> a = b \<and> xs < ys"
proof -
  obtain y m d y' m' d' where ab: "a = (y, m, d)" "b = (y', m', d')" by (metis prod_cases3)
  show ?thesis
    using assms by (auto simp: ab small_date_def fmt_day_def date_before_def pad4_less pad2_less)
qed

lemma fmt_minute_less:
  assumes "valid_time t" and "valid_time u"
  shows "fmt_minute t < fmt_minute u \<longleftrightarrow> time_before t u"
proof -
  have h: "dt_hour t < 100" "dt_hour u < 100" "dt_minute t < 100" "dt_minute u < 100" using assms by (auto simp: valid_time_def)
  have less: "pad2 a < pad2 b \<longleftrightarrow> a < b" if "a < 100" "b < 100" for a b
    using pad2_less [OF that, of "[]" "[]"] by simp
  have "fmt_minute t < fmt_minute u \<longleftrightarrow> date_before (dt_date t) (dt_date u) \<or> dt_date t = dt_date u \<and>
      '':'' @ pad2 (dt_hour t) @ '':'' @ pad2 (dt_minute t) < '':'' @ pad2 (dt_hour u) @ '':'' @ pad2 (dt_minute u)"
    using fmt_day_less [of "dt_date t" "dt_date u"] assms by (simp add: fmt_minute_def fmt_hour_def valid_time_def small_date_valid)
  also have "'':'' @ pad2 (dt_hour t) @ '':'' @ pad2 (dt_minute t) < '':'' @ pad2 (dt_hour u) @ '':'' @ pad2 (dt_minute u) \<longleftrightarrow>
      dt_hour t < dt_hour u \<or> dt_hour t = dt_hour u \<and> dt_minute t < dt_minute u"
    using h by (simp add: pad2_less less)
  finally show ?thesis by (auto simp: time_before_def)
qed

lemma date_before_linear: "date_before a b \<or> a = b \<or> date_before b a"
  by (cases a; cases b) (auto simp: date_before_def)

lemma date_before_trans: "date_before a b \<Longrightarrow> date_before b c \<Longrightarrow> date_before a c"
  by (cases a; cases b; cases c) (auto simp: date_before_def)

lemma date_before_irrefl [simp]: "\<not> date_before a a"
  by (cases a) (simp add: date_before_def)

lemma valid_prev: "valid_date (y, m, d) \<Longrightarrow> 1000 < y \<or> 1 < m \<or> 1 < d \<Longrightarrow> valid_date (prev_date (y, m, d))"
proof -
  assume v: "valid_date (y, m, d)" and later: "1000 < y \<or> 1 < m \<or> 1 < d"
  consider "1 < d" | "d = 1" "1 < m" | "d = 1" "m = 1" using v by (fastforce simp: valid_date_def)
  then show ?thesis
  proof cases
    case 2
    then have "1 \<le> days_in_month y (m - 1)" by (simp add: days_in_month_def)
    with 2 v show ?thesis by (auto simp: valid_date_def prev_date_def)
  next
    case 3
    with v later show ?thesis by (auto simp: valid_date_def prev_date_def days_in_month_def)
  qed (use v in \<open>auto simp: valid_date_def prev_date_def\<close>)
qed

lemma prev_before: "valid_date d \<Longrightarrow> date_before (prev_date d) d"
  by (cases d) (auto simp: valid_date_def prev_date_def date_before_def)

text \<open>The first of the month before, however many days back a date is.\<close>

definition month_before :: "date \<Rightarrow> date \<Rightarrow> bool" where
  "month_before a b \<longleftrightarrow> fst a < fst b \<or> fst a = fst b \<and> fst (snd a) < fst (snd b)"

lemma back_in_month: "k < d \<Longrightarrow> (prev_date ^^ k) (y, m, d) = (y, m, d - k)"
  by (induction k) (simp_all add: prev_date_def)

lemma prev_not_later: "month_before a (y, m, x) \<Longrightarrow> 0 < y \<Longrightarrow> month_before (prev_date a) (y, m, x)"
  by (cases a) (auto simp: month_before_def prev_date_def)

lemma back_out_of_month:
  assumes "valid_date (y, m, d)" and "d \<le> k"
  shows "month_before ((prev_date ^^ k) (y, m, d)) (y, m, 1)"
proof -
  have "1 \<le> d" using assms by (simp add: valid_date_def)
  then have "(prev_date ^^ (d - 1)) (y, m, d) = (y, m, 1)" using back_in_month [of "d - 1" d] by simp
  moreover have "month_before (prev_date (y, m, 1)) (y, m, 1)"
    using valid_bounds [OF assms(1)] by (auto simp: month_before_def prev_date_def)
  ultimately have "month_before ((prev_date ^^ d) (y, m, d)) (y, m, 1)" using \<open>1 \<le> d\<close> by (cases d) simp_all
  moreover have "month_before ((prev_date ^^ j) a) (y, m, 1)" if "month_before a (y, m, 1)" for j a
    using that valid_bounds(4) [OF assms(1)] by (induction j) (simp_all add: prev_not_later)
  ultimately have "month_before ((prev_date ^^ (k - d)) ((prev_date ^^ d) (y, m, d))) (y, m, 1)" by blast
  then show ?thesis using assms(2) by (simp flip: funpow_add [THEN fun_cong, unfolded comp_apply])
qed

end
