(* ===== verification/Metrics.thy ===== *)
theory Metrics
  imports Clock
begin

text \<open>
  utils/redis_metrics.py: requests are counted in Redis, per hour for the table of routes and per
  minute for the totals; the counts of this node and of the others are merged into the caches of the
  day and of the month, which tell which users are new, and into the tables.
\<close>

section \<open>State\<close>

datatype metric_type = Route_metric | App_metric

type_synonym value_counts = "(string, int) odict"

record unique_row =
  uq_timestamp :: date
  uq_count :: int
  uq_summed :: "int option"

record total_row =
  tu_timestamp :: date
  tu_count :: int

record app_row =
  ap_timestamp :: date
  ap_name :: string
  ap_count :: int

record route_metric_row =
  rm_version :: string
  rm_path :: string
  rm_query :: string
  rm_count :: int
  rm_ip :: string
  rm_timestamp :: datetime

record app_metric_row =
  am_name :: string
  am_count :: int
  am_ip :: string
  am_timestamp :: datetime

text \<open>\<open>mx_hsets\<close> are the hashes under \<open>API_METRICS:\<close>; the other fields of Redis hold JSON objects, empty when the key is missing.\<close>

record metrics_state =
  mx_hsets :: "(string, value_counts) odict"
  mx_personal :: "metric_type \<Rightarrow> (string, value_counts) odict"
  mx_daily :: "metric_type \<Rightarrow> (string, value_counts) odict"
  mx_monthly :: "metric_type \<Rightarrow> (string, value_counts) odict"
  mx_summed_daily :: "(string, string list) odict"
  mx_summed_monthly :: "(string, string list) odict"
  mx_visited :: "(string, string) odict"
  mx_day_unique :: "unique_row list"
  mx_day_total :: "total_row list"
  mx_month_unique :: "unique_row list"
  mx_month_total :: "total_row list"
  mx_day_apps :: "app_row list"
  mx_month_apps :: "app_row list"
  mx_routes :: "route_metric_row list"
  mx_apps :: "app_metric_row list"

type_synonym 'a mx = "(metrics_state, 'a) py"

definition METRICS_INTERVAL :: nat where "METRICS_INTERVAL = 5"
definition metrics_prefix :: string where "metrics_prefix = ''API_METRICS''"
definition metrics_routes :: string where "metrics_routes = ''routes''"
definition metrics_applications :: string where "metrics_applications = ''applications''"

section \<open>Keys\<close>

definition str_replace1 :: "char \<Rightarrow> char \<Rightarrow> string \<Rightarrow> string" where
  "str_replace1 a b s = map (\<lambda>c. if c = a then b else c) s"

definition get_rounded_date_time :: "datetime \<Rightarrow> datetime" where
  "get_rounded_date_time utcnow = utcnow\<lparr>dt_minute := 0\<rparr>"

definition format_ip :: "string \<Rightarrow> string" where
  "format_ip ip = str_replace1 CHR '':'' CHR ''_'' (str_strip ip)"

definition starts_with :: "string \<Rightarrow> string \<Rightarrow> bool" where
  "starts_with s prefix \<longleftrightarrow> take (length prefix) s = prefix"

text \<open>\<open>None\<close> for a badly formed key; a bad date raises.\<close>

definition parse_metrics_key :: "string \<Rightarrow> (string \<times> string \<times> datetime) option result" where
  "parse_metrics_key key =
     (if \<not> starts_with key metrics_prefix then Inr None
      else case str_split CHR '':'' key of
          [_, source, ip, date, time] \<Rightarrow>
            if source \<noteq> metrics_routes \<and> source \<noteq> metrics_applications then Inr None
            else bind_res (strptime_hour (date @ '':'' @ time)) (\<lambda>date_time.
              Inr (Some (source, str_replace1 CHR ''_'' CHR '':'' ip, date_time)))
        | _ \<Rightarrow> Inr None)"

text \<open>A request: its path, its arguments (the first of each name), the address and the header \<open>X-Forwarded-For\<close>.\<close>

record request =
  rq_path :: string
  rq_args :: "(string \<times> string) list"
  rq_remote :: "string option"
  rq_forwarded :: "string option"

definition get_ip :: "request \<Rightarrow> string" where
  "get_ip r = (let ip = (case rq_forwarded r of Some h \<Rightarrow> Some h | None \<Rightarrow> rq_remote r)
     in case ip of None \<Rightarrow> [] | Some [] \<Rightarrow> [] | Some s \<Rightarrow> str_strip (hd (str_split CHR '','' s)))"

definition get_request_ip :: "request \<Rightarrow> string" where
  "get_request_ip r = format_ip (get_ip r)"

definition app_name_param :: string where "app_name_param = ''app_name''"

definition stringify_query_params :: "(string \<times> string) list \<Rightarrow> string" where
  "stringify_query_params req_arg_items =
     (let items = filter (\<lambda>x. fst x \<noteq> app_name_param) req_arg_items;
          ordered = sort_key fst (sort_key snd items)
      in str_join ''&'' (map (\<lambda>x. str_lower (fst x) @ ''='' @ str_lower (snd x)) ordered))"

definition extract_app_name_key :: "datetime \<Rightarrow> request \<Rightarrow> string \<times> string option" where
  "extract_app_name_key utcnow r =
     (metrics_prefix @ '':'' @ metrics_applications @ '':'' @ get_request_ip r @ '':'' @ fmt_hour (get_rounded_date_time utcnow),
      od_get (rq_args r) app_name_param)"

definition extract_route_key :: "datetime \<Rightarrow> request \<Rightarrow> string \<times> string" where
  "extract_route_key utcnow r =
     (let req_args = stringify_query_params (rq_args r);
          route = (if req_args \<noteq> [] then rq_path r @ ''?'' @ req_args else rq_path r)
      in (metrics_prefix @ '':'' @ metrics_routes @ '':'' @ get_request_ip r @ '':'' @ fmt_hour (get_rounded_date_time utcnow), route))"

section \<open>Recording a request\<close>

definition add_count :: "value_counts \<Rightarrow> string \<Rightarrow> int \<Rightarrow> value_counts" where
  "add_count d value n = od_set d value (case od_get d value of Some m \<Rightarrow> m + n | None \<Rightarrow> n)"

definition hincrby :: "string \<Rightarrow> string \<Rightarrow> unit mx" where
  "hincrby key field = modify (\<lambda>s. s\<lparr>mx_hsets := od_set (mx_hsets s) key (add_count (od_default (mx_hsets s) key []) field 1)\<rparr>)"

text \<open>When everything is out of date the key is left as it was.\<close>

definition keep_after :: "string \<Rightarrow> (string, 'v) odict \<Rightarrow> (string, 'v) odict" where
  "keep_after old_timestamp values = filter (\<lambda>(timestamp, metrics). timestamp > old_timestamp) values"

definition store_if_any :: "'v list \<Rightarrow> 'v list \<Rightarrow> 'v list" where
  "store_if_any old new = (if new = [] then old else new)"

definition update_personal_metrics :: "metric_type \<Rightarrow> string \<Rightarrow> string \<Rightarrow> string \<Rightarrow> unit mx" where
  "update_personal_metrics ty old_timestamp timestamp value =
     modify (\<lambda>s. let values = mx_personal s ty;
         values' = od_set values timestamp (add_count (od_default values timestamp []) value 1)
       in s\<lparr>mx_personal := (mx_personal s)(ty := store_if_any values (keep_after old_timestamp values'))\<rparr>)"

definition month_key :: "string \<Rightarrow> string" where "month_key day = take 7 day @ ''/01''"

definition note_ip :: "string \<Rightarrow> string \<Rightarrow> (string, string list) odict \<Rightarrow> (string, string list) odict" where
  "note_ip day ip d =
     (case od_get d day of
        None \<Rightarrow> od_set d day [ip]
      | Some ips \<Rightarrow> if ip \<in> set ips then d else od_set d day (ips @ [ip]))"

definition update_summed_unique_metrics :: "datetime \<Rightarrow> string \<Rightarrow> unit mx" where
  "update_summed_unique_metrics now ip =
     (let thirty_one_days_ago_str = fmt_day (dt_date (minus_days 31 now));
          yesterday_str = fmt_day (dt_date (minus_days 1 now));
          today_str = fmt_day (dt_date now);
          this_month_str = month_key today_str
      in modify (\<lambda>s. s\<lparr>
        mx_summed_daily := filter (\<lambda>(timestamp, ips). timestamp \<ge> yesterday_str) (note_ip today_str ip (mx_summed_daily s)),
        mx_summed_monthly := filter (\<lambda>(timestamp, ips). timestamp \<ge> thirty_one_days_ago_str)
          (note_ip this_month_str ip (mx_summed_monthly s))\<rparr>))"

definition record_aggregate_metrics :: "datetime \<Rightarrow> request \<Rightarrow> unit mx" where
  "record_aggregate_metrics now r =
     (let timestamp = fmt_minute now;
          old_timestamp = fmt_minute (minus_minutes (METRICS_INTERVAL * 2) now);
          ip = get_request_ip r;
          application_name = od_get (rq_args r) app_name_param
      in sq (update_summed_unique_metrics now ip) (
         sq (update_personal_metrics Route_metric old_timestamp timestamp ip)
           (case application_name of
              None \<Rightarrow> ret ()
            | Some name \<Rightarrow> run_when (name \<noteq> []) (update_personal_metrics App_metric old_timestamp timestamp name))))"

text \<open>The label of a route in the duration metric.\<close>

definition route_label :: "string \<Rightarrow> string" where
  "route_label route =
     (let route = hd (str_split CHR ''?'' route); parts = str_split CHR ''/'' route; join = str_join ''/'' in
      if is_infix ''/v1/full/search/autocomplete'' route then join (take 5 parts)
      else if is_infix ''/v1/full/'' route \<or> is_infix ''/users/intersection/'' route then join (take 4 parts)
      else if is_infix ''/v1/users/'' route \<and> (is_infix ''/followers'' route \<or> is_infix ''/following'' route)
        then join (take 3 parts @ [''*''] @ [last parts])
      else join (take 3 parts))"

text \<open>
  The decorator, up to the call it wraps.  \<open>redis_ok\<close> says whether Redis answers: when it does not, the
  handler of the exception reads the attribute \<open>message\<close>, which exceptions do not have.
\<close>

definition record_metrics :: "bool \<Rightarrow> datetime \<Rightarrow> request \<Rightarrow> string mx" where
  "record_metrics redis_ok now r =
     (let (application_key, application_name) = extract_app_name_key now r;
          (route_key, route) = extract_route_key now r
      in if \<not> redis_ok then raise AttributeError
         else sq (hincrby route_key route) (
              sq (case application_name of
                    None \<Rightarrow> ret ()
                  | Some name \<Rightarrow> run_when (name \<noteq> []) (hincrby application_key name)) (
              sq (record_aggregate_metrics now r) (
              ret (route_label route)))))"

section \<open>Counts of users\<close>

text \<open>\<open>filter(timestamp == t).first()\<close>: the first row of the table, which has one row a date.\<close>

definition find_unique :: "date \<Rightarrow> unique_row list \<Rightarrow> unique_row option" where
  "find_unique t rows = find (\<lambda>r. uq_timestamp r = t) rows"

fun change_first :: "('a \<Rightarrow> bool) \<Rightarrow> ('a \<Rightarrow> 'a) \<Rightarrow> 'a list \<Rightarrow> 'a list" where
  "change_first P f [] = []"
| "change_first P f (x # xs) = (if P x then f x # xs else x # change_first P f xs)"

definition upsert :: "('a \<Rightarrow> bool) \<Rightarrow> ('a \<Rightarrow> 'a) \<Rightarrow> 'a \<Rightarrow> 'a list \<Rightarrow> 'a list" where
  "upsert P f new rows = (if list_ex P rows then change_first P f rows else rows @ [new])"

definition add_unique :: "date \<Rightarrow> int \<Rightarrow> unique_row list \<Rightarrow> unique_row list" where
  "add_unique t n = upsert (\<lambda>r. uq_timestamp r = t) (\<lambda>r. r\<lparr>uq_count := uq_count r + n\<rparr>)
     \<lparr>uq_timestamp = t, uq_count = n, uq_summed = None\<rparr>"

definition add_total :: "date \<Rightarrow> int \<Rightarrow> total_row list \<Rightarrow> total_row list" where
  "add_total t n = upsert (\<lambda>r. tu_timestamp r = t) (\<lambda>r. r\<lparr>tu_count := tu_count r + n\<rparr>) \<lparr>tu_timestamp = t, tu_count = n\<rparr>"

definition add_app :: "date \<Rightarrow> string \<times> int \<Rightarrow> app_row list \<Rightarrow> app_row list" where
  "add_app t entry = (case entry of (name, n) \<Rightarrow>
     upsert (\<lambda>r. ap_timestamp r = t \<and> ap_name r = name) (\<lambda>r. r\<lparr>ap_count := ap_count r + n\<rparr>)
       \<lparr>ap_timestamp = t, ap_name = name, ap_count = n\<rparr>)"

text \<open>Only rows that are there get the sum over the nodes.\<close>

definition raise_summed :: "date \<Rightarrow> int \<Rightarrow> unique_row list \<Rightarrow> unique_row list" where
  "raise_summed t n = change_first (\<lambda>r. uq_timestamp r = t)
     (\<lambda>r. r\<lparr>uq_summed := Some (max (case uq_summed r of None \<Rightarrow> 0 | Some m \<Rightarrow> m) n)\<rparr>)"

text \<open>A session: the verdict of the database on its commit.\<close>

definition committed :: "unit result \<Rightarrow> (metrics_state \<Rightarrow> metrics_state) \<Rightarrow> unit mx" where
  "committed verdict f = sq (lift_res verdict) (modify f)"

definition persist_summed_unique_counts :: "unit result \<Rightarrow> string \<Rightarrow> int \<Rightarrow> int \<Rightarrow> unit mx" where
  "persist_summed_unique_counts verdict timestamp summed_unique_daily_count summed_unique_monthly_count =
     (let day_str = hd (str_split CHR '':'' timestamp) in
      bnd (lift_res (strptime_day day_str)) (\<lambda>day.
      bnd (lift_res (strptime_day (month_key day_str))) (\<lambda>month.
      committed verdict (\<lambda>s. s\<lparr>mx_day_unique := raise_summed day summed_unique_daily_count (mx_day_unique s),
        mx_month_unique := raise_summed month summed_unique_monthly_count (mx_month_unique s)\<rparr>))))"

definition persist_route_metrics :: "unit result \<Rightarrow> date \<Rightarrow> date \<Rightarrow> int \<Rightarrow> int \<Rightarrow> int \<Rightarrow> unit mx" where
  "persist_route_metrics verdict day month count unique_daily_count unique_monthly_count =
     committed verdict (\<lambda>s. s\<lparr>mx_day_unique := add_unique day unique_daily_count (mx_day_unique s),
       mx_day_total := add_total day count (mx_day_total s),
       mx_month_unique := add_unique month unique_monthly_count (mx_month_unique s),
       mx_month_total := add_total month count (mx_month_total s)\<rparr>)"

definition persist_app_metrics :: "unit result \<Rightarrow> date \<Rightarrow> date \<Rightarrow> value_counts \<Rightarrow> unit mx" where
  "persist_app_metrics verdict day month app_count =
     committed verdict (\<lambda>s. s\<lparr>mx_day_apps := fold (add_app day) app_count (mx_day_apps s),
       mx_month_apps := fold (add_app month) app_count (mx_month_apps s)\<rparr>)"

section \<open>Merging\<close>

text \<open>What a merge takes from outside: the time when it cleans up, and the verdict on its session.\<close>

record merge_env =
  mg_now :: datetime
  mg_commit :: "unit result"

definition merge_values :: "value_counts \<Rightarrow> value_counts \<Rightarrow> value_counts" where
  "merge_values metrics d = fold (\<lambda>(new_value, new_count) d. add_count d new_value new_count) metrics d"

text \<open>The number of values that are new to a cache when their turn comes.\<close>

definition count_new :: "value_counts \<Rightarrow> value_counts \<Rightarrow> int" where
  "count_new metrics d =
     snd (fold (\<lambda>(new_value, new_count) (d, n). (add_count d new_value new_count, if od_has d new_value then n else n + 1)) metrics (d, 0))"

definition merge_cache ::
    "string \<Rightarrow> string \<Rightarrow> value_counts \<Rightarrow> (string, value_counts) odict \<Rightarrow> (string, value_counts) odict" where
  "merge_cache k oldest metrics cache = keep_after oldest (od_set cache k (merge_values metrics (od_default cache k [])))"

definition merge_metrics :: "merge_env \<Rightarrow> value_counts \<Rightarrow> string \<Rightarrow> metric_type \<Rightarrow> unit mx" where
  "merge_metrics M metrics end_time ty =
     (let day = hd (str_split CHR '':'' end_time);
          month = month_key day;
          yesterday_str = fmt_minute (minus_days 1 (mg_now M));
          thirty_one_days_ago = fmt_minute (minus_days 31 (mg_now M))
      in bnd (gets (\<lambda>s. mx_daily s ty)) (\<lambda>daily_metrics.
         bnd (gets (\<lambda>s. mx_monthly s ty)) (\<lambda>monthly_metrics.
         let unique_daily_count = (if ty = Route_metric then count_new metrics (od_default daily_metrics day []) else 0);
             unique_monthly_count = (if ty = Route_metric then count_new metrics (od_default monthly_metrics month []) else 0);
             app_count = od_build fst snd metrics
         in sq (modify (\<lambda>s. s\<lparr>mx_daily := (mx_daily s)(ty := store_if_any daily_metrics (merge_cache day yesterday_str metrics daily_metrics)),
                mx_monthly := (mx_monthly s)(ty := store_if_any monthly_metrics (merge_cache month thirty_one_days_ago metrics monthly_metrics))\<rparr>)) (
            bnd (lift_res (strptime_day day)) (\<lambda>day_obj.
            bnd (lift_res (strptime_day month)) (\<lambda>month_obj.
            if ty = Route_metric
            then persist_route_metrics (mg_commit M) day_obj month_obj (sum_list (map snd metrics)) unique_daily_count unique_monthly_count
            else persist_app_metrics (mg_commit M) day_obj month_obj app_count))))))"

definition merge_route_metrics :: "merge_env \<Rightarrow> value_counts \<Rightarrow> string \<Rightarrow> unit mx" where
  "merge_route_metrics M metrics end_time = merge_metrics M metrics end_time Route_metric"

definition merge_app_metrics :: "merge_env \<Rightarrow> value_counts \<Rightarrow> string \<Rightarrow> unit mx" where
  "merge_app_metrics M metrics end_time = merge_metrics M metrics end_time App_metric"

section \<open>What other nodes are told\<close>

definition sum_counts :: "value_counts \<Rightarrow> value_counts \<Rightarrow> value_counts" where
  "sum_counts value_counts result = fold (\<lambda>(value, count) d. add_count d value count) value_counts result"

definition get_redis_metrics :: "metrics_state \<Rightarrow> datetime \<Rightarrow> metric_type \<Rightarrow> value_counts result" where
  "get_redis_metrics s start_time ty =
     fold_res (\<lambda>(datetime_str, value_counts) result.
       bind_res (strptime_minute datetime_str) (\<lambda>datetime_obj.
       Inr (if time_before start_time datetime_obj then sum_counts value_counts result else result))) (mx_personal s ty) []"

definition get_redis_route_metrics :: "metrics_state \<Rightarrow> datetime \<Rightarrow> value_counts result" where
  "get_redis_route_metrics s start_time = get_redis_metrics s start_time Route_metric"

definition get_redis_app_metrics :: "metrics_state \<Rightarrow> datetime \<Rightarrow> value_counts result" where
  "get_redis_app_metrics s start_time = get_redis_metrics s start_time App_metric"

definition get_summed_unique_metrics :: "metrics_state \<Rightarrow> datetime \<Rightarrow> nat \<times> nat" where
  "get_summed_unique_metrics s start_time =
     (let day = fmt_day (dt_date start_time)
      in (length (od_default (mx_summed_daily s) day []), length (od_default (mx_summed_monthly s) (month_key day) [])))"

definition get_aggregate_metrics_info :: "metrics_state \<Rightarrow> (string, string) odict" where
  "get_aggregate_metrics_info s = mx_visited s"

end
