(* ===== verification/Metrics_Index.thy ===== *)
theory Metrics_Index
  imports Metrics
begin

text \<open>
  tasks/index_metrics.py and queries/update_historical_metrics.py: the sweep of the hourly counts
  into the tables, the merge of this node's counts and of those of the other nodes, and the
  synchronisation of the history of all nodes.
\<close>

section \<open>The sweep\<close>

text \<open>\<open>sw_insert\<close> is the verdict of the database on an insert of rows, \<open>sw_commit\<close> on the commit.\<close>

record sweep_env =
  sw_now :: datetime
  sw_insert :: "string \<Rightarrow> unit result"
  sw_commit :: "unit result"

definition strip_slashes :: "string \<Rightarrow> string" where
  "strip_slashes s = (let drop_slashes = dropWhile (\<lambda>c. c = CHR ''/'') in rev (drop_slashes (rev (drop_slashes s))))"

text \<open>Version, path and query string of a route; the version is looked for before the query string is cut off.\<close>

definition route_parts :: "string \<Rightarrow> string \<times> string \<times> string option" where
  "route_parts key =
     (let route = strip_slashes key;
          route_subpaths = str_split CHR ''/'' route;
          first = hd route_subpaths;
          (version, path) = (if starts_with first ''v'' \<and> length first > 1 then (tl first, str_join ''/'' (tl route_subpaths))
            else (''0'', route))
      in case str_split CHR ''?'' path of
           p # q # _ \<Rightarrow> (version, p, Some q)
         | _ \<Rightarrow> (version, path, None))"

text \<open>No query string is stored as the default of the column, the empty text.\<close>

definition route_metric_of :: "string \<Rightarrow> datetime \<Rightarrow> string \<times> int \<Rightarrow> route_metric_row" where
  "route_metric_of ip date entry =
     (case (route_parts (fst entry)) of (version, path, query_string) \<Rightarrow>
        \<lparr>rm_version = version, rm_path = path, rm_query = (case query_string of None \<Rightarrow> [] | Some q \<Rightarrow> q),
         rm_count = snd entry, rm_ip = ip, rm_timestamp = date\<rparr>)"

definition app_metric_of :: "string \<Rightarrow> datetime \<Rightarrow> string \<times> int \<Rightarrow> app_metric_row" where
  "app_metric_of ip date entry = \<lparr>am_name = fst entry, am_count = snd entry, am_ip = ip, am_timestamp = date\<rparr>"

text \<open>The session of a sweep: what is pending, and whether an insert has failed, after which every other fails too.\<close>

record sweep_state =
  sw_state :: metrics_state
  sw_failed :: bool

type_synonym 'a sweep = "(sweep_state, 'a) py"

definition delete_key :: "string \<Rightarrow> unit sweep" where
  "delete_key key = modify (\<lambda>w. w\<lparr>sw_state := (sw_state w)\<lparr>mx_hsets := filter (\<lambda>(k, h). k \<noteq> key) (mx_hsets (sw_state w))\<rparr>\<rparr>)"

definition bulk_save_metrics :: "sweep_env \<Rightarrow> string \<Rightarrow> (metrics_state \<Rightarrow> metrics_state) \<Rightarrow> unit sweep" where
  "bulk_save_metrics W key f = (\<lambda>w.
     if sw_failed w then (Inl (Raised ''PendingRollbackError''), w)
     else case sw_insert W key of
         Inl x \<Rightarrow> (Inl x, w\<lparr>sw_failed := True\<rparr>)
       | Inr u \<Rightarrow> (Inr (), w\<lparr>sw_state := f (sw_state w)\<rparr>))"

definition process_route_keys :: "sweep_env \<Rightarrow> string \<Rightarrow> string \<Rightarrow> datetime \<Rightarrow> unit sweep" where
  "process_route_keys W key ip date =
     bnd (gets (\<lambda>w. od_default (mx_hsets (sw_state w)) key [])) (\<lambda>routes.
     sq (run_when (routes \<noteq> []) (bulk_save_metrics W key (\<lambda>s. s\<lparr>mx_routes := mx_routes s @ map (route_metric_of ip date) routes\<rparr>)))
       (delete_key key))"

definition process_app_name_keys :: "sweep_env \<Rightarrow> string \<Rightarrow> string \<Rightarrow> datetime \<Rightarrow> unit sweep" where
  "process_app_name_keys W key ip date =
     bnd (gets (\<lambda>w. od_default (mx_hsets (sw_state w)) key [])) (\<lambda>app_names.
     sq (run_when (app_names \<noteq> []) (bulk_save_metrics W key (\<lambda>s. s\<lparr>mx_apps := mx_apps s @ map (app_metric_of ip date) app_names\<rparr>)))
       (delete_key key))"

definition process_key :: "sweep_env \<Rightarrow> string \<Rightarrow> unit sweep" where
  "process_key W key =
     bnd (lift_res (parse_metrics_key key)) (\<lambda>parsed_key.
     case parsed_key of
       None \<Rightarrow> raise KeyError
     | Some (source, ip, key_date) \<Rightarrow>
         run_when (time_before key_date (get_rounded_date_time (sw_now W)))
           (if source = metrics_routes then process_route_keys W key ip key_date
            else run_when (source = metrics_applications) (process_app_name_keys W key ip key_date)))"

text \<open>Whatever is raised, the key is deleted.\<close>

definition sweep_key :: "sweep_env \<Rightarrow> string \<Rightarrow> unit sweep" where
  "sweep_key W key = (\<lambda>w. case process_key W key w of (Inl x, v) \<Rightarrow> delete_key key v | (Inr u, v) \<Rightarrow> (Inr (), v))"

definition sweep_metrics :: "sweep_env \<Rightarrow> unit mx" where
  "sweep_metrics W = (\<lambda>s.
     let keys = filter (\<lambda>k. starts_with k (metrics_prefix @ '':'')) (od_keys (mx_hsets s));
         w = snd (for_each keys (sweep_key W) \<lparr>sw_state = s, sw_failed = False\<rparr>);
         hsets = mx_hsets (sw_state w)
     in if sw_failed w then (Inl (Raised ''PendingRollbackError''), s\<lparr>mx_hsets := hsets\<rparr>)
        else case sw_commit W of
            Inl x \<Rightarrow> (Inl x, s\<lparr>mx_hsets := hsets\<rparr>)
          | Inr u \<Rightarrow> (Inr (), sw_state w))"

section \<open>Consolidation\<close>

text \<open>The answer of a node to the two requests; \<open>None\<close> when one of them failed.\<close>

record node_metrics =
  nm_deduped :: value_counts
  nm_daily :: int
  nm_monthly :: int
  nm_apps :: value_counts

record consolidate_env =
  ce_now :: datetime
  ce_nodes :: "string list"
  ce_answer :: "string \<Rightarrow> datetime \<Rightarrow> node_metrics option"
  ce_merge :: "nat \<Rightarrow> merge_env"
  ce_commit :: "unit result"

text \<open>The counts of this node in the minutes after the given one.\<close>

definition new_personal_metrics :: "metrics_state \<Rightarrow> string \<Rightarrow> metric_type \<Rightarrow> value_counts" where
  "new_personal_metrics s one_iteration_ago_str ty =
     fold (\<lambda>(timestamp, metrics) d. if timestamp > one_iteration_ago_str then sum_counts metrics d else d) (mx_personal s ty) []"

definition consolidate_node :: "consolidate_env \<Rightarrow> string \<Rightarrow> string \<Rightarrow> nat \<times> string \<Rightarrow> int \<times> int \<Rightarrow> (int \<times> int) mx" where
  "consolidate_node C one_iteration_ago_str end_time entry sums =
     (case entry of (i, node) \<Rightarrow>
      bnd (gets (\<lambda>s. od_default (mx_visited s) node one_iteration_ago_str)) (\<lambda>start_time_str.
      bnd (lift_res (strptime_minute start_time_str)) (\<lambda>start_time_obj.
      let answer = ce_answer C node start_time_obj;
          routes = (case answer of None \<Rightarrow> [] | Some a \<Rightarrow> nm_deduped a);
          apps = (case answer of None \<Rightarrow> [] | Some a \<Rightarrow> nm_apps a);
          sums' = (case answer of None \<Rightarrow> sums | Some a \<Rightarrow> (fst sums + nm_daily a, snd sums + nm_monthly a))
      in sq (merge_route_metrics (ce_merge C (2 * i + 2)) routes end_time) (
         sq (merge_app_metrics (ce_merge C (2 * i + 3)) apps end_time) (
         sq (run_when (answer \<noteq> None) (modify (\<lambda>s. s\<lparr>mx_visited := od_set (mx_visited s) node end_time\<rparr>)))
           (ret sums'))))))"

fun consolidate_nodes :: "consolidate_env \<Rightarrow> string \<Rightarrow> string \<Rightarrow> (nat \<times> string) list \<Rightarrow> int \<times> int \<Rightarrow> (int \<times> int) mx" where
  "consolidate_nodes C ago end_time [] sums = ret sums"
| "consolidate_nodes C ago end_time (n # ns) sums =
     bnd (consolidate_node C ago end_time n sums) (consolidate_nodes C ago end_time ns)"

definition consolidate_metrics_from_other_nodes :: "consolidate_env \<Rightarrow> unit mx" where
  "consolidate_metrics_from_other_nodes C =
     (let one_iteration_ago_str = fmt_minute (minus_minutes METRICS_INTERVAL (ce_now C));
          end_time = fmt_minute (ce_now C)
      in bnd (gets (\<lambda>s. get_summed_unique_metrics s (ce_now C))) (\<lambda>(daily, monthly).
         bnd (gets (\<lambda>s. new_personal_metrics s one_iteration_ago_str Route_metric)) (\<lambda>new_personal_route_metrics.
         bnd (gets (\<lambda>s. new_personal_metrics s one_iteration_ago_str App_metric)) (\<lambda>new_personal_app_metrics.
         sq (merge_route_metrics (ce_merge C 0) new_personal_route_metrics end_time) (
         sq (merge_app_metrics (ce_merge C 1) new_personal_app_metrics end_time) (
         bnd (consolidate_nodes C one_iteration_ago_str end_time (enumerate 0 (ce_nodes C)) (int daily, int monthly)) (\<lambda>(daily, monthly).
         persist_summed_unique_counts (ce_commit C) end_time daily monthly)))))))"

section \<open>The history of all nodes\<close>

record route_counts =
  rc_unique :: int
  rc_summed :: "int option"
  rc_total :: int

text \<open>\<open>max\<close> of a number and \<open>None\<close> raises.\<close>

definition max_summed :: "int option \<Rightarrow> int option \<Rightarrow> int option result" where
  "max_summed a b = (case (a, b) of (Some m, Some n) \<Rightarrow> Inr (Some (max m n)) | _ \<Rightarrow> Inl TypeError)"

definition update_route_count ::
    "string \<times> route_counts \<Rightarrow> (string, route_counts) odict \<Rightarrow> (string, route_counts) odict result" where
  "update_route_count entry my_metrics =
     (case entry of (timestamp, values) \<Rightarrow>
        (case od_get my_metrics timestamp of
           None \<Rightarrow> Inr (od_set my_metrics timestamp values)
         | Some mine \<Rightarrow> bind_res (max_summed (rc_summed values) (rc_summed mine)) (\<lambda>summed.
             Inr (od_set my_metrics timestamp \<lparr>rc_unique = max (rc_unique values) (rc_unique mine), rc_summed = summed,
               rc_total = max (rc_total values) (rc_total mine)\<rparr>))))"

definition update_route_metrics_count ::
    "(string, route_counts) odict \<Rightarrow> (string, route_counts) odict \<Rightarrow> (string, route_counts) odict result" where
  "update_route_metrics_count my_metrics other_metrics = fold_res update_route_count other_metrics my_metrics"

definition max_count :: "string \<times> int \<Rightarrow> value_counts \<Rightarrow> value_counts" where
  "max_count entry d = (case entry of (app, count) \<Rightarrow> od_set d app (case od_get d app of Some m \<Rightarrow> max m count | None \<Rightarrow> count))"

definition update_app_metrics_count ::
    "(string, value_counts) odict \<Rightarrow> (string, value_counts) odict \<Rightarrow> (string, value_counts) odict" where
  "update_app_metrics_count my_metrics other_metrics =
     fold (\<lambda>(timestamp, values) my. case od_get my timestamp of
         None \<Rightarrow> od_set my timestamp values
       | Some mine \<Rightarrow> od_set my timestamp (fold max_count values mine)) other_metrics my_metrics"

record node_history =
  nh_daily_routes :: "(string, route_counts) odict"
  nh_monthly_routes :: "(string, route_counts) odict"
  nh_daily_apps :: "(string, value_counts) odict"
  nh_monthly_apps :: "(string, value_counts) odict"

text \<open>\<open>se_cast\<close> is PostgreSQL's reading of a date, \<open>se_history\<close> the answer of a node, if there is one.\<close>

record sync_env =
  sy_nodes :: "string list"
  sy_history :: "string \<Rightarrow> node_history option"
  sy_cast :: "string \<Rightarrow> date result"
  sy_commit :: "nat \<Rightarrow> unit result"

definition set_unique :: "date \<times> route_counts \<Rightarrow> unique_row list \<Rightarrow> unique_row list" where
  "set_unique entry = (case entry of (t, c) \<Rightarrow> upsert (\<lambda>r. uq_timestamp r = t)
     (\<lambda>r. r\<lparr>uq_count := rc_unique c, uq_summed := rc_summed c\<rparr>) \<lparr>uq_timestamp = t, uq_count = rc_unique c, uq_summed = rc_summed c\<rparr>)"

definition set_total :: "date \<times> route_counts \<Rightarrow> total_row list \<Rightarrow> total_row list" where
  "set_total entry = (case entry of (t, c) \<Rightarrow> upsert (\<lambda>r. tu_timestamp r = t)
     (\<lambda>r. r\<lparr>tu_count := rc_total c\<rparr>) \<lparr>tu_timestamp = t, tu_count = rc_total c\<rparr>)"

definition set_app :: "date \<Rightarrow> string \<times> int \<Rightarrow> app_row list \<Rightarrow> app_row list" where
  "set_app t entry = (case entry of (name, n) \<Rightarrow> upsert (\<lambda>r. ap_timestamp r = t \<and> ap_name r = name)
     (\<lambda>r. r\<lparr>ap_count := n\<rparr>) \<lparr>ap_timestamp = t, ap_name = name, ap_count = n\<rparr>)"

definition cast_keys :: "sync_env \<Rightarrow> (string \<times> 'v) list \<Rightarrow> (date \<times> 'v) list result" where
  "cast_keys Y d = map_res (\<lambda>(k, v). bind_res (sy_cast Y k) (\<lambda>t. Inr (t, v))) d"

definition update_historical_daily_route_metrics :: "sync_env \<Rightarrow> (string, route_counts) odict \<Rightarrow> unit mx" where
  "update_historical_daily_route_metrics Y metrics =
     bnd (lift_res (cast_keys Y metrics)) (\<lambda>days.
     committed (sy_commit Y 0) (\<lambda>s. s\<lparr>mx_day_unique := fold set_unique days (mx_day_unique s),
       mx_day_total := fold set_total days (mx_day_total s)\<rparr>))"

definition update_historical_monthly_route_metrics :: "sync_env \<Rightarrow> (string, route_counts) odict \<Rightarrow> unit mx" where
  "update_historical_monthly_route_metrics Y metrics =
     bnd (lift_res (cast_keys Y metrics)) (\<lambda>months.
     committed (sy_commit Y 1) (\<lambda>s. s\<lparr>mx_month_unique := fold set_unique months (mx_month_unique s),
       mx_month_total := fold set_total months (mx_month_total s)\<rparr>))"

definition update_historical_daily_app_metrics :: "sync_env \<Rightarrow> (string, value_counts) odict \<Rightarrow> unit mx" where
  "update_historical_daily_app_metrics Y metrics =
     bnd (lift_res (cast_keys Y metrics)) (\<lambda>days.
     committed (sy_commit Y 2) (\<lambda>s. s\<lparr>mx_day_apps := fold (\<lambda>(t, apps). fold (set_app t) apps) days (mx_day_apps s)\<rparr>))"

definition update_historical_monthly_app_metrics :: "sync_env \<Rightarrow> (string, value_counts) odict \<Rightarrow> unit mx" where
  "update_historical_monthly_app_metrics Y metrics =
     bnd (lift_res (cast_keys Y metrics)) (\<lambda>months.
     committed (sy_commit Y 3) (\<lambda>s. s\<lparr>mx_month_apps := fold (\<lambda>(t, apps). fold (set_app t) apps) months (mx_month_apps s)\<rparr>))"

definition update_historical_metrics :: "sync_env \<Rightarrow> node_history \<Rightarrow> unit mx" where
  "update_historical_metrics Y h =
     sq (update_historical_daily_route_metrics Y (nh_daily_routes h)) (
     sq (update_historical_monthly_route_metrics Y (nh_monthly_routes h)) (
     sq (update_historical_daily_app_metrics Y (nh_daily_apps h))
       (update_historical_monthly_app_metrics Y (nh_monthly_apps h))))"

definition add_history_of :: "node_history \<Rightarrow> node_history \<Rightarrow> node_history result" where
  "add_history_of other h =
     bind_res (update_route_metrics_count (nh_daily_routes h) (nh_daily_routes other)) (\<lambda>daily.
     bind_res (update_route_metrics_count (nh_monthly_routes h) (nh_monthly_routes other)) (\<lambda>monthly.
     Inr \<lparr>nh_daily_routes = daily, nh_monthly_routes = monthly,
       nh_daily_apps = update_app_metrics_count (nh_daily_apps h) (nh_daily_apps other),
       nh_monthly_apps = update_app_metrics_count (nh_monthly_apps h) (nh_monthly_apps other)\<rparr>))"

definition no_history :: node_history where
  "no_history = \<lparr>nh_daily_routes = [], nh_monthly_routes = [], nh_daily_apps = [], nh_monthly_apps = []\<rparr>"

definition synchronize_all_node_metrics :: "sync_env \<Rightarrow> unit mx" where
  "synchronize_all_node_metrics Y =
     bnd (lift_res (fold_res add_history_of (List.map_filter (sy_history Y) (sy_nodes Y)) no_history)) (update_historical_metrics Y)"

section \<open>The tasks\<close>

definition update_metrics :: "bool \<Rightarrow> sweep_env \<Rightarrow> unit result \<Rightarrow> unit mx" where
  "update_metrics have_lock W refreshed = run_when have_lock (sq (sweep_metrics W) (lift_res refreshed))"

definition aggregate_metrics :: "bool \<Rightarrow> consolidate_env \<Rightarrow> unit mx" where
  "aggregate_metrics have_lock C = run_when have_lock (consolidate_metrics_from_other_nodes C)"

definition synchronize_metrics :: "bool \<Rightarrow> sync_env \<Rightarrow> unit mx" where
  "synchronize_metrics have_lock Y = run_when have_lock (synchronize_all_node_metrics Y)"

end
