(* ===== verification/Metrics_Properties.thy ===== *)
theory Metrics_Properties
  imports Metrics_Index
begin

text \<open>
  What the merged counts mean: as long as merges commit, the tables count every user once a day and
  once a month and every request, whatever the caches have dropped; and where the counts go wrong.
\<close>

section \<open>Keys\<close>

lemma str_replace_back:
  "CHR ''_'' \<notin> set s \<Longrightarrow> str_replace1 CHR ''_'' CHR '':'' (str_replace1 CHR '':'' CHR ''_'' s) = s"
  by (induction s) (auto simp: str_replace1_def)

lemma no_colon: "CHR '':'' \<notin> set (str_replace1 CHR '':'' CHR ''_'' s)"
  by (auto simp: str_replace1_def)

lemma split_key:
  "str_split CHR '':'' (metrics_prefix @ '':'' @ source @ '':'' @ format_ip ip @ '':'' @ fmt_hour t) =
   [metrics_prefix, source, format_ip ip, fmt_day (dt_date t), pad2 (dt_hour t)]"
  if "CHR '':'' \<notin> set source"
  using that
  by (simp add: str_split_append metrics_prefix_def format_ip_def no_colon split_hour)

text \<open>The key written for a request is read back as its source, its address and its hour, for IPv6
  addresses too, as long as the address has no underscore.\<close>

lemma metrics_key_roundtrip:
  assumes "valid_time now" and "CHR ''_'' \<notin> set (get_ip r)"
  shows "parse_metrics_key (fst (extract_route_key now r)) =
      Inr (Some (metrics_routes, str_strip (get_ip r), get_rounded_date_time now)) \<and>
    parse_metrics_key (fst (extract_app_name_key now r)) =
      Inr (Some (metrics_applications, str_strip (get_ip r), get_rounded_date_time now))"
proof -
  have key: "parse_metrics_key (metrics_prefix @ '':'' @ source @ '':'' @ format_ip ip @ '':'' @ fmt_hour t) =
      Inr (Some (source, str_strip ip, t\<lparr>dt_minute := 0\<rparr>))"
    if "source \<in> {metrics_routes, metrics_applications}" "valid_time t" "CHR ''_'' \<notin> set ip" for source ip t
  proof -
    have s: "CHR '':'' \<notin> set source" using that(1) by (auto simp: metrics_routes_def metrics_applications_def)
    have "set (str_strip ip) \<subseteq> set ip"
      unfolding str_strip_def by (metis set_dropWhileD set_rev subsetI)
    then have ip: "str_replace1 CHR ''_'' CHR '':'' (format_ip ip) = str_strip ip"
      unfolding format_ip_def using that(3) by (intro str_replace_back) blast
    have "fmt_day (dt_date t) @ '':'' @ pad2 (dt_hour t) = fmt_hour t" by (simp add: fmt_hour_def)
    then show ?thesis
      unfolding parse_metrics_key_def split_key [OF s]
      using that(1) by (auto simp: starts_with_def ip strptime_fmt_hour [OF that(2)])
  qed
  have "valid_time (get_rounded_date_time now)" using assms(1) by (simp add: valid_time_def get_rounded_date_time_def)
  then show ?thesis
    using key [of metrics_routes "get_rounded_date_time now" "get_ip r"]
      key [of metrics_applications "get_rounded_date_time now" "get_ip r"] assms(2)
    by (simp add: extract_route_key_def extract_app_name_key_def get_request_ip_def get_rounded_date_time_def Let_def)
qed

section \<open>Rows\<close>

definition unique_of :: "unique_row list \<Rightarrow> date \<Rightarrow> int" where
  "unique_of rows t = (case find_unique t rows of None \<Rightarrow> 0 | Some r \<Rightarrow> uq_count r)"

definition total_of :: "total_row list \<Rightarrow> date \<Rightarrow> int" where
  "total_of rows t = (case find (\<lambda>r. tu_timestamp r = t) rows of None \<Rightarrow> 0 | Some r \<Rightarrow> tu_count r)"

lemma unique_of_Cons: "unique_of (r # rows) t = (if uq_timestamp r = t then uq_count r else unique_of rows t)"
  by (simp add: unique_of_def find_unique_def)

lemma total_of_Cons: "total_of (r # rows) t = (if tu_timestamp r = t then tu_count r else total_of rows t)"
  by (simp add: total_of_def)

lemma upsert_Cons: "upsert P f new (r # rows) = (if P r then f r # rows else r # upsert P f new rows)"
  by (simp add: upsert_def)

lemma upsert_Nil: "upsert P f new [] = [new]"
  by (simp add: upsert_def)

lemma unique_of_add: "unique_of (add_unique t n rows) u = unique_of rows u + (if t = u then n else 0)"
  by (induction rows) (auto simp: add_unique_def upsert_Cons upsert_Nil unique_of_Cons, simp_all add: unique_of_def find_unique_def)

lemma total_of_add: "total_of (add_total t n rows) u = total_of rows u + (if t = u then n else 0)"
  by (induction rows) (auto simp: add_total_def upsert_Cons upsert_Nil total_of_Cons, simp_all add: total_of_def)

section \<open>Merged counts\<close>

lemma od_get_add_count: "od_get (add_count d v n) w = (if v = w then Some (case od_get d v of Some m \<Rightarrow> m + n | None \<Rightarrow> n) else od_get d w)"
  by (simp add: add_count_def)

lemma keys_add_count: "set (od_keys (add_count d v n)) = insert v (set (od_keys d))"
  by (auto simp: add_count_def od_keys_set)

lemma od_keys_eqs [simp]: "od_keys [] = []" "od_keys (e # d) = fst e # od_keys d"
  by (simp_all add: od_keys_def)

lemma keys_merge_values: "set (od_keys (merge_values metrics d)) = set (od_keys metrics) \<union> set (od_keys d)"
  unfolding merge_values_def
  by (induction metrics arbitrary: d) (auto simp: keys_add_count)

lemma count_new_card:
  assumes "distinct (od_keys metrics)"
  shows "count_new metrics d = int (card (set (od_keys metrics) - set (od_keys d)))"
proof -
  have "snd (fold (\<lambda>(v, c) (d, n). (add_count d v c, if od_has d v then n else n + 1)) metrics (d, n)) =
      n + int (card (set (od_keys metrics) - set (od_keys d)))" for n
    using assms
  proof (induction metrics arbitrary: d n)
    case (Cons e metrics)
    obtain v c where e: "e = (v, c)" by force
    let ?K = "set (od_keys metrics)" and ?D = "set (od_keys d)"
    have v: "v \<notin> ?K" using Cons.prems by (simp add: e)
    then have out: "?K - insert v ?D = ?K - ?D" by blast
    have "set (od_keys (e # metrics)) = insert v ?K" by (simp add: e)
    moreover have "card (insert v ?K - ?D) = (if v \<in> ?D then 0 else 1) + card (?K - ?D)"
      using v by (simp add: insert_Diff_if)
    moreover have "distinct (od_keys metrics)" using Cons.prems by simp
    ultimately show ?case
      using Cons.IH by (simp add: e keys_add_count out od_has_iff)
  qed simp
  then show ?thesis by (simp add: count_new_def)
qed

lemma od_get_keep_after: "od_get (keep_after old d) k = (if old < k then od_get d k else None)"
  unfolding keep_after_def by (rule od_get_filter)

text \<open>A merge: what was merged, and when.\<close>

type_synonym merge_step = "merge_env \<times> datetime \<times> value_counts"

text \<open>Merges that commit, clean up on the day they end, and are given dictionaries.\<close>

definition step_ok :: "merge_step \<Rightarrow> bool" where
  "step_ok m \<longleftrightarrow> (case m of (M, t, metrics) \<Rightarrow> valid_time t \<and> dt_date (mg_now M) = dt_date t \<and>
     mg_commit M = Inr () \<and> distinct (od_keys metrics))"

definition in_order :: "merge_step list \<Rightarrow> bool" where
  "in_order ms \<longleftrightarrow> sorted_wrt (\<lambda>(M, t, m) (M', t', m'). \<not> date_before (dt_date t') (dt_date t)) ms"

lemma last_latest:
  assumes "in_order ms" and "last ms = (M1, t1, m1)" and "(M2, t2, m2) \<in> set ms"
  shows "\<not> date_before (dt_date t1) (dt_date t2)"
  using assms
proof (induction ms rule: rev_induct)
  case (snoc x ms)
  then have x: "x = (M1, t1, m1)" by simp
  show ?case
  proof (cases "(M2, t2, m2) \<in> set ms")
    case True
    then show ?thesis using snoc.prems(1) unfolding in_order_def sorted_wrt_append x by fastforce
  next
    case False
    with snoc.prems(3) x show ?thesis by simp
  qed
qed simp

text \<open>Who came in a period, and how often.\<close>

definition visitors :: "(datetime \<Rightarrow> date) \<Rightarrow> merge_step list \<Rightarrow> date \<Rightarrow> string set" where
  "visitors p ms d = (\<Union>(M, t, m) \<in> set ms. if p t = d then set (od_keys m) else {})"

definition requests :: "(datetime \<Rightarrow> date) \<Rightarrow> merge_step list \<Rightarrow> date \<Rightarrow> int" where
  "requests p ms d = (\<Sum>(M, t, m) \<leftarrow> ms. if p t = d then sum_list (map snd m) else 0)"

text \<open>
  A period of which the users are counted: its date \<open>p\<close>, and how many days back its cache may be
  cleaned up without losing the running period.
\<close>

locale period =
  fixes p :: "datetime \<Rightarrow> date" and days_back :: nat
  assumes p_valid: "valid_time t \<Longrightarrow> valid_date (p t)"
    and p_mono: "valid_time t \<Longrightarrow> valid_time u \<Longrightarrow> \<not> date_before (dt_date u) (dt_date t) \<Longrightarrow> \<not> date_before (p u) (p t)"
    and p_kept: "valid_time t \<Longrightarrow> dt_date now = dt_date t \<Longrightarrow> fmt_minute (minus_days days_back now) < fmt_day (p t)"
begin

text \<open>One merge over the cache and the two tables of the period.\<close>

definition tally_step :: "merge_step \<Rightarrow> (string, value_counts) odict \<times> unique_row list \<times> total_row list \<Rightarrow>
    (string, value_counts) odict \<times> unique_row list \<times> total_row list" where
  "tally_step s acc = (case (s, acc) of ((M, t, m), (cache, uniq, tot)) \<Rightarrow>
     let k = fmt_day (p t) in
     (store_if_any cache (merge_cache k (fmt_minute (minus_days days_back (mg_now M))) m cache),
      add_unique (p t) (count_new m (od_default cache k [])) uniq, add_total (p t) (sum_list (map snd m)) tot))"

definition tally_ok :: "merge_step list \<Rightarrow> (string, value_counts) odict \<times> unique_row list \<times> total_row list \<Rightarrow> bool" where
  "tally_ok ms acc \<longleftrightarrow> (case acc of (cache, uniq, tot) \<Rightarrow>
     (\<forall>d. unique_of uniq d = int (card (visitors p ms d)) \<and> total_of tot d = requests p ms d) \<and>
     (\<forall>k \<in> set (od_keys cache). \<exists>(M, t, m) \<in> set ms. k = fmt_day (p t)) \<and>
     (ms \<noteq> [] \<longrightarrow> (case last ms of (M, t, m) \<Rightarrow>
        \<exists>c. od_get cache (fmt_day (p t)) = Some c \<and> set (od_keys c) = visitors p ms (p t))))"

lemma finite_visitors: "finite (visitors p ms d)"
  by (auto simp: visitors_def)

lemma visitors_snoc: "visitors p (ms @ [(M, t, m)]) d = visitors p ms d \<union> (if p t = d then set (od_keys m) else {})"
  by (auto simp: visitors_def)

lemma requests_snoc: "requests p (ms @ [(M, t, m)]) d = requests p ms d + (if p t = d then sum_list (map snd m) else 0)"
  by (simp add: requests_def)

text \<open>What the cache holds for the period of the next merge is what the merges of that period brought.\<close>

lemma cache_of_period:
  assumes ok: "tally_ok ms (cache, uniq, tot)" and steps: "list_all step_ok (ms @ [(M, t, m)])" and ord: "in_order (ms @ [(M, t, m)])"
  shows "set (od_keys (od_default cache (fmt_day (p t)) [])) = visitors p ms (p t)"
proof (cases "ms = []")
  case True
  with ok have "od_keys cache = []" by (auto simp: tally_ok_def)
  then have "od_get cache k = None" for k by (simp add: od_get_None_iff)
  with True show ?thesis by (simp add: od_default_def od_keys_def visitors_def)
next
  case False
  obtain M1 t1 m1 where lst: "last ms = (M1, t1, m1)" by (metis prod_cases3)
  have l: "(M1, t1, m1) \<in> set ms" using False lst last_in_set by metis
  have valid: "valid_time t" "valid_time t1" using steps l by (auto simp: step_ok_def list_all_iff)
  have ord_ms: "in_order ms" using ord by (simp add: in_order_def sorted_wrt_append)
  have "\<forall>x \<in> set ms. (case x of (M2, t2, m2) \<Rightarrow> \<not> date_before (dt_date t) (dt_date t2))"
    using ord unfolding in_order_def sorted_wrt_append by (simp add: split_beta)
  then have notafter: "\<not> date_before (dt_date t) (dt_date t2)" if "(M2, t2, m2) \<in> set ms" for M2 t2 m2
    using that by fastforce
  have upto: "\<not> date_before (p t1) (p t2)" if "(M2, t2, m2) \<in> set ms" for M2 t2 m2
  proof -
    have "\<not> date_before (dt_date t1) (dt_date t2)" by (rule last_latest [OF ord_ms lst that])
    moreover have "valid_time t2" using steps that by (auto simp: step_ok_def list_all_iff)
    ultimately show ?thesis using p_mono valid(2) by blast
  qed
  show ?thesis
  proof (cases "p t = p t1")
    case True
    with ok False lst show ?thesis by (auto simp: tally_ok_def od_default_def)
  next
    case new: False
    have "\<not> date_before (dt_date t) (dt_date t1)" using notafter [OF l] by blast
    then have "\<not> date_before (p t) (p t1)" using p_mono valid by blast
    with new have later: "date_before (p t1) (p t)" using date_before_linear [of "p t" "p t1"] by blast
    have none: "p t2 \<noteq> p t" if "(M2, t2, m2) \<in> set ms" for M2 t2 m2
      using upto [OF that] later by auto
    have "fmt_day (p t) \<notin> set (od_keys cache)"
    proof
      assume "fmt_day (p t) \<in> set (od_keys cache)"
      then obtain M2 t2 m2 where 2: "(M2, t2, m2) \<in> set ms" "fmt_day (p t) = fmt_day (p t2)" using ok by (fastforce simp: tally_ok_def)
      then have "valid_time t2" using steps by (auto simp: step_ok_def list_all_iff)
      with 2 none valid(1) show False using fmt_day_inject p_valid by metis
    qed
    then have "od_get cache (fmt_day (p t)) = None" by (simp add: od_get_None_iff)
    moreover have "visitors p ms (p t) = {}" using none by (fastforce simp: visitors_def)
    ultimately show ?thesis by (simp add: od_default_def od_keys_def)
  qed
qed

lemma tally_ok_step:
  assumes ok: "tally_ok ms acc" and steps: "list_all step_ok (ms @ [x])" and ord: "in_order (ms @ [x])"
  shows "tally_ok (ms @ [x]) (tally_step x acc)"
proof -
  obtain M t m where x: "x = (M, t, m)" by (metis prod_cases3)
  obtain cache uniq tot where acc: "acc = (cache, uniq, tot)" by (metis prod_cases3)
  define k where "k = fmt_day (p t)"
  define seen where "seen = od_default cache k []"
  define old where "old = fmt_minute (minus_days days_back (mg_now M))"
  have m: "valid_time t" "dt_date (mg_now M) = dt_date t" "distinct (od_keys m)" using steps by (simp_all add: x step_ok_def)
  have seen: "set (od_keys seen) = visitors p ms (p t)"
    unfolding seen_def k_def using ok steps ord cache_of_period [of ms cache uniq tot M t m] by (simp add: x acc)
  have get: "od_get (merge_cache k old m cache) k = Some (merge_values m seen)"
    using p_kept [OF m(1,2)] by (simp add: merge_cache_def od_get_keep_after seen_def k_def old_def)
  then have "merge_cache k old m cache \<noteq> []" by auto
  then have step: "tally_step x acc = (merge_cache k old m cache, add_unique (p t) (count_new m seen) uniq,
      add_total (p t) (sum_list (map snd m)) tot)"
    by (simp add: tally_step_def x acc k_def seen_def old_def Let_def store_if_any_def)
  have new: "count_new m seen = int (card (set (od_keys m) - visitors p ms (p t)))"
    using count_new_card [OF m(3)] seen by simp
  have card: "card (visitors p ms (p t) \<union> set (od_keys m)) = card (visitors p ms (p t)) + card (set (od_keys m) - visitors p ms (p t))"
    using finite_visitors [of ms "p t"] by (metis Un_Diff_cancel card_Un_disjoint Diff_disjoint finite_Diff finite_set)
  have "set (od_keys (merge_cache k old m cache)) \<subseteq> insert k (set (od_keys cache))"
    unfolding merge_cache_def keep_after_def od_keys_def using in_set_od_set [of _ cache k] by fastforce
  moreover have "\<forall>k \<in> set (od_keys cache). \<exists>(M, t, m) \<in> set ms. k = fmt_day (p t)" using ok by (simp add: tally_ok_def acc)
  ultimately have keys: "\<forall>k \<in> set (od_keys (merge_cache k old m cache)). \<exists>(M, t, m) \<in> set (ms @ [x]). k = fmt_day (p t)"
    by (fastforce simp: x k_def)
  have counts: "unique_of uniq d = int (card (visitors p ms d)) \<and> total_of tot d = requests p ms d" for d
    using ok unfolding tally_ok_def acc prod.case by blast
  have "unique_of (add_unique (p t) (count_new m seen) uniq) d = int (card (visitors p (ms @ [x]) d)) \<and>
      total_of (add_total (p t) (sum_list (map snd m)) tot) d = requests p (ms @ [x]) d" for d
    using counts [of d] card by (cases "p t = d") (simp_all add: x unique_of_add total_of_add new visitors_snoc requests_snoc)
  moreover have "set (od_keys (merge_values m seen)) = visitors p (ms @ [x]) (p t)"
    by (auto simp: keys_merge_values seen x visitors_snoc)
  ultimately show ?thesis
    unfolding tally_ok_def step prod.case using keys get by (simp add: x k_def del: split_paired_All)
qed

lemma tally: "list_all step_ok ms \<Longrightarrow> in_order ms \<Longrightarrow> tally_ok ms (fold tally_step ms ([], [], []))"
proof (induction ms rule: rev_induct)
  case Nil
  show ?case by (simp add: tally_ok_def unique_of_def find_unique_def total_of_def visitors_def requests_def)
next
  case (snoc x ms)
  then show ?case using tally_ok_step [of ms _ x] by (simp add: in_order_def sorted_wrt_append)
qed

end

definition first_of_month :: "date \<Rightarrow> date" where
  "first_of_month d = (case d of (y, m, day) \<Rightarrow> (y, m, 1))"

lemma fmt_minute_day: "fmt_minute t = fmt_day (dt_date t) @ '':'' @ pad2 (dt_hour t) @ '':'' @ pad2 (dt_minute t)"
  by (simp add: fmt_minute_def fmt_hour_def)

lemma earlier_text:
  assumes "valid_date d" and "small_date e" and "date_before e d" and "dt_date t = e"
  shows "fmt_minute t < fmt_day d"
  using fmt_day_less [of e d _ "[]"] assms by (simp add: fmt_minute_day small_date_valid)

interpretation daily: period dt_date 1
proof
  fix t now :: datetime
  assume "valid_time t" and "dt_date now = dt_date t"
  then have "valid_date (dt_date now)" and d: "valid_date (dt_date t)" by (simp_all add: valid_time_def)
  then show "fmt_minute (minus_days 1 now) < fmt_day (dt_date t)"
    using \<open>dt_date now = dt_date t\<close>
    by (intro earlier_text [OF d, of "prev_date (dt_date now)"]) (simp_all add: small_prev small_date_valid prev_before minus_days_def)
qed (simp_all add: valid_time_def)

interpretation monthly: period "\<lambda>t. first_of_month (dt_date t)" 31
proof
  fix t u now :: datetime
  assume t: "valid_time t"
  obtain y m d where ymd: "dt_date t = (y, m, d)" by (metis prod_cases3)
  have v: "valid_date (y, m, d)" using t by (simp add: valid_time_def ymd)
  show f: "valid_date (first_of_month (dt_date t))"
    using v valid_bounds [OF v] by (auto simp: first_of_month_def ymd valid_date_def days_in_month_def)
  show "\<not> date_before (first_of_month (dt_date u)) (first_of_month (dt_date t))" if "\<not> date_before (dt_date u) (dt_date t)"
    using that by (cases "dt_date u") (auto simp: first_of_month_def ymd date_before_def)
  assume now: "dt_date now = dt_date t"
  have "month_before ((prev_date ^^ 31) (y, m, d)) (y, m, 1)"
    using valid_bounds(8) [OF v] days_in_month_le [of y m] by (intro back_out_of_month v) simp
  then have "date_before ((prev_date ^^ 31) (dt_date now)) (first_of_month (dt_date t))"
    by (cases "(prev_date ^^ 31) (y, m, d)") (auto simp: now ymd first_of_month_def month_before_def date_before_def)
  moreover have "small_date ((prev_date ^^ 31) (dt_date now))" using small_prevs small_date_valid v now ymd by simp
  ultimately show "fmt_minute (minus_days 31 now) < fmt_day (first_of_month (dt_date t))"
    by (intro earlier_text [OF f]) (simp_all add: minus_days_def)
qed

section \<open>The tables count users and requests\<close>

lemma month_key_day: "month_key (fmt_day d) = fmt_day (first_of_month d)"
proof -
  obtain y m day where d: "d = (y, m, day)" by (metis prod_cases3)
  have "take 7 (pad4 y @ ''/'' @ pad2 m @ ''/'' @ pad2 day) = pad4 y @ ''/'' @ pad2 m"
    by (simp add: pad4_def pad2_def)
  moreover have "pad2 1 = ''01''" by code_simp
  ultimately show ?thesis by (simp add: month_key_def fmt_day_def first_of_month_def d)
qed

definition day_part :: "metrics_state \<Rightarrow> (string, value_counts) odict \<times> unique_row list \<times> total_row list" where
  "day_part s = (mx_daily s Route_metric, mx_day_unique s, mx_day_total s)"

definition month_part :: "metrics_state \<Rightarrow> (string, value_counts) odict \<times> unique_row list \<times> total_row list" where
  "month_part s = (mx_monthly s Route_metric, mx_month_unique s, mx_month_total s)"

definition merge_of :: "merge_step \<Rightarrow> metrics_state \<Rightarrow> metrics_state" where
  "merge_of x s = (case x of (M, t, m) \<Rightarrow> snd (merge_route_metrics M m (fmt_minute t) s))"

lemma merge_parts:
  assumes "step_ok x"
  shows "day_part (merge_of x s) = daily.tally_step x (day_part s)"
    and "month_part (merge_of x s) = monthly.tally_step x (month_part s)"
proof -
  obtain M t m where x: "x = (M, t, m)" by (metis prod_cases3)
  have "valid_date (dt_date t)" and "mg_commit M = Inr ()" using assms by (simp_all add: step_ok_def x valid_time_def)
  moreover have "strptime_day (fmt_day (first_of_month (dt_date t))) = Inr (first_of_month (dt_date t))"
    using assms monthly.p_valid [of t] by (intro strptime_fmt_day) (simp add: step_ok_def x)
  ultimately show "day_part (merge_of x s) = daily.tally_step x (day_part s)"
    and "month_part (merge_of x s) = monthly.tally_step x (month_part s)"
    by (simp_all add: merge_of_def x merge_route_metrics_def merge_metrics_def split_minute month_key_day strptime_fmt_day
        persist_route_metrics_def committed_def py_simps Let_def day_part_def month_part_def daily.tally_step_def monthly.tally_step_def
        del: One_nat_def)
qed

lemma run_parts:
  assumes "list_all step_ok ms"
  shows "day_part (fold merge_of ms s) = fold daily.tally_step ms (day_part s)"
    and "month_part (fold merge_of ms s) = fold monthly.tally_step ms (month_part s)"
  using assms by (induction ms arbitrary: s) (simp_all add: merge_parts)

definition nothing_counted :: "metrics_state \<Rightarrow> bool" where
  "nothing_counted s \<longleftrightarrow> day_part s = ([], [], []) \<and> month_part s = ([], [], [])"

text \<open>C7: The caches that tell new users from known ones keep only the running day and month; still the
  tables count exactly.  From empty tables, after any merges of the counts of any nodes, the table of
  every day and of every month holds the number of different users and the number of requests that
  were merged for it.  The merges are those whose commit succeeds and whose clean-up comes on the day
  they are dated; their dates go forward.\<close>

theorem unique_counts_exact:
  assumes "nothing_counted s" and "list_all step_ok ms" and "in_order ms"
  shows "unique_of (mx_day_unique (fold merge_of ms s)) d = int (card (visitors dt_date ms d)) \<and>
    total_of (mx_day_total (fold merge_of ms s)) d = requests dt_date ms d \<and>
    unique_of (mx_month_unique (fold merge_of ms s)) d = int (card (visitors (\<lambda>t. first_of_month (dt_date t)) ms d)) \<and>
    total_of (mx_month_total (fold merge_of ms s)) d = requests (\<lambda>t. first_of_month (dt_date t)) ms d"
proof -
  have "daily.tally_ok ms (day_part (fold merge_of ms s))" and "monthly.tally_ok ms (month_part (fold merge_of ms s))"
    using run_parts [OF assms(2), of s] daily.tally [OF assms(2,3)] monthly.tally [OF assms(2,3)] assms(1)
    by (simp_all add: nothing_counted_def)
  then show ?thesis
    unfolding day_part_def month_part_def daily.tally_ok_def monthly.tally_ok_def prod.case by blast
qed

section \<open>Which minutes a run takes\<close>

text \<open>What a run at \<open>now\<close> takes of a personal cache are the minutes after the one METRICS_INTERVAL before.\<close>

definition taken :: "datetime \<Rightarrow> string \<Rightarrow> bool" where
  "taken now timestamp \<longleftrightarrow> fmt_minute (minus_minutes METRICS_INTERVAL now) < timestamp"

lemma fold_if_filter:
  "fold (\<lambda>(a, b) d. if P a then f b d else d) xs d = fold (\<lambda>(a, b). f b) (filter (\<lambda>(a, b). P a) xs) d"
  by (induction xs arbitrary: d) auto

lemma personal_taken:
  "new_personal_metrics s (fmt_minute (minus_minutes METRICS_INTERVAL now)) ty =
   fold (\<lambda>(timestamp, metrics). sum_counts metrics) (filter (\<lambda>(timestamp, metrics). taken now timestamp) (mx_personal s ty)) []"
  unfolding new_personal_metrics_def taken_def
  by (rule fold_if_filter)

text \<open>Of two runs at least METRICS_INTERVAL apart the later takes no minute up to the first: nothing is counted twice.\<close>

lemma minute_taken_once:
  assumes "valid_time t" and "valid_time first" and "valid_time (minus_minutes METRICS_INTERVAL later)"
    and "\<not> time_before (minus_minutes METRICS_INTERVAL later) first"
    and t: "\<not> time_before first t"
  shows "\<not> taken later (fmt_minute t)"
proof -
  have "\<not> time_before (minus_minutes METRICS_INTERVAL later) t"
  proof
    assume "time_before (minus_minutes METRICS_INTERVAL later) t"
    then show False
      using t assms(4) date_before_linear [of "dt_date first" "dt_date t"]
        date_before_linear [of "dt_date (minus_minutes METRICS_INTERVAL later)" "dt_date first"]
        date_before_trans date_before_irrefl
      unfolding time_before_def by (metis linorder_neqE_nat order_less_trans)
  qed
  then show ?thesis using fmt_minute_less [OF assms(3,1)] by (simp add: taken_def)
qed

text \<open>What another process records in the minute of a run, after it, is never taken.\<close>

lemma rest_of_minute_lost:
  assumes "valid_time now" and "valid_time (minus_minutes METRICS_INTERVAL later)"
    and "\<not> time_before (minus_minutes METRICS_INTERVAL later) now"
  shows "\<not> taken later (fmt_minute now)"
  by (rule minute_taken_once [OF assms(1,1,2,3)])
    (simp add: time_before_def)

section \<open>Failed commits\<close>

text \<open>The users of a merge whose commit failed are known to the cache, and never become new again.\<close>

lemma failed_merge_not_counted:
  assumes "valid_time t" and "dt_date (mg_now M) = dt_date t" and "mg_commit M = Inl x"
    and "merge_route_metrics M m (fmt_minute t) s = (r, u)" and "distinct (od_keys m)"
  shows "mx_day_unique u = mx_day_unique s \<and>
    count_new m (od_default (mx_daily u Route_metric) (fmt_day (dt_date t)) []) = 0"
proof -
  let ?day = "fmt_day (dt_date t)" and ?old = "fmt_minute (minus_days 1 (mg_now M))"
  let ?cache = "merge_cache ?day ?old m (mx_daily s Route_metric)"
  have v: "valid_date (dt_date t)" "strptime_day (fmt_day (first_of_month (dt_date t))) = Inr (first_of_month (dt_date t))"
    using assms(1) monthly.p_valid [of t] by (simp_all add: valid_time_def strptime_fmt_day)
  have get: "od_get ?cache ?day = Some (merge_values m (od_default (mx_daily s Route_metric) ?day []))"
    using daily.p_kept [OF assms(1,2)] by (simp add: merge_cache_def od_get_keep_after del: One_nat_def)
  then have "?cache \<noteq> []" by auto
  then have "mx_day_unique u = mx_day_unique s \<and> mx_daily u Route_metric = ?cache"
    using assms(3,4) v
    by (auto simp: merge_route_metrics_def merge_metrics_def split_minute month_key_day strptime_fmt_day
        persist_route_metrics_def committed_def py_simps Let_def store_if_any_def simp del: One_nat_def)
  with get count_new_card [OF assms(5)] show ?thesis
    by (simp add: od_default_def keys_merge_values Diff_eq_empty_iff [THEN iffD2])
qed

section \<open>Synchronisation\<close>

text \<open>What the nodes have for a key.\<close>

definition reported :: "node_history list \<Rightarrow> string \<Rightarrow> int list" where
  "reported hs k = List.map_filter (\<lambda>h. map_option rc_unique (od_get (nh_daily_routes h) k)) hs"

lemma update_route_count_get:
  assumes "update_route_metrics_count my other = Inr r" and "distinct (od_keys other)"
  shows "map_option rc_unique (od_get r k) =
    (case (od_get other k, od_get my k) of (Some c, Some d) \<Rightarrow> Some (max (rc_unique c) (rc_unique d))
     | (Some c, None) \<Rightarrow> Some (rc_unique c) | (None, v) \<Rightarrow> map_option rc_unique v)"
  using assms
proof (induction other arbitrary: my)
  case (Cons e other)
  obtain k' c where e: "e = (k', c)" by force
  obtain my' where my': "update_route_count e my = Inr my'" "update_route_metrics_count my' other = Inr r"
    using Cons.prems(1) by (auto simp: update_route_metrics_count_def split: sum.splits)
  have IH: "map_option rc_unique (od_get r k) =
    (case (od_get other k, od_get my' k) of (Some c, Some d) \<Rightarrow> Some (max (rc_unique c) (rc_unique d))
     | (Some c, None) \<Rightarrow> Some (rc_unique c) | (None, v) \<Rightarrow> map_option rc_unique v)"
    using Cons.IH [OF my'(2)] Cons.prems(2) by simp
  have new: "k' \<notin> set (od_keys other)" using Cons.prems(2) by (simp add: e)
  show ?case
  proof (cases "k' = k")
    case True
    then have "od_get other k = None" using new by (simp add: od_get_None_iff)
    with IH my'(1) True show ?thesis
      by (auto simp: e update_route_count_def bind_res_Inr split: option.splits)
  next
    case False
    then have "od_get my' k = od_get my k"
      using my'(1) by (auto simp: e update_route_count_def bind_res_Inr split: option.splits)
    with IH False show ?thesis by (simp add: e)
  qed
qed (simp add: update_route_metrics_count_def)

definition histories_ok :: "node_history list \<Rightarrow> bool" where
  "histories_ok hs \<longleftrightarrow> (\<forall>h \<in> set hs. distinct (od_keys (nh_daily_routes h)))"

lemma combined_maximum:
  assumes "fold_res add_history_of hs h0 = Inr h" and "histories_ok hs"
  shows "map_option rc_unique (od_get (nh_daily_routes h) k) =
    (let own = map_option rc_unique (od_get (nh_daily_routes h0) k); vs = reported hs k
     in case own of None \<Rightarrow> if vs = [] then None else Some (fold max (tl vs) (hd vs)) | Some n \<Rightarrow> Some (fold max vs n))"
  using assms
proof (induction hs arbitrary: h0)
  case Nil
  then show ?case by (simp add: reported_def map_filter_simps split: option.split)
next
  case (Cons x hs)
  obtain h1 where h1: "add_history_of x h0 = Inr h1" "fold_res add_history_of hs h1 = Inr h"
    using Cons.prems(1) by (auto split: sum.splits)
  have "update_route_metrics_count (nh_daily_routes h0) (nh_daily_routes x) = Inr (nh_daily_routes h1)"
    using h1(1) by (auto simp: add_history_of_def bind_res_Inr)
  moreover have hs: "histories_ok hs" and "distinct (od_keys (nh_daily_routes x))" using Cons.prems(2) by (simp_all add: histories_ok_def)
  ultimately have "map_option rc_unique (od_get (nh_daily_routes h1) k) =
    (case (od_get (nh_daily_routes x) k, od_get (nh_daily_routes h0) k) of (Some c, Some d) \<Rightarrow> Some (max (rc_unique c) (rc_unique d))
     | (Some c, None) \<Rightarrow> Some (rc_unique c) | (None, v) \<Rightarrow> map_option rc_unique v)"
    by (intro update_route_count_get)
  with Cons.IH [OF h1(2) hs] show ?case
    by (cases "od_get (nh_daily_routes x) k"; cases "od_get (nh_daily_routes h0) k")
      (simp_all add: reported_def map_filter_simps Let_def)
qed

lemma combined_distinct:
  assumes "fold_res add_history_of hs h0 = Inr h" and "distinct (od_keys (nh_daily_routes h0))"
  shows "distinct (od_keys (nh_daily_routes h))"
proof -
  have step: "fold_res update_route_count other my = Inr r \<Longrightarrow> distinct (od_keys my) \<Longrightarrow> distinct (od_keys r)" for other my r
  proof (induction other arbitrary: my)
    case (Cons e other)
    then obtain my' where my': "update_route_count e my = Inr my'" "fold_res update_route_count other my' = Inr r"
      by (auto split: sum.splits)
    then have "distinct (od_keys my')"
      using Cons.prems(2) by (auto simp: update_route_count_def bind_res_Inr distinct_od_set split: prod.splits option.splits)
    with my'(2) show ?case by (rule Cons.IH)
  qed simp
  show ?thesis
    using assms
  proof (induction hs arbitrary: h0)
    case (Cons x hs)
    then obtain h1 where h1: "add_history_of x h0 = Inr h1" "fold_res add_history_of hs h1 = Inr h" by (auto split: sum.splits)
    then have "distinct (od_keys (nh_daily_routes h1))"
      using Cons.prems(2) step by (auto simp: add_history_of_def bind_res_Inr update_route_metrics_count_def)
    with h1(2) show ?case by (rule Cons.IH)
  qed simp
qed

lemma unique_of_set: "unique_of (set_unique (t, c) rows) u = (if t = u then rc_unique c else unique_of rows u)"
  by (induction rows) (auto simp: set_unique_def upsert_Cons upsert_Nil unique_of_Cons)

lemma unique_of_fold_set:
  "(d, c) \<in> set days \<Longrightarrow> (\<And>c'. (d, c') \<in> set days \<Longrightarrow> c' = c) \<Longrightarrow> unique_of (fold set_unique days rows) d = rc_unique c"
proof (induction days rule: rev_induct)
  case (snoc x days)
  obtain t c' where x: "x = (t, c')" by (metis surj_pair)
  show ?case
  proof (cases "t = d")
    case True
    then have "c' = c" using snoc.prems(2) [of c'] by (simp add: x)
    with True show ?thesis by (simp add: x unique_of_set)
  next
    case False
    then have "(d, c) \<in> set days" using snoc.prems(1) by (simp add: x)
    moreover have "\<And>c'. (d, c') \<in> set days \<Longrightarrow> c' = c" using snoc.prems(2) by simp
    ultimately have "unique_of (fold set_unique days rows) d = rc_unique c" by (rule snoc.IH)
    with False show ?thesis by (simp add: x unique_of_set)
  qed
qed simp

text \<open>
  After a synchronisation the users of a day are the most that any other node reports for it,
  whatever this node had counted itself.
\<close>

lemma synchronised_maximum:
  assumes run: "synchronize_all_node_metrics Y s = (Inr (), t)" and hs: "hs = List.map_filter (sy_history Y) (sy_nodes Y)"
    and ok: "histories_ok hs" and d: "sy_cast Y k = Inr d" and only: "\<And>k'. sy_cast Y k' = Inr d \<Longrightarrow> k' = k"
    and some: "reported hs k \<noteq> []"
  shows "unique_of (mx_day_unique t) d = Max (set (reported hs k))"
proof -
  obtain h where h: "fold_res add_history_of hs no_history = Inr h" "update_historical_metrics Y h s = (Inr (), t)"
    using run hs by (auto simp: synchronize_all_node_metrics_def py_simps split: sum.splits)
  obtain days where days: "cast_keys Y (nh_daily_routes h) = Inr days" and t: "mx_day_unique t = fold set_unique days (mx_day_unique s)"
    using h(2)
    by (auto simp: update_historical_metrics_def update_historical_daily_route_metrics_def update_historical_monthly_route_metrics_def
        update_historical_daily_app_metrics_def update_historical_monthly_app_metrics_def committed_def sq_Inr bnd_Inr lift_res_def modify_def)
  have "map_option rc_unique (od_get (nh_daily_routes h) k) = Some (fold max (tl (reported hs k)) (hd (reported hs k)))"
    using combined_maximum [OF h(1) ok, of k] some by (simp add: no_history_def Let_def)
  also have "fold max (tl (reported hs k)) (hd (reported hs k)) = Max (set (reported hs k))"
    using some Max.set_eq_fold [of "hd (reported hs k)" "tl (reported hs k)"] by simp
  finally obtain c where c: "od_get (nh_daily_routes h) k = Some c" "rc_unique c = Max (set (reported hs k))" by auto
  have mem: "(u, v) \<in> set days \<longleftrightarrow> (\<exists>j. (j, v) \<in> set (nh_daily_routes h) \<and> sy_cast Y j = Inr u)" for u v
  proof -
    have "(case x of (k, w) \<Rightarrow> bind_res (sy_cast Y k) (\<lambda>t. Inr (t, w))) = Inr (u, v) \<longleftrightarrow> snd x = v \<and> sy_cast Y (fst x) = Inr u" for x
      by (cases x; cases "sy_cast Y (fst x)") auto
    then have "(u, v) \<in> set days \<longleftrightarrow> (\<exists>x \<in> set (nh_daily_routes h). snd x = v \<and> sy_cast Y (fst x) = Inr u)"
      using map_res_mem_iff [OF days [unfolded cast_keys_def], of "(u, v)"] by (simp only:)
    then show ?thesis by (simp only: Bex_def split_paired_Ex fst_conv snd_conv) blast
  qed
  have dist: "distinct (od_keys (nh_daily_routes h))" by (rule combined_distinct [OF h(1)]) (simp add: no_history_def)
  have "(d, c) \<in> set days" using mem [of d c] od_get_in_set [OF c(1)] d by blast
  moreover have "c' = c" if cc: "(d, c') \<in> set days" for c'
  proof -
    obtain j where j: "(j, c') \<in> set (nh_daily_routes h)" "sy_cast Y j = Inr d" using mem [of d c'] cc by blast
    then have "j = k" using only by blast
    with in_set_od_get [OF dist j(1)] c(1) show ?thesis by simp
  qed
  ultimately have "unique_of (fold set_unique days (mx_day_unique s)) d = rc_unique c" by (rule unique_of_fold_set)
  with c(2) t show ?thesis by simp
qed

section \<open>A sample\<close>

text \<open>Two merges on the last day of a month and one on the next day.\<close>

definition sample_time :: "nat \<Rightarrow> nat \<Rightarrow> nat \<Rightarrow> datetime" where
  "sample_time m d h = \<lparr>dt_date = (2023, m, d), dt_hour = h, dt_minute = 5\<rparr>"

definition sample_merge :: "nat \<Rightarrow> nat \<Rightarrow> nat \<Rightarrow> value_counts \<Rightarrow> merge_step" where
  "sample_merge m d h counts = (\<lparr>mg_now = sample_time m d h, mg_commit = Inr ()\<rparr>, sample_time m d h, counts)"

definition sample_merges :: "merge_step list" where
  "sample_merges = [sample_merge 1 31 4 [(''a'', 2), (''b'', 1)], sample_merge 1 31 9 [(''b'', 3)], sample_merge 2 1 0 [(''a'', 1)]]"

definition no_metrics :: metrics_state where
  "no_metrics = \<lparr>mx_hsets = [], mx_personal = (\<lambda>t. []), mx_daily = (\<lambda>t. []), mx_monthly = (\<lambda>t. []), mx_summed_daily = [],
     mx_summed_monthly = [], mx_visited = [], mx_day_unique = [], mx_day_total = [], mx_month_unique = [], mx_month_total = [],
     mx_day_apps = [], mx_month_apps = [], mx_routes = [], mx_apps = []\<rparr>"

lemma unique_counts_exact_witness:
  "unique_of (mx_day_unique (fold merge_of sample_merges no_metrics)) (2023, 1, 31) = int (card {''a'', ''b''})"
proof -
  have "list_all step_ok sample_merges" and "in_order sample_merges"
    by (simp_all add: sample_merges_def sample_merge_def sample_time_def step_ok_def valid_time_def valid_date_def days_in_month_def
        in_order_def date_before_def)
  moreover have "nothing_counted no_metrics" by (simp add: nothing_counted_def day_part_def month_part_def no_metrics_def)
  moreover have "visitors dt_date sample_merges (2023, 1, 31) = {''a'', ''b''}"
    by (auto simp: visitors_def sample_merges_def sample_merge_def sample_time_def)
  ultimately show ?thesis using unique_counts_exact [of no_metrics sample_merges "(2023, 1, 31)"] by simp
qed

definition sample_request :: request where
  "sample_request = \<lparr>rq_path = ''/v1/tracks'', rq_args = [(''limit'', ''5''), (''app_name'', ''web'')], rq_remote = None,
     rq_forwarded = Some ''2001:db8::1, 10.0.0.1''\<rparr>"

lemma metrics_key_roundtrip_witness:
  "parse_metrics_key (fst (extract_route_key (sample_time 1 31 4) sample_request)) =
     Inr (Some (metrics_routes, ''2001:db8::1'', \<lparr>dt_date = (2023, 1, 31), dt_hour = 4, dt_minute = 0\<rparr>))"
proof -
  have "valid_time (sample_time 1 31 4)" by (simp add: sample_time_def valid_time_def valid_date_def days_in_month_def)
  moreover have ip: "get_ip sample_request = ''2001:db8::1''" by code_simp
  moreover have "str_strip ''2001:db8::1'' = ''2001:db8::1''" by code_simp
  ultimately show ?thesis
    using metrics_key_roundtrip [of "sample_time 1 31 4" sample_request] by (simp add: get_rounded_date_time_def sample_time_def)
qed

text \<open>The key of an address with an underscore is read back as another address.\<close>

lemma sample_underscore:
  "parse_metrics_key (fst (extract_route_key (sample_time 1 31 4) (sample_request\<lparr>rq_forwarded := Some ''a_b''\<rparr>))) =
     Inr (Some (metrics_routes, ''a:b'', \<lparr>dt_date = (2023, 1, 31), dt_hour = 4, dt_minute = 0\<rparr>))"
  by code_simp

text \<open>A route that starts with a letter \<open>v\<close> loses its first part to the version.\<close>

lemma sample_version: "route_parts ''/verify/me?x=1'' = (''erify'', ''me'', Some ''x=1'')"
  by code_simp

end
