(* ===== verification/User_Balances.thy ===== *)
theory User_Balances
  imports User_Bank
begin

text \<open>
  tasks/cache_user_balance.py, queries/get_balances.py and utils/spl_audio.py: the balances of the
  users, cached in \<open>user_balances\<close> with the last change of each in \<open>user_balance_changes\<close>, and the two
  Redis sets of users that wait for a refresh: the lazy one, filled when a user is shown, and the
  immediate one, filled by the indexers.  Times are in microseconds.
\<close>

section \<open>Units\<close>

definition SPL_TO_WEI :: int where "SPL_TO_WEI = 10 ^ 10"
definition SPL_TO_WEI_PADDING :: string where "SPL_TO_WEI_PADDING = replicate 10 CHR ''0''"

text \<open>For integers and texts of integers, as annotated; \<open>None\<close> counts as zero.\<close>

definition to_wei :: "pyval \<Rightarrow> int result" where
  "to_wei balance =
     bind_res (truthy balance) (\<lambda>b.
     if \<not> b then Inr 0
     else case balance of
         PInt n \<Rightarrow> Inr (n * SPL_TO_WEI)
       | PStr s \<Rightarrow> bind_res (read_int s) (\<lambda>n. Inr (n * SPL_TO_WEI))
       | _ \<Rightarrow> Inl TypeError)"

definition to_wei_string :: "pyval \<Rightarrow> string" where
  "to_wei_string spl_amount = (case spl_amount of PStr s \<Rightarrow> s | v \<Rightarrow> show_int (as_int v)) @ SPL_TO_WEI_PADDING"

section \<open>State and environment\<close>

record user_balance =
  ub_user_id :: int
  ub_balance :: string
  ub_created_at :: int
  ub_updated_at :: int
  ub_associated_wallets_balance :: string
  ub_waudio :: "string option"
  ub_associated_sol_wallets_balance :: string

record balance_change =
  bc_user_id :: int
  bc_blocknumber :: int
  bc_current_balance :: string
  bc_previous_balance :: string

record balance_state =
  bs_sol :: sol_state
  bs_balances :: "user_balance list"
  bs_changes :: "balance_change list"
  bs_lazy :: "int list"
  bs_completed :: "int option"

type_synonym 'a bs = "(balance_state, 'a) py"

text \<open>The answer of the token client: the amount, or an error with its code.\<close>

datatype token_reply = Amount string | Rpc_error "int option"

text \<open>
  The contracts, the token client (\<open>None\<close> when it is not configured), the order in which a set is
  walked, the requests that other processes add while a refresh runs and the verdict on its commit.
\<close>

record balance_env =
  be_now :: int
  be_db_now :: int
  be_order :: "int list \<Rightarrow> int list"
  be_contracts :: "unit result"
  be_checksum :: "pyval \<Rightarrow> string result"
  be_balance_of :: "string \<Rightarrow> int result"
  be_delegated :: "string \<Rightarrow> int result"
  be_staked :: "string \<Rightarrow> int result"
  be_token :: "(string \<Rightarrow> token_reply result) option"
  be_pubkey :: "string \<Rightarrow> string result"
  be_derived :: "string \<Rightarrow> string result"
  be_block_number :: "int result"
  be_meanwhile :: "int list"
  be_commit :: "unit result"
  be_have_lock :: bool

section \<open>Reading balances (queries/get_balances.py)\<close>

definition BALANCE_REFRESH :: int where "BALANCE_REFRESH = 12 * 60 * 60"

definition does_user_balance_need_refresh :: "balance_env \<Rightarrow> user_balance \<Rightarrow> bool" where
  "does_user_balance_need_refresh E b \<longleftrightarrow>
     ub_updated_at b = ub_created_at b \<or> ub_updated_at b < be_now E - BALANCE_REFRESH * 1000000"

definition enqueue_lazy_balance_refresh :: "int list \<Rightarrow> unit bs" where
  "enqueue_lazy_balance_refresh user_ids =
     run_when (user_ids \<noteq> []) (modify (\<lambda>s. s\<lparr>bs_lazy := fold List.insert user_ids (bs_lazy s)\<rparr>))"

record shown_balance =
  sb_owner :: string
  sb_associated :: string
  sb_associated_sol :: string
  sb_waudio :: "string option"
  sb_total :: string

definition text_or_none :: "string option \<Rightarrow> pyval" where
  "text_or_none v = (case v of None \<Rightarrow> PNone | Some s \<Rightarrow> PStr s)"

definition show_balance :: "user_balance \<Rightarrow> shown_balance result" where
  "show_balance b =
     bind_res (read_int (ub_balance b)) (\<lambda>owner.
     bind_res (read_int (ub_associated_wallets_balance b)) (\<lambda>assoc.
     bind_res (to_wei (PStr (ub_associated_sol_wallets_balance b))) (\<lambda>assoc_sol.
     bind_res (to_wei (text_or_none (ub_waudio b))) (\<lambda>waudio.
     Inr \<lparr>sb_owner = ub_balance b, sb_associated = ub_associated_wallets_balance b,
       sb_associated_sol = ub_associated_sol_wallets_balance b, sb_waudio = ub_waudio b,
       sb_total = show_int (owner + assoc + assoc_sol + waudio)\<rparr>))))"

definition no_balance :: shown_balance where
  "no_balance = \<lparr>sb_owner = ''0'', sb_associated = ''0'', sb_associated_sol = ''0'', sb_waudio = Some ''0'', sb_total = ''0''\<rparr>"

definition balance_rows :: "balance_state \<Rightarrow> int list \<Rightarrow> user_balance list" where
  "balance_rows s user_ids = filter (\<lambda>b. ub_user_id b \<in> set user_ids) (bs_balances s)"

definition get_balances :: "balance_env \<Rightarrow> int list \<Rightarrow> (int, shown_balance) odict bs" where
  "get_balances E user_ids =
     bnd (gets (\<lambda>s. balance_rows s user_ids)) (\<lambda>query.
     bnd (lift_res (map_res (\<lambda>b. bind_res (show_balance b) (\<lambda>v. Inr (ub_user_id b, v))) query)) (\<lambda>shown.
     let needs_balance_set = be_order E (filter (\<lambda>i. i \<notin> ub_user_id ` set query) (remdups user_ids));
         needs_refresh = map ub_user_id (filter (does_user_balance_need_refresh E) query)
     in sq (enqueue_lazy_balance_refresh (needs_balance_set @ needs_refresh))
          (ret (fold (\<lambda>i d. od_set d i no_balance) needs_balance_set
             (od_build fst snd shown)))))"

section \<open>What to refresh (tasks/cache_user_balance.py)\<close>

definition MAX_LAZY_REFRESH_USER_IDS :: nat where "MAX_LAZY_REFRESH_USER_IDS = 100"

text \<open>Only users who have a row already are taken from the lazy set.\<close>

definition get_lazy_refresh_user_ids :: "balance_env \<Rightarrow> balance_state \<Rightarrow> int list" where
  "get_lazy_refresh_user_ids E s =
     be_order E (map ub_user_id (filter (does_user_balance_need_refresh E) (balance_rows s (bs_lazy s))))"

definition get_immediate_refresh_user_ids :: "balance_state \<Rightarrow> int list" where
  "get_immediate_refresh_user_ids s = so_refresh (bs_sol s)"

definition new_balance :: "balance_env \<Rightarrow> int \<Rightarrow> user_balance" where
  "new_balance E user_id = \<lparr>ub_user_id = user_id, ub_balance = ''0'', ub_created_at = be_db_now E, ub_updated_at = be_db_now E,
     ub_associated_wallets_balance = ''0'', ub_waudio = Some ''0'', ub_associated_sol_wallets_balance = ''0''\<rparr>"

record user_wallets =
  uw_owner :: pyval
  uw_eth :: "string list"
  uw_sol :: "string list"
  uw_bank :: "string option"

definition current_users :: "balance_state \<Rightarrow> int list \<Rightarrow> inst list" where
  "current_users s user_ids =
     filter (\<lambda>u. is_current_row u \<and> as_int (attr u ''user_id'') \<in> set user_ids) (so_users (bs_sol s))"

definition user_associated_wallet_query ::
    "balance_state \<Rightarrow> int list \<Rightarrow> (int \<times> pyval \<times> (string \<times> string) option) list" where
  "user_associated_wallet_query s user_ids =
     concat (map (\<lambda>u.
       let user_id = as_int (attr u ''user_id'');
           wallets = filter (\<lambda>w. aw_user_id w = user_id \<and> aw_is_current w \<and> \<not> aw_is_delete w) (so_wallets (bs_sol s))
       in map (\<lambda>a. (user_id, attr u ''wallet'', a))
            (if wallets = [] then [None] else map (\<lambda>w. Some (aw_wallet w, aw_chain w)) wallets))
       (current_users s user_ids))"

definition user_bank_accounts_query :: "balance_state \<Rightarrow> int list \<Rightarrow> (int \<times> string) list" where
  "user_bank_accounts_query s user_ids =
     concat (map (\<lambda>u. map (\<lambda>a. (as_int (attr u ''user_id''), ba_bank_account a))
       (filter (\<lambda>a. attr u ''wallet'' = PStr (ba_ethereum_address a)) (so_accounts (bs_sol s))))
       (current_users s user_ids))"

text \<open>The chain of a wallet is the key of its list.\<close>

definition append_wallet :: "string \<times> string \<Rightarrow> user_wallets \<Rightarrow> user_wallets result" where
  "append_wallet a w =
     (case a of (wallet, chain) \<Rightarrow>
        if wallet = [] then Inr w
        else if chain = ''eth'' then Inr (w\<lparr>uw_eth := uw_eth w @ [wallet]\<rparr>)
        else if chain = ''sol'' then Inr (w\<lparr>uw_sol := uw_sol w @ [wallet]\<rparr>)
        else Inl KeyError)"

definition add_wallet_row ::
    "(int, string) odict \<Rightarrow> int \<times> pyval \<times> (string \<times> string) option \<Rightarrow> (int, user_wallets) odict \<Rightarrow>
     (int, user_wallets) odict result" where
  "add_wallet_row banks row user_id_metadata =
     (case row of (user_id, owner, assoc) \<Rightarrow>
        let w = od_default user_id_metadata user_id
                  \<lparr>uw_owner = owner, uw_eth = [], uw_sol = [], uw_bank = od_get banks user_id\<rparr>
        in case assoc of
             None \<Rightarrow> Inr (od_set user_id_metadata user_id w)
           | Some a \<Rightarrow> bind_res (append_wallet a w) (\<lambda>w'. Inr (od_set user_id_metadata user_id w')))"

definition user_id_metadata :: "balance_state \<Rightarrow> int list \<Rightarrow> (int, user_wallets) odict result" where
  "user_id_metadata s user_ids =
     (let banks = fold (\<lambda>(user_id, account) d. od_set d user_id account) (user_bank_accounts_query s user_ids) []
      in fold_res (add_wallet_row banks) (user_associated_wallet_query s user_ids) [])"

section \<open>Fetching the balances of a user\<close>

definition eth_wallet_balance :: "balance_env \<Rightarrow> string \<Rightarrow> int result" where
  "eth_wallet_balance E wallet =
     bind_res (be_checksum E (PStr wallet)) (\<lambda>w.
     bind_res (be_balance_of E w) (\<lambda>balance.
     bind_res (be_delegated E w) (\<lambda>delegation_balance.
     bind_res (be_staked E w) (\<lambda>stake_balance.
     Inr (balance + delegation_balance + stake_balance)))))"

definition associated_eth_balance :: "balance_env \<Rightarrow> string list \<Rightarrow> int result" where
  "associated_eth_balance E wallets =
     fold_res (\<lambda>w associated_balance. bind_res (eth_wallet_balance E w) (\<lambda>b. Inr (associated_balance + b))) wallets 0"

text \<open>The error -32602 says that there is no account; any other answer without an amount has no \<open>result\<close>.\<close>

definition sol_wallet_balance :: "balance_env \<Rightarrow> (string \<Rightarrow> token_reply result) \<Rightarrow> string \<Rightarrow> int result" where
  "sol_wallet_balance E waudio_token wallet =
     bind_res (be_derived E wallet) (\<lambda>derived_account.
     bind_res (waudio_token derived_account) (\<lambda>bal_info.
     case bal_info of
       Rpc_error code \<Rightarrow> if code = Some (-32602) then Inr 0 else Inl KeyError
     | Amount associated_waudio_balance \<Rightarrow> read_int associated_waudio_balance))"

text \<open>A wallet that cannot be read is left out.\<close>

definition associated_sol_balance :: "balance_env \<Rightarrow> string list \<Rightarrow> int" where
  "associated_sol_balance E wallets =
     (case be_token E of
        None \<Rightarrow> 0
      | Some waudio_token \<Rightarrow>
          fold (\<lambda>w total. case sol_wallet_balance E waudio_token w of Inl x \<Rightarrow> total | Inr n \<Rightarrow> total + n) wallets 0)"

definition bank_balance :: "balance_env \<Rightarrow> string option \<Rightarrow> string result" where
  "bank_balance E bank_account =
     (case (bank_account, be_token E) of
        (Some account, Some waudio_token) \<Rightarrow>
          bind_res (be_pubkey E account) (\<lambda>key.
          bind_res (waudio_token key) (\<lambda>bal_info.
          case bal_info of Rpc_error code \<Rightarrow> Inl KeyError | Amount amount \<Rightarrow> Inr amount))
      | _ \<Rightarrow> Inr ''0'')"

definition prev_total_balance :: "user_balance \<Rightarrow> int result" where
  "prev_total_balance b =
     bind_res (to_wei (text_or_none (ub_waudio b))) (\<lambda>user_waudio_in_wei.
     bind_res (to_wei (PStr (ub_associated_sol_wallets_balance b))) (\<lambda>user_assoc_sol_balance_in_wei.
     bind_res (read_int (ub_balance b)) (\<lambda>balance.
     bind_res (read_int (ub_associated_wallets_balance b)) (\<lambda>associated.
     Inr (balance + associated + user_waudio_in_wei + user_assoc_sol_balance_in_wei)))))"

text \<open>The body of the loop: either all columns of the user change, or an exception leaves them as they were.\<close>

definition refresh_user :: "balance_env \<Rightarrow> user_balance \<Rightarrow> user_wallets \<Rightarrow> (user_balance \<times> balance_change) result" where
  "refresh_user E user_balance wallets =
     bind_res (be_checksum E (uw_owner wallets)) (\<lambda>owner_wallet.
     bind_res (be_balance_of E owner_wallet) (\<lambda>owner_wallet_balance.
     bind_res (associated_eth_balance E (uw_eth wallets)) (\<lambda>associated_balance.
     let assoc_sol = associated_sol_balance E (uw_sol wallets) in
     bind_res (bank_balance E (uw_bank wallets)) (\<lambda>waudio_balance.
     bind_res (to_wei (PStr waudio_balance)) (\<lambda>waudio_in_wei.
     bind_res (to_wei (PInt assoc_sol)) (\<lambda>assoc_sol_balance_in_wei.
     let current_total_balance = owner_wallet_balance + associated_balance + waudio_in_wei + assoc_sol_balance_in_wei in
     bind_res (prev_total_balance user_balance) (\<lambda>prev_total.
     bind_res (be_block_number E) (\<lambda>blocknumber.
     Inr (user_balance\<lparr>ub_balance := show_int owner_wallet_balance,
            ub_associated_wallets_balance := show_int associated_balance,
            ub_waudio := Some waudio_balance,
            ub_associated_sol_wallets_balance := show_int assoc_sol\<rparr>,
          \<lparr>bc_user_id = ub_user_id user_balance, bc_blocknumber = blocknumber,
           bc_current_balance = show_int current_total_balance, bc_previous_balance = show_int prev_total\<rparr>)))))))))"

section \<open>The refresh\<close>

definition put_balance :: "user_balance \<Rightarrow> user_balance list \<Rightarrow> user_balance list" where
  "put_balance b bs = map (\<lambda>r. if ub_user_id r = ub_user_id b then b else r) bs"

definition fetch_user ::
    "balance_env \<Rightarrow> int \<times> user_wallets \<Rightarrow> user_balance list \<times> (int, balance_change) odict \<Rightarrow>
     user_balance list \<times> (int, balance_change) odict" where
  "fetch_user E entry acc =
     (case (entry, acc) of ((user_id, wallets), (balances, needs_balance_change_update)) \<Rightarrow>
        case find (\<lambda>b. ub_user_id b = user_id) balances of
          None \<Rightarrow> acc
        | Some b \<Rightarrow> (case refresh_user E b wallets of
              Inl x \<Rightarrow> acc
            | Inr (b', change) \<Rightarrow> (put_balance b' balances, od_set needs_balance_change_update user_id change)))"

definition save_changes :: "balance_env \<Rightarrow> (int, balance_change) odict \<Rightarrow> balance_change list \<Rightarrow> balance_change list" where
  "save_changes E needs_balance_change_update existing =
     (let to_create_ids = be_order E (filter (\<lambda>i. i \<notin> bc_user_id ` set existing) (od_keys needs_balance_change_update))
      in map (\<lambda>c. od_default needs_balance_change_update (bc_user_id c) c) existing @
         map (\<lambda>i. the (od_get needs_balance_change_update i)) to_create_ids)"

definition remove_requests :: "int list \<Rightarrow> int list \<Rightarrow> balance_state \<Rightarrow> balance_state" where
  "remove_requests lazy_ids immediate_ids s =
     s\<lparr>bs_lazy := filter (\<lambda>i. i \<notin> set lazy_ids) (bs_lazy s),
       bs_sol := (bs_sol s)\<lparr>so_refresh := filter (\<lambda>i. i \<notin> set immediate_ids) (so_refresh (bs_sol s))\<rparr>\<rparr>"

definition other_requests :: "balance_env \<Rightarrow> balance_state \<Rightarrow> balance_state" where
  "other_requests E s = s\<lparr>bs_sol := snd (enqueue_immediate_balance_refresh (be_meanwhile E) (bs_sol s))\<rparr>"

definition refresh_user_ids :: "balance_env \<Rightarrow> unit bs" where
  "refresh_user_ids E =
     bnd (gets (\<lambda>s. take MAX_LAZY_REFRESH_USER_IDS (get_lazy_refresh_user_ids E s))) (\<lambda>lazy_ids.
     bnd (gets get_immediate_refresh_user_ids) (\<lambda>immediate_ids.
     sq (modify (other_requests E)) (
     let user_ids = be_order E (remdups (lazy_ids @ immediate_ids)) in
     bnd (gets (\<lambda>s. be_order E (filter (\<lambda>i. i \<notin> ub_user_id ` set (balance_rows s user_ids)) user_ids))) (\<lambda>not_present_set.
     bnd (gets (\<lambda>s. user_id_metadata s user_ids)) (\<lambda>metadata.
     bnd (lift_res metadata) (\<lambda>m.
     sq (lift_res (be_commit E)) (
     sq (modify (\<lambda>s. let (balances, changes) = fold (fetch_user E) m (bs_balances s @ map (new_balance E) not_present_set, [])
           in s\<lparr>bs_balances := balances, bs_changes := save_changes E changes (bs_changes s)\<rparr>))
       (modify (remove_requests lazy_ids immediate_ids)))))))))"

text \<open>\<open>update_user_balances_task\<close>\<close>

definition update_user_balances :: "balance_env \<Rightarrow> unit bs" where
  "update_user_balances E =
     run_when (be_have_lock E) (
       sq (lift_res (be_contracts E)) (
       sq (refresh_user_ids E)
         (modify (\<lambda>s. s\<lparr>bs_completed := Some (be_now E)\<rparr>))))"

end
