(* ===== verification/Balance_Properties.thy ===== *)
theory Balance_Properties
  imports User_Balances Sol_Properties
begin

text \<open>
  What the cached balances say: the last recorded change of a user, the stored row and the total
  shown to clients agree, whatever refreshes and lookups came before; but a user without a row is
  never refreshed from the lazy set, and a request whose balance could not be read is dropped.
\<close>

section \<open>Units\<close>

lemma to_wei_PInt [simp]: "to_wei (PInt n) = Inr (n * SPL_TO_WEI)"
  by (simp add: to_wei_def)

lemma to_wei_show_int [simp]: "to_wei (PStr (show_int n)) = Inr (n * SPL_TO_WEI)"
  by (simp add: to_wei_def read_show_int)

section \<open>Histories\<close>

text \<open>What the processes do with the balances, in any order.\<close>

datatype balance_action = Refresh balance_env | Lookup balance_env "int list" | Request "int list"

fun act :: "balance_action \<Rightarrow> balance_state \<Rightarrow> balance_state" where
  "act (Refresh E) s = snd (update_user_balances E s)"
| "act (Lookup E user_ids) s = snd (get_balances E user_ids s)"
| "act (Request user_ids) s = s\<lparr>bs_sol := snd (enqueue_immediate_balance_refresh user_ids (bs_sol s))\<rparr>"

definition order_ok :: "balance_env \<Rightarrow> bool" where
  "order_ok E \<longleftrightarrow> (\<forall>xs. set (be_order E xs) = set xs \<and> (distinct xs \<longrightarrow> distinct (be_order E xs)))"

fun action_ok :: "balance_action \<Rightarrow> bool" where
  "action_ok (Refresh E) \<longleftrightarrow> order_ok E"
| "action_ok (Lookup E user_ids) \<longleftrightarrow> order_ok E"
| "action_ok (Request user_ids) \<longleftrightarrow> True"

section \<open>The tables agree\<close>

text \<open>A change row is about a row with the total it names.\<close>

definition change_ok :: "user_balance list \<Rightarrow> balance_change \<Rightarrow> bool" where
  "change_ok balances c \<longleftrightarrow> (\<exists>b \<in> set balances. \<exists>n. ub_user_id b = bc_user_id c \<and>
     prev_total_balance b = Inr n \<and> bc_current_balance c = show_int n)"

definition balances_ok :: "balance_state \<Rightarrow> bool" where
  "balances_ok s \<longleftrightarrow> distinct (map ub_user_id (bs_balances s)) \<and> distinct (map bc_user_id (bs_changes s)) \<and>
     (\<forall>c \<in> set (bs_changes s). change_ok (bs_balances s) c)"

lemma refresh_user_row:
  assumes "refresh_user E b w = Inr (b', c)"
  shows "ub_user_id b' = ub_user_id b" and "bc_user_id c = ub_user_id b"
    and "ub_created_at b' = ub_created_at b" and "ub_updated_at b' = ub_updated_at b"
    and "\<exists>n. prev_total_balance b' = Inr n \<and> bc_current_balance c = show_int n"
    and "\<exists>n. prev_total_balance b = Inr n \<and> bc_previous_balance c = show_int n"
  using assms
  by (auto simp: refresh_user_def Let_def bind_res_Inr prev_total_balance_def text_or_none_def read_show_int algebra_simps)

lemma ids_put_balance [simp]: "map ub_user_id (put_balance b bs) = map ub_user_id bs"
  by (auto simp: put_balance_def)

lemma put_balance_in: "b0 \<in> set bs \<Longrightarrow> ub_user_id b0 = ub_user_id b \<Longrightarrow> b \<in> set (put_balance b bs)"
  by (force simp: put_balance_def)

lemma put_balance_other: "r \<in> set bs \<Longrightarrow> ub_user_id r \<noteq> ub_user_id b \<Longrightarrow> r \<in> set (put_balance b bs)"
  by (force simp: put_balance_def)

lemma put_balance_mem: "r \<in> set (put_balance b bs) \<Longrightarrow> r = b \<or> r \<in> set bs"
  by (auto simp: put_balance_def split: if_splits)

lemma change_ok_put:
  assumes "change_ok bs c" and "bc_user_id c \<noteq> ub_user_id b"
  shows "change_ok (put_balance b bs) c"
  using assms put_balance_other [of _ bs b] by (fastforce simp: change_ok_def)

text \<open>The rows after some of the users, and the changes noted so far.\<close>

definition fetched_ok :: "user_balance list \<Rightarrow> user_balance list \<times> (int, balance_change) odict \<Rightarrow> bool" where
  "fetched_ok bs0 acc \<longleftrightarrow> (case acc of (bs, chs) \<Rightarrow> map ub_user_id bs = map ub_user_id bs0 \<and> distinct (od_keys chs) \<and>
     (\<forall>k c. od_get chs k = Some c \<longrightarrow> bc_user_id c = k \<and> change_ok bs c) \<and>
     (\<forall>b \<in> set bs0. od_get chs (ub_user_id b) = None \<longrightarrow> b \<in> set bs))"

lemma find_user:
  "find (\<lambda>b. ub_user_id b = k) bs = Some b \<Longrightarrow> b \<in> set bs \<and> ub_user_id b = k"
  by (auto simp: find_Some_iff)

lemma fetched_ok_step:
  assumes ok: "fetched_ok bs0 acc"
  shows "fetched_ok bs0 (fetch_user E entry acc)"
proof -
  obtain k w where entry: "entry = (k, w)" by force
  obtain bs chs where acc: "acc = (bs, chs)" by force
  show ?thesis
  proof (cases "\<exists>b b' c. find (\<lambda>b. ub_user_id b = k) bs = Some b \<and> refresh_user E b w = Inr (b', c)")
    case True
    then obtain b b' c where f: "find (\<lambda>b. ub_user_id b = k) bs = Some b" and r: "refresh_user E b w = Inr (b', c)" by blast
    note row = refresh_user_row [OF r]
    have b: "b \<in> set bs" "ub_user_id b = k" using find_user [OF f] by auto
    have now: "change_ok (put_balance b' bs) c"
      using put_balance_in [OF b(1), of b'] row(1,2,5) b(2) by (auto simp: change_ok_def)
    have "fetch_user E entry acc = (put_balance b' bs, od_set chs k c)"
      using f r by (simp add: fetch_user_def entry acc)
    then show ?thesis
      using ok now row(1,2) b(2) change_ok_put [of bs _ b'] put_balance_other [of _ bs b']
      by (auto simp: fetched_ok_def acc distinct_od_set split: if_splits)
  next
    case False
    then have "fetch_user E entry acc = acc"
      by (auto simp: fetch_user_def entry acc split: option.split sum.split)
    with ok show ?thesis by simp
  qed
qed

lemma fetched_ok_fold: "fetched_ok bs0 acc \<Longrightarrow> fetched_ok bs0 (fold (fetch_user E) m acc)"
  by (induction m arbitrary: acc) (simp_all add: fetched_ok_step)

lemma saved_changes:
  assumes "c \<in> set (save_changes E chs old)" and "order_ok E"
  shows "(\<exists>k. od_get chs k = Some c) \<or> c \<in> set old \<and> od_get chs (bc_user_id c) = None"
proof -
  consider c0 where "c0 \<in> set old" "c = od_default chs (bc_user_id c0) c0"
    | i where "i \<in> set (od_keys chs)" "c = the (od_get chs i)"
    using assms by (auto simp: save_changes_def order_ok_def Let_def)
  then show ?thesis
  proof cases
    case 1
    then show ?thesis by (cases "od_get chs (bc_user_id c0)") (auto simp: od_default_def)
  next
    case 2
    then show ?thesis by (metis od_get_None_iff option.exhaust_sel)
  qed
qed

lemma saved_ids:
  assumes keys: "\<And>k c. od_get chs k = Some c \<Longrightarrow> bc_user_id c = k"
    and "distinct (od_keys chs)" and "distinct (map bc_user_id old)" and "order_ok E"
  shows "distinct (map bc_user_id (save_changes E chs old))"
proof -
  define new where "new = be_order E (filter (\<lambda>i. i \<notin> bc_user_id ` set old) (od_keys chs))"
  have new: "distinct new" "set new = set (od_keys chs) - bc_user_id ` set old"
    using assms(2,4) by (auto simp: new_def order_ok_def)
  have "map (bc_user_id \<circ> (\<lambda>c. od_default chs (bc_user_id c) c)) old = map bc_user_id old"
    using keys by (auto simp: od_default_def split: option.split)
  moreover have "map (bc_user_id \<circ> (\<lambda>i. the (od_get chs i))) new = new"
  proof (rule map_idI)
    fix i assume "i \<in> set new"
    then obtain c where "od_get chs i = Some c" using new(2) od_get_None_iff [of chs i] by fastforce
    then show "(bc_user_id \<circ> (\<lambda>i. the (od_get chs i))) i = i" using keys by simp
  qed
  ultimately have "map bc_user_id (save_changes E chs old) = map bc_user_id old @ new"
    by (simp add: save_changes_def Let_def new_def [symmetric])
  then show ?thesis using assms(3) new by auto
qed

text \<open>A refresh stops before it stores anything, or stores the rows of everybody it could fetch.\<close>

lemma refresh_cases:
  obtains (failed) x where "refresh_user_ids E s = (Inl x, other_requests E s)"
    | (refreshed) lazy_ids user_ids absent m bs chs
      where "lazy_ids = take MAX_LAZY_REFRESH_USER_IDS (get_lazy_refresh_user_ids E s)"
        and "user_ids = be_order E (remdups (lazy_ids @ so_refresh (bs_sol s)))"
        and "absent = be_order E (filter (\<lambda>i. i \<notin> ub_user_id ` set (balance_rows s user_ids)) user_ids)"
        and "user_id_metadata s user_ids = Inr m"
        and "(bs, chs) = fold (fetch_user E) m (bs_balances s @ map (new_balance E) absent, [])"
        and "refresh_user_ids E s = (Inr (), remove_requests lazy_ids (so_refresh (bs_sol s))
              ((other_requests E s)\<lparr>bs_balances := bs, bs_changes := save_changes E chs (bs_changes s)\<rparr>))"
proof -
  define lazy_ids where "lazy_ids = take MAX_LAZY_REFRESH_USER_IDS (get_lazy_refresh_user_ids E s)"
  define user_ids where "user_ids = be_order E (remdups (lazy_ids @ so_refresh (bs_sol s)))"
  define absent where "absent = be_order E (filter (\<lambda>i. i \<notin> ub_user_id ` set (balance_rows s user_ids)) user_ids)"
  have same: "balance_rows (other_requests E s) = balance_rows s" "user_id_metadata (other_requests E s) = user_id_metadata s"
      "bs_balances (other_requests E s) = bs_balances s" "bs_changes (other_requests E s) = bs_changes s"
    by (auto simp: other_requests_def enqueue_immediate_balance_refresh_def py_simps balance_rows_def fun_eq_iff
        user_id_metadata_def user_bank_accounts_query_def user_associated_wallet_query_def current_users_def)
  note unfold = refresh_user_ids_def get_immediate_refresh_user_ids_def py_simps Let_def same
    lazy_ids_def [symmetric] user_ids_def [symmetric] absent_def [symmetric]
  show thesis
  proof (cases "user_id_metadata s user_ids")
    case (Inl x)
    then show thesis by (intro failed [of x]) (simp add: unfold)
  next
    case (Inr m)
    show thesis
    proof (cases "be_commit E")
      case (Inl x)
      with Inr show thesis by (intro failed [of x]) (simp add: unfold)
    next
      case ok: (Inr u)
      obtain bs chs where f: "(bs, chs) = fold (fetch_user E) m (bs_balances s @ map (new_balance E) absent, [])"
        by (metis surj_pair)
      show thesis
        by (rule refreshed [OF lazy_ids_def user_ids_def absent_def Inr f])
          (simp add: unfold Inr ok f [symmetric])
    qed
  qed
qed

lemma tables_other_requests [simp]:
  "bs_balances (other_requests E s) = bs_balances s" "bs_changes (other_requests E s) = bs_changes s"
  "bs_lazy (other_requests E s) = bs_lazy s"
  by (simp_all add: other_requests_def)

lemma tables_remove_requests [simp]:
  "bs_balances (remove_requests l i s) = bs_balances s" "bs_changes (remove_requests l i s) = bs_changes s"
  by (simp_all add: remove_requests_def)

lemma absent_ids:
  assumes "order_ok E" and "absent = be_order E (filter (\<lambda>i. i \<notin> ub_user_id ` set (balance_rows s user_ids)) user_ids)"
    and "distinct user_ids"
  shows "distinct absent" and "set absent = set user_ids - ub_user_id ` set (bs_balances s)"
  using assms by (auto simp: order_ok_def balance_rows_def)

lemma order_distinct: "order_ok E \<Longrightarrow> distinct (be_order E (remdups xs))"
  by (simp add: order_ok_def)

lemma ids_new_balance [simp]: "ub_user_id (new_balance E i) = i"
  by (simp add: new_balance_def)

lemma balances_ok_refresh:
  assumes ok: "balances_ok s" and E: "order_ok E"
  shows "balances_ok (snd (refresh_user_ids E s))"
proof (cases rule: refresh_cases [of E s])
  case failed
  with ok show ?thesis by (simp add: balances_ok_def)
next
  case (refreshed lazy_ids user_ids absent m bs chs)
  let ?bs0 = "bs_balances s @ map (new_balance E) absent"
  have "distinct user_ids" using refreshed(2) order_distinct [OF E] by simp
  note absent = absent_ids [OF E refreshed(3) this]
  have ids0: "distinct (map ub_user_id ?bs0)"
    using ok absent by (auto simp: balances_ok_def comp_def)
  have "fetched_ok ?bs0 (?bs0, [])" by (simp add: fetched_ok_def od_keys_def)
  then have "fetched_ok ?bs0 (bs, chs)" unfolding refreshed(5) by (rule fetched_ok_fold)
  then have ids: "map ub_user_id bs = map ub_user_id ?bs0" and keys: "distinct (od_keys chs)"
    and new: "\<And>k c. od_get chs k = Some c \<Longrightarrow> bc_user_id c = k \<and> change_ok bs c"
    and kept: "\<And>b. b \<in> set ?bs0 \<Longrightarrow> od_get chs (ub_user_id b) = None \<Longrightarrow> b \<in> set bs"
    by (auto simp: fetched_ok_def)
  have "change_ok bs c" if c: "c \<in> set (save_changes E chs (bs_changes s))" for c
    using saved_changes [OF c E]
  proof
    assume "\<exists>k. od_get chs k = Some c"
    then show ?thesis using new by blast
  next
    assume old: "c \<in> set (bs_changes s) \<and> od_get chs (bc_user_id c) = None"
    then obtain b n where "b \<in> set (bs_balances s)" "ub_user_id b = bc_user_id c"
        "prev_total_balance b = Inr n" "bc_current_balance c = show_int n"
      using ok by (auto simp: balances_ok_def change_ok_def)
    with old kept [of b] show ?thesis by (auto simp: change_ok_def)
  qed
  moreover have "distinct (map bc_user_id (save_changes E chs (bs_changes s)))"
    using new ok by (intro saved_ids keys E) (auto simp: balances_ok_def)
  ultimately show ?thesis
    using ids ids0 by (simp add: refreshed(6) balances_ok_def)
qed

section \<open>Lookups\<close>

lemma shown_total:
  "show_balance b = Inr v \<longleftrightarrow> (\<exists>n. prev_total_balance b = Inr n \<and>
     v = \<lparr>sb_owner = ub_balance b, sb_associated = ub_associated_wallets_balance b,
       sb_associated_sol = ub_associated_sol_wallets_balance b, sb_waudio = ub_waudio b, sb_total = show_int n\<rparr>)"
  by (auto simp: show_balance_def prev_total_balance_def bind_res_Inr algebra_simps)

lemma od_get_fold_other: "k \<notin> set ks \<Longrightarrow> od_get (fold (\<lambda>i d. od_set d i v) ks d) k = od_get d k"
  by (induction ks arbitrary: d) auto

lemma lookup_tables [simp]:
  "bs_balances (snd (get_balances E ids s)) = bs_balances s"
  "bs_changes (snd (get_balances E ids s)) = bs_changes s"
  "bs_sol (snd (get_balances E ids s)) = bs_sol s"
  by (auto simp: get_balances_def enqueue_lazy_balance_refresh_def py_simps Let_def split: sum.split)

lemma lookup_row:
  assumes d: "get_balances E ids s = (Inr d, t)" and E: "order_ok E"
    and u: "distinct (map ub_user_id (bs_balances s))" "b \<in> set (bs_balances s)" "ub_user_id b \<in> set ids"
  shows "\<exists>v. od_get d (ub_user_id b) = Some v \<and> show_balance b = Inr v"
proof -
  let ?one = "\<lambda>b. bind_res (show_balance b) (\<lambda>v. Inr (ub_user_id b, v))"
  let ?absent = "be_order E (filter (\<lambda>i. i \<notin> ub_user_id ` set (balance_rows s ids)) (remdups ids))"
  obtain shown where shown: "map_res ?one (balance_rows s ids) = Inr shown"
      and d: "d = fold (\<lambda>i d. od_set d i no_balance) ?absent (od_build fst snd shown)"
    using d by (auto simp: get_balances_def enqueue_lazy_balance_refresh_def py_simps Let_def split: sum.splits if_splits)
  have b: "b \<in> set (balance_rows s ids)" using u by (simp add: balance_rows_def)
  then have "ub_user_id b \<notin> set ?absent" using E by (auto simp: order_ok_def)
  then have "od_get d (ub_user_id b) = od_get (od_build fst snd shown) (ub_user_id b)"
    unfolding d by (rule od_get_fold_other)
  moreover obtain v where v: "show_balance b = Inr v" "(ub_user_id b, v) \<in> set shown"
    using map_res_total [OF shown b] map_res_mem_iff [OF shown] b by (fastforce simp: bind_res_Inr)
  have "od_get (od_build fst snd shown) (ub_user_id b) = Some v"
  proof (cases "od_get (od_build fst snd shown) (ub_user_id b)")
    case None
    with v(2) show ?thesis by (force simp: od_get_build_None)
  next
    case (Some w)
    then obtain b' where b': "b' \<in> set (balance_rows s ids)" "ub_user_id b' = ub_user_id b" "show_balance b' = Inr w"
      using od_get_build_SomeD [OF Some] map_res_mem_iff [OF shown] by (fastforce simp: bind_res_Inr)
    have "b' = b" using b'(1,2) u by (auto simp: balance_rows_def distinct_map inj_on_def)
    with b'(3) v(1) Some show ?thesis by simp
  qed
  ultimately show ?thesis using v(1) by simp
qed

section \<open>Any history\<close>

lemma update_state:
  "snd (update_user_balances E s) = s \<or> snd (update_user_balances E s) = snd (refresh_user_ids E s) \<or>
   snd (update_user_balances E s) = (snd (refresh_user_ids E s))\<lparr>bs_completed := Some (be_now E)\<rparr>"
  by (auto simp: update_user_balances_def py_simps split: sum.split prod.split)

lemma balances_ok_act: "balances_ok s \<Longrightarrow> action_ok a \<Longrightarrow> balances_ok (act a s)"
proof (cases a)
  case (Refresh E)
  assume "balances_ok s" and "action_ok a"
  then show ?thesis
    using Refresh balances_ok_refresh [of s E] update_state [of E s] by (auto simp: balances_ok_def)
qed (simp_all add: balances_ok_def)

lemma balances_ok_history: "balances_ok s \<Longrightarrow> list_all action_ok as \<Longrightarrow> balances_ok (fold act as s)"
  by (induction as arbitrary: s) (simp_all add: balances_ok_act)

text \<open>C19: From empty tables, after any sequence of refreshes, lookups and requests, with contracts and
  token clients that answer anything or fail, the change recorded last for a user agrees with the
  total that a lookup shows for him.\<close>

theorem shown_is_last_change:
  assumes "bs_balances s = []" and "bs_changes s = []" and "list_all action_ok as"
    and "get_balances E ids (fold act as s) = (Inr d, t)" and "order_ok E"
    and "c \<in> set (bs_changes (fold act as s))" and "bc_user_id c \<in> set ids"
  shows "map_option sb_total (od_get d (bc_user_id c)) = Some (bc_current_balance c)"
proof -
  let ?s = "fold act as s"
  have "balances_ok s" using assms(1,2) by (simp add: balances_ok_def)
  then have ok: "balances_ok ?s" using assms(3) by (rule balances_ok_history)
  then obtain b n where b: "b \<in> set (bs_balances ?s)" "ub_user_id b = bc_user_id c"
      "prev_total_balance b = Inr n" "bc_current_balance c = show_int n"
    using assms(6) by (auto simp: balances_ok_def change_ok_def)
  obtain v where "od_get d (bc_user_id c) = Some v" "show_balance b = Inr v"
    using lookup_row [OF assms(4,5) _ b(1)] ok b(2) assms(7) by (auto simp: balances_ok_def)
  with b show ?thesis by (simp add: shown_total)
qed

section \<open>Users without a row\<close>

text \<open>The indexers do not ask for \<open>u\<close>.\<close>

fun quiet :: "int \<Rightarrow> balance_action \<Rightarrow> bool" where
  "quiet u (Refresh E) \<longleftrightarrow> u \<notin> set (be_meanwhile E)"
| "quiet u (Lookup E user_ids) \<longleftrightarrow> True"
| "quiet u (Request user_ids) \<longleftrightarrow> u \<notin> set user_ids"

definition starving :: "int \<Rightarrow> balance_state \<Rightarrow> bool" where
  "starving u s \<longleftrightarrow> u \<notin> ub_user_id ` set (bs_balances s) \<and> u \<notin> set (so_refresh (bs_sol s)) \<and> u \<in> set (bs_lazy s)"

lemma set_fold_insert [simp]: "set (fold List.insert xs ys) = set xs \<union> set ys"
  by (induction xs arbitrary: ys) auto

lemma refresh_enqueue [simp]:
  "set (so_refresh (snd (enqueue_immediate_balance_refresh ids s))) = set ids \<union> set (so_refresh s)"
  by (simp add: enqueue_immediate_balance_refresh_def py_simps)

lemma lazy_lookup:
  "set (bs_lazy s) \<subseteq> set (bs_lazy (snd (get_balances E ids s)))"
  by (auto simp: get_balances_def enqueue_lazy_balance_refresh_def py_simps Let_def split: sum.split)

lemma lazy_ids_have_rows:
  assumes "order_ok E"
  shows "set (take n (get_lazy_refresh_user_ids E s)) \<subseteq> ub_user_id ` set (bs_balances s)"
  using assms set_take_subset [of n "get_lazy_refresh_user_ids E s"]
  by (auto simp: get_lazy_refresh_user_ids_def order_ok_def balance_rows_def dest!: subsetD)

lemma starving_refresh:
  assumes u: "starving u s" and E: "order_ok E" "u \<notin> set (be_meanwhile E)"
  shows "starving u (snd (refresh_user_ids E s))"
proof (cases rule: refresh_cases [of E s])
  case failed
  with u E show ?thesis by (simp add: starving_def other_requests_def)
next
  case (refreshed lazy_ids user_ids absent m bs chs)
  have lazy: "u \<notin> set lazy_ids"
    using lazy_ids_have_rows [OF E(1), of MAX_LAZY_REFRESH_USER_IDS s] u by (auto simp: refreshed(1) starving_def)
  then have "u \<notin> set user_ids" using u E(1) by (simp add: refreshed(2) order_ok_def starving_def)
  then have "u \<notin> set absent" using E(1) by (simp add: refreshed(3) order_ok_def)
  moreover have "fetched_ok (bs_balances s @ map (new_balance E) absent) (bs, chs)"
    unfolding refreshed(5) by (rule fetched_ok_fold) (simp add: fetched_ok_def od_keys_def)
  then have "set (map ub_user_id bs) = set (map ub_user_id (bs_balances s @ map (new_balance E) absent))"
    by (simp only: fetched_ok_def prod.case)
  ultimately have "u \<notin> ub_user_id ` set bs" using u by (auto simp: starving_def)
  then show ?thesis
    using u E lazy by (simp add: refreshed(6) starving_def remove_requests_def other_requests_def)
qed

lemma starving_act: "starving u s \<Longrightarrow> action_ok a \<Longrightarrow> quiet u a \<Longrightarrow> starving u (act a s)"
proof (cases a)
  case (Refresh E)
  assume "starving u s" and "action_ok a" and "quiet u a"
  then show ?thesis
    using Refresh starving_refresh [of u s E] update_state [of E s] by (auto simp: starving_def)
next
  case (Lookup E ids)
  assume "starving u s"
  then show ?thesis using Lookup lazy_lookup [of s E ids] by (auto simp: starving_def)
qed (simp add: starving_def)

text \<open>C20: A user who has no row in \<open>user_balances\<close> and waits in the lazy set only, as every user does who
  was looked up once, is never refreshed: whatever refreshes and lookups follow, he stays in the set
  and gets no row, as long as no indexer asks for him.\<close>

theorem new_user_starves:
  assumes "u \<notin> ub_user_id ` set (bs_balances s)" and "u \<notin> set (so_refresh (bs_sol s))" and "u \<in> set (bs_lazy s)"
    and "list_all action_ok as" and "list_all (quiet u) as"
  shows "u \<in> set (bs_lazy (fold act as s)) \<and> u \<notin> ub_user_id ` set (bs_balances (fold act as s))"
proof -
  have "starving u (fold act as s)" if "starving u s" for s
    using that assms(4,5) by (induction as arbitrary: s) (auto simp: starving_act)
  then show ?thesis using assms(1-3) by (simp add: starving_def)
qed

section \<open>Served and dropped requests\<close>

lemma find_distinct: "distinct (map ub_user_id bs) \<Longrightarrow> b \<in> set bs \<Longrightarrow> find (\<lambda>r. ub_user_id r = ub_user_id b) bs = Some b"
  by (induction bs) auto

lemma find_in_front: "find P xs = Some x \<Longrightarrow> find P (xs @ ys) = Some x"
  by (induction xs) (auto split: if_splits)

lemma find_put_other:
  "ub_user_id b \<noteq> u \<Longrightarrow> find (\<lambda>r. ub_user_id r = u) (put_balance b bs) = find (\<lambda>r. ub_user_id r = u) bs"
  by (induction bs) (auto simp: put_balance_def)

text \<open>What the loop has for \<open>u\<close>: his row, and the change noted for him.\<close>

definition entry_of :: "int \<Rightarrow> user_balance list \<times> (int, balance_change) odict \<Rightarrow> user_balance option \<times> balance_change option" where
  "entry_of u acc = (find (\<lambda>r. ub_user_id r = u) (fst acc), od_get (snd acc) u)"

lemma fetch_user_cases:
  obtains (kept) "fetch_user E (k, w) (bs, chs) = (bs, chs)"
      "\<And>b. find (\<lambda>b. ub_user_id b = k) bs = Some b \<Longrightarrow> \<exists>x. refresh_user E b w = Inl x"
    | (changed) b b' c where "find (\<lambda>b. ub_user_id b = k) bs = Some b" and "refresh_user E b w = Inr (b', c)"
        and "fetch_user E (k, w) (bs, chs) = (put_balance b' bs, od_set chs k c)"
proof (cases "find (\<lambda>b. ub_user_id b = k) bs")
  case None
  then show thesis by (intro kept) (simp_all add: fetch_user_def)
next
  case (Some b)
  show thesis
  proof (cases "refresh_user E b w")
    case (Inl x)
    with Some show thesis by (intro kept) (simp_all add: fetch_user_def)
  next
    case (Inr bc)
    obtain b' c where "bc = (b', c)" by force
    with Some Inr show thesis by (intro changed) (simp_all add: fetch_user_def)
  qed
qed

lemma fetch_other: "k \<noteq> u \<Longrightarrow> entry_of u (fetch_user E (k, w) acc) = entry_of u acc"
proof -
  assume k: "k \<noteq> u"
  obtain bs chs where acc: "acc = (bs, chs)" by force
  show ?thesis
  proof (cases rule: fetch_user_cases [of E k w bs chs])
    case (changed b b' c)
    have "ub_user_id b' \<noteq> u" using find_user [OF changed(1)] refresh_user_row(1) [OF changed(2)] k by simp
    then show ?thesis using changed(3) k by (simp add: acc entry_of_def find_put_other)
  qed (simp add: acc)
qed

lemma fetch_others: "u \<notin> set (od_keys m) \<Longrightarrow> entry_of u (fold (fetch_user E) m acc) = entry_of u acc"
proof (induction m arbitrary: acc)
  case (Cons kv m)
  obtain k w where kv: "kv = (k, w)" by force
  with Cons.prems have "k \<noteq> u" and "u \<notin> set (od_keys m)" by (auto simp: od_keys_def)
  with Cons.IH fetch_other [OF \<open>k \<noteq> u\<close>] show ?case by (simp add: kv)
qed simp

lemma find_put_this:
  "ub_user_id b' = u \<Longrightarrow> find (\<lambda>r. ub_user_id r = u) bs \<noteq> None \<Longrightarrow> find (\<lambda>r. ub_user_id r = u) (put_balance b' bs) = Some b'"
  by (induction bs) (auto simp: put_balance_def)

lemma fetch_this:
  assumes "entry_of u acc = (Some b, None)"
  shows "entry_of u (fetch_user E (u, w) acc) =
    (case refresh_user E b w of Inl x \<Rightarrow> (Some b, None) | Inr (b', c) \<Rightarrow> (Some b', Some c))"
proof -
  obtain bs chs where acc: "acc = (bs, chs)" by force
  have f: "find (\<lambda>r. ub_user_id r = u) bs = Some b" using assms by (simp add: entry_of_def acc)
  show ?thesis
  proof (cases rule: fetch_user_cases [of E u w bs chs])
    case kept
    then obtain x where "refresh_user E b w = Inl x" using f by blast
    with kept(1) assms show ?thesis by (simp add: acc)
  next
    case (changed b0 b' c)
    have "b0 = b" using changed(1) f by simp
    moreover have "ub_user_id b' = u" using find_user [OF changed(1)] refresh_user_row(1) [OF changed(2)] by simp
    ultimately show ?thesis
      using changed(2) find_put_this [of b' u bs] f by (simp add: acc entry_of_def changed(3))
  qed
qed

lemma fetch_all:
  assumes "distinct (od_keys m)" and "od_get m u = Some w" and "entry_of u acc = (Some b, None)"
  shows "entry_of u (fold (fetch_user E) m acc) =
    (case refresh_user E b w of Inl x \<Rightarrow> (Some b, None) | Inr (b', c) \<Rightarrow> (Some b', Some c))"
  using assms
proof (induction m arbitrary: acc)
  case (Cons kv m)
  obtain k v where kv: "kv = (k, v)" by force
  show ?case
  proof (cases "k = u")
    case True
    then have "v = w" and "u \<notin> set (od_keys m)" using Cons.prems(1,2) by (auto simp: kv od_keys_def)
    then show ?thesis using True fetch_others [of u m E] fetch_this [OF Cons.prems(3), of E w] by (simp add: kv)
  next
    case False
    then have "od_get m u = Some w" "distinct (od_keys m)" "entry_of u (fetch_user E kv acc) = (Some b, None)"
      using Cons.prems fetch_other [OF False] by (auto simp: kv od_keys_def)
    then show ?thesis using Cons.IH by simp
  qed
qed simp

text \<open>The users a refresh is about.\<close>

definition due_ids :: "balance_env \<Rightarrow> balance_state \<Rightarrow> int list" where
  "due_ids E s = be_order E (remdups (take MAX_LAZY_REFRESH_USER_IDS (get_lazy_refresh_user_ids E s) @ so_refresh (bs_sol s)))"

lemma metadata_keys:
  assumes "user_id_metadata s ids = Inr m"
  shows "distinct (od_keys m)"
proof -
  have "fold_res (add_wallet_row banks) rows d = Inr m \<Longrightarrow> distinct (od_keys d) \<Longrightarrow> distinct (od_keys m)" for banks rows d
  proof (induction rows arbitrary: d)
    case (Cons r rows)
    then obtain d' where d': "add_wallet_row banks r d = Inr d'" "fold_res (add_wallet_row banks) rows d' = Inr m"
      by (auto split: sum.splits)
    then have "distinct (od_keys d')"
      using Cons.prems(2) by (auto simp: add_wallet_row_def Let_def bind_res_Inr distinct_od_set split: prod.splits option.splits)
    with d'(2) show ?case by (rule Cons.IH)
  qed simp
  with assms show ?thesis by (auto simp: user_id_metadata_def od_keys_def)
qed

lemma saved_change:
  assumes "od_get chs u = Some c" and "bc_user_id c = u" and "order_ok E"
  shows "c \<in> set (save_changes E chs old)"
proof (cases "u \<in> bc_user_id ` set old")
  case True
  then obtain c0 where "c0 \<in> set old" "bc_user_id c0 = u" by blast
  with assms(1) show ?thesis by (force simp: save_changes_def Let_def od_default_def intro!: image_eqI [of _ _ c0])
next
  case False
  have "u \<in> set (od_keys chs)" using assms(1) od_get_None_iff [of chs u] by force
  with False assms(1,3) have "u \<in> set (be_order E (filter (\<lambda>i. i \<notin> bc_user_id ` set old) (od_keys chs)))"
    by (simp add: order_ok_def)
  with assms(1) show ?thesis by (force simp: save_changes_def Let_def intro!: image_eqI [of _ _ u])
qed

text \<open>
  A request of the indexers is taken from the set whether or not the balances of its user could be
  read: then the row and the change are stored, or the row stays as it was, and nothing asks again.
\<close>

theorem request_outcome:
  assumes r: "refresh_user_ids E s = (Inr (), t)" and ok: "balances_ok s" and E: "order_ok E"
    and b: "b \<in> set (bs_balances s)" and u: "ub_user_id b \<in> set (so_refresh (bs_sol s))"
    and m: "user_id_metadata s (due_ids E s) = Inr m" and w: "od_get m (ub_user_id b) = Some w"
  shows "ub_user_id b \<notin> set (so_refresh (bs_sol t)) \<and>
    (case refresh_user E b w of Inl x \<Rightarrow> b \<in> set (bs_balances t)
     | Inr (b', c) \<Rightarrow> b' \<in> set (bs_balances t) \<and> c \<in> set (bs_changes t))"
proof (cases rule: refresh_cases [of E s])
  case failed
  with r show ?thesis by simp
next
  case (refreshed lazy_ids user_ids absent m' bs chs)
  let ?u = "ub_user_id b" and ?bs0 = "bs_balances s @ map (new_balance E) absent"
  have m': "m' = m" using refreshed(4) m by (simp add: due_ids_def refreshed(1,2))
  have t: "t = remove_requests lazy_ids (so_refresh (bs_sol s))
      ((other_requests E s)\<lparr>bs_balances := bs, bs_changes := save_changes E chs (bs_changes s)\<rparr>)"
    using r refreshed(6) by simp
  have "entry_of ?u (?bs0, []) = (Some b, None)"
    using find_distinct [of "bs_balances s" b] ok b by (simp add: entry_of_def balances_ok_def find_in_front)
  from fetch_all [OF metadata_keys [OF m] w this, of E]
  have e: "entry_of ?u (bs, chs) = (case refresh_user E b w of Inl x \<Rightarrow> (Some b, None) | Inr (b', c) \<Rightarrow> (Some b', Some c))"
    by (simp add: refreshed(5) m')
  have "?u \<notin> set (so_refresh (bs_sol t))" using u by (simp add: t remove_requests_def)
  moreover have "case refresh_user E b w of Inl x \<Rightarrow> b \<in> set (bs_balances t)
     | Inr (b', c) \<Rightarrow> b' \<in> set (bs_balances t) \<and> c \<in> set (bs_changes t)"
  proof (cases "refresh_user E b w")
    case (Inl x)
    with e have "find (\<lambda>r. ub_user_id r = ?u) bs = Some b" by (simp add: entry_of_def)
    from find_user [OF this] show ?thesis by (simp add: t Inl)
  next
    case (Inr bc)
    obtain b' c where bc: "bc = (b', c)" by force
    have "bc_user_id c = ?u" using refresh_user_row(2) Inr bc by blast
    moreover have "find (\<lambda>r. ub_user_id r = ?u) bs = Some b'" and "od_get chs ?u = Some c"
      using e by (simp_all add: entry_of_def Inr bc)
    ultimately have "b' \<in> set bs" and "c \<in> set (save_changes E chs (bs_changes s))"
      using find_user saved_change [OF _ _ E] by blast+
    then show ?thesis by (simp add: t Inr bc)
  qed
  ultimately show ?thesis ..
qed

section \<open>The age of a balance\<close>

text \<open>Nothing changes \<open>updated_at\<close>.\<close>

definition never_updated :: "user_balance list \<Rightarrow> bool" where
  "never_updated balances \<longleftrightarrow> (\<forall>b \<in> set balances. ub_updated_at b = ub_created_at b)"

lemma never_updated_fetch: "never_updated (fst acc) \<Longrightarrow> never_updated (fst (fold (fetch_user E) m acc))"
proof (induction m arbitrary: acc)
  case (Cons kv m)
  obtain k w where kv: "kv = (k, w)" by force
  obtain bs chs where acc: "acc = (bs, chs)" by force
  have "never_updated (fst (fetch_user E (k, w) (bs, chs)))"
  proof (cases rule: fetch_user_cases [of E k w bs chs])
    case kept
    with Cons.prems show ?thesis by (simp add: acc)
  next
    case (changed b b' c)
    have "ub_updated_at b' = ub_created_at b'" and "never_updated bs"
      using Cons.prems refresh_user_row(3,4) [OF changed(2)] find_user [OF changed(1)] by (simp_all add: acc never_updated_def)
    then show ?thesis
      unfolding changed(3) never_updated_def fst_conv using put_balance_mem [of _ b' bs] by blast
  qed
  then show ?case using Cons.IH by (simp add: kv acc)
qed simp

lemma never_updated_refresh: "never_updated (bs_balances s) \<Longrightarrow> never_updated (bs_balances (snd (refresh_user_ids E s)))"
proof (cases rule: refresh_cases [of E s])
  case (refreshed lazy_ids user_ids absent m bs chs)
  assume "never_updated (bs_balances s)"
  then have "never_updated (fst (bs_balances s @ map (new_balance E) absent, []))"
    by (auto simp: never_updated_def new_balance_def)
  from never_updated_fetch [OF this, of E m] show ?thesis
    by (simp add: refreshed(6) refreshed(5) [symmetric])
qed simp

text \<open>So no balance is ever recent enough to be left alone.\<close>

theorem always_stale:
  assumes "bs_balances s = []" and "b \<in> set (bs_balances (fold act as s))"
  shows "does_user_balance_need_refresh E b"
proof -
  have step: "never_updated (bs_balances (act a s))" if "never_updated (bs_balances s)" for a s
  proof (cases a)
    case (Refresh E)
    then show ?thesis using that never_updated_refresh [OF that, of E] update_state [of E s] by auto
  qed (simp_all add: that)
  have "never_updated (bs_balances (fold act as s))" if "never_updated (bs_balances s)" for s
    using that by (induction as arbitrary: s) (simp_all add: step)
  from this [of s] have "never_updated (bs_balances (fold act as s))" using assms(1) by (simp add: never_updated_def)
  then show ?thesis using assms(2) by (simp add: never_updated_def does_user_balance_need_refresh_def)
qed

section \<open>A sample\<close>

text \<open>The first user has a token account without units, an Ethereum wallet and a Solana wallet beside his own.\<close>

definition sample_wallet :: "string \<Rightarrow> string \<Rightarrow> assoc_wallet" where
  "sample_wallet w ch = \<lparr>aw_user_id = 1, aw_wallet = w, aw_chain = ch, aw_is_current = True, aw_is_delete = False,
     aw_blocknumber = PNone, aw_blockhash = PNone\<rparr>"

definition sample_balance_state :: balance_state where
  "sample_balance_state = \<lparr>bs_sol = sample_sol_state\<lparr>so_wallets := [sample_wallet ''0xb'' ''eth'', sample_wallet ''W'' ''sol'']\<rparr>,
     bs_balances = [], bs_changes = [], bs_lazy = [2], bs_completed = None\<rparr>"

definition sample_balance_env :: balance_env where
  "sample_balance_env = \<lparr>be_now = 100, be_db_now = 100, be_order = (\<lambda>xs. xs), be_contracts = Inr (),
     be_checksum = (\<lambda>v. as_str v), be_balance_of = (\<lambda>w. Inr (if w = ''0xa'' then 500 else 70)),
     be_delegated = (\<lambda>w. Inr 3), be_staked = (\<lambda>w. Inr 4),
     be_token = Some (\<lambda>a. if a = ''A'' then Inr (Amount ''0'') else Inr (Rpc_error (Some (-32602)))),
     be_pubkey = Inr, be_derived = Inr, be_block_number = Inr 9, be_meanwhile = [], be_commit = Inr (), be_have_lock = True\<rparr>"

lemma sample_order: "order_ok sample_balance_env"
  by (simp add: order_ok_def sample_balance_env_def)

definition sample_actions :: "balance_action list" where
  "sample_actions = [Request [1], Refresh sample_balance_env, Lookup sample_balance_env [1, 2]]"

definition sample_balance_result :: balance_state where
  "sample_balance_result = fold act sample_actions sample_balance_state"

lemma sample_balances:
  "bs_balances sample_balance_result = [\<lparr>ub_user_id = 1, ub_balance = ''500'', ub_created_at = 100, ub_updated_at = 100,
     ub_associated_wallets_balance = ''77'', ub_waudio = Some ''0'', ub_associated_sol_wallets_balance = ''0''\<rparr>]"
  "bs_changes sample_balance_result = [\<lparr>bc_user_id = 1, bc_blocknumber = 9, bc_current_balance = ''577'',
     bc_previous_balance = ''0''\<rparr>]"
  "bs_lazy sample_balance_result = [1, 2]" "so_refresh (bs_sol sample_balance_result) = []"
  by code_simp+

lemma sample_lookup:
  "map_option sb_total (od_get (the (case fst (get_balances sample_balance_env [1, 2] sample_balance_result) of
     Inl x \<Rightarrow> None | Inr d \<Rightarrow> Some d)) 2) = Some ''0''"
  by code_simp

lemma shown_is_last_change_witness:
  "\<exists>d t. get_balances sample_balance_env [1] (fold act sample_actions sample_balance_state) = (Inr d, t) \<and>
     map_option sb_total (od_get d 1) = Some ''577''"
proof -
  let ?s = "fold act sample_actions sample_balance_state"
  let ?c = "\<lparr>bc_user_id = 1, bc_blocknumber = 9, bc_current_balance = ''577'', bc_previous_balance = ''0''\<rparr>"
  have "\<not> isl (fst (get_balances sample_balance_env [1] ?s))" by code_simp
  then obtain d t where dt: "get_balances sample_balance_env [1] ?s = (Inr d, t)"
    by (metis isl_def obj_sumE surj_pair fst_conv)
  have "?c \<in> set (bs_changes ?s)" using sample_balances(2) by (simp add: sample_balance_result_def)
  then have "map_option sb_total (od_get d (bc_user_id ?c)) = Some (bc_current_balance ?c)"
    by (intro shown_is_last_change [OF _ _ _ dt sample_order])
      (simp_all add: sample_balance_state_def sample_actions_def sample_order)
  with dt show ?thesis by simp
qed

text \<open>The second user was looked up, and no number of refreshes gives him a row.\<close>

lemma new_user_starves_witness:
  "2 \<in> set (bs_lazy (fold act sample_actions sample_balance_state)) \<and>
   2 \<notin> ub_user_id ` set (bs_balances (fold act sample_actions sample_balance_state))"
  by (rule new_user_starves)
    (simp_all add: sample_balance_state_def sample_sol_state_def sample_actions_def sample_order, simp add: sample_balance_env_def)

end
