(* ===== verification/Health.thy ===== *)
theory Health
  imports Solana_Plays Rewards_Manager Chain_Sync
begin

text \<open>
  The health of a node: queries/get_health.py, with queries/get_sol_plays.py, get_sol_user_bank.py,
  get_spl_audio.py, get_sol_rewards_manager.py, get_latest_play.py and get_oldest_unarchived_play.py,
  and the checks of queries/health_check.py.  Datetimes and differences of time are in
  microseconds, drifts in seconds; system figures and the answers of Elasticsearch are parameters.
\<close>

section \<open>State and environment\<close>

record health_state =
  hs_ix :: ix_state
  hs_plays :: plays_state
  hs_lazy :: "int list"
  hs_times :: "string \<Rightarrow> int option"
  hs_jobs :: "string \<Rightarrow> string option"
  hs_legacy_play :: "int option"
  hs_oldest_play :: "int option"

type_synonym 'a hl = "(health_state, 'a) py"

definition on_tables :: "'a so \<Rightarrow> 'a hl" where
  "on_tables m = zoom hs_plays (\<lambda>t s. s\<lparr>hs_plays := t\<rparr>) (on_sol m)"

definition on_index :: "'a ix \<Rightarrow> 'a hl" where
  "on_index m = zoom hs_ix (\<lambda>t s. s\<lparr>hs_ix := t\<rparr>) m"

text \<open>The clock as \<open>time()\<close>, \<open>utcnow()\<close>, \<open>now()\<close> and since the epoch; \<open>he_local\<close> is \<open>timestamp()\<close> of a time in seconds without a time zone, \<open>he_rank\<close> the order of rows of equal slot.\<close>

record health_env =
  he_time :: int
  he_utcnow :: int
  he_now :: int
  he_epoch :: int
  he_local :: "int \<Rightarrow> int"
  he_rank :: "sol_play \<Rightarrow> nat"
  he_row_rank :: "sol_row \<Rightarrow> nat"
  he_spl_created :: int
  he_latest :: "chain_block option"
  he_is_stage :: bool
  he_identity :: identity_answer
  he_default_diff :: int
  he_cpus :: "int option"
  he_memory :: "int option"
  he_filesystem :: "int option"
  he_es :: "(string \<times> int result) list option"

section \<open>Transactions of a program\<close>

record tx_health =
  th_slot_diff :: int
  th_chain :: "cached_tx option"
  th_db :: "cached_tx option"
  th_time_diff :: int

definition seconds :: "int \<Rightarrow> int" where "seconds n = n * 1000000"

definition get_sol_tx_health_info :: "int \<Rightarrow> cached_tx option \<Rightarrow> cached_tx option \<Rightarrow> tx_health" where
  "get_sol_tx_health_info current_time_utc db_cache tx_cache =
     (case (db_cache, tx_cache) of
        (Some db, Some tx) \<Rightarrow> \<lparr>th_slot_diff = cx_slot tx - cx_slot db, th_chain = tx_cache, th_db = db_cache,
           th_time_diff = current_time_utc - seconds (cx_timestamp db)\<rparr>
      | _ \<Rightarrow> \<lparr>th_slot_diff = -1, th_chain = tx_cache, th_db = db_cache, th_time_diff = seconds (-1)\<rparr>)"

definition get_latest_sol_db_tx :: "string \<Rightarrow> cached_tx option hl" where
  "get_latest_sol_db_tx cache_key = on_tables (gets (\<lambda>s. so_latest s cache_key))"

text \<open>\<open>order_by(desc(slot)).first()\<close>\<close>

definition latest_tx_row :: "health_env \<Rightarrow> sol_row list \<Rightarrow> sol_row option" where
  "latest_tx_row E rows = (case sort_key (\<lambda>r. - sr_slot r) (sort_key (he_row_rank E) rows) of [] \<Rightarrow> None | r # _ \<Rightarrow> Some r)"

definition cached_of_row :: "health_env \<Rightarrow> sol_row \<Rightarrow> cached_tx" where
  "cached_of_row E r = \<lparr>cx_signature = sr_signature r, cx_slot = sr_slot r, cx_timestamp = he_local E (sr_created_at r)\<rparr>"

subsection \<open>User banks (get_sol_user_bank.py)\<close>

definition get_latest_sol_user_bank :: "health_env \<Rightarrow> sol_row option hl" where
  "get_latest_sol_user_bank E = on_tables (gets (\<lambda>s. latest_tx_row E (so_bank_txs s)))"

definition get_latest_cached_sol_user_bank_db :: "health_env \<Rightarrow> cached_tx option hl" where
  "get_latest_cached_sol_user_bank_db E =
     bnd (get_latest_sol_db_tx user_bank_db_key) (\<lambda>cached.
     case cached of
       Some tx \<Rightarrow> ret (Some tx)
     | None \<Rightarrow>
         bnd (get_latest_sol_user_bank E) (\<lambda>user_bank.
         case user_bank of
           None \<Rightarrow> ret None
         | Some r \<Rightarrow> sq (on_tables (cache_latest_sol_db_tx user_bank_db_key (cached_of_row E r))) (ret (Some (cached_of_row E r)))))"

definition get_sol_user_bank_health_info :: "health_env \<Rightarrow> tx_health hl" where
  "get_sol_user_bank_health_info E =
     bnd (get_latest_cached_sol_user_bank_db E) (\<lambda>db_cache.
     bnd (get_latest_sol_db_tx user_bank_program_key) (\<lambda>tx_cache.
     ret (get_sol_tx_health_info (he_utcnow E) db_cache tx_cache)))"

subsection \<open>Transfers of the token (get_spl_audio.py)\<close>

definition get_latest_cached_spl_audio_db :: "health_env \<Rightarrow> cached_tx option hl" where
  "get_latest_cached_spl_audio_db E =
     bnd (get_latest_sol_db_tx spl_db_key) (\<lambda>cached.
     case cached of
       Some tx \<Rightarrow> ret (Some tx)
     | None \<Rightarrow>
         bnd (on_tables (gets so_spl)) (\<lambda>rows.
         case rows of
           [] \<Rightarrow> ret None
         | (slot, signature) # _ \<Rightarrow>
             let tx = \<lparr>cx_signature = signature, cx_slot = slot, cx_timestamp = he_local E (he_spl_created E)\<rparr>
             in sq (on_tables (cache_latest_sol_db_tx spl_db_key tx)) (ret (Some tx))))"

definition get_spl_audio_health_info :: "health_env \<Rightarrow> tx_health hl" where
  "get_spl_audio_health_info E =
     bnd (get_latest_cached_spl_audio_db E) (\<lambda>db_cache.
     bnd (get_latest_sol_db_tx spl_program_key) (\<lambda>tx_cache.
     ret (get_sol_tx_health_info (he_utcnow E) db_cache tx_cache)))"

subsection \<open>Rewards (get_sol_rewards_manager.py)\<close>

text \<open>A row fetched from the table is cached, but not returned.\<close>

definition get_latest_cached_sol_rewards_manager_db :: "health_env \<Rightarrow> cached_tx option hl" where
  "get_latest_cached_sol_rewards_manager_db E =
     bnd (get_latest_sol_db_tx rewards_db_key) (\<lambda>latest_sol_rewards_manager_db.
     case latest_sol_rewards_manager_db of
       Some tx \<Rightarrow> ret latest_sol_rewards_manager_db
     | None \<Rightarrow>
         bnd (on_tables (gets (\<lambda>s. latest_tx_row E (so_reward_txs s)))) (\<lambda>rewards_manager_tx.
         sq (case rewards_manager_tx of
               None \<Rightarrow> ret ()
             | Some r \<Rightarrow> on_tables (cache_latest_sol_db_tx rewards_db_key (cached_of_row E r)))
           (ret latest_sol_rewards_manager_db)))"

definition get_sol_rewards_manager_health_info :: "health_env \<Rightarrow> tx_health hl" where
  "get_sol_rewards_manager_health_info E =
     bnd (get_latest_cached_sol_rewards_manager_db E) (\<lambda>db_cache.
     bnd (get_latest_sol_db_tx rewards_program_key) (\<lambda>tx_cache.
     ret (get_sol_tx_health_info (he_utcnow E) db_cache tx_cache)))"

subsection \<open>Listens (get_sol_plays.py)\<close>

definition get_latest_sol_plays :: "health_env \<Rightarrow> int \<Rightarrow> sol_play list hl" where
  "get_latest_sol_plays E limit =
     sq (require (0 \<le> limit) (Raised ''LIMIT must not be negative''))
       (gets (\<lambda>s. take (nat (min limit 100)) (sort_key (\<lambda>p. - the (sp_slot p)) (sort_key (he_rank E)
         (filter (\<lambda>p. sp_slot p \<noteq> None) (pl_plays (hs_plays s)))))))"

text \<open>The signature of a row with a slot is never null.\<close>

definition get_latest_cached_sol_play_db :: "health_env \<Rightarrow> cached_tx option hl" where
  "get_latest_cached_sol_play_db E =
     bnd (get_latest_sol_db_tx plays_db_key) (\<lambda>cached.
     case cached of
       Some tx \<Rightarrow> ret (Some tx)
     | None \<Rightarrow>
         bnd (get_latest_sol_plays E 1) (\<lambda>plays_from_db.
         case plays_from_db of
           [] \<Rightarrow> ret None
         | p # _ \<Rightarrow>
             let tx = \<lparr>cx_signature = the (sp_signature p), cx_slot = the (sp_slot p), cx_timestamp = he_local E (sp_created p)\<rparr>
             in sq (on_tables (cache_latest_sol_db_tx plays_db_key tx)) (ret (Some tx))))"

definition get_sol_play_health_info :: "health_env \<Rightarrow> tx_health hl" where
  "get_sol_play_health_info E =
     bnd (get_latest_cached_sol_play_db E) (\<lambda>latest_sol_play_db.
     bnd (get_latest_sol_db_tx plays_program_key) (\<lambda>latest_sol_play_program_tx.
     ret (case (latest_sol_play_db, latest_sol_play_program_tx) of
            (Some db, Some tx) \<Rightarrow> \<lparr>th_slot_diff = cx_slot tx - cx_slot db, th_chain = latest_sol_play_program_tx,
               th_db = latest_sol_play_db, th_time_diff = he_utcnow E - seconds (cx_timestamp db)\<rparr>
          | _ \<Rightarrow> \<lparr>th_slot_diff = -1, th_chain = latest_sol_play_program_tx, th_db = latest_sol_play_db,
               th_time_diff = seconds (-1)\<rparr>)))"

definition get_latest_play :: "health_state \<Rightarrow> int option" where
  "get_latest_play s = (case map sp_created (pl_plays (hs_plays s)) of [] \<Rightarrow> None | t # ts \<Rightarrow> Some (seconds (fold max ts t)))"

definition get_oldest_unarchived_play :: "health_state \<Rightarrow> int option" where
  "get_oldest_unarchived_play s =
     (case map sp_created (pl_plays (hs_plays s)) of [] \<Rightarrow> None | t # ts \<Rightarrow> Some (seconds (fold min ts t)))"

section \<open>The parts of the health\<close>

record sol_health =
  sh_unhealthy :: bool
  sh_info :: tx_health
  sh_time_diff :: int

text \<open>\<open>bool(max_drift and max_drift < time_diff)\<close>; a drift of 0 counts as none.\<close>

definition drifted :: "int option \<Rightarrow> int \<Rightarrow> bool" where
  "drifted max_drift time_diff \<longleftrightarrow> (case max_drift of None \<Rightarrow> False | Some d \<Rightarrow> d \<noteq> 0 \<and> seconds d < time_diff)"

definition sol_health_of :: "int option \<Rightarrow> tx_health \<Rightarrow> sol_health" where
  "sol_health_of max_drift info = \<lparr>sh_unhealthy = drifted max_drift (th_time_diff info), sh_info = info, sh_time_diff = th_time_diff info\<rparr>"

definition get_user_bank_health_info :: "health_env \<Rightarrow> int option \<Rightarrow> sol_health hl" where
  "get_user_bank_health_info E max_drift = bnd (get_sol_user_bank_health_info E) (\<lambda>info. ret (sol_health_of max_drift info))"

definition get_spl_audio_info :: "health_env \<Rightarrow> int option \<Rightarrow> sol_health hl" where
  "get_spl_audio_info E max_drift = bnd (get_spl_audio_health_info E) (\<lambda>info. ret (sol_health_of max_drift info))"

definition get_rewards_manager_health_info :: "health_env \<Rightarrow> int option \<Rightarrow> sol_health hl" where
  "get_rewards_manager_health_info E max_drift =
     bnd (get_sol_rewards_manager_health_info E) (\<lambda>info. ret (sol_health_of max_drift info))"

text \<open>The two keys have no expiration time.\<close>

definition latest_legacy_play :: "health_env \<Rightarrow> int option hl" where
  "latest_legacy_play E =
     bnd (gets hs_legacy_play) (\<lambda>cached.
     case cached of
       Some t \<Rightarrow> ret (Some t)
     | None \<Rightarrow> bnd (gets get_latest_play) (\<lambda>latest_db_play.
         case latest_db_play of
           None \<Rightarrow> ret None
         | Some t \<Rightarrow> sq (modify (\<lambda>s. s\<lparr>hs_legacy_play := Some (seconds (he_local E (t div 1000000)))\<rparr>)) (ret (Some t))))"

definition oldest_play :: "health_env \<Rightarrow> int option hl" where
  "oldest_play E =
     bnd (gets hs_oldest_play) (\<lambda>cached.
     case cached of
       Some t \<Rightarrow> ret (Some t)
     | None \<Rightarrow> bnd (gets get_oldest_unarchived_play) (\<lambda>oldest_unarchived_play.
         case oldest_unarchived_play of
           None \<Rightarrow> ret None
         | Some t \<Rightarrow> sq (modify (\<lambda>s. s\<lparr>hs_oldest_play := Some (seconds (he_local E (t div 1000000)))\<rparr>)) (ret (Some t))))"

record play_health =
  ph_unhealthy :: bool
  ph_info :: tx_health
  ph_time_diff :: int
  ph_oldest :: "int option"

text \<open>The variable \<open>oldest_unarchived_play\<close> is set in one branch and read after both.\<close>

definition get_play_health_info :: "health_env \<Rightarrow> int option \<Rightarrow> play_health hl" where
  "get_play_health_info E plays_count_max_drift =
     bnd (get_sol_play_health_info E) (\<lambda>sol_play_info.
     let is_unhealthy_sol_plays = drifted plays_count_max_drift (th_time_diff sol_play_info)
     in if is_unhealthy_sol_plays \<or> plays_count_max_drift = None \<or> plays_count_max_drift = Some 0
        then bnd (latest_legacy_play E) (\<lambda>latest_db_play.
             bnd (oldest_play E) (\<lambda>oldest_unarchived_play.
             let time_diff_general = (case latest_db_play of None \<Rightarrow> th_time_diff sol_play_info | Some t \<Rightarrow> he_utcnow E - t)
             in ret \<lparr>ph_unhealthy = is_unhealthy_sol_plays \<and> drifted plays_count_max_drift time_diff_general,
                  ph_info = sol_play_info, ph_time_diff = time_diff_general, ph_oldest = oldest_unarchived_play\<rparr>))
        else raise (Raised ''UnboundLocalError''))"

record reaction_health =
  rh_indexing_delta :: "int option"
  rh_reaction_delta :: "int option"
  rh_unhealthy :: bool

definition reactions_index_key :: string where "reactions_index_key = ''reactions_last_index_time''"
definition reactions_new_key :: string where "reactions_new_key = ''reactions_last_new_reaction_time''"

text \<open>A time that is 0 counts as absent, and so does a difference of 0.\<close>

definition since :: "health_env \<Rightarrow> int option \<Rightarrow> int option" where
  "since E last_time = (case last_time of None \<Rightarrow> None | Some t \<Rightarrow> if t = 0 then None else Some (he_epoch E - seconds t))"

definition exceeds :: "int option \<Rightarrow> int option \<Rightarrow> bool" where
  "exceeds delta max_drift \<longleftrightarrow> (case (delta, max_drift) of (Some x, Some d) \<Rightarrow> x \<noteq> 0 \<and> d \<noteq> 0 \<and> x > seconds d | _ \<Rightarrow> False)"

definition get_reactions_health_info :: "health_env \<Rightarrow> int option \<Rightarrow> int option \<Rightarrow> reaction_health hl" where
  "get_reactions_health_info E max_indexing_drift max_reaction_drift =
     gets (\<lambda>s. let indexing_delta = since E (hs_times s reactions_index_key);
                   reaction_delta = since E (hs_times s reactions_new_key)
       in \<lparr>rh_indexing_delta = indexing_delta, rh_reaction_delta = reaction_delta,
           rh_unhealthy = exceeds indexing_delta max_indexing_drift \<or> exceeds reaction_delta max_reaction_drift\<rparr>)"

definition get_elapsed_time_redis :: "health_env \<Rightarrow> string \<Rightarrow> int option hl" where
  "get_elapsed_time_redis E redis_key = gets (\<lambda>s. map_option (\<lambda>last_seen. he_time E - last_seen) (hs_times s redis_key))"

definition get_elasticsearch_health_info :: "(string \<times> int result) list \<Rightarrow> int \<Rightarrow> (string \<times> int \<times> int) list" where
  "get_elasticsearch_health_info answers latest_indexed_block_num =
     List.map_filter (\<lambda>(index_name, r). case r of Inl x \<Rightarrow> None
       | Inr blocknumber \<Rightarrow> Some (index_name, blocknumber, latest_indexed_block_num - blocknumber)) answers"

section \<open>Blocks\<close>

text \<open>Both keys expire together; a failed request is logged.\<close>

definition get_latest_chain_block_set_if_nx :: "health_env \<Rightarrow> (int \<times> string) option hl" where
  "get_latest_chain_block_set_if_nx E =
     bnd (on_index (gets ix_tip)) (\<lambda>stored.
     case stored of
       Some tip \<Rightarrow> ret (Some tip)
     | None \<Rightarrow> (case he_latest E of
           None \<Rightarrow> ret None
         | Some b \<Rightarrow> sq (on_index (modify (\<lambda>s. s\<lparr>ix_tip := Some (cb_number b, cb_hash b)\<rparr>)))
             (ret (Some (cb_number b, cb_hash b)))))"

definition get_db_block_state :: "block_row hl" where
  "get_db_block_state =
     bnd (on_index (gets (\<lambda>s. filter bk_current (ix_blocks s)))) (\<lambda>db_block_query.
     case db_block_query of [b] \<Rightarrow> ret b | _ \<Rightarrow> raise (Raised ''Expected SINGLE row marked as current''))"

definition latest_block :: "health_env \<Rightarrow> bool \<Rightarrow> (int \<times> string) option hl" where
  "latest_block E use_redis_cache =
     (if use_redis_cache then get_latest_chain_block_set_if_nx E
      else ret (map_option (\<lambda>b. (cb_number b, cb_hash b)) (he_latest E)))"

definition latest_indexed_block :: "bool \<Rightarrow> (int \<times> string) hl" where
  "latest_indexed_block use_redis_cache =
     bnd (on_index (gets ix_last)) (\<lambda>cached.
     case (use_redis_cache, cached) of
       (True, Some b) \<Rightarrow> ret b
     | _ \<Rightarrow> bnd get_db_block_state (\<lambda>b. ret (case bk_number b of None \<Rightarrow> 0 | Some n \<Rightarrow> n, bk_hash b)))"

text \<open>The numbers of the new chain start again behind the last block of the old one.\<close>

definition block_difference :: "int \<Rightarrow> int option \<Rightarrow> int option \<Rightarrow> int \<Rightarrow> int" where
  "block_difference default_healthy_block_diff final_poa_block latest_block_num latest_indexed_block_num =
     (case latest_block_num of
        None \<Rightarrow> default_healthy_block_diff + 1
      | Some n \<Rightarrow>
          let n' = (case final_poa_block of None \<Rightarrow> n | Some final \<Rightarrow> if final \<noteq> 0 \<and> n < final then n + final else n)
          in \<bar>n' - latest_indexed_block_num\<bar>)"

section \<open>Health\<close>

record health_args =
  ga_verbose :: bool
  ga_healthy_block_diff :: "int option"
  ga_enforce_block_diff :: bool
  ga_challenge_events_age_max_drift :: "int option"
  ga_plays_count_max_drift :: "int option"
  ga_reactions_max_indexing_drift :: "int option"
  ga_reactions_max_last_reaction_drift :: "int option"

record health_results =
  hr_web :: "(int \<times> string) option"
  hr_db :: "int \<times> string"
  hr_trending_tracks_age :: "int option"
  hr_trending_playlists_age :: "int option"
  hr_challenge_age :: "int option"
  hr_balances_age :: "int option"
  hr_lazy_queue :: nat
  hr_immediate_queue :: nat
  hr_last_scanned_block :: "int option"
  hr_job_start :: "string option"
  hr_job_end :: "string option"
  hr_index_eth_age :: "int option"
  hr_plays :: play_health
  hr_rewards_manager :: sol_health
  hr_user_bank :: sol_health
  hr_spl_audio :: sol_health
  hr_reactions :: reaction_health
  hr_final_poa_block :: "int option"
  hr_block_difference :: int
  hr_maximum_healthy_block_difference :: int
  hr_meets_min_requirements :: bool
  hr_elasticsearch :: "(string \<times> int \<times> int) list option"

definition min_number_of_cpus :: int where "min_number_of_cpus = 8"
definition min_total_memory :: int where "min_total_memory = 15500000000"
definition min_filesystem_size :: int where "min_filesystem_size = 240000000000"

definition or_zero :: "int option \<Rightarrow> int" where "or_zero v = (case v of None \<Rightarrow> 0 | Some n \<Rightarrow> n)"

definition meets_min_requirements :: "health_env \<Rightarrow> bool" where
  "meets_min_requirements E \<longleftrightarrow> \<not> (or_zero (he_cpus E) < min_number_of_cpus \<or> or_zero (he_memory E) < min_total_memory \<or>
     or_zero (he_filesystem E) < min_filesystem_size)"

definition trending_tracks_key :: string where "trending_tracks_key = ''trending:tracks:last-completion''"
definition trending_playlists_key :: string where "trending_playlists_key = ''trending-playlists:last-completion''"
definition challenges_event_key :: string where "challenges_event_key = ''challenges:last-processed-event''"
definition balances_completion_key :: string where "balances_completion_key = ''user_balances:last-completion''"
definition index_eth_completion_key :: string where "index_eth_completion_key = ''index_eth:last-completion''"
definition eth_last_scanned_key :: string where "eth_last_scanned_key = ''eth_indexing_last_scanned_block_2''"
definition track_available_start_key :: string where "track_available_start_key = ''update_track_is_available:start''"
definition track_available_finish_key :: string where "track_available_finish_key = ''update_track_is_available:finish''"

definition healthy_block_diff :: "health_env \<Rightarrow> health_args \<Rightarrow> int" where
  "healthy_block_diff E a =
     (case ga_healthy_block_diff a of None \<Rightarrow> he_default_diff E | Some d \<Rightarrow> if 0 \<le> d then d else he_default_diff E)"

text \<open>The challenge drift and age count as absent when they are 0; both are in seconds.\<close>

definition unhealthy_challenges :: "health_args \<Rightarrow> int option \<Rightarrow> bool" where
  "unhealthy_challenges a age \<longleftrightarrow>
     (case (ga_challenge_events_age_max_drift a, age) of (Some d, Some x) \<Rightarrow> d \<noteq> 0 \<and> x \<noteq> 0 \<and> x > d | _ \<Rightarrow> False)"

definition get_health :: "health_env \<Rightarrow> health_args \<Rightarrow> bool \<Rightarrow> (health_results \<times> bool) hl" where
  "get_health E a use_redis_cache =
     bnd (latest_block E use_redis_cache) (\<lambda>latest.
     bnd (latest_indexed_block use_redis_cache) (\<lambda>(latest_indexed_block_num, latest_indexed_block_hash).
     bnd (get_play_health_info E (ga_plays_count_max_drift a)) (\<lambda>play_health_info.
     bnd (get_rewards_manager_health_info E None) (\<lambda>rewards_manager_health_info.
     bnd (get_user_bank_health_info E None) (\<lambda>user_bank_health_info.
     bnd (get_spl_audio_info E None) (\<lambda>spl_audio_info.
     bnd (get_reactions_health_info E (ga_reactions_max_indexing_drift a) (ga_reactions_max_last_reaction_drift a)) (\<lambda>reactions_health_info.
     bnd (get_elapsed_time_redis E trending_tracks_key) (\<lambda>trending_tracks_age_sec.
     bnd (get_elapsed_time_redis E trending_playlists_key) (\<lambda>trending_playlists_age_sec.
     bnd (get_elapsed_time_redis E challenges_event_key) (\<lambda>challenge_events_age_sec.
     bnd (get_elapsed_time_redis E balances_completion_key) (\<lambda>user_balances_age_sec.
     bnd (get_elapsed_time_redis E index_eth_completion_key) (\<lambda>index_eth_age_sec.
     bnd (on_index (get_final_poa_block (he_is_stage E) (he_identity E))) (\<lambda>final_poa_block.
     bnd (gets (\<lambda>s. s)) (\<lambda>s.
     let difference = block_difference (he_default_diff E) final_poa_block (map_option fst latest) latest_indexed_block_num;
         health = \<lparr>hr_web = latest, hr_db = (latest_indexed_block_num, latest_indexed_block_hash),
           hr_trending_tracks_age = trending_tracks_age_sec, hr_trending_playlists_age = trending_playlists_age_sec,
           hr_challenge_age = challenge_events_age_sec, hr_balances_age = user_balances_age_sec,
           hr_lazy_queue = length (hs_lazy s), hr_immediate_queue = length (so_refresh (pl_sol (hs_plays s))),
           hr_last_scanned_block = hs_times s eth_last_scanned_key,
           hr_job_start = hs_jobs s track_available_start_key, hr_job_end = hs_jobs s track_available_finish_key,
           hr_index_eth_age = index_eth_age_sec, hr_plays = play_health_info,
           hr_rewards_manager = rewards_manager_health_info, hr_user_bank = user_bank_health_info,
           hr_spl_audio = spl_audio_info, hr_reactions = reactions_health_info, hr_final_poa_block = final_poa_block,
           hr_block_difference = difference, hr_maximum_healthy_block_difference = he_default_diff E,
           hr_meets_min_requirements = meets_min_requirements E,
           hr_elasticsearch = (if ga_verbose a then map_option (\<lambda>es. get_elasticsearch_health_info es latest_indexed_block_num) (he_es E)
             else None)\<rparr>;
         unhealthy_blocks = (ga_enforce_block_diff a \<and> difference > healthy_block_diff E a);
         is_unhealthy = (unhealthy_blocks \<or> unhealthy_challenges a challenge_events_age_sec \<or>
           ph_unhealthy play_health_info \<or> rh_unhealthy reactions_health_info)
     in ret (health, is_unhealthy)))))))))))))))"

section \<open>Checks (health_check.py)\<close>

text \<open>The status of the answer; the arguments are those of the request.\<close>

definition status_of :: "bool \<Rightarrow> int" where "status_of error = (if error then 500 else 200)"

definition health_check :: "health_env \<Rightarrow> health_args \<Rightarrow> (health_results \<times> int) hl" where
  "health_check E a = bnd (get_health E a True) (\<lambda>(health_results, error). ret (health_results, status_of error))"

definition block_check :: "health_env \<Rightarrow> bool \<Rightarrow> int option \<Rightarrow> (health_results \<times> int) hl" where
  "block_check E verbose diff =
     bnd (get_health E \<lparr>ga_verbose = verbose, ga_healthy_block_diff = diff, ga_enforce_block_diff = True,
       ga_challenge_events_age_max_drift = None, ga_plays_count_max_drift = None,
       ga_reactions_max_indexing_drift = None, ga_reactions_max_last_reaction_drift = None\<rparr> False)
       (\<lambda>(health_results, error). ret (health_results, status_of error))"

text \<open>With no play at all the subtraction raises.\<close>

definition play_check :: "health_env \<Rightarrow> int option \<Rightarrow> (int \<times> int) hl" where
  "play_check E max_drift =
     bnd (gets get_latest_play) (\<lambda>latest_play.
     case latest_play of
       None \<Rightarrow> raise TypeError
     | Some t \<Rightarrow> ret (t, status_of (drifted max_drift (he_now E - t))))"

definition get_latest_sol_play_check_info ::
    "health_env \<Rightarrow> int \<Rightarrow> (cached_tx option \<times> cached_tx option \<times> sol_play list) hl" where
  "get_latest_sol_play_check_info E limit =
     bnd (get_latest_sol_db_tx plays_program_key) (\<lambda>latest_chain_tx.
     bnd (get_latest_sol_db_tx plays_db_key) (\<lambda>latest_db_tx.
     bnd (get_latest_sol_plays E limit) (\<lambda>latest_db_sol_plays.
     ret (latest_chain_tx, latest_db_tx, latest_db_sol_plays))))"

definition sol_play_check ::
    "health_env \<Rightarrow> int \<Rightarrow> int option \<Rightarrow> ((cached_tx option \<times> cached_tx option \<times> sol_play list) \<times> int) hl" where
  "sol_play_check E limit max_drift =
     bnd (get_latest_sol_play_check_info E limit) (\<lambda>response.
     case snd (snd response) of
       [] \<Rightarrow> ret (response, 200)
     | p # _ \<Rightarrow> ret (response, status_of (drifted max_drift (he_now E - seconds (sp_created p)))))"

end
