(* ===== verification/Health_Properties.thy ===== *)
theory Health_Properties
  imports Health Indexer_Properties Plays_Properties
begin

text \<open>
  What a health check does and says: it changes caches only; the distance to the chain is exact as
  long as the new chain is shorter than the old one was; and the checks that need a reading they
  cannot have say so, raise, or keep the first reading for good.
\<close>

section \<open>A check changes caches only\<close>

text \<open>The tables, with the cached readings erased.\<close>

definition tables_of :: "health_state \<Rightarrow> ix_state \<times> plays_state" where
  "tables_of s = ((hs_ix s)\<lparr>ix_tip := None, ix_poa := None\<rparr>,
     (hs_plays s)\<lparr>pl_sol := (pl_sol (hs_plays s))\<lparr>so_latest := Map.empty\<rparr>\<rparr>)"

lemma keeps_on_tables:
  assumes "\<And>s. (snd (m s))\<lparr>so_latest := Map.empty\<rparr> = s\<lparr>so_latest := Map.empty\<rparr>"
  shows "keeps (\<lambda>s. tables_of s = T) (on_tables m)"
proof (rule keepsI)
  fix s :: health_state
  assume s: "tables_of s = T"
  obtain r u where m: "m (pl_sol (hs_plays s)) = (r, u)" by force
  then have "u\<lparr>so_latest := Map.empty\<rparr> = (pl_sol (hs_plays s))\<lparr>so_latest := Map.empty\<rparr>"
    using assms [of "pl_sol (hs_plays s)"] by simp
  with s show "tables_of (snd (on_tables m s)) = T"
    by (simp add: on_tables_def on_sol_def zoom_def m tables_of_def)
qed

lemma keeps_on_index:
  assumes "\<And>s. (snd (m s))\<lparr>ix_tip := None, ix_poa := None\<rparr> = s\<lparr>ix_tip := None, ix_poa := None\<rparr>"
  shows "keeps (\<lambda>s. tables_of s = T) (on_index m)"
proof (rule keepsI)
  fix s :: health_state
  assume s: "tables_of s = T"
  obtain r u where m: "m (hs_ix s) = (r, u)" by force
  then have "u\<lparr>ix_tip := None, ix_poa := None\<rparr> = (hs_ix s)\<lparr>ix_tip := None, ix_poa := None\<rparr>"
    using assms [of "hs_ix s"] by simp
  with s show "tables_of (snd (on_index m s)) = T"
    by (simp add: on_index_def zoom_def m tables_of_def)
qed

lemma keeps_reads [keeps_rules]:
  "keeps (\<lambda>s. tables_of s = T) (on_tables (gets f))"
  "keeps (\<lambda>s. tables_of s = T) (on_index (gets g))"
  "keeps (\<lambda>s. tables_of s = T) (on_tables (cache_latest_sol_db_tx key tx))"
  "keeps (\<lambda>s. tables_of s = T) (on_index (modify (\<lambda>s. s\<lparr>ix_tip := x\<rparr>)))"
  by (rule keeps_on_tables keeps_on_index, simp add: gets_def cache_latest_sol_db_tx_def modify_def)+

lemma keeps_modify_caches [keeps_rules]:
  "keeps (\<lambda>s. tables_of s = T) (modify (\<lambda>s. s\<lparr>hs_legacy_play := x\<rparr>))"
  "keeps (\<lambda>s. tables_of s = T) (modify (\<lambda>s. s\<lparr>hs_oldest_play := x\<rparr>))"
  by (auto intro!: keeps_modify simp: tables_of_def)

lemma keeps_final_poa [keeps_rules]: "keeps (\<lambda>s. tables_of s = T) (on_index (get_final_poa_block b i))"
  by (rule keeps_on_index)
    (auto simp: get_final_poa_block_def py_simps split: option.split identity_answer.split)

text \<open>Reading the health of a node leaves its tables alone.\<close>

lemma tables_unchanged: "keeps (\<lambda>s. tables_of s = T) (get_health E a c)"
  unfolding get_health_def latest_block_def get_latest_chain_block_set_if_nx_def latest_indexed_block_def get_db_block_state_def
    get_play_health_info_def get_sol_play_health_info_def get_latest_cached_sol_play_db_def get_latest_sol_plays_def
    latest_legacy_play_def oldest_play_def get_rewards_manager_health_info_def get_sol_rewards_manager_health_info_def
    get_latest_cached_sol_rewards_manager_db_def get_user_bank_health_info_def get_sol_user_bank_health_info_def
    get_latest_cached_sol_user_bank_db_def get_latest_sol_user_bank_def get_spl_audio_info_def get_spl_audio_health_info_def
    get_latest_cached_spl_audio_db_def get_reactions_health_info_def get_elapsed_time_redis_def get_latest_sol_db_tx_def Let_def
  by (intro keeps_rules | split option.split list.split prod.split bool.split | intro conjI impI allI)+

section \<open>Through a check\<close>

text \<open>The parts of a check whose answers do not decide its verdict.\<close>

definition parts_keep :: "(health_state \<Rightarrow> bool) \<Rightarrow> health_env \<Rightarrow> health_args \<Rightarrow> bool" where
  "parts_keep I E a \<longleftrightarrow> keeps I (get_rewards_manager_health_info E None) \<and> keeps I (get_user_bank_health_info E None) \<and>
     keeps I (get_spl_audio_info E None)"

definition verdict :: "health_env \<Rightarrow> health_args \<Rightarrow> health_results \<Rightarrow> bool" where
  "verdict E a h \<longleftrightarrow> ga_enforce_block_diff a \<and> hr_block_difference h > healthy_block_diff E a \<or>
     unhealthy_challenges a (hr_challenge_age h) \<or> ph_unhealthy (hr_plays h) \<or> rh_unhealthy (hr_reactions h)"

lemma keeps_pure_reads:
  "keeps I (get_reactions_health_info E x y)" "keeps I (get_elapsed_time_redis E k)"
  by (simp_all add: get_reactions_health_info_def get_elapsed_time_redis_def keeps_gets)

lemma gives_health:
  assumes "gives I (latest_block E c) L" and "gives I (latest_indexed_block c) D"
    and "gives I (get_play_health_info E (ga_plays_count_max_drift a)) P"
    and "gives I (on_index (get_final_poa_block (he_is_stage E) (he_identity E))) F" and parts: "parts_keep I E a"
  shows "gives I (get_health E a c) (\<lambda>(h, u). L (hr_web h) \<and> D (hr_db h) \<and> P (hr_plays h) \<and> F (hr_final_poa_block h) \<and>
    hr_block_difference h = block_difference (he_default_diff E) (hr_final_poa_block h) (map_option fst (hr_web h)) (fst (hr_db h)) \<and>
    (u \<longleftrightarrow> verdict E a h))"
  unfolding get_health_def
  apply (rule gives_bnd [OF assms(1)])
  apply (rule gives_bnd [OF assms(2)])
  apply (simp only: split_beta)
  apply (rule gives_bnd [OF assms(3)])
  apply (rule gives_bnd, rule keeps_gives, use parts in \<open>simp add: parts_keep_def\<close>)
  apply (rule gives_bnd, rule keeps_gives, use parts in \<open>simp add: parts_keep_def\<close>)
  apply (rule gives_bnd, rule keeps_gives, use parts in \<open>simp add: parts_keep_def\<close>)
  apply (rule gives_bnd, rule keeps_gives, rule keeps_pure_reads)+
  apply (rule gives_bnd [OF assms(4)])
  apply (rule gives_bnd, rule keeps_gives, rule keeps_gets)
  apply (simp add: Let_def gives_ret verdict_def)
  done

lemma keeps_ix_tables [keeps_rules]: "keeps (\<lambda>s. hs_ix s = i) (on_tables m)"
  by (simp add: on_tables_def keeps_zoom_frame)

lemma keeps_ix_caches [keeps_rules]:
  "keeps (\<lambda>s. hs_ix s = i) (modify (\<lambda>s. s\<lparr>hs_legacy_play := x\<rparr>))"
  "keeps (\<lambda>s. hs_ix s = i) (modify (\<lambda>s. s\<lparr>hs_oldest_play := x\<rparr>))"
  by (auto intro!: keeps_modify)

lemmas tx_health_defs = get_rewards_manager_health_info_def get_sol_rewards_manager_health_info_def
  get_latest_cached_sol_rewards_manager_db_def get_user_bank_health_info_def get_sol_user_bank_health_info_def
  get_latest_cached_sol_user_bank_db_def get_latest_sol_user_bank_def get_spl_audio_info_def get_spl_audio_health_info_def
  get_latest_cached_spl_audio_db_def get_latest_sol_db_tx_def

lemma parts_keep_ix: "parts_keep (\<lambda>s. hs_ix s = i) E a"
  unfolding parts_keep_def tx_health_defs Let_def
  by (intro conjI; (intro keeps_rules | split option.split list.split prod.split | intro conjI impI allI)+)

lemma plays_keep_ix: "keeps (\<lambda>s. hs_ix s = i) (get_play_health_info E d)"
  unfolding get_play_health_info_def get_sol_play_health_info_def get_latest_cached_sol_play_db_def get_latest_sol_plays_def
    get_latest_sol_db_tx_def latest_legacy_play_def oldest_play_def Let_def
  by (intro keeps_rules | split option.split list.split prod.split | intro conjI impI allI)+

section \<open>The distance to the chain\<close>

text \<open>C21: A node on the new chain has indexed the block the chain calls \<open>n\<close>, and the chain is at \<open>m\<close>: the
  check reports \<open>m - n\<close> as long as the new chain is shorter than the old one, which ended at \<open>F\<close>; from
  then on it reports a distance that is wrong by \<open>F\<close>, and a node that has everything is \<open>F\<close> blocks behind.\<close>

theorem block_difference_exact:
  assumes run: "get_health E a True s = (Inr (h, u), t)"
    and "he_is_stage E" and "ix_poa (hs_ix s) = Some F" and "0 < F"
    and "ix_last (hs_ix s) = Some (n + F, last_hash)" and "ix_tip (hs_ix s) = Some (m, tip_hash)" and "n \<le> m"
  shows "hr_block_difference h = (if m < F then m - n else \<bar>m - n - F\<bar>) \<and>
    (ga_enforce_block_diff a \<and> healthy_block_diff E a < hr_block_difference h \<longrightarrow> u)"
proof -
  define I :: "health_state \<Rightarrow> bool" where "I = (\<lambda>x. hs_ix x = hs_ix s)"
  have "gives I (latest_block E True) (\<lambda>r. r = Some (m, tip_hash))"
    using assms(6) by (simp add: latest_block_def get_latest_chain_block_set_if_nx_def on_index_def zoom_def py_simps gives_def I_def)
  moreover have "gives I (latest_indexed_block True) (\<lambda>r. r = (n + F, last_hash))"
    using assms(5) by (simp add: latest_indexed_block_def on_index_def zoom_def py_simps gives_def I_def)
  moreover have "gives I (get_play_health_info E (ga_plays_count_max_drift a)) (\<lambda>_. True)"
    unfolding I_def by (rule keeps_gives, rule plays_keep_ix)
  moreover have "gives I (on_index (get_final_poa_block (he_is_stage E) (he_identity E))) (\<lambda>r. r = Some F)"
    using assms(2,3) by (simp add: get_final_poa_block_def on_index_def zoom_def py_simps gives_def I_def)
  moreover have "parts_keep I E a" unfolding I_def by (rule parts_keep_ix)
  ultimately have "gives I (get_health E a True) (\<lambda>(h, u). hr_web h = Some (m, tip_hash) \<and> hr_db h = (n + F, last_hash) \<and>
      True \<and> hr_final_poa_block h = Some F \<and>
      hr_block_difference h = block_difference (he_default_diff E) (hr_final_poa_block h) (map_option fst (hr_web h)) (fst (hr_db h)) \<and>
      (u \<longleftrightarrow> verdict E a h))"
    by (rule gives_health)
  then have h: "hr_block_difference h = block_difference (he_default_diff E) (Some F) (Some m) (n + F)" and u: "u \<longleftrightarrow> verdict E a h"
    using run by (auto simp: gives_def I_def dest!: spec [of _ s])
  from h have "hr_block_difference h = (if m < F then m - n else \<bar>m - n - F\<bar>)"
    using assms(4,7) by (cases "m < F") (simp_all add: block_difference_def Let_def algebra_simps)
  with u show ?thesis by (simp add: verdict_def)
qed

text \<open>Without a reading of the chain the distance is one more than the configured limit: a limit in the request that is larger hides it.\<close>

theorem chain_unreachable:
  assumes run: "get_health E a True s = (Inr (h, u), t)" and "ix_tip (hs_ix s) = None" and "he_latest E = None"
    and "ga_enforce_block_diff a" and "ga_healthy_block_diff a = None \<or> ga_healthy_block_diff a = Some d \<and> d \<le> he_default_diff E"
  shows "u"
proof -
  have "gives (\<lambda>s. ix_tip (hs_ix s) = None) (latest_block E True) (\<lambda>r. r = None)"
    using assms(3) by (simp add: latest_block_def get_latest_chain_block_set_if_nx_def on_index_def zoom_def py_simps gives_def)
  moreover have "parts_keep (\<lambda>s. ix_tip (hs_ix s) = None) E a"
    using parts_keep_ix [of _ E a] by (simp add: parts_keep_def keeps_def)
  moreover have "keeps (\<lambda>s. ix_tip (hs_ix s) = None) (get_play_health_info E (ga_plays_count_max_drift a))"
    using plays_keep_ix [of _ E] by (simp add: keeps_def)
  moreover have "keeps (\<lambda>s. ix_tip (hs_ix s) = None) (latest_indexed_block True)"
    by (auto simp: latest_indexed_block_def get_db_block_state_def on_index_def zoom_def py_simps keeps_def split: option.split list.split)
  moreover have "keeps (\<lambda>s. ix_tip (hs_ix s) = None) (on_index (get_final_poa_block (he_is_stage E) (he_identity E)))"
    by (auto simp: get_final_poa_block_def on_index_def zoom_def py_simps keeps_def split: option.split identity_answer.split)
  ultimately have "gives (\<lambda>s. ix_tip (hs_ix s) = None) (get_health E a True) (\<lambda>(h, u). hr_web h = None \<and> True \<and> True \<and> True \<and>
      hr_block_difference h = block_difference (he_default_diff E) (hr_final_poa_block h) (map_option fst (hr_web h)) (fst (hr_db h)) \<and>
      (u \<longleftrightarrow> verdict E a h))"
    by (intro gives_health keeps_gives)
  then have "hr_block_difference h = he_default_diff E + 1" and "u \<longleftrightarrow> verdict E a h"
    using run assms(2) by (auto simp: gives_def block_difference_def dest!: spec [of _ s])
  with assms(4,5) show ?thesis by (auto simp: verdict_def healthy_block_diff_def split: if_splits)
qed

section \<open>Readings that are missing or never renewed\<close>

text \<open>A request with a limit for the age of the plays is only answered when the plays are older than that.\<close>

theorem plays_limit_answered_when_late:
  assumes "get_play_health_info E (Some d) s = (Inr p, t)" and "d \<noteq> 0"
  shows "seconds d < th_time_diff (ph_info p)"
  using assms
  by (auto simp: get_play_health_info_def bnd_Inr Let_def drifted_def raise_def ret_def split: if_splits)

lemma health_with_plays_limit:
  assumes "get_health E a c s = (Inr (h, u), t)" and "ga_plays_count_max_drift a = Some d" and "d \<noteq> 0"
  shows "seconds d < th_time_diff (ph_info (hr_plays h))"
proof -
  have any: "gives (\<lambda>_. True) m (\<lambda>_. True)" for m :: "'a hl" by (simp add: gives_def)
  have "gives (\<lambda>_. True) (get_play_health_info E (ga_plays_count_max_drift a)) (\<lambda>p. seconds d < th_time_diff (ph_info p))"
    using plays_limit_answered_when_late [of E d] assms(2,3) by (auto simp: gives_def) (metis surj_pair fst_conv)
  from gives_health [OF any any this any, of c] show ?thesis
    using assms(1) by (auto simp: gives_def parts_keep_def keeps_def dest!: spec [of _ s])
qed

text \<open>The first reading of the latest play is kept: later plays change nothing.\<close>

lemma legacy_play_frozen:
  assumes "hs_legacy_play s = Some t0" and "get_play_health_info E None s = (Inr p, t)"
  shows "ph_time_diff p = he_utcnow E - t0 \<and> hs_legacy_play t = Some t0"
proof -
  have k: "keeps (\<lambda>s. hs_legacy_play s = Some t0) (get_sol_play_health_info E)"
    unfolding get_sol_play_health_info_def get_latest_cached_sol_play_db_def get_latest_sol_plays_def get_latest_sol_db_tx_def Let_def on_tables_def
    by (intro keeps_rules keeps_zoom_frame | split option.split list.split prod.split | intro conjI impI allI | simp)+
  have "gives (\<lambda>s. hs_legacy_play s = Some t0) (latest_legacy_play E) (\<lambda>r. r = Some t0)"
    by (simp add: latest_legacy_play_def gives_def py_simps)
  moreover have "keeps (\<lambda>s. hs_legacy_play s = Some t0) (oldest_play E)"
    by (auto simp: oldest_play_def keeps_def py_simps split: option.split)
  ultimately have "gives (\<lambda>s. hs_legacy_play s = Some t0) (get_play_health_info E None) (\<lambda>p. ph_time_diff p = he_utcnow E - t0)"
    unfolding get_play_health_info_def Let_def
    by (intro gives_bnd [OF keeps_gives [OF k]], simp, elim gives_bnd) (auto intro!: gives_bnd [OF keeps_gives] gives_ret)
  with assms show ?thesis by (auto simp: gives_def dest!: spec [of _ s])
qed

text \<open>The first reading of the rewards after the key is lost says that nothing is known.\<close>

lemma rewards_first_reading:
  assumes "so_latest (pl_sol (hs_plays s)) rewards_db_key = None"
    and "get_rewards_manager_health_info E None s = (Inr r, t)"
  shows "sh_time_diff r = seconds (-1)"
  using assms
  by (auto simp: tx_health_defs on_tables_def on_sol_def zoom_def py_simps get_sol_tx_health_info_def sol_health_of_def
      cache_latest_sol_db_tx_def split: option.splits)

section \<open>A sample\<close>

text \<open>The old chain ended at 5; the node has indexed the block 3 of the new chain, which is at 4.\<close>

definition sample_health_state :: health_state where
  "sample_health_state = \<lparr>hs_ix = sample_ix_state\<lparr>ix_last := Some (8, ''0xn3''), ix_tip := Some (4, ''0xn4'')\<rparr>,
     hs_plays = \<lparr>pl_sol = sample_sol_state, pl_plays = [listen_row ''old'', listen_row ''new'']\<rparr>, hs_lazy = [1], hs_times = Map.empty,
     hs_jobs = Map.empty, hs_legacy_play = None, hs_oldest_play = None\<rparr>"

definition sample_health_env :: health_env where
  "sample_health_env = \<lparr>he_time = 2000, he_utcnow = seconds 2000, he_now = seconds 2000, he_epoch = seconds 2000, he_local = (\<lambda>t. t),
     he_rank = (\<lambda>p. 0), he_row_rank = (\<lambda>r. 0), he_spl_created = 0, he_latest = None, he_is_stage = True, he_identity = Refused,
     he_default_diff = 100, he_cpus = Some 8, he_memory = None, he_filesystem = None, he_es = None\<rparr>"

definition sample_health_args :: health_args where
  "sample_health_args = \<lparr>ga_verbose = False, ga_healthy_block_diff = Some 0, ga_enforce_block_diff = True,
     ga_challenge_events_age_max_drift = None, ga_plays_count_max_drift = None,
     ga_reactions_max_indexing_drift = None, ga_reactions_max_last_reaction_drift = None\<rparr>"

lemma sample_health:
  "(case fst (get_health sample_health_env sample_health_args True sample_health_state) of Inl x \<Rightarrow> None
    | Inr (h, u) \<Rightarrow> Some (hr_block_difference h, u, ph_time_diff (hr_plays h), ph_oldest (hr_plays h))) =
   Some (1, True, seconds 400, Some (seconds 1600))"
  by code_simp

lemma block_difference_exact_witness:
  "\<exists>h u t. get_health sample_health_env sample_health_args True sample_health_state = (Inr (h, u), t) \<and> hr_block_difference h = 1 \<and> u"
proof -
  obtain h u t where run: "get_health sample_health_env sample_health_args True sample_health_state = (Inr (h, u), t)"
    using sample_health by (cases "get_health sample_health_env sample_health_args True sample_health_state") (auto split: sum.splits)
  have "hr_block_difference h = (if (4::int) < 5 then 4 - 3 else \<bar>4 - 3 - 5\<bar>) \<and>
      (ga_enforce_block_diff sample_health_args \<and> healthy_block_diff sample_health_env sample_health_args < hr_block_difference h \<longrightarrow> u)"
    by (rule block_difference_exact [OF run, where last_hash = "''0xn3''" and tip_hash = "''0xn4''"])
      (simp_all add: sample_health_state_def sample_health_env_def sample_ix_state_def)
  then have "hr_block_difference h = 1 \<and> u" by (simp add: sample_health_args_def healthy_block_diff_def)
  with run show ?thesis by blast
qed

end
