(* ===== verification/Reward_Properties.thy ===== *)
theory Reward_Properties
  imports Challenge_Bus EM_Samples
begin

text \<open>
  Properties of the challenge bus and the rewards: what holds for every sequence of dispatches,
  flushes, batches and indexing steps from a service that starts, and what a batch does to the queue.
\<close>

section \<open>Sample data\<close>

definition tip_challenge :: challenge where
  "tip_challenge = \<lparr>ch_id = ''send-first-tip'', ch_type = Boolean, ch_amount = ''2'', ch_active = True,
     ch_step_count = None, ch_starting_block = Some 0\<rparr>"

definition referral_challenge :: challenge where
  "referral_challenge = \<lparr>ch_id = ''referrals'', ch_type = Aggregate, ch_amount = ''1'', ch_active = True,
     ch_step_count = Some 1, ch_starting_block = Some 0\<rparr>"

definition reward_db :: ch_db where
  "reward_db = \<lparr>cd_challenges = [tip_challenge, referral_challenge], cd_user_challenges = [], cd_profile = [],
     cd_streaks = [], cd_trending = [], cd_rows = (\<lambda>_. [])\<rparr>"

definition tip_entry :: queue_entry where
  "tip_entry = Encoded \<lparr>ie_event = send_tip, ie_block_number = 5, ie_user_id = 7, ie_extra = []\<rparr>"

definition tip_row :: user_challenge where
  "tip_row = \<lparr>uc_challenge_id = ''send-first-tip'', uc_user_id = 7, uc_specifier = ''7'',
     uc_is_complete = True, uc_current_step_count = Some 0, uc_completed_blocknumber = Some 5\<rparr>"

lemma tip_batch: "cd_user_challenges (snd (snd (process_events 10 (setup_challenge_bus [tip_entry], reward_db)))) = [tip_row]"
  by code_simp

lemma tip_step: "\<exists>b db. bus_step\<^sup>*\<^sup>* (setup_challenge_bus [tip_entry], reward_db) (b, db) \<and> cd_user_challenges db = [tip_row]"
proof -
  obtain out b db where run: "process_events 10 (setup_challenge_bus [tip_entry], reward_db) = (out, b, db)"
    by (cases "process_events 10 (setup_challenge_bus [tip_entry], reward_db)") auto
  then show ?thesis using tip_batch bus_step.process [OF run] by (metis r_into_rtranclp snd_conv)
qed

section \<open>Every run of the service\<close>

text \<open>C31: A reward that a user has completed stays exactly as it is, its block number included, through
  every later sequence of events, batches and indexing.\<close>

theorem completed_forever:
  assumes "bus_step\<^sup>*\<^sup>* (setup_challenge_bus redis, db0) (b, db)"
    and "distinct (map uc_key (cd_user_challenges db0))"
    and "bus_step\<^sup>*\<^sup>* (b, db) (b', db')" and "c \<in> set (cd_user_challenges db)" and "uc_is_complete c"
  shows "c \<in> set (cd_user_challenges db')"
proof -
  have "keys_ok (cb_objects b) db \<and> listeners_ok b"
    using bus_steps_keep [OF keys.manager_invariant_axioms _ assms(1)] assms(2)
      settled_challenge_managers setup_bus_listeners by (simp add: keys_ok_def)
  then show ?thesis
    using bus_steps_keep [OF row.manager_invariant_axioms [of c] _ assms(3)] assms(4,5)
    by (simp add: keeps_row_def keys_ok_def)
qed

lemma completed_forever_witness:
  "\<exists>b db. bus_step\<^sup>*\<^sup>* (setup_challenge_bus [tip_entry], reward_db) (b, db) \<and>
     (\<forall>accepts :: queue_entry \<Rightarrow> bool. tip_row \<in> set (cd_user_challenges (snd (bus_flush accepts b, db))))"
proof -
  obtain b db where steps: "bus_step\<^sup>*\<^sup>* (setup_challenge_bus [tip_entry], reward_db) (b, db)"
    and row: "cd_user_challenges db = [tip_row]" using tip_step by blast
  have "tip_row \<in> set (cd_user_challenges db)" for accepts :: "queue_entry \<Rightarrow> bool"
  proof -
    have "bus_step\<^sup>*\<^sup>* (b, db) (bus_flush accepts b, db)"
      by (rule r_into_rtranclp [of bus_step]) (rule bus_step.flush)
    then show ?thesis
      using completed_forever [OF steps, of _ _ tip_row] row by (simp add: reward_db_def tip_row_def)
  qed
  with steps show ?thesis by auto
qed

text \<open>C33: No user is ever given the same reward twice: the keys of the table of user challenges stay
  different in every run of the service.\<close>

theorem user_challenges_unique:
  assumes "bus_step\<^sup>*\<^sup>* (setup_challenge_bus redis, db0) (b, db)"
    and "distinct (map uc_key (cd_user_challenges db0))"
  shows "distinct (map uc_key (cd_user_challenges db))"
  using bus_steps_keep [OF keys.manager_invariant_axioms _ assms(1)] assms(2)
    settled_challenge_managers setup_bus_listeners by (simp add: keys_ok_def)

lemma user_challenges_unique_witness:
  "\<exists>b db. bus_step\<^sup>*\<^sup>* (setup_challenge_bus [tip_entry], reward_db) (b, db) \<and>
     cd_user_challenges db \<noteq> [] \<and> distinct (map uc_key (cd_user_challenges db))"
  using tip_step user_challenges_unique [of "[tip_entry]" reward_db]
  by (fastforce simp: reward_db_def)

text \<open>C32: An aggregate challenge is never completed more often than its step count allows: in every run of
  the service a user has at most that many rows of it, however the events are batched.\<close>

theorem aggregate_capped:
  assumes "bus_step\<^sup>*\<^sup>* (setup_challenge_bus redis, db0) (b, db)"
    and "distinct (map uc_key (cd_user_challenges db0))"
    and "cap_ok (cd_challenges db0) (cd_user_challenges db0)"
  shows "cap_ok (cd_challenges db0) (cd_user_challenges db)"
  using bus_steps_keep [OF caps.manager_invariant_axioms [of "cd_challenges db0"] _ assms(1)] assms(2,3)
    settled_challenge_managers setup_bus_listeners fresh_managers
  by (simp add: caps_ok_def keys_ok_def has_settings_def)

definition referral_entry :: "int \<Rightarrow> queue_entry" where
  "referral_entry referred = Encoded \<lparr>ie_event = referral_signup, ie_block_number = 5, ie_user_id = 7,
     ie_extra = [(''referred_user_id'', PInt referred)]\<rparr>"

definition referrer :: inst where
  "referrer = row_of ''User'' [(''user_id'', PInt 7), (''is_current'', PBool True), (''is_verified'', PBool False)]"

definition referral_db :: ch_db where
  "referral_db = reward_db\<lparr>cd_rows := (\<lambda>t. if t = ''User'' then [referrer] else [])\<rparr>"

lemma referral_batch:
  "map uc_specifier (cd_user_challenges (snd (snd
     (process_events 10 (setup_challenge_bus [referral_entry 8, referral_entry 9], referral_db))))) = [''7=>8'']"
  by code_simp

lemma aggregate_capped_witness:
  "\<exists>b db. bus_step\<^sup>*\<^sup>* (setup_challenge_bus [referral_entry 8, referral_entry 9], referral_db) (b, db) \<and>
     map uc_specifier (cd_user_challenges db) = [''7=>8''] \<and>
     cap_ok (cd_challenges referral_db) (cd_user_challenges db)"
proof -
  let ?b = "setup_challenge_bus [referral_entry 8, referral_entry 9]"
  obtain out b db where run: "process_events 10 (?b, referral_db) = (out, b, db)"
    by (cases "process_events 10 (?b, referral_db)") auto
  then have steps: "bus_step\<^sup>*\<^sup>* (?b, referral_db) (b, db)"
    using bus_step.process [OF run] by blast
  have "cap_ok (cd_challenges referral_db) (cd_user_challenges db)"
    by (rule aggregate_capped [OF steps]) (auto simp: referral_db_def reward_db_def cap_ok_def of_user_def)
  moreover have "map uc_specifier (cd_user_challenges db) = [''7=>8'']" using referral_batch run by simp
  ultimately show ?thesis using steps by (intro exI [of _ b] exI [of _ db] conjI)
qed

section \<open>Batches and the queue\<close>

text \<open>A batch takes the oldest entries of the queue, one more than the number asked for, and leaves the
  rest in their order; the number it reports is the number it took, or -1.\<close>

theorem batch_bounds:
  assumes "process_events n (b, db) = ((taken, did_error), b', db')"
  shows "cb_redis b' = drop (n + 1) (cb_redis b) \<and>
    (taken = int (min (n + 1) (length (cb_redis b))) \<or> taken = -1 \<and> did_error \<and> db' = db)"
  using process_events_bus(3) [OF assms] assms
  by (auto simp: process_events_def Let_def min.commute split: sum.splits prod.splits)

lemma batch_bounds_witness:
  "cb_redis (fst (snd (process_events 0 (setup_challenge_bus [tip_entry, tip_entry], reward_db)))) = [tip_entry] \<and>
   fst (fst (process_events 0 (setup_challenge_bus [tip_entry, tip_entry], reward_db))) = 1"
proof -
  let ?b = "setup_challenge_bus [tip_entry, tip_entry]"
  obtain k e b db where run: "process_events 0 (?b, reward_db) = ((k, e), b, db)"
    by (metis prod.collapse)
  moreover have "cb_redis ?b = [tip_entry, tip_entry]" and "fst (fst (process_events 0 (?b, reward_db))) = 1"
    by code_simp+
  ultimately show ?thesis using batch_bounds [OF run] by simp
qed

text \<open>The entries are trimmed off the queue before they are decoded: one malformed entry loses every
  event of its batch, and nothing of the batch is processed.\<close>

theorem malformed_batch_lost:
  assumes "Malformed x \<in> set (take (n + 1) (cb_redis b))"
  shows "process_events n (b, db) = ((-1, True), b\<lparr>cb_redis := drop (n + 1) (cb_redis b)\<rparr>, db)"
proof -
  have "\<exists>y. map_res json_to_event es = Inl y" if "Malformed x \<in> set es" for es
    using that by (induction es) (auto simp: json_to_event_def split: sum.splits queue_entry.splits)
  then obtain y where "map_res json_to_event (take (n + 1) (cb_redis b)) = Inl y" using assms by blast
  moreover have "drop (length (take (n + 1) (cb_redis b))) (cb_redis b) = drop (n + 1) (cb_redis b)"
    by (cases "n + 1 \<le> length (cb_redis b)") simp_all
  ultimately show ?thesis by (simp add: process_events_def)
qed

lemma malformed_batch_lost_witness:
  "process_events 5 (setup_challenge_bus [tip_entry, Malformed ValueError], reward_db) =
     ((-1, True), (setup_challenge_bus [tip_entry, Malformed ValueError])\<lparr>cb_redis := []\<rparr>, reward_db)"
proof -
  have redis: "cb_redis (setup_challenge_bus [tip_entry, Malformed ValueError]) = [tip_entry, Malformed ValueError]"
    by code_simp
  show ?thesis
    using malformed_batch_lost [of ValueError 5 "setup_challenge_bus [tip_entry, Malformed ValueError]" reward_db]
    by (simp add: redis)
qed

text \<open>What is dispatched arrives: after a flush into a working Redis the queue decodes to the events that
  were there before, followed by the dispatched ones that can be encoded, in order, each once.\<close>

theorem flush_delivers:
  assumes "map_res json_to_event (cb_redis b) = Inr old"
  shows "map_res json_to_event (cb_redis (bus_flush (\<lambda>_. True) b)) =
      Inr (old @ filter (\<lambda>ev. event_to_json ev = Inr (Encoded ev)) (cb_queue b)) \<and>
    cb_queue (bus_flush (\<lambda>_. True) b) = []"
proof -
  have "map_res json_to_event (xs @ map Encoded ys) = Inr (zs @ ys)" if "map_res json_to_event xs = Inr zs" for xs ys zs
    using that
  proof (induction xs arbitrary: zs)
    case Nil
    then show ?case by (induction ys) (simp_all add: json_to_event_def)
  qed (auto split: sum.splits)
  then show ?thesis using assms by (simp add: bus_flush_def flush_def fold_flush_event)
qed

lemma flush_delivers_witness:
  "map_res json_to_event (cb_redis (bus_flush (\<lambda>_. True)
     (bus_dispatch_event (PStr track_upload) (PInt 3) (PInt 4) PNone (setup_challenge_bus [])))) =
   Inr [\<lparr>ie_event = track_upload, ie_block_number = 3, ie_user_id = 4, ie_extra = []\<rparr>]"
proof -
  let ?b = "bus_dispatch_event (PStr track_upload) (PInt 3) (PInt 4) PNone (setup_challenge_bus [])"
  have "map_res json_to_event (cb_redis ?b) = Inr []" by code_simp
  moreover have "cb_queue ?b = [\<lparr>ie_event = track_upload, ie_block_number = 3, ie_user_id = 4, ie_extra = []\<rparr>]"
    by code_simp
  ultimately show ?thesis using flush_delivers [of ?b "[]"] by (simp add: event_to_json_def)
qed

definition run_batches :: "nat \<Rightarrow> nat \<Rightarrow> bus \<times> ch_db \<Rightarrow> bus \<times> ch_db" where
  "run_batches n k = (\<lambda>st. snd (process_events n st)) ^^ k"

text \<open>The queue is emptied: whatever the entries are, and whichever managers raise, enough batches of any
  size drain it, and each batch brings the end closer.\<close>

theorem queue_drained:
  "cb_redis (fst (run_batches n (length (cb_redis b)) (b, db))) = []"
proof -
  have one: "cb_redis (fst (snd (process_events n st))) = drop (n + 1) (cb_redis (fst st))" for st
    using process_events_bus(3) [of n "fst st" "snd st"] by (metis prod.collapse)
  have "cb_redis (fst (run_batches n k st)) = drop (k * (n + 1)) (cb_redis (fst st))" for k st
    by (induction k) (simp_all add: run_batches_def one algebra_simps)
  then show ?thesis by simp
qed

end
