(* ===== verification/Challenge_Properties.thy ===== *)
theory Challenge_Properties
  imports Challenge_Bus EM_Samples
begin

text \<open>
  Properties of single challenges: the steps of a profile, the length of a listening streak, the
  weekly run of the trending rewards, and what becomes of deactivated users.
\<close>

section \<open>Profile completion\<close>

definition all_steps :: "profile_completion \<Rightarrow> bool" where
  "all_steps p \<longleftrightarrow> pc_profile_description p \<and> pc_profile_name p \<and> pc_profile_picture p \<and>
     pc_profile_cover_photo p \<and> pc_follows p \<and> pc_favorites p \<and> pc_reposts p"

lemma steps_bounds: "0 \<le> get_steps_complete p \<and> get_steps_complete p \<le> 7"
  by (simp add: get_steps_complete_def)

lemma steps_seven: "get_steps_complete p = 7 \<longleftrightarrow> all_steps p"
  by (cases "pc_profile_description p"; cases "pc_profile_name p"; cases "pc_profile_picture p";
      cases "pc_profile_cover_photo p"; cases "pc_follows p"; cases "pc_favorites p"; cases "pc_reposts p")
    (simp_all add: get_steps_complete_def all_steps_def)

lemma fold_res_keeps:
  assumes "fold_res f xs a = Inr b" and "\<And>x a b. f x a = Inr b \<Longrightarrow> g b = g a"
  shows "g b = g a"
  using assms(1) by (induction xs arbitrary: a) (auto split: sum.splits dest: assms(2))

lemma users_updated:
  assumes "updated_completions event db user_ids ps0 = Inr ps"
  shows "map pc_user_id ps = map pc_user_id ps0"
proof (cases "event = profile_update")
  case True
  then have "handle_profile_updates (get_user_dicts db user_ids) ps0 = Inr ps"
    using assms by (simp add: updated_completions_def)
  then show ?thesis
    unfolding handle_profile_updates_def
    by (rule fold_res_keeps) (auto simp: bind_res_Inr profile_of_user_def)
next
  case False
  then show ?thesis
    using assms by (auto simp: updated_completions_def handle_reposts_def handle_follow_def handle_favorite_def
        split: if_splits)
qed

lemma profile_progress_from:
  assumes "profile_progress k ps c0 = Inr c"
  shows "\<exists>q \<in> set ps. pc_user_id q = uc_user_id c \<and> uc_current_step_count c = Some (get_steps_complete q) \<and>
    (uc_is_complete c \<longleftrightarrow> k = Some (get_steps_complete q))"
proof -
  obtain q qs where qs: "filter (\<lambda>p. pc_user_id p = uc_user_id c0) ps = q # qs"
    using assms by (auto simp: profile_progress_def split: list.splits)
  have "last (q # qs) \<in> set (q # qs)" by (rule last_in_set) simp
  then have "last (q # qs) \<in> set (filter (\<lambda>p. pc_user_id p = uc_user_id c0) ps)" by (simp only: qs)
  moreover have "c = c0\<lparr>uc_current_step_count := Some (get_steps_complete (last (q # qs))),
      uc_is_complete := (k = Some (get_steps_complete (last (q # qs))))\<rparr>"
    using assms by (simp only: profile_progress_def qs Let_def list.case sum.inject)
  ultimately show ?thesis by (intro bexI [of _ "last (q # qs)"]) simp_all
qed

lemma find_by_key:
  assumes "distinct (map f xs)" and "x \<in> set xs"
  shows "find (\<lambda>y. f y = f x) xs = Some x"
  using assms by (induction xs) (auto simp: rev_image_eqI)

lemma stored_profile:
  assumes "q \<in> set ps" and users: "map pc_user_id ps = map pc_user_id (get_profile_completion_challenges db ids)"
    and "distinct (map pc_user_id (cd_profile db))"
  shows "q \<in> set (cd_profile (store_profiles ps db))"
proof -
  have "distinct (map pc_user_id ps)"
    unfolding users get_profile_completion_challenges_def using assms(3) by (rule distinct_map_filter)
  then have q: "find (\<lambda>p. pc_user_id p = pc_user_id q) ps = Some q" using assms(1) by (rule find_by_key)
  have "pc_user_id q \<in> set (map pc_user_id ps)" using assms(1) by simp
  then obtain r where "r \<in> set (cd_profile db)" "pc_user_id r = pc_user_id q"
    unfolding users by (auto simp: get_profile_completion_challenges_def)
  then show ?thesis using q unfolding store_profiles_def
    by (simp add: image_iff) (rule bexI [of _ r], simp_all)
qed

text \<open>An update of the profile challenge leaves every challenge it touches with a step count between 0 and
  7, and completes it exactly when the stored profile of its user has all seven steps.\<close>

theorem profile_completed_iff:
  assumes run: "profile_update_user_challenges event ucs (Some 7) metas start db = (Inr ucs', db')"
    and one: "distinct (map pc_user_id (cd_profile db))" and c: "c \<in> set ucs'"
  shows "\<exists>p n. p \<in> set (cd_profile db') \<and> pc_user_id p = uc_user_id c \<and>
    uc_current_step_count c = Some n \<and> 0 \<le> n \<and> n \<le> 7 \<and> (uc_is_complete c \<longleftrightarrow> all_steps p)"
proof -
  let ?mine = "get_profile_completion_challenges db (map uc_user_id ucs)"
  obtain ps where ps: "updated_completions event db (map uc_user_id ucs) ?mine = Inr ps"
    and db': "db' = store_profiles ps db" and ucs': "map_res (profile_progress (Some 7) ps) ucs = Inr ucs'"
    using run by (auto simp: profile_update_user_challenges_def Let_def bnd_Inr sq_Inr run_Inr modify_def)
  have users: "map pc_user_id ps = map pc_user_id ?mine"
    by (rule users_updated [OF ps])
  obtain c0 where "profile_progress (Some 7) ps c0 = Inr c" using map_res_mem [OF ucs' c] by blast
  then obtain q where q: "q \<in> set ps" "pc_user_id q = uc_user_id c"
      "uc_current_step_count c = Some (get_steps_complete q)"
      "uc_is_complete c \<longleftrightarrow> get_steps_complete q = 7"
    using profile_progress_from [of "Some 7" ps c0 c] by auto
  have "q \<in> set (cd_profile db')" using q(1) users one unfolding db' by (rule stored_profile)
  then show ?thesis using q steps_bounds [of q] steps_seven [of q] by metis
qed

definition full_profile :: profile_completion where
  "full_profile = \<lparr>pc_user_id = 7, pc_profile_description = True, pc_profile_name = True,
     pc_profile_picture = True, pc_profile_cover_photo = True, pc_follows = True, pc_favorites = True,
     pc_reposts = False\<rparr>"

definition profile_row :: user_challenge where
  "profile_row = \<lparr>uc_challenge_id = ''profile-completion'', uc_user_id = 7, uc_specifier = ''7'',
     uc_is_complete = False, uc_current_step_count = Some 6, uc_completed_blocknumber = None\<rparr>"

definition profile_db :: ch_db where
  "profile_db = \<lparr>cd_challenges = [], cd_user_challenges = [profile_row], cd_profile = [full_profile],
     cd_streaks = [], cd_trending = [], cd_rows = (\<lambda>t. if t = ''Repost'' then
       [row_of ''Repost'' [(''user_id'', PInt 7), (''is_current'', PBool True), (''is_delete'', PBool False)]]
       else [])\<rparr>"

lemma profile_completed_iff_witness:
  "\<exists>c p. map_prod id cd_profile (profile_update_user_challenges ev_repost [profile_row] (Some 7) [] None profile_db)
      = (Inr [c], [p]) \<and> uc_is_complete c \<and> all_steps p"
proof -
  obtain ucs' db' where run: "profile_update_user_challenges ev_repost [profile_row] (Some 7) [] None profile_db = (Inr ucs', db')"
    and c: "ucs' = [profile_row\<lparr>uc_is_complete := True, uc_current_step_count := Some 7\<rparr>]"
    and p: "cd_profile db' = [full_profile\<lparr>pc_reposts := True\<rparr>]"
  proof -
    let ?r = "profile_update_user_challenges ev_repost [profile_row] (Some 7) [] None profile_db"
    have "fst ?r = Inr [profile_row\<lparr>uc_is_complete := True, uc_current_step_count := Some 7\<rparr>]"
      and "cd_profile (snd ?r) = [full_profile\<lparr>pc_reposts := True\<rparr>]"
      by code_simp+
    from this that show thesis by (cases ?r) simp
  qed
  have "distinct (map pc_user_id (cd_profile profile_db))" by (simp add: profile_db_def)
  from profile_completed_iff [OF run this, of "hd ucs'"] have "all_steps (full_profile\<lparr>pc_reposts := True\<rparr>)"
    by (simp add: c p)
  then show ?thesis by (simp add: run c p)
qed

section \<open>Listening streaks\<close>

lemma streak_grows:
  assumes "ls_last_listen_date l = Some t" and "1 \<le> ls_listen_streak l"
    and "(ls_listen_streak l - 1) * one_day \<le> t - t0" and "t0 \<le> t"
  shows "\<exists>u. ls_last_listen_date (fold listen_at ts l) = Some u \<and> 1 \<le> ls_listen_streak (fold listen_at ts l) \<and>
    (ls_listen_streak (fold listen_at ts l) - 1) * one_day \<le> u - t0 \<and> t0 \<le> u"
  using assms
proof (induction ts arbitrary: l t)
  case (Cons n ts)
  show ?case
  proof (cases "one_day \<le> n - t")
    case True
    have d: "one_day = 86400" by (simp add: one_day_def)
    let ?l = "listen_at n l"
    have "ls_last_listen_date ?l = Some n" "1 \<le> ls_listen_streak ?l"
        "(ls_listen_streak ?l - 1) * one_day \<le> n - t0" "t0 \<le> n"
      using Cons.prems True by (auto simp: listen_at_def d)
    from Cons.IH [OF this] show ?thesis by simp
  next
    case False
    then have "listen_at n l = l" using Cons.prems(1) by (simp add: listen_at_def)
    then show ?thesis using Cons.IH [OF Cons.prems] by simp
  qed
qed simp

text \<open>A listening streak cannot be faked by listening often: a streak of n needs listens over at least n - 1
  whole days, whatever the listens are and in whatever order their times come.\<close>

theorem streak_needs_days:
  assumes "ls_last_listen_date l = None" and "ts \<noteq> []"
  shows "\<exists>u. ls_last_listen_date (fold listen_at ts l) = Some u \<and>
    1 \<le> ls_listen_streak (fold listen_at ts l) \<and>
    (ls_listen_streak (fold listen_at ts l) - 1) * one_day \<le> u - hd ts"
proof -
  obtain t ts' where ts: "ts = t # ts'" using assms(2) by (cases ts) auto
  have "ls_last_listen_date (listen_at t l) = Some t" "ls_listen_streak (listen_at t l) = 1"
    using assms(1) by (simp_all add: listen_at_def)
  then show ?thesis using streak_grows [of "listen_at t l" t t ts'] by (auto simp: ts)
qed

definition no_streak :: listen_streak where
  "no_streak = \<lparr>ls_user_id = 7, ls_last_listen_date = None, ls_listen_streak = 0\<rparr>"

lemma streak_needs_days_witness:
  "ls_listen_streak (fold listen_at [0, 90000, 100000, 180000] no_streak) = 3 \<and>
   (\<exists>u. ls_last_listen_date (fold listen_at [0, 90000, 100000, 180000] no_streak) = Some u \<and> 2 * one_day \<le> u)"
proof -
  have "ls_listen_streak (fold listen_at [0, 90000, 100000, 180000] no_streak) = 3" by code_simp
  moreover have "ls_last_listen_date no_streak = None" by (simp add: no_streak_def)
  from streak_needs_days [OF this, of "[0, 90000, 100000, 180000]"] calculation
  have "\<exists>u. ls_last_listen_date (fold listen_at [0, 90000, 100000, 180000] no_streak) = Some u \<and> 2 * one_day \<le> u"
    by auto
  ultimately show ?thesis ..
qed

section \<open>The weekly trending rewards\<close>

lemma latest_week:
  assumes "\<forall>w \<in> set ws. w \<le> (d :: int)" and "d \<in> set ws"
  shows "fold max ws (hd ws) = d"
proof -
  have "fold max ws x = max x (Max (set ws))" if "ws \<noteq> []" for ws :: "int list" and x
    using that
  proof (induction ws arbitrary: x)
    case (Cons w ws)
    then show ?case by (cases "ws = []") (simp_all add: max.assoc max.commute)
  qed simp
  moreover have "Max (set ws) = d" using assms by (intro Max_eqI) auto
  moreover have "hd ws \<le> d" using assms by (cases ws) auto
  ultimately show ?thesis using assms(2) by (cases "ws = []") (auto simp: max_def)
qed

text \<open>The trending rewards are given at most once a week: after a run on one Friday whose results are
  stored, the next time the check says yes is on a Friday at least seven days later.\<close>

theorem trending_once_a_week:
  assumes first: "should_trending_challenge_update dst weeks t = (True, Some d)"
    and stored: "\<forall>w \<in> set weeks'. w \<le> d" "d \<in> set weeks'"
    and again: "should_trending_challenge_update dst' weeks' t' = (True, Some d')" and "t \<le> t'"
  shows "weekday t' = 4 \<and> d' = t' div one_day \<and> d + 7 \<le> d'"
proof -
  have "weeks' \<noteq> []" using stored(2) by auto
  have t: "weekday t = 4" "d = t div one_day"
    using first by (auto simp: should_trending_challenge_update_def get_is_valid_timestamp_def Let_def split: if_splits)
  have t': "weekday t' = 4" "d' = t' div one_day" "d \<noteq> d'"
    using again latest_week [OF stored] \<open>weeks' \<noteq> []\<close>
    by (auto simp: should_trending_challenge_update_def get_is_valid_timestamp_def Let_def split: if_splits)
  have "d \<le> d'" unfolding t(2) t'(2) by (intro zdiv_mono1) (use \<open>t \<le> t'\<close> in \<open>simp_all add: one_day_def\<close>)
  moreover have "(d + 3) mod 7 = 4" "(d' + 3) mod 7 = 4" using t t' by (simp_all add: weekday_def)
  ultimately have "d + 7 \<le> d'" using t'(3) by presburger
  with t' show ?thesis by simp
qed

lemma trending_once_a_week_witness:
  "should_trending_challenge_update (\<lambda>_. False) [] 158400 = (True, Some 1) \<and>
   should_trending_challenge_update (\<lambda>_. False) [1] 763200 = (True, Some 8) \<and> (1 :: int) + 7 \<le> 8"
proof -
  have "should_trending_challenge_update (\<lambda>_. False) [] 158400 = (True, Some 1)"
    and "should_trending_challenge_update (\<lambda>_. False) [1] 763200 = (True, Some 8)"
    by code_simp+
  then show ?thesis using trending_once_a_week [of "\<lambda>_. False" "[]" 158400 1 "[1]" "\<lambda>_. False" 763200 8] by simp
qed

section \<open>Deactivated users\<close>

definition tipping_user :: inst where
  "tipping_user = row_of ''User'' [(''user_id'', PInt 7), (''is_current'', PBool True), (''is_deactivated'', PBool True)]"

definition deactivated_db :: ch_db where
  "deactivated_db = \<lparr>cd_challenges = [\<lparr>ch_id = ''send-first-tip'', ch_type = Boolean, ch_amount = ''2'',
       ch_active = True, ch_step_count = None, ch_starting_block = None\<rparr>],
     cd_user_challenges = [], cd_profile = [], cd_streaks = [], cd_trending = [],
     cd_rows = (\<lambda>t. if t = ''User'' then [tipping_user] else [])\<rparr>"

text \<open>The challenges of deactivated users are meant to be left out of a batch, but the filter compares an
  id with the rows of the query: a deactivated user completes a challenge like any other.\<close>

theorem deactivated_user_rewarded:
  "attr tipping_user ''is_deactivated'' = PBool True \<and>
   map (\<lambda>c. (uc_user_id c, uc_is_complete c))
     (cd_user_challenges (snd (snd (process send_tip [\<lparr>me_block_number = 5, me_user_id = 7, me_extra = []\<rparr>]
        send_first_tip_challenge_manager deactivated_db)))) = [(7, True)]"
  by code_simp

end
