(* ===== verification/Query_Properties.thy ===== *)
theory Query_Properties
  imports Reward_Queries
begin

text \<open>
  What a client is shown of the rewards of a user: only the user's own, with everything that can
  still be earned, and disbursed only what was paid out when the whole history is shown.
\<close>

section \<open>The parts of a response\<close>

lemma map_res_elem: "map_res f xs = Inr ys \<Longrightarrow> y \<in> set ys \<Longrightarrow> \<exists>x \<in> set xs. f x = Inr y"
  by (induction xs arbitrary: ys) (auto split: sum.splits)

lemma map_res_image: "map_res f xs = Inr ys \<Longrightarrow> x \<in> set xs \<Longrightarrow> \<exists>y \<in> set ys. f x = Inr y"
  by (induction xs arbitrary: ys) (auto split: sum.splits)

lemma joined_rows:
  assumes "(u, d) \<in> set (challenges_and_disbursements db ds user_id)"
  shows "uc_user_id u = user_id" and "u \<in> set (cd_user_challenges db)"
    and "d = Some p \<Longrightarrow> p \<in> set ds \<and> pays u p"
proof -
  obtain v where v: "v \<in> set (cd_user_challenges db)" "uc_user_id v = user_id"
    and e: "(u, d) \<in> set (case filter (pays v) ds of [] \<Rightarrow> [(v, None)] | qs \<Rightarrow> map (\<lambda>d. (v, Some d)) qs)"
    using assms by (auto simp: challenges_and_disbursements_def)
  have "u = v \<and> (d = None \<or> (\<exists>q \<in> set (filter (pays v) ds). d = Some q))"
    using e by (cases "filter (pays v) ds") auto
  with v show "uc_user_id u = user_id" "u \<in> set (cd_user_challenges db)"
    and "d = Some p \<Longrightarrow> p \<in> set ds \<and> pays u p" by auto
qed

lemma existing_mem:
  assumes "existing_user_challenges h cs rows = Inr existing" and "u \<in> set existing"
  shows "\<exists>d. (u, d) \<in> set rows"
proof -
  obtain marked where m: "map_res (\<lambda>(u, d). if h then Inr (True, u)
         else bind_res (lookup_challenge cs (uc_challenge_id u)) (\<lambda>c. Inr (ch_active c, u))) rows = Inr marked"
    and "existing = map snd (filter fst marked)"
    using assms(1) by (auto simp: existing_user_challenges_def bind_res_Inr)
  then obtain b where "(b, u) \<in> set marked" using assms(2) by auto
  from map_res_elem [OF m this] show ?thesis by (auto simp: bind_res_Inr split: if_splits)
qed

lemma existing_historical: "existing_user_challenges True cs rows = Inr (map fst rows)"
proof -
  have "map_res (\<lambda>(u, d). Inr (True, u)) rows = Inr (map (\<lambda>(u, d). (True, u)) rows)" for rows :: "(user_challenge \<times> disbursement option) list"
    by (rule map_res_Inr) auto
  then show ?thesis
    by (simp add: existing_user_challenges_def bind_res_def comp_def split_beta filter_True)
qed

lemma lookup_challenge_id: "lookup_challenge cs cid = Inr c \<Longrightarrow> ch_id c = cid"
  by (auto simp: lookup_challenge_def split: option.splits dest: od_get_build_SomeD)

lemma regular_response_mem:
  assumes "regular_response now user_id db b dis md (i, u) = Inr rs" and "r \<in> set rs"
  shows "rs_user_id r = uc_user_id u \<and> rs_challenge_id r = uc_challenge_id u \<and>
    rs_specifier r = uc_specifier u \<and> (rs_is_disbursed r \<longleftrightarrow> dis ! i \<noteq> None) \<and> (rs_is_complete r \<longleftrightarrow> uc_is_complete u)"
  using assms by (auto simp: regular_response_def bind_res_Inr Let_def to_challenge_response_def lookup_challenge_id
      split: if_splits option.splits)

lemma aggregate_rows_mem:
  assumes "(cid, us) \<in> set (aggregate_rows cs ucs)"
  shows "set us \<subseteq> set ucs"
proof -
  let ?f = "\<lambda>u d. case lookup_challenge cs (uc_challenge_id u) of
         Inr c \<Rightarrow> if ch_type c = Aggregate \<and> uc_is_complete u
                  then od_set d (uc_challenge_id u) (od_default d (uc_challenge_id u) [] @ [u]) else d
       | Inl x \<Rightarrow> d"
  have "\<forall>p \<in> set (fold ?f xs d). set (snd p) \<subseteq> A \<union> set xs" if "\<forall>p \<in> set d. set (snd p) \<subseteq> A" for xs d A
    using that
  proof (induction xs arbitrary: d A)
    case (Cons x xs)
    have "set (od_default d (uc_challenge_id x) []) \<subseteq> A"
      using Cons.prems od_get_in_set [of d "uc_challenge_id x"]
      by (cases "od_get d (uc_challenge_id x)") (fastforce simp: od_default_def)+
    then have "\<forall>p \<in> set (?f x d). set (snd p) \<subseteq> A \<union> {x}"
      using Cons.prems by (auto split: sum.splits dest!: in_set_od_set)
    from Cons.IH [OF this] show ?case by auto
  qed auto
  from this [of "[]" "{}" ucs] have "\<forall>p \<in> set (aggregate_rows cs ucs). set (snd p) \<subseteq> set ucs"
    by (simp add: aggregate_rows_def)
  with assms show ?thesis by force
qed

lemma rollup_user: "rollup_aggregates us c = Inr r \<Longrightarrow> \<exists>u \<in> set us. rs_user_id r = uc_user_id u \<and> \<not> rs_is_disbursed r"
  by (cases us) (auto simp: rollup_aggregates_def Let_def)

lemma empty_mem:
  assumes "create_empty_user_challenges user_id cs md = Inr rs" and "r \<in> set rs"
  shows "rs_user_id r = user_id \<and> \<not> rs_is_disbursed r"
  using map_res_elem [OF assms(1) [unfolded create_empty_user_challenges_def] assms(2)]
  by (auto simp: empty_response_def split: if_splits)

text \<open>Where a response comes from.\<close>

lemma get_challenges_parts:
  assumes "get_challenges now user_id h db ds b = Inr rs"
  obtains rows existing md regular rolled active em empty where
    "rows = filter (\<lambda>(u, d). does_manager_exist b (uc_challenge_id u)) (challenges_and_disbursements db ds user_id)"
    "existing_user_challenges h (cd_challenges db) rows = Inr existing"
    "map_res (regular_response now user_id db b (map snd rows) md) (enumerate 0 existing) = Inr regular"
    "map_res (\<lambda>(challenge_id, us). bind_res (lookup_challenge (cd_challenges db) challenge_id)
       (rollup_aggregates us)) (aggregate_rows (cd_challenges db) existing) = Inr rolled"
    "active_non_hidden db b user_id = Inr active"
    "create_empty_user_challenges user_id (filter (\<lambda>c. ch_id c \<notin> set (map uc_challenge_id existing)) active) em = Inr empty"
    "get_empty_metadata b (filter (\<lambda>c. ch_id c \<notin> set (map uc_challenge_id existing)) active) = Inr em"
    "rs = concat regular @ rolled @ empty"
  using assms unfolding get_challenges_def Let_def bind_res_Inr by blast

lemma enumerate_mem: "(i, x) \<in> set (enumerate 0 xs) \<longleftrightarrow> i < length xs \<and> xs ! i = x"
  by (simp add: in_set_enumerate_eq)

section \<open>Properties\<close>

text \<open>A client is shown the rewards of the user it asks for and of nobody else.\<close>

theorem challenges_own:
  assumes run: "get_challenges now user_id h db ds b = Inr rs" and r: "r \<in> set rs"
  shows "rs_user_id r = user_id"
proof -
  from run obtain rows existing md regular rolled active em empty where
    rows: "rows = filter (\<lambda>(u, d). does_manager_exist b (uc_challenge_id u)) (challenges_and_disbursements db ds user_id)"
    and existing: "existing_user_challenges h (cd_challenges db) rows = Inr existing"
    and regular: "map_res (regular_response now user_id db b (map snd rows) md) (enumerate 0 existing) = Inr regular"
    and rolled: "map_res (\<lambda>(challenge_id, us). bind_res (lookup_challenge (cd_challenges db) challenge_id)
       (rollup_aggregates us)) (aggregate_rows (cd_challenges db) existing) = Inr rolled"
    and empty: "create_empty_user_challenges user_id (filter (\<lambda>c. ch_id c \<notin> set (map uc_challenge_id existing)) active) em = Inr empty"
    and rs: "rs = concat regular @ rolled @ empty"
    by (rule get_challenges_parts)
  have own: "uc_user_id u = user_id" if "u \<in> set existing" for u
    using existing_mem [OF existing that] joined_rows(1) unfolding rows by auto
  from r rs consider (reg) x where "x \<in> set regular" "r \<in> set x" | (rol) "r \<in> set rolled" | (emp) "r \<in> set empty"
    by auto
  then show ?thesis
  proof cases
    case reg
    from map_res_elem [OF regular reg(1)] obtain i u where
      "(i, u) \<in> set (enumerate 0 existing)" "regular_response now user_id db b (map snd rows) md (i, u) = Inr x"
      by auto
    then show ?thesis using regular_response_mem [OF _ reg(2)] own by (auto simp: enumerate_mem)
  next
    case rol
    from map_res_elem [OF rolled this] obtain cid us c where
      "(cid, us) \<in> set (aggregate_rows (cd_challenges db) existing)" "rollup_aggregates us c = Inr r"
      by (auto simp: bind_res_Inr)
    then show ?thesis using rollup_user aggregate_rows_mem own by (metis subsetD)
  next
    case emp
    then show ?thesis using empty_mem [OF empty] by simp
  qed
qed

text \<open>When the whole history is shown, a reward that is shown as disbursed has been paid out: there is a
  disbursement of this challenge with the same specifier.\<close>

theorem disbursed_was_paid:
  assumes run: "get_challenges now user_id True db ds b = Inr rs" and r: "r \<in> set rs" "rs_is_disbursed r"
  shows "\<exists>d \<in> set ds. cdis_challenge_id d = rs_challenge_id r \<and> cdis_specifier d = rs_specifier r"
proof -
  from run obtain rows existing md regular rolled active em empty where
    rows: "rows = filter (\<lambda>(u, d). does_manager_exist b (uc_challenge_id u)) (challenges_and_disbursements db ds user_id)"
    and existing: "existing_user_challenges True (cd_challenges db) rows = Inr existing"
    and regular: "map_res (regular_response now user_id db b (map snd rows) md) (enumerate 0 existing) = Inr regular"
    and rolled: "map_res (\<lambda>(challenge_id, us). bind_res (lookup_challenge (cd_challenges db) challenge_id)
       (rollup_aggregates us)) (aggregate_rows (cd_challenges db) existing) = Inr rolled"
    and empty: "create_empty_user_challenges user_id (filter (\<lambda>c. ch_id c \<notin> set (map uc_challenge_id existing)) active) em = Inr empty"
    and rs: "rs = concat regular @ rolled @ empty"
    by (rule get_challenges_parts)
  have "r \<notin> set rolled"
  proof
    assume "r \<in> set rolled"
    from map_res_elem [OF rolled this] show False using r(2) rollup_user by (auto simp: bind_res_Inr)
  qed
  moreover have "r \<notin> set empty" using empty_mem [OF empty] r(2) by blast
  ultimately obtain x where x: "x \<in> set regular" "r \<in> set x" using r(1) rs by auto
  from map_res_elem [OF regular x(1)] obtain i u where
    iu: "(i, u) \<in> set (enumerate 0 existing)" "regular_response now user_id db b (map snd rows) md (i, u) = Inr x"
    by auto
  note resp = regular_response_mem [OF iu(2) x(2)]
  have i: "i < length rows" "fst (rows ! i) = u"
    using iu(1) existing unfolding existing_historical by (auto simp: enumerate_mem)
  obtain d where d: "rows ! i = (u, Some d)" using resp r(2) i by (cases "rows ! i") auto
  have "(u, Some d) \<in> set rows" using nth_mem [OF i(1)] d by simp
  then have "d \<in> set ds \<and> pays u d" using joined_rows(3) unfolding rows by auto
  then show ?thesis using resp by (auto simp: pays_def)
qed

text \<open>Everything that can still be earned is shown: an active challenge that is not a trending one, whose
  manager shows it to the user and of which the user has no row, appears with no progress.\<close>

theorem open_challenge_shown:
  assumes run: "get_challenges now user_id h db ds b = Inr rs"
    and c: "c \<in> set (cd_challenges db)" "ch_active c" "ch_type c \<noteq> Trending"
    and m: "get_manager b (ch_id c) = Inr m" "up_should_show_challenge_for_user (mg_updater m) db user_id = Inr True"
    and new: "\<And>u. u \<in> set (cd_user_challenges db) \<Longrightarrow> uc_user_id u = user_id \<Longrightarrow> uc_challenge_id u \<noteq> ch_id c"
  shows "\<exists>r \<in> set rs. rs_challenge_id r = ch_id c \<and> \<not> rs_is_complete r \<and> rs_current_step_count r = Some 0"
proof -
  from run obtain rows existing md regular rolled active em empty where
    rows: "rows = filter (\<lambda>(u, d). does_manager_exist b (uc_challenge_id u)) (challenges_and_disbursements db ds user_id)"
    and existing: "existing_user_challenges h (cd_challenges db) rows = Inr existing"
    and active: "active_non_hidden db b user_id = Inr active"
    and empty: "create_empty_user_challenges user_id (filter (\<lambda>c. ch_id c \<notin> set (map uc_challenge_id existing)) active) em = Inr empty"
    and rs: "rs = concat regular @ rolled @ empty"
    by (rule get_challenges_parts)
  obtain marked where marked: "map_res (\<lambda>c. if \<not> ch_active c \<or> ch_type c = Trending then Inr (False, c)
         else bind_res (get_manager b (ch_id c)) (\<lambda>m.
              bind_res (up_should_show_challenge_for_user (mg_updater m) db user_id) (\<lambda>shown.
              Inr (shown, c)))) (cd_challenges db) = Inr marked" and "active = map snd (filter fst marked)"
    using active by (auto simp: active_non_hidden_def bind_res_Inr)
  with map_res_image [OF marked c(1)] c m have "c \<in> set active" by (force simp: bind_res_def)
  moreover have "ch_id c \<notin> set (map uc_challenge_id existing)"
  proof
    assume "ch_id c \<in> set (map uc_challenge_id existing)"
    then obtain u where u: "u \<in> set existing" "uc_challenge_id u = ch_id c" by auto
    then obtain d where "(u, d) \<in> set (challenges_and_disbursements db ds user_id)"
      using existing_mem [OF existing] unfolding rows by auto
    from joined_rows(1,2) [OF this] u(2) new show False by blast
  qed
  ultimately have "c \<in> set (filter (\<lambda>c. ch_id c \<notin> set (map uc_challenge_id existing)) active)" by simp
  then obtain i where "(i, c) \<in> set (enumerate 0 (filter (\<lambda>c. ch_id c \<notin> set (map uc_challenge_id existing)) active))"
    by (metis enumerate_mem in_set_conv_nth)
  from map_res_image [OF empty [unfolded create_empty_user_challenges_def] this]
  obtain r where "r \<in> set empty" "\<exists>md. r = empty_response user_id c md" by (auto split: if_splits)
  then show ?thesis using rs by (intro bexI [of _ r]) (auto simp: empty_response_def)
qed

section \<open>The settings at start-up\<close>

lemma update_setting_id [simp]: "ch_id (update_setting dicts c) = ch_id c"
proof -
  have "ch_id (fold (\<lambda>d c. if ch_id d = ch_id c
        then c\<lparr>ch_active := ch_active d, ch_amount := ch_amount d, ch_step_count := ch_step_count d,
               ch_starting_block := ch_starting_block d\<rparr> else c) dicts c) = ch_id c"
    by (induction dicts arbitrary: c) auto
  then show ?thesis by (simp add: update_setting_def)
qed

definition same_settings :: "challenge \<Rightarrow> challenge \<Rightarrow> bool" where
  "same_settings c d \<longleftrightarrow> ch_active c = ch_active d \<and> ch_amount c = ch_amount d \<and>
     ch_step_count c = ch_step_count d \<and> ch_starting_block c = ch_starting_block d"

lemma update_setting_other: "ch_id c \<notin> ch_id ` set dicts \<Longrightarrow> update_setting dicts c = c"
  unfolding update_setting_def by (induction dicts) auto

lemma update_setting_own:
  assumes "d \<in> set dicts" and "distinct (map ch_id dicts)" and "ch_id d = ch_id c"
  shows "same_settings (update_setting dicts c) d"
  using assms
proof (induction dicts arbitrary: c)
  case (Cons x dicts)
  show ?case
  proof (cases "x = d")
    case True
    then have "ch_id c \<notin> ch_id ` set dicts" using Cons.prems by auto
    then show ?thesis
      using True Cons.prems(3) update_setting_other [of "c\<lparr>ch_active := ch_active d, ch_amount := ch_amount d,
         ch_step_count := ch_step_count d, ch_starting_block := ch_starting_block d\<rparr>" dicts]
      by (simp add: update_setting_def same_settings_def)
  next
    case False
    then have "d \<in> set dicts" using Cons.prems(1) by auto
    then have "ch_id c \<in> ch_id ` set dicts" using Cons.prems(3) by (metis imageI)
    then have "ch_id x \<noteq> ch_id c" using Cons.prems(2) by auto
    then have "update_setting (x # dicts) c = update_setting dicts c" by (simp add: update_setting_def)
    then show ?thesis using Cons.IH [of c] \<open>d \<in> set dicts\<close> Cons.prems(2,3) by simp
  qed
qed simp

text \<open>After start-up every challenge of the configuration is in the table with the configured settings,
  each exactly once, and the challenges that left the configuration are as they were.\<close>

theorem settings_installed:
  assumes "distinct (map ch_id dicts)" and "distinct (map ch_id existing)"
  shows "distinct (map ch_id (create_new_challenges dicts [] existing)) \<and>
    (\<forall>d \<in> set dicts. \<exists>c \<in> set (create_new_challenges dicts [] existing). ch_id c = ch_id d \<and> same_settings c d) \<and>
    (\<forall>c \<in> set existing. ch_id c \<notin> ch_id ` set dicts \<longrightarrow> c \<in> set (create_new_challenges dicts [] existing))"
proof (intro conjI ballI impI)
  let ?new = "filter (\<lambda>c. ch_id c \<notin> set (map ch_id existing)) dicts"
  have result: "create_new_challenges dicts [] existing = map (update_setting dicts) existing @ ?new"
    by (simp add: create_new_challenges_def)
  have "distinct (map ch_id ?new)" using assms(1) by (rule distinct_map_filter)
  moreover have "map ch_id (map (update_setting dicts) existing) = map ch_id existing" by (simp add: comp_def)
  moreover have "ch_id ` set existing \<inter> ch_id ` set ?new = {}" by (rule Int_emptyI) (elim imageE, simp)
  ultimately show "distinct (map ch_id (create_new_challenges dicts [] existing))"
    using assms(2) unfolding result by (simp add: comp_def)
  fix d assume d: "d \<in> set dicts"
  show "\<exists>c \<in> set (create_new_challenges dicts [] existing). ch_id c = ch_id d \<and> same_settings c d"
  proof (cases "ch_id d \<in> set (map ch_id existing)")
    case True
    then obtain c where c: "c \<in> set existing" "ch_id c = ch_id d" by auto
    have "same_settings (update_setting dicts c) d" using d assms(1) c(2) by (intro update_setting_own) simp_all
    then show ?thesis using c unfolding result by (intro bexI [of _ "update_setting dicts c"]) auto
  next
    case False
    then show ?thesis using d unfolding result by (intro bexI [of _ d]) (auto simp: same_settings_def)
  qed
next
  fix c assume "c \<in> set existing" and "ch_id c \<notin> ch_id ` set dicts"
  then show "c \<in> set (create_new_challenges dicts [] existing)"
    using update_setting_other by (force simp: create_new_challenges_def)
qed

definition config :: "string \<Rightarrow> int \<Rightarrow> challenge" where
  "config i k = \<lparr>ch_id = i, ch_type = Numeric, ch_amount = ''1'', ch_active = True, ch_step_count = Some k,
     ch_starting_block = Some 0\<rparr>"

lemma settings_installed_witness:
  "create_new_challenges [config ''a'' 3, config ''b'' 4] [] [config ''b'' 1, config ''z'' 2]
     = [config ''b'' 4, config ''z'' 2, config ''a'' 3] \<and>
   distinct (map ch_id (create_new_challenges [config ''a'' 3, config ''b'' 4] [] [config ''b'' 1, config ''z'' 2]))"
proof -
  have "create_new_challenges [config ''a'' 3, config ''b'' 4] [] [config ''b'' 1, config ''z'' 2]
     = [config ''b'' 4, config ''z'' 2, config ''a'' 3]"
    by (simp add: create_new_challenges_def config_def update_setting_def)
  moreover have "distinct (map ch_id [config ''a'' 3, config ''b'' 4])"
    and "distinct (map ch_id [config ''b'' 1, config ''z'' 2])"
    by (simp_all add: config_def)
  note settings_installed [OF this]
  ultimately show ?thesis by simp
qed

section \<open>A sample user\<close>

definition shown_db :: ch_db where
  "shown_db = \<lparr>cd_challenges = [(config ''track-upload'' 3)\<lparr>ch_active := False\<rparr>, config ''profile-completion'' 7,
       (config ''connect-verified'' 0)\<lparr>ch_type := Boolean\<rparr>],
     cd_user_challenges =
       [\<lparr>uc_challenge_id = ''track-upload'', uc_user_id = 7, uc_specifier = ''7'', uc_is_complete = True,
         uc_current_step_count = Some 3, uc_completed_blocknumber = Some 1\<rparr>,
        \<lparr>uc_challenge_id = ''profile-completion'', uc_user_id = 7, uc_specifier = ''7'', uc_is_complete = False,
         uc_current_step_count = Some 2, uc_completed_blocknumber = None\<rparr>,
        \<lparr>uc_challenge_id = ''profile-completion'', uc_user_id = 8, uc_specifier = ''8'', uc_is_complete = False,
         uc_current_step_count = Some 5, uc_completed_blocknumber = None\<rparr>],
     cd_profile = [], cd_streaks = [], cd_trending = [], cd_rows = (\<lambda>_. [])\<rparr>"

definition paid_upload :: disbursement where
  "paid_upload = \<lparr>cdis_challenge_id = ''track-upload'', cdis_user_id = 7, cdis_specifier = ''7'',
     cdis_signature = ''sig'', cdis_slot = 1, cdis_amount = ''1''\<rparr>"

definition shown :: "bool \<Rightarrow> response list result" where
  "shown h = get_challenges 0 7 h shown_db [paid_upload] (setup_challenge_bus [])"

lemma shown_history:
  "map_sum id (map (\<lambda>r. (rs_challenge_id r, rs_user_id r, rs_is_disbursed r))) (shown True) =
     Inr [(''track-upload'', 7, True), (''profile-completion'', 7, False), (''connect-verified'', 7, False)]"
  by code_simp

lemma challenges_own_witness:
  "\<exists>rs. shown True = Inr rs \<and> length rs = 3 \<and> (\<forall>r \<in> set rs. rs_user_id r = 7)"
proof -
  obtain rs where rs: "shown True = Inr rs" using shown_history by (cases "shown True") auto
  moreover have "length rs = 3" using shown_history by (auto simp: rs dest: arg_cong [of _ _ length])
  ultimately show ?thesis using challenges_own [OF rs [unfolded shown_def]] by blast
qed

lemma disbursed_was_paid_witness:
  "\<exists>rs. shown True = Inr rs \<and> (\<exists>r \<in> set rs. rs_is_disbursed r) \<and>
     (\<forall>r \<in> set rs. rs_is_disbursed r \<longrightarrow> (\<exists>d \<in> set [paid_upload]. cdis_challenge_id d = rs_challenge_id r))"
proof -
  obtain rs where rs: "shown True = Inr rs" using shown_history by (cases "shown True") auto
  moreover have "\<exists>r \<in> set rs. rs_is_disbursed r" using shown_history by (auto simp: rs map_eq_Cons_conv)
  ultimately show ?thesis using disbursed_was_paid [OF rs [unfolded shown_def]] by blast
qed

lemma open_challenge_shown_witness:
  "\<exists>rs. shown True = Inr rs \<and> (\<exists>r \<in> set rs. rs_challenge_id r = ''connect-verified'' \<and> rs_current_step_count r = Some 0)"
proof -
  let ?c = "(config ''connect-verified'' 0)\<lparr>ch_type := Boolean\<rparr>"
  obtain rs where rs: "shown True = Inr rs" using shown_history by (cases "shown True") auto
  have "od_get (cb_managers (setup_challenge_bus [])) ''connect-verified'' = Some 6" by code_simp
  then have m: "get_manager (setup_challenge_bus []) (ch_id ?c) = Inr connect_verified_challenge_manager"
    by (simp add: get_manager_def config_def challenge_managers_def)
  have "?c \<in> set (cd_challenges shown_db)" "ch_active ?c" "ch_type ?c \<noteq> Trending"
    by (simp_all add: shown_db_def config_def)
  moreover have "uc_challenge_id u \<noteq> ch_id ?c" if "u \<in> set (cd_user_challenges shown_db)" for u
    using that by (auto simp: shown_db_def config_def)
  moreover have "up_should_show_challenge_for_user (mg_updater connect_verified_challenge_manager) shown_db 7 = Inr True"
    by (simp add: manager_defs connect_verified_updater_def base_updater_def)
  ultimately have "\<exists>r \<in> set rs. rs_challenge_id r = ch_id ?c \<and> \<not> rs_is_complete r \<and> rs_current_step_count r = Some 0"
    by (intro open_challenge_shown [OF rs [unfolded shown_def] _ _ _ m])
  then show ?thesis using rs by (auto simp: config_def)
qed

text \<open>Without the history the disbursements are read at the wrong positions: the list of rows is filtered,
  the list of disbursements is not, and an unfinished challenge is shown as disbursed because an inactive
  one before it was paid.\<close>

theorem disbursed_misaligned:
  "map_sum id (map (\<lambda>r. (rs_challenge_id r, rs_is_complete r, rs_is_disbursed r))) (shown False) =
     Inr [(''profile-completion'', False, True), (''connect-verified'', False, False)] \<and>
   \<not> (\<exists>d \<in> set [paid_upload]. cdis_challenge_id d = ''profile-completion'')"
  by code_simp

end
