(* ===== verification/Access_Properties.thy ===== *)
theory Access_Properties
  imports Premium_Access EM_Samples
begin

text \<open>
  Who may hear a premium track, for one request and for a batch of them, and the slugs under which
  tracks and playlists are reached.
\<close>

section \<open>Slugs\<close>

text \<open>C34: The search for a slug always ends with one that is free: over well-formed routes the title of a
  record gets a slug that no other route of the owner carries, made of the title and the collision id that
  is returned.\<close>

theorem slug_generated:
  assumes ok: "routes_ok R" and ts: "sanitize_slug e title n 0 \<noteq> []"
  shows "\<exists>s k. generate_slug_and_collision_id e (rt_table R) (pending_routes R) n title owner
       (sanitize_slug e title n 0) (sanitize_slug e title n 0) = Inr (s, k) \<and>
     s = sanitize_slug e title n k \<and> (\<forall>r \<in> set (rt_table R). \<not> slug_taken_by s owner r)"
proof -
  have "distinct (map route_key (rt_table R))" using ok by (simp add: routes_ok_def)
  then have one: "length (filter (slug_taken_by s owner) (rt_table R)) \<le> 1" for s
    by (intro length_filter_le_1I)
      (auto simp: slug_taken_by_def route_key_def distinct_conv_nth)
  from generate_slug_total [OF one ts] obtain s k where
    g: "generate_slug_and_collision_id e (rt_table R) (pending_routes R) n title owner
       (sanitize_slug e title n 0) (sanitize_slug e title n 0) = Inr (s, k)" by blast
  have "\<forall>r \<in> set (pending_routes R @ rt_table R). route_wf r"
    using ok by (auto simp: routes_ok_def pending_routes_def list_all_iff)
  from generate_slug_free [OF g sanitize_slug_0 this]
  have free: "\<forall>r \<in> set (pending_routes R @ rt_table R). \<not> slug_taken_by s owner r" and s: "s = sanitize_slug e title n k"
    by blast+
  then have "\<forall>r \<in> set (rt_table R). \<not> slug_taken_by s owner r" by simp
  then show ?thesis using g s by blast
qed

lemma slug_generated_witness:
  "\<exists>s k. generate_slug_and_collision_id sample_env (rt_table no_routes) (pending_routes no_routes) 2000001 ''My Song'' 3000001
       (sanitize_slug sample_env ''My Song'' 2000001 0) (sanitize_slug sample_env ''My Song'' 2000001 0) = Inr (s, k) \<and>
     s = sanitize_slug sample_env ''My Song'' 2000001 k"
proof -
  have "routes_ok no_routes" by (simp add: no_routes_def routes_ok_def)
  moreover have "sanitize_slug sample_env ''My Song'' 2000001 0 \<noteq> []" by code_simp
  ultimately show ?thesis using slug_generated by blast
qed

section \<open>Premium content\<close>

definition gated_track :: inst where
  "gated_track = row_of ''Track''
     [(''track_id'', PInt 2000001), (''is_current'', PBool True), (''is_delete'', PBool False),
      (''owner_id'', PInt 3000001), (''is_premium'', PBool True),
      (''premium_conditions'', PDict [(''follow_user_id'', PInt 3000001)])]"

lemma gated_access: "check_access sample_env 3000002 ''track'' gated_track = Inr (grant True False)"
  by code_simp

text \<open>A batch answers as the single check does: every entry of its result is the decision of the single
  check for that user on a current, undeleted row of that track, and was asked for.\<close>

lemma batch_agrees:
  assumes run: "check_access_for_batch e tracks args = Inr res"
    and u: "od_get res u = Some d" and t: "od_get d t = Some a"
  shows "(\<exists>arg \<in> set args. arg_content_type arg = ''track'' \<and> arg_content_id arg = t \<and> arg_user_id arg = u) \<and>
    (\<exists>r \<in> set tracks. as_int (attr r ''track_id'') = t \<and> is_current_row r \<and> attr r ''is_delete'' = PBool False \<and>
       check_access e u ''track'' r = Inr a)"
proof -
  let ?args = "filter (\<lambda>a. arg_content_type a = ''track'') args"
  let ?users = "od_build arg_content_id arg_user_id ?args"
  let ?data = "get_premium_track_data tracks (od_keys ?users)"
  have "?args \<noteq> []" using run u by (auto simp: check_access_for_batch_def Let_def)
  then have "fold_res (batch_step e ?users) ?data [] = Inr res"
    using run by (simp add: check_access_for_batch_def Let_def)
  moreover have "batch_sound e ?users ?data []" by (simp add: batch_sound_def)
  ultimately have "batch_sound e ?users ?data res" by (rule batch_fold_sound) simp
  then obtain r where users: "od_get ?users t = Some u" and r: "(t, r) \<in> set ?data"
      "decide_access e u (attr r ''is_premium'') (attr r ''premium_conditions'') (attr r ''owner_id'') = Inr a"
    using u t unfolding batch_sound_def by blast
  have "od_get ?data t = Some r"
    using r(1) by (intro in_set_od_get) (simp_all add: get_premium_track_data_def distinct_od_build)
  then have "r \<in> set tracks \<and> as_int (attr r ''track_id'') = t \<and> is_current_row r \<and> attr r ''is_delete'' = PBool False"
    unfolding get_premium_track_data_def by (auto dest!: od_get_build_SomeD)
  moreover have "\<exists>arg \<in> set ?args. arg_content_id arg = t \<and> arg_user_id arg = u"
    using od_get_build_SomeD [OF users] by blast
  ultimately show ?thesis using r(2) by (auto simp: check_access_def)
qed

definition ask :: "int \<Rightarrow> access_arg" where
  "ask u = \<lparr>arg_user_id = u, arg_content_id = 2000001, arg_content_type = ''track''\<rparr>"

text \<open>C35: A batch decides access as it should: every entry of its result was asked for, and says of a
  current, undeleted row of the track whether it is premium and whether the user is entitled to it
  by the follows and tips in the tables.\<close>

theorem access_decided:
  assumes "check_access_for_batch e tracks args = Inr res" and "od_get res u = Some d" and "od_get d t = Some a"
    and "\<forall>r \<in> set tracks. \<exists>premium. attr r ''is_premium'' = PBool premium"
  shows "(\<exists>arg \<in> set args. arg_content_type arg = ''track'' \<and> arg_content_id arg = t \<and> arg_user_id arg = u) \<and>
    (\<exists>r \<in> set tracks. as_int (attr r ''track_id'') = t \<and> is_current_row r \<and> attr r ''is_delete'' = PBool False \<and>
       attr r ''is_premium'' = PBool (acc_is_premium a) \<and> (acc_does_user_have_access a \<longleftrightarrow> entitled e u r))"
proof -
  obtain r where asked: "\<exists>arg \<in> set args. arg_content_type arg = ''track'' \<and> arg_content_id arg = t \<and> arg_user_id arg = u"
      and r: "r \<in> set tracks" "as_int (attr r ''track_id'') = t" "is_current_row r" "attr r ''is_delete'' = PBool False"
      and a: "check_access e u ''track'' r = Inr a"
    using batch_agrees [OF assms(1-3)] by blast
  obtain premium where premium: "attr r ''is_premium'' = PBool premium" using assms(4) r(1) by blast
  have "acc_is_premium a = premium \<and> (acc_does_user_have_access a \<longleftrightarrow> entitled e u r)"
    using a by (intro decide_access_entitled [OF _ premium]) (simp add: check_access_def)
  then show ?thesis using asked r premium by blast
qed

text \<open>Somebody who does not follow the artist is not entitled to the sample.\<close>

lemma access_decided_witness:
  "check_access_for_batch sample_env [gated_track] [ask 3000002] = Inr [(3000002, [(2000001, grant True False)])] \<and>
   \<not> entitled sample_env 3000002 gated_track"
proof -
  have run: "check_access_for_batch sample_env [gated_track] [ask 3000002] = Inr [(3000002, [(2000001, grant True False)])]"
    by code_simp
  have "\<forall>r \<in> set [gated_track]. \<exists>premium. attr r ''is_premium'' = PBool premium"
    by (auto simp: gated_track_def row_of_def)
  from access_decided [OF run, of 3000002 "[(2000001, grant True False)]" 2000001 "grant True False", OF _ _ this]
  have "\<not> entitled sample_env 3000002 gated_track" by (simp add: grant_def)
  then show ?thesis using run by blast
qed

text \<open>A batch drops requests: when two users ask for the same track only the last of them is answered, so
  the owner of the track gets no entry at all when another user asks after the owner.\<close>

theorem batch_drops_user:
  "check_access_for_batch sample_env [gated_track] [ask 3000001, ask 3000002] =
     Inr [(3000002, [(2000001, grant True False)])] \<and>
   check_access sample_env 3000001 ''track'' gated_track = Inr (grant True True)"
  by code_simp

end
