(* ===== verification/Spec2Isabelle.thy ===== *)
theory Spec2Isabelle
  imports Prelude PyVal Models Slugs Event_Bus EM_Core EM_Tracks EM_Playlists EM_Social EM_Users
    Premium_Access EM_Update EM_Records EM_Block EM_Samples EM_Properties EM_Content_Properties
    EM_Account_Properties Challenges Challenge_Updaters Challenge_Bus
    Indexing_Errors Metadata_Client Block_Indexer Reorg Chain_Sync Chain_Invariant Chain_Walks EM_Stamps
    Reorg_Entities Indexer_Properties Indexer_Failures Poa_Indexer Poa_Properties
    Sol_Transactions Param_Types Sol_Walk Sol_State User_Bank Sol_Properties
    Rewards_Manager Disbursement_Properties Event_Scanner Scan_Properties
    Spl_Token Spl_Properties Solana_Plays Plays_Properties Listening_History Multihash
    Clock Metrics Metrics_Index Metrics_Properties User_Balances Balance_Properties Health Health_Properties
    Reward_Queries Reward_Properties Challenge_Properties Query_Properties Access_Properties
begin

text \<open>
  A model of the discovery provider of Audius (src/discovery-provider/src), the service that
  indexes the content of the Audius protocol: it reads the transactions of each block, applies the
  events they carry to the tables of tracks, playlists and users, and turns what happened into
  progress on reward challenges.

  \<^bold>\<open>Parts and theories.\<close>

  \<^item> Prelude: Python exceptions and effects.  A handler is a function from a state to a result and a
    state (\<open>py\<close>): when it raises, the changes made before stay, as in the code.  The rule families
    \<open>keeps\<close>, \<open>gives\<close> and \<open>leads\<close> carry the proofs through the combinators.  Dictionaries with
    insertion order (\<open>odict\<close>) and string functions.
  \<^item> PyVal: values of dynamic type (JSON metadata, columns) with Python's truth, equality and
    subscripts; the conversion between integers and text.
  \<^item> Models: the columns of the tables, the listeners and validators that run when an attribute is
    set (models/, model_utils.py, model_validator.py).
  \<^item> Slugs: sanitize_slug and generate_slug_and_collision_id (utils/helpers.py,
    tasks/task_helpers.py), the route tables and their invariant \<open>routes_ok\<close>.
  \<^item> Event_Bus, Challenges, Challenge_Updaters, Challenge_Bus: the queue of the challenge bus,
    ChallengeManager, its updaters, and the bus that runs them (challenges/); Reward_Queries: the
    settings of the challenges at start-up and what clients are shown (queries/get_challenges.py).
  \<^item> EM_Core, EM_Tracks, EM_Playlists, EM_Social, EM_Users, EM_Update: the entity manager
    (tasks/entity_manager/), one theory per module, composed by \<open>entity_manager_update\<close>.
  \<^item> Indexing_Errors: the error record, the consensus of the other nodes and the skipped transactions
    (queries/); Metadata_Client: the documents the events of a block refer to
    (utils/cid_metadata_client.py, \<open>fetch_cid_metadata\<close>).
  \<^item> Block_Indexer, Reorg, Chain_Sync: tasks/index_nethermind.py.  \<open>index_block\<close> turns one block into
    rows, in a session whose scope (\<open>scoped\<close>) commits or rolls back; \<open>revert_blocks\<close> undoes blocks;
    \<open>update_task\<close> walks back from its target to a block the database knows, reverts what the
    database has beyond it and indexes the way up.  The state \<open>ix_state\<close> holds the tables of the
    entity manager, the block tables and the Redis keys.
  \<^item> Chain_Invariant, Chain_Walks: the block table as one chain (\<open>chain_ok\<close>), and the two walks;
    EM_Stamps, Reorg_Entities: the rows a block adds carry its hash and number, so that they are
    what a revert removes, and what the tables of entities are after it (\<open>restored\<close>: several rows of
    an entity in one block leave the database a choice); Indexer_Properties, Indexer_Failures: the
    properties.  Poa_Indexer, Poa_Properties: tasks/index.py, the indexer of the chain before, where it
    differs.
  \<^item> Sol_Transactions: what is read of a Solana transaction and the parser of instruction data
    (solana/); Param_Types: the types of what it parses; Sol_Walk: the walk back to the last known transaction, \<open>get_transaction_signatures\<close>;
    Sol_State: tables, sessions and Redis keys of the Solana indexers, and the locales of their
    tables and batches; User_Bank: tasks/index_user_bank.py; Sol_Properties: their properties;
    Rewards_Manager, Disbursement_Properties: tasks/index_rewards_manager.py and its properties;
    Spl_Token, Spl_Properties: tasks/index_spl_token.py, the purchases and transfers from outside;
    Solana_Plays, Plays_Properties: tasks/index_solana_plays.py, the listens.  Completeness is stated
    for runs that succeed, from where the walk starts; the bound of 99010 transactions is that of the
    hundred pages a run keeps of what is new, whatever the length of the history.
  \<^item> Event_Scanner, Scan_Properties: eth_indexing/event_scanner.py and tasks/index_eth.py, the scan of
    Ethereum for transfers of the token; \<open>scan_loop\<close> is the rule its proofs share.
  \<^item> User_Balances, Balance_Properties: tasks/cache_user_balance.py and queries/get_balances.py, the
    cached balances of the users, over the state of the Solana indexers; Health, Health_Properties:
    queries/get_health.py and the checks of queries/health_check.py, over the states of all indexers.
  \<^item> Listening_History: tasks/user_listening_history/, specified over the table of plays: the plays
    stored last of each track, the latest thousand of them; a user of more tracks whose plays were
    stored out of order is left out, since the limit may have cut a play that counts again.
  \<^item> Multihash: utils/varint.py and utils/multihash.py.
  \<^item> Clock, Metrics, Metrics_Index, Metrics_Properties: utils/redis_metrics.py, tasks/index_metrics.py and
    queries/update_historical_metrics.py, the counts of requests and users; Clock has the part of
    \<open>datetime\<close> they use.  A period of which users are counted is the locale \<open>period\<close>.
  \<^item> Premium_Access: the access checks of premium content (premium_content/), and who is entitled to it
    by the rows of follows and tips (\<open>entitled\<close>).
  \<^item> EM_Records, EM_Block: the invariants of the records collected in a block and of the tables.
  \<^item> Reward_Properties (every run of bus and indexer, as reachability by \<open>bus_step\<close>),
    Challenge_Properties, Query_Properties, Access_Properties: their properties.
  \<^item> EM_Properties, EM_Content_Properties, EM_Account_Properties: the properties, on sample data
    from EM_Samples.

  \<^bold>\<open>Interfaces.\<close>  \<open>signed_handler\<close> (a validation followed by a body), \<open>side_frame\<close> and
  \<open>block_frame\<close> (what a predicate must satisfy to survive every handler) and
  \<open>challenge_updater\<close> with its extension \<open>settled_updater\<close> (what an updater may do to user challenges),
  \<open>manager_invariant\<close> (what every run of a manager keeps) and \<open>indexer_frame\<close> (what a predicate must
  satisfy to survive the reading part of a block), \<open>processed_table\<close> with its extension \<open>batch_processing\<close>
  (a table of processed transactions, filled batch by batch), and \<open>period\<close> (a day or a month whose users
  are counted by a cache that is cleaned up) are locales, each interpreted on
  the handlers, invariants, updaters and tables of the model.  Block numbers of the database are a linear
  order with NULL on top (\<open>sql_int\<close>), as PostgreSQL sorts them.

  \<^bold>\<open>Parameters.\<close>  Code outside the repository is a field of the environment \<open>env\<close> or an argument: the
  JSON schema validator, Hashids, signature recovery, the service provider contract, the daylight
  saving rule of a time zone.  The block indexer takes from outside (\<open>ix_env\<close>, \<open>chain_env\<close>) the node of
  the chain, the content nodes, the answers of the other discovery nodes, the verdict of the
  database on a commit, and which of several equally late rows a query returns first.

  \<^bold>\<open>Termination.\<close>  The two walks of \<open>update_task\<close>, the walk of the Solana indexers and the scan are
  partial functions, because their loops have no bound.  The scan of Ethereum always returns
  (\<open>scan_requests_bounded\<close>), the walk of the Solana indexers returns on every finite history
  (\<open>user_bank_in_order\<close>, \<open>spl_history_sound\<close>, \<open>gap_never_filled\<close>), the walks of \<open>update_task\<close> on a chain whose parents have smaller numbers
  (\<open>update_task_one_chain\<close>, \<open>poa_update_returns\<close>).  Every other definition is total.  The search for a free collision id
  is a \<open>function\<close> whose measure counts the routes that carry a slug still to be tried; no fuel is
  used.

  \<^bold>\<open>Not modelled.\<close>  Logging and the metrics for Prometheus; the text of SQL statements (a query is the filter it
  states, over the rows of the table); strings beyond Latin-1; the REST API, which marshals
  requests; queries whose work is done by PostgreSQL; migrations; the services written in other
  languages.
\<close>

end
